(* ===== verification/Prelude.thy ===== *)
theory Prelude
  imports
    Complex_Main
    "HOL-Library.Char_ord"
    "HOL-Library.List_Lexorder"
    "HOL-Library.Product_Lexorder"
    "HOL-Library.Sublist"
    "HOL-Library.Multiset"
begin

text \<open>
  Shared material of the development: the type of identifiers, the errors the Python code
  raises, the Python idioms that several components use (sorted sets, first minimum, chunks of
  dictionaries), generic lemmas on lists and sets, and the theorem collections.

  Python strings are \<open>string\<close> (a list of characters); their order is the lexicographic order by
  character code, which is Python's order on \<open>str\<close>. Python integers are \<open>int\<close>. Python floats are
  \<open>real\<close>: the rounding of IEEE arithmetic is not modelled. A Python \<open>set\<close> is an \<open>'a set\<close>; the
  code only ever iterates over a set through \<open>sorted\<close>, which is \<open>py_sorted\<close> below. A list keeps
  its order and duplicates.
\<close>

type_synonym ident = string

text \<open>The exceptions that the modelled code raises or that a validator of a record raises.\<close>

datatype py_error =
    ValueError string
  | KeyError string
  | IndexError
  | ZeroDivisionError
  | AssertionError string
  | RuntimeError string
  | TypeError string
  | AttributeError string
  | InfrastructureFailure string

type_synonym 'a result = "py_error + 'a"

named_theorems valid_intros "a record satisfies the validator of its class"
named_theorems inv_intros "an operation keeps an invariant"
named_theorems frame_simps "what an operation leaves unchanged"

subsection \<open>Results\<close>

definition bind_result :: "'a result \<Rightarrow> ('a \<Rightarrow> 'b result) \<Rightarrow> 'b result" where
  "bind_result r f = (case r of Inl e \<Rightarrow> Inl e | Inr v \<Rightarrow> f v)"

lemma bind_result_simps [simp]:
  "bind_result (Inl e) f = Inl e"
  "bind_result (Inr v) f = f v"
  by (simp_all add: bind_result_def)

lemma bind_result_Inr_iff: "bind_result r f = Inr w \<longleftrightarrow> (\<exists>v. r = Inr v \<and> f v = Inr w)"
  by (cases r) auto

fun map_result :: "('a \<Rightarrow> 'b result) \<Rightarrow> 'a list \<Rightarrow> 'b list result" where
  "map_result f [] = Inr []"
| "map_result f (x # xs) =
     bind_result (f x) (\<lambda>y. bind_result (map_result f xs) (\<lambda>ys. Inr (y # ys)))"

lemma map_result_Inr: "(\<And>x. x \<in> set xs \<Longrightarrow> f x = Inr (g x)) \<Longrightarrow> map_result f xs = Inr (map g xs)"
  by (induction xs) auto

lemma map_result_total:
  "(\<And>x. x \<in> set xs \<Longrightarrow> \<exists>y. f x = Inr y) \<Longrightarrow> \<exists>ys. map_result f xs = Inr ys"
  by (induction xs) (auto simp: bind_result_Inr_iff)

lemma map_result_list_all2:
  "map_result f xs = Inr ys \<Longrightarrow> list_all2 (\<lambda>x y. f x = Inr y) xs ys"
  by (induction xs arbitrary: ys) (auto simp: bind_result_Inr_iff)

lemma map_result_map:
  assumes "map_result f xs = Inr ys" and "\<And>x y. f x = Inr y \<Longrightarrow> h y = k x"
  shows "map h ys = map k xs"
  using assms(1) by (induction xs arbitrary: ys) (auto simp: bind_result_Inr_iff assms(2))

subsection \<open>Sorted sets and lists\<close>

text \<open>\<open>sorted(s)\<close> for a Python set \<open>s\<close>: its elements in increasing order, without repetition.\<close>

definition py_sorted :: "'a::linorder set \<Rightarrow> 'a list" where
  "py_sorted S = sorted_list_of_set S"

lemma set_py_sorted [simp]: "finite S \<Longrightarrow> set (py_sorted S) = S"
  by (simp add: py_sorted_def)

lemma sorted_py_sorted [simp]: "sorted (py_sorted S)"
  by (simp add: py_sorted_def)

lemma distinct_py_sorted [simp]: "distinct (py_sorted S)"
  by (simp add: py_sorted_def)

lemma length_py_sorted [simp]: "length (py_sorted S) = card S"
  by (simp add: py_sorted_def)

lemma py_sorted_empty [simp]: "py_sorted {} = []"
  by (simp add: py_sorted_def)

lemma py_sorted_eq_Nil: "finite S \<Longrightarrow> py_sorted S = [] \<longleftrightarrow> S = {}"
  by (simp add: py_sorted_def)

lemma py_sorted_set [code_unfold]: "py_sorted (set xs) = sort (remdups xs)"
  by (simp add: py_sorted_def sorted_list_of_set_sort_remdups)

lemma py_sorted_unique: "sorted xs \<Longrightarrow> distinct xs \<Longrightarrow> py_sorted (set xs) = xs"
  by (simp add: py_sorted_def sorted_distinct_set_unique)

text \<open>\<open>min(xs, key=f)\<close> of a non-empty list: the first element of least key.\<close>

fun min_by :: "('a \<Rightarrow> 'k::linorder) \<Rightarrow> 'a \<Rightarrow> 'a list \<Rightarrow> 'a" where
  "min_by f x [] = x"
| "min_by f x (y # ys) = (if f y < f x then min_by f y ys else min_by f x ys)"

lemma min_by_in: "min_by f x xs \<in> set (x # xs)"
  by (induction xs arbitrary: x) (simp_all, metis list.set_intros)

lemma min_by_le: "y \<in> set (x # xs) \<Longrightarrow> f (min_by f x xs) \<le> f y"
proof (induction xs arbitrary: x y)
  case Nil
  then show ?case by simp
next
  case (Cons z zs)
  have hd_le: "f (min_by f v zs) \<le> f v" for v
    using Cons.IH [of v v] by simp
  from Cons.prems consider "y = x" | "y = z" | "y \<in> set zs" by auto
  then show ?case
  proof cases
    case 3
    then show ?thesis using Cons.IH [of y] by simp
  qed (use hd_le [of x] hd_le [of z] in auto)
qed

subsection \<open>Association lists in insertion order\<close>

text \<open>
  A Python dictionary that the code iterates over is an association list in insertion order:
  assigning to a key that is present keeps its position, a new key goes to the end.
\<close>

fun dict_set :: "'k \<Rightarrow> 'v \<Rightarrow> ('k \<times> 'v) list \<Rightarrow> ('k \<times> 'v) list" where
  "dict_set k v [] = [(k, v)]"
| "dict_set k v ((k', v') # d) = (if k' = k then (k, v) # d else (k', v') # dict_set k v d)"

lemma map_of_dict_set [simp]: "map_of (dict_set k v d) = (map_of d)(k \<mapsto> v)"
  by (induction d) auto

lemma keys_dict_set: "fst ` set (dict_set k v d) = insert k (fst ` set d)"
  by (simp flip: dom_map_of_conv_image_fst)

lemma distinct_dict_set: "distinct (map fst d) \<Longrightarrow> distinct (map fst (dict_set k v d))"
proof (induction d)
  case (Cons a d)
  moreover have "fst ` set (dict_set k v d) = insert k (fst ` set d)"
    by (rule keys_dict_set)
  ultimately show ?case by (cases a) (auto simp flip: set_map)
qed simp

text \<open>A dictionary comprehension or a \<open>dict\<close> of pairs: later entries win.\<close>

definition dict_of :: "('k \<times> 'v) list \<Rightarrow> ('k \<times> 'v) list" where
  "dict_of kvs = foldl (\<lambda>d (k, v). dict_set k v d) [] kvs"

lemma dict_of_foldl_keys:
  "fst ` set (foldl (\<lambda>d (k, v). dict_set k v d) d kvs) = fst ` set d \<union> fst ` set kvs"
proof (induction kvs arbitrary: d)
  case (Cons kv kvs)
  then show ?case by (cases kv) (simp add: keys_dict_set)
qed simp

lemma keys_dict_of [simp]: "fst ` set (dict_of kvs) = fst ` set kvs"
  by (simp add: dict_of_def dict_of_foldl_keys)

lemma dict_of_foldl_distinct:
  "distinct (map fst d) \<Longrightarrow> distinct (map fst (foldl (\<lambda>d (k, v). dict_set k v d) d kvs))"
  by (induction kvs arbitrary: d) (auto simp: distinct_dict_set split: prod.splits)

lemma distinct_dict_of [simp]: "distinct (map fst (dict_of kvs))"
  by (simp add: dict_of_def dict_of_foldl_distinct)

lemma dict_of_foldl_map:
  "map_of (foldl (\<lambda>d (k, v). dict_set k v d) d kvs) = map_of d ++ map_of (rev kvs)"
proof (induction kvs arbitrary: d)
  case (Cons kv kvs)
  then show ?case by (cases kv) (simp add: map_add_upd_left map_add_def fun_eq_iff split: option.splits)
qed simp

lemma map_of_dict_of: "map_of (dict_of kvs) = map_of (rev kvs)"
  by (simp add: dict_of_def dict_of_foldl_map)

lemma dict_set_fresh: "k \<notin> fst ` set d \<Longrightarrow> dict_set k v d = d @ [(k, v)]"
  by (induction d) auto

lemma dict_of_foldl_fresh:
  "distinct (map fst kvs) \<Longrightarrow> fst ` set d \<inter> fst ` set kvs = {} \<Longrightarrow>
   foldl (\<lambda>d (k, v). dict_set k v d) d kvs = d @ kvs"
proof (induction kvs arbitrary: d)
  case (Cons kv kvs)
  then show ?case
    by (cases kv) (auto simp: dict_set_fresh image_iff)
qed simp

lemma dict_of_distinct: "distinct (map fst kvs) \<Longrightarrow> dict_of kvs = kvs"
  by (simp add: dict_of_def dict_of_foldl_fresh)

lemma set_dict_of: "set (dict_of kvs) \<subseteq> set kvs"
proof
  fix kv assume kv: "kv \<in> set (dict_of kvs)"
  obtain k v where e: "kv = (k, v)" by (cases kv)
  have "map_of (dict_of kvs) k = Some v" using kv e by (simp add: map_of_eq_Some_iff)
  then have "map_of (rev kvs) k = Some v" by (simp add: map_of_dict_of)
  from map_of_SomeD [OF this] show "kv \<in> set kvs" by (simp add: e)
qed

text \<open>\<open>d[k].append(v)\<close> on a \<open>defaultdict(list)\<close>.\<close>

definition dict_append :: "'k \<Rightarrow> 'v \<Rightarrow> ('k \<times> 'v list) list \<Rightarrow> ('k \<times> 'v list) list" where
  "dict_append k v d = dict_set k ((case map_of d k of None \<Rightarrow> [] | Some vs \<Rightarrow> vs) @ [v]) d"

definition dict_get_list :: "('k \<times> 'v list) list \<Rightarrow> 'k \<Rightarrow> 'v list" where
  "dict_get_list d k = (case map_of d k of None \<Rightarrow> [] | Some vs \<Rightarrow> vs)"

lemma dict_get_list_append:
  "dict_get_list (dict_append k v d) k' = dict_get_list d k' @ (if k' = k then [v] else [])"
  by (simp add: dict_get_list_def dict_append_def split: option.splits)

lemma keys_dict_append: "fst ` set (dict_append k v d) = insert k (fst ` set d)"
  by (simp add: dict_append_def keys_dict_set)

text \<open>The idiom \<open>for x in xs: d.setdefault(f(x), []).append(x)\<close>.\<close>

definition group_by :: "('a \<Rightarrow> 'k) \<Rightarrow> 'a list \<Rightarrow> ('k \<times> 'a list) list" where
  "group_by f xs = foldl (\<lambda>d x. dict_append (f x) x d) [] xs"

lemma group_by_foldl_get:
  "dict_get_list (foldl (\<lambda>d x. dict_append (f x) x d) d xs) k = dict_get_list d k @ filter (\<lambda>x. f x = k) xs"
  by (induction xs arbitrary: d) (auto simp: dict_get_list_append)

lemma group_by_get [simp]: "dict_get_list (group_by f xs) k = filter (\<lambda>x. f x = k) xs"
  unfolding group_by_def group_by_foldl_get by (simp add: dict_get_list_def)

lemma group_by_foldl_keys:
  "fst ` set (foldl (\<lambda>d x. dict_append (f x) x d) d xs) = fst ` set d \<union> f ` set xs"
  by (induction xs arbitrary: d) (auto simp: keys_dict_append)

lemma group_by_keys [simp]: "fst ` set (group_by f xs) = f ` set xs"
  by (simp add: group_by_def group_by_foldl_keys)

lemma distinct_dict_append: "distinct (map fst d) \<Longrightarrow> distinct (map fst (dict_append k v d))"
  by (simp add: dict_append_def distinct_dict_set)

lemma distinct_group_by [simp]: "distinct (map fst (group_by f xs))"
proof -
  have "distinct (map fst d) \<Longrightarrow> distinct (map fst (foldl (\<lambda>d x. dict_append (f x) x d) d xs))" for d
    by (induction xs arbitrary: d) (auto simp: distinct_dict_append)
  then show ?thesis by (simp add: group_by_def)
qed

lemma group_by_entry: "(k, ys) \<in> set (group_by f xs) \<longleftrightarrow> k \<in> f ` set xs \<and> ys = filter (\<lambda>x. f x = k) xs"
proof -
  have "(k, ys) \<in> set (group_by f xs) \<longleftrightarrow> map_of (group_by f xs) k = Some ys"
    by (simp add: map_of_eq_Some_iff)
  also have "\<dots> \<longleftrightarrow> k \<in> f ` set xs \<and> dict_get_list (group_by f xs) k = ys"
  proof (cases "map_of (group_by f xs) k")
    case None
    then have "k \<notin> f ` set xs" using group_by_keys [of f xs] by (simp add: map_of_eq_None_iff)
    then show ?thesis using None by simp
  next
    case (Some zs)
    then have "fst (k, zs) \<in> fst ` set (group_by f xs)" by (intro imageI map_of_SomeD)
    then have "k \<in> f ` set xs" by simp
    then show ?thesis using Some unfolding dict_get_list_def by simp
  qed
  also have "\<dots> \<longleftrightarrow> k \<in> f ` set xs \<and> ys = filter (\<lambda>x. f x = k) xs" by auto
  finally show ?thesis .
qed

text \<open>The groups hold every element once: together they are a permutation of the list.\<close>

lemma mset_dict_append: "mset (concat (map snd (dict_append k v d))) = add_mset v (mset (concat (map snd d)))"
proof (cases "map_of d k")
  case None
  then have "k \<notin> fst ` set d" by (simp add: map_of_eq_None_iff)
  then have "dict_append k v d = d @ [(k, [v])]"
    by (simp add: dict_append_def None dict_set_fresh)
  then show ?thesis by simp
next
  case (Some vs)
  have "mset (concat (map snd (dict_set k (vs @ [v]) d))) = add_mset v (mset (concat (map snd d)))"
    using Some by (induction d) (auto split: if_splits)
  then show ?thesis using Some by (simp add: dict_append_def)
qed

lemma mset_group_by: "mset (concat (map snd (group_by f xs))) = mset xs"
proof -
  have "mset (concat (map snd (foldl (\<lambda>d x. dict_append (f x) x d) d xs))) = mset (concat (map snd d)) + mset xs" for d
    by (induction xs arbitrary: d) (simp_all only: foldl_Cons foldl_Nil mset_dict_append mset.simps, simp_all)
  then show ?thesis by (simp add: group_by_def)
qed

subsection \<open>Other list facts\<close>

lemma foldl_invariant:
  "P s \<Longrightarrow> (\<And>s x. P s \<Longrightarrow> x \<in> set xs \<Longrightarrow> P (f s x)) \<Longrightarrow> P (foldl f s xs)"
  by (induction xs arbitrary: s) auto

text \<open>\<open>int(x)\<close> of a float: the integer part.\<close>

definition truncate_real :: "real \<Rightarrow> int" where
  "truncate_real r = (if r < 0 then \<lceil>r\<rceil> else \<lfloor>r\<rfloor>)"

lemma sum_list_nonneg_int: "(\<And>x. x \<in> set xs \<Longrightarrow> 0 \<le> f x) \<Longrightarrow> 0 \<le> (\<Sum>x\<leftarrow>xs. (f x :: int))"
  by (induction xs) auto

subsection \<open>Ordered pairs\<close>

text \<open>The pairs \<open>(a, b)\<close> of elements with \<open>a\<close> before \<open>b\<close>.\<close>

fun ordered_pairs :: "'a list \<Rightarrow> ('a \<times> 'a) list" where
  "ordered_pairs [] = []"
| "ordered_pairs (a # rest) = map (\<lambda>b. (a, b)) rest @ ordered_pairs rest"

lemma ordered_pairs_set: "(a, b) \<in> set (ordered_pairs xs) \<Longrightarrow> a \<in> set xs \<and> b \<in> set xs"
  by (induction xs) auto

lemma ordered_pairs_complete:
  "a \<in> set xs \<Longrightarrow> b \<in> set xs \<Longrightarrow> a \<noteq> b \<Longrightarrow> (a, b) \<in> set (ordered_pairs xs) \<or> (b, a) \<in> set (ordered_pairs xs)"
  by (induction xs) auto

lemma set_ordered_pairs:
  assumes "sorted (map f xs)" "distinct (map f xs)"
  shows "set (ordered_pairs xs) = {(a, b). a \<in> set xs \<and> b \<in> set xs \<and> f a < (f b :: string)}"
  using assms
proof (induction xs)
  case (Cons x xs)
  have less: "f x < f y" if "y \<in> set xs" for y
    using Cons.prems that by (auto simp: order_less_le)
  have "set (ordered_pairs (x # xs)) = Pair x ` set xs \<union> {(a, b). a \<in> set xs \<and> b \<in> set xs \<and> f a < f b}"
    using Cons by simp
  also have "\<dots> = {(a, b). a \<in> set (x # xs) \<and> b \<in> set (x # xs) \<and> f a < f b}"
    using less by (force simp: not_less_iff_gr_or_eq dest: less_asym)
  finally show ?case .
qed simp

end
