(* ===== verification/Geometry.thy ===== *)
theory Geometry
  imports Prelude
begin

text \<open>
  The integer geometry of the layout: \<open>schemas/common.py\<close> (points, edges, boxes, canonical
  polygons), the numeric helpers of \<open>regions/topology.py\<close> and the polygon predicates of
  \<open>actions/candidates.py\<close>. Coordinates are database units, Python integers.
\<close>

subsection \<open>Points, edges, boxes (schemas/common.py)\<close>

record point =
  pt_x :: int
  pt_y :: int

record dvector =
  vec_dx :: int
  vec_dy :: int

record edge =
  edge_start :: point
  edge_end :: point

record box =
  bx_x1 :: int
  bx_y1 :: int
  bx_x2 :: int
  bx_y2 :: int

text \<open>The validator \<open>Box.ordered\<close>; \<open>mk_box\<close> is the constructor, which runs it.\<close>

definition box_ordered :: "box \<Rightarrow> bool" where
  "box_ordered b \<longleftrightarrow> \<not> (bx_x2 b < bx_x1 b \<or> bx_y2 b < bx_y1 b)"

definition mk_box :: "int \<Rightarrow> int \<Rightarrow> int \<Rightarrow> int \<Rightarrow> box result" where
  "mk_box x1 y1 x2 y2 =
     (let b = \<lparr>bx_x1 = x1, bx_y1 = y1, bx_x2 = x2, bx_y2 = y2\<rparr>
      in if box_ordered b then Inr b else Inl (ValueError ''box coordinates must be ordered''))"

definition box_from_sequence :: "int list \<Rightarrow> box result" where
  "box_from_sequence vs =
     (case vs of [x1, y1, x2, y2] \<Rightarrow> mk_box x1 y1 x2 y2
      | _ \<Rightarrow> Inl (ValueError ''values to unpack''))"

definition box_width :: "box \<Rightarrow> int" where
  "box_width b = bx_x2 b - bx_x1 b"

definition box_height :: "box \<Rightarrow> int" where
  "box_height b = bx_y2 b - bx_y1 b"

definition box_area :: "box \<Rightarrow> int" where
  "box_area b = box_width b * box_height b"

definition box_centroid :: "box \<Rightarrow> real \<times> real" where
  "box_centroid b = (real_of_int (bx_x1 b + bx_x2 b) / 2, real_of_int (bx_y1 b + bx_y2 b) / 2)"

definition box_expand :: "box \<Rightarrow> int \<Rightarrow> box result" where
  "box_expand b amount =
     mk_box (bx_x1 b - amount) (bx_y1 b - amount) (bx_x2 b + amount) (bx_y2 b + amount)"

definition box_intersects :: "box \<Rightarrow> box \<Rightarrow> bool" where
  "box_intersects a b \<longleftrightarrow>
     \<not> (bx_x2 a < bx_x1 b \<or> bx_x2 b < bx_x1 a \<or> bx_y2 a < bx_y1 b \<or> bx_y2 b < bx_y1 a)"

definition box_intersection_area :: "box \<Rightarrow> box \<Rightarrow> int" where
  "box_intersection_area a b =
     max 0 (min (bx_x2 a) (bx_x2 b) - max (bx_x1 a) (bx_x1 b)) *
     max 0 (min (bx_y2 a) (bx_y2 b) - max (bx_y1 a) (bx_y1 b))"

definition gap_dx :: "box \<Rightarrow> box \<Rightarrow> int" where
  "gap_dx a b = max (max (bx_x1 a - bx_x2 b) (bx_x1 b - bx_x2 a)) 0"

definition gap_dy :: "box \<Rightarrow> box \<Rightarrow> int" where
  "gap_dy a b = max (max (bx_y1 a - bx_y2 b) (bx_y1 b - bx_y2 a)) 0"

definition box_gap :: "box \<Rightarrow> box \<Rightarrow> real" where
  "box_gap a b = sqrt (real_of_int (gap_dx a b * gap_dx a b + gap_dy a b * gap_dy a b))"

definition box_union :: "box \<Rightarrow> box \<Rightarrow> box result" where
  "box_union a b =
     mk_box (min (bx_x1 a) (bx_x1 b)) (min (bx_y1 a) (bx_y1 b))
            (max (bx_x2 a) (bx_x2 b)) (max (bx_y2 a) (bx_y2 b))"

text \<open>\<open>canonical_polygon\<close>: drop the closing point, orient, take the least rotation.\<close>

definition shoelace2 :: "(int \<times> int) list \<Rightarrow> int" where
  "shoelace2 raw =
     (\<Sum>i\<leftarrow>[0..<length raw].
        fst (raw ! i) * snd (raw ! ((i + 1) mod length raw)) -
        fst (raw ! ((i + 1) mod length raw)) * snd (raw ! i))"

definition open_ring :: "(int \<times> int) list \<Rightarrow> (int \<times> int) list" where
  "open_ring raw = (if length raw > 1 \<and> hd raw = last raw then butlast raw else raw)"

definition rotations :: "'a list \<Rightarrow> 'a list list" where
  "rotations raw = map (\<lambda>i. drop i raw @ take i raw) [0..<length raw]"

definition canonical_ring :: "(int \<times> int) list \<Rightarrow> (int \<times> int) list" where
  "canonical_ring pts =
     (let raw = open_ring pts in
      if length raw < 3 then raw
      else let raw = (if shoelace2 raw < 0 then rev raw else raw)
           in Min (set (rotations raw)))"

definition canonical_polygon :: "point list \<Rightarrow> point list" where
  "canonical_polygon pts =
     map (\<lambda>(x, y). \<lparr>pt_x = x, pt_y = y\<rparr>) (canonical_ring (map (\<lambda>p. (pt_x p, pt_y p)) pts))"

subsection \<open>Numeric helpers (regions/topology.py)\<close>

datatype rounding = Nearest | Outward | Inward

definition nm_to_dbu :: "int \<Rightarrow> int \<Rightarrow> rounding \<Rightarrow> int result" where
  "nm_to_dbu nm dbu_per_um r =
     (if nm < 0 \<or> dbu_per_um \<le> 0
      then Inl (ValueError ''nm and dbu_per_um must be non-negative/positive'')
      else let numerator = nm * dbu_per_um in
        case r of
          Outward \<Rightarrow> Inr ((numerator + 999) div 1000)
        | Inward \<Rightarrow> Inr (numerator div 1000)
        | Nearest \<Rightarrow> Inr ((numerator + 500) div 1000))"

definition box_polygon :: "box \<Rightarrow> point list" where
  "box_polygon b =
     [\<lparr>pt_x = bx_x1 b, pt_y = bx_y1 b\<rparr>, \<lparr>pt_x = bx_x1 b, pt_y = bx_y2 b\<rparr>,
      \<lparr>pt_x = bx_x2 b, pt_y = bx_y2 b\<rparr>, \<lparr>pt_x = bx_x2 b, pt_y = bx_y1 b\<rparr>]"

text \<open>\<open>math.isqrt\<close> of Python's library: the integer part of the square root.\<close>

fun isqrt :: "nat \<Rightarrow> nat" where
  "isqrt n =
     (if n = 0 then 0
      else let r = 2 * isqrt (n div 4) in if (r + 1) * (r + 1) \<le> n then r + 1 else r)"

declare isqrt.simps [simp del]

definition outward_box_gap_dbu :: "box \<Rightarrow> box \<Rightarrow> int" where
  "outward_box_gap_dbu a b =
     (let squared = gap_dx a b * gap_dx a b + gap_dy a b * gap_dy a b;
          root = int (isqrt (nat squared))
      in if root * root = squared then root else root + 1)"

definition box_intersection :: "box \<Rightarrow> box \<Rightarrow> box option" where
  "box_intersection a b =
     (let x1 = max (bx_x1 a) (bx_x1 b); y1 = max (bx_y1 a) (bx_y1 b);
          x2 = min (bx_x2 a) (bx_x2 b); y2 = min (bx_y2 a) (bx_y2 b)
      in if x1 \<ge> x2 \<or> y1 \<ge> y2 then None
         else Some \<lparr>bx_x1 = x1, bx_y1 = y1, bx_x2 = x2, bx_y2 = y2\<rparr>)"

datatype orientation = Horizontal | Vertical | Square

definition box_orientation :: "box \<Rightarrow> orientation" where
  "box_orientation b =
     (if box_width b > box_height b then Horizontal
      else if box_height b > box_width b then Vertical else Square)"

subsection \<open>Polygon predicates (actions/candidates.py)\<close>

definition polygon_area2 :: "point list \<Rightarrow> int" where
  "polygon_area2 pts = \<bar>\<Sum>i\<leftarrow>[0..<length pts].
     pt_x (pts ! i) * pt_y (pts ! ((i + 1) mod length pts)) -
     pt_x (pts ! ((i + 1) mod length pts)) * pt_y (pts ! i)\<bar>"

definition turn :: "point \<Rightarrow> point \<Rightarrow> point \<Rightarrow> int" where
  "turn a b c =
     (let value = (pt_y b - pt_y a) * (pt_x c - pt_x b) - (pt_x b - pt_x a) * (pt_y c - pt_y b)
      in if value = 0 then 0 else if value > 0 then 1 else -1)"

definition on_segment :: "point \<Rightarrow> point \<Rightarrow> point \<Rightarrow> bool" where
  "on_segment a b c \<longleftrightarrow>
     min (pt_x a) (pt_x c) \<le> pt_x b \<and> pt_x b \<le> max (pt_x a) (pt_x c) \<and>
     min (pt_y a) (pt_y c) \<le> pt_y b \<and> pt_y b \<le> max (pt_y a) (pt_y c)"

definition segments_intersect :: "point \<Rightarrow> point \<Rightarrow> point \<Rightarrow> point \<Rightarrow> bool" where
  "segments_intersect a b c d \<longleftrightarrow>
     (let o1 = turn a b c; o2 = turn a b d; o3 = turn c d a; o4 = turn c d b in
      if o1 \<noteq> o2 \<and> o3 \<noteq> o4 then True
      else (o1 = 0 \<and> on_segment a c b) \<or> (o2 = 0 \<and> on_segment a d b) \<or>
           (o3 = 0 \<and> on_segment c a d) \<or> (o4 = 0 \<and> on_segment c b d))"

definition polygon_is_simple :: "point list \<Rightarrow> bool" where
  "polygon_is_simple pts \<longleftrightarrow>
     (let count = length pts in
      card ((\<lambda>p. (pt_x p, pt_y p)) ` set pts) = count \<and>
      (\<forall>left \<in> set [0..<count]. \<forall>right \<in> set [Suc left..<count].
         (right \<in> {left, (left + 1) mod count} \<or> (left = 0 \<and> Suc right = count)) \<or>
         \<not> segments_intersect (pts ! left) (pts ! ((left + 1) mod count))
                              (pts ! right) (pts ! ((right + 1) mod count))))"

definition geometry_box :: "point list \<Rightarrow> box result" where
  "geometry_box pts =
     (if pts = [] then Inl (ValueError ''min() arg is an empty sequence'')
      else mk_box (Min (pt_x ` set pts)) (Min (pt_y ` set pts))
                  (Max (pt_x ` set pts)) (Max (pt_y ` set pts)))"

definition centroid_distance :: "box \<Rightarrow> box \<Rightarrow> real" where
  "centroid_distance l r =
     sqrt ((fst (box_centroid l) - fst (box_centroid r)) ^ 2 +
           (snd (box_centroid l) - snd (box_centroid r)) ^ 2)"

subsection \<open>Boxes: construction and order\<close>

lemma mk_box_Inr_iff:
  "mk_box a b c d = Inr w \<longleftrightarrow>
   a \<le> c \<and> b \<le> d \<and> w = \<lparr>bx_x1 = a, bx_y1 = b, bx_x2 = c, bx_y2 = d\<rparr>"
  by (auto simp: mk_box_def box_ordered_def Let_def)

lemma mk_box_ordered [valid_intros]: "mk_box a b c d = Inr w \<Longrightarrow> box_ordered w"
  by (auto simp: mk_box_Inr_iff box_ordered_def)

lemma box_ordered_iff [simp]:
  "box_ordered \<lparr>bx_x1 = a, bx_y1 = b, bx_x2 = c, bx_y2 = d\<rparr> \<longleftrightarrow> a \<le> c \<and> b \<le> d"
  by (auto simp: box_ordered_def)

text \<open>Containment of boxes as closed point sets.\<close>

definition box_contains :: "box \<Rightarrow> box \<Rightarrow> bool" where
  "box_contains a b \<longleftrightarrow>
     bx_x1 a \<le> bx_x1 b \<and> bx_y1 a \<le> bx_y1 b \<and> bx_x2 b \<le> bx_x2 a \<and> bx_y2 b \<le> bx_y2 a"

lemma box_contains_refl [simp]: "box_contains a a"
  by (simp add: box_contains_def)

lemma box_contains_trans: "box_contains a b \<Longrightarrow> box_contains b c \<Longrightarrow> box_contains a c"
  by (auto simp: box_contains_def)

lemma box_contains_antisym: "box_contains a b \<Longrightarrow> box_contains b a \<Longrightarrow> a = (b :: box)"
  by (cases a; cases b) (auto simp: box_contains_def)

lemma box_union_total:
  "box_ordered a \<Longrightarrow> box_ordered b \<Longrightarrow> \<exists>u. box_union a b = Inr u"
  by (auto simp: box_union_def mk_box_def box_ordered_def Let_def min_def max_def)

lemma box_union_lub:
  assumes "box_union a b = Inr u"
  shows "box_contains u a" "box_contains u b"
    and "box_contains w a \<Longrightarrow> box_contains w b \<Longrightarrow> box_contains w u"
  using assms by (auto simp: box_union_def mk_box_Inr_iff box_contains_def)

lemma box_union_ordered [valid_intros]: "box_union a b = Inr u \<Longrightarrow> box_ordered u"
  by (simp add: box_union_def mk_box_ordered)

lemma box_expand_total: "box_ordered b \<Longrightarrow> 0 \<le> k \<Longrightarrow> \<exists>e. box_expand b k = Inr e"
  by (auto simp: box_expand_def mk_box_def box_ordered_def Let_def)

lemma box_expand_ordered [valid_intros]: "box_expand b k = Inr e \<Longrightarrow> box_ordered e"
  by (simp add: box_expand_def mk_box_ordered)

lemma box_expand_contains: "box_expand b k = Inr e \<Longrightarrow> 0 \<le> k \<Longrightarrow> box_contains e b"
  by (auto simp: box_expand_def mk_box_Inr_iff box_contains_def)

lemma box_expand_Inr:
  "box_ordered b \<Longrightarrow> 0 \<le> k \<Longrightarrow>
   box_expand b k = Inr \<lparr>bx_x1 = bx_x1 b - k, bx_y1 = bx_y1 b - k,
                         bx_x2 = bx_x2 b + k, bx_y2 = bx_y2 b + k\<rparr>"
  by (simp add: box_expand_def mk_box_def box_ordered_def)

lemma box_area_nonneg: "box_ordered b \<Longrightarrow> 0 \<le> box_area b"
  by (simp add: box_area_def box_width_def box_height_def box_ordered_def)

subsection \<open>Gaps and intersections\<close>

lemma gap_nonneg [simp]: "0 \<le> gap_dx a b" "0 \<le> gap_dy a b"
  by (simp_all add: gap_dx_def gap_dy_def)

lemma gap_sym: "gap_dx a b = gap_dx b a" "gap_dy a b = gap_dy b a"
  by (simp_all add: gap_dx_def gap_dy_def max.commute)

lemma box_gap_sym: "box_gap a b = box_gap b a"
  by (simp add: box_gap_def gap_sym)

lemma box_gap_nonneg [simp]: "0 \<le> box_gap a b"
  by (simp add: box_gap_def)

lemma sum_squares_zero_int: "0 \<le> a \<Longrightarrow> 0 \<le> b \<Longrightarrow> a * a + b * b = (0::int) \<longleftrightarrow> a = 0 \<and> b = 0"
  using sum_squares_eq_zero_iff [of a b] by simp

lemma box_intersects_sym: "box_intersects a b = box_intersects b a"
  by (auto simp: box_intersects_def)

lemma box_intersects_iff_no_gap: "box_intersects a b \<longleftrightarrow> gap_dx a b = 0 \<and> gap_dy a b = 0"
  by (auto simp: box_intersects_def gap_dx_def gap_dy_def)

lemma box_gap_zero_iff: "box_gap a b = 0 \<longleftrightarrow> box_intersects a b"
proof -
  have "box_gap a b = 0 \<longleftrightarrow> gap_dx a b * gap_dx a b + gap_dy a b * gap_dy a b = 0"
    by (simp only: box_gap_def real_sqrt_eq_0_iff of_int_eq_0_iff)
  then show ?thesis by (simp add: sum_squares_zero_int box_intersects_iff_no_gap)
qed

lemma box_intersection_area_sym: "box_intersection_area a b = box_intersection_area b a"
  by (simp add: box_intersection_area_def min.commute max.commute)

lemma box_intersection_area_nonneg [simp]: "0 \<le> box_intersection_area a b"
  by (simp add: box_intersection_area_def)

lemma box_intersection_area_eq:
  "box_intersection_area a b = (case box_intersection a b of None \<Rightarrow> 0 | Some c \<Rightarrow> box_area c)"
proof -
  define x1 where "x1 = max (bx_x1 a) (bx_x1 b)"
  define y1 where "y1 = max (bx_y1 a) (bx_y1 b)"
  define x2 where "x2 = min (bx_x2 a) (bx_x2 b)"
  define y2 where "y2 = min (bx_y2 a) (bx_y2 b)"
  have "max 0 (x2 - x1) * max 0 (y2 - y1) =
        (if x1 \<ge> x2 \<or> y1 \<ge> y2 then 0 else (x2 - x1) * (y2 - y1))"
    by auto
  then show ?thesis
    by (simp add: box_intersection_area_def box_intersection_def box_area_def box_width_def
        box_height_def Let_def flip: x1_def y1_def x2_def y2_def)
qed

lemma box_intersection_glb:
  assumes "box_intersection a b = Some c"
  shows "box_ordered c" "box_contains a c" "box_contains b c"
    and "box_contains a w \<Longrightarrow> box_contains b w \<Longrightarrow> box_contains c w"
  using assms
  by (auto simp: box_intersection_def Let_def box_contains_def box_ordered_def split: if_splits)

subsection \<open>Integer square root and the conservative gap\<close>

lemma isqrt_bounds: "isqrt n * isqrt n \<le> n \<and> n < (isqrt n + 1) * (isqrt n + 1)"
proof (induction n rule: isqrt.induct)
  case (1 n)
  show ?case
  proof (cases "n = 0")
    case True
    then show ?thesis by (simp add: isqrt.simps)
  next
    case False
    define q where "q = isqrt (n div 4)"
    from False 1 have q: "q * q \<le> n div 4" "n div 4 < (q + 1) * (q + 1)"
      by (simp_all add: q_def)
    from q(1) have lo: "(2 * q) * (2 * q) \<le> n" by simp
    have "n div 4 + 1 \<le> (q + 1) * (q + 1)" using q(2) by simp
    moreover have "n < 4 * (n div 4 + 1)" by simp
    ultimately have "n < 4 * ((q + 1) * (q + 1))"
      by (meson less_le_trans mult_le_mono2)
    then have hi: "n < (2 * q + 2) * (2 * q + 2)" by (simp add: algebra_simps)
    have "isqrt n = (if (2 * q + 1) * (2 * q + 1) \<le> n then 2 * q + 1 else 2 * q)"
      using False by (simp add: isqrt.simps [of n] q_def Let_def)
    then show ?thesis using lo hi by (simp add: algebra_simps)
  qed
qed

lemma isqrt_unique: "r * r \<le> n \<Longrightarrow> n < (r + 1) * (r + 1) \<Longrightarrow> isqrt n = r"
proof (rule ccontr)
  assume r: "r * r \<le> n" "n < (r + 1) * (r + 1)" and "isqrt n \<noteq> r"
  then consider "isqrt n + 1 \<le> r" | "r + 1 \<le> isqrt n" by linarith
  then show False
  proof cases
    case 1
    then have "(isqrt n + 1) * (isqrt n + 1) \<le> r * r" by (rule mult_le_mono) (use 1 in simp)
    with r(1) isqrt_bounds [of n] show False by simp
  next
    case 2
    then have "(r + 1) * (r + 1) \<le> isqrt n * isqrt n" by (rule mult_le_mono) (use 2 in simp)
    with r(2) isqrt_bounds [of n] show False by simp
  qed
qed

lemma outward_gap_ceiling: "outward_box_gap_dbu a b = \<lceil>box_gap a b\<rceil>"
proof -
  define s where "s = gap_dx a b * gap_dx a b + gap_dy a b * gap_dy a b"
  define r where "r = int (isqrt (nat s))"
  have s0: "0 \<le> s" by (simp add: s_def)
  have "isqrt (nat s) * isqrt (nat s) \<le> nat s"
    and "nat s < (isqrt (nat s) + 1) * (isqrt (nat s) + 1)"
    using isqrt_bounds [of "nat s"] by simp_all
  then have "int (isqrt (nat s) * isqrt (nat s)) \<le> int (nat s)"
    and "int (nat s) < int ((isqrt (nat s) + 1) * (isqrt (nat s) + 1))"
    by (simp_all only: of_nat_le_iff of_nat_less_iff)
  then have r: "r * r \<le> s" "s < (r + 1) * (r + 1)" and r0: "0 \<le> r"
    using s0 by (simp_all add: r_def algebra_simps)
  have sq: "sqrt (real_of_int (k * k)) = real_of_int k" if "0 \<le> k" for k
    using that by (simp add: real_sqrt_mult)
  have lo: "real_of_int r \<le> sqrt (real_of_int s)"
    using r(1) r0 by (metis of_int_le_iff real_sqrt_le_iff sq)
  have hi: "sqrt (real_of_int s) < real_of_int (r + 1)"
    using r(2) r0 by (metis add_nonneg_nonneg of_int_less_iff real_sqrt_less_iff sq zero_le_one)
  have gap: "box_gap a b = sqrt (real_of_int s)" by (simp add: box_gap_def s_def)
  have out: "outward_box_gap_dbu a b = (if r * r = s then r else r + 1)"
    by (simp add: outward_box_gap_dbu_def Let_def s_def r_def)
  show ?thesis
  proof (cases "r * r = s")
    case True
    then show ?thesis using gap out sq [OF r0] by simp
  next
    case False
    then have "real_of_int r \<noteq> sqrt (real_of_int s)"
      by (metis of_int_eq_iff of_int_mult r0 real_sqrt_mult_self abs_of_nonneg of_int_0_le_iff s0)
    with lo have "real_of_int r < sqrt (real_of_int s)" by simp
    with hi have "\<lceil>sqrt (real_of_int s)\<rceil> = r + 1" by (intro ceiling_unique) simp_all
    with gap out False show ?thesis by simp
  qed
qed

lemma outward_gap_nonneg [simp]: "0 \<le> outward_box_gap_dbu a b"
proof -
  have "-1 < box_gap a b" using box_gap_nonneg [of a b] by linarith
  then show ?thesis by (simp add: outward_gap_ceiling)
qed

lemma outward_gap_zero_iff: "outward_box_gap_dbu a b = 0 \<longleftrightarrow> box_intersects a b"
proof -
  have "outward_box_gap_dbu a b = 0 \<longleftrightarrow> box_gap a b = 0"
    unfolding outward_gap_ceiling ceiling_eq_iff
    by (intro iffI conjI order_antisym [OF _ box_gap_nonneg]) auto
  then show ?thesis by (simp add: box_gap_zero_iff)
qed

subsection \<open>Unit conversion\<close>

lemma nm_to_dbu_bounds:
  assumes "0 \<le> nm" "0 < dbu"
  obtains i n u where
    "nm_to_dbu nm dbu Inward = Inr i" "nm_to_dbu nm dbu Nearest = Inr n"
    "nm_to_dbu nm dbu Outward = Inr u"
    "1000 * i \<le> nm * dbu" "nm * dbu \<le> 1000 * u" "i \<le> n" "n \<le> u" "u \<le> i + 1"
    "2 * \<bar>1000 * n - nm * dbu\<bar> \<le> 1000"
proof -
  have "1000 * (k div 1000) \<le> k" "k \<le> 1000 * ((k + 999) div 1000)"
    "k div 1000 \<le> (k + 500) div 1000" "(k + 500) div 1000 \<le> (k + 999) div 1000"
    "(k + 999) div 1000 \<le> k div 1000 + 1" for k :: int
    by linarith+
  moreover have "2 * \<bar>1000 * ((k + 500) div 1000) - k\<bar> \<le> 1000" for k :: int
  proof -
    define q where "q = (k + 500) div 1000"
    have "1000 * q \<le> k + 500" "k + 500 < 1000 * q + 1000"
      unfolding q_def by linarith+
    then have "\<bar>1000 * q - k\<bar> \<le> 500" by (intro abs_leI) linarith+
    then show ?thesis by (simp add: q_def)
  qed
  ultimately show ?thesis
    using that assms by (simp add: nm_to_dbu_def Let_def)
qed

subsection \<open>Rotations and the canonical ring\<close>

lemma rotations_rotate: "rotations xs = map (\<lambda>i. rotate i xs) [0..<length xs]"
  by (auto simp: rotations_def rotate_drop_take)

lemma set_rotations: "xs \<noteq> [] \<Longrightarrow> set (rotations xs) = range (\<lambda>i. rotate i xs)"
proof -
  assume ne: "xs \<noteq> []"
  have "rotate i xs \<in> set (rotations xs)" for i
  proof -
    have "rotate i xs = rotate (i mod length xs) xs" by (rule rotate_conv_mod)
    then show ?thesis using ne by (auto simp: rotations_rotate)
  qed
  then show ?thesis by (auto simp: rotations_rotate)
qed

lemma set_rotations_rotate: "set (rotations (rotate k xs)) = set (rotations xs)"
proof (cases "xs = []")
  case False
  have "range (\<lambda>i. rotate i (rotate k xs)) = range (\<lambda>i. rotate i xs)"
  proof (rule set_eqI, rule iffI)
    fix ys assume "ys \<in> range (\<lambda>i. rotate i xs)"
    then obtain i where i: "ys = rotate i xs" by auto
    let ?m = "length xs"
    have "(i + (?m - k mod ?m) + k) mod ?m = (i + (?m - k mod ?m) + k mod ?m) mod ?m"
      by (simp only: mod_add_right_eq)
    also have "i + (?m - k mod ?m) + k mod ?m = i + ?m"
      using False by (simp only: add.assoc) (simp add: less_imp_le)
    finally have "(i + (?m - k mod ?m) + k) mod ?m = i mod ?m" by simp
    then have "rotate (i + (?m - k mod ?m) + k) xs = rotate i xs"
      by (subst (1 2) rotate_conv_mod) (simp only:)
    then have "ys = rotate (i + (length xs - k mod length xs)) (rotate k xs)"
      by (simp only: i rotate_rotate)
    then show "ys \<in> range (\<lambda>i. rotate i (rotate k xs))" by blast
  qed (auto simp: rotate_rotate)
  with False show ?thesis by (simp add: set_rotations)
qed simp

lemma set_rotations_rev: "set (rotations (rev xs)) = rev ` set (rotations xs)"
proof (cases "xs = []")
  case False
  have sub: "rotate i (rev ys) \<in> rev ` range (\<lambda>j. rotate j ys)" for i and ys :: "'a list"
    by (metis rotate_rev rangeI image_eqI)
  have "range (\<lambda>i. rotate i (rev xs)) = rev ` range (\<lambda>j. rotate j xs)"
  proof
    show "range (\<lambda>i. rotate i (rev xs)) \<subseteq> rev ` range (\<lambda>j. rotate j xs)"
      using sub by blast
    show "rev ` range (\<lambda>j. rotate j xs) \<subseteq> range (\<lambda>i. rotate i (rev xs))"
    proof clarify
      fix j
      obtain i where "rotate j (rev (rev xs)) = rev (rotate i (rev xs))"
        using sub [of j "rev xs"] by auto
      then show "rev (rotate j xs) \<in> range (\<lambda>i. rotate i (rev xs))" by simp
    qed
  qed
  with False show ?thesis by (simp add: set_rotations)
qed (simp add: rotations_def)

definition cross_step :: "(int \<times> int) \<times> (int \<times> int) \<Rightarrow> int" where
  "cross_step = (\<lambda>(p, q). fst p * snd q - fst q * snd p)"

lemma shoelace2_zip: "shoelace2 xs = (\<Sum>e\<leftarrow>zip xs (rotate1 xs). cross_step e)"
proof -
  have "map (\<lambda>i. fst (xs ! i) * snd (xs ! ((i + 1) mod length xs)) -
                 fst (xs ! ((i + 1) mod length xs)) * snd (xs ! i)) [0..<length xs]
        = map cross_step (zip xs (rotate1 xs))"
    by (rule nth_equalityI) (simp_all add: cross_step_def nth_rotate1)
  then show ?thesis by (simp add: shoelace2_def)
qed

lemma zip_rotate: "length xs = length ys \<Longrightarrow> zip (rotate k xs) (rotate k ys) = rotate k (zip xs ys)"
  by (simp add: rotate_drop_take drop_zip take_zip)

lemma sum_list_rotate: "(\<Sum>e\<leftarrow>rotate k xs. f e) = (\<Sum>e\<leftarrow>xs. (f e :: int))"
proof -
  let ?n = "k mod length xs"
  have "(\<Sum>e\<leftarrow>rotate k xs. f e) = (\<Sum>e\<leftarrow>take ?n xs. f e) + (\<Sum>e\<leftarrow>drop ?n xs. f e)"
    by (simp add: rotate_drop_take)
  also have "\<dots> = (\<Sum>e\<leftarrow>take ?n xs @ drop ?n xs. f e)"
    by (simp only: map_append sum_list_append)
  finally show ?thesis by simp
qed

lemma shoelace2_rotate: "shoelace2 (rotate k xs) = shoelace2 xs"
proof -
  have "zip (rotate k xs) (rotate1 (rotate k xs)) = rotate k (zip xs (rotate1 xs))"
    by (metis length_rotate1 rotate1_rotate_swap zip_rotate)
  then show ?thesis by (simp add: shoelace2_zip sum_list_rotate)
qed

lemma open_ring_distinct: "distinct xs \<Longrightarrow> open_ring xs = xs"
  by (cases xs) (auto simp: open_ring_def)

lemma canonical_ring_in_rotations:
  assumes "3 \<le> length (open_ring pts)"
  shows "canonical_ring pts \<in> set (rotations (if shoelace2 (open_ring pts) < 0
                                             then rev (open_ring pts) else open_ring pts))"
proof -
  have "Min (set (rotations xs)) \<in> set (rotations xs)" if "xs \<noteq> []" for xs :: "(int \<times> int) list"
    using that by (intro Min_in) (auto simp: rotations_def)
  moreover have "open_ring pts \<noteq> []" using assms by auto
  ultimately show ?thesis using assms by (auto simp: canonical_ring_def Let_def)
qed

lemma length_open_ring_distinct: "distinct xs \<Longrightarrow> length (open_ring xs) = length xs"
  by (simp add: open_ring_distinct)

lemma canonical_ring_rotate:
  assumes "distinct xs" "3 \<le> length xs"
  shows "canonical_ring (rotate k xs) = canonical_ring xs"
proof -
  have rev: "set (rotations (rev (rotate k xs))) = set (rotations (rev xs))"
    by (simp add: set_rotations_rev set_rotations_rotate)
  have "open_ring (rotate k xs) = rotate k xs" "open_ring xs = xs"
    using assms by (simp_all add: open_ring_distinct)
  with assms(2) show ?thesis
    by (simp add: canonical_ring_def Let_def shoelace2_rotate set_rotations_rotate rev)
qed

lemma canonical_ring_closing_point:
  assumes "distinct xs" "3 \<le> length xs"
  shows "canonical_ring (xs @ [hd xs]) = canonical_ring xs"
proof -
  have "open_ring (xs @ [hd xs]) = xs"
    using assms(2) by (cases xs) (simp_all add: open_ring_def)
  moreover have "open_ring xs = xs" using assms(1) by (rule open_ring_distinct)
  ultimately show ?thesis by (simp add: canonical_ring_def)
qed

lemma cross_step_swap: "cross_step (prod.swap e) = - cross_step e"
  by (cases e) (simp add: cross_step_def)

lemma rev_step_index:
  assumes "i < n"
  shows "Suc (n - Suc (Suc i mod n)) mod n = n - Suc i"
proof (cases "Suc i = n")
  case True
  then have "Suc (n - Suc 0) = n" by linarith
  with True show ?thesis by simp
next
  case False
  with assms have "Suc i mod n = Suc i" by simp
  moreover have "Suc (n - Suc (Suc i)) = n - Suc i" "n - Suc i < n" using assms False by linarith+
  ultimately show ?thesis by (simp only: mod_less)
qed

lemma zip_rotate1_rev:
  "zip (rev xs) (rotate1 (rev xs)) = rotate 1 (map prod.swap (rev (zip xs (rotate1 xs))))"
proof (rule nth_equalityI)
  fix i assume "i < length (zip (rev xs) (rotate1 (rev xs)))"
  then have i: "i < length xs" by simp
  let ?j = "Suc i mod length xs"
  have j: "?j < length xs" using i by (intro mod_less_divisor) linarith
  have rev_j: "rev xs ! ?j = xs ! (length xs - Suc ?j)" using j by (rule rev_nth)
  have l: "zip (rev xs) (rotate1 (rev xs)) ! i = (xs ! (length xs - Suc i), xs ! (length xs - Suc ?j))"
    using i rev_j by (simp add: nth_rotate1 rev_nth)
  have r: "rotate 1 (map prod.swap (rev (zip xs (rotate1 xs)))) ! i
        = prod.swap (xs ! (length xs - Suc ?j), xs ! (Suc (length xs - Suc ?j) mod length xs))"
    using i j by (simp add: nth_rotate1 rev_nth)
  show "zip (rev xs) (rotate1 (rev xs)) ! i
        = rotate 1 (map prod.swap (rev (zip xs (rotate1 xs)))) ! i"
    by (simp only: l r rev_step_index [OF i] prod.swap_def fst_conv snd_conv)
qed simp

lemma shoelace2_rev: "shoelace2 (rev xs) = - shoelace2 xs"
proof -
  have "zip (rev xs) (rotate1 (rev xs)) = rotate 1 (map prod.swap (rev (zip xs (rotate1 xs))))"
    by (rule zip_rotate1_rev)
  then have "shoelace2 (rev xs) = (\<Sum>e\<leftarrow>map prod.swap (rev (zip xs (rotate1 xs))). cross_step e)"
    by (simp only: shoelace2_zip sum_list_rotate)
  also have "\<dots> = (\<Sum>e\<leftarrow>rev (zip xs (rotate1 xs)). - cross_step e)"
    by (simp add: comp_def cross_step_swap)
  also have "\<dots> = sum_list (rev (map (\<lambda>e. - cross_step e) (zip xs (rotate1 xs))))"
    by (simp only: rev_map)
  also have "\<dots> = - shoelace2 xs"
    by (simp add: shoelace2_zip uminus_sum_list_map comp_def)
  finally show ?thesis .
qed

lemma canonical_ring_rev:
  assumes "distinct xs" "3 \<le> length xs" "shoelace2 xs \<noteq> 0"
  shows "canonical_ring (rev xs) = canonical_ring xs"
proof -
  have "open_ring (rev xs) = rev xs" "open_ring xs = xs"
    using assms(1) by (simp_all add: open_ring_distinct)
  with assms(2,3) show ?thesis
    by (auto simp: canonical_ring_def Let_def shoelace2_rev)
qed

text \<open>The points of a polygon as pairs, and back.\<close>

definition ring_of :: "point list \<Rightarrow> (int \<times> int) list" where
  "ring_of pts = map (\<lambda>p. (pt_x p, pt_y p)) pts"

lemma ring_of_canonical: "ring_of (canonical_polygon pts) = canonical_ring (ring_of pts)"
  by (simp add: ring_of_def canonical_polygon_def comp_def case_prod_unfold)

lemma canonical_polygon_cong:
  "canonical_ring (ring_of ps) = canonical_ring (ring_of qs) \<Longrightarrow>
   canonical_polygon ps = canonical_polygon qs"
  by (simp add: canonical_polygon_def ring_of_def)

lemma distinct_ring_of: "distinct (ring_of pts) \<longleftrightarrow> distinct pts"
proof -
  have "inj (\<lambda>p :: point. (pt_x p, pt_y p))"
  proof (rule injI)
    fix p q :: point
    assume "(pt_x p, pt_y p) = (pt_x q, pt_y q)"
    then show "p = q" by (cases p; cases q) simp
  qed
  then show ?thesis by (auto simp: ring_of_def distinct_map intro: inj_on_subset)
qed

lemma canonical_ring_rotation:
  assumes "distinct xs" "3 \<le> length xs"
  obtains i where "canonical_ring xs = rotate i (if shoelace2 xs < 0 then rev xs else xs)"
proof -
  have "canonical_ring xs \<in> set (rotations (if shoelace2 xs < 0 then rev xs else xs))"
    using canonical_ring_in_rotations [of xs] assms(2)
    unfolding open_ring_distinct [OF assms(1)] by (simp split: if_splits)
  then show ?thesis using that by (auto simp: rotations_rotate split: if_splits)
qed

lemma canonical_ring_orientation:
  assumes "distinct xs" "3 \<le> length xs"
  shows "0 \<le> shoelace2 (canonical_ring xs)"
proof -
  obtain i where "canonical_ring xs = rotate i (if shoelace2 xs < 0 then rev xs else xs)"
    using assms by (rule canonical_ring_rotation)
  then show ?thesis by (simp add: shoelace2_rotate shoelace2_rev)
qed

lemma canonical_ring_mset: "distinct xs \<Longrightarrow> mset (canonical_ring xs) = mset xs"
proof (cases "3 \<le> length xs")
  case True
  assume d: "distinct xs"
  obtain i where i: "canonical_ring xs = rotate i (if shoelace2 xs < 0 then rev xs else xs)"
    using d True by (rule canonical_ring_rotation)
  have "mset (rotate k ys) = mset ys" for k and ys :: "(int \<times> int) list"
  proof -
    have "mset (rotate k ys) = mset (take (k mod length ys) ys) + mset (drop (k mod length ys) ys)"
      by (simp only: rotate_drop_take mset_append add.commute)
    then show ?thesis by (simp only: append_take_drop_id flip: mset_append)
  qed
  with i show ?thesis by simp
qed (simp add: canonical_ring_def open_ring_distinct)

lemma canonical_ring_idem:
  assumes "distinct xs" "3 \<le> length xs"
  shows "canonical_ring (canonical_ring xs) = canonical_ring xs"
proof -
  let ?ys = "if shoelace2 xs < 0 then rev xs else xs"
  obtain i where i: "canonical_ring xs = rotate i ?ys"
    using assms by (rule canonical_ring_rotation)
  have "canonical_ring (rotate i ?ys) = canonical_ring ?ys"
    using assms by (intro canonical_ring_rotate) auto
  also have "\<dots> = canonical_ring xs"
    using assms by (auto intro: canonical_ring_rev)
  finally show ?thesis using i by simp
qed

subsection \<open>Segments\<close>

lemma turn_values: "turn a b c \<in> {-1, 0, 1}"
  by (simp add: turn_def Let_def)

lemma on_segment_sym: "on_segment a b c = on_segment c b a"
  by (simp add: on_segment_def min.commute max.commute)

lemma turn_swap: "turn b a c = - turn a b c"
  by (simp add: turn_def Let_def algebra_simps)

lemma segments_intersect_sym: "segments_intersect a b c d = segments_intersect c d a b"
  by (auto simp: segments_intersect_def Let_def)

lemma geometry_box_bounds:
  assumes "geometry_box pts = Inr b" "p \<in> set pts"
  shows "bx_x1 b \<le> pt_x p \<and> pt_x p \<le> bx_x2 b \<and> bx_y1 b \<le> pt_y p \<and> pt_y p \<le> bx_y2 b"
  using assms by (auto simp: geometry_box_def mk_box_Inr_iff split: if_splits)

lemma geometry_box_total: "pts \<noteq> [] \<Longrightarrow> \<exists>b. geometry_box pts = Inr b"
proof -
  assume "pts \<noteq> []"
  then obtain p where p: "p \<in> set pts" by (cases pts) auto
  have "Min (pt_x ` set pts) \<le> pt_x p" "pt_x p \<le> Max (pt_x ` set pts)"
    "Min (pt_y ` set pts) \<le> pt_y p" "pt_y p \<le> Max (pt_y ` set pts)"
    using p by simp_all
  then have "Min (pt_x ` set pts) \<le> Max (pt_x ` set pts)"
    "Min (pt_y ` set pts) \<le> Max (pt_y ` set pts)" by linarith+
  then show ?thesis using \<open>pts \<noteq> []\<close> by (simp add: geometry_box_def mk_box_def)
qed

section \<open>Properties of the geometry\<close>

text \<open>
  C38. The canonical form of a polygon (\<open>canonical_polygon\<close>) depends on the polygon only: it is the
  same for every starting vertex, for both directions of travel (for a ring that encloses area)
  and for a ring written with its first point repeated at the end.
\<close>

theorem canonical_polygon_representative:
  assumes "distinct pts" "3 \<le> length pts"
  shows "canonical_polygon (rotate k pts) = canonical_polygon pts \<and>
    canonical_polygon (pts @ [hd pts]) = canonical_polygon pts \<and>
    (shoelace2 (ring_of pts) \<noteq> 0 \<longrightarrow> canonical_polygon (rev pts) = canonical_polygon pts) \<and>
    canonical_polygon (canonical_polygon pts) = canonical_polygon pts"
proof (intro conjI)
  have d: "distinct (ring_of pts)" "3 \<le> length (ring_of pts)"
    using assms by (simp_all add: distinct_ring_of) (simp add: ring_of_def)
  have r: "ring_of (rotate k pts) = rotate k (ring_of pts)" "ring_of (rev pts) = rev (ring_of pts)"
    "ring_of (pts @ [hd pts]) = ring_of pts @ [hd (ring_of pts)]"
    using assms(2) by (simp_all only: ring_of_def rotate_map rev_map map_append list.map(2) list.map(1)) (cases pts; simp)
  show "canonical_polygon (rotate k pts) = canonical_polygon pts"
    by (rule canonical_polygon_cong) (simp add: r canonical_ring_rotate [OF d])
  show "canonical_polygon (pts @ [hd pts]) = canonical_polygon pts"
    by (rule canonical_polygon_cong) (simp add: r canonical_ring_closing_point [OF d])
  show "shoelace2 (ring_of pts) \<noteq> 0 \<longrightarrow> canonical_polygon (rev pts) = canonical_polygon pts"
    by (intro impI canonical_polygon_cong) (simp add: r canonical_ring_rev [OF d])
  show "canonical_polygon (canonical_polygon pts) = canonical_polygon pts"
    by (rule canonical_polygon_cong) (simp add: ring_of_canonical canonical_ring_idem [OF d])
qed

lemma canonical_polygon_representative_witness:
  "canonical_polygon (rotate 1 [\<lparr>pt_x = 0, pt_y = 0\<rparr>, \<lparr>pt_x = 4, pt_y = 0\<rparr>, \<lparr>pt_x = 0, pt_y = 3\<rparr>])
   = canonical_polygon [\<lparr>pt_x = 0, pt_y = 0\<rparr>, \<lparr>pt_x = 4, pt_y = 0\<rparr>, \<lparr>pt_x = 0, pt_y = 3\<rparr>]"
  by (rule canonical_polygon_representative [THEN conjunct1]) simp_all

text \<open>
  \<open>outward_box_gap_dbu\<close>, which the code computes with integers only, is the Euclidean gap of
  the two boxes rounded up; it is zero exactly when the boxes touch or overlap.
\<close>

theorem outward_gap_correct:
  "outward_box_gap_dbu a b = \<lceil>box_gap a b\<rceil> \<and> (outward_box_gap_dbu a b = 0 \<longleftrightarrow> box_intersects a b)"
  by (simp add: outward_gap_ceiling flip: outward_gap_zero_iff)

text \<open>
  \<open>nm_to_dbu\<close>: inward rounding never exceeds the length, outward rounding never falls short of
  it, the nearest value lies between them and is off by at most half a unit.
\<close>

theorem nm_to_dbu_rounding:
  assumes "0 \<le> nm" "0 < dbu_per_um"
  shows "\<exists>i n u. nm_to_dbu nm dbu_per_um Inward = Inr i \<and> nm_to_dbu nm dbu_per_um Nearest = Inr n \<and>
    nm_to_dbu nm dbu_per_um Outward = Inr u \<and> 1000 * i \<le> nm * dbu_per_um \<and> nm * dbu_per_um \<le> 1000 * u \<and>
    i \<le> n \<and> n \<le> u \<and> u \<le> i + 1 \<and> 2 * \<bar>1000 * n - nm * dbu_per_um\<bar> \<le> 1000"
  using nm_to_dbu_bounds [OF assms] by metis

lemma nm_to_dbu_rounding_witness:
  "\<exists>i n u. nm_to_dbu 17 4000 Inward = Inr i \<and> nm_to_dbu 17 4000 Nearest = Inr n \<and>
    nm_to_dbu 17 4000 Outward = Inr u \<and> 1000 * i \<le> 17 * 4000 \<and> 17 * 4000 \<le> 1000 * u \<and>
    i \<le> n \<and> n \<le> u \<and> u \<le> i + 1 \<and> 2 * \<bar>1000 * n - 17 * 4000\<bar> \<le> 1000"
  by (rule nm_to_dbu_rounding) simp_all

end
