(* ===== verification/Json.thy ===== *)
theory Json
  imports Prelude
begin

text \<open>
  JSON values and the identity hashes of \<open>schemas/common.py\<close>. Every identifier that the program
  derives (region, edge, batch, window, attribution ids) is a prefix of
  \<open>stable_hash(value)\<close>, the SHA-256 digest of \<open>canonical_json(value)\<close>. The digest and the
  decimal representation of floats are parameters; the serialisation is modelled. The main
  result is that the serialisation is injective up to the order of dictionary keys, so two
  identities with the same digest are the same identity or a collision of the digest.
\<close>

subsection \<open>Decimal numerals\<close>

definition digit_char :: "nat \<Rightarrow> char" where
  "digit_char d = char_of (48 + d)"

definition is_digit :: "char \<Rightarrow> bool" where
  "is_digit c \<longleftrightarrow> 48 \<le> (of_char c :: nat) \<and> (of_char c :: nat) \<le> 57"

fun show_nat :: "nat \<Rightarrow> string" where
  "show_nat n = (if n < 10 then [digit_char n] else show_nat (n div 10) @ [digit_char (n mod 10)])"

declare show_nat.simps [simp del]

definition read_nat :: "string \<Rightarrow> nat" where
  "read_nat s = foldl (\<lambda>n c. 10 * n + (of_char c - 48)) 0 s"

definition show_int :: "int \<Rightarrow> string" where
  "show_int k = (if k < 0 then CHR ''-'' # show_nat (nat (- k)) else show_nat (nat k))"

lemma of_char_digit_char [simp]: "d < 10 \<Longrightarrow> of_char (digit_char d) = 48 + d"
  by (simp add: digit_char_def of_char_of)

lemma is_digit_digit_char [simp]: "d < 10 \<Longrightarrow> is_digit (digit_char d)"
  by (simp add: is_digit_def)

lemma read_show_nat [simp]: "read_nat (show_nat n) = n"
proof (induction n rule: show_nat.induct)
  case (1 n)
  show ?case
  proof (cases "n < 10")
    case True
    then show ?thesis by (subst show_nat.simps) (simp add: read_nat_def)
  next
    case False
    with 1 have "read_nat (show_nat (n div 10)) = n div 10" by simp
    with False show ?thesis by (subst show_nat.simps) (simp add: read_nat_def)
  qed
qed

lemma show_nat_digits: "c \<in> set (show_nat n) \<Longrightarrow> is_digit c"
proof (induction n rule: show_nat.induct)
  case (1 n)
  then show ?case by (subst (asm) (2) show_nat.simps) (auto split: if_splits)
qed

lemma show_nat_nonempty [simp]: "show_nat n \<noteq> []"
  by (subst show_nat.simps) simp

lemma show_nat_inject [simp]: "show_nat m = show_nat n \<longleftrightarrow> m = n"
  by (metis read_show_nat)

subsection \<open>Values and their canonical text\<close>

datatype json =
    JNull
  | JBool bool
  | JInt int
  | JReal real
  | JStr string
  | JList "json list"
  | JObj "(string \<times> json) list"

text \<open>Truth of a JSON value, as Python's \<open>bool\<close>.\<close>

fun json_truthy :: "json \<Rightarrow> bool" where
  "json_truthy JNull = False"
| "json_truthy (JBool b) = b"
| "json_truthy (JInt k) = (k \<noteq> 0)"
| "json_truthy (JReal r) = (r \<noteq> 0)"
| "json_truthy (JStr s) = (s \<noteq> [])"
| "json_truthy (JList xs) = (xs \<noteq> [])"
| "json_truthy (JObj kvs) = (kvs \<noteq> [])"

text \<open>\<open>details.get(key)\<close> on a dictionary.\<close>

definition json_get :: "(string \<times> json) list \<Rightarrow> string \<Rightarrow> json" where
  "json_get d k = (case map_of d k of None \<Rightarrow> JNull | Some v \<Rightarrow> v)"

definition hex_char :: "nat \<Rightarrow> char" where
  "hex_char d = char_of (if d < 10 then 48 + d else 87 + d)"

text \<open>\<open>json.dumps(..., ensure_ascii=True)\<close>: the escapes of one character.\<close>

definition json_escape :: "char \<Rightarrow> string" where
  "json_escape c =
     (let n = of_char c :: nat in
      if n = 34 then [CHR 0x5C, CHR 0x22]
      else if n = 92 then [CHR 0x5C, CHR 0x5C]
      else if n = 10 then [CHR 0x5C, CHR ''n'']
      else if n = 13 then [CHR 0x5C, CHR ''r'']
      else if n = 9 then [CHR 0x5C, CHR ''t'']
      else if n = 12 then [CHR 0x5C, CHR ''f'']
      else if n = 8 then [CHR 0x5C, CHR ''b'']
      else if 32 \<le> n \<and> n \<le> 126 then [c]
      else [CHR 0x5C, CHR ''u'', CHR ''0'', CHR ''0'', hex_char (n div 16), hex_char (n mod 16)])"

definition json_string :: "string \<Rightarrow> string" where
  "json_string s = CHR 0x22 # concat (map json_escape s) @ [CHR 0x22]"

fun join_comma :: "string list \<Rightarrow> string" where
  "join_comma [] = []"
| "join_comma [x] = x"
| "join_comma (x # y # xs) = x @ CHR '','' # join_comma (y # xs)"

text \<open>\<open>sort_keys=True\<close>, \<open>separators=(",", ":")\<close>; \<open>fr\<close> is \<open>float.__repr__\<close>.\<close>

function canonical_json :: "(real \<Rightarrow> string) \<Rightarrow> json \<Rightarrow> string" where
  "canonical_json fr JNull = ''null''"
| "canonical_json fr (JBool b) = (if b then ''true'' else ''false'')"
| "canonical_json fr (JInt k) = show_int k"
| "canonical_json fr (JReal r) = fr r"
| "canonical_json fr (JStr s) = json_string s"
| "canonical_json fr (JList xs) = CHR ''['' # join_comma (map (canonical_json fr) xs) @ '']''"
| "canonical_json fr (JObj kvs) =
     CHR ''{'' # join_comma (map (\<lambda>kv. json_string (fst kv) @ CHR '':'' # canonical_json fr (snd kv))
                             (sort_key fst kvs)) @ ''}''"
  by pat_completeness auto
termination
proof (relation "measure (\<lambda>(fr, v). size v)", goal_cases)
  case (2 fr xs x)
  then show ?case by (simp add: less_Suc_eq_le size_list_estimation')
next
  case (3 fr kvs kv)
  then have "kv \<in> set kvs" by simp
  then have "size (snd kv) \<le> size_list (\<lambda>p. size (snd p)) kvs"
    by (rule size_list_estimation') simp
  moreover have "size_list (\<lambda>p. size (snd p)) kvs \<le> size_list (size_prod (\<lambda>_. 0) size) kvs"
    by (rule size_list_pointwise) (auto simp: size_prod_simp)
  ultimately show ?case by simp
qed simp

definition stable_hash :: "(string \<Rightarrow> string) \<Rightarrow> (real \<Rightarrow> string) \<Rightarrow> json \<Rightarrow> string" where
  "stable_hash sha256 fr v = sha256 (canonical_json fr v)"

text \<open>An identifier: a prefix and the first characters of the digest.\<close>

definition short_id :: "(json \<Rightarrow> string) \<Rightarrow> string \<Rightarrow> nat \<Rightarrow> json \<Rightarrow> ident" where
  "short_id sh pre n v = pre @ take n (sh v)"

subsection \<open>The serialisation is injective\<close>

text \<open>
  A suffix is \<^emph>\<open>delimited\<close> when it is empty or starts with a character that no numeral
  contains. Reading a value from a text is then deterministic: equal texts with delimited
  rests hold the same value and the same rest.
\<close>

definition delimited :: "string \<Rightarrow> bool" where
  "delimited r \<longleftrightarrow> r = [] \<or> \<not> is_digit (hd r)"

lemma digits_prefix_unique:
  assumes "xs @ r = ys @ r'" "\<forall>c\<in>set xs. is_digit c" "\<forall>c\<in>set ys. is_digit c"
    "delimited r" "delimited r'"
  shows "xs = ys \<and> r = r'"
proof -
  have "takeWhile is_digit (zs @ q) = zs" if "\<forall>c\<in>set zs. is_digit c" "delimited q" for zs q
    using that by (cases q) (auto simp: delimited_def takeWhile_append)
  then have "xs = ys" using assms by metis
  with assms(1) show ?thesis by simp
qed

lemma show_nat_delimited:
  "show_nat m @ r = show_nat n @ r' \<Longrightarrow> delimited r \<Longrightarrow> delimited r' \<Longrightarrow> m = n \<and> r = r'"
  using digits_prefix_unique [of "show_nat m" r "show_nat n" r'] show_nat_digits by auto

lemma show_nat_hd: "is_digit (hd (show_nat n @ r))"
  using show_nat_digits [of "hd (show_nat n)" n] by simp

lemma minus_not_digit [simp]: "\<not> is_digit CHR ''-''"
  by (simp add: is_digit_def)

lemma show_int_delimited:
  assumes "show_int k @ r = show_int l @ r'" "delimited r" "delimited r'"
  shows "k = l \<and> r = r'"
proof -
  have neq: "CHR ''-'' # s \<noteq> show_nat n @ q" for s n q
    using show_nat_hd [of n q] minus_not_digit by (metis list.sel(1))
  show ?thesis
  proof (cases "k < 0"; cases "l < 0")
    assume "k < 0" "l < 0"
    with assms show ?thesis using show_nat_delimited [of "nat (-k)" r "nat (-l)" r']
      by (auto simp: show_int_def)
  next
    assume "\<not> k < 0" "\<not> l < 0"
    with assms show ?thesis using show_nat_delimited [of "nat k" r "nat l" r']
      by (auto simp: show_int_def)
  qed (use assms neq in \<open>auto simp: show_int_def dest: sym\<close>)
qed

lemma of_char_hex_char: "d < 16 \<Longrightarrow> (of_char (hex_char d) :: nat) = (if d < 10 then 48 + d else 87 + d)"
  by (simp add: hex_char_def of_char_of)

definition hex_value :: "char \<Rightarrow> nat" where
  "hex_value c = (let n = of_char c in if n < 58 then n - 48 else n - 87)"

lemma hex_value_hex_char [simp]: "d < 16 \<Longrightarrow> hex_value (hex_char d) = d"
  by (simp add: hex_value_def of_char_hex_char Let_def)

text \<open>Reading one escaped character back: its code and the rest of the text.\<close>

definition unescape :: "string \<Rightarrow> nat \<times> string" where
  "unescape s =
     (case s of [] \<Rightarrow> (0, [])
      | a # t \<Rightarrow>
          if a \<noteq> CHR 0x5C then (of_char a, t)
          else case t of [] \<Rightarrow> (0, [])
            | b # t' \<Rightarrow>
                if b = CHR ''u'' then (16 * hex_value (t' ! 2) + hex_value (t' ! 3), drop 4 t')
                else if b = CHR ''n'' then (10, t')
                else if b = CHR ''r'' then (13, t')
                else if b = CHR ''t'' then (9, t')
                else if b = CHR ''f'' then (12, t')
                else if b = CHR ''b'' then (8, t')
                else (of_char b, t'))"

lemma unescape_escape: "unescape (json_escape c @ r) = (of_char c, r)"
proof -
  define n :: nat where "n = of_char c"
  have n: "n < 256" by (simp add: n_def)
  have "(of_char (CHR 0x5C) :: nat) = 92" by simp
  then have bs: "c = CHR 0x5C \<longleftrightarrow> n = 92"
    unfolding n_def by (metis of_char_eq_iff)
  consider "n \<in> {34, 92, 10, 13, 9, 12, 8}" | "32 \<le> n \<and> n \<le> 126" "n \<notin> {34, 92}"
    | "\<not> (32 \<le> n \<and> n \<le> 126)" "n \<notin> {10, 13, 9, 12, 8}" by auto
  then show ?thesis
  proof cases
    case 1
    then show ?thesis by (auto simp: json_escape_def unescape_def Let_def simp flip: n_def)
  next
    case 2
    then show ?thesis
      by (simp add: json_escape_def unescape_def Let_def bs flip: n_def)
  next
    case 3
    then show ?thesis using n
      by (auto simp: json_escape_def unescape_def Let_def simp flip: n_def)
  qed
qed

lemma json_escape_unique: "json_escape c @ r = json_escape d @ r' \<Longrightarrow> c = d \<and> r = r'"
  by (metis unescape_escape fst_conv snd_conv of_char_eq_iff)

lemma json_escape_nonempty [simp]: "json_escape c \<noteq> []"
  by (simp add: json_escape_def Let_def)

lemma json_escape_no_quote: "json_escape c @ r \<noteq> CHR 0x22 # r'"
proof
  assume eq: "json_escape c @ r = CHR 0x22 # r'"
  have "(of_char (CHR 0x22) :: nat) = 34" by simp
  then have "hd (json_escape c) \<noteq> CHR 0x22"
    by (auto simp: json_escape_def Let_def)
  moreover have "hd (json_escape c @ r) = hd (json_escape c)" by simp
  ultimately show False using eq by (metis list.sel(1))
qed

lemma json_string_unique:
  "json_string s @ r = json_string t @ r' \<Longrightarrow> s = t \<and> r = r'"
proof -
  have "concat (map json_escape s) @ CHR 0x22 # r = concat (map json_escape t) @ CHR 0x22 # r'
        \<Longrightarrow> s = t \<and> r = r'"
  proof (induction s arbitrary: t)
    case Nil
    then show ?case
      using json_escape_no_quote by (cases t) (auto dest: sym)
  next
    case (Cons c s)
    show ?case
    proof (cases t)
      case Nil
      with Cons.prems json_escape_no_quote show ?thesis by auto
    next
      case (Cons d u)
      with Cons.prems have "json_escape c @ concat (map json_escape s) @ CHR 0x22 # r
          = json_escape d @ concat (map json_escape u) @ CHR 0x22 # r'" by simp
      then have "c = d" "concat (map json_escape s) @ CHR 0x22 # r
          = concat (map json_escape u) @ CHR 0x22 # r'"
        using json_escape_unique by blast+
      with Cons Cons.IH show ?thesis by simp
    qed
  qed
  then show "json_string s @ r = json_string t @ r' \<Longrightarrow> s = t \<and> r = r'"
    by (simp add: json_string_def)
qed

lemma show_int_lead: "show_int k @ r = c # q \<Longrightarrow> c = CHR ''-'' \<or> is_digit c"
proof -
  assume eq: "show_int k @ r = c # q"
  then have "c = hd (show_int k @ r)" by simp
  then show ?thesis using show_nat_hd [of _ r] by (auto simp: show_int_def)
qed

lemma join_comma_unique:
  assumes item: "\<And>x y q q'. x \<in> set xs \<Longrightarrow> y \<in> set ys \<Longrightarrow> f x @ q = f y @ q' \<Longrightarrow>
                   delimited q \<Longrightarrow> delimited q' \<Longrightarrow> g x = g y \<and> q = q'"
    and lead: "\<And>x q q'. x \<in> set xs \<union> set ys \<Longrightarrow> f x @ q \<noteq> close # q'"
    and close: "close \<noteq> CHR '',''" "\<not> is_digit close"
  shows "join_comma (map f xs) @ close # r = join_comma (map f ys) @ close # r' \<Longrightarrow>
         map g xs = map g ys \<and> r = r'"
  using item lead
proof (induction xs arbitrary: ys)
  case Nil
  show ?case
  proof (cases ys)
    case (Cons y ys')
    then obtain q where "join_comma (map f ys) @ close # r' = f y @ q"
      by (cases ys') auto
    with Nil.prems(1) have "f y @ q = close # r" by simp
    with Nil.prems(3) [of y q r] Cons show ?thesis by simp
  qed (use Nil.prems in simp)
next
  case (Cons x xs)
  have head: "join_comma (map f (z # zs)) @ close # q
      = f z @ (if zs = [] then close # q else CHR '','' # join_comma (map f zs) @ close # q)"
    for z zs q by (cases zs) simp_all
  show ?case
  proof (cases ys)
    case Nil
    have "f x @ (if xs = [] then close # r else CHR '','' # join_comma (map f xs) @ close # r)
        = close # r'"
      using Cons.prems(1) unfolding Nil head by simp
    with Cons.prems(3) [of x] show ?thesis by simp
  next
    case ys: (Cons y ys')
    let ?q = "if xs = [] then close # r else CHR '','' # join_comma (map f xs) @ close # r"
    let ?q' = "if ys' = [] then close # r' else CHR '','' # join_comma (map f ys') @ close # r'"
    have "f x @ ?q = f y @ ?q'" using Cons.prems(1) unfolding ys head .
    moreover have "delimited ?q" "delimited ?q'"
      using close(2) by (auto simp: delimited_def is_digit_def)
    ultimately have xy: "g x = g y" "?q = ?q'"
      using Cons.prems(2) [of x y ?q ?q'] ys by auto
    show ?thesis
    proof (cases "xs = [] \<or> ys' = []")
      case True
      with xy close(1) ys show ?thesis by (auto split: if_splits)
    next
      case False
      with xy have "join_comma (map f xs) @ close # r = join_comma (map f ys') @ close # r'" by simp
      then have "map g xs = map g ys' \<and> r = r'"
        by (rule Cons.IH) (use Cons.prems(2,3) ys in auto)
      with xy ys show ?thesis by simp
    qed
  qed
qed

text \<open>The value with the keys of every object in order, and values without floats.\<close>

function json_norm :: "json \<Rightarrow> json" where
  "json_norm (JList xs) = JList (map json_norm xs)"
| "json_norm (JObj kvs) = JObj (map (\<lambda>kv. (fst kv, json_norm (snd kv))) (sort_key fst kvs))"
| "json_norm JNull = JNull"
| "json_norm (JBool b) = JBool b"
| "json_norm (JInt k) = JInt k"
| "json_norm (JReal x) = JReal x"
| "json_norm (JStr s) = JStr s"
  by pat_completeness auto
termination
proof (relation "measure size", goal_cases)
  case (2 xs x)
  then show ?case by (simp add: less_Suc_eq_le size_list_estimation')
next
  case (3 kvs kv)
  then have "kv \<in> set kvs" by simp
  then have "size (snd kv) \<le> size_list (\<lambda>p. size (snd p)) kvs"
    by (rule size_list_estimation') simp
  moreover have "size_list (\<lambda>p. size (snd p)) kvs \<le> size_list (size_prod (\<lambda>_. 0) size) kvs"
    by (rule size_list_pointwise) (auto simp: size_prod_simp)
  ultimately show ?case by simp
qed simp

primrec json_no_real :: "json \<Rightarrow> bool" where
  "json_no_real JNull = True"
| "json_no_real (JBool b) = True"
| "json_no_real (JInt k) = True"
| "json_no_real (JReal r) = False"
| "json_no_real (JStr s) = True"
| "json_no_real (JList xs) = list_all id (map json_no_real xs)"
| "json_no_real (JObj kvs) = list_all (\<lambda>kv. snd kv) (map (map_prod id json_no_real) kvs)"

lemma json_no_real_simps:
  "json_no_real (JList xs) \<longleftrightarrow> (\<forall>x\<in>set xs. json_no_real x)"
  "json_no_real (JObj kvs) \<longleftrightarrow> (\<forall>kv\<in>set kvs. json_no_real (snd kv))"
  by (auto simp: list_all_iff)

lemmas json_leads = json_string_def delimited_def is_digit_def

lemma canonical_json_lead:
  assumes "json_no_real v"
  shows "canonical_json fr v @ q \<noteq> CHR '']'' # q'" "canonical_json fr v @ q \<noteq> CHR ''}'' # q'"
proof -
  have "canonical_json fr v @ q = c # q' \<Longrightarrow> c \<noteq> CHR '']'' \<and> c \<noteq> CHR ''}''" for c
    using assms show_int_lead [of _ q c q']
    by (cases v) (auto simp: json_string_def is_digit_def split: if_splits)
  then show "canonical_json fr v @ q \<noteq> CHR '']'' # q'" "canonical_json fr v @ q \<noteq> CHR ''}'' # q'"
    by blast+
qed

text \<open>The first character of a text tells the kind of the value.\<close>

primrec json_kind :: "json \<Rightarrow> nat" where
  "json_kind JNull = 0"
| "json_kind (JBool b) = 1"
| "json_kind (JInt k) = 2"
| "json_kind (JReal r) = 6"
| "json_kind (JStr s) = 3"
| "json_kind (JList xs) = 4"
| "json_kind (JObj kvs) = 5"

definition lead_kind :: "char \<Rightarrow> nat" where
  "lead_kind c =
     (if c = CHR ''n'' then 0 else if c = CHR ''t'' \<or> c = CHR ''f'' then 1
      else if c = CHR 0x22 then 3 else if c = CHR ''['' then 4
      else if c = CHR ''{'' then 5 else 2)"

lemma lead_kind_numeral: "c = CHR ''-'' \<or> is_digit c \<Longrightarrow> lead_kind c = 2"
  by (auto simp: lead_kind_def is_digit_def)

lemma canonical_json_kind:
  assumes "json_no_real v" "canonical_json fr v @ q = c # q'"
  shows "lead_kind c = json_kind v"
proof (cases v)
  case (JInt k)
  with assms show ?thesis using show_int_lead [of k q c q'] by (simp add: lead_kind_numeral)
qed (use assms in \<open>auto simp: json_string_def lead_kind_def split: if_splits\<close>)

lemma show_int_nonempty [simp]: "show_int k \<noteq> []"
  by (simp add: show_int_def)

lemma canonical_json_nonempty: "json_no_real v \<Longrightarrow> canonical_json fr v \<noteq> []"
  by (cases v) (auto simp: json_string_def)

lemma canonical_json_same_kind:
  assumes "canonical_json fr u @ r = canonical_json fr v @ r'" "json_no_real u" "json_no_real v"
  shows "json_kind u = json_kind v"
proof -
  obtain c q where c: "canonical_json fr u @ r = c # q"
    using canonical_json_nonempty [OF assms(2), of fr] by (cases "canonical_json fr u") auto
  then show ?thesis
    using canonical_json_kind [OF assms(2)] canonical_json_kind [OF assms(3)] assms(1) by metis
qed

lemma size_json_list: "x \<in> set xs \<Longrightarrow> size x < size (JList xs)"
  by (simp add: less_Suc_eq_le size_list_estimation')

lemma size_json_obj: "kv \<in> set kvs \<Longrightarrow> size (snd kv) < size (JObj kvs)"
proof -
  assume "kv \<in> set kvs"
  then have "size (snd kv) \<le> size_list (\<lambda>p. size (snd p)) kvs"
    by (rule size_list_estimation') simp
  moreover have "size_list (\<lambda>p. size (snd p)) kvs \<le> size_list (size_prod (\<lambda>_. 0) size) kvs"
    by (rule size_list_pointwise) (auto simp: size_prod_simp)
  ultimately show ?thesis by simp
qed

lemma canonical_list_read:
  assumes eq: "canonical_json fr (JList xs) @ r = canonical_json fr (JList ys) @ r'"
    and plain: "json_no_real (JList xs)" "json_no_real (JList ys)"
    and IH: "\<And>x y q q'. x \<in> set xs \<Longrightarrow> y \<in> set ys \<Longrightarrow>
               canonical_json fr x @ q = canonical_json fr y @ q' \<Longrightarrow>
               delimited q \<Longrightarrow> delimited q' \<Longrightarrow> json_norm x = json_norm y \<and> q = q'"
  shows "json_norm (JList xs) = json_norm (JList ys) \<and> r = r'"
proof -
  have "map json_norm xs = map json_norm ys \<and> r = r'"
  proof (rule join_comma_unique [where f = "canonical_json fr" and close = "CHR '']''"])
    fix x q q' assume "x \<in> set xs \<union> set ys"
    then have "json_no_real x" using plain unfolding json_no_real_simps by blast
    then show "canonical_json fr x @ q \<noteq> CHR '']'' # q'" by (rule canonical_json_lead)
  qed (use eq IH in \<open>auto simp: is_digit_def\<close>)
  then show ?thesis by simp
qed

lemma canonical_obj_read:
  assumes eq: "canonical_json fr (JObj kvs) @ r = canonical_json fr (JObj kvs') @ r'"
    and IH: "\<And>x y q q'. x \<in> set kvs \<Longrightarrow> y \<in> set kvs' \<Longrightarrow>
               canonical_json fr (snd x) @ q = canonical_json fr (snd y) @ q' \<Longrightarrow>
               delimited q \<Longrightarrow> delimited q' \<Longrightarrow> json_norm (snd x) = json_norm (snd y) \<and> q = q'"
  shows "json_norm (JObj kvs) = json_norm (JObj kvs') \<and> r = r'"
proof -
  let ?f = "\<lambda>kv. json_string (fst kv) @ CHR '':'' # canonical_json fr (snd kv)"
  let ?g = "\<lambda>kv. (fst kv, json_norm (snd kv))"
  have "map ?g (sort_key fst kvs) = map ?g (sort_key fst kvs') \<and> r = r'"
  proof (rule join_comma_unique [where f = ?f and close = "CHR ''}''"])
    show "join_comma (map ?f (sort_key fst kvs)) @ CHR ''}'' # r
        = join_comma (map ?f (sort_key fst kvs')) @ CHR ''}'' # r'"
      using eq by simp
  next
    fix x y q q'
    assume xy: "x \<in> set (sort_key fst kvs)" "y \<in> set (sort_key fst kvs')"
      and eq: "?f x @ q = ?f y @ q'" and d: "delimited q" "delimited q'"
    from eq have "json_string (fst x) @ CHR '':'' # canonical_json fr (snd x) @ q
        = json_string (fst y) @ CHR '':'' # canonical_json fr (snd y) @ q'" by simp
    then have "fst x = fst y" "canonical_json fr (snd x) @ q = canonical_json fr (snd y) @ q'"
      using json_string_unique by blast+
    then show "?g x = ?g y \<and> q = q'" using IH [of x y q q'] xy d by simp
  next
    fix x q q' show "?f x @ q \<noteq> CHR ''}'' # q'" by (simp add: json_string_def)
  qed (simp_all add: is_digit_def)
  then show ?thesis by simp
qed

lemma canonical_json_read:
  assumes "canonical_json fr u @ r = canonical_json fr v @ r'"
    and "json_no_real u" "json_no_real v" "delimited r" "delimited r'"
  shows "json_norm u = json_norm v \<and> r = r'"
  using assms
proof (induction "size u" arbitrary: u v r r' rule: less_induct)
  case less
  have kind: "json_kind u = json_kind v"
    using less.prems(1-3) by (rule canonical_json_same_kind)
  show ?case
  proof (cases u)
    case JNull
    with less.prems(1) kind show ?thesis by (cases v) simp_all
  next
    case (JBool b)
    with less.prems(1) kind show ?thesis by (cases v) (auto split: if_splits)
  next
    case (JReal x)
    with less.prems(2) show ?thesis by simp
  next
    case (JInt k)
    with kind obtain l where "v = JInt l" by (cases v) simp_all
    with JInt less.prems(1,4,5) show_int_delimited [of k r l r'] show ?thesis by simp
  next
    case (JStr s)
    with kind obtain t where "v = JStr t" by (cases v) simp_all
    with JStr less.prems(1) json_string_unique [of s r t r'] show ?thesis by simp
  next
    case (JList xs)
    with kind obtain ys where v: "v = JList ys" by (cases v) simp_all
    have "json_norm (JList xs) = json_norm (JList ys) \<and> r = r'"
    proof (rule canonical_list_read [where fr = fr])
      fix x y q q'
      assume xy: "x \<in> set xs" "y \<in> set ys"
        and eq: "canonical_json fr x @ q = canonical_json fr y @ q'" "delimited q" "delimited q'"
      have "json_no_real x" "json_no_real y"
        using xy less.prems(2,3) unfolding JList v json_no_real_simps by blast+
      moreover have "size x < size u" unfolding JList using xy(1) by (rule size_json_list)
      ultimately show "json_norm x = json_norm y \<and> q = q'" using less.hyps eq by blast
    qed (use less.prems JList v in blast)+
    with JList v show ?thesis by simp
  next
    case (JObj kvs)
    with kind obtain kvs' where v: "v = JObj kvs'" by (cases v) simp_all
    have "json_norm (JObj kvs) = json_norm (JObj kvs') \<and> r = r'"
    proof (rule canonical_obj_read [where fr = fr])
      fix x y q q'
      assume xy: "x \<in> set kvs" "y \<in> set kvs'"
        and eq: "canonical_json fr (snd x) @ q = canonical_json fr (snd y) @ q'"
          "delimited q" "delimited q'"
      have "json_no_real (snd x)" "json_no_real (snd y)"
        using xy less.prems(2,3) unfolding JObj v json_no_real_simps by blast+
      moreover have "size (snd x) < size u" unfolding JObj using xy(1) by (rule size_json_obj)
      ultimately show "json_norm (snd x) = json_norm (snd y) \<and> q = q'" using less.hyps eq by blast
    qed (use less.prems JObj v in blast)
    with JObj v show ?thesis by simp
  qed
qed

lemma canonical_json_norm: "canonical_json fr (json_norm v) = canonical_json fr v"
proof (induction v rule: json_norm.induct)
  case (1 xs)
  then show ?case by (simp add: comp_def cong: map_cong)
next
  case (2 kvs)
  let ?g = "\<lambda>kv. (fst kv, json_norm (snd kv))"
  have "sorted (map fst (map ?g (sort_key fst kvs)))" by (simp add: comp_def)
  then have "sort_key fst (map ?g (sort_key fst kvs)) = map ?g (sort_key fst kvs)"
    by (rule sort_key_id_if_sorted)
  moreover have "map (\<lambda>kv. json_string (fst kv) @ CHR '':'' # canonical_json fr (json_norm (snd kv)))
        (sort_key fst kvs)
      = map (\<lambda>kv. json_string (fst kv) @ CHR '':'' # canonical_json fr (snd kv)) (sort_key fst kvs)"
    by (rule map_cong) (use 2 in simp_all)
  ultimately show ?case
    by (simp only: json_norm.simps canonical_json.simps map_map comp_def fst_conv snd_conv)
qed simp_all

lemma canonical_json_inject:
  assumes "json_no_real u" "json_no_real v"
  shows "canonical_json fr u = canonical_json fr v \<longleftrightarrow> json_norm u = json_norm v"
  using canonical_json_read [of fr u "[]" v "[]"] assms canonical_json_norm [of fr]
  by (auto simp: delimited_def) metis

section \<open>Properties of the serialisation\<close>

text \<open>
  C37. The text that \<open>stable_hash\<close> digests (\<open>json.dumps\<close> with sorted keys) identifies the value up
  to the order of its keys: two values without floats have the same text exactly when they are the
  same value. So equal digests of different values can only come from a collision of SHA-256.
\<close>

theorem canonical_json_identifies:
  assumes "json_no_real u" "json_no_real v"
  shows "canonical_json fr u = canonical_json fr v \<longleftrightarrow> json_norm u = json_norm v"
  using assms by (rule canonical_json_inject)

lemma canonical_json_identifies_witness:
  "\<forall>fr. canonical_json fr (JObj [(''b'', JInt 1), (''a'', JList [JStr ''x'', JNull])])
   = canonical_json fr (JObj [(''a'', JList [JStr ''x'', JNull]), (''b'', JInt 1)]) \<longleftrightarrow>
   json_norm (JObj [(''b'', JInt 1), (''a'', JList [JStr ''x'', JNull])])
   = json_norm (JObj [(''a'', JList [JStr ''x'', JNull]), (''b'', JInt 1)])"
  by (intro allI canonical_json_identifies) simp_all

end
