(* ===== verification/Layout_Schemas.thy ===== *)
theory Layout_Schemas
  imports Geometry Json
begin

text \<open>
  The layout and planning records of \<open>schemas/common.py\<close> and \<open>schemas/state.py\<close>, field by
  field. A record stands for an instance of the pydantic class of the same name; a field of type
  \<open>X | None\<close> is an \<open>option\<close>, a field of type \<open>Any\<close> or \<open>dict[str, Any]\<close> holds JSON, a
  \<open>datetime\<close> is its ISO text. The rule catalogue's lookup and its classification of a rule
  (\<open>RuleCatalog.repair_semantics_for\<close>) follow at the end.
\<close>

subsection \<open>schemas/common.py\<close>

record source_span =
  ss_path :: "string"
  ss_start_line :: "int"
  ss_start_column :: "int"
  ss_end_line :: "int"
  ss_end_column :: "int"
  ss_source_hash :: "string"

record artifact_ref =
  ar_artifact_id :: "string"
  ar_path :: "string"
  ar_sha256 :: "string"
  ar_media_type :: "string"
  ar_schema_name :: "string option"
  ar_schema_version :: "string option"
  ar_producer :: "string"
  ar_size_bytes :: "int"
  ar_created_at :: "string"

record predicate =
  pr_predicate_id :: "string"
  pr_kind :: "string"
  pr_parameters :: "(string \<times> json) list"

datatype editability_class =
    EditabilityA
  | EditabilityB
  | EditabilityC
  | EditabilityD


subsection \<open>schemas/state.py\<close>

text \<open>The \<open>Literal\<close> types of the fields.\<close>

datatype marker_type = MarkerEdgePair | MarkerPolygon | MarkerBbox

datatype marker_geometry = PointGeometry "point list" | EdgeGeometry "edge list"

datatype association_quality = AssocExact | AssocGeometric | AssocUnknown

datatype object_kind =
    KindPolygon
  | KindPath
  | KindViaStack
  | KindCellInstance
  | KindPin
  | KindUnknown

datatype net_mapping_quality =
    NetExact
  | NetConnectivityComponent
  | NetPartial
  | NetUnavailable

datatype repair_semantics =
    SemMetalSpacing
  | SemParallelRun
  | SemGridAlignment
  | SemTrackAlignment
  | SemViaMetalWidth
  | SemEnclosure
  | SemUnknown

datatype resource_source = SourceTrueRoutingGrid | SourceGeometryProxy | SourceUnavailable

datatype timing_source = TimingSta | TimingProxy | TimingUnavailable

datatype access_category =
    ExactAuthorizedPotentialAccess
  | ProvenPhysicalRelation
  | BroadPhase
  | UnknownAccess

datatype access_mode = AccessRead | AccessWrite | AccessReadWrite | AccessContext

datatype evidence_quality = QualityExact | QualityInferred | QualityUnavailable

datatype edge_relation = RelGeometry | RelSharedNet | RelResource | RelTiming

datatype scope_kind = ScopeFlat | ScopePlanningView

datatype rule_family =
    FamilySpacing
  | FamilyWidth
  | FamilyEnclosure
  | FamilyArea
  | FamilyAlignment
  | FamilyShort
  | FamilyVia
  | FamilyUnknown

record violation_record =
  v_violation_id :: "string"
  v_case_id :: "string"
  v_report_iteration :: "int"
  v_rule_id :: "string"
  v_rule_family :: "rule_family"
  v_description :: "string option"
  v_marker_type :: "marker_type"
  v_marker_bbox_dbu :: "box"
  v_marker_geometry_dbu :: "marker_geometry"
  v_layers :: "string list"
  v_severity :: "int"
  v_source_report_path :: "string"
  v_source_index :: "int"
  v_associated_object_ids :: "string list"
  v_association_quality :: "association_quality"
  v_fingerprint :: "string"

record layout_object =
  lo_object_id :: "string"
  lo_source_anchor_id :: "string option"
  lo_kind :: "object_kind"
  lo_layer :: "string"
  lo_bbox_dbu :: "box"
  lo_geometry_dbu :: "point list option"
  lo_net_id :: "string option"
  lo_net_mapping_quality :: "net_mapping_quality"
  lo_connectivity_component_id :: "string option"
  lo_routing_type :: "string option"
  lo_editability :: "editability_class"
  lo_touches_region_boundary :: "bool"
  lo_source_span :: "source_span option"
  lo_insertion_source_span :: "source_span option"
  lo_source_variable :: "string option"
  lo_source_cell :: "string option"
  lo_layer_number :: "int option"
  lo_geometry_hash :: "string"

record rule_spec =
  rs_description :: "string option"
  rs_repair_semantics :: "repair_semantics"
  rs_family :: "rule_family"
  rs_primary_layers :: "string list"
  rs_related_layers :: "string list"
  rs_min_influence_nm :: "int option"
  rs_halo_multiplier :: "real"
  rs_allowed_action_families :: "string list"
  rs_compound_with :: "string list"
  rs_provenance :: "string"

record rule_catalog =
  rc_schema_version :: "string"
  rc_rules :: "(string \<times> rule_spec) list"
  rc_fallback :: "rule_spec"
  rc_content_hash :: "string"

record affinity_evidence =
  ae_halo_overlap_ratio :: "real"
  ae_normalized_gap_score :: "real"
  ae_same_rule :: "bool"
  ae_same_rule_family :: "bool"
  ae_layer_relation :: "real"
  ae_shared_object_context :: "real"
  ae_shared_net :: "real option"
  ae_resource_overlap_proxy :: "real option"
  ae_same_standard_cell_row :: "bool option"
  ae_local_density_similarity :: "real option"

record resource_context =
  rx_source :: "resource_source"
  rx_occupied_track_bins :: "string list"
  rx_free_track_bins :: "string list"
  rx_via_site_bins :: "string list"
  rx_local_whitespace_ratio :: "real option"
  rx_local_density :: "real option"
  rx_congestion_score :: "real option"
  rx_confidence :: "real"

record timing_context =
  tc_source :: "timing_source"
  tc_affected_path_ids :: "string list"
  tc_setup_slack_budget_ps :: "int option"
  tc_hold_slack_budget_ps :: "int option"
  tc_critical_net_ids :: "string list"
  tc_confidence :: "real"

record source_slice =
  sl_source_anchor_id :: "string"
  sl_source_span :: "source_span"
  sl_text :: "string"

record candidate_attempt_summary =
  ca_candidate_id :: "string"
  ca_semantic_fingerprint :: "string"
  ca_outcome :: "string"
  ca_changed_precondition_ids :: "string list"

record rollback_summary =
  rb_transaction_id :: "string"
  rb_reason :: "string"
  rb_candidate_ids :: "string list"

record region_features =
  rf_marker_count :: "int"
  rf_object_count :: "int"
  rf_token_estimate :: "int"
  rf_density_proxy :: "real option"
  rf_geometry_signature :: "string"

datatype region_status =
    RegionActive
  | RegionInactiveResolved
  | RegionInactiveMerged
  | RegionInactiveSplit
  | RegionReactivated
  | RegionOversized
  | RegionInvalid

record region_state =
  rg_schema_version :: "string"
  rg_region_id :: "string"
  rg_lineage_id :: "string"
  rg_parent_region_ids :: "string list"
  rg_status :: "region_status"
  rg_iteration :: "int"
  rg_bbox_dbu :: "box"
  rg_edit_halo_dbu :: "box"
  rg_layers :: "string list"
  rg_violation_ids :: "string list"
  rg_rule_ids :: "string list"
  rg_rule_family_histogram :: "(string \<times> int) list"
  rg_object_ids :: "string list"
  rg_editable_object_ids :: "string list"
  rg_frozen_object_ids :: "string list"
  rg_segment_ids :: "string list"
  rg_via_ids :: "string list"
  rg_cell_instance_ids :: "string list"
  rg_net_ids :: "string list"
  rg_net_mapping_quality :: "net_mapping_quality"
  rg_resource_context :: "resource_context"
  rg_timing_context :: "timing_context option"
  rg_source_slices :: "source_slice list"
  rg_neighbor_edge_refs :: "string list"
  rg_candidate_history :: "candidate_attempt_summary list"
  rg_rollback_history :: "rollback_summary list"
  rg_derived_features :: "region_features"
  rg_quality_flags :: "string set"
  rg_content_hash :: "string"

record potential_access_evidence =
  pe_evidence_id :: "string"
  pe_category :: "access_category"
  pe_relation_kind :: "string"
  pe_access_mode :: "access_mode"
  pe_identity_ids :: "string list"
  pe_source :: "string"
  pe_details :: "(string \<times> json) list"

record potential_access_summary =
  ps_schema_version :: "string"
  ps_summary_id :: "string"
  ps_snapshot_id :: "string"
  ps_region_id :: "string"
  ps_writable_occurrence_ids :: "string list"
  ps_writable_source_target_ids :: "string list"
  ps_potential_write_geometry_ids :: "string list"
  ps_source_contributor_ids :: "string list"
  ps_source_definition_ids :: "string list"
  ps_potential_write_layers :: "string list"
  ps_locality_bbox :: "box"
  ps_protected_relation_ids :: "string list"
  ps_protected_relation_write_ids :: "string list"
  ps_protected_read_geometry_ids :: "string list"
  ps_merged_boundary_contributor_ids :: "string list"
  ps_landing_contact_relation_ids :: "string list"
  ps_connectivity_component_ids :: "string list"
  ps_connectivity_evidence_quality :: "evidence_quality"
  ps_exact_authorized_access_ids :: "string list"
  ps_proven_physical_relation_ids :: "string list"
  ps_broad_phase_relation_ids :: "string list"
  ps_unknown_access_ids :: "string list"
  ps_potential_dof_capability_ids :: "string list"
  ps_potential_carrier_ids :: "string list"
  ps_access_evidence :: "potential_access_evidence list"
  ps_unknown_reasons :: "string list"
  ps_content_hash :: "string"

record edge_evidence =
  ee_evidence_id :: "string"
  ee_kind :: "string"
  ee_details :: "(string \<times> json) list"

record agent_edge =
  e_edge_id :: "string"
  e_u :: "string"
  e_v :: "string"
  e_relation :: "edge_relation"
  e_score :: "real"
  e_hard :: "bool"
  e_directed :: "bool"
  e_evidence :: "edge_evidence list"
  e_confidence :: "real"
  e_created_iteration :: "int"
  e_last_validated_iteration :: "int"

record structured_constraint =
  sc_kind :: "string"
  sc_parameters :: "(string \<times> json) list"

record intent_summary =
  is_action_family :: "string"
  is_physical_intent :: "json"
  is_plan_id :: "string option"
  is_target_violation_ids :: "string list"
  is_target_relation :: "string"
  is_preferred_participant_ids :: "string list"
  is_preferred_dof_ids :: "string list"
  is_coordination_request :: "string option"
  is_target_object_ids :: "string list"
  is_footprint_dbu :: "box option"
  is_fingerprint :: "string"

record resource_claim =
  rcl_resource_id :: "string"
  rcl_amount :: "int"
  rcl_capacity :: "int option"

record timing_claim =
  tcl_path_id :: "string"
  tcl_setup_delta_ps :: "int option"
  tcl_hold_delta_ps :: "int option"

record boundary_dependency =
  bd_dependency_id :: "string"
  bd_u_scope_id :: "string"
  bd_v_scope_id :: "string"
  bd_relation_types :: "string list"
  bd_evidence_ids :: "string list"
  bd_hard :: "bool"
  bd_requires_transaction_recheck :: "bool"

record neighbor_message =
  nm_message_id :: "string"
  nm_round :: "int"
  nm_sender_region_id :: "string"
  nm_receiver_region_id :: "string"
  nm_relation :: "string"
  nm_evidence_ids :: "string list"
  nm_constraints :: "structured_constraint list"
  nm_proposed_intents :: "intent_summary list"
  nm_resource_claims :: "resource_claim list"
  nm_timing_claims :: "timing_claim list"
  nm_requested_response :: "string list"
  nm_content_hash :: "string"

record agent_subgraph =
  sg_subgraph_id :: "string"
  sg_region_ids :: "string list"
  sg_edge_ids :: "string list"
  sg_hierarchical :: "bool"
  sg_scope_kind :: "scope_kind"
  sg_physical_scope_id :: "string option"
  sg_solver_scope_id :: "string option"
  sg_planning_view_id :: "string option"
  sg_boundary_dependency_ids :: "string list"
  sg_priority :: "int"

subsection \<open>JSON forms (model\_dump)\<close>

text \<open>The JSON forms of records and \<open>Literal\<close> values that the program digests or sends.\<close>

definition box_json :: "box \<Rightarrow> json" where
  "box_json b = JObj [(''x1'', JInt (bx_x1 b)), (''y1'', JInt (bx_y1 b)),
                      (''x2'', JInt (bx_x2 b)), (''y2'', JInt (bx_y2 b))]"

definition json_strings :: "string list \<Rightarrow> json" where
  "json_strings xs = JList (map JStr xs)"

definition json_opt_string :: "string option \<Rightarrow> json" where
  "json_opt_string s = (case s of None \<Rightarrow> JNull | Some t \<Rightarrow> JStr t)"

fun relation_text :: "edge_relation \<Rightarrow> string" where
  "relation_text RelGeometry = ''geometry''"
| "relation_text RelSharedNet = ''shared_net''"
| "relation_text RelResource = ''resource''"
| "relation_text RelTiming = ''timing''"

fun net_quality_text :: "net_mapping_quality \<Rightarrow> string" where
  "net_quality_text NetExact = ''exact''"
| "net_quality_text NetConnectivityComponent = ''connectivity_component''"
| "net_quality_text NetPartial = ''partial''"
| "net_quality_text NetUnavailable = ''unavailable''"

fun access_category_text :: "access_category \<Rightarrow> string" where
  "access_category_text ExactAuthorizedPotentialAccess = ''EXACT_AUTHORIZED_POTENTIAL_ACCESS''"
| "access_category_text ProvenPhysicalRelation = ''PROVEN_PHYSICAL_RELATION''"
| "access_category_text BroadPhase = ''BROAD_PHASE''"
| "access_category_text UnknownAccess = ''UNKNOWN''"

fun evidence_quality_text :: "evidence_quality \<Rightarrow> string" where
  "evidence_quality_text QualityExact = ''exact''"
| "evidence_quality_text QualityInferred = ''inferred''"
| "evidence_quality_text QualityUnavailable = ''unavailable''"

definition edge_evidence_json :: "edge_evidence \<Rightarrow> json" where
  "edge_evidence_json e =
     JObj [(''evidence_id'', JStr (ee_evidence_id e)), (''kind'', JStr (ee_kind e)),
           (''details'', JObj (ee_details e))]"

definition constraint_json :: "structured_constraint \<Rightarrow> json" where
  "constraint_json c = JObj [(''kind'', JStr (sc_kind c)), (''parameters'', JObj (sc_parameters c))]"

definition intent_json :: "intent_summary \<Rightarrow> json" where
  "intent_json i =
     JObj [(''action_family'', JStr (is_action_family i)),
           (''physical_intent'', is_physical_intent i),
           (''plan_id'', json_opt_string (is_plan_id i)),
           (''target_violation_ids'', json_strings (is_target_violation_ids i)),
           (''target_relation'', JStr (is_target_relation i)),
           (''preferred_participant_ids'', json_strings (is_preferred_participant_ids i)),
           (''preferred_dof_ids'', json_strings (is_preferred_dof_ids i)),
           (''coordination_request'', json_opt_string (is_coordination_request i)),
           (''target_object_ids'', json_strings (is_target_object_ids i)),
           (''footprint_dbu'', (case is_footprint_dbu i of None \<Rightarrow> JNull | Some b \<Rightarrow> box_json b)),
           (''fingerprint'', JStr (is_fingerprint i))]"

subsection \<open>Digests of artifacts (ArtifactRef.valid\_sha256)\<close>

text \<open>ASCII lower case, as \<open>str.lower\<close> on the texts of the program.\<close>

definition lower_char :: "char \<Rightarrow> char" where
  "lower_char c = (let n = of_char c :: nat in if 65 \<le> n \<and> n \<le> 90 then char_of (n + 32) else c)"

definition lower :: "string \<Rightarrow> string" where
  "lower s = map lower_char s"

definition is_lower_hex :: "char \<Rightarrow> bool" where
  "is_lower_hex c \<longleftrightarrow> c \<in> set ''0123456789abcdef''"

definition valid_sha256 :: "string \<Rightarrow> string result" where
  "valid_sha256 value =
     (if length value \<noteq> 64 \<or> (\<exists>c \<in> set (lower value). \<not> is_lower_hex c)
      then Inl (ValueError ''sha256 must be 64 hexadecimal characters'')
      else Inr (lower value))"

lemma lower_char_idem: "lower_char (lower_char c) = lower_char c"
  by (simp add: lower_char_def Let_def of_char_of)

lemma lower_idem [simp]: "lower (lower s) = lower s"
  by (simp add: lower_def lower_char_idem)

lemma length_lower [simp]: "length (lower s) = length s"
  by (simp add: lower_def)

lemma valid_sha256_idem: "valid_sha256 value = Inr w \<Longrightarrow> valid_sha256 w = Inr w"
  by (auto simp: valid_sha256_def split: if_splits)

subsection \<open>The rule catalogue (RuleCatalog)\<close>

definition catalog_lookup :: "rule_catalog \<Rightarrow> string \<Rightarrow> rule_spec \<times> bool" where
  "catalog_lookup c rule_id =
     (case map_of (rc_rules c) rule_id of
        Some spec \<Rightarrow> (spec, True)
      | None \<Rightarrow> (rc_fallback c, False))"

text \<open>\<open>" ".join(part for part in [...] if part)\<close>.\<close>

fun join_space :: "string list \<Rightarrow> string" where
  "join_space [] = []"
| "join_space [x] = x"
| "join_space (x # y # xs) = x @ '' '' @ join_space (y # xs)"

definition nonempty_parts :: "string option list \<Rightarrow> string list" where
  "nonempty_parts ps = concat (map (\<lambda>p. case p of Some (c # s) \<Rightarrow> [c # s] | _ \<Rightarrow> []) ps)"

definition starts_with :: "string \<Rightarrow> string \<Rightarrow> bool" where
  "starts_with s p \<longleftrightarrow> take (length p) s = p"

definition repair_semantics_for ::
    "rule_catalog \<Rightarrow> string \<Rightarrow> string option \<Rightarrow> repair_semantics" where
  "repair_semantics_for c rule_id violation_description =
     (let (spec, exact) = catalog_lookup c rule_id in
      if rs_repair_semantics spec \<noteq> SemUnknown then rs_repair_semantics spec
      else if \<not> exact then SemUnknown
      else let description = lower (join_space
                 (nonempty_parts [rs_description spec, violation_description]));
               layers = set (rs_primary_layers spec @ rs_related_layers spec) in
        if rs_family spec = FamilyAlignment
        then (if sublist ''track'' description then SemTrackAlignment else SemGridAlignment)
        else if rs_family spec = FamilyWidth \<and> (\<exists>l \<in> layers. starts_with l ''V'') \<and>
                (\<exists>l \<in> layers. starts_with l ''M'')
        then SemViaMetalWidth
        else if rs_family spec = FamilyEnclosure then SemEnclosure
        else if rule_id = ''M2.S.7'' then SemParallelRun
        else if rs_family spec = FamilySpacing then SemMetalSpacing
        else SemUnknown)"

text \<open>A rule that the catalogue does not list never gets more than the fallback's semantics.\<close>

lemma repair_semantics_unlisted:
  "map_of (rc_rules c) rule_id = None \<Longrightarrow>
   repair_semantics_for c rule_id d = rs_repair_semantics (rc_fallback c)"
  by (simp add: repair_semantics_for_def catalog_lookup_def)

lemma repair_semantics_declared:
  "map_of (rc_rules c) rule_id = Some spec \<Longrightarrow> rs_repair_semantics spec \<noteq> SemUnknown \<Longrightarrow>
   repair_semantics_for c rule_id d = rs_repair_semantics spec"
  by (simp add: repair_semantics_for_def catalog_lookup_def)

subsection \<open>Via layers (regions/topology.py)\<close>

definition via_adjacent_metals :: "string \<Rightarrow> string set" where
  "via_adjacent_metals layer =
     (if \<not> starts_with layer ''V'' \<or> tl layer = [] \<or> (\<exists>c \<in> set (tl layer). \<not> is_digit c) then {}
      else let lower = read_nat (tl layer)
           in {CHR ''M'' # show_nat lower, CHR ''M'' # show_nat (lower + 1)})"

lemma via_adjacent_metals_show:
  "via_adjacent_metals (CHR ''V'' # show_nat n) = {CHR ''M'' # show_nat n, CHR ''M'' # show_nat (n + 1)}"
  using show_nat_digits [of _ n] by (auto simp: via_adjacent_metals_def starts_with_def Let_def)

end
