(* ===== verification/Action_Schemas.thy ===== *)
theory Action_Schemas
  imports Layout_Schemas
begin

text \<open>
  The action records of \<open>schemas/action.py\<close> (edits, sandbox evidence, benefit evidence, repair
  candidates, bundles, patch plans, verification results), with the two attempt enumerations of
  \<open>schemas/tools.py\<close>, field by field, and the validators that pydantic runs on them:
  \<open>validate_sandbox_evidence\<close>, \<open>validate_benefit_evidence\<close>,
  \<open>validate_verification_result\<close>. A validator returns the (possibly normalised) record or the
  \<open>ValueError\<close> that it raises.
\<close>

subsection \<open>schemas/tools.py\<close>

datatype evidence_validity =
    EvidenceNotEvaluated
  | EvidenceValid
  | EvidenceError

datatype attempt_terminal_status =
    TerminalEvaluated
  | TerminalExecutionFailure
  | TerminalCancelled


subsection \<open>schemas/action.py\<close>

text \<open>The \<open>Literal\<close> types of the fields.\<close>

datatype endpoint_end = EndStart | EndEnd

datatype endpoint_axis = AxisX | AxisY

datatype timing_fidelity = FidelitySta | FidelityProxy | FidelityUnavailable

datatype rule_proof_status = ProvenRemoved | NotProven | Contradicted

datatype proof_status = ProofNone | ProofProven

datatype candidate_relation =
    ConflictsWith
  | SharesObjectWith
  | CompetesResourceWith
  | Requires
  | CooperatesWith
  | TimingCoupledWith

datatype replacement_kind =
    ReplaceExpr
  | ReplaceStmt
  | ReplaceInstanceStmt
  | ReplaceBlankLine
  | ReplaceTopCellStmt
  | InsertAfter
  | DeleteStmt

datatype action_type =
    ActNoOp
  | ActMoveShape
  | ActResizeShape
  | ActAdjustEndpoint
  | ActAddPolygon
  | ActDeletePolygon
  | ActMoveViaStack
  | ActAddViaStack
  | ActDeleteViaStack
  | ActReplaceViaStack
  | ActChangeLayer
  | ActLocalDetour
  | ActLocalReroute
  | ActInstanceSpecialization

record endpoint_selector =
  es_endpoint :: "endpoint_end"
  es_axis :: "endpoint_axis option"

record edit_provenance =
  ep_generator :: "string"
  ep_intent_id :: "string option"
  ep_evidence_ids :: "string list"

record instance_specialization =
  ig_instance_anchor_id :: "string"
  ig_parent_cell :: "string"
  ig_source_cell :: "string"
  ig_specialized_cell_name :: "string"
  ig_layer :: "string"
  ig_rotation :: "int"
  ig_mirror :: "bool"
  ig_dx_dbu :: "int"
  ig_dy_dbu :: "int"
  ig_original_polygons_local_dbu :: "point list list"
  ig_replacement_polygons_local_dbu :: "point list list"
  ig_original_polygons_by_layer_local_dbu :: "(string \<times> point list list) list"
  ig_complete_polygons_by_layer_local_dbu :: "(string \<times> point list list) list"
  ig_replaced_layers :: "string list"
  ig_occurrence_local_fragment :: "bool"

record layout_edit =
  ed_edit_id :: "string"
  ed_op :: "action_type"
  ed_target_object_ids :: "string list"
  ed_source_anchor_ids :: "string list"
  ed_layer_before :: "string option"
  ed_layer_after :: "string option"
  ed_geometry_before_dbu :: "point list list option"
  ed_geometry_after_dbu :: "point list list option"
  ed_replacement_group_id :: "string option"
  ed_delta_dbu :: "dvector option"
  ed_endpoint_selector :: "endpoint_selector option"
  ed_net_id :: "string option"
  ed_preconditions :: "predicate list"
  ed_postconditions :: "predicate list"
  ed_editability_required :: "editability_class set"
  ed_instance_specializations :: "instance_specialization list"
  ed_provenance :: "edit_provenance"

record source_target =
  st_source_anchor_id :: "string"
  st_source_hash :: "string"
  st_object_id :: "string"

record timing_delta =
  td_setup_ps :: "int option"
  td_hold_ps :: "int option"
  td_fidelity :: "timing_fidelity"

record side_effect =
  sf_kind :: "string"
  sf_severity_milli :: "int"
  sf_evidence_ids :: "string list"

record disturbance_estimate =
  de_modified_objects :: "int"
  de_area_dbu2 :: "int"
  de_via_operations :: "int"
  de_explicit_risk_milli :: "int"

record cost_estimate =
  ce_patch_operations :: "int"
  ce_preview_calls :: "int"
  ce_runtime_millis :: "int"

datatype validation_status =
    StatusValid
  | StatusValidRequiresSandbox
  | StatusInvalidSchema
  | StatusInvalidTarget
  | StatusInvalidEditability
  | StatusInvalidGeometry
  | StatusInvalidResource
  | StatusInvalidBenefitProof
  | StatusStaleTarget
  | StatusUnpatchable

record validation_issue =
  vi_level :: "int"
  vi_code :: "string"
  vi_message :: "string"
  vi_evidence :: "(string \<times> json) list"

datatype sandbox_status =
    SandboxNotRun
  | SandboxCleanProgress
  | SandboxNoProgress
  | SandboxOffTargetEffect
  | SandboxRegression
  | SandboxConnectivityFail
  | SandboxExecutionFail
  | SandboxTimeout

datatype sandbox_scope =
    ScopeNone
  | ScopeIsolatedCandidate
  | ScopeJointBundle

record sandbox_evidence =
  se_status :: "sandbox_status"
  se_scope :: "sandbox_scope"
  se_base_snapshot_id :: "string option"
  se_removed_original_violation_ids :: "string list"
  se_removed_original_marker_fingerprints :: "string list"
  se_target_violation_removed_ids :: "string list"
  se_new_violation_ids :: "string list"
  se_new_marker_fingerprints :: "string list"
  se_removed_original_count :: "int option"
  se_new_violation_count :: "int option"
  se_connectivity_preserved :: "bool option"
  se_verification_ref :: "artifact_ref option"
  se_new_violation_records :: "json list"
  se_attempted_script_sha256 :: "string option"
  se_attempted_gds_sha256 :: "string option"
  se_attempted_drc_sha256 :: "string option"
  se_candidate_ids :: "string list"
  se_base_script_sha256 :: "string option"
  se_physical_effect_fingerprint :: "string option"
  se_patch_plan_sha256 :: "string option"
  se_rule_deck_sha256 :: "string option"
  se_evaluator_sha256 :: "string option"
  se_connectivity_reference_sha256 :: "string option"
  se_failure_code :: "string option"
  se_failure_message :: "string option"
  se_execution_protocol_version :: "string"
  se_attempt_id :: "string option"
  se_logical_evidence_key :: "string option"
  se_terminal_status :: "attempt_terminal_status option"
  se_drc_validity :: "evidence_validity"
  se_sanity_validity :: "evidence_validity"
  se_connectivity_validity :: "evidence_validity"
  se_fresh_evidence_valid :: "bool"

record rule_benefit_proof =
  rp_violation_id :: "string"
  rp_status :: "rule_proof_status"
  rp_proof_code :: "string"
  rp_input_hash :: "string"
  rp_proof_version :: "string"

record benefit_evidence =
  be_proof_status :: "proof_status"
  be_proof_codes :: "string list"
  be_rule_proofs :: "rule_benefit_proof list"
  be_proven_removed_violation_ids :: "string list"
  be_proven_drc_benefit_lb :: "int"
  be_heuristic_removed_violation_ids :: "string list"
  be_heuristic_drc_benefit_est :: "int"
  be_sandbox :: "sandbox_evidence"

record repair_candidate =
  c_schema_version :: "string"
  c_candidate_id :: "string"
  c_region_id :: "string"
  c_subgraph_id :: "string"
  c_rank_from_agent :: "int"
  c_action_family :: "string"
  c_edits :: "layout_edit list"
  c_semantic_objective :: "string"
  c_semantic_postconditions :: "predicate list"
  c_target_violation_ids :: "string list"
  c_target_object_ids :: "string list"
  c_affected_object_ids :: "string list"
  c_affected_net_ids :: "string list"
  c_affected_connectivity_component_ids :: "string list"
  c_affected_physical_geometry_ids :: "string list"
  c_source_targets :: "source_target list"
  c_edit_footprint_dbu :: "box"
  c_required_resources :: "resource_claim list"
  c_released_resources :: "resource_claim list"
  c_benefit_evidence :: "benefit_evidence"
  c_predicted_introduced_rule_ids :: "string list"
  c_predicted_timing_delta :: "timing_delta option"
  c_predicted_side_effects :: "side_effect list"
  c_preconditions :: "predicate list"
  c_postconditions :: "predicate list"
  c_requires_candidate_ids :: "string list"
  c_excludes_candidate_ids :: "string list"
  c_cooperates_with_hints :: "string list"
  c_experience_support_ids :: "string list"
  c_agent_confidence_milli :: "int"
  c_estimated_disturbance :: "disturbance_estimate"
  c_estimated_cost :: "cost_estimate"
  c_validation_status :: "validation_status"
  c_validation_issues :: "validation_issue list"
  c_semantic_fingerprint :: "string"

record candidate_edge_evidence =
  cee_evidence_id :: "string"
  cee_kind :: "string"
  cee_details :: "(string \<times> json) list"

record candidate_edge =
  cd_edge_id :: "string"
  cd_a :: "string"
  cd_b :: "string"
  cd_relation :: "candidate_relation"
  cd_hard :: "bool"
  cd_directed :: "bool"
  cd_score_milli :: "int"
  cd_evidence :: "candidate_edge_evidence list"

record candidate_graph_audit =
  ga_candidate_pair_count :: "int"
  ga_relevant_pair_count :: "int"
  ga_covered_relevant_pair_count :: "int"
  ga_completeness_milli :: "int"
  ga_missing_relevant_pairs :: "(string \<times> string) list"
  ga_spatially_relevant_pair_count :: "int"
  ga_source_overlap_pair_count :: "int"
  ga_object_overlap_pair_count :: "int"
  ga_instance_occurrence_overlap_pair_count :: "int"
  ga_net_overlap_pair_count :: "int"
  ga_connectivity_component_overlap_pair_count :: "int"
  ga_resource_overlap_pair_count :: "int"
  ga_hard_conflict_edge_count :: "int"
  ga_soft_relation_edge_count :: "int"
  ga_unresolved_pair_count :: "int"
  ga_unresolved_pairs :: "(string \<times> string) list"

record candidate_graph =
  cg_subgraph_id :: "string"
  cg_candidates :: "repair_candidate list"
  cg_edges :: "candidate_edge list"
  cg_audit :: "candidate_graph_audit"
  cg_resource_capacities :: "(string \<times> int) list"
  cg_no_good_candidate_sets :: "string list list"
  cg_bundle_atoms :: "string list list"

record joint_repair_bundle =
  jb_bundle_id :: "string"
  jb_subgraph_id :: "string"
  jb_selected_candidate_ids :: "string list"
  jb_solver_status :: "string"
  jb_benefit :: "int"
  jb_disturbance :: "int"
  jb_evidence_quality :: "int"
  jb_sandbox_status :: "sandbox_status"
  jb_sandbox_verification_ref :: "artifact_ref option"
  jb_solver_metrics :: "(string \<times> json) list"
  jb_candidate_dispositions :: "((string \<times> json) list) list"
  jb_all_noop_reason :: "string option"

record source_edit =
  sd_source_anchor_id :: "string"
  sd_original_source_hash :: "string"
  sd_replacement_kind :: "replacement_kind"
  sd_generated_source :: "string"
  sd_contributing_candidate_ids :: "string list"

record occurrence_receipt =
  or_old_instance_anchor_id :: "string"
  or_source_sha256 :: "string"
  or_statement_ast_hash :: "string"
  or_parent_cell :: "string"
  or_old_source_cell :: "string"
  or_new_source_cell :: "string"
  or_transform :: "int \<times> bool \<times> int \<times> int"
  or_replaced_layers :: "string list"
  or_replacement_layer_hashes :: "(string \<times> string) list"

record patch_plan =
  pp_base_script_sha256 :: "string"
  pp_occurrence_receipts :: "occurrence_receipt list"
  pp_source_edits :: "source_edit list"
  pp_touched_anchor_ids :: "string list"
  pp_expected_object_after_hashes :: "(string \<times> string) list"

datatype transaction_status =
    TxPrepared
  | TxRunning
  | TxVerified
  | TxCommitted
  | TxRolledBack
  | TxFailed
  | TxCancelled

datatype verification_outcome =
    OutcomeWorkspacePreparationFailure
  | OutcomePatchApplicationFailure
  | OutcomeSyntaxFailure
  | OutcomeLayoutGenerationFailure
  | OutcomeDrcExecutionFailure
  | OutcomeEvidencePublicationFailure
  | OutcomeCancelled
  | OutcomeGdsSanityFailure
  | OutcomeDrcNoProgress
  | OutcomeNewDrcIntroduced
  | OutcomeConnectivityFailure
  | OutcomeTimingFailure
  | OutcomeSuccess

record verification_result =
  vr_verification_id :: "string"
  vr_transaction_id :: "string"
  vr_outcome :: "verification_outcome"
  vr_script_valid :: "bool option"
  vr_gds_sanity_pass :: "bool option"
  vr_connectivity_preserved :: "bool option"
  vr_timing_gate_pass :: "bool option"
  vr_baseline_residual_count :: "int"
  vr_residual_violation_count :: "int option"
  vr_new_violation_count :: "int option"
  vr_removed_original_count :: "int option"
  vr_removed_original_violation_ids :: "string list"
  vr_removed_original_marker_fingerprints :: "string list"
  vr_new_violation_ids :: "string list"
  vr_new_marker_fingerprints :: "string list"
  vr_evidence_refs :: "artifact_ref list"
  vr_failure_codes :: "string list"
  vr_execution_protocol_version :: "string"
  vr_attempt_id :: "string option"
  vr_terminal_status :: "attempt_terminal_status option"
  vr_script_validity :: "evidence_validity"
  vr_layout_validity :: "evidence_validity"
  vr_drc_validity :: "evidence_validity"
  vr_sanity_validity :: "evidence_validity"
  vr_connectivity_validity :: "evidence_validity"
  vr_fresh_evidence_valid :: "bool"
  vr_failure_domain :: "string option"
  vr_failure_stage :: "string option"

subsection \<open>Truth of optional values\<close>

text \<open>A \<open>str | None\<close> in a boolean position: neither \<open>None\<close> nor the empty string.\<close>

definition opt_truthy :: "string option \<Rightarrow> bool" where
  "opt_truthy s = (case s of None \<Rightarrow> False | Some t \<Rightarrow> t \<noteq> [])"

definition opt_or_zero :: "int option \<Rightarrow> int" where
  "opt_or_zero k = (case k of None \<Rightarrow> 0 | Some n \<Rightarrow> n)"

lemma opt_truthy_iff: "opt_truthy s \<longleftrightarrow> (\<exists>t. s = Some t \<and> t \<noteq> [])"
  by (simp add: opt_truthy_def split: option.splits)

lemma opt_or_zero_Some [simp]: "opt_or_zero (Some n) = n"
  by (simp add: opt_or_zero_def)

text \<open>\<open>self.execution_protocol_version.startswith("p3.2")\<close>.\<close>

definition protocol_p32 :: "string \<Rightarrow> bool" where
  "protocol_p32 s \<longleftrightarrow> starts_with s ''p3.2''"

subsection \<open>SandboxEvidence\<close>

definition validate_optional_sha256 :: "string option \<Rightarrow> string option result" where
  "validate_optional_sha256 value =
     (case value of None \<Rightarrow> Inr None
      | Some s \<Rightarrow>
          if length (lower s) \<noteq> 64 \<or> (\<exists>c \<in> set (lower s). \<not> is_lower_hex c)
          then Inl (ValueError ''sandbox artifact hash must be SHA-256'')
          else Inr (Some (lower s)))"

text \<open>\<open>raw.setdefault(key, 0)\<close> on the raw dictionary.\<close>

definition setdefault :: "string \<Rightarrow> json \<Rightarrow> (string \<times> json) list \<Rightarrow> (string \<times> json) list" where
  "setdefault k v d = (if k \<in> fst ` set d then d else d @ [(k, v)])"

definition preserve_legacy_count_defaults :: "json \<Rightarrow> json" where
  "preserve_legacy_count_defaults value =
     (case value of
        JObj raw \<Rightarrow>
          if (case map_of raw ''execution_protocol_version'' of
                Some (JStr s) \<Rightarrow> protocol_p32 s
              | _ \<Rightarrow> False)
          then JObj raw
          else JObj (setdefault ''new_violation_count'' (JInt 0)
                      (setdefault ''removed_original_count'' (JInt 0) raw))
      | _ \<Rightarrow> value)"

text \<open>
  The field validators: the constraint \<open>ge=0\<close> on the two counts and the nine digests, which are
  normalised to lower case.
\<close>

definition nonneg_opt :: "int option \<Rightarrow> bool" where
  "nonneg_opt k = (case k of None \<Rightarrow> True | Some n \<Rightarrow> 0 \<le> n)"

definition evidence_digests :: "sandbox_evidence \<Rightarrow> string option list" where
  "evidence_digests e =
     [se_attempted_script_sha256 e, se_attempted_gds_sha256 e, se_attempted_drc_sha256 e,
      se_base_script_sha256 e, se_physical_effect_fingerprint e, se_patch_plan_sha256 e,
      se_rule_deck_sha256 e, se_evaluator_sha256 e, se_connectivity_reference_sha256 e]"

definition normalise_digests :: "sandbox_evidence \<Rightarrow> sandbox_evidence" where
  "normalise_digests e = e\<lparr>
     se_attempted_script_sha256 := map_option lower (se_attempted_script_sha256 e),
     se_attempted_gds_sha256 := map_option lower (se_attempted_gds_sha256 e),
     se_attempted_drc_sha256 := map_option lower (se_attempted_drc_sha256 e),
     se_base_script_sha256 := map_option lower (se_base_script_sha256 e),
     se_physical_effect_fingerprint := map_option lower (se_physical_effect_fingerprint e),
     se_patch_plan_sha256 := map_option lower (se_patch_plan_sha256 e),
     se_rule_deck_sha256 := map_option lower (se_rule_deck_sha256 e),
     se_evaluator_sha256 := map_option lower (se_evaluator_sha256 e),
     se_connectivity_reference_sha256 := map_option lower (se_connectivity_reference_sha256 e)\<rparr>"

definition validate_evidence_fields :: "sandbox_evidence \<Rightarrow> sandbox_evidence result" where
  "validate_evidence_fields e =
     (if \<not> nonneg_opt (se_removed_original_count e) \<or> \<not> nonneg_opt (se_new_violation_count e)
      then Inl (ValueError ''greater than or equal to 0'')
      else bind_result (map_result validate_optional_sha256 (evidence_digests e))
             (\<lambda>_. Inr (normalise_digests e)))"

text \<open>\<open>validate_tool_evidence\<close>: first the counts are raised to the number of distinct ids.\<close>

definition raised_count :: "string list \<Rightarrow> int option \<Rightarrow> int option" where
  "raised_count ids official =
     (if ids \<noteq> [] then Some (max (opt_or_zero official) (int (card (set ids)))) else official)"

definition raise_counts :: "sandbox_evidence \<Rightarrow> sandbox_evidence" where
  "raise_counts e = e\<lparr>
     se_removed_original_count :=
       raised_count (se_removed_original_violation_ids e) (se_removed_original_count e),
     se_new_violation_count :=
       raised_count (se_new_violation_ids e) (se_new_violation_count e)\<rparr>"

definition exceeds :: "string list \<Rightarrow> int option \<Rightarrow> bool" where
  "exceeds marks official =
     (case official of None \<Rightarrow> False | Some n \<Rightarrow> int (card (set marks)) > n)"

definition clean_evidence_incomplete :: "sandbox_evidence \<Rightarrow> bool" where
  "clean_evidence_incomplete e \<longleftrightarrow>
     se_verification_ref e = None \<or> \<not> opt_truthy (se_base_snapshot_id e) \<or>
     (case se_removed_original_count e of None \<Rightarrow> True | Some n \<Rightarrow> n \<le> 0) \<or>
     se_new_violation_count e \<noteq> Some 0 \<or> se_connectivity_preserved e \<noteq> Some True \<or>
     \<not> (opt_truthy (se_attempted_script_sha256 e) \<and> opt_truthy (se_attempted_gds_sha256 e) \<and>
        opt_truthy (se_attempted_drc_sha256 e))"

definition p32_evidence_incomplete :: "sandbox_evidence \<Rightarrow> bool" where
  "p32_evidence_incomplete e \<longleftrightarrow>
     se_drc_validity e \<noteq> EvidenceValid \<or> se_sanity_validity e \<noteq> EvidenceValid \<or>
     se_connectivity_validity e \<noteq> EvidenceValid \<or> \<not> se_fresh_evidence_valid e \<or>
     \<not> opt_truthy (se_attempt_id e) \<or> \<not> opt_truthy (se_logical_evidence_key e) \<or>
     se_terminal_status e \<noteq> Some TerminalEvaluated"

definition validate_tool_evidence :: "sandbox_evidence \<Rightarrow> sandbox_evidence result" where
  "validate_tool_evidence e0 =
     (let e = raise_counts e0 in
      if exceeds (se_removed_original_marker_fingerprints e) (se_removed_original_count e)
      then Inl (ValueError ''removed marker identity exceeds official removed count'')
      else if exceeds (se_new_marker_fingerprints e) (se_new_violation_count e)
      then Inl (ValueError ''new marker identity exceeds official new count'')
      else if se_status e = SandboxCleanProgress \<and> clean_evidence_incomplete e
      then Inl (ValueError ''clean sandbox progress requires snapshot-bound tool evidence'')
      else if se_status e = SandboxCleanProgress \<and>
              protocol_p32 (se_execution_protocol_version e) \<and> p32_evidence_incomplete e
      then Inl (ValueError ''P3.2 clean progress requires complete attempt-owned evidence'')
      else Inr e)"

definition validate_sandbox_evidence :: "sandbox_evidence \<Rightarrow> sandbox_evidence result" where
  "validate_sandbox_evidence e = bind_result (validate_evidence_fields e) validate_tool_evidence"

subsection \<open>BenefitEvidence, DisturbanceEstimate, RepairCandidate\<close>

definition validate_benefit_evidence :: "benefit_evidence \<Rightarrow> benefit_evidence result" where
  "validate_benefit_evidence b =
     (if be_proven_drc_benefit_lb b < 0 \<or> be_heuristic_drc_benefit_est b < 0
      then Inl (ValueError ''greater than or equal to 0'')
      else let unique = sort (remdups (be_proven_removed_violation_ids b)) in
      if be_proven_drc_benefit_lb b > int (length unique)
      then Inl (ValueError ''proven benefit cannot exceed uniquely proven violations'')
      else if be_proven_drc_benefit_lb b \<noteq> 0 \<and> be_proof_status b \<noteq> ProofProven
      then Inl (ValueError ''positive proven benefit requires proof_status=PROVEN'')
      else if be_proof_status b = ProofNone \<and> be_proven_removed_violation_ids b \<noteq> []
      then Inl (ValueError ''unproven violation IDs cannot enter trusted coverage'')
      else Inr b)"

definition objective_value :: "disturbance_estimate \<Rightarrow> int" where
  "objective_value d =
     de_modified_objects d * 1000000 + de_area_dbu2 d +
     de_via_operations d * 100000 + de_explicit_risk_milli d"

definition confidence_range :: "int \<Rightarrow> int result" where
  "confidence_range value =
     (if \<not> (0 \<le> value \<and> value \<le> 1000)
      then Inl (ValueError ''agent_confidence_milli must be in [0, 1000]'') else Inr value)"

definition is_noop :: "repair_candidate \<Rightarrow> bool" where
  "is_noop c \<longleftrightarrow> c_action_family c = ''NO_OP'' \<and> c_edits c = []"

text \<open>\<open>affected_object_ids or target_object_ids\<close>, as the callers read a candidate's objects.\<close>

definition candidate_objects :: "repair_candidate \<Rightarrow> string list" where
  "candidate_objects c =
     (if c_affected_object_ids c \<noteq> [] then c_affected_object_ids c else c_target_object_ids c)"

subsection \<open>VerificationResult\<close>

definition verification_complete :: "verification_result \<Rightarrow> bool" where
  "verification_complete r \<longleftrightarrow>
     (\<forall>v \<in> set [vr_script_validity r, vr_layout_validity r, vr_drc_validity r,
                vr_sanity_validity r, vr_connectivity_validity r]. v = EvidenceValid)"

definition validate_verification_result :: "verification_result \<Rightarrow> verification_result result" where
  "validate_verification_result r =
     (if exceeds (vr_removed_original_marker_fingerprints r) (vr_removed_original_count r)
      then Inl (ValueError ''removed marker identity exceeds official removed count'')
      else if exceeds (vr_new_marker_fingerprints r) (vr_new_violation_count r)
      then Inl (ValueError ''new marker identity exceeds official new count'')
      else if protocol_p32 (vr_execution_protocol_version r) \<and>
              vr_fresh_evidence_valid r \<noteq> verification_complete r
      then Inl (ValueError ''fresh_evidence_valid must equal complete P3.2 verification validity'')
      else if protocol_p32 (vr_execution_protocol_version r) \<and>
              vr_outcome r = OutcomeSuccess \<and> \<not> verification_complete r
      then Inl (ValueError ''P3.2 SUCCESS requires complete fresh evidence'')
      else Inr r)"

subsection \<open>What validated records satisfy\<close>

lemma validate_optional_sha256_Inr:
  "validate_optional_sha256 v = Inr w \<Longrightarrow> w = map_option lower v \<and> validate_optional_sha256 w = Inr w"
  by (auto simp: validate_optional_sha256_def split: option.splits if_splits)

lemma raise_counts_frame [frame_simps]:
  "se_status (raise_counts e) = se_status e"
  "se_verification_ref (raise_counts e) = se_verification_ref e"
  "se_removed_original_violation_ids (raise_counts e) = se_removed_original_violation_ids e"
  "se_new_violation_ids (raise_counts e) = se_new_violation_ids e"
  "evidence_digests (raise_counts e) = evidence_digests e"
  by (simp_all add: raise_counts_def evidence_digests_def)

lemma raised_count_idem: "raised_count ids (raised_count ids k) = raised_count ids k"
  by (simp add: raised_count_def)

lemma raise_counts_idem: "raise_counts (raise_counts e) = raise_counts e"
  by (simp add: raise_counts_def raised_count_idem)

lemma raise_counts_covers:
  "se_removed_original_violation_ids e \<noteq> [] \<Longrightarrow>
   \<exists>n. se_removed_original_count (raise_counts e) = Some n \<and>
       int (card (set (se_removed_original_violation_ids e))) \<le> n"
  "se_new_violation_ids e \<noteq> [] \<Longrightarrow>
   \<exists>n. se_new_violation_count (raise_counts e) = Some n \<and>
       int (card (set (se_new_violation_ids e))) \<le> n"
  by (simp_all add: raise_counts_def raised_count_def)

lemma validate_tool_evidence_raised: "validate_tool_evidence (raise_counts e) = validate_tool_evidence e"
  by (simp only: validate_tool_evidence_def raise_counts_idem)

lemma validate_tool_evidence_result: "validate_tool_evidence e = Inr e' \<Longrightarrow> e' = raise_counts e"
  unfolding validate_tool_evidence_def Let_def
  by (simp only: split: if_splits) (simp_all only: sum.inject sum.distinct)

lemma validate_tool_evidence_Inr:
  "validate_tool_evidence e = Inr e' \<Longrightarrow> e' = raise_counts e \<and> validate_tool_evidence e' = Inr e'"
  using validate_tool_evidence_result validate_tool_evidence_raised by metis

lemma validate_tool_evidence_clean:
  assumes "validate_tool_evidence e = Inr e'" "se_status e' = SandboxCleanProgress"
  shows "\<not> clean_evidence_incomplete e'"
    and "protocol_p32 (se_execution_protocol_version e') \<Longrightarrow> \<not> p32_evidence_incomplete e'"
  using assms unfolding validate_tool_evidence_def Let_def by (auto split: if_splits)

lemma validate_sandbox_evidence_clean:
  assumes "validate_sandbox_evidence e = Inr e'" "se_status e' = SandboxCleanProgress"
  shows "se_verification_ref e' \<noteq> None \<and> opt_truthy (se_base_snapshot_id e') \<and>
     (\<exists>n. se_removed_original_count e' = Some n \<and> 0 < n) \<and>
     se_new_violation_count e' = Some 0 \<and> se_new_violation_ids e' = [] \<and>
     se_connectivity_preserved e' = Some True"
proof -
  from assms(1) obtain f where f: "validate_tool_evidence f = Inr e'"
    by (auto simp: validate_sandbox_evidence_def bind_result_Inr_iff)
  have e': "e' = raise_counts f" using validate_tool_evidence_Inr [OF f] by simp
  have c: "\<not> clean_evidence_incomplete e'"
    using f assms(2) by (rule validate_tool_evidence_clean)
  have "se_new_violation_ids f = []"
  proof (rule ccontr)
    assume ne: "se_new_violation_ids f \<noteq> []"
    then have "0 < card (set (se_new_violation_ids f))" by (simp add: card_gt_0_iff)
    moreover have "se_new_violation_count e' = Some 0"
      using c by (simp add: clean_evidence_incomplete_def)
    ultimately show False using raise_counts_covers(2) [OF ne] e' by auto
  qed
  with c e' show ?thesis
    by (auto simp: clean_evidence_incomplete_def frame_simps not_le split: option.splits)
qed

lemma validate_verification_success:
  assumes "validate_verification_result r = Inr r'"
    and "protocol_p32 (vr_execution_protocol_version r)" "vr_outcome r = OutcomeSuccess"
  shows "r' = r \<and> vr_fresh_evidence_valid r \<and> verification_complete r"
  using assms unfolding validate_verification_result_def by (auto split: if_splits)

lemma validate_benefit_bound:
  assumes "validate_benefit_evidence b = Inr b'"
  shows "b' = b \<and> 0 \<le> be_proven_drc_benefit_lb b \<and>
    be_proven_drc_benefit_lb b \<le> int (card (set (be_proven_removed_violation_ids b))) \<and>
    (be_proof_status b = ProofNone \<longrightarrow> be_proven_drc_benefit_lb b = 0)"
  using assms unfolding validate_benefit_evidence_def Let_def
  by (auto simp: length_remdups_card_conv split: if_splits)

section \<open>Properties of the evidence records\<close>

text \<open>The class's defaults: a record as the constructor makes it from the required fields.\<close>

definition default_sandbox_evidence :: sandbox_evidence where
  "default_sandbox_evidence = \<lparr>se_status = SandboxNotRun, se_scope = ScopeNone, se_base_snapshot_id = None,
     se_removed_original_violation_ids = [], se_removed_original_marker_fingerprints = [],
     se_target_violation_removed_ids = [], se_new_violation_ids = [], se_new_marker_fingerprints = [],
     se_removed_original_count = Some 0, se_new_violation_count = Some 0, se_connectivity_preserved = None,
     se_verification_ref = None, se_new_violation_records = [], se_attempted_script_sha256 = None,
     se_attempted_gds_sha256 = None, se_attempted_drc_sha256 = None, se_candidate_ids = [],
     se_base_script_sha256 = None, se_physical_effect_fingerprint = None, se_patch_plan_sha256 = None,
     se_rule_deck_sha256 = None, se_evaluator_sha256 = None, se_connectivity_reference_sha256 = None,
     se_failure_code = None, se_failure_message = None, se_execution_protocol_version = ''legacy-v1'',
     se_attempt_id = None, se_logical_evidence_key = None, se_terminal_status = None,
     se_drc_validity = EvidenceNotEvaluated, se_sanity_validity = EvidenceNotEvaluated,
     se_connectivity_validity = EvidenceNotEvaluated, se_fresh_evidence_valid = False\<rparr>"

definition new_verification_result ::
    "string \<Rightarrow> string \<Rightarrow> verification_outcome \<Rightarrow> bool option \<Rightarrow> bool option \<Rightarrow> bool option \<Rightarrow> int \<Rightarrow>
     int option \<Rightarrow> int option \<Rightarrow> int option \<Rightarrow> verification_result" where
  "new_verification_result vid tid outcome script gds conn baseline residual new removed =
     \<lparr>vr_verification_id = vid, vr_transaction_id = tid, vr_outcome = outcome, vr_script_valid = script,
      vr_gds_sanity_pass = gds, vr_connectivity_preserved = conn, vr_timing_gate_pass = None,
      vr_baseline_residual_count = baseline, vr_residual_violation_count = residual,
      vr_new_violation_count = new, vr_removed_original_count = removed,
      vr_removed_original_violation_ids = [], vr_removed_original_marker_fingerprints = [],
      vr_new_violation_ids = [], vr_new_marker_fingerprints = [], vr_evidence_refs = [],
      vr_failure_codes = [], vr_execution_protocol_version = ''legacy-v1'', vr_attempt_id = None,
      vr_terminal_status = None, vr_script_validity = EvidenceNotEvaluated,
      vr_layout_validity = EvidenceNotEvaluated, vr_drc_validity = EvidenceNotEvaluated,
      vr_sanity_validity = EvidenceNotEvaluated, vr_connectivity_validity = EvidenceNotEvaluated,
      vr_fresh_evidence_valid = False, vr_failure_domain = None, vr_failure_stage = None\<rparr>"

text \<open>
  A sandbox result that passed its validator and claims \<open>CLEAN_PROGRESS\<close> carries the evidence for
  it: a verification reference bound to a base snapshot, at least one removed violation, no new
  violation by count and by identity, and preserved connectivity.
\<close>

theorem clean_progress_evidence:
  assumes "validate_sandbox_evidence e = Inr e'" "se_status e' = SandboxCleanProgress"
  shows "se_verification_ref e' \<noteq> None \<and> opt_truthy (se_base_snapshot_id e') \<and>
     (\<exists>n. se_removed_original_count e' = Some n \<and> 0 < n) \<and>
     se_new_violation_count e' = Some 0 \<and> se_new_violation_ids e' = [] \<and>
     se_connectivity_preserved e' = Some True"
  using assms by (rule validate_sandbox_evidence_clean)

definition clean_example :: sandbox_evidence where
  "clean_example = default_sandbox_evidence\<lparr>se_status := SandboxCleanProgress,
     se_base_snapshot_id := Some ''s0'', se_removed_original_count := Some 2, se_new_violation_count := Some 0,
     se_connectivity_preserved := Some True,
     se_verification_ref := Some \<lparr>ar_artifact_id = ''a'', ar_path = ''v.json'', ar_sha256 = ''0'',
       ar_media_type = ''application/json'', ar_schema_name = None, ar_schema_version = None,
       ar_producer = ''sandbox'', ar_size_bytes = 1, ar_created_at = ''t''\<rparr>,
     se_attempted_script_sha256 := Some (replicate 64 CHR ''0''),
     se_attempted_gds_sha256 := Some (replicate 64 CHR ''1''),
     se_attempted_drc_sha256 := Some (replicate 64 CHR ''2'')\<rparr>"

lemma clean_progress_evidence_witness:
  "\<exists>e'. validate_sandbox_evidence clean_example = Inr e' \<and> se_new_violation_ids e' = [] \<and>
     se_connectivity_preserved e' = Some True"
proof -
  have lower: "lower (replicate n c) = replicate n (lower_char c)" for n c by (simp add: lower_def)
  have v: "validate_sandbox_evidence clean_example = Inr clean_example"
    by (simp add: validate_sandbox_evidence_def validate_evidence_fields_def validate_tool_evidence_def
        evidence_digests_def normalise_digests_def validate_optional_sha256_def clean_example_def
        default_sandbox_evidence_def nonneg_opt_def raise_counts_def raised_count_def exceeds_def
        clean_evidence_incomplete_def opt_truthy_def protocol_p32_def starts_with_def lower is_lower_hex_def
        lower_char_def Let_def)
  show ?thesis using clean_progress_evidence [OF v] v by (simp add: clean_example_def)
qed

text \<open>
  A P3.2 verification result that passed its validator and reports \<open>SUCCESS\<close> has complete fresh
  evidence: script, layout, DRC, sanity and connectivity were each evaluated and valid.
\<close>

theorem verification_success_complete:
  assumes "validate_verification_result r = Inr r'"
    "protocol_p32 (vr_execution_protocol_version r)" "vr_outcome r = OutcomeSuccess"
  shows "r' = r \<and> vr_fresh_evidence_valid r \<and> vr_drc_validity r = EvidenceValid \<and>
    vr_connectivity_validity r = EvidenceValid \<and> vr_script_validity r = EvidenceValid \<and>
    vr_layout_validity r = EvidenceValid \<and> vr_sanity_validity r = EvidenceValid"
  using validate_verification_success [OF assms] by (simp add: verification_complete_def)

definition p32_success_example :: verification_result where
  "p32_success_example = (new_verification_result ''v'' ''t'' OutcomeSuccess (Some True) (Some True)
      (Some True) 5 (Some 3) (Some 0) (Some 2))
     \<lparr>vr_execution_protocol_version := ''p3.2-v1'', vr_script_validity := EvidenceValid,
      vr_layout_validity := EvidenceValid, vr_drc_validity := EvidenceValid,
      vr_sanity_validity := EvidenceValid, vr_connectivity_validity := EvidenceValid,
      vr_fresh_evidence_valid := True\<rparr>"

lemma verification_success_complete_witness:
  "vr_drc_validity p32_success_example = EvidenceValid \<and> vr_fresh_evidence_valid p32_success_example"
proof -
  have "validate_verification_result p32_success_example = Inr p32_success_example"
    "protocol_p32 (vr_execution_protocol_version p32_success_example)"
    "vr_outcome p32_success_example = OutcomeSuccess"
    by (simp_all add: p32_success_example_def new_verification_result_def validate_verification_result_def
        exceeds_def protocol_p32_def starts_with_def verification_complete_def)
  from verification_success_complete [OF this] show ?thesis by blast
qed

end
