(* ===== verification/Config.thy ===== *)
theory Config
  imports Json
begin

text \<open>
  Configuration: the pydantic classes of \<open>config/loader.py\<close> with their defaults and validators,
  the merging of configuration layers (\<open>_deep_merge\<close>, \<open>load_config\<close> after parsing), and the
  method presets of \<open>config/methods.py\<close> with the checks that a run's identity fields agree with
  its method. A \<open>Path\<close> is its text. The parsing of YAML and the conversion of a raw dictionary to
  records (done by pydantic) are not modelled.
\<close>

subsection \<open>Records and defaults (config/loader.py)\<close>

datatype integration_mode =
    ModeDisabled
  | ModeFormalV1
  | ModeTestFakeLlm
  | ModeDevelopmentIntegration

datatype llm_provider = ProviderOpenrouter | ProviderSiliconflow | ProviderFake

datatype storage_role = RoleHostRoot | RoleDaemonRoot | RoleStage | RoleResults

datatype retention_mode = RetentionFull | RetentionCompact

datatype workspace_mode = WorkspaceBind | WorkspaceCopy

record features_config =
  ft_experience_graph :: "bool"
  ft_dynamic_graph :: "bool"
  ft_graph_rewire :: "bool"
  ft_joint_planning :: "bool"
  ft_message_passing :: "bool"
  ft_geometry_edges :: "bool"
  ft_shared_net_edges :: "bool"
  ft_resource_edges :: "bool"
  ft_timing_edges :: "bool"
  ft_timing_verification :: "bool"

definition default_features_config :: features_config where
  "default_features_config = \<lparr>
     ft_experience_graph = True,
     ft_dynamic_graph = True,
     ft_graph_rewire = True,
     ft_joint_planning = True,
     ft_message_passing = True,
     ft_geometry_edges = True,
     ft_shared_net_edges = True,
     ft_resource_edges = True,
     ft_timing_edges = False,
     ft_timing_verification = False\<rparr>"

record workflow_config =
  wf_max_iterations :: "int"
  wf_max_windows_per_iteration :: "int"
  wf_max_no_progress_iterations :: "int"
  wf_max_parallel_subgraphs :: "int"
  wf_transaction_mode :: "string"
  wf_checkpoint_backend :: "string"
  wf_fail_closed :: "bool"
  wf_whole_run_budget_seconds :: "real option"
  wf_max_eda_evaluations_per_run :: "int option"
  wf_engineering_canary :: "bool"
  wf_engineering_target_violation_ids :: "string list"

definition default_workflow_config :: workflow_config where
  "default_workflow_config = \<lparr>
     wf_max_iterations = 5,
     wf_max_windows_per_iteration = 32,
     wf_max_no_progress_iterations = 2,
     wf_max_parallel_subgraphs = 4,
     wf_transaction_mode = ''serialized'',
     wf_checkpoint_backend = ''sqlite'',
     wf_fail_closed = True,
     wf_whole_run_budget_seconds = None,
     wf_max_eda_evaluations_per_run = None,
     wf_engineering_canary = False,
     wf_engineering_target_violation_ids = []\<rparr>"

record region_config =
  rgc_seed_window_um :: "real"
  rgc_dbu_per_um :: "int"
  rgc_adaptive_halo :: "bool"
  rgc_halo_min_dbu :: "int"
  rgc_halo_max_dbu :: "int"
  rgc_affinity_max_gap_dbu :: "int"
  rgc_max_region_markers :: "int"
  rgc_max_region_objects :: "int"
  rgc_max_region_span_um :: "real"
  rgc_max_context_tokens :: "int"

definition default_region_config :: region_config where
  "default_region_config = \<lparr>
     rgc_seed_window_um = 2.0,
     rgc_dbu_per_um = 4000,
     rgc_adaptive_halo = True,
     rgc_halo_min_dbu = 72,
     rgc_halo_max_dbu = 4000,
     rgc_affinity_max_gap_dbu = 400,
     rgc_max_region_markers = 12,
     rgc_max_region_objects = 128,
     rgc_max_region_span_um = 4.0,
     rgc_max_context_tokens = 6000\<rparr>"

record agent_graph_config =
  agc_max_soft_neighbors_per_relation :: "int"
  agc_soft_edge_threshold :: "real"
  agc_strong_edge_threshold :: "real"
  agc_proximity_only_score_cap :: "real"
  agc_max_active_subgraph_regions :: "int"
  agc_max_llm_view_regions :: "int"
  agc_preserve_maximum_spanning_forest :: "bool"

definition default_agent_graph_config :: agent_graph_config where
  "default_agent_graph_config = \<lparr>
     agc_max_soft_neighbors_per_relation = 4,
     agc_soft_edge_threshold = 0.35,
     agc_strong_edge_threshold = 0.65,
     agc_proximity_only_score_cap = 0.34,
     agc_max_active_subgraph_regions = 12,
     agc_max_llm_view_regions = 12,
     agc_preserve_maximum_spanning_forest = True\<rparr>"

record agent_config =
  agt_top_k_candidates_including_noop :: "int"
  agt_max_geometry_variants_per_hypothesis :: "int"
  agt_message_rounds :: "int"
  agt_max_message_rounds :: "int"
  agt_max_candidate_distance_dbu :: "int"
  agt_allowed_distances_dbu :: "int list"

definition default_agent_config :: agent_config where
  "default_agent_config = \<lparr>
     agt_top_k_candidates_including_noop = 4,
     agt_max_geometry_variants_per_hypothesis = 3,
     agt_message_rounds = 2,
     agt_max_message_rounds = 3,
     agt_max_candidate_distance_dbu = 512,
     agt_allowed_distances_dbu = [8, 16, 24, 32, 48, 64]\<rparr>"

record integration_config =
  rki_enabled :: "bool"
  rki_mode :: "integration_mode"
  rki_require_gate :: "bool"
  rki_gate_contract :: "string"
  rki_legacy_fallback_for_supported :: "bool"
  rki_legacy_fallback_for_unsupported :: "bool"
  rki_max_plans_per_region :: "int"
  rki_max_trajectory_depth :: "int"
  rki_max_kernel_live_calls_per_region :: "int"
  rki_reuse_verified_kernel_evidence :: "bool"
  rki_require_trajectory_condensation :: "bool"
  rki_supported_families :: "string list"
  rki_supported_rule_ids :: "string list"

definition default_integration_config :: integration_config where
  "default_integration_config = \<lparr>
     rki_enabled = False,
     rki_mode = ModeDisabled,
     rki_require_gate = False,
     rki_gate_contract = ''contracts/formal_integration_gate.json'',
     rki_legacy_fallback_for_supported = False,
     rki_legacy_fallback_for_unsupported = False,
     rki_max_plans_per_region = 3,
     rki_max_trajectory_depth = 4,
     rki_max_kernel_live_calls_per_region = 32,
     rki_reuse_verified_kernel_evidence = True,
     rki_require_trajectory_condensation = True,
     rki_supported_families = [''SPACING'', ''ENCLOSURE'', ''VIA_METAL_CONTEXTUAL''],
     rki_supported_rule_ids = []\<rparr>"

record repair_programming_config =
  rpc_sound_simple_fast_path :: "bool"
  rpc_enabled :: "bool"
  rpc_max_revisions :: "int"
  rpc_max_regions_per_subgraph :: "int"
  rpc_max_calls_per_subgraph :: "int"
  rpc_require_rule_witness :: "bool"
  rpc_escalate_contextual :: "bool"
  rpc_escalate_unsupported :: "bool"
  rpc_escalate_after_no_progress :: "bool"

definition default_repair_programming_config :: repair_programming_config where
  "default_repair_programming_config = \<lparr>
     rpc_sound_simple_fast_path = True,
     rpc_enabled = True,
     rpc_max_revisions = 2,
     rpc_max_regions_per_subgraph = 2,
     rpc_max_calls_per_subgraph = 6,
     rpc_require_rule_witness = True,
     rpc_escalate_contextual = True,
     rpc_escalate_unsupported = True,
     rpc_escalate_after_no_progress = True\<rparr>"

record candidate_evidence_config =
  cec_sandbox_enabled :: "bool"
  cec_sandbox_top_m_per_view :: "int"
  cec_sandbox_max_jobs_per_iteration :: "int"
  cec_sandbox_connectivity_for_risky_actions :: "bool"
  cec_joint_sandbox_enabled :: "bool"
  cec_joint_sandbox_max_bundle_size :: "int"
  cec_joint_sandbox_max_rounds :: "int"
  cec_cache_key_version :: "string"

definition default_candidate_evidence_config :: candidate_evidence_config where
  "default_candidate_evidence_config = \<lparr>
     cec_sandbox_enabled = True,
     cec_sandbox_top_m_per_view = 8,
     cec_sandbox_max_jobs_per_iteration = 32,
     cec_sandbox_connectivity_for_risky_actions = True,
     cec_joint_sandbox_enabled = True,
     cec_joint_sandbox_max_bundle_size = 5,
     cec_joint_sandbox_max_rounds = 5,
     cec_cache_key_version = ''sandbox-v2''\<rparr>"

record candidate_graph_config =
  cgc_pairwise_preview_version :: "string"
  cgc_interaction_margin_dbu :: "int"
  cgc_fail_on_incomplete_audit :: "bool"

definition default_candidate_graph_config :: candidate_graph_config where
  "default_candidate_graph_config = \<lparr>
     cgc_pairwise_preview_version = ''gc-preview-v2'',
     cgc_interaction_margin_dbu = 72,
     cgc_fail_on_incomplete_audit = True\<rparr>"

record transaction_config =
  txc_max_non_noop_actions_per_batch :: "int"
  txc_max_modified_objects_per_batch :: "int"
  txc_replan_after_each_commit :: "bool"

definition default_transaction_config :: transaction_config where
  "default_transaction_config = \<lparr>
     txc_max_non_noop_actions_per_batch = 5,
     txc_max_modified_objects_per_batch = 16,
     txc_replan_after_each_commit = True\<rparr>"

record attribution_config =
  atc_enabled :: "bool"
  atc_delta_debug_enabled :: "bool"
  atc_max_replays_per_failure :: "int"

definition default_attribution_config :: attribution_config where
  "default_attribution_config = \<lparr>
     atc_enabled = True,
     atc_delta_debug_enabled = False,
     atc_max_replays_per_failure = 4\<rparr>"

record coordinator_config =
  cdc_solver :: "string"
  cdc_time_limit_seconds :: "real"
  cdc_oversized_time_limit_seconds :: "real"
  cdc_num_search_workers :: "int"
  cdc_random_seed :: "int"
  cdc_log_search_progress :: "bool"
  cdc_allow_unverified_exploration :: "bool"
  cdc_max_unverified_non_noop_per_subgraph :: "int"

definition default_coordinator_config :: coordinator_config where
  "default_coordinator_config = \<lparr>
     cdc_solver = ''cp_sat'',
     cdc_time_limit_seconds = 5.0,
     cdc_oversized_time_limit_seconds = 30.0,
     cdc_num_search_workers = 1,
     cdc_random_seed = 0,
     cdc_log_search_progress = False,
     cdc_allow_unverified_exploration = True,
     cdc_max_unverified_non_noop_per_subgraph = 1\<rparr>"

record acceptance_config =
  acc_require_connectivity :: "bool"
  acc_require_drc_progress :: "bool"
  acc_reject_new_violations :: "bool"
  acc_keep_best_verified :: "bool"

definition default_acceptance_config :: acceptance_config where
  "default_acceptance_config = \<lparr>
     acc_require_connectivity = True,
     acc_require_drc_progress = True,
     acc_reject_new_violations = True,
     acc_keep_best_verified = True\<rparr>"

record retrieval_config =
  rtc_seed_k :: "int"
  rtc_rrf_k0 :: "int"
  rtc_min_verified_success :: "int"
  rtc_min_contrastive_failure :: "int"
  rtc_min_alternative_action :: "int"
  rtc_min_joint_episode_if_available :: "int"
  rtc_expansion_hops :: "int"
  rtc_max_episodes :: "int"
  rtc_max_evidence_nodes :: "int"
  rtc_max_context_tokens :: "int"
  rtc_embedding_enabled :: "bool"

definition default_retrieval_config :: retrieval_config where
  "default_retrieval_config = \<lparr>
     rtc_seed_k = 8,
     rtc_rrf_k0 = 60,
     rtc_min_verified_success = 2,
     rtc_min_contrastive_failure = 2,
     rtc_min_alternative_action = 1,
     rtc_min_joint_episode_if_available = 1,
     rtc_expansion_hops = 1,
     rtc_max_episodes = 24,
     rtc_max_evidence_nodes = 60,
     rtc_max_context_tokens = 8000,
     rtc_embedding_enabled = False\<rparr>"

record llm_config =
  llm_enabled :: "bool"
  llm_provider :: "llm_provider"
  llm_model :: "string"
  llm_base_url :: "string option"
  llm_api_key_env :: "string option"
  llm_temperature :: "real"
  llm_top_p :: "real"
  llm_timeout_seconds :: "real"
  llm_queue_timeout_seconds :: "real"
  llm_request_timeout_seconds :: "real"
  llm_max_retries :: "int"
  llm_retry_backoff_base_seconds :: "real"
  llm_retry_backoff_max_seconds :: "real"
  llm_retry_jitter_fraction :: "real"
  llm_circuit_breaker_threshold :: "int"
  llm_circuit_breaker_cooldown_seconds :: "real"
  llm_max_concurrent_requests :: "int"
  llm_max_http_attempts_per_run :: "int option"
  llm_seed :: "int option"
  llm_effort :: "string option"
  llm_enable_thinking :: "bool option"
  llm_thinking_budget :: "int option"
  llm_allow_fallback :: "bool"
  llm_max_output_tokens :: "int"
  llm_prompt_version :: "string"
  llm_skill_version :: "string"
  llm_evodrc_skill_enabled :: "bool"
  llm_evodrc_skill_root :: "string"

definition default_llm_config :: llm_config where
  "default_llm_config = \<lparr>
     llm_enabled = False,
     llm_provider = ProviderOpenrouter,
     llm_model = '''',
     llm_base_url = None,
     llm_api_key_env = None,
     llm_temperature = 0.2,
     llm_top_p = 1.0,
     llm_timeout_seconds = 120.0,
     llm_queue_timeout_seconds = 600.0,
     llm_request_timeout_seconds = 120.0,
     llm_max_retries = 2,
     llm_retry_backoff_base_seconds = 1.0,
     llm_retry_backoff_max_seconds = 8.0,
     llm_retry_jitter_fraction = 0.2,
     llm_circuit_breaker_threshold = 3,
     llm_circuit_breaker_cooldown_seconds = 60.0,
     llm_max_concurrent_requests = 4,
     llm_max_http_attempts_per_run = None,
     llm_seed = None,
     llm_effort = None,
     llm_enable_thinking = None,
     llm_thinking_budget = None,
     llm_allow_fallback = False,
     llm_max_output_tokens = 3000,
     llm_prompt_version = ''region-agent-v1'',
     llm_skill_version = ''drc-layout-ir-v1'',
     llm_evodrc_skill_enabled = True,
     llm_evodrc_skill_root = ''benchmarks/EvoDRC/agent/knowledge/cla''\<rparr>"

record backend_config =
  bk_type :: "string"
  bk_image :: "string"
  bk_stage_root :: "string"
  bk_layout_timeout_seconds :: "int"
  bk_drc_timeout_seconds :: "int"
  bk_connectivity_timeout_seconds :: "int"
  bk_keep_failed_workspace :: "bool"
  bk_artifact_retention_mode :: "retention_mode"
  bk_container_workspace_mode :: "workspace_mode"
  bk_manufacturing_grid_dbu :: "int"
  bk_max_concurrent_eda_jobs :: "int"

definition default_backend_config :: backend_config where
  "default_backend_config = \<lparr>
     bk_type = ''klayout_dac26'',
     bk_image = ''drc-benchmark-repair:latest'',
     bk_stage_root = ''/tmp/2510878-drc-agent'',
     bk_layout_timeout_seconds = 300,
     bk_drc_timeout_seconds = 900,
     bk_connectivity_timeout_seconds = 300,
     bk_keep_failed_workspace = True,
     bk_artifact_retention_mode = RetentionFull,
     bk_container_workspace_mode = WorkspaceBind,
     bk_manufacturing_grid_dbu = 4,
     bk_max_concurrent_eda_jobs = 2\<rparr>"

record storage_path_config =
  spc_role :: "storage_role"
  spc_path :: "string"
  spc_required :: "bool"

record storage_health_config =
  shc_targets :: "storage_path_config list"
  shc_pause_free_bytes :: "int"
  shc_resume_free_bytes :: "int"
  shc_worst_concurrent_batch_bytes :: "int"
  shc_pause_free_inode_fraction :: "real"
  shc_resume_free_inode_fraction :: "real"
  shc_sample_interval_seconds :: "int"

record resource_control_config =
  rcc_protocol_version :: "string"
  rcc_enabled :: "bool"
  rcc_coordination_root :: "string"
  rcc_global_http_limit :: "int"
  rcc_global_eda_limit :: "int"
  rcc_queue_timeout_seconds :: "real"
  rcc_poll_interval_seconds :: "real"
  rcc_storage :: "storage_health_config"

record app_config =
  app_schema_version :: "string"
  app_project_root :: "string"
  app_features :: "features_config"
  app_workflow :: "workflow_config"
  app_region :: "region_config"
  app_agent_graph :: "agent_graph_config"
  app_agent :: "agent_config"
  app_coordinator :: "coordinator_config"
  app_acceptance :: "acceptance_config"
  app_retrieval :: "retrieval_config"
  app_llm :: "llm_config"
  app_backend :: "backend_config"
  app_repair_programming :: "repair_programming_config"
  app_candidate_evidence :: "candidate_evidence_config"
  app_candidate_graph :: "candidate_graph_config"
  app_transaction :: "transaction_config"
  app_attribution :: "attribution_config"
  app_repair_kernel_integration :: "integration_config"
  app_resource_control :: "resource_control_config option"

subsection \<open>Validators\<close>

text \<open>
  The constraints of the \<open>Field\<close> declarations (\<open>ge\<close>, \<open>gt\<close>, \<open>le\<close>, \<open>lt\<close>) of each class, and then
  its model validator.
\<close>

definition out_of_range :: "'a result" where
  "out_of_range = Inl (ValueError ''value is out of range'')"

definition opt_all :: "('a \<Rightarrow> bool) \<Rightarrow> 'a option \<Rightarrow> bool" where
  "opt_all P v = (case v of None \<Rightarrow> True | Some x \<Rightarrow> P x)"

definition validate_workflow_config :: "workflow_config \<Rightarrow> workflow_config result" where
  "validate_workflow_config w =
     (if \<not> (1 \<le> wf_max_iterations w \<and> 1 \<le> wf_max_windows_per_iteration w \<and>
            1 \<le> wf_max_no_progress_iterations w \<and> 1 \<le> wf_max_parallel_subgraphs w \<and>
            opt_all (\<lambda>s. 0 < s) (wf_whole_run_budget_seconds w) \<and>
            opt_all (\<lambda>n. 1 \<le> n) (wf_max_eda_evaluations_per_run w))
      then out_of_range
      else if wf_engineering_target_violation_ids w \<noteq> [] \<and> \<not> wf_engineering_canary w
      then Inl (ValueError ''target scope restriction requires explicit engineering_canary'')
      else if wf_engineering_canary w \<and> wf_max_windows_per_iteration w > 3
      then Inl (ValueError ''engineering canary is limited to three windows per iteration'')
      else if wf_engineering_canary w \<and> wf_max_iterations w \<noteq> 1
      then Inl (ValueError ''engineering canary uses exactly one bounded iteration'')
      else Inr w)"

definition validate_agent_config :: "agent_config \<Rightarrow> agent_config result" where
  "validate_agent_config a =
     (if 1 \<le> agt_top_k_candidates_including_noop a \<and>
         1 \<le> agt_max_geometry_variants_per_hypothesis a \<and>
         agt_max_geometry_variants_per_hypothesis a \<le> 8 \<and> 1 \<le> agt_message_rounds a \<and>
         1 \<le> agt_max_message_rounds a \<and> 1 \<le> agt_max_candidate_distance_dbu a
      then Inr a else out_of_range)"

definition validate_integration_config :: "integration_config \<Rightarrow> integration_config result" where
  "validate_integration_config c =
     (if \<not> (1 \<le> rki_max_plans_per_region c \<and> rki_max_plans_per_region c \<le> 4 \<and>
            1 \<le> rki_max_trajectory_depth c \<and> rki_max_trajectory_depth c \<le> 4 \<and>
            0 \<le> rki_max_kernel_live_calls_per_region c)
      then out_of_range
      else if \<not> rki_enabled c \<and> rki_mode c \<noteq> ModeDisabled
      then Inl (ValueError ''repair kernel mode requires enabled=true'')
      else if rki_enabled c \<and> rki_mode c = ModeDisabled
      then Inl (ValueError ''enabled repair kernel requires a non-disabled mode'')
      else if rki_legacy_fallback_for_supported c
      then Inl (ValueError ''legacy fallback for supported repair families is forbidden'')
      else Inr c)"

definition validate_repair_programming_config ::
    "repair_programming_config \<Rightarrow> repair_programming_config result" where
  "validate_repair_programming_config c =
     (if 0 \<le> rpc_max_revisions c \<and> rpc_max_revisions c \<le> 2 \<and>
         0 \<le> rpc_max_regions_per_subgraph c \<and> 0 \<le> rpc_max_calls_per_subgraph c
      then Inr c else out_of_range)"

definition validate_candidate_evidence_config ::
    "candidate_evidence_config \<Rightarrow> candidate_evidence_config result" where
  "validate_candidate_evidence_config c =
     (if 0 \<le> cec_sandbox_top_m_per_view c \<and> 0 \<le> cec_sandbox_max_jobs_per_iteration c \<and>
         1 \<le> cec_joint_sandbox_max_bundle_size c \<and> 0 \<le> cec_joint_sandbox_max_rounds c
      then Inr c else out_of_range)"

definition validate_transaction_config :: "transaction_config \<Rightarrow> transaction_config result" where
  "validate_transaction_config c =
     (if 1 \<le> txc_max_non_noop_actions_per_batch c \<and> 1 \<le> txc_max_modified_objects_per_batch c
      then Inr c else out_of_range)"

definition is_space :: "char \<Rightarrow> bool" where
  "is_space c \<longleftrightarrow> (let n = of_char c :: nat in
     (9 \<le> n \<and> n \<le> 13) \<or> (28 \<le> n \<and> n \<le> 32) \<or> n = 133 \<or> n = 160)"

definition validate_llm_config :: "llm_config \<Rightarrow> llm_config result" where
  "validate_llm_config c =
     (if \<not> (0 \<le> llm_temperature c \<and> llm_temperature c \<le> 2 \<and>
            0 < llm_top_p c \<and> llm_top_p c \<le> 1 \<and>
            0 < llm_timeout_seconds c \<and> 0 < llm_queue_timeout_seconds c \<and>
            0 < llm_request_timeout_seconds c \<and>
            0 \<le> llm_max_retries c \<and> llm_max_retries c \<le> 8 \<and>
            0 \<le> llm_retry_backoff_base_seconds c \<and> 0 \<le> llm_retry_backoff_max_seconds c \<and>
            0 \<le> llm_retry_jitter_fraction c \<and> llm_retry_jitter_fraction c \<le> 1 \<and>
            1 \<le> llm_circuit_breaker_threshold c \<and> 0 \<le> llm_circuit_breaker_cooldown_seconds c \<and>
            1 \<le> llm_max_concurrent_requests c \<and>
            opt_all (\<lambda>n. 1 \<le> n) (llm_max_http_attempts_per_run c) \<and>
            opt_all (\<lambda>n. 128 \<le> n \<and> n \<le> 32768) (llm_thinking_budget c) \<and>
            128 \<le> llm_max_output_tokens c)
      then out_of_range
      else if \<not> llm_enabled c then Inr c
      else if \<forall>ch \<in> set (llm_model c). is_space ch
      then Inl (ValueError ''llm.model is required when llm.enabled=true'')
      else if llm_provider c \<noteq> ProviderFake \<and>
              (llm_api_key_env c = None \<or> llm_api_key_env c = Some [])
      then Inl (ValueError ''llm.api_key_env is required for a real provider'')
      else if llm_allow_fallback c
      then Inl (ValueError ''paid research runs must be fail-closed; llm.allow_fallback must be false'')
      else Inr c)"

definition validate_storage_watermarks :: "storage_health_config \<Rightarrow> storage_health_config result" where
  "validate_storage_watermarks c =
     (if \<not> (0 \<le> shc_pause_free_bytes c \<and> 0 < shc_resume_free_bytes c \<and>
            0 \<le> shc_worst_concurrent_batch_bytes c \<and>
            0 \<le> shc_pause_free_inode_fraction c \<and> shc_pause_free_inode_fraction c < 1 \<and>
            0 < shc_resume_free_inode_fraction c \<and> shc_resume_free_inode_fraction c \<le> 1 \<and>
            30 \<le> shc_sample_interval_seconds c \<and> shc_sample_interval_seconds c \<le> 60)
      then out_of_range
      else let roles = map spc_role (shc_targets c);
               required = {RoleHostRoot, RoleDaemonRoot, RoleStage, RoleResults};
               effective_pause = max (shc_pause_free_bytes c) (2 * shc_worst_concurrent_batch_bytes c)
      in if set roles \<noteq> required \<or> length roles \<noteq> card required
      then Inl (ValueError ''storage targets require exactly one host_root, daemon_root, stage, and results path'')
      else if shc_resume_free_bytes c \<le> effective_pause
      then Inl (ValueError ''storage resume bytes must exceed the effective pause bytes'')
      else if shc_resume_free_inode_fraction c \<le> shc_pause_free_inode_fraction c
      then Inl (ValueError ''storage resume inode fraction must exceed pause fraction'')
      else Inr c)"

definition validate_resource_control :: "app_config \<Rightarrow> app_config result" where
  "validate_resource_control a =
     (case app_resource_control a of
        None \<Rightarrow> Inr a
      | Some rc \<Rightarrow>
          if \<not> rcc_enabled rc then Inr a
          else if llm_max_concurrent_requests (app_llm a) > 4
          then Inl (ValueError ''P5 run-local HTTP concurrency cannot exceed 4'')
          else if bk_max_concurrent_eda_jobs (app_backend a) > 2
          then Inl (ValueError ''P5 run-local EDA concurrency cannot exceed 2'')
          else Inr a)"

text \<open>
  \<open>ResourceControlConfig.environment\<close>: \<open>resolve\<close> is \<open>Path.resolve\<close>, \<open>fr\<close> the text of a float.
\<close>

definition role_name :: "storage_role \<Rightarrow> string" where
  "role_name r =
     (case r of RoleHostRoot \<Rightarrow> ''host_root'' | RoleDaemonRoot \<Rightarrow> ''daemon_root''
      | RoleStage \<Rightarrow> ''stage'' | RoleResults \<Rightarrow> ''results'')"

definition resource_environment ::
    "(string \<Rightarrow> string) \<Rightarrow> (real \<Rightarrow> string) \<Rightarrow> resource_control_config \<Rightarrow> (string \<times> string) list" where
  "resource_environment resolve fr c =
     (if \<not> rcc_enabled c then []
      else let st = rcc_storage c;
               targets = map (\<lambda>t. JObj [(''role'', JStr (role_name (spc_role t))),
                                        (''path'', JStr (resolve (spc_path t))),
                                        (''required'', JBool (spc_required t))]) (shc_targets st)
      in [(''DRC_GLOBAL_RESOURCE_ROOT'', resolve (rcc_coordination_root c)),
          (''DRC_GLOBAL_HTTP_LIMIT'', show_int (rcc_global_http_limit c)),
          (''DRC_GLOBAL_EDA_LIMIT'', show_int (rcc_global_eda_limit c)),
          (''DRC_GLOBAL_RESOURCE_QUEUE_TIMEOUT_SECONDS'', fr (rcc_queue_timeout_seconds c)),
          (''DRC_GLOBAL_RESOURCE_POLL_INTERVAL_SECONDS'', fr (rcc_poll_interval_seconds c)),
          (''DRC_STORAGE_HEALTH_ROOT'', resolve (rcc_coordination_root c)),
          (''DRC_STORAGE_HEALTH_PATHS_JSON'', canonical_json fr (JList targets)),
          (''DRC_STORAGE_PAUSE_FREE_BYTES'', show_int (shc_pause_free_bytes st)),
          (''DRC_STORAGE_RESUME_FREE_BYTES'', show_int (shc_resume_free_bytes st)),
          (''DRC_STORAGE_WORST_BATCH_BYTES'', show_int (shc_worst_concurrent_batch_bytes st)),
          (''DRC_STORAGE_PAUSE_FREE_INODE_FRACTION'', fr (shc_pause_free_inode_fraction st)),
          (''DRC_STORAGE_RESUME_FREE_INODE_FRACTION'', fr (shc_resume_free_inode_fraction st))])"

text \<open>Storage that passes the validator cannot oscillate: resuming needs more room than pausing.\<close>

lemma storage_watermarks_hysteresis:
  assumes "validate_storage_watermarks c = Inr c'"
  shows "c' = c \<and> shc_pause_free_bytes c < shc_resume_free_bytes c \<and>
    2 * shc_worst_concurrent_batch_bytes c < shc_resume_free_bytes c \<and>
    shc_pause_free_inode_fraction c < shc_resume_free_inode_fraction c \<and>
    distinct (map spc_role (shc_targets c))"
proof -
  note v = assms [unfolded validate_storage_watermarks_def Let_def out_of_range_def]
  have "set (map spc_role (shc_targets c)) = {RoleHostRoot, RoleDaemonRoot, RoleStage, RoleResults}"
    and "length (map spc_role (shc_targets c)) = card {RoleHostRoot, RoleDaemonRoot, RoleStage, RoleResults}"
    using v by (auto split: if_splits)
  then have "distinct (map spc_role (shc_targets c))" by (intro card_distinct) simp
  with v show ?thesis by (auto split: if_splits)
qed

subsection \<open>Merging configuration layers\<close>

function deep_merge :: "(string \<times> json) list \<Rightarrow> (string \<times> json) list \<Rightarrow> (string \<times> json) list" where
  "deep_merge base [] = base"
| "deep_merge base ((k, v) # overlay) =
     (case v of
        JObj inn \<Rightarrow>
          (case map_of base k of
             Some (JObj b) \<Rightarrow> deep_merge (dict_set k (JObj (deep_merge b inn)) base) overlay
           | _ \<Rightarrow> deep_merge (dict_set k v base) overlay)
      | _ \<Rightarrow> deep_merge (dict_set k v base) overlay)"
  by pat_completeness auto
termination
  by (relation "measure (\<lambda>(b, ov). size (JObj ov))") auto

text \<open>\<open>load_config\<close> after reading: \<open>raw\<close> and each overlay are parsed files, \<open>None\<close> an empty one.\<close>

definition or_empty :: "(string \<times> json) list option \<Rightarrow> (string \<times> json) list" where
  "or_empty d = (case d of None \<Rightarrow> [] | Some kvs \<Rightarrow> kvs)"

definition merge_layers ::
    "(string \<times> json) list option \<Rightarrow> (string \<times> json) list option list \<Rightarrow>
     (string \<times> json) list option \<Rightarrow> (string \<times> json) list" where
  "merge_layers raw overlays overrides =
     (let merged = foldl (\<lambda>acc ov. deep_merge acc (or_empty ov)) (or_empty raw) overlays
      in if or_empty overrides \<noteq> [] then deep_merge merged (or_empty overrides) else merged)"

text \<open>Dictionaries have one entry per key, at every level.\<close>

fun json_wf :: "json \<Rightarrow> bool" where
  "json_wf (JList xs) = (\<forall>x \<in> set xs. json_wf x)"
| "json_wf (JObj kvs) = (distinct (map fst kvs) \<and> (\<forall>kv \<in> set kvs. json_wf (snd kv)))"
| "json_wf _ = True"

fun get_path :: "json \<Rightarrow> string list \<Rightarrow> json option" where
  "get_path v [] = Some v"
| "get_path (JObj kvs) (k # p) = (case map_of kvs k of None \<Rightarrow> None | Some v \<Rightarrow> get_path v p)"
| "get_path _ (k # p) = None"

definition merged_value :: "json option \<Rightarrow> json \<Rightarrow> json" where
  "merged_value old v =
     (case (v, old) of (JObj inn, Some (JObj b)) \<Rightarrow> JObj (deep_merge b inn) | _ \<Rightarrow> v)"

lemma deep_merge_Cons:
  "deep_merge base ((k, v) # overlay) = deep_merge (dict_set k (merged_value (map_of base k) v) base) overlay"
  by (auto simp: merged_value_def split: json.splits option.splits)

lemma deep_merge_lookup:
  "distinct (map fst ov) \<Longrightarrow>
   map_of (deep_merge base ov) k =
     (case map_of ov k of None \<Rightarrow> map_of base k | Some v \<Rightarrow> Some (merged_value (map_of base k) v))"
proof (induction ov arbitrary: base)
  case (Cons kv ov)
  obtain k' v where kv: "kv = (k', v)" by (cases kv)
  have "map_of (deep_merge base (kv # ov)) k
      = map_of (deep_merge (dict_set k' (merged_value (map_of base k') v) base) ov) k"
    unfolding kv deep_merge_Cons ..
  also have "\<dots> = (case map_of (kv # ov) k of None \<Rightarrow> map_of base k
      | Some v \<Rightarrow> Some (merged_value (map_of base k) v))"
  proof (cases "k = k'")
    case True
    have "map_of ov k = None" using Cons.prems True kv by (simp add: map_of_eq_None_iff)
    then show ?thesis using Cons True kv by simp
  next
    case False
    have m: "map_of (dict_set k' w base) k = map_of base k" for w using False by simp
    have d: "distinct (map fst ov)" using Cons.prems by simp
    have *: "map_of (deep_merge (dict_set k' w base) ov) k =
        (case map_of ov k of None \<Rightarrow> map_of base k | Some v \<Rightarrow> Some (merged_value (map_of base k) v))" for w
      using Cons.IH [OF d, of "dict_set k' w base"] unfolding m .
    show ?thesis unfolding * using False kv by (cases "map_of ov k") simp_all
  qed
  finally show ?case .
qed simp

lemma json_wf_lookup: "json_wf (JObj kvs) \<Longrightarrow> map_of kvs k = Some v \<Longrightarrow> json_wf v"
  using map_of_SomeD by fastforce

text \<open>A value that the overlay sets wins at every depth.\<close>

lemma deep_merge_overlay_wins:
  assumes "json_wf (JObj ov)" "get_path (JObj ov) p = Some v" "\<forall>kvs. v \<noteq> JObj kvs"
  shows "get_path (JObj (deep_merge base ov)) p = Some v"
  using assms
proof (induction p arbitrary: base ov)
  case (Cons k p)
  obtain w where w: "map_of ov k = Some w" "get_path w p = Some v"
    using Cons.prems(2) by (auto split: option.splits)
  have d: "distinct (map fst ov)" using Cons.prems(1) by simp
  have look: "map_of (deep_merge base ov) k = Some (merged_value (map_of base k) w)"
    using deep_merge_lookup [OF d, of base k] w(1) by simp
  show ?case
  proof (cases "\<exists>inn b. w = JObj inn \<and> map_of base k = Some (JObj b)")
    case True
    then obtain inn b where ob: "w = JObj inn" "map_of base k = Some (JObj b)" by blast
    have "json_wf (JObj inn)" using json_wf_lookup [OF Cons.prems(1) w(1)] ob by simp
    then have "get_path (JObj (deep_merge b inn)) p = Some v"
      using Cons.IH w(2) ob Cons.prems(3) by blast
    then show ?thesis using look ob by (simp add: merged_value_def)
  next
    case False
    then have "merged_value (map_of base k) w = w"
      by (auto simp: merged_value_def split: json.splits option.splits)
    then show ?thesis using look w by simp
  qed
qed auto

text \<open>A path that leaves the overlay at one of its dictionaries keeps the base's value.\<close>

fun diverges :: "json \<Rightarrow> string list \<Rightarrow> bool" where
  "diverges (JObj kvs) (k # p) = (case map_of kvs k of None \<Rightarrow> True | Some v \<Rightarrow> diverges v p)"
| "diverges _ _ = False"

lemma deep_merge_base_kept:
  assumes "json_wf (JObj ov)" "diverges (JObj ov) p" "get_path (JObj base) p = Some v"
  shows "get_path (JObj (deep_merge base ov)) p = Some v"
  using assms
proof (induction p arbitrary: base ov)
  case (Cons k p)
  obtain w where w: "map_of base k = Some w" "get_path w p = Some v"
    using Cons.prems(3) by (auto split: option.splits)
  have d: "distinct (map fst ov)" using Cons.prems(1) by simp
  show ?case
  proof (cases "map_of ov k")
    case None
    then show ?thesis using deep_merge_lookup [OF d, of base k] w by simp
  next
    case (Some u)
    then have u: "diverges u p" using Cons.prems(2) by simp
    then obtain inn where inn: "u = JObj inn" by (cases u; cases p) auto
    from u inn obtain k2 p2 where p: "p = k2 # p2" by (cases p) auto
    with w(2) obtain b where b: "w = JObj b" by (cases w) auto
    have "json_wf (JObj inn)" using json_wf_lookup [OF Cons.prems(1) Some] inn by simp
    then have "get_path (JObj (deep_merge b inn)) p = Some v"
      using Cons.IH u inn w(2) b by blast
    then show ?thesis using deep_merge_lookup [OF d, of base k] Some w(1) inn b
      by (simp add: merged_value_def)
  qed
qed simp

section \<open>Properties of the configuration\<close>

text \<open>
  Merging a configuration layer (\<open>_deep_merge\<close>): every value that the overlay sets wins at every
  depth, and every value of the base that the overlay does not mention is kept.
\<close>

theorem deep_merge_precedence:
  assumes "json_wf (JObj overlay)"
  shows "(get_path (JObj overlay) p = Some v \<and> (\<forall>kvs. v \<noteq> JObj kvs) \<longrightarrow>
      get_path (JObj (deep_merge base overlay)) p = Some v) \<and>
    (diverges (JObj overlay) p \<and> get_path (JObj base) p = Some v \<longrightarrow>
      get_path (JObj (deep_merge base overlay)) p = Some v)"
  using deep_merge_overlay_wins [OF assms] deep_merge_base_kept [OF assms] by blast+

lemma deep_merge_precedence_witness:
  "get_path (JObj (deep_merge [(''llm'', JObj [(''seed'', JInt 1), (''model'', JStr ''m'')])]
                              [(''llm'', JObj [(''seed'', JInt 2)])])) [''llm'', ''seed''] = Some (JInt 2) \<and>
   get_path (JObj (deep_merge [(''llm'', JObj [(''seed'', JInt 1), (''model'', JStr ''m'')])]
                              [(''llm'', JObj [(''seed'', JInt 2)])])) [''llm'', ''model''] = Some (JStr ''m'')"
  by (intro conjI deep_merge_precedence [THEN conjunct1, THEN mp]
      deep_merge_precedence [THEN conjunct2, THEN mp]) simp_all

text \<open>
  Watermarks that pass the validator give hysteresis: storage that was paused resumes only with
  strictly more free bytes and inodes than it was paused at, the resume mark covers two worst
  concurrent batches, and no role has two paths.
\<close>

theorem storage_hysteresis:
  assumes "validate_storage_watermarks c = Inr c'"
  shows "c' = c \<and> shc_pause_free_bytes c < shc_resume_free_bytes c \<and>
    2 * shc_worst_concurrent_batch_bytes c < shc_resume_free_bytes c \<and>
    shc_pause_free_inode_fraction c < shc_resume_free_inode_fraction c \<and>
    distinct (map spc_role (shc_targets c))"
  using assms by (rule storage_watermarks_hysteresis)

lemma storage_hysteresis_witness:
  "shc_pause_free_bytes \<lparr>shc_targets = map (\<lambda>r. \<lparr>spc_role = r, spc_path = ''/data'', spc_required = True\<rparr>)
     [RoleHostRoot, RoleDaemonRoot, RoleStage, RoleResults], shc_pause_free_bytes = 10, shc_resume_free_bytes = 50,
     shc_worst_concurrent_batch_bytes = 20, shc_pause_free_inode_fraction = 1 / 10,
     shc_resume_free_inode_fraction = 2 / 10, shc_sample_interval_seconds = 30\<rparr> < 50"
  using storage_hysteresis [of "\<lparr>shc_targets = map (\<lambda>r. \<lparr>spc_role = r, spc_path = ''/data'', spc_required = True\<rparr>)
     [RoleHostRoot, RoleDaemonRoot, RoleStage, RoleResults], shc_pause_free_bytes = 10, shc_resume_free_bytes = 50,
     shc_worst_concurrent_batch_bytes = 20, shc_pause_free_inode_fraction = 1 / 10,
     shc_resume_free_inode_fraction = 2 / 10, shc_sample_interval_seconds = 30\<rparr>"]
  by (simp add: validate_storage_watermarks_def Let_def)

end
