(* ===== verification/Methods.thy ===== *)
theory Methods
  imports Config
begin

text \<open>
  The methods of the study (\<open>src/drc_agent/config/methods.py\<close>): the presets \<open>_PRESETS\<close>, the scanner
  for explicit method tokens (the regular expressions \<open>_METHOD_TOKEN\<close> and
  \<open>_RUN_CASE_ABBREVIATION\<close> written out as scanners), the check that a run's identity fields agree
  with its method, and \<open>resolve_method\<close>. Texts are ASCII, where \<open>str.upper\<close> acts letter by letter;
  of a formatted error message the constant part is kept.
\<close>

subsection \<open>Presets\<close>

datatype method_runtime = RuntimeNoop | RuntimeResearch

datatype method_coordinator = CoordNone | CoordGreedy | CoordCpSat

record method_preset =
  mp_name :: "string"
  mp_runtime :: "method_runtime"
  mp_llm_reasoning :: "bool"
  mp_dynamic_graph :: "bool"
  mp_graph_rewire :: "bool"
  mp_joint_planning :: "bool"
  mp_coordinator :: "method_coordinator"
  mp_message_passing :: "bool"
  mp_experience_graph :: "bool"
  mp_geometry_edges :: "bool"
  mp_shared_net_edges :: "bool"
  mp_resource_edges :: "bool"
  mp_klayout_transaction :: "bool"
  mp_connectivity_gate :: "bool"

definition noop_preset :: "string \<Rightarrow> method_preset" where
  "noop_preset name = \<lparr>mp_name = name, mp_runtime = RuntimeNoop, mp_llm_reasoning = False,
     mp_dynamic_graph = False, mp_graph_rewire = False, mp_joint_planning = False,
     mp_coordinator = CoordNone, mp_message_passing = False, mp_experience_graph = False,
     mp_geometry_edges = False, mp_shared_net_edges = False, mp_resource_edges = False,
     mp_klayout_transaction = False, mp_connectivity_gate = False\<rparr>"

definition presets :: "(string \<times> method_preset) list" where
  "presets =
    [(''NO_OP'', noop_preset ''NO_OP''),
     (''E0'', noop_preset ''E0''),
     (''B2'', \<lparr>mp_name = ''B2'', mp_runtime = RuntimeResearch, mp_llm_reasoning = True,
        mp_dynamic_graph = False, mp_graph_rewire = False, mp_joint_planning = False,
        mp_coordinator = CoordGreedy, mp_message_passing = False, mp_experience_graph = False,
        mp_geometry_edges = False, mp_shared_net_edges = False, mp_resource_edges = False,
        mp_klayout_transaction = True, mp_connectivity_gate = True\<rparr>),
     (''B3'', \<lparr>mp_name = ''B3'', mp_runtime = RuntimeResearch, mp_llm_reasoning = True,
        mp_dynamic_graph = False, mp_graph_rewire = False, mp_joint_planning = False,
        mp_coordinator = CoordGreedy, mp_message_passing = True, mp_experience_graph = False,
        mp_geometry_edges = True, mp_shared_net_edges = False, mp_resource_edges = False,
        mp_klayout_transaction = True, mp_connectivity_gate = True\<rparr>),
     (''B4'', \<lparr>mp_name = ''B4'', mp_runtime = RuntimeResearch, mp_llm_reasoning = True,
        mp_dynamic_graph = True, mp_graph_rewire = True, mp_joint_planning = False,
        mp_coordinator = CoordGreedy, mp_message_passing = True, mp_experience_graph = False,
        mp_geometry_edges = True, mp_shared_net_edges = True, mp_resource_edges = True,
        mp_klayout_transaction = True, mp_connectivity_gate = True\<rparr>),
     (''B5'', \<lparr>mp_name = ''B5'', mp_runtime = RuntimeResearch, mp_llm_reasoning = True,
        mp_dynamic_graph = True, mp_graph_rewire = True, mp_joint_planning = True,
        mp_coordinator = CoordCpSat, mp_message_passing = True, mp_experience_graph = False,
        mp_geometry_edges = True, mp_shared_net_edges = True, mp_resource_edges = True,
        mp_klayout_transaction = True, mp_connectivity_gate = True\<rparr>),
     (''B6'', \<lparr>mp_name = ''B6'', mp_runtime = RuntimeResearch, mp_llm_reasoning = True,
        mp_dynamic_graph = True, mp_graph_rewire = True, mp_joint_planning = True,
        mp_coordinator = CoordCpSat, mp_message_passing = True, mp_experience_graph = True,
        mp_geometry_edges = True, mp_shared_net_edges = True, mp_resource_edges = True,
        mp_klayout_transaction = True, mp_connectivity_gate = True\<rparr>),
     (''NO_EDGE'', \<lparr>mp_name = ''NO_EDGE'', mp_runtime = RuntimeResearch, mp_llm_reasoning = True,
        mp_dynamic_graph = True, mp_graph_rewire = True, mp_joint_planning = True,
        mp_coordinator = CoordCpSat, mp_message_passing = False, mp_experience_graph = True,
        mp_geometry_edges = False, mp_shared_net_edges = False, mp_resource_edges = False,
        mp_klayout_transaction = True, mp_connectivity_gate = True\<rparr>)]"

subsection \<open>Method tokens in a text\<close>

definition upper_char :: "char \<Rightarrow> char" where
  "upper_char c = (let n = of_char c :: nat in if 97 \<le> n \<and> n \<le> 122 then char_of (n - 32) else c)"

definition upper :: "string \<Rightarrow> string" where
  "upper s = map upper_char s"

definition is_digit :: "char \<Rightarrow> bool" where
  "is_digit c \<longleftrightarrow> (let n = of_char c :: nat in 48 \<le> n \<and> n \<le> 57)"

definition is_token_char :: "char \<Rightarrow> bool" where
  "is_token_char c \<longleftrightarrow> is_digit c \<or> (let n = of_char c :: nat in 65 \<le> n \<and> n \<le> 90)"

text \<open>\<open>_METHOD_TOKEN.findall\<close>; \<open>prev\<close> is the character before, if any.\<close>

function scan_tokens :: "char option \<Rightarrow> string \<Rightarrow> string list" where
  "scan_tokens prev [] = []"
| "scan_tokens prev (c # cs) =
     (let ds = takeWhile is_digit cs; rest = dropWhile is_digit cs
      in if opt_all (\<lambda>p. \<not> is_token_char p) prev \<and>
            c = CHR ''B'' \<and> ds \<noteq> [] \<and> (rest = [] \<or> \<not> is_token_char (hd rest))
         then (c # ds) # scan_tokens (Some (last ds)) rest
         else scan_tokens (Some c) cs)"
  by pat_completeness auto
termination
  by (relation "measure (length \<circ> snd)") (auto simp: le_imp_less_Suc length_dropWhile_le)

definition method_tokens :: "string \<Rightarrow> string list" where
  "method_tokens value = remdups (scan_tokens None (upper value))"

text \<open>
  \<open>_RUN_CASE_ABBREVIATION.sub("CASE", \<dots>, count=1)\<close>. The \<open>$\<close> of the pattern also matches before a
  final newline.
\<close>

definition case_follow :: "string \<Rightarrow> bool" where
  "case_follow rest =
     (case rest of
        a # b # ds \<Rightarrow> a = CHR ''-'' \<and> b = CHR ''S'' \<and> takeWhile is_digit ds \<noteq> [] \<and>
          (let tl' = dropWhile is_digit ds
           in tl' = [] \<or> tl' = [CHR 0x0A] \<or> hd tl' = CHR ''-'')
      | _ \<Rightarrow> False)"

fun strip_case :: "char option \<Rightarrow> string \<Rightarrow> string" where
  "strip_case prev [] = []"
| "strip_case prev (c # cs) =
     (if prev = Some (CHR ''-'') \<and> c = CHR ''B'' \<and> takeWhile is_digit cs \<noteq> [] \<and>
         case_follow (dropWhile is_digit cs)
      then ''CASE'' @ dropWhile is_digit cs
      else c # strip_case (Some c) cs)"

definition run_id_tokens :: "string \<Rightarrow> string list" where
  "run_id_tokens value =
     (let remaining = method_tokens (strip_case None (upper value))
      in if remaining \<noteq> [] then remaining else method_tokens value)"

subsection \<open>Identity and resolution\<close>

definition tokens_agree :: "string \<Rightarrow> string list \<Rightarrow> bool" where
  "tokens_agree normalized toks \<longleftrightarrow> toks = [] \<or> set toks = {normalized}"

definition field_agrees :: "string \<Rightarrow> (string \<Rightarrow> string list) \<Rightarrow> string option \<Rightarrow> bool" where
  "field_agrees normalized tok value =
     (case value of None \<Rightarrow> True | Some v \<Rightarrow> v = [] \<or> tokens_agree normalized (tok v))"

definition validate_method_identity ::
    "string \<Rightarrow> app_config \<Rightarrow> string option \<Rightarrow> string option \<Rightarrow> string option \<Rightarrow> unit result" where
  "validate_method_identity name config run_id experiment_id profile_name =
     (let normalized = upper name
      in case map_of presets normalized of
           None \<Rightarrow> Inl (ValueError ''unsupported method'')
         | Some preset \<Rightarrow>
             if ft_experience_graph (app_features config) \<noteq> mp_experience_graph preset
             then Inl (ValueError ''METHOD_IDENTITY_MISMATCH: experience_graph'')
             else if \<not> field_agrees normalized run_id_tokens run_id
             then Inl (ValueError ''METHOD_IDENTITY_MISMATCH: run_id'')
             else if \<not> field_agrees normalized method_tokens experiment_id
             then Inl (ValueError ''METHOD_IDENTITY_MISMATCH: experiment_id'')
             else if \<not> field_agrees normalized method_tokens profile_name
             then Inl (ValueError ''METHOD_IDENTITY_MISMATCH: profile_name'')
             else Inr ())"

definition preset_features :: "method_preset \<Rightarrow> features_config" where
  "preset_features p = \<lparr>ft_experience_graph = mp_experience_graph p,
     ft_dynamic_graph = mp_dynamic_graph p, ft_graph_rewire = mp_graph_rewire p,
     ft_joint_planning = mp_joint_planning p, ft_message_passing = mp_message_passing p,
     ft_geometry_edges = mp_geometry_edges p, ft_shared_net_edges = mp_shared_net_edges p,
     ft_resource_edges = mp_resource_edges p, ft_timing_edges = False,
     ft_timing_verification = False\<rparr>"

definition resolve_method :: "string \<Rightarrow> app_config \<Rightarrow> bool \<Rightarrow> (method_preset \<times> app_config) result" where
  "resolve_method name config test_mode =
     (case map_of presets (upper name) of
        None \<Rightarrow> Inl (ValueError ''unsupported method'')
      | Some preset \<Rightarrow>
          if mp_llm_reasoning preset \<and> \<not> llm_enabled (app_llm config)
          then Inl (ValueError ''llm.enabled=true required'')
          else if mp_llm_reasoning preset \<and> llm_provider (app_llm config) = ProviderFake \<and> \<not> test_mode
          then Inl (ValueError ''fake LLM is allowed only with explicit test_mode'')
          else if mp_connectivity_gate preset \<and> \<not> acc_require_connectivity (app_acceptance config)
          then Inl (ValueError ''acceptance.require_connectivity=true required'')
          else let resolved = config\<lparr>app_features := preset_features preset\<rparr>
               in bind_result (validate_method_identity (mp_name preset) resolved None None None)
                    (\<lambda>_. Inr (preset, resolved)))"

subsection \<open>Properties of the scanner\<close>

lemma scan_tokens_shape:
  "t \<in> set (scan_tokens prev s) \<Longrightarrow> \<exists>ds. t = CHR ''B'' # ds \<and> ds \<noteq> [] \<and> (\<forall>d \<in> set ds. is_digit d)"
proof (induction prev s rule: scan_tokens.induct)
  case (2 prev c cs)
  let ?tok = "opt_all (\<lambda>p. \<not> is_token_char p) prev \<and> c = CHR ''B'' \<and> takeWhile is_digit cs \<noteq> [] \<and>
      (dropWhile is_digit cs = [] \<or> \<not> is_token_char (hd (dropWhile is_digit cs)))"
  show ?case
  proof (cases ?tok)
    case True
    then have "t = c # takeWhile is_digit cs \<or>
        t \<in> set (scan_tokens (Some (last (takeWhile is_digit cs))) (dropWhile is_digit cs))"
      using "2.prems" by (simp add: Let_def)
    then show ?thesis using True 2(1) [OF refl refl True] set_takeWhileD
      by (metis (no_types, lifting))
  next
    case False
    then have "t \<in> set (scan_tokens (Some c) cs)"
      using "2.prems" by (simp add: Let_def split: if_splits)
    then show ?thesis using 2(2) [OF refl refl] False by blast
  qed
qed simp

lemma is_digit_token: "is_digit c \<Longrightarrow> is_token_char c"
  by (simp add: is_token_char_def)

lemma scan_tokens_start: "\<not> is_token_char sep \<Longrightarrow> scan_tokens (Some sep) s = scan_tokens None s"
  by (cases s) (simp_all add: opt_all_def Let_def)

text \<open>A character that no token contains separates the text: each part is scanned on its own.\<close>

lemma scan_tokens_separator:
  assumes sep: "\<not> is_token_char sep"
  shows "scan_tokens prev (xs @ sep # ys) = scan_tokens prev xs @ scan_tokens None ys"
proof (induction prev xs rule: scan_tokens.induct)
  case (1 prev)
  have "sep \<noteq> CHR ''B''" using sep by (auto simp: is_token_char_def Let_def)
  then show ?case using scan_tokens_start [OF sep] by (simp add: Let_def)
next
  case (2 prev c cs)
  have nd: "\<not> is_digit sep" using sep is_digit_token by blast
  have t: "takeWhile is_digit (cs @ sep # ys) = takeWhile is_digit cs"
    by (metis nd takeWhile_append takeWhile_eq_all_conv takeWhile.simps(2) append_Nil2)
  have d: "dropWhile is_digit (cs @ sep # ys) = dropWhile is_digit cs @ sep # ys"
  proof (cases "\<forall>x \<in> set cs. is_digit x")
    case True
    then have "dropWhile is_digit cs = []" by simp
    then show ?thesis using True nd by (simp add: dropWhile_append2)
  next
    case False
    then show ?thesis by (meson dropWhile_append1)
  qed
  have h: "(dropWhile is_digit cs @ sep # ys = [] \<or> \<not> is_token_char (hd (dropWhile is_digit cs @ sep # ys)))
      \<longleftrightarrow> (dropWhile is_digit cs = [] \<or> \<not> is_token_char (hd (dropWhile is_digit cs)))"
    using sep by (cases "dropWhile is_digit cs") (simp_all del: dropWhile_eq_Nil_conv)
  let ?tw = "takeWhile is_digit cs" and ?dw = "dropWhile is_digit cs"
  let ?tok = "opt_all (\<lambda>p. \<not> is_token_char p) prev \<and> c = CHR ''B'' \<and> ?tw \<noteq> [] \<and>
      (?dw = [] \<or> \<not> is_token_char (hd ?dw))"
  have both: "scan_tokens prev ((c # cs) @ sep # ys)
      = (if ?tok then (c # ?tw) # scan_tokens (Some (last ?tw)) (?dw @ sep # ys)
         else scan_tokens (Some c) (cs @ sep # ys))"
    by (simp only: append_Cons scan_tokens.simps Let_def t d h)
  have left: "scan_tokens prev (c # cs)
      = (if ?tok then (c # ?tw) # scan_tokens (Some (last ?tw)) ?dw else scan_tokens (Some c) cs)"
    by (simp only: scan_tokens.simps Let_def)
  show ?case
  proof (cases ?tok)
    case True
    show ?thesis unfolding both left if_P [OF True] using 2(1) [OF refl refl True] by simp
  next
    case False
    show ?thesis unfolding both left if_not_P [OF False] using 2(2) [OF refl refl False] by simp
  qed
qed

lemma method_tokens_separator:
  assumes "\<not> is_token_char (upper_char sep)"
  shows "set (method_tokens (xs @ sep # ys)) = set (method_tokens xs) \<union> set (method_tokens ys)"
  using scan_tokens_separator [OF assms] by (simp add: method_tokens_def upper_def)

subsection \<open>Properties of the resolution\<close>

lemma presets_named: "(k, p) \<in> set presets \<Longrightarrow> mp_name p = k \<and> upper k = k"
  unfolding presets_def noop_preset_def
  by (simp, elim disjE) (simp_all add: upper_def upper_char_def)

lemma resolve_method_result:
  "resolve_method name config test_mode = Inr (p, r) \<longleftrightarrow>
     map_of presets (upper name) = Some p \<and>
     (mp_llm_reasoning p \<longrightarrow> llm_enabled (app_llm config) \<and>
        (llm_provider (app_llm config) = ProviderFake \<longrightarrow> test_mode)) \<and>
     (mp_connectivity_gate p \<longrightarrow> acc_require_connectivity (app_acceptance config)) \<and>
     r = config\<lparr>app_features := preset_features p\<rparr>"
proof (cases "map_of presets (upper name)")
  case (Some q)
  have n: "mp_name q = upper name" "upper (upper name) = upper name"
    using presets_named [OF map_of_SomeD [OF Some]] by auto
  have "validate_method_identity (mp_name q) (config\<lparr>app_features := preset_features q\<rparr>) None None None = Inr ()"
    using Some n by (simp add: validate_method_identity_def field_agrees_def preset_features_def)
  then show ?thesis using Some by (auto simp: resolve_method_def Let_def)
qed (simp add: resolve_method_def)

lemma validate_method_identity_ok:
  assumes "validate_method_identity name config run_id experiment_id profile_name = Inr ()"
  shows "\<exists>p. map_of presets (upper name) = Some p \<and>
      ft_experience_graph (app_features config) = mp_experience_graph p \<and>
      field_agrees (upper name) run_id_tokens run_id \<and>
      field_agrees (upper name) method_tokens experiment_id \<and>
      field_agrees (upper name) method_tokens profile_name"
  using assms by (auto simp: validate_method_identity_def Let_def split: option.splits if_splits)

section \<open>Properties of the methods\<close>

text \<open>
  \<open>resolve_method\<close> accepts exactly the configurations that satisfy the preset's demands (an
  enabled model for a reasoning method, no fake model outside tests, the connectivity gate where
  the preset has it), and then changes only the features, to those of the preset. Its own identity
  check never fails.
\<close>

theorem resolve_method_exact:
  "resolve_method name config test_mode = Inr (p, r) \<longleftrightarrow>
     map_of presets (upper name) = Some p \<and>
     (\<not> mp_llm_reasoning p \<or> llm_enabled (app_llm config) \<and>
        (llm_provider (app_llm config) \<noteq> ProviderFake \<or> test_mode)) \<and>
     (\<not> mp_connectivity_gate p \<or> acc_require_connectivity (app_acceptance config)) \<and>
     r = config\<lparr>app_features := preset_features p\<rparr>"
  unfolding resolve_method_result by blast

text \<open>
  When the identity check passes, every method that an explicit token of the experiment or
  profile name encodes is the method of the run, and a token is never read across a separator: the
  tokens of a name are those of its parts.
\<close>

theorem method_identity_tokens:
  assumes "validate_method_identity name config run_id (Some experiment) profile = Inr ()"
    and "\<not> is_token_char (upper_char sep)"
  shows "set (method_tokens experiment) \<subseteq> {upper name} \<and>
    set (method_tokens (xs @ sep # ys)) = set (method_tokens xs) \<union> set (method_tokens ys)"
proof (intro conjI)
  have "field_agrees (upper name) method_tokens (Some experiment)"
    using validate_method_identity_ok [OF assms(1)] by blast
  then show "set (method_tokens experiment) \<subseteq> {upper name}"
    by (auto simp: field_agrees_def tokens_agree_def method_tokens_def upper_def)
  show "set (method_tokens (xs @ sep # ys)) = set (method_tokens xs) \<union> set (method_tokens ys)"
    by (rule method_tokens_separator [OF assms(2)])
qed

definition research_config_example :: app_config where
  "research_config_example = \<lparr>app_schema_version = ''1.0'', app_project_root = ''.'',
     app_features = default_features_config, app_workflow = default_workflow_config,
     app_region = default_region_config, app_agent_graph = default_agent_graph_config,
     app_agent = default_agent_config, app_coordinator = default_coordinator_config,
     app_acceptance = default_acceptance_config, app_retrieval = default_retrieval_config,
     app_llm = default_llm_config, app_backend = default_backend_config,
     app_repair_programming = default_repair_programming_config,
     app_candidate_evidence = default_candidate_evidence_config,
     app_candidate_graph = default_candidate_graph_config, app_transaction = default_transaction_config,
     app_attribution = default_attribution_config,
     app_repair_kernel_integration = default_integration_config, app_resource_control = None\<rparr>"

lemma method_identity_tokens_witness:
  "set (method_tokens ''exp-B6-run1'') \<subseteq> {''B6''} \<and>
   set (method_tokens ''exp-B6'') = set (method_tokens ''exp'') \<union> set (method_tokens ''B6'')"
proof -
  have v: "validate_method_identity ''b6'' research_config_example None (Some ''exp-B6-run1'') None = Inr ()"
    by code_simp
  have s: "\<not> is_token_char (upper_char CHR ''-'')" by code_simp
  have u: "upper ''b6'' = ''B6''" by code_simp
  show ?thesis
    using method_identity_tokens [OF v s, of "''exp''" "''B6''"]
    unfolding u by simp
qed

lemma resolve_method_exact_witness:
  "resolve_method ''e0'' research_config_example False =
     Inr (noop_preset ''E0'', research_config_example\<lparr>app_features := preset_features (noop_preset ''E0'')\<rparr>)"
proof -
  have "map_of presets (upper ''e0'') = Some (noop_preset ''E0'')" by code_simp
  then show ?thesis
    using resolve_method_exact [of "''e0''" research_config_example False "noop_preset ''E0''"
        "research_config_example\<lparr>app_features := preset_features (noop_preset ''E0'')\<rparr>"]
    by (simp add: noop_preset_def)
qed

end
