(* ===== verification/Workflow_Schemas.thy ===== *)
theory Workflow_Schemas
  imports Action_Schemas
begin

text \<open>
  The workflow's records (\<open>src/drc_agent/schemas/workflow.py\<close>): design snapshots, the active
  window with its helper assignments, window results, planning results, transaction batches and
  the status enumerations, and the two reducers with which parallel branches of the workflow
  graph combine their lists (\<open>merge_by_subgraph_id\<close>, \<open>append_dedup\<close>). \<open>IterationFinalEvidencePointer\<close>
  and the \<open>GlobalState\<close> dictionary type are left out. Times are texts.
\<close>

text \<open>The \<open>Literal\<close> types of the fields.\<close>

datatype assist_status = AssistDependency | AssistUnsupported

datatype window_status = WindowCommit | WindowRollback | WindowNoSafeBundle | WindowNoOp | WindowFailed

record design_snapshot =
  ds_snapshot_id :: "string"
  ds_script_ref :: "artifact_ref"
  ds_gds_ref :: "artifact_ref option"
  ds_drc_ref :: "artifact_ref option"
  ds_connectivity_ref :: "artifact_ref option"
  ds_lineage_receipt_ref :: "artifact_ref option"
  ds_parent_snapshot_id :: "string option"
  ds_parent_script_ref :: "artifact_ref option"
  ds_provenance_run_id :: "string option"
  ds_provenance_relation_source :: "string option"
  ds_score :: "(int \<times> int \<times> int) option"

record subgraph_ref =
  asr_subgraph_id :: "string"
  asr_artifact_ref :: "artifact_ref"

record helper_assignment =
  ha_helper_region_id :: "string"
  ha_assisted_region_ids :: "string list"
  ha_assisted_target_violation_ids :: "string list"
  ha_dependency_evidence_ids :: "string list"
  ha_helper_potential_dof_capability_ids :: "string list"
  ha_helper_potential_carrier_ids :: "string list"
  ha_helper_protected_relation_ids :: "string list"
  ha_snapshot_id :: "string"
  ha_status :: "assist_status"

record active_window =
  aw_window_id :: "string"
  aw_iteration :: "int"
  aw_window_index :: "int"
  aw_base_snapshot_id :: "string"
  aw_subgraph_ids :: "string list"
  aw_region_ids :: "string list"
  aw_frontier_violation_ids :: "string list"
  aw_claimed_frontier_violation_ids :: "string list"
  aw_decision_region_ids :: "string list"
  aw_helper_region_ids :: "string list"
  aw_helper_assignments :: "helper_assignment list"
  aw_context_only_region_ids :: "string list"
  aw_boundary_dependency_ids :: "string list"
  aw_hard_dependency_closure :: "bool"

datatype frontier_state =
    FrontierPendingNotYetAdmitted
  | FrontierAttemptedThisIteration
  | FrontierDeferredBudget
  | FrontierUnsupportedWithEvidence
  | FrontierRemovedByCommit

record window_result =
  wr_window_id :: "string"
  wr_iteration :: "int"
  wr_window_index :: "int"
  wr_base_snapshot_id :: "string"
  wr_final_snapshot_id :: "string"
  wr_status :: "window_status"
  wr_claimed_frontier_violation_ids :: "string list"
  wr_selected_candidate_ids :: "string list"
  wr_admitted_frontier_violation_ids :: "string list"
  wr_llm_started_frontier_violation_ids :: "string list"
  wr_plan_validated_frontier_violation_ids :: "string list"
  wr_kernel_attempted_frontier_violation_ids :: "string list"
  wr_physical_evaluated_frontier_violation_ids :: "string list"
  wr_attempted_frontier_violation_ids :: "string list"
  wr_deferred_frontier_violation_ids :: "string list"
  wr_unsupported_frontier_violation_ids :: "string list"
  wr_removed_by_commit_violation_ids :: "string list"
  wr_frontier_state_counts :: "(string \<times> int) list"
  wr_frontier_states :: "(string \<times> frontier_state) list"
  wr_decision_region_ids :: "string list"
  wr_helper_region_ids :: "string list"
  wr_context_only_region_ids :: "string list"
  wr_total_region_count :: "int"
  wr_llm_invocation_count :: "int"
  wr_removed_original :: "int option"
  wr_new_violations :: "int option"
  wr_connectivity_preserved :: "bool option"
  wr_joint_sandbox_rounds :: "int"
  wr_no_good_count :: "int"

record plan_result =
  spr_subgraph_id :: "string"
  spr_bundle_ref :: "artifact_ref option"
  spr_status :: "string"
  spr_errors :: "string list"

record transaction_batch =
  tb_batch_id :: "string"
  tb_base_snapshot_id :: "string option"
  tb_candidate_ids :: "string list"
  tb_non_noop_action_count :: "int"
  tb_modified_object_count :: "int"
  tb_requires_replan_after_commit :: "bool"
  tb_bundle_ids :: "string list"

datatype stopping_status =
    StopContinue
  | StopDrcClean
  | StopMaxIterations
  | StopNoProgress
  | StopAllNoop
  | StopBudgetExhausted
  | StopIntegrityFailure

datatype iteration_status =
    IterBaseline
  | IterCommit
  | IterRollback
  | IterNoOp
  | IterNoProgress
  | IterFailed

record workflow_error =
  we_error_id :: "string"
  we_node :: "string"
  we_code :: "string"
  we_message :: "string"
  we_created_at :: "string"

subsection \<open>Validators\<close>

definition validate_helper_assignment :: "helper_assignment \<Rightarrow> helper_assignment result" where
  "validate_helper_assignment h =
     (if ha_assisted_region_ids h \<noteq> [] \<and> ha_assisted_target_violation_ids h \<noteq> [] \<and>
         ha_dependency_evidence_ids h \<noteq> []
      then Inr h else Inl (ValueError ''List should have at least 1 item''))"

subsection \<open>merge\_by\_subgraph\_id\<close>

definition plans_by_id :: "plan_result list \<Rightarrow> (string \<times> plan_result) list" where
  "plans_by_id items = dict_of (map (\<lambda>i. (spr_subgraph_id i, i)) items)"

definition merge_by_subgraph_id :: "plan_result list \<Rightarrow> plan_result list \<Rightarrow> plan_result list" where
  "merge_by_subgraph_id left right =
     (let merged = plans_by_id (left @ right)
      in map (\<lambda>k. the (map_of merged k)) (py_sorted (set (map fst merged))))"

text \<open>The last result of a subgraph in a list.\<close>

definition last_plan :: "plan_result list \<Rightarrow> string \<Rightarrow> plan_result option" where
  "last_plan items k = map_of (map (\<lambda>i. (spr_subgraph_id i, i)) (rev items)) k"

lemma last_plan_append: "last_plan (xs @ ys) k = (case last_plan ys k of None \<Rightarrow> last_plan xs k | Some i \<Rightarrow> Some i)"
  by (simp add: last_plan_def map_add_def split: option.splits)

lemma last_plan_id: "last_plan items k = Some i \<Longrightarrow> spr_subgraph_id i = k \<and> i \<in> set items"
  by (auto simp: last_plan_def dest: map_of_SomeD)

lemma last_plan_None: "last_plan items k = None \<longleftrightarrow> k \<notin> spr_subgraph_id ` set items"
  by (simp add: last_plan_def map_of_eq_None_iff image_image)

lemma merge_as_last_plan:
  "merge_by_subgraph_id left right =
     map (\<lambda>k. the (last_plan (left @ right) k)) (py_sorted (spr_subgraph_id ` set (left @ right)))"
  by (simp add: merge_by_subgraph_id_def plans_by_id_def map_of_dict_of last_plan_def rev_map Let_def
      image_image image_Un)

lemma merge_ids:
  "map spr_subgraph_id (merge_by_subgraph_id left right) = py_sorted (spr_subgraph_id ` set (left @ right))"
proof -
  have "spr_subgraph_id (the (last_plan (left @ right) k)) = k" if "k \<in> spr_subgraph_id ` set (left @ right)" for k
    using that last_plan_id last_plan_None by (metis option.exhaust_sel)
  then show ?thesis unfolding merge_as_last_plan map_map by (intro map_idI) simp
qed

lemma last_plan_merge: "last_plan (merge_by_subgraph_id left right) k = last_plan (left @ right) k"
proof -
  have ids: "spr_subgraph_id ` set (merge_by_subgraph_id left right) = spr_subgraph_id ` set (left @ right)"
    using merge_ids [of left right] by (metis List.finite_set finite_imageI set_map set_py_sorted)
  show ?thesis
  proof (cases "last_plan (merge_by_subgraph_id left right) k")
    case None
    then show ?thesis using ids last_plan_None by metis
  next
    case (Some i)
    then have i: "spr_subgraph_id i = k" "i \<in> set (merge_by_subgraph_id left right)"
      using last_plan_id by blast+
    then obtain k' where k': "k' \<in> spr_subgraph_id ` set (left @ right)" "i = the (last_plan (left @ right) k')"
      unfolding merge_as_last_plan by auto
    then obtain j where j: "last_plan (left @ right) k' = Some j"
      using last_plan_None by (metis option.exhaust)
    then show ?thesis using Some i k' last_plan_id by (metis option.sel)
  qed
qed

text \<open>
  A merged list depends on its inputs only through the last result of each subgraph. So it does
  not matter how the branches are grouped, nor in which order branches with different subgraphs
  arrive.
\<close>

lemma merge_cong:
  assumes "\<And>k. last_plan (a @ b) k = last_plan (c @ d) k"
  shows "merge_by_subgraph_id a b = merge_by_subgraph_id c d"
proof -
  have "spr_subgraph_id ` set (a @ b) = spr_subgraph_id ` set (c @ d)"
    using assms last_plan_None by (metis subsetI subset_antisym)
  then show ?thesis unfolding merge_as_last_plan using assms by simp
qed

lemma merge_assoc_aux:
  "merge_by_subgraph_id (merge_by_subgraph_id a b) c = merge_by_subgraph_id a (merge_by_subgraph_id b c)"
  by (rule merge_cong) (simp add: last_plan_append last_plan_merge split: option.splits)

lemma merge_commute_aux:
  assumes "spr_subgraph_id ` set a \<inter> spr_subgraph_id ` set b = {}"
  shows "merge_by_subgraph_id a b = merge_by_subgraph_id b a"
proof (rule merge_cong)
  fix k
  show "last_plan (a @ b) k = last_plan (b @ a) k"
    using assms last_plan_None [of a k] last_plan_None [of b k]
    by (auto simp: last_plan_append split: option.splits)
qed

subsection \<open>append\_dedup\<close>

text \<open>
  \<open>identity\<close> is the item's \<open>verification_id\<close>, else its \<open>error_id\<close>, else its \<open>repr\<close>; \<open>identity_of\<close>
  spells it out over the two optional attributes.
\<close>

definition identity_of :: "string option \<Rightarrow> string option \<Rightarrow> string \<Rightarrow> string" where
  "identity_of verification_id error_id repr =
     (if opt_truthy verification_id then the verification_id
      else if opt_truthy error_id then the error_id else repr)"

definition identity_verification :: "(verification_result \<Rightarrow> string) \<Rightarrow> verification_result \<Rightarrow> string" where
  "identity_verification repr r = identity_of (Some (vr_verification_id r)) None (repr r)"

definition identity_error :: "(workflow_error \<Rightarrow> string) \<Rightarrow> workflow_error \<Rightarrow> string" where
  "identity_error repr e = identity_of None (Some (we_error_id e)) (repr e)"

fun dedup_loop :: "('a \<Rightarrow> string) \<Rightarrow> string set \<Rightarrow> 'a list \<Rightarrow> 'a list" where
  "dedup_loop identity seen [] = []"
| "dedup_loop identity seen (x # xs) =
     (if identity x \<in> seen then dedup_loop identity seen xs
      else x # dedup_loop identity (insert (identity x) seen) xs)"

definition append_dedup :: "('a \<Rightarrow> string) \<Rightarrow> 'a list \<Rightarrow> 'a list \<Rightarrow> 'a list" where
  "append_dedup identity left right = dedup_loop identity {} (left @ right)"

lemma dedup_loop_ids: "identity ` set (dedup_loop identity seen xs) = identity ` set xs - seen"
  by (induction xs arbitrary: seen) auto

lemma dedup_loop_distinct: "distinct (map identity (dedup_loop identity seen xs))"
proof (induction xs arbitrary: seen)
  case (Cons x xs)
  have "identity x \<notin> identity ` set (dedup_loop identity (insert (identity x) seen) xs)"
    by (simp add: dedup_loop_ids)
  then show ?case using Cons by simp
qed simp

lemma dedup_loop_append:
  "dedup_loop identity seen (xs @ ys) =
     dedup_loop identity seen xs @ dedup_loop identity (seen \<union> identity ` set xs) ys"
  by (induction xs arbitrary: seen) (auto simp: insert_absorb Un_commute)

lemma dedup_loop_fresh:
  "distinct (map identity xs) \<Longrightarrow> identity ` set xs \<inter> seen = {} \<Longrightarrow> dedup_loop identity seen xs = xs"
  by (induction xs arbitrary: seen) auto

lemma dedup_loop_twice: "dedup_loop identity seen (dedup_loop identity seen xs) = dedup_loop identity seen xs"
  by (rule dedup_loop_fresh) (auto simp: dedup_loop_distinct dedup_loop_ids)

lemma dedup_loop_grow:
  "dedup_loop identity seen (dedup_loop identity seen' xs) = dedup_loop identity (seen \<union> seen') xs"
proof (induction xs arbitrary: seen seen')
  case (Cons x xs)
  then show ?case by (auto simp: insert_absorb)
qed simp

lemma append_dedup_assoc_aux:
  "append_dedup identity (append_dedup identity a b) c = append_dedup identity a (append_dedup identity b c)"
  by (simp add: append_dedup_def dedup_loop_append dedup_loop_twice dedup_loop_grow dedup_loop_ids
      image_Un Un_commute Un_left_commute)

section \<open>Properties of the reducers\<close>

text \<open>
  \<open>merge_by_subgraph_id\<close>, with which parallel planning branches are combined, is associative, and
  commutative for branches that planned different subgraphs: the merged list does not depend on
  how the branches were scheduled. It is sorted and has one result per subgraph.
\<close>

theorem merge_reducer:
  "merge_by_subgraph_id (merge_by_subgraph_id a b) c = merge_by_subgraph_id a (merge_by_subgraph_id b c) \<and>
   map spr_subgraph_id (merge_by_subgraph_id a b) = py_sorted (spr_subgraph_id ` set (a @ b)) \<and>
   (spr_subgraph_id ` set a \<inter> spr_subgraph_id ` set b \<noteq> {} \<or>
    merge_by_subgraph_id a b = merge_by_subgraph_id b a)"
proof (intro conjI)
  show "merge_by_subgraph_id (merge_by_subgraph_id a b) c = merge_by_subgraph_id a (merge_by_subgraph_id b c)"
    by (rule merge_assoc_aux)
  show "map spr_subgraph_id (merge_by_subgraph_id a b) = py_sorted (spr_subgraph_id ` set (a @ b))"
    by (rule merge_ids)
  show "spr_subgraph_id ` set a \<inter> spr_subgraph_id ` set b \<noteq> {} \<or>
      merge_by_subgraph_id a b = merge_by_subgraph_id b a"
    using merge_commute_aux [of a b] by blast
qed

text \<open>
  \<open>append_dedup\<close>, the reducer of the verification results and errors, is associative and keeps the
  first item of every identity: the identities of the result are distinct and are those of both
  lists, and a list without repetitions stays a prefix.
\<close>

theorem dedup_reducer:
  "append_dedup identity (append_dedup identity a b) c = append_dedup identity a (append_dedup identity b c) \<and>
   distinct (map identity (append_dedup identity a b)) \<and>
   identity ` set (append_dedup identity a b) = identity ` set a \<union> identity ` set b \<and>
   (\<not> distinct (map identity a) \<or> (\<exists>rest. append_dedup identity a b = a @ rest))"
proof (intro conjI)
  show "append_dedup identity (append_dedup identity a b) c = append_dedup identity a (append_dedup identity b c)"
    by (rule append_dedup_assoc_aux)
  show "distinct (map identity (append_dedup identity a b))"
    unfolding append_dedup_def by (rule dedup_loop_distinct)
  show "identity ` set (append_dedup identity a b) = identity ` set a \<union> identity ` set b"
    by (simp add: append_dedup_def dedup_loop_ids image_Un)
  have "append_dedup identity a b = a @ dedup_loop identity (identity ` set a) b" if "distinct (map identity a)"
    using dedup_loop_fresh [OF that, of "{}"] by (simp add: append_dedup_def dedup_loop_append)
  then show "\<not> distinct (map identity a) \<or> (\<exists>rest. append_dedup identity a b = a @ rest)" by blast
qed

definition plan_example :: "string \<Rightarrow> string \<Rightarrow> plan_result" where
  "plan_example sid st = \<lparr>spr_subgraph_id = sid, spr_bundle_ref = None, spr_status = st, spr_errors = []\<rparr>"

lemma merge_reducer_witness:
  "merge_by_subgraph_id [plan_example ''b'' ''OK''] [plan_example ''a'' ''OK'']
   = merge_by_subgraph_id [plan_example ''a'' ''OK''] [plan_example ''b'' ''OK'']"
  using merge_reducer [of "[plan_example ''b'' ''OK'']" "[plan_example ''a'' ''OK'']"]
  by (simp add: plan_example_def)

lemma dedup_reducer_witness:
  "\<exists>rest. append_dedup id [''e1'', ''e2''] [''e1'', ''e3''] = [''e1'', ''e2''] @ rest"
  using dedup_reducer [of id "[''e1'', ''e2'']" "[''e1'', ''e3'']"] by simp

end
