(* ===== verification/Policy.thy ===== *)
theory Policy
  imports Workflow_Schemas Config
begin

text \<open>
  What ends a repair and what counts as one: the acceptance gate and the order on verified
  snapshots (\<open>src/drc_agent/evaluation/policy.py\<close>), the stopping condition of the iteration loop and
  the split of the pending violations into repair targets and context
  (\<open>stopping_condition\<close>, \<open>partition_supported_pending_frontier\<close> of \<open>src/drc_agent/workflow/runtime.py\<close>).
\<close>

subsection \<open>Acceptance\<close>

record acceptance_decision =
  ad_accepted :: "bool"
  ad_reasons :: "string list"

definition reason_if :: "bool \<Rightarrow> string \<Rightarrow> string list" where
  "reason_if b code = (if b then [code] else [])"

definition drc_progress_reasons :: "verification_result \<Rightarrow> string list" where
  "drc_progress_reasons r =
     (case vr_residual_violation_count r of
        None \<Rightarrow> [''DRC_NOT_EVALUATED'']
      | Some n \<Rightarrow> reason_if (n \<ge> vr_baseline_residual_count r) ''NO_DRC_PROGRESS'')"

definition gate_reasons :: "verification_result \<Rightarrow> acceptance_config \<Rightarrow> string list" where
  "gate_reasons r cfg =
     reason_if (protocol_p32 (vr_execution_protocol_version r) \<and> \<not> vr_fresh_evidence_valid r)
       ''FRESH_EVIDENCE_INCOMPLETE'' @
     reason_if (vr_script_valid r \<noteq> Some True) ''SCRIPT_INVALID'' @
     reason_if (vr_gds_sanity_pass r \<noteq> Some True) ''GDS_SANITY_FAILED'' @
     reason_if (acc_require_connectivity cfg \<and> vr_connectivity_preserved r \<noteq> Some True)
       ''CONNECTIVITY_FAILED'' @
     reason_if (vr_timing_gate_pass r = Some False) ''TIMING_FAILED'' @
     (if acc_require_drc_progress cfg then drc_progress_reasons r else []) @
     reason_if (acc_reject_new_violations cfg \<and> opt_or_zero (vr_new_violation_count r) \<noteq> 0)
       ''NEW_DRC_INTRODUCED''"

definition evaluate_acceptance :: "verification_result \<Rightarrow> acceptance_config \<Rightarrow> acceptance_decision" where
  "evaluate_acceptance r cfg =
     (let reasons = gate_reasons r cfg
      in if reasons = [] \<and> vr_outcome r \<noteq> OutcomeSuccess
         then \<lparr>ad_accepted = False, ad_reasons = [''OUTCOME_NOT_SUCCESS'']\<rparr>
         else \<lparr>ad_accepted = (reasons = []), ad_reasons = reasons\<rparr>)"

lemma reason_if_Nil [simp]: "reason_if b code = [] \<longleftrightarrow> \<not> b"
  by (simp add: reason_if_def)

lemma drc_progress_Nil:
  "drc_progress_reasons r = [] \<longleftrightarrow>
     (\<exists>n. vr_residual_violation_count r = Some n \<and> n < vr_baseline_residual_count r)"
  by (auto simp: drc_progress_reasons_def split: option.splits)

lemma evaluate_acceptance_reasons: "ad_accepted (evaluate_acceptance r cfg) \<longleftrightarrow> ad_reasons (evaluate_acceptance r cfg) = []"
  by (simp add: evaluate_acceptance_def Let_def)

lemma evaluate_acceptance_iff:
  "ad_accepted (evaluate_acceptance r cfg) \<longleftrightarrow>
     vr_outcome r = OutcomeSuccess \<and>
     (protocol_p32 (vr_execution_protocol_version r) \<longrightarrow> vr_fresh_evidence_valid r) \<and>
     vr_script_valid r = Some True \<and> vr_gds_sanity_pass r = Some True \<and>
     (acc_require_connectivity cfg \<longrightarrow> vr_connectivity_preserved r = Some True) \<and>
     vr_timing_gate_pass r \<noteq> Some False \<and>
     (acc_require_drc_progress cfg \<longrightarrow>
        (\<exists>n. vr_residual_violation_count r = Some n \<and> n < vr_baseline_residual_count r)) \<and>
     (acc_reject_new_violations cfg \<longrightarrow> vr_new_violation_count r \<in> {None, Some 0})"
proof -
  have z: "opt_or_zero k = 0 \<longleftrightarrow> k \<in> {None, Some 0}" for k
    by (auto simp: opt_or_zero_def split: option.splits)
  have gates: "gate_reasons r cfg = [] \<longleftrightarrow>
     (protocol_p32 (vr_execution_protocol_version r) \<longrightarrow> vr_fresh_evidence_valid r) \<and>
     vr_script_valid r = Some True \<and> vr_gds_sanity_pass r = Some True \<and>
     (acc_require_connectivity cfg \<longrightarrow> vr_connectivity_preserved r = Some True) \<and>
     vr_timing_gate_pass r \<noteq> Some False \<and>
     (acc_require_drc_progress cfg \<longrightarrow>
        (\<exists>n. vr_residual_violation_count r = Some n \<and> n < vr_baseline_residual_count r)) \<and>
     (acc_reject_new_violations cfg \<longrightarrow> vr_new_violation_count r \<in> {None, Some 0})"
    unfolding gate_reasons_def by (simp add: drc_progress_Nil z)
  have "ad_accepted (evaluate_acceptance r cfg) \<longleftrightarrow> vr_outcome r = OutcomeSuccess \<and> gate_reasons r cfg = []"
    by (cases "gate_reasons r cfg = []") (simp_all add: evaluate_acceptance_def Let_def)
  then show ?thesis unfolding gates .
qed

subsection \<open>The order on snapshots\<close>

definition snapshot_verified :: "verification_result \<Rightarrow> bool" where
  "snapshot_verified r \<longleftrightarrow> vr_connectivity_preserved r = Some True \<and>
     vr_new_violation_count r \<noteq> None \<and> vr_residual_violation_count r \<noteq> None"

definition snapshot_key :: "verification_result \<Rightarrow> int \<Rightarrow> int \<Rightarrow> int \<times> int \<times> int \<times> int \<times> int" where
  "snapshot_key r disturbance cost =
     ((if vr_connectivity_preserved r = Some True then 1 else 0),
      - the (vr_new_violation_count r), - the (vr_residual_violation_count r), - disturbance, - cost)"

definition is_better_snapshot ::
    "verification_result \<Rightarrow> verification_result option \<Rightarrow> int \<Rightarrow> int \<Rightarrow> int \<Rightarrow> int \<Rightarrow> bool" where
  "is_better_snapshot candidate best candidate_disturbance best_disturbance candidate_cost best_cost \<longleftrightarrow>
     (if \<not> snapshot_verified candidate then False
      else case best of
        None \<Rightarrow> True
      | Some b \<Rightarrow>
          if \<not> snapshot_verified b then True
          else snapshot_key candidate candidate_disturbance candidate_cost >
               snapshot_key b best_disturbance best_cost)"

text \<open>The comparison of two snapshots with their disturbance and cost is a strict weak order.\<close>

definition better :: "verification_result \<times> int \<times> int \<Rightarrow> verification_result \<times> int \<times> int \<Rightarrow> bool" where
  "better a b = (case (a, b) of ((r, d, c), (r', d', c')) \<Rightarrow> is_better_snapshot r (Some r') d d' c c')"

lemma better_iff:
  "better (r, d, c) (r', d', c') \<longleftrightarrow> snapshot_verified r \<and>
     (\<not> snapshot_verified r' \<or> snapshot_key r' d' c' < snapshot_key r d c)"
  by (simp add: better_def is_better_snapshot_def)

lemma better_irrefl: "\<not> better a a"
  by (cases a) (auto simp: better_iff)

lemma better_trans: "better a b \<Longrightarrow> better b c \<Longrightarrow> better a c"
proof -
  assume ab: "better a b" and bc: "better b c"
  obtain r1 d1 c1 where a: "a = (r1, d1, c1)" by (cases a)
  obtain r2 d2 c2 where b: "b = (r2, d2, c2)" by (cases b)
  obtain r3 d3 c3 where c: "c = (r3, d3, c3)" by (cases c)
  show ?thesis
    using ab bc less_trans [of "snapshot_key r3 d3 c3" "snapshot_key r2 d2 c2" "snapshot_key r1 d1 c1"]
    unfolding a b c better_iff by blast
qed

lemma better_negatively_trans: "\<not> better a b \<Longrightarrow> \<not> better b c \<Longrightarrow> \<not> better a c"
proof -
  assume ab: "\<not> better a b" and bc: "\<not> better b c"
  obtain r1 d1 c1 where a: "a = (r1, d1, c1)" by (cases a)
  obtain r2 d2 c2 where b: "b = (r2, d2, c2)" by (cases b)
  obtain r3 d3 c3 where c: "c = (r3, d3, c3)" by (cases c)
  show ?thesis
    using ab bc le_less_trans [of "snapshot_key r2 d2 c2" "snapshot_key r3 d3 c3" "snapshot_key r1 d1 c1"]
      less_le_trans [of "snapshot_key r3 d3 c3" "snapshot_key r1 d1 c1" "snapshot_key r2 d2 c2"]
    unfolding a b c better_iff by (meson leI less_trans not_less_iff_gr_or_eq)
qed

text \<open>Fewer new violations come first, then a smaller residue, then disturbance, then cost.\<close>

lemma better_components:
  assumes "better (r, d, c) (r', d', c')" "snapshot_verified r'"
  shows "the (vr_new_violation_count r) < the (vr_new_violation_count r') \<or>
    (the (vr_new_violation_count r) = the (vr_new_violation_count r') \<and>
      (the (vr_residual_violation_count r) < the (vr_residual_violation_count r') \<or>
       the (vr_residual_violation_count r) = the (vr_residual_violation_count r') \<and>
        (d < d' \<or> d = d' \<and> c < c')))"
  using assms unfolding better_iff snapshot_key_def snapshot_verified_def by (auto simp: less_prod_simp)

subsection \<open>Stopping\<close>

definition stopping_condition ::
    "int \<Rightarrow> bool \<Rightarrow> int \<Rightarrow> int \<Rightarrow> int \<Rightarrow> int \<Rightarrow> bool \<Rightarrow> bool \<Rightarrow> bool \<Rightarrow> stopping_status" where
  "stopping_condition residual_count connectivity_preserved iteration max_iterations
       no_progress max_no_progress all_noop budget_exhausted integrity_failure =
     (if integrity_failure then StopIntegrityFailure
      else if residual_count = 0 \<and> connectivity_preserved then StopDrcClean
      else if all_noop then StopAllNoop
      else if no_progress \<ge> max_no_progress then StopNoProgress
      else if iteration \<ge> max_iterations then StopMaxIterations
      else if budget_exhausted then StopBudgetExhausted
      else StopContinue)"

lemma stopping_continue_iff:
  "stopping_condition residual conn i mi np mnp noop budget integrity = StopContinue \<longleftrightarrow>
     \<not> integrity \<and> \<not> (residual = 0 \<and> conn) \<and> \<not> noop \<and> np < mnp \<and> i < mi \<and> \<not> budget"
  by (auto simp: stopping_condition_def)

lemma stopping_clean_iff:
  "stopping_condition residual conn i mi np mnp noop budget integrity = StopDrcClean \<longleftrightarrow>
     \<not> integrity \<and> residual = 0 \<and> conn"
  by (auto simp: stopping_condition_def)

subsection \<open>Repair targets among the pending violations\<close>

definition rule_by_violation :: "violation_record list \<Rightarrow> (string \<times> string) list" where
  "rule_by_violation violations = dict_of (map (\<lambda>v. (v_violation_id v, v_rule_id v)) violations)"

definition unsupported_violation :: "violation_record list \<Rightarrow> string set \<Rightarrow> string \<Rightarrow> bool" where
  "unsupported_violation violations supported v =
     (case map_of (rule_by_violation violations) v of None \<Rightarrow> True | Some rule \<Rightarrow> rule \<notin> supported)"

definition partition_supported_pending_frontier ::
    "violation_record list \<Rightarrow> string set \<Rightarrow> bool \<Rightarrow> string set \<Rightarrow>
     string set \<times> string set \<times> (string \<rightharpoonup> string)" where
  "partition_supported_pending_frontier violations pending integration_enabled supported_rule_ids =
     (if \<not> integration_enabled \<or> supported_rule_ids = {} then (pending, {}, Map.empty)
      else let skipped = Set.filter (unsupported_violation violations supported_rule_ids) pending
      in (pending - skipped, skipped,
          (\<lambda>v. if v \<in> skipped then map_of (rule_by_violation violations) v else None)))"

lemma partition_supported_cover:
  assumes "partition_supported_pending_frontier violations pending enabled supported = (targets, skipped, rules)"
  shows "targets \<union> skipped = pending \<and> targets \<inter> skipped = {} \<and> dom rules \<subseteq> skipped \<and>
    (enabled \<and> supported \<noteq> {} \<longrightarrow>
      (\<forall>v \<in> targets. \<exists>rule \<in> supported. map_of (rule_by_violation violations) v = Some rule) \<and>
      (\<forall>v rule. rules v = Some rule \<longrightarrow> rule \<notin> supported))"
  using assms unfolding partition_supported_pending_frontier_def unsupported_violation_def Let_def
  by (auto split: if_splits option.splits)

section \<open>Properties of the policy\<close>

text \<open>
  \<open>evaluate_acceptance\<close> accepts a verification exactly when every gate that the configuration
  turns on holds, and it names a reason for every rejection. A count of new violations that is not
  known is not a reason.
\<close>

theorem acceptance_exact:
  "(ad_accepted (evaluate_acceptance r cfg) \<longleftrightarrow>
     vr_outcome r = OutcomeSuccess \<and>
     (\<not> protocol_p32 (vr_execution_protocol_version r) \<or> vr_fresh_evidence_valid r) \<and>
     vr_script_valid r = Some True \<and> vr_gds_sanity_pass r = Some True \<and>
     (\<not> acc_require_connectivity cfg \<or> vr_connectivity_preserved r = Some True) \<and>
     vr_timing_gate_pass r \<noteq> Some False \<and>
     (\<not> acc_require_drc_progress cfg \<or>
        (\<exists>n. vr_residual_violation_count r = Some n \<and> n < vr_baseline_residual_count r)) \<and>
     (\<not> acc_reject_new_violations cfg \<or> vr_new_violation_count r \<in> {None, Some 0})) \<and>
   (ad_accepted (evaluate_acceptance r cfg) \<longleftrightarrow> ad_reasons (evaluate_acceptance r cfg) = [])"
  using evaluate_acceptance_iff [of r cfg] evaluate_acceptance_reasons [of r cfg] by blast

text \<open>
  \<open>is_better_snapshot\<close> is a strict weak order on verified snapshots with their disturbance and
  cost, so keeping the better of two never cycles and does not depend on the order of the
  comparisons.
\<close>

theorem better_strict_weak_order:
  "\<not> better a a \<and>
   (\<not> better a b \<or> \<not> better b c \<or> better a c) \<and>
   (better a b \<or> better b c \<or> \<not> better a c)"
  using better_irrefl better_trans better_negatively_trans by blast

text \<open>
  The iteration goes on exactly while none of the stop conditions holds, so only below both
  bounds on iterations; a clean design is reported exactly when no violation remains, connectivity
  is preserved and no integrity failure occurred.
\<close>

theorem stopping_exact:
  "(stopping_condition residual conn i mi np mnp noop budget integrity = StopContinue \<longleftrightarrow>
     \<not> integrity \<and> \<not> (residual = 0 \<and> conn) \<and> \<not> noop \<and> np < mnp \<and> i < mi \<and> \<not> budget) \<and>
   (stopping_condition residual conn i mi np mnp noop budget integrity = StopDrcClean \<longleftrightarrow>
     \<not> integrity \<and> residual = 0 \<and> conn)"
  by (rule conjI [OF stopping_continue_iff stopping_clean_iff])

definition accepted_example :: verification_result where
  "accepted_example = new_verification_result ''v'' ''t'' OutcomeSuccess (Some True) (Some True) (Some True)
     9 (Some 4) (Some 0) (Some 5)"

lemma acceptance_exact_witness: "ad_accepted (evaluate_acceptance accepted_example default_acceptance_config)"
  using acceptance_exact [of accepted_example default_acceptance_config]
  by (simp add: accepted_example_def new_verification_result_def default_acceptance_config_def protocol_p32_def
      starts_with_def)

lemma better_strict_weak_order_witness:
  "better (accepted_example, 1, 0) (accepted_example, 3, 0)"
proof -
  have ab: "better (accepted_example, 1, 0) (accepted_example, 2, 0)"
    "better (accepted_example, 2, 0) (accepted_example, 3, 0)"
    by (simp_all add: better_iff accepted_example_def new_verification_result_def snapshot_verified_def
        snapshot_key_def)
  then show ?thesis
    using better_strict_weak_order [of "(accepted_example, 1, 0)" "(accepted_example, 2, 0)" "(accepted_example, 3, 0)"]
    by blast
qed

end
