(* ===== verification/Batching.thy ===== *)
theory Batching
  imports Workflow_Schemas Config
begin

text \<open>
  \<open>src/drc_agent/coordinator/batching.py\<close>: the scheduler that packs the repair bundles of a
  window into bounded transaction batches (\<open>TransactionBatchScheduler.schedule\<close>), and the
  attribution of a failed transaction to its candidates, with its replay search
  (\<open>FailureAttributor.attribute\<close>). The digest \<open>stable_hash\<close> is the parameter \<open>sh\<close>, the replay of a
  subset is the parameter \<open>replay\<close>.
\<close>

datatype attribution_quality =
    DirectCandidate
  | DirectSmallBundle
  | DeltaDebugged
  | BundleOnly
  | QualityUnknown

record attribution_result =
  at_attribution_id :: "string"
  at_transaction_id :: "string"
  at_quality :: "attribution_quality"
  at_candidate_ids :: "string list"
  at_removed_original_violation_ids :: "string list"
  at_new_violation_ids :: "string list"
  at_reproduced_candidate_ids :: "string list"
  at_replay_count :: "int"
  at_claims_candidate_causality :: "bool"

subsection \<open>Scheduling\<close>

text \<open>The bundles with a repair in them, in the order of their identifiers, with those repairs.\<close>

definition candidates_by_id :: "repair_candidate list \<Rightarrow> (string \<times> repair_candidate) list" where
  "candidates_by_id candidates = dict_of (map (\<lambda>c. (c_candidate_id c, c)) candidates)"

definition bundle_selection :: "repair_candidate list \<Rightarrow> joint_repair_bundle \<Rightarrow> repair_candidate list" where
  "bundle_selection candidates bundle =
     filter (\<lambda>c. \<not> is_noop c)
       (List.map_filter (map_of (candidates_by_id candidates)) (jb_selected_candidate_ids bundle))"

type_synonym pending_bundle = "string \<times> string list \<times> string set"

text \<open>A pending bundle: its identifier, the sorted candidate identifiers, the objects they touch.\<close>

definition pending_of :: "joint_repair_bundle \<Rightarrow> repair_candidate list \<Rightarrow> pending_bundle" where
  "pending_of bundle selected =
     (jb_bundle_id bundle, sort (map c_candidate_id selected),
      \<Union> (set (map (\<lambda>c. set (candidate_objects c)) selected)))"

definition pending_bundles ::
    "joint_repair_bundle list \<Rightarrow> repair_candidate list \<Rightarrow> pending_bundle list" where
  "pending_bundles bundles candidates =
     map (\<lambda>b. pending_of b (bundle_selection candidates b))
       (filter (\<lambda>b. bundle_selection candidates b \<noteq> []) (sort_key jb_bundle_id bundles))"

record batch_state =
  bs_batches :: "transaction_batch list"
  bs_bundles :: "string list"
  bs_candidates :: "string list"
  bs_objects :: "string set"

definition make_batch ::
    "(json \<Rightarrow> string) \<Rightarrow> string \<Rightarrow> transaction_config \<Rightarrow> batch_state \<Rightarrow> transaction_batch" where
  "make_batch sh snapshot_id config s =
     \<lparr>tb_batch_id = short_id sh ''batch_'' 16
        (JList [JStr snapshot_id, JList (map JStr (bs_bundles s)), JList (map JStr (bs_candidates s))]),
      tb_base_snapshot_id = Some snapshot_id,
      tb_candidate_ids = bs_candidates s,
      tb_non_noop_action_count = int (length (bs_candidates s)),
      tb_modified_object_count = int (card (bs_objects s)),
      tb_requires_replan_after_commit = txc_replan_after_each_commit config,
      tb_bundle_ids = bs_bundles s\<rparr>"

definition flush :: "(json \<Rightarrow> string) \<Rightarrow> string \<Rightarrow> transaction_config \<Rightarrow> batch_state \<Rightarrow> batch_state" where
  "flush sh snapshot_id config s =
     (if bs_bundles s = [] then s
      else \<lparr>bs_batches = bs_batches s @ [make_batch sh snapshot_id config s],
            bs_bundles = [], bs_candidates = [], bs_objects = {}\<rparr>)"

definition add_bundle :: "pending_bundle \<Rightarrow> batch_state \<Rightarrow> batch_state" where
  "add_bundle p s =
     (case p of (bid, cids, objs) \<Rightarrow>
       s\<lparr>bs_bundles := bs_bundles s @ [bid], bs_candidates := bs_candidates s @ cids,
         bs_objects := bs_objects s \<union> objs\<rparr>)"

definition oversized :: "transaction_config \<Rightarrow> pending_bundle \<Rightarrow> bool" where
  "oversized config p =
     (case p of (bid, cids, objs) \<Rightarrow>
       int (length cids) > txc_max_non_noop_actions_per_batch config \<or>
       int (card objs) > txc_max_modified_objects_per_batch config)"

definition overflows :: "transaction_config \<Rightarrow> batch_state \<Rightarrow> pending_bundle \<Rightarrow> bool" where
  "overflows config s p =
     (case p of (bid, cids, objs) \<Rightarrow>
       int (length (bs_candidates s) + length cids) > txc_max_non_noop_actions_per_batch config \<or>
       int (card (bs_objects s \<union> objs)) > txc_max_modified_objects_per_batch config)"

definition schedule_step ::
    "(json \<Rightarrow> string) \<Rightarrow> string \<Rightarrow> transaction_config \<Rightarrow> batch_state \<Rightarrow> pending_bundle \<Rightarrow> batch_state" where
  "schedule_step sh snapshot_id config s p =
     (if oversized config p then flush sh snapshot_id config s
      else if overflows config s p then add_bundle p (flush sh snapshot_id config s)
      else add_bundle p s)"

definition initial_batch_state :: batch_state where
  "initial_batch_state = \<lparr>bs_batches = [], bs_bundles = [], bs_candidates = [], bs_objects = {}\<rparr>"

definition schedule ::
    "(json \<Rightarrow> string) \<Rightarrow> joint_repair_bundle list \<Rightarrow> repair_candidate list \<Rightarrow> design_snapshot \<Rightarrow>
     transaction_config \<Rightarrow> transaction_batch list" where
  "schedule sh bundles candidates snapshot config =
     bs_batches (flush sh (ds_snapshot_id snapshot) config
       (foldl (schedule_step sh (ds_snapshot_id snapshot) config) initial_batch_state
         (pending_bundles bundles candidates)))"

subsubsection \<open>What the scheduler keeps\<close>

text \<open>A batch within the configured bounds, whose counts are those of its lists.\<close>

definition batch_ok :: "transaction_config \<Rightarrow> transaction_batch \<Rightarrow> bool" where
  "batch_ok config b \<longleftrightarrow>
     tb_bundle_ids b \<noteq> [] \<and>
     tb_non_noop_action_count b = int (length (tb_candidate_ids b)) \<and>
     tb_non_noop_action_count b \<le> txc_max_non_noop_actions_per_batch config \<and>
     tb_modified_object_count b \<le> txc_max_modified_objects_per_batch config \<and>
     tb_requires_replan_after_commit b = txc_replan_after_each_commit config"

definition state_ok :: "transaction_config \<Rightarrow> batch_state \<Rightarrow> bool" where
  "state_ok config s \<longleftrightarrow>
     (\<forall>b \<in> set (bs_batches s). batch_ok config b) \<and>
     (bs_bundles s = [] \<longrightarrow> bs_candidates s = [] \<and> bs_objects s = {}) \<and>
     (bs_bundles s \<noteq> [] \<longrightarrow>
        int (length (bs_candidates s)) \<le> txc_max_non_noop_actions_per_batch config \<and>
        int (card (bs_objects s)) \<le> txc_max_modified_objects_per_batch config)"

lemma flush_empty [simp]:
  "state_ok config s \<Longrightarrow> bs_bundles (flush sh sid config s) = [] \<and>
     bs_candidates (flush sh sid config s) = [] \<and> bs_objects (flush sh sid config s) = {}"
  by (simp add: flush_def state_ok_def)

lemma flush_ok [inv_intros]: "state_ok config s \<Longrightarrow> state_ok config (flush sh sid config s)"
  by (auto simp: flush_def state_ok_def batch_ok_def make_batch_def)

lemma add_bundle_ok:
  assumes "state_ok config s" "\<not> overflows config s p"
  shows "state_ok config (add_bundle p s)"
  using assms by (cases p) (auto simp: state_ok_def add_bundle_def overflows_def)

lemma not_oversized_fits: "state_ok config s \<Longrightarrow> \<not> oversized config p \<Longrightarrow>
    \<not> overflows config (flush sh sid config s) p"
  by (cases p) (simp add: oversized_def overflows_def)

lemma schedule_step_ok [inv_intros]:
  "state_ok config s \<Longrightarrow> state_ok config (schedule_step sh sid config s p)"
  unfolding schedule_step_def
  by (simp add: flush_ok add_bundle_ok not_oversized_fits)

lemma foldl_schedule_ok:
  "state_ok config s \<Longrightarrow> state_ok config (foldl (schedule_step sh sid config) s ps)"
  by (rule foldl_invariant [where P = "state_ok config"]) (auto intro: inv_intros)

lemma initial_ok: "state_ok config initial_batch_state"
  by (simp add: state_ok_def initial_batch_state_def)

lemma schedule_batches_ok: "b \<in> set (schedule sh bundles candidates snapshot config) \<Longrightarrow> batch_ok config b"
  using flush_ok [OF foldl_schedule_ok [OF initial_ok]]
  unfolding schedule_def state_ok_def by blast

text \<open>
  The bundles that a batch holds: a list of pending bundles, each with all its candidates, whose objects
  together are counted and bounded.
\<close>

definition packed_objects :: "pending_bundle list \<Rightarrow> string set" where
  "packed_objects g = \<Union> (set (map (\<lambda>(bid, cids, objs). objs) g))"

definition packed_candidates :: "pending_bundle list \<Rightarrow> string list" where
  "packed_candidates g = concat (map (\<lambda>(bid, cids, objs). cids) g)"

definition holds_group :: "string \<Rightarrow> transaction_config \<Rightarrow> pending_bundle list \<Rightarrow> transaction_batch \<Rightarrow> bool" where
  "holds_group sid config g b \<longleftrightarrow>
     g \<noteq> [] \<and> tb_base_snapshot_id b = Some sid \<and>
     tb_bundle_ids b = map fst g \<and> tb_candidate_ids b = packed_candidates g \<and>
     tb_non_noop_action_count b = int (length (packed_candidates g)) \<and>
     tb_modified_object_count b = int (card (packed_objects g)) \<and>
     int (length (packed_candidates g)) \<le> txc_max_non_noop_actions_per_batch config \<and>
     int (card (packed_objects g)) \<le> txc_max_modified_objects_per_batch config \<and>
     tb_requires_replan_after_commit b = txc_replan_after_each_commit config"

definition open_group :: "pending_bundle list \<Rightarrow> batch_state \<Rightarrow> bool" where
  "open_group g s \<longleftrightarrow>
     bs_bundles s = map fst g \<and> bs_candidates s = packed_candidates g \<and> bs_objects s = packed_objects g"

lemma open_group_add: "open_group g s \<Longrightarrow> open_group (g @ [p]) (add_bundle p s)"
  by (cases p) (auto simp: open_group_def add_bundle_def packed_candidates_def packed_objects_def)

lemma add_bundle_batches [simp]: "bs_batches (add_bundle p s) = bs_batches s"
  by (cases p) (simp add: add_bundle_def)

lemma flush_groups:
  assumes "state_ok config s" "open_group g s" "list_all2 (holds_group sid config) gs (bs_batches s)"
  obtains hs where "concat hs = concat gs @ g" "open_group [] (flush sh sid config s)"
    "list_all2 (holds_group sid config) hs (bs_batches (flush sh sid config s))"
proof (cases "bs_bundles s = []")
  case True
  then show thesis using that [of gs] assms by (auto simp: flush_def open_group_def)
next
  case False
  then have "holds_group sid config g (make_batch sh sid config s)"
    using assms(1,2) by (auto simp: holds_group_def make_batch_def open_group_def state_ok_def)
  then have "list_all2 (holds_group sid config) (gs @ [g]) (bs_batches (flush sh sid config s))"
    using assms(3) False by (simp add: flush_def list_all2_appendI)
  moreover have "open_group [] (flush sh sid config s)"
    using False by (simp add: flush_def open_group_def packed_candidates_def packed_objects_def)
  ultimately show thesis using that [of "gs @ [g]"] by simp
qed

text \<open>
  The batches and the open one hold, in order, exactly the bundles that fit: nothing is split, lost,
  duplicated or reordered.
\<close>

lemma schedule_steps_groups:
  "\<exists>gs g. concat gs @ g = filter (\<lambda>p. \<not> oversized config p) ps \<and>
    open_group g (foldl (schedule_step sh sid config) initial_batch_state ps) \<and>
    list_all2 (holds_group sid config) gs (bs_batches (foldl (schedule_step sh sid config) initial_batch_state ps))"
proof (induction ps rule: rev_induct)
  case Nil
  have "open_group [] initial_batch_state"
    by (simp add: open_group_def initial_batch_state_def packed_candidates_def packed_objects_def)
  then show ?case by (intro exI [of _ "[]"]) (simp add: initial_batch_state_def)
next
  case (snoc p ps)
  let ?s = "foldl (schedule_step sh sid config) initial_batch_state ps"
  obtain gs g where g: "concat gs @ g = filter (\<lambda>p. \<not> oversized config p) ps" "open_group g ?s"
    "list_all2 (holds_group sid config) gs (bs_batches ?s)" using snoc by blast
  obtain hs where h: "concat hs = concat gs @ g" "open_group [] (flush sh sid config ?s)"
    "list_all2 (holds_group sid config) hs (bs_batches (flush sh sid config ?s))"
    by (rule flush_groups [OF foldl_schedule_ok [OF initial_ok] g(2,3)])
  consider "oversized config p" | "\<not> oversized config p" "overflows config ?s p"
    | "\<not> oversized config p" "\<not> overflows config ?s p" by blast
  then show ?case
  proof cases
    case 1
    then have "schedule_step sh sid config ?s p = flush sh sid config ?s" by (simp add: schedule_step_def)
    then show ?thesis using 1 h g(1) by (intro exI [of _ hs] exI [of _ "[]"]) simp
  next
    case 2
    then have "schedule_step sh sid config ?s p = add_bundle p (flush sh sid config ?s)" by (simp add: schedule_step_def)
    then show ?thesis using 2 h(1,3) g(1) open_group_add [OF h(2), of p]
      by (intro exI [of _ hs] exI [of _ "[p]"]) simp
  next
    case 3
    then have "schedule_step sh sid config ?s p = add_bundle p ?s" by (simp add: schedule_step_def)
    moreover have "concat gs @ g @ [p] = filter (\<lambda>p. \<not> oversized config p) (ps @ [p])"
      using 3 g(1) by (simp flip: append_assoc)
    ultimately show ?thesis using g(3) open_group_add [OF g(2), of p]
      by (intro exI [of _ gs] exI [of _ "g @ [p]"]) simp
  qed
qed

lemma schedule_groups:
  "\<exists>gs. concat gs = filter (\<lambda>p. \<not> oversized config p) (pending_bundles bundles candidates) \<and>
    list_all2 (holds_group (ds_snapshot_id snapshot) config) gs (schedule sh bundles candidates snapshot config)"
proof -
  let ?sid = "ds_snapshot_id snapshot"
  let ?s = "foldl (schedule_step sh ?sid config) initial_batch_state (pending_bundles bundles candidates)"
  obtain gs g where g: "concat gs @ g = filter (\<lambda>p. \<not> oversized config p) (pending_bundles bundles candidates)"
    "open_group g ?s" "list_all2 (holds_group ?sid config) gs (bs_batches ?s)"
    using schedule_steps_groups by blast
  obtain hs where "concat hs = concat gs @ g" "list_all2 (holds_group ?sid config) hs (bs_batches (flush sh ?sid config ?s))"
    by (rule flush_groups [OF foldl_schedule_ok [OF initial_ok] g(2,3)])
  then show ?thesis using g(1) unfolding schedule_def by metis
qed

subsection \<open>Attribution\<close>

definition edit_anchors :: "repair_candidate \<Rightarrow> string set" where
  "edit_anchors c = \<Union> (set (map (\<lambda>e. set (ed_source_anchor_ids e)) (c_edits c)))"

fun source_disjoint_from :: "string set \<Rightarrow> string set \<Rightarrow> repair_candidate list \<Rightarrow> bool" where
  "source_disjoint_from seen_anchors seen_objects [] = True"
| "source_disjoint_from seen_anchors seen_objects (c # cs) =
     (if seen_anchors \<inter> edit_anchors c \<noteq> {} \<or> seen_objects \<inter> set (candidate_objects c) \<noteq> {}
      then False
      else source_disjoint_from (seen_anchors \<union> edit_anchors c)
             (seen_objects \<union> set (candidate_objects c)) cs)"

definition source_disjoint :: "repair_candidate list \<Rightarrow> bool" where
  "source_disjoint candidates = source_disjoint_from {} {} candidates"

text \<open>
  One round of the search replays the two halves: the result is the half that reproduced the
  failure, if any, and the replays done. The second half is not replayed once the budget is used
  up.
\<close>

definition replay_halves ::
    "(string list \<Rightarrow> bool) \<Rightarrow> int \<Rightarrow> string list \<Rightarrow> int \<Rightarrow> string list option \<times> int" where
  "replay_halves replay max_replays current n =
     (let midpoint = length current div 2;
          left = take midpoint current; right = drop midpoint current
      in if left = []
         then if right = [] then (None, n)
              else (if replay right then Some right else None, n + 1)
         else if replay left then (Some left, n + 1)
         else if n + 1 \<ge> max_replays then (None, n + 1)
         else if right = [] then (None, n + 1)
         else (if replay right then Some right else None, n + 2))"

lemma replay_halves_shorter:
  assumes "replay_halves replay m current n = (Some half, n')" "1 < length current"
  shows "length half < length current"
  using assms unfolding replay_halves_def Let_def by (auto split: if_splits)

function delta_debug ::
    "(string list \<Rightarrow> bool) \<Rightarrow> int \<Rightarrow> string list \<Rightarrow> int \<Rightarrow> string list \<times> int" where
  "delta_debug replay max_replays current n =
     (if length current > 1 \<and> n < max_replays
      then (case replay_halves replay max_replays current n of
              (None, n') \<Rightarrow> (current, n')
            | (Some half, n') \<Rightarrow> delta_debug replay max_replays half n')
      else (current, n))"
  by pat_completeness auto
termination
  by (relation "measure (\<lambda>(r, m, cur, n). length cur)") (auto dest: replay_halves_shorter [OF sym])

declare delta_debug.simps [simp del]

definition base_quality :: "string list \<Rightarrow> repair_candidate list \<Rightarrow> attribution_quality" where
  "base_quality ids candidates =
     (if length ids = 1 then DirectCandidate
      else if ids \<noteq> [] \<and> source_disjoint candidates then DirectSmallBundle
      else if ids \<noteq> [] then BundleOnly else QualityUnknown)"

definition quality_text :: "attribution_quality \<Rightarrow> string" where
  "quality_text q =
     (case q of DirectCandidate \<Rightarrow> ''DIRECT_CANDIDATE'' | DirectSmallBundle \<Rightarrow> ''DIRECT_SMALL_BUNDLE''
      | DeltaDebugged \<Rightarrow> ''DELTA_DEBUGGED'' | BundleOnly \<Rightarrow> ''BUNDLE_ONLY'' | QualityUnknown \<Rightarrow> ''UNKNOWN'')"

definition debug_search ::
    "attribution_config \<Rightarrow> (string list \<Rightarrow> bool) option \<Rightarrow> string list \<Rightarrow> string list \<times> int" where
  "debug_search config replay_subset ids =
     (case replay_subset of
        None \<Rightarrow> (ids, 0)
      | Some replay \<Rightarrow>
          if atc_enabled config \<and> atc_delta_debug_enabled config \<and> length ids > 1
          then delta_debug replay (atc_max_replays_per_failure config) ids 0 else (ids, 0))"

definition attribute ::
    "(json \<Rightarrow> string) \<Rightarrow> string \<Rightarrow> repair_candidate list \<Rightarrow> verification_result \<Rightarrow>
     attribution_config \<Rightarrow> (string list \<Rightarrow> bool) option \<Rightarrow> attribution_result" where
  "attribute sh transaction_id candidates verification config replay_subset =
     (let ids = sort (map c_candidate_id candidates);
          (current, replays) = debug_search config replay_subset ids;
          narrowed = (current \<noteq> [] \<and> length current < length ids);
          quality = (if narrowed then DeltaDebugged else base_quality ids candidates);
          causal = (if narrowed then length current = 1 else length ids = 1)
      in \<lparr>at_attribution_id = short_id sh ''attribution_'' 16
            (JList [JStr transaction_id, JList (map JStr ids), JStr (quality_text quality)]),
          at_transaction_id = transaction_id,
          at_quality = quality,
          at_candidate_ids = ids,
          at_removed_original_violation_ids =
            (if causal then vr_removed_original_violation_ids verification else []),
          at_new_violation_ids = (if causal then vr_new_violation_ids verification else []),
          at_reproduced_candidate_ids = (if narrowed then current else []),
          at_replay_count = replays,
          at_claims_candidate_causality = causal\<rparr>)"

subsubsection \<open>What the attribution claims\<close>

definition share_source :: "repair_candidate \<Rightarrow> repair_candidate \<Rightarrow> bool" where
  "share_source c d \<longleftrightarrow> edit_anchors c \<inter> edit_anchors d \<noteq> {} \<or>
     set (candidate_objects c) \<inter> set (candidate_objects d) \<noteq> {}"

lemma source_disjoint_from_iff:
  "source_disjoint_from sa so cs \<longleftrightarrow>
     (\<forall>c \<in> set cs. sa \<inter> edit_anchors c = {} \<and> so \<inter> set (candidate_objects c) = {}) \<and>
     sorted_wrt (\<lambda>c d. \<not> share_source c d) cs"
proof (induction cs arbitrary: sa so)
  case (Cons c cs)
  show ?case
    unfolding source_disjoint_from.simps Cons.IH share_source_def
    by (simp add: Int_Un_distrib2) blast
qed simp

lemma source_disjoint_iff: "source_disjoint cs \<longleftrightarrow> sorted_wrt (\<lambda>c d. \<not> share_source c d) cs"
  by (simp add: source_disjoint_def source_disjoint_from_iff)

lemma replay_halves_cases:
  assumes h: "replay_halves replay m current n = (found, n')" and len: "1 < length current" and m: "n < m"
  shows "n < n'" "n' \<le> m"
    and "found = Some half \<Longrightarrow> replay half \<and> half \<noteq> [] \<and> length half < length current \<and>
       (\<exists>pre post. current = pre @ half @ post)"
proof -
  let ?l = "take (length current div 2) current" and ?r = "drop (length current div 2) current"
  have ne: "?l \<noteq> []" "?r \<noteq> []" using len by auto
  have parts: "current = [] @ ?l @ ?r" "current = ?l @ ?r @ []" by simp_all
  have eq: "(found, n') = (if replay ?l then (Some ?l, n + 1)
      else if n + 1 \<ge> m then (None, n + 1)
      else (if replay ?r then Some ?r else None, n + 2))"
    unfolding h [symmetric] replay_halves_def Let_def if_not_P [OF ne(1)] if_not_P [OF ne(2)] by simp
  from eq m show "n < n'" "n' \<le> m" by (auto split: if_splits)
  assume f: "found = Some half"
  have "replay half \<and> (half = ?l \<or> half = ?r)" using eq f by (auto split: if_splits)
  then show "replay half \<and> half \<noteq> [] \<and> length half < length current \<and> (\<exists>pre post. current = pre @ half @ post)"
    using ne parts replay_halves_shorter [OF h [unfolded f] len] by metis
qed

lemma delta_debug_sound:
  assumes "delta_debug replay m current n = (res, n')" "current \<noteq> []" "n \<le> max 0 m"
  shows "n \<le> n' \<and> n' \<le> max 0 m \<and> res \<noteq> [] \<and> (res = current \<or> replay res \<and> length res < length current) \<and>
    (\<exists>pre post. current = pre @ res @ post)"
  using assms
proof (induction replay m current n rule: delta_debug.induct)
  case (1 replay m current n)
  show ?case
  proof (cases "length current > 1 \<and> n < m")
    case False
    then have "res = current \<and> n' = n"
      using "1.prems"(1) by (simp add: delta_debug.simps split: if_splits)
    then show ?thesis using "1.prems" by (auto intro: exI [of _ "[]"])
  next
    case True
    obtain found k where h: "replay_halves replay m current n = (found, k)" by (cases "replay_halves replay m current n")
    note c = replay_halves_cases [OF h conjunct1 [OF True] conjunct2 [OF True]]
    show ?thesis
    proof (cases found)
      case None
      then have "res = current \<and> n' = k"
        using "1.prems"(1) True h by (simp add: delta_debug.simps)
      then show ?thesis using c(1,2) "1.prems" by (auto intro: exI [of _ "[]"])
    next
      case (Some half)
      have eq: "delta_debug replay m half k = (res, n')"
        using "1.prems"(1) True h Some by (subst (asm) delta_debug.simps) simp
      have half: "n < k" "k \<le> m" "replay half" "half \<noteq> []" "length half < length current"
        "\<exists>pre post. current = pre @ half @ post"
        using c(1,2) c(3) [OF Some] by auto
      have "k \<le> n' \<and> n' \<le> max 0 m \<and> res \<noteq> [] \<and> (res = half \<or> replay res \<and> length res < length half) \<and>
          (\<exists>pre post. half = pre @ res @ post)"
        using "1.IH" [OF True h [symmetric] Some eq half(4)] half(2) by simp
      moreover have "\<exists>pre post. current = pre @ res @ post" if "half = pre @ res @ post" for pre post
        using half(6) that by (metis append.assoc)
      ultimately show ?thesis using half by auto
    qed
  qed
qed

lemma debug_search_sound:
  assumes "debug_search config replay ids = (res, n')" "0 \<le> atc_max_replays_per_failure config"
  shows "0 \<le> n' \<and> n' \<le> atc_max_replays_per_failure config \<and>
    (res = ids \<or> (\<exists>r. replay = Some r \<and> r res \<and> res \<noteq> [] \<and> length res < length ids \<and>
       (\<exists>pre post. ids = pre @ res @ post)))"
proof -
  show ?thesis
  proof (cases "\<exists>r. replay = Some r \<and> atc_enabled config \<and> atc_delta_debug_enabled config \<and> length ids > 1")
    case True
    then obtain r where r: "replay = Some r" "length ids > 1"
      "delta_debug r (atc_max_replays_per_failure config) ids 0 = (res, n')"
      using assms(1) by (auto simp: debug_search_def)
    then have "ids \<noteq> []" by auto
    from delta_debug_sound [OF r(3) this] assms(2) r(1) show ?thesis by auto
  next
    case False
    then have "res = ids \<and> n' = 0"
      using assms(1) by (auto simp: debug_search_def split: option.splits if_splits)
    then show ?thesis using assms(2) by simp
  qed
qed

section \<open>Properties of scheduling and attribution\<close>

text \<open>What the bundles of the input stand for: the objects that a bundle touches, and those that fit in a batch.\<close>

definition bundle_objects :: "repair_candidate list \<Rightarrow> joint_repair_bundle \<Rightarrow> string set" where
  "bundle_objects candidates bundle = (\<Union>c \<in> set (bundle_selection candidates bundle). set (candidate_objects c))"

definition schedulable :: "transaction_config \<Rightarrow> repair_candidate list \<Rightarrow> joint_repair_bundle \<Rightarrow> bool" where
  "schedulable config candidates bundle \<longleftrightarrow>
     bundle_selection candidates bundle \<noteq> [] \<and>
     int (length (bundle_selection candidates bundle)) \<le> txc_max_non_noop_actions_per_batch config \<and>
     int (card (bundle_objects candidates bundle)) \<le> txc_max_modified_objects_per_batch config"

lemma pending_schedulable:
  "filter (\<lambda>p. \<not> oversized config p) (pending_bundles bundles candidates) =
   map (\<lambda>b. pending_of b (bundle_selection candidates b))
     (filter (schedulable config candidates) (sort_key jb_bundle_id bundles))"
  unfolding pending_bundles_def filter_map filter_filter
  by (rule arg_cong [where f = "map _"], rule filter_cong)
    (auto simp: schedulable_def oversized_def pending_of_def bundle_objects_def)

lemma concat_eq_map:
  "concat gs = map f xs \<Longrightarrow> \<exists>hs. gs = map (map f) hs \<and> concat hs = xs"
proof (induction gs arbitrary: xs)
  case (Cons g gs)
  then obtain ys zs where xs: "xs = ys @ zs" "g = map f ys" "concat gs = map f zs"
    by (auto simp: append_eq_map_conv)
  from Cons.IH [OF xs(3)] obtain hs where "gs = map (map f) hs" "concat hs = zs" by blast
  then show ?case using xs by (intro exI [of _ "ys # hs"]) simp
qed simp

text \<open>
  C26. \<open>schedule\<close> packs the bundles that select a repair and fit in a batch by themselves, in the order
  of their identifiers, into consecutive groups, one for each batch; the others wait for a later plan. A
  batch lists the bundles of its group and all the repairs that they select, bundle by bundle, so that no
  bundle is split, lost or repeated. The counts that it reports are the number of these repairs and the
  number of distinct objects that they touch; both respect the configured bounds. It is based on the
  given snapshot.
\<close>

theorem schedule_bounded_and_complete:
  "\<exists>groups. concat groups = filter (schedulable config candidates) (sort_key jb_bundle_id bundles) \<and>
     list_all2 (\<lambda>g b. g \<noteq> [] \<and> tb_base_snapshot_id b = Some (ds_snapshot_id snapshot) \<and>
         tb_bundle_ids b = map jb_bundle_id g \<and>
         tb_candidate_ids b = concat (map (\<lambda>bundle. sort (map c_candidate_id (bundle_selection candidates bundle))) g) \<and>
         tb_non_noop_action_count b = int (length (tb_candidate_ids b)) \<and>
         tb_modified_object_count b = int (card (\<Union>bundle \<in> set g. bundle_objects candidates bundle)) \<and>
         tb_non_noop_action_count b \<le> txc_max_non_noop_actions_per_batch config \<and>
         tb_modified_object_count b \<le> txc_max_modified_objects_per_batch config \<and>
         tb_requires_replan_after_commit b = txc_replan_after_each_commit config)
       groups (schedule sh bundles candidates snapshot config)"
proof -
  obtain gs where gs: "concat gs = filter (\<lambda>p. \<not> oversized config p) (pending_bundles bundles candidates)"
    "list_all2 (holds_group (ds_snapshot_id snapshot) config) gs (schedule sh bundles candidates snapshot config)"
    using schedule_groups by blast
  obtain hs where hs: "gs = map (map (\<lambda>b. pending_of b (bundle_selection candidates b))) hs"
    "concat hs = filter (schedulable config candidates) (sort_key jb_bundle_id bundles)"
    using concat_eq_map [OF gs(1) [unfolded pending_schedulable]] by blast
  show ?thesis
    by (rule exI [of _ hs], intro conjI hs(2),
        rule list_all2_mono [OF gs(2) [unfolded hs(1) list.rel_map(1)]])
      (simp add: holds_group_def packed_candidates_def packed_objects_def pending_of_def bundle_objects_def comp_def)
qed

text \<open>
  C29. The attribution names the candidates of the transaction. It claims that a candidate caused the
  failure exactly when a single one is left: the transaction had only one (which needs no replay), or
  the replays narrowed it down to one; without a claim no violation is blamed on anybody. Candidates
  that are named as reproducing the failure are a proper, non-empty part of the transaction, in its
  order, and the failure did occur in a replay of exactly them. Without a replay function none is
  named, and never are more replays run than configured.
\<close>

theorem attribution_sound:
  fixes config :: attribution_config and candidates :: "repair_candidate list" and verification :: verification_result
    and replay :: "(string list \<Rightarrow> bool) option" and sh :: "json \<Rightarrow> string" and tid :: string
  assumes "0 \<le> atc_max_replays_per_failure config"
  defines "r \<equiv> attribute sh tid candidates verification config replay"
  shows "at_candidate_ids r = sort (map c_candidate_id candidates) \<and>
    0 \<le> at_replay_count r \<and> at_replay_count r \<le> atc_max_replays_per_failure config \<and>
    at_claims_candidate_causality r =
      (if at_reproduced_candidate_ids r = [] then length candidates = 1 else length (at_reproduced_candidate_ids r) = 1) \<and>
    at_removed_original_violation_ids r =
      (if at_claims_candidate_causality r then vr_removed_original_violation_ids verification else []) \<and>
    at_new_violation_ids r = (if at_claims_candidate_causality r then vr_new_violation_ids verification else []) \<and>
    (at_reproduced_candidate_ids r = [] \<or>
       (\<exists>f pre post. replay = Some f \<and> f (at_reproduced_candidate_ids r) \<and>
         at_candidate_ids r = pre @ at_reproduced_candidate_ids r @ post \<and>
         length (at_reproduced_candidate_ids r) < length candidates)) \<and>
    (at_quality r = DeltaDebugged) = (at_reproduced_candidate_ids r \<noteq> [])"
proof -
  let ?ids = "sort (map c_candidate_id candidates)"
  have len: "length ?ids = length candidates" by simp
  obtain cur n where d: "debug_search config replay ?ids = (cur, n)" by (cases "debug_search config replay ?ids")
  have "at_candidate_ids r = ?ids" "at_replay_count r = n"
    "at_reproduced_candidate_ids r = (if cur \<noteq> [] \<and> length cur < length ?ids then cur else [])"
    "at_claims_candidate_causality r =
      (if cur \<noteq> [] \<and> length cur < length ?ids then length cur = 1 else length ?ids = 1)"
    "at_removed_original_violation_ids r =
      (if at_claims_candidate_causality r then vr_removed_original_violation_ids verification else [])"
    "at_new_violation_ids r = (if at_claims_candidate_causality r then vr_new_violation_ids verification else [])"
    "at_quality r = (if cur \<noteq> [] \<and> length cur < length ?ids then DeltaDebugged else base_quality ?ids candidates)"
    unfolding r_def attribute_def Let_def d by simp_all
  moreover have "base_quality ?ids candidates \<noteq> DeltaDebugged" by (simp add: base_quality_def)
  ultimately show ?thesis using debug_search_sound [OF d assms(1)] unfolding len by (auto split: if_splits)
qed

text \<open>Three candidates, of which the second one makes every transaction fail that holds it.\<close>

definition replay_config :: attribution_config where
  "replay_config = default_attribution_config\<lparr>atc_delta_debug_enabled := True\<rparr>"

lemma debug_example: "debug_search replay_config (Some (\<lambda>xs. ''c2'' \<in> set xs)) [''c1'', ''c2'', ''c3''] = ([''c2''], 3)"
  by code_simp

lemma attribution_sound_witness:
  "\<forall>c v. (let r = attribute (\<lambda>_. ''0'') ''t'' (map (\<lambda>i. c\<lparr>c_candidate_id := i\<rparr>) [''c1'', ''c2'', ''c3'']) v
      replay_config (Some (\<lambda>xs. ''c2'' \<in> set xs)) in
    at_reproduced_candidate_ids r = [''c2''] \<and> at_replay_count r = 3 \<and> at_claims_candidate_causality r \<and>
    at_new_violation_ids r = vr_new_violation_ids v)"
proof (intro allI)
  fix c :: repair_candidate and v
  let ?cs = "map (\<lambda>i. c\<lparr>c_candidate_id := i\<rparr>) [''c1'', ''c2'', ''c3'']"
  let ?r = "attribute (\<lambda>_. ''0'') ''t'' ?cs v replay_config (Some (\<lambda>xs. ''c2'' \<in> set xs))"
  have "sort (map c_candidate_id ?cs) = [''c1'', ''c2'', ''c3'']" by (simp add: sorted_sort_id)
  then have "at_reproduced_candidate_ids ?r = [''c2'']" "at_replay_count ?r = 3"
    unfolding attribute_def Let_def debug_example by (simp_all add: debug_example)
  then show "let r = ?r in at_reproduced_candidate_ids r = [''c2''] \<and> at_replay_count r = 3 \<and>
      at_claims_candidate_causality r \<and> at_new_violation_ids r = vr_new_violation_ids v"
    using attribution_sound [of replay_config "\<lambda>_. ''0''" "''t''" ?cs v "Some (\<lambda>xs. ''c2'' \<in> set xs)"]
    by (simp add: Let_def replay_config_def default_attribution_config_def)
qed

end
