(* ===== verification/Union_Find.thy ===== *)
theory Union_Find
  imports Prelude
begin

text \<open>
  The union-find structure that \<open>src/drc_agent/regions/builder.py\<close> and
  \<open>src/drc_agent/regions/connectivity.py\<close> each define (\<open>_UnionFind\<close>; the code is the same): a
  dictionary \<open>parent\<close>, \<open>find\<close> with path halving, \<open>union\<close> that hangs the larger root below the
  smaller, and \<open>groups\<close>. The operations mutate the dictionary, so each returns the new one.

  \<open>find\<close> runs until it meets a root: it is a partial function, whose value \<open>None\<close> stands for a loop
  that does not end and for a \<open>KeyError\<close>. On every dictionary that the operations build both are
  excluded (\<open>uf_find_total\<close>).

  The locale \<open>disjoint_sets\<close> is what the clients use of it; their lemmas are proved in the locale,
  and the structure above is its interpretation.
\<close>

type_synonym 'a parents = "('a \<times> 'a) list"

subsection \<open>The operations\<close>

definition uf_init :: "'a list \<Rightarrow> 'a parents" where
  "uf_init ids = dict_of (map (\<lambda>i. (i, i)) ids)"

partial_function (option) uf_find :: "'a parents \<Rightarrow> 'a \<Rightarrow> ('a parents \<times> 'a) option" where
  "uf_find p item =
     (case map_of p item of
        None \<Rightarrow> None
      | Some up \<Rightarrow>
          if up = item then Some (p, item)
          else (case map_of p up of
                  None \<Rightarrow> None
                | Some up2 \<Rightarrow> uf_find (dict_set item up2 p) up2))"

declare uf_find.simps [code]

definition uf_union :: "'a::linorder parents \<Rightarrow> 'a \<Rightarrow> 'a \<Rightarrow> 'a parents option" where
  "uf_union p left right =
     (case uf_find p left of
        None \<Rightarrow> None
      | Some (p1, a) \<Rightarrow>
          (case uf_find p1 right of
             None \<Rightarrow> None
           | Some (p2, b) \<Rightarrow>
               if a = b then Some p2
               else if b < a then Some (dict_set a b p2)
               else Some (dict_set b a p2)))"

text \<open>\<open>for item in xs: \<dots> self.find(item) \<dots>\<close>: the roots of a list, threading the structure.\<close>

fun find_all :: "('s \<Rightarrow> 'a \<Rightarrow> ('s \<times> 'a) option) \<Rightarrow> 's \<Rightarrow> 'a list \<Rightarrow> ('s \<times> 'a list) option" where
  "find_all fnd s [] = Some (s, [])"
| "find_all fnd s (x # xs) =
     (case fnd s x of
        None \<Rightarrow> None
      | Some (s1, r) \<Rightarrow>
          (case find_all fnd s1 xs of None \<Rightarrow> None | Some (s2, rs) \<Rightarrow> Some (s2, r # rs)))"

text \<open>\<open>groups\<close>: the items by root, in the order in which the roots are met.\<close>

definition grouped :: "('s \<Rightarrow> 'a \<Rightarrow> ('s \<times> 'a) option) \<Rightarrow> 's \<Rightarrow> 'a list \<Rightarrow> ('s \<times> 'a list list) option" where
  "grouped fnd s items =
     (case find_all fnd s items of
        None \<Rightarrow> None
      | Some (s', roots) \<Rightarrow> Some (s', map (map snd \<circ> snd) (group_by fst (zip roots items))))"

definition uf_groups :: "'a::linorder parents \<Rightarrow> ('a parents \<times> 'a list list) option" where
  "uf_groups p = grouped uf_find p (py_sorted (set (map fst p)))"

text \<open>\<open>for left, right in edges: union.union(left, right)\<close>.\<close>

fun union_all :: "('s \<Rightarrow> 'a \<Rightarrow> 'a \<Rightarrow> 's option) \<Rightarrow> 's \<Rightarrow> ('a \<times> 'a) list \<Rightarrow> 's option" where
  "union_all uni s [] = Some s"
| "union_all uni s ((l, r) # es) =
     (case uni s l r of None \<Rightarrow> None | Some t \<Rightarrow> union_all uni t es)"

subsection \<open>The structure\<close>

definition up :: "'a parents \<Rightarrow> 'a \<Rightarrow> 'a" where
  "up p x = (case map_of p x of None \<Rightarrow> x | Some y \<Rightarrow> y)"

definition uf_keys :: "'a parents \<Rightarrow> 'a set" where
  "uf_keys p = fst ` set p"

text \<open>A parent is a key and not larger: so the chain of parents ends.\<close>

definition uf_inv :: "'a::linorder parents \<Rightarrow> bool" where
  "uf_inv p \<longleftrightarrow> distinct (map fst p) \<and> (\<forall>x \<in> uf_keys p. up p x \<in> uf_keys p \<and> up p x \<le> x)"

definition uf_root :: "'a parents \<Rightarrow> 'a \<Rightarrow> 'a" where
  "uf_root p x = (up p ^^ length p) x"

lemma finite_keys [simp]: "finite (uf_keys p)"
  by (simp add: uf_keys_def)

lemma lookup_key: "x \<in> uf_keys p \<Longrightarrow> map_of p x = Some (up p x)"
  by (metis map_of_eq_None_iff option.case_eq_if option.collapse up_def uf_keys_def)

lemma uf_inv_up: "uf_inv p \<Longrightarrow> x \<in> uf_keys p \<Longrightarrow> up p x \<in> uf_keys p \<and> up p x \<le> x"
  by (simp add: uf_inv_def)

lemma uf_less_induct [consumes 1, case_names less]:
  fixes p :: "'a::linorder parents"
  assumes "x \<in> uf_keys p"
    and "\<And>x. x \<in> uf_keys p \<Longrightarrow> (\<And>y. y \<in> uf_keys p \<Longrightarrow> y < x \<Longrightarrow> P y) \<Longrightarrow> P x"
  shows "P x"
  using assms(1)
proof (induction "card {z \<in> uf_keys p. z < x}" arbitrary: x rule: less_induct)
  case less
  show ?case
  proof (rule assms(2) [OF less.prems])
    fix y assume y: "y \<in> uf_keys p" "y < x"
    then have "{z \<in> uf_keys p. z < y} \<subset> {z \<in> uf_keys p. z < x}"
      by (auto intro: less_trans)
    then have "card {z \<in> uf_keys p. z < y} < card {z \<in> uf_keys p. z < x}"
      by (rule psubset_card_mono [rotated]) simp
    then show "P y" by (rule less.hyps [OF _ y(1)])
  qed
qed

lemma up_fixed_funpow: "up p x = x \<Longrightarrow> (up p ^^ n) x = x"
  by (induction n) auto

lemma up_funpow_fixed:
  assumes "uf_inv p" "x \<in> uf_keys p"
  shows "card {z \<in> uf_keys p. z < x} \<le> n \<Longrightarrow> up p ((up p ^^ n) x) = (up p ^^ n) x"
  using assms(2)
proof (induction n arbitrary: x)
  case 0
  then have "{z \<in> uf_keys p. z < x} = {}" by simp
  then have "up p x = x" using uf_inv_up [OF assms(1) "0.prems"(2)] by (auto simp: less_le)
  then show ?case by simp
next
  case (Suc n)
  show ?case
  proof (cases "up p x = x")
    case True
    then show ?thesis by (simp add: up_fixed_funpow)
  next
    case False
    note u = uf_inv_up [OF assms(1) Suc.prems(2)]
    then have lt: "up p x < x" using False by (simp add: less_le)
    then have "{z \<in> uf_keys p. z < up p x} \<subset> {z \<in> uf_keys p. z < x}"
      using u by (auto intro: less_trans)
    then have "card {z \<in> uf_keys p. z < up p x} < card {z \<in> uf_keys p. z < x}"
      by (rule psubset_card_mono [rotated]) simp
    then have "up p ((up p ^^ n) (up p x)) = (up p ^^ n) (up p x)"
      using Suc.IH [of "up p x"] Suc.prems u by simp
    then show ?thesis by (simp only: funpow_Suc_right o_apply)
  qed
qed

lemma card_keys_le: "card {z \<in> uf_keys p. z < x} \<le> length p"
  by (metis (no_types, lifting) card_image_le card_length card_mono finite_keys le_trans length_map
      mem_Collect_eq set_map subsetI uf_keys_def)

lemma uf_root_fixed: "uf_inv p \<Longrightarrow> x \<in> uf_keys p \<Longrightarrow> up p (uf_root p x) = uf_root p x"
  unfolding uf_root_def by (rule up_funpow_fixed) (simp_all add: card_keys_le)

lemma uf_root_up: "uf_inv p \<Longrightarrow> x \<in> uf_keys p \<Longrightarrow> uf_root p (up p x) = uf_root p x"
  using uf_root_fixed [of p x] by (simp add: uf_root_def funpow_swap1)

lemma uf_root_self: "up p x = x \<Longrightarrow> uf_root p x = x"
  by (simp add: uf_root_def up_fixed_funpow)

lemma uf_root_in: "uf_inv p \<Longrightarrow> x \<in> uf_keys p \<Longrightarrow> uf_root p x \<in> uf_keys p \<and> uf_root p x \<le> x"
proof -
  assume inv: "uf_inv p" and x: "x \<in> uf_keys p"
  have "(up p ^^ n) x \<in> uf_keys p \<and> (up p ^^ n) x \<le> x" for n
  proof (induction n)
    case (Suc n)
    then show ?case using uf_inv_up [OF inv] by (auto intro: order_trans)
  qed (use x in simp)
  then show ?thesis by (simp add: uf_root_def)
qed

text \<open>A dictionary with other parents but the same keys has the same roots, if its parents stay in their class.\<close>

lemma uf_root_same:
  assumes inv: "uf_inv p" "uf_inv q" and keys: "uf_keys q = uf_keys p"
    and cls: "\<And>z. z \<in> uf_keys p \<Longrightarrow> uf_root p (up q z) = uf_root p z"
    and fixed: "\<And>z. z \<in> uf_keys p \<Longrightarrow> up q z = z \<Longrightarrow> up p z = z"
    and x: "x \<in> uf_keys p"
  shows "uf_root q x = uf_root p x"
  using x
proof (induction x rule: uf_less_induct)
  case (less x)
  show ?case
  proof (cases "up q x = x")
    case True
    then show ?thesis using fixed less.hyps uf_root_self by metis
  next
    case False
    have u: "up q x \<in> uf_keys p" "up q x < x"
      using uf_inv_up [OF inv(2), of x] keys less.hyps False by auto
    have "uf_root q x = uf_root q (up q x)" using uf_root_up [OF inv(2)] keys less.hyps by simp
    also have "\<dots> = uf_root p (up q x)" by (rule less.IH [OF u])
    also have "\<dots> = uf_root p x" by (rule cls [OF less.hyps])
    finally show ?thesis .
  qed
qed

lemma up_dict_set: "up (dict_set x y p) z = (if z = x then y else up p z)"
  by (simp add: up_def)

lemma keys_set [simp]: "x \<in> uf_keys p \<Longrightarrow> uf_keys (dict_set x y p) = uf_keys p"
  by (auto simp: uf_keys_def keys_dict_set)

lemma uf_inv_set:
  "uf_inv p \<Longrightarrow> x \<in> uf_keys p \<Longrightarrow> y \<in> uf_keys p \<Longrightarrow> y \<le> x \<Longrightarrow> uf_inv (dict_set x y p)"
  by (simp add: uf_inv_def distinct_dict_set up_dict_set)

lemma halve:
  assumes "uf_inv p" "x \<in> uf_keys p" "up p x \<noteq> x"
  defines "q \<equiv> dict_set x (up p (up p x)) p"
  shows "uf_inv q" "uf_keys q = uf_keys p" "\<And>z. z \<in> uf_keys p \<Longrightarrow> uf_root q z = uf_root p z"
    "up p (up p x) \<in> uf_keys p" "up p (up p x) < x"
proof -
  note u = uf_inv_up [OF assms(1) assms(2)]
  note u2 = uf_inv_up [OF assms(1), of "up p x"]
  show lt: "up p (up p x) \<in> uf_keys p" "up p (up p x) < x"
    using u u2 assms(3) by auto
  show q: "uf_inv q" "uf_keys q = uf_keys p"
    unfolding q_def using uf_inv_set [OF assms(1,2) lt(1)] lt assms(2) by auto
  show "uf_root q z = uf_root p z" if "z \<in> uf_keys p" for z
  proof (rule uf_root_same [OF assms(1) q(1) q(2) _ _ that])
    fix z assume z: "z \<in> uf_keys p"
    show "uf_root p (up q z) = uf_root p z"
      using uf_root_up [OF assms(1)] u z assms(2) by (simp add: q_def up_dict_set)
    show "up q z = z \<Longrightarrow> up p z = z"
      using lt by (auto simp: q_def up_dict_set split: if_splits)
  qed
qed

lemma uf_find_total:
  assumes "x \<in> uf_keys p" "uf_inv p"
  shows "\<exists>q. uf_find p x = Some (q, uf_root p x) \<and> uf_inv q \<and> uf_keys q = uf_keys p \<and>
    (\<forall>z \<in> uf_keys p. uf_root q z = uf_root p z)"
proof -
  have "p' \<in> {q. uf_inv q \<and> uf_keys q = uf_keys p} \<Longrightarrow>
      \<exists>q. uf_find p' x = Some (q, uf_root p' x) \<and> uf_inv q \<and> uf_keys q = uf_keys p' \<and>
        (\<forall>z \<in> uf_keys p'. uf_root q z = uf_root p' z)" for p'
    using assms(1)
  proof (induction x arbitrary: p' rule: uf_less_induct)
    case (less x)
    then have p': "uf_inv p'" "uf_keys p' = uf_keys p" by auto
    then have x: "x \<in> uf_keys p'" using less.hyps by simp
    show ?case
    proof (cases "up p' x = x")
      case True
      then show ?thesis using x p' uf_root_self [OF True]
        by (subst uf_find.simps) (simp add: lookup_key)
    next
      case False
      note h = halve [OF p'(1) x False]
      define q where "q = dict_set x (up p' (up p' x)) p'"
      have step: "uf_find p' x = uf_find q (up p' (up p' x))"
        using x p' False uf_inv_up [OF p'(1) x]
        by (subst uf_find.simps) (simp add: lookup_key q_def)
      have r: "uf_root p' (up p' (up p' x)) = uf_root p' x"
        using uf_root_up [OF p'(1)] x uf_inv_up [OF p'(1) x] by simp
      have "\<exists>q'. uf_find q (up p' (up p' x)) = Some (q', uf_root q (up p' (up p' x))) \<and> uf_inv q' \<and>
          uf_keys q' = uf_keys q \<and> (\<forall>z \<in> uf_keys q. uf_root q' z = uf_root q z)"
        using less.IH [of "up p' (up p' x)" q] h p' unfolding q_def by simp
      then show ?thesis using step h r unfolding q_def by auto
    qed
  qed
  then show ?thesis using assms(2) by simp
qed

lemma link:
  assumes "uf_inv p" "a \<in> uf_keys p" "b \<in> uf_keys p" "up p a = a" "up p b = b" "a < b"
  defines "q \<equiv> dict_set b a p"
  shows "uf_inv q" "uf_keys q = uf_keys p"
    "\<And>z. z \<in> uf_keys p \<Longrightarrow> uf_root q z = (if uf_root p z = b then a else uf_root p z)"
proof -
  show q: "uf_inv q" "uf_keys q = uf_keys p"
    unfolding q_def using uf_inv_set [OF assms(1) assms(3) assms(2)] assms(3,6) by simp_all
  have ra: "uf_root q a = a" using assms(4,6) by (intro uf_root_self) (simp add: q_def up_dict_set)
  show "uf_root q z = (if uf_root p z = b then a else uf_root p z)" if "z \<in> uf_keys p" for z
    using that
  proof (induction z rule: uf_less_induct)
    case (less z)
    have step: "uf_root q z = uf_root q (up q z)"
      using uf_root_up [OF q(1)] q(2) less.hyps by simp
    consider "z = b" | "z \<noteq> b" "up p z = z" | "z \<noteq> b" "up p z < z"
      using uf_inv_up [OF assms(1) less.hyps] by (auto simp: less_le)
    then show ?case
    proof cases
      case 1
      then show ?thesis using step ra assms(5) by (simp add: q_def up_dict_set uf_root_self)
    next
      case 2
      have "up q z = z" using 2 by (simp add: q_def up_dict_set)
      then show ?thesis using 2 by (simp add: uf_root_self)
    next
      case 3
      have "uf_root q (up p z) = (if uf_root p (up p z) = b then a else uf_root p (up p z))"
        using less.IH [OF _ 3(2)] uf_inv_up [OF assms(1) less.hyps] by blast
      then show ?thesis
        using 3 step uf_root_up [OF assms(1) less.hyps] by (simp add: q_def up_dict_set)
    qed
  qed
qed

lemma uf_union_total:
  assumes inv: "uf_inv p" and x: "x \<in> uf_keys p" and y: "y \<in> uf_keys p"
  shows "\<exists>q. uf_union p x y = Some q \<and> uf_inv q \<and> uf_keys q = uf_keys p \<and>
    (\<forall>z \<in> uf_keys p. uf_root q z =
       (if uf_root p z \<in> {uf_root p x, uf_root p y} then min (uf_root p x) (uf_root p y) else uf_root p z))"
proof -
  let ?a = "uf_root p x" and ?b = "uf_root p y"
  obtain p1 where p1: "uf_find p x = Some (p1, ?a)" "uf_inv p1" "uf_keys p1 = uf_keys p"
    "\<forall>z \<in> uf_keys p. uf_root p1 z = uf_root p z"
    using uf_find_total [OF x inv] by blast
  obtain p2 where p2: "uf_find p1 y = Some (p2, ?b)" "uf_inv p2" "uf_keys p2 = uf_keys p"
    "\<forall>z \<in> uf_keys p. uf_root p2 z = uf_root p z"
    using uf_find_total [of y p1] y p1 by metis
  have k: "?a \<in> uf_keys p2" "?b \<in> uf_keys p2"
    using uf_root_in [OF inv] x y p2(3) by auto
  have f: "up p2 ?a = ?a" "up p2 ?b = ?b"
    using uf_root_fixed [OF p2(2)] x y p2(3,4) by metis+
  have u: "uf_union p x y = (if ?a = ?b then Some p2
      else if ?b < ?a then Some (dict_set ?a ?b p2) else Some (dict_set ?b ?a p2))"
    by (simp add: uf_union_def p1(1) p2(1))
  consider "?a = ?b" | "?b < ?a" | "?a < ?b" by (meson linorder_cases)
  then show ?thesis
  proof cases
    case 1
    then show ?thesis using u p2 by auto
  next
    case 2
    note l = link [OF p2(2) k(2) k(1) f(2) f(1) 2]
    have e: "uf_union p x y = Some (dict_set ?a ?b p2)"
      using u 2 less_imp_neq [OF 2] by (simp add: eq_commute)
    have m: "min ?a ?b = ?b" using 2 by simp
    show ?thesis unfolding m using e l p2(3,4) by simp
  next
    case 3
    note l = link [OF p2(2) k(1) k(2) f(1) f(2) 3]
    have e: "uf_union p x y = Some (dict_set ?b ?a p2)"
      using u 3 less_imp_neq [OF 3] less_not_sym [OF 3] by simp
    have m: "min ?a ?b = ?a" using 3 by simp
    show ?thesis unfolding m using e l p2(3,4) by simp
  qed
qed

lemma uf_init_facts:
  "uf_keys (uf_init ids) = set ids" "uf_inv (uf_init ids)" "uf_root (uf_init ids) x = x"
proof -
  show k: "uf_keys (uf_init ids) = set ids"
    unfolding uf_keys_def uf_init_def keys_dict_of by (simp add: image_image)
  have "map_of (uf_init ids) z = Some y \<Longrightarrow> y = z" for y z
    by (auto simp: uf_init_def map_of_dict_of rev_map map_of_map_restrict restrict_map_def
        split: if_splits)
  then have u: "up (uf_init ids) z = z" for z by (auto simp: up_def split: option.splits)
  then show "uf_inv (uf_init ids)" "uf_root (uf_init ids) x = x"
    by (simp_all add: uf_inv_def uf_root_self) (simp add: uf_init_def)
qed

subsection \<open>The interface\<close>

locale disjoint_sets =
  fixes fnd :: "'s \<Rightarrow> 'a \<Rightarrow> ('s \<times> 'a) option"
    and uni :: "'s \<Rightarrow> 'a \<Rightarrow> 'a \<Rightarrow> 's option"
    and inv :: "'s \<Rightarrow> bool"
    and keys :: "'s \<Rightarrow> 'a set"
    and root :: "'s \<Rightarrow> 'a \<Rightarrow> 'a"
  assumes find_law: "inv s \<Longrightarrow> x \<in> keys s \<Longrightarrow>
      \<exists>t. fnd s x = Some (t, root s x) \<and> inv t \<and> keys t = keys s \<and> (\<forall>z \<in> keys s. root t z = root s z)"
    and union_law: "inv s \<Longrightarrow> l \<in> keys s \<Longrightarrow> r \<in> keys s \<Longrightarrow>
      \<exists>t. uni s l r = Some t \<and> inv t \<and> keys t = keys s \<and>
        (\<forall>x \<in> keys s. \<forall>y \<in> keys s. root t x = root t y \<longleftrightarrow>
           root s x = root s y \<or> root s x = root s l \<and> root s y = root s r \<or>
           root s x = root s r \<and> root s y = root s l)"
begin

lemma find_all_law:
  assumes "inv s" "set xs \<subseteq> keys s"
  shows "\<exists>t. find_all fnd s xs = Some (t, map (root s) xs) \<and> inv t \<and> keys t = keys s \<and>
    (\<forall>z \<in> keys s. root t z = root s z)"
  using assms
proof (induction xs arbitrary: s)
  case (Cons x xs)
  then have x: "x \<in> keys s" and xs: "set xs \<subseteq> keys s" by auto
  obtain t where t: "fnd s x = Some (t, root s x)" "inv t" "keys t = keys s" "\<forall>z \<in> keys s. root t z = root s z"
    using find_law [OF Cons.prems(1) x] by blast
  obtain t' where t': "find_all fnd t xs = Some (t', map (root t) xs)" "inv t'" "keys t' = keys t"
    "\<forall>z \<in> keys t. root t' z = root t z"
    using Cons.IH [OF t(2)] xs t(3) by auto
  have "map (root t) xs = map (root s) xs" using t(4) xs by (intro map_cong) auto
  then show ?case using t t' by simp
qed simp

text \<open>The groups are the classes: they hold every item once, and two items share a group iff they share their root.\<close>

lemma grouped_law:
  assumes "inv s" "set items \<subseteq> keys s"
  shows "\<exists>t groups. grouped fnd s items = Some (t, groups) \<and> inv t \<and> keys t = keys s \<and>
    (\<forall>z \<in> keys s. root t z = root s z) \<and>
    mset (concat groups) = mset items \<and> [] \<notin> set groups \<and>
    (\<forall>g \<in> set groups. \<exists>r. g = filter (\<lambda>x. root s x = r) items)"
proof -
  obtain t where t: "find_all fnd s items = Some (t, map (root s) items)" "inv t" "keys t = keys s"
    "\<forall>z \<in> keys s. root t z = root s z"
    using find_all_law [OF assms] by blast
  let ?gs = "group_by fst (zip (map (root s) items) items)"
  have z: "zip (map (root s) items) items = map (\<lambda>x. (root s x, x)) items"
    by (simp add: zip_map1 zip_same_conv_map)
  have g: "map snd (filter (\<lambda>x. fst x = r) (map (\<lambda>x. (root s x, x)) xs)) = filter (\<lambda>x. root s x = r) xs" for r xs
    by (induction xs) auto
  have one: "\<exists>r. map snd ys = filter (\<lambda>x. root s x = r) items \<and> map snd ys \<noteq> []"
    if "(k, ys) \<in> set ?gs" for k ys
  proof -
    have "k \<in> fst ` set (map (\<lambda>x. (root s x, x)) items)"
      "ys = filter (\<lambda>x. fst x = k) (map (\<lambda>x. (root s x, x)) items)"
      using that unfolding z group_by_entry by auto
    then show ?thesis using g [of k items] by (auto simp: filter_empty_conv)
  qed
  have "concat (map (map snd \<circ> snd) ?gs) = map snd (concat (map snd ?gs))"
    by (simp add: map_concat comp_def)
  then have "mset (concat (map (map snd \<circ> snd) ?gs)) = image_mset snd (mset (concat (map snd ?gs)))"
    by simp
  also have "\<dots> = mset items"
    unfolding mset_group_by z by (induction items) simp_all
  finally have m: "mset (concat (map (map snd \<circ> snd) ?gs)) = mset items" .
  show ?thesis
    using t m one by (intro exI [of _ t] exI [of _ "map (map snd \<circ> snd) ?gs"]) (fastforce simp: grouped_def)
qed

definition same_class :: "'s \<Rightarrow> ('a \<times> 'a) set" where
  "same_class s = {(x, y). x \<in> keys s \<and> y \<in> keys s \<and> root s x = root s y}"

lemma same_class_closed: "(x, y) \<in> (same_class s)\<^sup>* \<Longrightarrow> x \<in> keys s \<Longrightarrow> (x, y) \<in> same_class s"
  by (induction rule: rtrancl_induct) (auto simp: same_class_def)

lemma union_same_class:
  assumes "inv s" "l \<in> keys s" "r \<in> keys s" "uni s l r = Some t"
  shows "inv t" "keys t = keys s"
    "same_class t \<subseteq> (same_class s \<union> {(l, r), (r, l)})\<^sup>*"
    "same_class s \<union> {(l, r), (r, l)} \<subseteq> same_class t"
proof -
  obtain t' where t': "uni s l r = Some t'" "inv t'" "keys t' = keys s"
    "\<forall>x \<in> keys s. \<forall>y \<in> keys s. root t' x = root t' y \<longleftrightarrow>
           root s x = root s y \<or> root s x = root s l \<and> root s y = root s r \<or>
           root s x = root s r \<and> root s y = root s l"
    using union_law [OF assms(1-3)] by blast
  then have t: "t' = t" using assms(4) by simp
  show "inv t" "keys t = keys s" using t' t by auto
  show "same_class s \<union> {(l, r), (r, l)} \<subseteq> same_class t"
    using t' assms(2,3) unfolding t by (auto simp: same_class_def)
  show "same_class t \<subseteq> (same_class s \<union> {(l, r), (r, l)})\<^sup>*" (is "_ \<subseteq> ?R\<^sup>*")
  proof (rule subrelI)
    fix x y assume "(x, y) \<in> same_class t"
    then have xy: "x \<in> keys s" "y \<in> keys s" "root t x = root t y" using t' t by (auto simp: same_class_def)
    then consider "root s x = root s y" | "root s x = root s l" "root s y = root s r"
      | "root s x = root s r" "root s y = root s l"
      using t'(4) t by blast
    then show "(x, y) \<in> ?R\<^sup>*"
    proof cases
      case 1
      then show ?thesis using xy by (intro r_into_rtrancl) (simp add: same_class_def)
    next
      case 2
      have "(x, l) \<in> ?R" "(l, r) \<in> ?R" "(r, y) \<in> ?R" using 2 xy assms(2,3) by (auto simp: same_class_def)
      then show ?thesis by (meson converse_rtrancl_into_rtrancl r_into_rtrancl)
    next
      case 3
      have "(x, r) \<in> ?R" "(r, l) \<in> ?R" "(l, y) \<in> ?R" using 3 xy assms(2,3) by (auto simp: same_class_def)
      then show ?thesis by (meson converse_rtrancl_into_rtrancl r_into_rtrancl)
    qed
  qed
qed

text \<open>After the unions of a list of edges the classes are the connected components.\<close>

lemma union_all_law:
  assumes "inv s" "\<forall>(l, r) \<in> set es. l \<in> keys s \<and> r \<in> keys s"
  shows "\<exists>t. union_all uni s es = Some t \<and> inv t \<and> keys t = keys s \<and>
    (\<forall>x \<in> keys s. \<forall>y \<in> keys s. root t x = root t y \<longleftrightarrow>
       (x, y) \<in> (same_class s \<union> set es \<union> (set es)\<inverse>)\<^sup>*)"
  using assms
proof (induction es arbitrary: s)
  case Nil
  have "(x, y) \<in> (same_class s)\<^sup>* \<longleftrightarrow> root s x = root s y" if "x \<in> keys s" "y \<in> keys s" for x y
    using same_class_closed [of x y s] that by (auto simp: same_class_def)
  then show ?case using Nil by simp
next
  case (Cons e es)
  obtain l r where e: "e = (l, r)" by (cases e)
  have lr: "l \<in> keys s" "r \<in> keys s" using Cons.prems(2) e by auto
  obtain u where u: "uni s l r = Some u" using union_law [OF Cons.prems(1) lr] by blast
  note f = union_same_class [OF Cons.prems(1) lr u]
  obtain t where t: "union_all uni u es = Some t" "inv t" "keys t = keys u"
    "\<forall>x \<in> keys u. \<forall>y \<in> keys u. root t x = root t y \<longleftrightarrow> (x, y) \<in> (same_class u \<union> set es \<union> (set es)\<inverse>)\<^sup>*"
    using Cons.IH [OF f(1)] Cons.prems(2) f(2) by auto
  let ?A = "same_class s \<union> {(l, r), (r, l)}" and ?B = "set es \<union> (set es)\<inverse>"
  have "(same_class u \<union> ?B)\<^sup>* = (?A \<union> ?B)\<^sup>*"
  proof (rule equalityI)
    show "(same_class u \<union> ?B)\<^sup>* \<subseteq> (?A \<union> ?B)\<^sup>*"
    proof (rule rtrancl_subset_rtrancl)
      have "same_class u \<subseteq> (?A \<union> ?B)\<^sup>*"
        using f(3) rtrancl_mono [of ?A "?A \<union> ?B"] by blast
      then show "same_class u \<union> ?B \<subseteq> (?A \<union> ?B)\<^sup>*" by auto
    qed
    show "(?A \<union> ?B)\<^sup>* \<subseteq> (same_class u \<union> ?B)\<^sup>*"
      using f(4) by (intro rtrancl_mono) blast
  qed
  moreover have "?A \<union> ?B = same_class s \<union> set (e # es) \<union> (set (e # es))\<inverse>"
    using e by auto
  ultimately show ?case using t u f(2) e by (simp add: Un_assoc)
qed

end

interpretation uf: disjoint_sets uf_find uf_union uf_inv uf_keys uf_root
proof
  fix s :: "'a parents" and x :: 'a
  assume "uf_inv s" "x \<in> uf_keys s"
  then show "\<exists>t. uf_find s x = Some (t, uf_root s x) \<and> uf_inv t \<and> uf_keys t = uf_keys s \<and>
      (\<forall>z \<in> uf_keys s. uf_root t z = uf_root s z)"
    using uf_find_total by blast
next
  fix s :: "'a parents" and l r :: 'a
  assume a: "uf_inv s" "l \<in> uf_keys s" "r \<in> uf_keys s"
  obtain t where t: "uf_union s l r = Some t" "uf_inv t" "uf_keys t = uf_keys s"
    "\<forall>z \<in> uf_keys s. uf_root t z =
       (if uf_root s z \<in> {uf_root s l, uf_root s r} then min (uf_root s l) (uf_root s r) else uf_root s z)"
    using uf_union_total [OF a] by blast
  have "uf_root t x = uf_root t y \<longleftrightarrow>
      uf_root s x = uf_root s y \<or> uf_root s x = uf_root s l \<and> uf_root s y = uf_root s r \<or>
      uf_root s x = uf_root s r \<and> uf_root s y = uf_root s l"
    if "x \<in> uf_keys s" "y \<in> uf_keys s" for x y
    using t(4) that by (auto simp: min_def)
  then show "\<exists>t. uf_union s l r = Some t \<and> uf_inv t \<and> uf_keys t = uf_keys s \<and>
      (\<forall>x \<in> uf_keys s. \<forall>y \<in> uf_keys s. uf_root t x = uf_root t y \<longleftrightarrow>
         uf_root s x = uf_root s y \<or> uf_root s x = uf_root s l \<and> uf_root s y = uf_root s r \<or>
         uf_root s x = uf_root s r \<and> uf_root s y = uf_root s l)"
    using t by blast
qed

section \<open>Properties of the structure\<close>

text \<open>
  C27. Starting from singletons, the unions of a list of edges always succeed (no \<open>KeyError\<close>, and every
  \<open>find\<close> returns although it follows and rewrites parent links), and then two items have the same
  root exactly when the edges connect them.
\<close>

theorem union_find_components:
  assumes "\<forall>(l, r) \<in> set es. l \<in> set ids \<and> r \<in> set ids"
  shows "\<exists>p. union_all uf_union (uf_init ids) es = Some p \<and>
    (\<forall>x \<in> set ids. \<exists>q. uf_find p x = Some (q, uf_root p x)) \<and>
    (\<forall>x \<in> set ids. \<forall>y \<in> set ids. uf_root p x = uf_root p y \<longleftrightarrow> (x, y) \<in> (set es \<union> (set es)\<inverse>)\<^sup>*)"
proof -
  have e: "\<forall>(l, r) \<in> set es. l \<in> uf_keys (uf_init ids) \<and> r \<in> uf_keys (uf_init ids)"
    using assms by (simp add: uf_init_facts)
  obtain p where p: "union_all uf_union (uf_init ids) es = Some p" "uf_inv p" "uf_keys p = set ids"
    "\<forall>x \<in> set ids. \<forall>y \<in> set ids. uf_root p x = uf_root p y \<longleftrightarrow>
       (x, y) \<in> (uf.same_class (uf_init ids) \<union> set es \<union> (set es)\<inverse>)\<^sup>*"
    using uf.union_all_law [OF uf_init_facts(2) e] by (auto simp: uf_init_facts)
  have "uf.same_class (uf_init ids) \<subseteq> Id"
    unfolding uf.same_class_def by (auto simp: uf_init_facts)
  then have "(uf.same_class (uf_init ids) \<union> set es \<union> (set es)\<inverse>)\<^sup>* = (set es \<union> (set es)\<inverse>)\<^sup>*"
    by (intro equalityI rtrancl_subset_rtrancl rtrancl_mono) auto
  then show ?thesis using p uf_find_total [OF _ p(2)] by metis
qed

lemma union_find_components_witness:
  "\<exists>p. union_all uf_union (uf_init [''a'', ''b'', ''c'']) [(''c'', ''b'')] = Some p \<and>
    (\<forall>x \<in> set [''a'', ''b'', ''c'']. \<exists>q. uf_find p x = Some (q, uf_root p x)) \<and>
    (\<forall>x \<in> set [''a'', ''b'', ''c'']. \<forall>y \<in> set [''a'', ''b'', ''c'']. uf_root p x = uf_root p y \<longleftrightarrow>
       (x, y) \<in> (set [(''c'', ''b'')] \<union> (set [(''c'', ''b'')])\<inverse>)\<^sup>*)"
  by (rule union_find_components) simp

end
