(* ===== verification/Connectivity_Map.thy ===== *)
theory Connectivity_Map
  imports Union_Find Layout_Schemas
begin

text \<open>
  The mapping of layout objects to connectivity components
  (\<open>map_connectivity_components\<close> of \<open>src/drc_agent/regions/connectivity.py\<close>). The parsed
  connectivity file is the list of its \<open>paths\<close>, each a dictionary; \<open>read_endpoint\<close> follows the
  conversions that the code applies to an endpoint: a \<open>KeyError\<close>, \<open>TypeError\<close> or \<open>ValueError\<close> makes
  the endpoint unmatched, an \<open>IndexError\<close> (a point with fewer than two coordinates) is not caught
  and ends the mapping. Texts are ASCII.
\<close>

record mapping_report =
  mr_evidence_level :: "string"
  mr_named_net_available :: "bool"
  mr_source_format :: "string"
  mr_object_count :: "int"
  mr_endpoint_count :: "int"
  mr_uniquely_matched_endpoint_count :: "int"
  mr_ambiguous_endpoint_count :: "int"
  mr_mapped_object_count :: "int"
  mr_unavailable_object_count :: "int"
  mr_component_count :: "int"
  mr_mapped_object_ids :: "string list"

subsection \<open>Keys of geometry\<close>

definition endpoint_polygon :: "(int \<times> int) list \<Rightarrow> (int \<times> int) list" where
  "endpoint_polygon values =
     (if values = [] then []
      else let rs = rotations values @ rotations (rev values) in min_by id (hd rs) (tl rs))"

type_synonym geometry_key = "int \<times> (int \<times> int) list"

definition object_key :: "layout_object \<Rightarrow> geometry_key option" where
  "object_key item =
     (case (lo_layer_number item, lo_geometry_dbu item) of
        (Some n, Some pts) \<Rightarrow>
          (if lo_routing_type item \<noteq> Some ''routing'' \<or> pts = [] then None
           else Some (n, endpoint_polygon (map (\<lambda>p. (pt_x p, pt_y p)) pts)))
      | _ \<Rightarrow> None)"

text \<open>\<open>index\<close>: the object identifiers of each key.\<close>

definition geometry_index :: "layout_object list \<Rightarrow> geometry_key \<Rightarrow> string list" where
  "geometry_index objects key =
     map lo_object_id (filter (\<lambda>item. object_key item = Some key) objects)"

subsection \<open>Reading an endpoint\<close>

definition blank :: "char \<Rightarrow> bool" where
  "blank c \<longleftrightarrow> (let n = of_char c :: nat in (9 \<le> n \<and> n \<le> 13) \<or> (28 \<le> n \<and> n \<le> 32))"

definition strip :: "string \<Rightarrow> string" where
  "strip s = rev (dropWhile blank (rev (dropWhile blank s)))"

definition digit_value :: "char \<Rightarrow> int option" where
  "digit_value c = (let n = of_char c :: int in if 48 \<le> n \<and> n \<le> 57 then Some (n - 48) else None)"

text \<open>Digits with single underscores between them.\<close>

fun read_digits :: "int \<Rightarrow> string \<Rightarrow> int option" where
  "read_digits acc [] = Some acc"
| "read_digits acc (c # cs) =
     (case digit_value c of
        Some d \<Rightarrow> read_digits (10 * acc + d) cs
      | None \<Rightarrow>
          if c = CHR ''_'' \<and> cs \<noteq> [] \<and> digit_value (hd cs) \<noteq> None then read_digits acc cs else None)"

definition read_unsigned :: "string \<Rightarrow> int option" where
  "read_unsigned s = (if s = [] \<or> digit_value (hd s) = None then None else read_digits 0 s)"

definition int_of_text :: "string \<Rightarrow> int option" where
  "int_of_text s =
     (case strip s of
        [] \<Rightarrow> None
      | c # cs \<Rightarrow>
          if c = CHR ''-'' then map_option uminus (read_unsigned cs)
          else if c = CHR ''+'' then read_unsigned cs
          else read_unsigned (c # cs))"

text \<open>\<open>int(v)\<close>; \<open>None\<close> is the \<open>TypeError\<close> or \<open>ValueError\<close>.\<close>

fun py_int :: "json \<Rightarrow> int option" where
  "py_int (JInt i) = Some i"
| "py_int (JBool b) = Some (if b then 1 else 0)"
| "py_int (JReal r) = Some (truncate_real r)"
| "py_int (JStr s) = int_of_text s"
| "py_int _ = None"

text \<open>\<open>v[i]\<close> for \<open>i\<close> 0 or 1: \<open>Inl\<close> is the \<open>IndexError\<close>, \<open>Inr None\<close> an error that is caught.\<close>

definition json_index :: "json \<Rightarrow> nat \<Rightarrow> json option result" where
  "json_index v i =
     (case v of
        JList xs \<Rightarrow> if i < length xs then Inr (Some (xs ! i)) else Inl IndexError
      | JStr s \<Rightarrow> if i < length s then Inr (Some (JStr [s ! i])) else Inl IndexError
      | _ \<Rightarrow> Inr None)"

definition json_iter :: "json \<Rightarrow> json list option" where
  "json_iter v =
     (case v of
        JList xs \<Rightarrow> Some xs
      | JStr s \<Rightarrow> Some (map (\<lambda>c. JStr [c]) s)
      | JObj kvs \<Rightarrow> Some (map (\<lambda>kv. JStr (fst kv)) kvs)
      | _ \<Rightarrow> None)"

text \<open>\<open>int(point[i])\<close>.\<close>

definition coordinate :: "json \<Rightarrow> nat \<Rightarrow> int option result" where
  "coordinate p i = bind_result (json_index p i) (\<lambda>v. Inr (Option.bind v py_int))"

fun read_points :: "json list \<Rightarrow> (int \<times> int) list option result" where
  "read_points [] = Inr (Some [])"
| "read_points (p # ps) =
     bind_result (coordinate p 0) (\<lambda>x.
       case x of None \<Rightarrow> Inr None
       | Some x \<Rightarrow> bind_result (coordinate p 1) (\<lambda>y.
           case y of None \<Rightarrow> Inr None
           | Some y \<Rightarrow> bind_result (read_points ps) (\<lambda>rest. Inr (map_option (Cons (x, y)) rest))))"

definition read_endpoint :: "json \<Rightarrow> geometry_key option result" where
  "read_endpoint endpoint =
     (case endpoint of
        JObj kvs \<Rightarrow>
          (case Option.bind (map_of kvs ''layer'') py_int of
             None \<Rightarrow> Inr None
           | Some layer \<Rightarrow>
               (case Option.bind (map_of kvs ''points'') json_iter of
                  None \<Rightarrow> Inr None
                | Some ps \<Rightarrow> bind_result (read_points ps)
                    (\<lambda>pts. Inr (map_option (\<lambda>pts. (layer, endpoint_polygon pts)) pts))))
      | _ \<Rightarrow> Inr None)"

subsection \<open>Matching the endpoints\<close>

record match_state =
  ms_paths :: "(string option \<times> string option) list"
  ms_ids :: "string set"
  ms_ambiguous :: "int"
  ms_endpoints :: "int"
  ms_unique :: "int"

definition initial_match :: match_state where
  "initial_match = \<lparr>ms_paths = [], ms_ids = {}, ms_ambiguous = 0, ms_endpoints = 0, ms_unique = 0\<rparr>"

definition match_endpoint ::
    "(geometry_key \<Rightarrow> string list) \<Rightarrow> json \<Rightarrow> match_state \<Rightarrow> (match_state \<times> string option) result" where
  "match_endpoint index endpoint s =
     bind_result (read_endpoint endpoint) (\<lambda>key.
       let s1 = s\<lparr>ms_endpoints := ms_endpoints s + 1\<rparr>
       in case key of
            None \<Rightarrow> Inr (s1, None)
          | Some key \<Rightarrow>
              (case index key of
                 [m] \<Rightarrow> Inr (s1\<lparr>ms_ids := insert m (ms_ids s1), ms_unique := ms_unique s1 + 1\<rparr>, Some m)
               | ms \<Rightarrow> Inr (s1\<lparr>ms_ambiguous := ms_ambiguous s1 + (if length ms > 1 then 1 else 0)\<rparr>, None)))"

definition or_dict :: "json option \<Rightarrow> json" where
  "or_dict v = (case v of None \<Rightarrow> JObj [] | Some j \<Rightarrow> if json_truthy j then j else JObj [])"

definition match_path ::
    "(geometry_key \<Rightarrow> string list) \<Rightarrow> match_state \<Rightarrow> (string \<times> json) list \<Rightarrow> match_state result" where
  "match_path index s path =
     bind_result (match_endpoint index (or_dict (map_of path ''start'')) s) (\<lambda>(s1, a).
       bind_result (match_endpoint index (or_dict (map_of path ''end'')) s1) (\<lambda>(s2, b).
         Inr (s2\<lparr>ms_paths := ms_paths s2 @ [(a, b)]\<rparr>)))"

fun match_paths ::
    "(geometry_key \<Rightarrow> string list) \<Rightarrow> match_state \<Rightarrow> (string \<times> json) list list \<Rightarrow> match_state result" where
  "match_paths index s [] = Inr s"
| "match_paths index s (path # paths) =
     bind_result (match_path index s path) (\<lambda>s1. match_paths index s1 paths)"

subsection \<open>Components\<close>

definition path_edges :: "(string option \<times> string option) list \<Rightarrow> (string \<times> string) list" where
  "path_edges paths =
     List.map_filter (\<lambda>p. case p of (Some l, Some r) \<Rightarrow> Some (l, r) | _ \<Rightarrow> None) paths"

definition component_groups :: "match_state \<Rightarrow> string list list option" where
  "component_groups s =
     (let ids = py_sorted (ms_ids s)
      in case union_all uf_union (uf_init ids) (path_edges (ms_paths s)) of
           None \<Rightarrow> None
         | Some p \<Rightarrow> map_option snd (grouped uf_find p ids))"

definition component_id :: "(json \<Rightarrow> string) \<Rightarrow> string list \<Rightarrow> string" where
  "component_id sh values = short_id sh ''cc_'' 20 (JList (map JStr (sort values)))"

definition component_by_object :: "(json \<Rightarrow> string) \<Rightarrow> string list list \<Rightarrow> (string \<times> string) list" where
  "component_by_object sh groups =
     dict_of (concat (map (\<lambda>vs. map (\<lambda>i. (i, component_id sh vs)) vs) groups))"

definition map_object :: "(string \<times> string) list \<Rightarrow> layout_object \<Rightarrow> layout_object" where
  "map_object components item =
     (case map_of components (lo_object_id item) of
        None \<Rightarrow> item
      | Some cid \<Rightarrow> item\<lparr>lo_net_id := Some cid, lo_net_mapping_quality := NetConnectivityComponent,
                        lo_connectivity_component_id := Some cid\<rparr>)"

definition make_report :: "layout_object list \<Rightarrow> match_state \<Rightarrow> (string \<times> string) list \<Rightarrow> mapping_report" where
  "make_report objects s components =
     \<lparr>mr_evidence_level = ''CONNECTIVITY_COMPONENT_EXACT_GEOMETRY'',
      mr_named_net_available = False,
      mr_source_format = ''DAC26_GOLDEN_PATH_ENDPOINTS'',
      mr_object_count = int (length objects),
      mr_endpoint_count = ms_endpoints s,
      mr_uniquely_matched_endpoint_count = ms_unique s,
      mr_ambiguous_endpoint_count = ms_ambiguous s,
      mr_mapped_object_count = int (length components),
      mr_unavailable_object_count = int (length objects) - int (length components),
      mr_component_count = int (card (set (map snd components))),
      mr_mapped_object_ids = py_sorted (set (map fst components))\<rparr>"

definition map_connectivity_components ::
    "(json \<Rightarrow> string) \<Rightarrow> layout_object list \<Rightarrow> (string \<times> json) list list \<Rightarrow>
     (layout_object list \<times> mapping_report) result" where
  "map_connectivity_components sh objects paths =
     bind_result (match_paths (geometry_index objects) initial_match paths) (\<lambda>s.
       case component_groups s of
         None \<Rightarrow> Inl (KeyError ''parent'')
       | Some groups \<Rightarrow>
           let components = component_by_object sh groups
           in Inr (map (map_object components) objects, make_report objects s components))"

subsection \<open>What the matching keeps\<close>

definition path_ids :: "match_state \<Rightarrow> string set" where
  "path_ids s = (\<Union>p \<in> set (ms_paths s). set_option (fst p) \<union> set_option (snd p))"

lemma path_ids_cong: "ms_paths t = ms_paths s \<Longrightarrow> path_ids t = path_ids s"
  by (simp add: path_ids_def)

lemma path_ids_snoc [simp]:
  "path_ids (s\<lparr>ms_paths := ps @ [(a, b)]\<rparr>) = path_ids (s\<lparr>ms_paths := ps\<rparr>) \<union> set_option a \<union> set_option b"
  by (auto simp: path_ids_def)

definition match_inv :: "string set \<Rightarrow> match_state \<Rightarrow> bool" where
  "match_inv objs s \<longleftrightarrow> finite (ms_ids s) \<and> ms_ids s \<subseteq> objs \<and> path_ids s \<subseteq> ms_ids s \<and>
     0 \<le> ms_ambiguous s \<and> int (card (ms_ids s)) \<le> ms_unique s \<and>
     ms_unique s + ms_ambiguous s \<le> ms_endpoints s"

lemma card_insert_le_Suc: "finite A \<Longrightarrow> int (card (insert x A)) \<le> int (card A) + 1"
  by (simp add: card_insert_if)

lemma match_endpoint_inv [inv_intros]:
  assumes "match_endpoint index e s = Inr (t, m)" "match_inv objs s"
    and "\<And>key. set (index key) \<subseteq> objs"
  shows "match_inv objs t \<and> ms_paths t = ms_paths s \<and> ms_endpoints t = ms_endpoints s + 1 \<and>
    ms_ids s \<subseteq> ms_ids t \<and> (\<forall>i. m = Some i \<longrightarrow> i \<in> ms_ids t)"
proof -
  obtain k where k: "read_endpoint e = Inr k" using assms(1) by (auto simp: match_endpoint_def bind_result_Inr_iff)
  show ?thesis
  proof (cases k)
    case None
    then have t: "t = s\<lparr>ms_endpoints := ms_endpoints s + 1\<rparr> \<and> m = None"
      using assms(1) k by (simp add: match_endpoint_def)
    then have "path_ids t = path_ids s" by (simp add: path_ids_def)
    then show ?thesis using assms(2) t by (simp add: match_inv_def)
  next
    case (Some key)
    consider i where "index key = [i]" | "length (index key) \<noteq> 1"
      by (cases "index key"; cases "tl (index key)") auto
    then show ?thesis
    proof cases
      case 1
      then have i: "i \<in> objs" using assms(3) [of key] by auto
      have t: "t = s\<lparr>ms_endpoints := ms_endpoints s + 1, ms_ids := insert i (ms_ids s),
          ms_unique := ms_unique s + 1\<rparr>" "m = Some i"
        using assms(1) k Some 1 by (auto simp: match_endpoint_def)
      have "finite (ms_ids s)" using assms(2) by (simp add: match_inv_def)
      moreover have "path_ids t = path_ids s" by (simp add: t path_ids_def)
      ultimately show ?thesis
        using assms(2) i card_insert_le_Suc [of "ms_ids s" i] unfolding t by (auto simp: match_inv_def)
    next
      case 2
      then have t: "t = s\<lparr>ms_endpoints := ms_endpoints s + 1,
          ms_ambiguous := ms_ambiguous s + (if length (index key) > 1 then 1 else 0)\<rparr> \<and> m = None"
        using assms(1) k Some
        by (cases "index key"; cases "tl (index key)") (auto simp: match_endpoint_def)
      then have "path_ids t = path_ids s" by (simp add: path_ids_def)
      then show ?thesis using assms(2) t by (auto simp: match_inv_def)
    qed
  qed
qed

lemma match_path_inv [inv_intros]:
  assumes "match_path index s path = Inr t" "match_inv objs s" "\<And>key. set (index key) \<subseteq> objs"
  shows "match_inv objs t \<and> ms_endpoints t = ms_endpoints s + 2"
proof -
  obtain s1 a s2 b where e: "match_endpoint index (or_dict (map_of path ''start'')) s = Inr (s1, a)"
    "match_endpoint index (or_dict (map_of path ''end'')) s1 = Inr (s2, b)"
    "t = s2\<lparr>ms_paths := ms_paths s2 @ [(a, b)]\<rparr>"
    using assms(1) by (auto simp: match_path_def bind_result_Inr_iff)
  note i1 = match_endpoint_inv [OF e(1) assms(2,3)]
  then have "match_inv objs s1" by blast
  note i2 = match_endpoint_inv [OF e(2) this assms(3)]
  have "set_option a \<subseteq> ms_ids s2" "set_option b \<subseteq> ms_ids s2"
    using i1 i2 by (auto simp: elem_set)
  moreover have "path_ids (s2\<lparr>ms_paths := ms_paths s2\<rparr>) = path_ids s2" by simp
  ultimately have "path_ids t \<subseteq> ms_ids s2"
    unfolding e(3) path_ids_snoc using i2 by (simp add: match_inv_def)
  then show ?thesis using i1 i2 unfolding e(3) by (auto simp: match_inv_def simp del: path_ids_snoc)
qed

lemma match_paths_inv:
  assumes "match_paths index s paths = Inr t" "match_inv objs s" "\<And>key. set (index key) \<subseteq> objs"
  shows "match_inv objs t \<and> ms_endpoints t = ms_endpoints s + 2 * int (length paths)"
  using assms(1,2)
proof (induction paths arbitrary: s)
  case (Cons path paths)
  obtain u where u: "match_path index s path = Inr u" "match_paths index u paths = Inr t"
    using Cons.prems(1) by (auto simp: bind_result_Inr_iff)
  from match_path_inv [OF u(1) Cons.prems(2) assms(3)] Cons.IH [OF u(2)] show ?case by simp
qed simp

lemma initial_match_inv: "match_inv objs initial_match"
  by (simp add: match_inv_def initial_match_def path_ids_def)

lemma geometry_index_objects: "set (geometry_index objects key) \<subseteq> lo_object_id ` set objects"
  by (auto simp: geometry_index_def)

lemma match_paths_facts:
  assumes "match_paths (geometry_index objects) initial_match paths = Inr t"
  shows "match_inv (lo_object_id ` set objects) t" "ms_endpoints t = 2 * int (length paths)"
  using match_paths_inv [OF assms initial_match_inv geometry_index_objects]
  by (simp_all add: initial_match_def)

subsection \<open>The components are the connected components of the endpoint graph\<close>

lemma path_edges_ids: "(l, r) \<in> set (path_edges (ms_paths s)) \<Longrightarrow> l \<in> path_ids s \<and> r \<in> path_ids s"
  by (auto simp: path_edges_def path_ids_def List.map_filter_def split: option.splits) (metis fst_conv snd_conv)+

definition endpoint_connected :: "match_state \<Rightarrow> (string \<times> string) set" where
  "endpoint_connected s = (set (path_edges (ms_paths s)) \<union> (set (path_edges (ms_paths s)))\<inverse>)\<^sup>*"

lemma component_groups_total:
  assumes "match_inv objs s"
  shows "\<exists>groups. component_groups s = Some groups \<and> mset (concat groups) = mset (py_sorted (ms_ids s)) \<and>
    (\<forall>g \<in> set groups. sorted g \<and> (\<forall>x \<in> set g. \<forall>y \<in> ms_ids s. y \<in> set g \<longleftrightarrow> (x, y) \<in> endpoint_connected s))"
proof -
  let ?ids = "py_sorted (ms_ids s)" and ?p = "uf_init (py_sorted (ms_ids s))"
  have fin: "finite (ms_ids s)" and sub: "path_ids s \<subseteq> ms_ids s" using assms by (simp_all add: match_inv_def)
  have k: "uf_keys ?p = ms_ids s" using fin by (simp add: uf_init_facts)
  have e: "\<forall>(l, r) \<in> set (path_edges (ms_paths s)). l \<in> uf_keys ?p \<and> r \<in> uf_keys ?p"
    using path_edges_ids sub k by fastforce
  obtain q where q: "union_all uf_union ?p (path_edges (ms_paths s)) = Some q" "uf_inv q" "uf_keys q = ms_ids s"
    "\<forall>x \<in> ms_ids s. \<forall>y \<in> ms_ids s. uf_root q x = uf_root q y \<longleftrightarrow>
       (x, y) \<in> (uf.same_class ?p \<union> set (path_edges (ms_paths s)) \<union> (set (path_edges (ms_paths s)))\<inverse>)\<^sup>*"
    using uf.union_all_law [OF uf_init_facts(2) e] k by auto
  have "uf.same_class ?p = {(x, x) | x. x \<in> ms_ids s}"
    unfolding uf.same_class_def k by (auto simp: uf_init_facts)
  then have "(uf.same_class ?p \<union> set (path_edges (ms_paths s)) \<union> (set (path_edges (ms_paths s)))\<inverse>)\<^sup>*
      = endpoint_connected s"
    unfolding endpoint_connected_def by (intro equalityI rtrancl_subset_rtrancl rtrancl_mono) auto
  note cls = q(4) [unfolded this]
  obtain t groups where g: "grouped uf_find q ?ids = Some (t, groups)" "mset (concat groups) = mset ?ids"
    "\<forall>g \<in> set groups. \<exists>r. g = filter (\<lambda>x. uf_root q x = r) ?ids"
    using uf.grouped_law [OF q(2), of ?ids] q(3) fin by auto
  have "sorted g \<and> (\<forall>x \<in> set g. \<forall>y \<in> ms_ids s. y \<in> set g \<longleftrightarrow> (x, y) \<in> endpoint_connected s)"
    if "g \<in> set groups" for g
  proof -
    obtain r where r: "g = filter (\<lambda>x. uf_root q x = r) ?ids" using g(3) \<open>g \<in> set groups\<close> by blast
    have mem: "z \<in> set g \<longleftrightarrow> z \<in> ms_ids s \<and> uf_root q z = r" for z using fin unfolding r by simp
    have "y \<in> set g \<longleftrightarrow> (x, y) \<in> endpoint_connected s" if "x \<in> set g" "y \<in> ms_ids s" for x y
      using that cls unfolding mem by metis
    then show ?thesis unfolding r by (simp add: sorted_wrt_filter)
  qed
  then show ?thesis using q(1) g(1,2) by (simp add: component_groups_def Let_def)
qed


lemma component_keys: "fst ` set (component_by_object sh groups) = set (concat groups)"
  by (force simp: component_by_object_def)


lemma map_object_frame [frame_simps]:
  "lo_object_id (map_object c item) = lo_object_id item"
  "lo_bbox_dbu (map_object c item) = lo_bbox_dbu item"
  "map_of c (lo_object_id item) = None \<Longrightarrow> map_object c item = item"
  "lo_connectivity_component_id (map_object c item) =
     (case map_of c (lo_object_id item) of None \<Rightarrow> lo_connectivity_component_id item | Some cid \<Rightarrow> Some cid)"
  by (auto simp: map_object_def split: option.splits)

lemma map_connectivity_result:
  assumes "map_connectivity_components sh objects paths = Inr (mapped, report)"
  obtains s groups where "match_paths (geometry_index objects) initial_match paths = Inr s"
    "component_groups s = Some groups" "mapped = map (map_object (component_by_object sh groups)) objects"
    "report = make_report objects s (component_by_object sh groups)"
  using assms by (auto simp: map_connectivity_components_def bind_result_Inr_iff Let_def split: option.splits)

text \<open>The only error is the \<open>IndexError\<close> of a point without two coordinates.\<close>

lemma coordinate_Inl: "coordinate p i = Inl e \<Longrightarrow> e = IndexError"
  by (cases "json_index p i") (auto simp: coordinate_def json_index_def split: json.splits if_splits)

lemma read_points_Inl: "read_points ps = Inl e \<Longrightarrow> e = IndexError"
proof (induction ps)
  case (Cons p ps)
  then show ?case
    by (cases "coordinate p 0"; cases "coordinate p 1"; cases "read_points ps")
      (auto dest: coordinate_Inl split: option.splits)
qed simp

lemma bind_result_Inl_iff: "bind_result r f = Inl e \<longleftrightarrow> r = Inl e \<or> (\<exists>v. r = Inr v \<and> f v = Inl e)"
  by (cases r) auto

lemma read_endpoint_Inl: "read_endpoint e = Inl err \<Longrightarrow> err = IndexError"
  by (auto simp: read_endpoint_def bind_result_Inl_iff dest: read_points_Inl split: json.splits option.splits)

lemma match_endpoint_Inl:
  assumes "match_endpoint index e s = Inl err"
  shows "err = IndexError"
proof (cases "read_endpoint e")
  case (Inl e')
  then show ?thesis using assms read_endpoint_Inl by (simp add: match_endpoint_def)
next
  case (Inr k)
  then show ?thesis using assms
    by (auto simp: match_endpoint_def Let_def split: option.splits list.splits)
qed

lemma match_paths_Inl: "match_paths index s paths = Inl e \<Longrightarrow> e = IndexError"
proof (induction paths arbitrary: s)
  case (Cons path paths)
  then show ?case
    by (auto simp: bind_result_Inl_iff match_path_def dest: match_endpoint_Inl)
qed simp

lemma map_connectivity_Inl:
  assumes "map_connectivity_components sh objects paths = Inl e"
  shows "e = IndexError"
proof (cases "match_paths (geometry_index objects) initial_match paths")
  case (Inl e')
  then show ?thesis using assms match_paths_Inl by (simp add: map_connectivity_components_def)
next
  case (Inr s)
  then obtain groups where "component_groups s = Some groups"
    using component_groups_total [OF match_paths_facts(1)] by blast
  then show ?thesis using assms Inr by (simp add: map_connectivity_components_def Let_def)
qed

lemma report_counts:
  assumes "map_connectivity_components sh objects paths = Inr (mapped, report)"
  shows "mr_endpoint_count report = 2 * int (length paths)"
    and "mr_uniquely_matched_endpoint_count report + mr_ambiguous_endpoint_count report \<le> mr_endpoint_count report"
    and "mr_mapped_object_count report \<le> mr_uniquely_matched_endpoint_count report"
    and "set (mr_mapped_object_ids report) \<subseteq> lo_object_id ` set objects"
proof -
  obtain s groups where r: "match_paths (geometry_index objects) initial_match paths = Inr s"
    "component_groups s = Some groups" "report = make_report objects s (component_by_object sh groups)"
    using map_connectivity_result [OF assms] by metis
  note i = match_paths_facts [OF r(1)]
  then have inv: "match_inv (lo_object_id ` set objects) s" by simp
  have fin: "finite (ms_ids s)" using inv by (simp add: match_inv_def)
  note t = component_groups_total [OF inv, unfolded r(2), simplified]
  have keys: "fst ` set (component_by_object sh groups) = ms_ids s"
    unfolding component_keys using t fin by (metis mset_eq_setD set_py_sorted)
  have "distinct (map fst (component_by_object sh groups))" by (simp add: component_by_object_def)
  then have len: "length (component_by_object sh groups) = card (ms_ids s)"
    using keys by (metis distinct_card length_map set_map)
  show "mr_endpoint_count report = 2 * int (length paths)"
    "mr_uniquely_matched_endpoint_count report + mr_ambiguous_endpoint_count report \<le> mr_endpoint_count report"
    "mr_mapped_object_count report \<le> mr_uniquely_matched_endpoint_count report"
    "set (mr_mapped_object_ids report) \<subseteq> lo_object_id ` set objects"
    using i len keys fin unfolding r(3)
    by (auto simp: make_report_def match_inv_def initial_match_def)
qed

section \<open>Properties of the mapping\<close>





text \<open>
  The report adds up: two endpoints per path, unique and ambiguous matches do not exceed them, no
  more objects are mapped than endpoints matched, and the mapped objects are objects of the input.
  The only error of the mapping is the \<open>IndexError\<close> of a point with fewer than two coordinates.
\<close>

theorem connectivity_report_consistent:
  "case map_connectivity_components sh objects paths of
     Inl e \<Rightarrow> e = IndexError
   | Inr (mapped, report) \<Rightarrow>
       map lo_object_id mapped = map lo_object_id objects \<and>
       mr_endpoint_count report = 2 * int (length paths) \<and>
       mr_uniquely_matched_endpoint_count report + mr_ambiguous_endpoint_count report \<le> mr_endpoint_count report \<and>
       mr_mapped_object_count report \<le> mr_uniquely_matched_endpoint_count report \<and>
       set (mr_mapped_object_ids report) \<subseteq> lo_object_id ` set objects"
proof (cases "map_connectivity_components sh objects paths")
  case (Inl e)
  then show ?thesis using map_connectivity_Inl by simp
next
  case (Inr mr)
  obtain m r where mr: "mr = (m, r)" by (cases mr)
  note i = Inr [unfolded mr]
  have "map lo_object_id m = map lo_object_id objects"
    by (rule map_connectivity_result [OF i]) (simp add: map_object_frame(1) comp_def)
  then show ?thesis using report_counts [OF i] i by simp
qed

end
