(* ===== verification/Regions.thy ===== *)
theory Regions
  imports Union_Find Layout_Schemas Action_Schemas Config
begin

text \<open>
  The construction of repair regions (\<open>src/drc_agent/regions/builder.py\<close>): a seed per violation
  with the layout objects near its marker, affinity edges between seeds, a union-find over the
  seeds that share editable objects or merge within the caps, the splitting of groups that are
  too large, and the region record of a group. Boxes are validated when they are made, so every
  operation that makes one returns a result. \<open>sh\<close> is \<open>stable_hash\<close>. \<open>RegionBuilder\<close> writes the
  association into the violation it is given: the seed holds the changed violation here, and the
  result lists the changed violations.
\<close>

record region_seed =
  sv_violation :: "violation_record"
  sv_objects :: "layout_object list"
  sv_seed :: "box"
  sv_halo :: "box"
  sv_unknown_rule :: "bool"

abbreviation seed_id :: "region_seed \<Rightarrow> string" where
  "seed_id s \<equiv> v_violation_id (sv_violation s)"

subsection \<open>Seeds\<close>

definition nearby_objects ::
    "region_config \<Rightarrow> violation_record \<Rightarrow> layout_object list \<Rightarrow> layout_object list result" where
  "nearby_objects cfg v objects =
     (let compatible = filter (\<lambda>obj. v_layers v = [] \<or> lo_layer obj \<in> set (v_layers v)) objects
      in if compatible = [] then Inr []
         else bind_result (box_expand (v_marker_bbox_dbu v) (rgc_affinity_max_gap_dbu cfg))
           (\<lambda>reach. Inr (filter (\<lambda>obj. box_intersects reach (lo_bbox_dbu obj)) compatible)))"

definition select_objects :: "box \<Rightarrow> layout_object list \<Rightarrow> layout_object list" where
  "select_objects marker nearby =
     (let exact = filter (\<lambda>obj. box_intersects marker (lo_bbox_dbu obj)) nearby
      in if exact \<noteq> [] then exact else take 16 nearby)"

definition associate ::
    "region_config \<Rightarrow> violation_record \<Rightarrow> layout_object list \<Rightarrow>
     (violation_record \<times> layout_object list) result" where
  "associate cfg v objects =
     bind_result (nearby_objects cfg v objects) (\<lambda>nearby.
       let selected = select_objects (v_marker_bbox_dbu v) nearby
       in Inr (v\<lparr>v_associated_object_ids := sort (map lo_object_id selected),
                 v_association_quality := (if selected \<noteq> [] then AssocGeometric else AssocUnknown)\<rparr>,
               sort_key lo_object_id selected))"

definition local_box :: "region_config \<Rightarrow> box \<Rightarrow> box \<Rightarrow> box result" where
  "local_box cfg marker b =
     (if real_of_int (max (box_width b) (box_height b)) >
         real_of_int (rgc_dbu_per_um cfg) * rgc_seed_window_um cfg
      then mk_box (max (bx_x1 b) (bx_x1 marker - rgc_dbu_per_um cfg))
                  (max (bx_y1 b) (bx_y1 marker - rgc_dbu_per_um cfg))
                  (min (bx_x2 b) (bx_x2 marker + rgc_dbu_per_um cfg))
                  (min (bx_y2 b) (bx_y2 marker + rgc_dbu_per_um cfg))
      else Inr b)"

fun seed_box :: "region_config \<Rightarrow> box \<Rightarrow> box \<Rightarrow> layout_object list \<Rightarrow> box result" where
  "seed_box cfg marker acc [] = Inr acc"
| "seed_box cfg marker acc (obj # objs) =
     bind_result (local_box cfg marker (lo_bbox_dbu obj)) (\<lambda>b.
       bind_result (box_union acc b) (\<lambda>acc'. seed_box cfg marker acc' objs))"

definition rule_influence_dbu :: "region_config \<Rightarrow> rule_spec \<Rightarrow> int" where
  "rule_influence_dbu cfg rule =
     truncate_real (real_of_int ((case rs_min_influence_nm rule of None \<Rightarrow> 0 | Some n \<Rightarrow> n) * rgc_dbu_per_um cfg)
       / 1000 * rs_halo_multiplier rule)"

definition seed_halo_width :: "region_config \<Rightarrow> box \<Rightarrow> rule_spec \<Rightarrow> int" where
  "seed_halo_width cfg marker rule =
     (let extent = max (box_width marker) (box_height marker)
      in min (max (max (rule_influence_dbu cfg rule) (extent div 2)) (rgc_halo_min_dbu cfg))
             (rgc_halo_max_dbu cfg))"

definition make_seed ::
    "region_config \<Rightarrow> violation_record \<Rightarrow> layout_object list \<Rightarrow> rule_catalog \<Rightarrow> region_seed result" where
  "make_seed cfg v objects catalog =
     bind_result (seed_box cfg (v_marker_bbox_dbu v) (v_marker_bbox_dbu v) objects) (\<lambda>seed.
       let (rule, known) = catalog_lookup catalog (v_rule_id v)
       in bind_result (box_expand seed (seed_halo_width cfg (v_marker_bbox_dbu v) rule)) (\<lambda>halo.
            Inr \<lparr>sv_violation = v, sv_objects = objects, sv_seed = seed, sv_halo = halo,
                 sv_unknown_rule = (\<not> known)\<rparr>))"

definition build_seed ::
    "region_config \<Rightarrow> layout_object list \<Rightarrow> rule_catalog \<Rightarrow> violation_record \<Rightarrow> region_seed result" where
  "build_seed cfg objects catalog v =
     bind_result (associate cfg v objects) (\<lambda>(v', selected). make_seed cfg v' selected catalog)"

subsection \<open>Affinity\<close>

definition editable_ids :: "region_seed \<Rightarrow> string set" where
  "editable_ids s = lo_object_id ` set (filter (\<lambda>obj. lo_editability obj \<in> {EditabilityA, EditabilityB}) (sv_objects s))"

definition halo_overlap :: "box \<Rightarrow> box \<Rightarrow> real" where
  "halo_overlap a b =
     (let min_area = min (box_area a) (box_area b)
      in if min_area \<noteq> 0 then real_of_int (box_intersection_area a b) / real_of_int min_area else 0)"

definition seed_evidence :: "region_seed \<Rightarrow> region_seed \<Rightarrow> int \<Rightarrow> bool \<times> bool \<times> affinity_evidence" where
  "seed_evidence a b max_gap =
     (let va = sv_violation a; vb = sv_violation b;
          shared_context = set (v_associated_object_ids va) \<inter> set (v_associated_object_ids vb);
          hard = (editable_ids a \<inter> editable_ids b \<noteq> {});
          overlap = halo_overlap (sv_halo a) (sv_halo b);
          gap = box_gap (sv_halo a) (sv_halo b);
          gap_score = exp (- gap / real_of_int (max max_gap 1));
          same_family = (v_rule_family va = v_rule_family vb);
          layer_relation = (if set (v_layers va) \<inter> set (v_layers vb) \<noteq> {} then 1 else 0 :: real);
          evidence = \<lparr>ae_halo_overlap_ratio = overlap, ae_normalized_gap_score = gap_score,
            ae_same_rule = (v_rule_id va = v_rule_id vb), ae_same_rule_family = same_family,
            ae_layer_relation = layer_relation,
            ae_shared_object_context = (if shared_context \<noteq> {} then 1 else 0),
            ae_shared_net = None, ae_resource_overlap_proxy = None,
            ae_same_standard_cell_row = None, ae_local_density_similarity = None\<rparr>;
          locality = (box_intersects (sv_halo a) (sv_halo b) \<or> gap \<le> real_of_int max_gap);
          semantic_count = (if same_family \<and> layer_relation \<noteq> 0 then 1 else 0) + (if hard then 1 else 0 :: int);
          merge = (locality \<and> (overlap \<ge> 10 / 100 \<and> semantic_count \<ge> 1 \<or>
                               semantic_count \<ge> 2 \<and> gap_score \<ge> 60 / 100))
      in (hard, merge, evidence))"

subsection \<open>Caps and splitting\<close>

fun union_boxes :: "box \<Rightarrow> box list \<Rightarrow> box result" where
  "union_boxes acc [] = Inr acc"
| "union_boxes acc (b # bs) = bind_result (box_union acc b) (\<lambda>acc'. union_boxes acc' bs)"

text \<open>\<open>seeds[0]\<close>, for the lists that the code only ever takes non-empty.\<close>

definition first_box :: "(region_seed \<Rightarrow> box) \<Rightarrow> region_seed list \<Rightarrow> box result" where
  "first_box f seeds = (case seeds of [] \<Rightarrow> Inl IndexError | s # _ \<Rightarrow> Inr (f s))"

definition object_ids :: "region_seed list \<Rightarrow> string list" where
  "object_ids seeds = concat (map (\<lambda>s. map lo_object_id (sv_objects s)) seeds)"

definition within_caps :: "region_config \<Rightarrow> region_seed list \<Rightarrow> box \<Rightarrow> bool" where
  "within_caps cfg seeds bbox \<longleftrightarrow>
     (let n = int (length seeds); m = int (card (set (object_ids seeds)))
      in n \<le> rgc_max_region_markers cfg \<and> m \<le> rgc_max_region_objects cfg \<and>
         max (box_width bbox) (box_height bbox)
           \<le> truncate_real (rgc_max_region_span_um cfg * real_of_int (rgc_dbu_per_um cfg)) \<and>
         n * 180 + m * 80 \<le> rgc_max_context_tokens cfg)"

definition cap_ok :: "region_config \<Rightarrow> region_seed list \<Rightarrow> bool result" where
  "cap_ok cfg seeds =
     bind_result (first_box sv_seed seeds) (\<lambda>b0.
       bind_result (union_boxes b0 (map sv_seed seeds)) (\<lambda>bbox. Inr (within_caps cfg seeds bbox)))"

definition centroid_axis :: "bool \<Rightarrow> region_seed \<Rightarrow> real" where
  "centroid_axis horizontal s =
     (if horizontal then fst (box_centroid (sv_seed s)) else snd (box_centroid (sv_seed s)))"

definition cut_cost :: "bool \<Rightarrow> region_seed list \<Rightarrow> nat \<Rightarrow> real" where
  "cut_cost horizontal ordered cutp =
     (let left = take cutp ordered; right = drop cutp ordered;
          imbalance = \<bar>int (length left) - int (length right)\<bar>;
          cut_gap = centroid_axis horizontal (hd right) - centroid_axis horizontal (last left)
      in real_of_int imbalance * 1 - cut_gap * (1 / 1000))"

text \<open>Where a group is cut, if it is: \<open>Inr None\<close> keeps it whole.\<close>

definition split_step ::
    "region_config \<Rightarrow> region_seed list \<Rightarrow> (region_seed list \<times> region_seed list) option result" where
  "split_step cfg seeds =
     bind_result (cap_ok cfg seeds) (\<lambda>fits.
       if fits \<or> length seeds \<le> 1 then Inr None
       else if \<not> distinct (object_ids seeds) then Inr None
       else bind_result (first_box sv_seed seeds) (\<lambda>b0.
         bind_result (union_boxes b0 (map sv_seed (tl seeds))) (\<lambda>bbox.
           let horizontal = (box_width bbox \<ge> box_height bbox);
               ordered = sort_key (\<lambda>s. (centroid_axis horizontal s, seed_id s)) seeds;
               cutp = min_by (\<lambda>c. (cut_cost horizontal ordered c, c)) 1 [2..<length ordered]
           in Inr (Some (take cutp ordered, drop cutp ordered)))))"

lemma split_step_cut:
  assumes "split_step cfg seeds = Inr (Some (left, right))"
  obtains horizontal where
    "left @ right = sort_key (\<lambda>s. (centroid_axis horizontal s, seed_id s)) seeds"
    "left \<noteq> []" "right \<noteq> []" "length left < length seeds" "length right < length seeds"
proof -
  obtain horizontal where len: "1 < length seeds" and lr:
    "let ordered = sort_key (\<lambda>s. (centroid_axis horizontal s, seed_id s)) seeds;
         cutp = min_by (\<lambda>c. (cut_cost horizontal ordered c, c)) 1 [2..<length ordered]
     in left = take cutp ordered \<and> right = drop cutp ordered"
    using assms unfolding split_step_def by (auto simp: bind_result_Inr_iff Let_def split: if_splits)
  define ordered where "ordered = sort_key (\<lambda>s. (centroid_axis horizontal s, seed_id s)) seeds"
  define cutp where "cutp = min_by (\<lambda>c. (cut_cost horizontal ordered c, c)) 1 [2..<length ordered]"
  have "cutp \<in> set (1 # [2..<length ordered])" unfolding cutp_def by (rule min_by_in)
  moreover have "length ordered = length seeds" by (simp add: ordered_def)
  ultimately have "1 \<le> cutp" "cutp < length seeds" using len by auto
  moreover have "left = take cutp ordered" "right = drop cutp ordered"
    using lr unfolding ordered_def cutp_def Let_def by simp_all
  ultimately have "left @ right = ordered" "length left = cutp" "length right = length seeds - cutp"
    using \<open>length ordered = length seeds\<close> by auto
  then show thesis
    using that [of horizontal] \<open>1 \<le> cutp\<close> \<open>cutp < length seeds\<close> unfolding ordered_def by fastforce
qed

function split_seeds :: "region_config \<Rightarrow> region_seed list \<Rightarrow> region_seed list list result" where
  "split_seeds cfg seeds =
     (case split_step cfg seeds of
        Inl e \<Rightarrow> Inl e
      | Inr None \<Rightarrow> Inr [seeds]
      | Inr (Some (left, right)) \<Rightarrow>
          bind_result (split_seeds cfg left) (\<lambda>ls.
            bind_result (split_seeds cfg right) (\<lambda>rs. Inr (ls @ rs))))"
  by pat_completeness auto
termination
  by (relation "measure (length \<circ> snd)") (auto elim: split_step_cut [OF sym] split_step_cut)

declare split_seeds.simps [simp del]

subsection \<open>Seeds of valid inputs\<close>

text \<open>
  Markers and objects have ordered boxes (their validators see to it), and the association reaches
  no further than the margin to which a long object is clipped.
\<close>

definition region_config_ok :: "region_config \<Rightarrow> bool" where
  "region_config_ok cfg \<longleftrightarrow> 0 \<le> rgc_affinity_max_gap_dbu cfg \<and>
     rgc_affinity_max_gap_dbu cfg \<le> rgc_dbu_per_um cfg \<and> 0 \<le> rgc_halo_max_dbu cfg"

definition seed_ok :: "region_seed \<Rightarrow> bool" where
  "seed_ok s \<longleftrightarrow> box_ordered (sv_seed s) \<and> box_ordered (sv_halo s) \<and>
     box_contains (sv_halo s) (sv_seed s) \<and> box_contains (sv_seed s) (v_marker_bbox_dbu (sv_violation s))"

lemma nearby_objects_total:
  assumes "region_config_ok cfg" "box_ordered (v_marker_bbox_dbu v)"
  shows "\<exists>near. nearby_objects cfg v objects = Inr near \<and> set near \<subseteq> set objects \<and>
    (\<forall>obj \<in> set near. \<exists>reach. box_expand (v_marker_bbox_dbu v) (rgc_affinity_max_gap_dbu cfg) = Inr reach \<and>
       box_intersects reach (lo_bbox_dbu obj))"
proof -
  obtain e where "box_expand (v_marker_bbox_dbu v) (rgc_affinity_max_gap_dbu cfg) = Inr e"
    using box_expand_total [OF assms(2)] assms(1) by (auto simp: region_config_ok_def)
  then show ?thesis by (auto simp: nearby_objects_def Let_def)
qed

lemma associate_result:
  assumes "associate cfg v objects = Inr (v', selected)"
  shows "\<exists>near. nearby_objects cfg v objects = Inr near \<and> set selected \<subseteq> set near \<and>
    v' = v\<lparr>v_associated_object_ids := map lo_object_id selected,
           v_association_quality := (if selected \<noteq> [] then AssocGeometric else AssocUnknown)\<rparr>"
proof -
  have sk: "sort (map lo_object_id xs) = map lo_object_id (sort_key lo_object_id xs)" for xs
    by (rule properties_for_sort) simp_all
  have nil: "sort_key lo_object_id xs = [] \<longleftrightarrow> xs = []" for xs
    by (metis length_0_conv length_sort)
  have sub: "set (select_objects m near) \<subseteq> set near" for m near
    using set_take_subset [of 16 near] by (auto simp: select_objects_def Let_def)
  obtain near where n: "nearby_objects cfg v objects = Inr near"
    using assms by (auto simp: associate_def bind_result_Inr_iff)
  let ?sel = "select_objects (v_marker_bbox_dbu v) near"
  have "v' = v\<lparr>v_associated_object_ids := sort (map lo_object_id ?sel),
      v_association_quality := (if ?sel \<noteq> [] then AssocGeometric else AssocUnknown)\<rparr> \<and>
    selected = sort_key lo_object_id ?sel"
    using assms unfolding associate_def n bind_result_simps Let_def by (simp only: sum.inject prod.inject)
  then show ?thesis using n sub by (simp add: sk nil)
qed

lemma associate_total:
  assumes "region_config_ok cfg" "box_ordered (v_marker_bbox_dbu v)"
  shows "\<exists>v' selected. associate cfg v objects = Inr (v', selected)"
proof -
  obtain near where "nearby_objects cfg v objects = Inr near" using nearby_objects_total [OF assms] by blast
  then show ?thesis by (simp add: associate_def Let_def)
qed

lemma local_box_total:
  assumes cfg: "region_config_ok cfg" and m: "box_ordered m" and b: "box_ordered b"
    and near: "box_expand m (rgc_affinity_max_gap_dbu cfg) = Inr reach" "box_intersects reach b"
  shows "\<exists>l. local_box cfg m b = Inr l \<and> box_ordered l \<and> box_contains b l"
proof -
  have r: "reach = \<lparr>bx_x1 = bx_x1 m - rgc_affinity_max_gap_dbu cfg, bx_y1 = bx_y1 m - rgc_affinity_max_gap_dbu cfg,
      bx_x2 = bx_x2 m + rgc_affinity_max_gap_dbu cfg, bx_y2 = bx_y2 m + rgc_affinity_max_gap_dbu cfg\<rparr>"
    using near(1) box_expand_Inr [OF m, of "rgc_affinity_max_gap_dbu cfg"] cfg
    by (simp add: region_config_ok_def)
  have "max (bx_x1 b) (bx_x1 m - rgc_dbu_per_um cfg) \<le> min (bx_x2 b) (bx_x2 m + rgc_dbu_per_um cfg)"
    "max (bx_y1 b) (bx_y1 m - rgc_dbu_per_um cfg) \<le> min (bx_y2 b) (bx_y2 m + rgc_dbu_per_um cfg)"
    using near(2) cfg m b unfolding r
    by (auto simp: box_intersects_def region_config_ok_def box_ordered_def)
  then show ?thesis using b
    by (auto simp: local_box_def mk_box_def box_ordered_def box_contains_def)
qed

lemma seed_box_total:
  assumes cfg: "region_config_ok cfg" and m: "box_ordered m" and acc: "box_ordered acc"
    and objs: "\<And>obj. obj \<in> set objs \<Longrightarrow> box_ordered (lo_bbox_dbu obj) \<and>
      (\<exists>reach. box_expand m (rgc_affinity_max_gap_dbu cfg) = Inr reach \<and> box_intersects reach (lo_bbox_dbu obj))"
  shows "\<exists>s. seed_box cfg m acc objs = Inr s \<and> box_ordered s \<and> box_contains s acc"
  using acc objs
proof (induction objs arbitrary: acc)
  case (Cons obj objs)
  obtain l where l: "local_box cfg m (lo_bbox_dbu obj) = Inr l" "box_ordered l"
    using local_box_total [OF cfg m] Cons.prems(2) [of obj] by fastforce
  obtain u where u: "box_union acc l = Inr u" using box_union_total [OF Cons.prems(1) l(2)] by blast
  obtain s where "seed_box cfg m u objs = Inr s" "box_ordered s" "box_contains s u"
    using Cons.IH [OF box_union_ordered [OF u]] Cons.prems(2) by auto
  moreover have "box_contains u acc" using box_union_lub [OF u] by blast
  ultimately show ?case using l u box_contains_trans by auto
qed simp

lemma build_seed_total:
  assumes cfg: "region_config_ok cfg" and m: "box_ordered (v_marker_bbox_dbu v)"
    and objs: "\<forall>obj \<in> set objects. box_ordered (lo_bbox_dbu obj)"
  shows "\<exists>s. build_seed cfg objects catalog v = Inr s \<and> seed_ok s \<and> seed_id s = v_violation_id v"
proof -
  obtain v' sel where a: "associate cfg v objects = Inr (v', sel)" using associate_total [OF cfg m] by blast
  obtain near where n: "nearby_objects cfg v objects = Inr near" "set sel \<subseteq> set near"
    and v': "v_marker_bbox_dbu v' = v_marker_bbox_dbu v" "v_violation_id v' = v_violation_id v"
    using associate_result [OF a] by auto
  obtain near' where near': "nearby_objects cfg v objects = Inr near'" "set near' \<subseteq> set objects"
    "\<forall>obj \<in> set near'. \<exists>reach. box_expand (v_marker_bbox_dbu v) (rgc_affinity_max_gap_dbu cfg) = Inr reach \<and>
       box_intersects reach (lo_bbox_dbu obj)"
    using nearby_objects_total [OF cfg m] by blast
  have sel: "box_ordered (lo_bbox_dbu obj) \<and>
      (\<exists>reach. box_expand (v_marker_bbox_dbu v) (rgc_affinity_max_gap_dbu cfg) = Inr reach \<and>
        box_intersects reach (lo_bbox_dbu obj))" if "obj \<in> set sel" for obj
    using that n near' objs by auto
  obtain s where s: "seed_box cfg (v_marker_bbox_dbu v) (v_marker_bbox_dbu v) sel = Inr s"
    "box_ordered s" "box_contains s (v_marker_bbox_dbu v)"
    using seed_box_total [OF cfg m m sel] by blast
  obtain rule known where c: "catalog_lookup catalog (v_rule_id v') = (rule, known)" by (cases "catalog_lookup catalog (v_rule_id v')")
  have w: "0 \<le> seed_halo_width cfg (v_marker_bbox_dbu v) rule"
    using cfg m by (auto simp: seed_halo_width_def region_config_ok_def Let_def box_ordered_def box_width_def box_height_def
        max_def min_def)
  obtain h where h: "box_expand s (seed_halo_width cfg (v_marker_bbox_dbu v) rule) = Inr h"
    using box_expand_total [OF s(2) w] by blast
  have "build_seed cfg objects catalog v = Inr \<lparr>sv_violation = v', sv_objects = sel, sv_seed = s, sv_halo = h,
      sv_unknown_rule = (\<not> known)\<rparr>"
    using a s(1) c h v' by (simp add: build_seed_def make_seed_def)
  then show ?thesis
    using s v' box_expand_ordered [OF h] box_expand_contains [OF h w] by (simp add: seed_ok_def)
qed

subsection \<open>Hulls, caps and splitting of valid seeds\<close>

lemma union_boxes_total:
  "box_ordered acc \<Longrightarrow> \<forall>b \<in> set bs. box_ordered b \<Longrightarrow>
   \<exists>u. union_boxes acc bs = Inr u \<and> box_ordered u \<and> (\<forall>b \<in> insert acc (set bs). box_contains u b)"
proof (induction bs arbitrary: acc)
  case (Cons b bs)
  obtain u where u: "box_union acc b = Inr u" using box_union_total Cons.prems by fastforce
  obtain w where w: "union_boxes u bs = Inr w" "box_ordered w" "\<forall>b \<in> insert u (set bs). box_contains w b"
    using Cons.IH [OF box_union_ordered [OF u]] Cons.prems by auto
  have "box_contains u acc" "box_contains u b" using box_union_lub [OF u] by blast+
  then show ?case using u w box_contains_trans by auto
qed simp

lemma cap_ok_total:
  assumes "seeds \<noteq> []" "\<forall>s \<in> set seeds. seed_ok s"
  shows "\<exists>fits. cap_ok cfg seeds = Inr fits"
proof -
  have "\<exists>u. union_boxes (sv_seed (hd seeds)) (map sv_seed seeds) = Inr u"
    using union_boxes_total [of "sv_seed (hd seeds)" "map sv_seed seeds"] assms by (auto simp: seed_ok_def)
  then show ?thesis using assms(1) by (cases seeds) (auto simp: cap_ok_def first_box_def)
qed

lemma split_step_total:
  assumes "seeds \<noteq> []" "\<forall>s \<in> set seeds. seed_ok s"
  shows "\<exists>r. split_step cfg seeds = Inr r"
proof -
  obtain fits where f: "cap_ok cfg seeds = Inr fits" using cap_ok_total [OF assms] by blast
  have "\<exists>u. union_boxes (sv_seed (hd seeds)) (map sv_seed (tl seeds)) = Inr u"
    using union_boxes_total [of "sv_seed (hd seeds)" "map sv_seed (tl seeds)"] assms
    by (auto simp: seed_ok_def dest: list.set_sel(2))
  then show ?thesis using f assms(1) by (cases seeds) (auto simp: split_step_def first_box_def Let_def)
qed

lemma split_step_mset:
  assumes "split_step cfg seeds = Inr (Some (l, r))"
  shows "mset l + mset r = mset seeds"
  using split_step_cut [OF assms] by (metis mset_append mset_sort)

lemma split_step_None:
  assumes "split_step cfg seeds = Inr None"
  shows "cap_ok cfg seeds = Inr True \<or> length seeds \<le> 1 \<or> \<not> distinct (object_ids seeds)"
  using assms unfolding split_step_def
  by (auto simp: bind_result_Inr_iff Let_def split: if_splits)

lemma split_step_Some:
  assumes "split_step cfg seeds = Inr (Some lr)"
  shows "distinct (object_ids seeds)"
  using assms unfolding split_step_def
  by (auto simp: bind_result_Inr_iff Let_def split: if_splits)

text \<open>
  Splitting loses and repeats no seed, makes no empty part, and stops only where the part fits,
  is a single seed, or holds seeds that share an object.
\<close>

lemma split_seeds_total:
  assumes "seeds \<noteq> []" "\<forall>s \<in> set seeds. seed_ok s"
  shows "\<exists>parts. split_seeds cfg seeds = Inr parts \<and> mset (concat parts) = mset seeds \<and> [] \<notin> set parts \<and>
    (\<forall>part \<in> set parts. cap_ok cfg part = Inr True \<or> length part \<le> 1 \<or> \<not> distinct (object_ids part))"
  using assms
proof (induction cfg seeds rule: split_seeds.induct)
  case (1 cfg seeds)
  obtain step where step: "split_step cfg seeds = Inr step" using split_step_total [OF "1.prems"] by blast
  show ?case
  proof (cases step)
    case None
    then have "split_seeds cfg seeds = Inr [seeds]" using step by (simp add: split_seeds.simps)
    then show ?thesis using split_step_None step None "1.prems"(1) by auto
  next
    case (Some lr)
    obtain l r where lr: "lr = (l, r)" by (cases lr)
    have st: "split_step cfg seeds = Inr (Some (l, r))" using step Some lr by simp
    have ne: "l \<noteq> []" "r \<noteq> []" using split_step_cut [OF st] by metis+
    have sub: "set l \<union> set r = set seeds"
      using split_step_mset [OF st] by (metis set_mset_mset set_mset_union)
    obtain pl where pl: "split_seeds cfg l = Inr pl" "mset (concat pl) = mset l" "[] \<notin> set pl"
      "\<forall>part \<in> set pl. cap_ok cfg part = Inr True \<or> length part \<le> 1 \<or> \<not> distinct (object_ids part)"
      using "1.IH"(1) [OF st refl refl ne(1)] sub "1.prems"(2) by auto
    obtain pr where pr: "split_seeds cfg r = Inr pr" "mset (concat pr) = mset r" "[] \<notin> set pr"
      "\<forall>part \<in> set pr. cap_ok cfg part = Inr True \<or> length part \<le> 1 \<or> \<not> distinct (object_ids part)"
      using "1.IH"(2) [OF st refl refl] ne sub "1.prems"(2) by auto
    have "split_seeds cfg seeds = Inr (pl @ pr)"
      using st pl pr by (subst split_seeds.simps) simp
    then show ?thesis using pl pr split_step_mset [OF st] by (auto simp: ball_Un)
  qed
qed

lemma split_seeds_shared:
  assumes "split_seeds cfg seeds = Inr parts" "\<not> distinct (object_ids seeds)"
  shows "parts = [seeds]"
proof -
  have "split_step cfg seeds \<noteq> Inr (Some lr)" for lr using split_step_Some assms(2) by blast
  then show ?thesis using assms(1)
    by (subst (asm) split_seeds.simps) (auto split: sum.splits option.splits)
qed

end
