(* ===== verification/Region_Builder.thy ===== *)
theory Region_Builder
  imports Regions
begin

text \<open>
  The second half of \<open>src/drc_agent/regions/builder.py\<close>: the record of a finished region
  (\<open>_finalize\<close>), and \<open>build\<close>, which unions the seeds along the affinity edges, splits the groups and
  checks that every violation is owned by a region.
\<close>

subsection \<open>The record of a region\<close>

definition family_text :: "rule_family \<Rightarrow> string" where
  "family_text f =
     (case f of FamilySpacing \<Rightarrow> ''spacing'' | FamilyWidth \<Rightarrow> ''width'' | FamilyEnclosure \<Rightarrow> ''enclosure''
      | FamilyArea \<Rightarrow> ''area'' | FamilyAlignment \<Rightarrow> ''alignment'' | FamilyShort \<Rightarrow> ''short''
      | FamilyVia \<Rightarrow> ''via'' | FamilyUnknown \<Rightarrow> ''unknown'')"

definition family_histogram :: "violation_record list \<Rightarrow> (string \<times> int) list" where
  "family_histogram vs =
     map (\<lambda>f. (f, int (length (filter (\<lambda>v. family_text (v_rule_family v) = f) vs))))
       (py_sorted (set (map (\<lambda>v. family_text (v_rule_family v)) vs)))"

definition seeds_hull :: "(region_seed \<Rightarrow> box) \<Rightarrow> region_seed list \<Rightarrow> box result" where
  "seeds_hull f seeds = bind_result (first_box f seeds) (\<lambda>b. union_boxes b (map f (tl seeds)))"

definition region_objects :: "region_seed list \<Rightarrow> layout_object list" where
  "region_objects seeds =
     map snd (dict_of (concat (map (\<lambda>s. map (\<lambda>obj. (lo_object_id obj, obj)) (sv_objects s)) seeds)))"

definition show_bin :: "int \<Rightarrow> string \<Rightarrow> int \<Rightarrow> int \<Rightarrow> string" where
  "show_bin bin_size layer x y =
     ''proxy:'' @ show_int bin_size @ '':'' @ layer @ '':'' @ show_int x @ '':'' @ show_int y"

definition bin_range :: "int \<Rightarrow> int \<Rightarrow> int \<Rightarrow> int list" where
  "bin_range bin_size low high = [low div bin_size..max (high - 1) low div bin_size]"

definition object_bins :: "int \<Rightarrow> layout_object \<Rightarrow> string list" where
  "object_bins bin_size obj =
     (let b = lo_bbox_dbu obj
      in concat (map (\<lambda>x. map (\<lambda>y. show_bin bin_size (lo_layer obj) x y)
                              (bin_range bin_size (bx_y1 b) (bx_y2 b)))
                     (bin_range bin_size (bx_x1 b) (bx_x2 b))))"

definition occupied_bins :: "region_config \<Rightarrow> layout_object list \<Rightarrow> string list" where
  "occupied_bins cfg objs =
     py_sorted (set (concat (map (object_bins (max (rgc_affinity_max_gap_dbu cfg) 1)) objs)))"

definition net_quality :: "layout_object list \<Rightarrow> net_mapping_quality" where
  "net_quality objs =
     (let mapped = filter (\<lambda>obj. opt_truthy (lo_net_id obj)) objs;
          qualities = remdups (map lo_net_mapping_quality mapped)
      in if mapped \<noteq> [] \<and> length mapped = length objs \<and> length qualities = 1 then hd qualities
         else if mapped \<noteq> [] then NetPartial else NetUnavailable)"

definition shared_violations :: "string list \<Rightarrow> region_state \<Rightarrow> nat" where
  "shared_violations ids r = card (set (rg_violation_ids r) \<inter> set ids)"

text \<open>\<open>max(previous, key=\<dots>, default=None)\<close>: the first region that shares most.\<close>

definition best_previous :: "region_state list \<Rightarrow> string list \<Rightarrow> region_state option" where
  "best_previous previous ids =
     (case previous of [] \<Rightarrow> None
      | r # rs \<Rightarrow> Some (min_by (\<lambda>q. - int (shared_violations ids q)) r rs))"

definition lineage_of :: "region_state option \<Rightarrow> string list \<Rightarrow> string \<Rightarrow> string" where
  "lineage_of old ids identity =
     (case old of
        None \<Rightarrow> ''lineage_'' @ take 16 identity
      | Some r \<Rightarrow>
          if real (shared_violations ids r) /
             real (max (card (set (rg_violation_ids r) \<union> set ids)) 1) \<ge> 35 / 100
          then rg_lineage_id r else ''lineage_'' @ take 16 identity)"

definition ids_where :: "(layout_object \<Rightarrow> bool) \<Rightarrow> layout_object list \<Rightarrow> string list" where
  "ids_where P objs = sort (map lo_object_id (filter P objs))"

definition editable_objects :: "layout_object list \<Rightarrow> string list" where
  "editable_objects objs =
     ids_where (\<lambda>obj. opt_truthy (lo_source_anchor_id obj) \<and> lo_editability obj \<noteq> EditabilityD) objs"

definition region_record ::
    "(json \<Rightarrow> string) \<Rightarrow> region_config \<Rightarrow> region_seed list \<Rightarrow> region_state list \<Rightarrow> box \<Rightarrow> box \<Rightarrow> bool \<Rightarrow> region_state" where
  "region_record sh cfg seeds previous bbox halo oversized =
     (let violations = sort_key v_violation_id (map sv_violation seeds);
          ids = map v_violation_id violations;
          objs = region_objects seeds;
          oids = sort (map lo_object_id objs);
          identity = sh (JList (map JStr ids));
          old = best_previous previous ids;
          editable = editable_objects objs;
          content = JObj [(''violations'', JList (map JStr ids)), (''objects'', JList (map JStr oids)),
                          (''bbox'', box_json bbox), (''halo'', box_json halo)];
          bins = occupied_bins cfg objs
      in \<lparr>rg_schema_version = ''1.0'',
          rg_region_id = ''region_'' @ take 16 identity,
          rg_lineage_id = lineage_of old ids identity,
          rg_parent_region_ids = [],
          rg_status = (if oversized then RegionOversized else RegionActive),
          rg_iteration = Max (set (map v_report_iteration violations)),
          rg_bbox_dbu = bbox, rg_edit_halo_dbu = halo,
          rg_layers = py_sorted (set (concat (map v_layers violations))),
          rg_violation_ids = ids,
          rg_rule_ids = py_sorted (set (map v_rule_id violations)),
          rg_rule_family_histogram = family_histogram violations,
          rg_object_ids = oids,
          rg_editable_object_ids = editable,
          rg_frozen_object_ids = py_sorted (set oids - set editable),
          rg_segment_ids = ids_where (\<lambda>obj. lo_kind obj \<in> {KindPolygon, KindPath} \<and>
             lo_routing_type obj = Some ''routing'') objs,
          rg_via_ids = ids_where (\<lambda>obj. lo_kind obj = KindViaStack) objs,
          rg_cell_instance_ids = ids_where (\<lambda>obj. lo_kind obj = KindCellInstance) objs,
          rg_net_ids = py_sorted (set (map (\<lambda>obj. the (lo_net_id obj))
             (filter (\<lambda>obj. opt_truthy (lo_net_id obj)) objs))),
          rg_net_mapping_quality = net_quality objs,
          rg_resource_context = \<lparr>rx_source = (if bins \<noteq> [] then SourceGeometryProxy else SourceUnavailable),
             rx_occupied_track_bins = bins, rx_free_track_bins = [], rx_via_site_bins = [],
             rx_local_whitespace_ratio = None,
             rx_local_density = Some (min (real_of_int (\<Sum>obj\<leftarrow>objs. box_area (lo_bbox_dbu obj))
                / real_of_int (max (box_area halo) 1)) 1),
             rx_congestion_score = None, rx_confidence = (if bins \<noteq> [] then 3 / 10 else 0)\<rparr>,
          rg_timing_context = None, rg_source_slices = [], rg_neighbor_edge_refs = [],
          rg_candidate_history = (case old of None \<Rightarrow> [] | Some r \<Rightarrow> rg_candidate_history r),
          rg_rollback_history = (case old of None \<Rightarrow> [] | Some r \<Rightarrow> rg_rollback_history r),
          rg_derived_features = \<lparr>rf_marker_count = int (length violations), rf_object_count = int (length objs),
             rf_token_estimate = int (length violations) * 180 + int (length objs) * 80,
             rf_density_proxy = None, rf_geometry_signature = sh content\<rparr>,
          rg_quality_flags = (if \<exists>s \<in> set seeds. sv_unknown_rule s then {''UNKNOWN_RULE''} else {}) \<union>
             (if oversized then {''OVERSIZED_HARD_COMPONENT''} else {}),
          rg_content_hash = sh content\<rparr>)"

definition finalize ::
    "(json \<Rightarrow> string) \<Rightarrow> region_config \<Rightarrow> region_state list \<Rightarrow> region_seed list \<Rightarrow> region_state result" where
  "finalize sh cfg previous seeds =
     bind_result (seeds_hull sv_seed seeds) (\<lambda>bbox.
       bind_result (seeds_hull sv_halo seeds) (\<lambda>halo.
         bind_result (cap_ok cfg seeds) (\<lambda>fits.
           Inr (region_record sh cfg seeds previous bbox halo (\<not> fits)))))"

subsection \<open>Build\<close>

record region_edge =
  re_u :: "string"
  re_v :: "string"
  re_hard :: "bool"
  re_merge :: "bool"
  re_evidence :: "affinity_evidence"

record region_build_result =
  br_violations :: "violation_record list"
  br_regions :: "region_state list"
  br_affinity_edges :: "region_edge list"
  br_violation_to_region :: "(string \<times> string) list"

text \<open>\<open>KeyError\<close> where the model of \<open>find\<close> has no value.\<close>

definition of_uf :: "'a option \<Rightarrow> 'a result" where
  "of_uf r = (case r of None \<Rightarrow> Inl (KeyError ''parent'') | Some v \<Rightarrow> Inr v)"

lemma of_uf_Some [simp]: "of_uf (Some v) = Inr v"
  by (simp add: of_uf_def)

definition build_seeds ::
    "region_config \<Rightarrow> layout_object list \<Rightarrow> rule_catalog \<Rightarrow> violation_record list \<Rightarrow>
     (string \<times> region_seed) list result" where
  "build_seeds cfg objects catalog violations =
     bind_result (map_result (build_seed cfg objects catalog) (sort_key v_violation_id violations))
       (\<lambda>ss. Inr (dict_of (map (\<lambda>s. (seed_id s, s)) ss)))"

definition edge_of :: "region_config \<Rightarrow> region_seed \<times> region_seed \<Rightarrow> region_edge option" where
  "edge_of cfg ab =
     (let (a, b) = ab in
      if box_gap (sv_halo a) (sv_halo b) > real_of_int (rgc_affinity_max_gap_dbu cfg) then None
      else let (hard, merge, evidence) = seed_evidence a b (rgc_affinity_max_gap_dbu cfg)
           in Some \<lparr>re_u = seed_id a, re_v = seed_id b, re_hard = hard, re_merge = merge,
                    re_evidence = evidence\<rparr>)"

definition affinity_edges :: "region_config \<Rightarrow> region_seed list \<Rightarrow> region_edge list" where
  "affinity_edges cfg seeds = List.map_filter (edge_of cfg) (ordered_pairs seeds)"

definition edge_key :: "region_edge \<Rightarrow> real \<times> real \<times> string \<times> string" where
  "edge_key e = (- ae_halo_overlap_ratio (re_evidence e), - ae_normalized_gap_score (re_evidence e),
                 re_u e, re_v e)"

text \<open>The seeds whose root is one of the two roots; every \<open>find\<close> may halve paths.\<close>

fun merge_members ::
    "string parents \<Rightarrow> string \<Rightarrow> string \<Rightarrow> (string \<times> region_seed) list \<Rightarrow>
     (string parents \<times> region_seed list) option" where
  "merge_members p u v [] = Some (p, [])"
| "merge_members p u v ((i, s) # rest) =
     (case find_all uf_find p [i, u, v] of
        None \<Rightarrow> None
      | Some (p1, rs) \<Rightarrow>
          (case merge_members p1 u v rest of
             None \<Rightarrow> None
           | Some (p2, ms) \<Rightarrow> Some (p2, if rs ! 0 \<in> {rs ! 1, rs ! 2} then s # ms else ms)))"

definition merge_edge ::
    "region_config \<Rightarrow> (string \<times> region_seed) list \<Rightarrow> string parents \<Rightarrow> region_edge \<Rightarrow> string parents result" where
  "merge_edge cfg seeds p e =
     (if \<not> re_merge e then Inr p
      else bind_result (of_uf (find_all uf_find p [re_u e, re_v e])) (\<lambda>(p1, rs).
        if rs ! 0 = rs ! 1 then Inr p1
        else bind_result (of_uf (merge_members p1 (re_u e) (re_v e) seeds)) (\<lambda>(p2, members).
          bind_result (cap_ok cfg members) (\<lambda>fits.
            if fits then of_uf (uf_union p2 (re_u e) (re_v e)) else Inr p2))))"

fun merge_edges ::
    "region_config \<Rightarrow> (string \<times> region_seed) list \<Rightarrow> string parents \<Rightarrow> region_edge list \<Rightarrow> string parents result" where
  "merge_edges cfg seeds p [] = Inr p"
| "merge_edges cfg seeds p (e # es) =
     bind_result (merge_edge cfg seeds p e) (\<lambda>p1. merge_edges cfg seeds p1 es)"

definition seed_groups ::
    "region_config \<Rightarrow> (string \<times> region_seed) list \<Rightarrow> (region_edge list \<times> region_seed list list) result" where
  "seed_groups cfg seeds =
     (let edges = affinity_edges cfg (map snd seeds);
          hard = map (\<lambda>e. (re_u e, re_v e)) (filter re_hard edges)
      in bind_result (of_uf (union_all uf_union (uf_init (map fst seeds)) hard)) (\<lambda>p.
           bind_result (merge_edges cfg seeds p (sort_key edge_key edges)) (\<lambda>p1.
             bind_result (of_uf (uf_groups p1)) (\<lambda>(p2, groups).
               Inr (edges, map (map (\<lambda>i. the (map_of seeds i))) groups)))))"

definition build ::
    "(json \<Rightarrow> string) \<Rightarrow> region_config \<Rightarrow> violation_record list \<Rightarrow> layout_object list \<Rightarrow> rule_catalog \<Rightarrow>
     region_state list \<Rightarrow> region_build_result result" where
  "build sh cfg violations objects catalog previous =
     bind_result (build_seeds cfg objects catalog violations) (\<lambda>seeds.
       bind_result (seed_groups cfg seeds) (\<lambda>(edges, groups).
         bind_result (map_result (split_seeds cfg) groups) (\<lambda>parts.
           bind_result (map_result (finalize sh cfg previous) (concat parts)) (\<lambda>rs.
             let regions = sort_key rg_region_id rs;
                 ownership = dict_of (concat (map (\<lambda>r. map (\<lambda>v. (v, rg_region_id r)) (rg_violation_ids r)) regions))
             in if fst ` set ownership \<noteq> v_violation_id ` set violations
                then Inl (AssertionError ''violation coverage invariant failed'')
                else bind_result (map_result (\<lambda>v. associate cfg v objects) violations) (\<lambda>changed.
                  Inr \<lparr>br_violations = map fst changed, br_regions = regions,
                       br_affinity_edges = edges, br_violation_to_region = ownership\<rparr>)))))"

subsection \<open>The seeds of a build\<close>

definition build_inputs_ok :: "region_config \<Rightarrow> violation_record list \<Rightarrow> layout_object list \<Rightarrow> bool" where
  "build_inputs_ok cfg violations objects \<longleftrightarrow> region_config_ok cfg \<and>
     (\<forall>v \<in> set violations. box_ordered (v_marker_bbox_dbu v)) \<and>
     (\<forall>obj \<in> set objects. box_ordered (lo_bbox_dbu obj))"

text \<open>A dictionary of seeds: every seed under its own identifier.\<close>

definition seeds_ok :: "(string \<times> region_seed) list \<Rightarrow> bool" where
  "seeds_ok seeds \<longleftrightarrow> distinct (map fst seeds) \<and> (\<forall>(i, s) \<in> set seeds. seed_id s = i \<and> seed_ok s)"

lemma map_result_all2:
  assumes "\<And>x. x \<in> set xs \<Longrightarrow> \<exists>y. f x = Inr y \<and> P x y"
  shows "\<exists>ys. map_result f xs = Inr ys \<and> list_all2 P xs ys"
  using assms
proof (induction xs)
  case (Cons x xs)
  obtain y where y: "f x = Inr y" "P x y" using Cons.prems [of x] by auto
  obtain ys where ys: "map_result f xs = Inr ys" "list_all2 P xs ys" using Cons by auto
  show ?case using y ys by simp
qed simp

lemma list_all2_map_eq: "list_all2 (\<lambda>x y. Q y \<and> g y = h x) xs ys \<Longrightarrow> map g ys = map h xs \<and> (\<forall>y \<in> set ys. Q y)"
  by (induction rule: list_all2_induct) auto

lemma build_seeds_total:
  assumes "build_inputs_ok cfg violations objects"
  shows "\<exists>seeds. build_seeds cfg objects catalog violations = Inr seeds \<and> seeds_ok seeds \<and>
    fst ` set seeds = v_violation_id ` set violations"
proof -
  have one: "\<exists>s. build_seed cfg objects catalog v = Inr s \<and> (seed_ok s \<and> seed_id s = v_violation_id v)"
    if "v \<in> set (sort_key v_violation_id violations)" for v
    using build_seed_total assms that by (auto simp: build_inputs_ok_def)
  obtain ss where
    ss: "map_result (build_seed cfg objects catalog) (sort_key v_violation_id violations) = Inr ss"
    "list_all2 (\<lambda>v s. seed_ok s \<and> seed_id s = v_violation_id v) (sort_key v_violation_id violations) ss"
    using map_result_all2 [where f = "build_seed cfg objects catalog" and xs = "sort_key v_violation_id violations"
        and P = "\<lambda>v s. seed_ok s \<and> seed_id s = v_violation_id v", OF one] by blast
  have ids: "map seed_id ss = map v_violation_id (sort_key v_violation_id violations)" and ok: "\<forall>s \<in> set ss. seed_ok s"
    using list_all2_map_eq [OF ss(2)] by auto
  let ?seeds = "dict_of (map (\<lambda>s. (seed_id s, s)) ss)"
  have "fst ` set ?seeds = set (map seed_id ss)" unfolding keys_dict_of by (simp add: image_image)
  also have "\<dots> = v_violation_id ` set violations" unfolding ids by simp
  finally have "fst ` set ?seeds = v_violation_id ` set violations" .
  moreover have "seeds_ok ?seeds"
    using set_dict_of [of "map (\<lambda>s. (seed_id s, s)) ss"] ok by (auto simp: seeds_ok_def)
  ultimately show ?thesis using ss(1) by (simp add: build_seeds_def)
qed

subsection \<open>The groups of a build\<close>

lemma uf_find_all_law:
  assumes "uf_inv p" "set xs \<subseteq> uf_keys p"
  obtains q where "find_all uf_find p xs = Some (q, map (uf_root p) xs)" "uf_inv q" "uf_keys q = uf_keys p"
    "\<And>z. z \<in> uf_keys p \<Longrightarrow> uf_root q z = uf_root p z"
  using uf.find_all_law [OF assms] by blast

lemma merge_members_total:
  assumes "uf_inv p" "u \<in> uf_keys p" "v \<in> uf_keys p" "fst ` set seeds \<subseteq> uf_keys p"
  shows "\<exists>q members. merge_members p u v seeds = Some (q, members) \<and> uf_inv q \<and> uf_keys q = uf_keys p \<and>
    (\<forall>z \<in> uf_keys p. uf_root q z = uf_root p z) \<and>
    members = map snd (filter (\<lambda>(i, s). uf_root p i \<in> {uf_root p u, uf_root p v}) seeds)"
  using assms
proof (induction seeds arbitrary: p)
  case (Cons entry rest)
  obtain i s where i: "entry = (i, s)" by (cases entry)
  have "set [i, u, v] \<subseteq> uf_keys p" using Cons.prems i by simp
  from uf_find_all_law [OF Cons.prems(1) this] obtain p1 where
    p1: "find_all uf_find p [i, u, v] = Some (p1, map (uf_root p) [i, u, v])" "uf_inv p1" "uf_keys p1 = uf_keys p"
      "\<And>z. z \<in> uf_keys p \<Longrightarrow> uf_root p1 z = uf_root p z"
    by blast
  obtain q ms where q: "merge_members p1 u v rest = Some (q, ms)" "uf_inv q" "uf_keys q = uf_keys p1"
    "\<forall>z \<in> uf_keys p1. uf_root q z = uf_root p1 z"
    "ms = map snd (filter (\<lambda>(i, s). uf_root p1 i \<in> {uf_root p1 u, uf_root p1 v}) rest)"
    using Cons.IH [OF p1(2)] Cons.prems p1(3) by auto
  have "filter (\<lambda>(i, s). uf_root p1 i \<in> {uf_root p1 u, uf_root p1 v}) rest
      = filter (\<lambda>(i, s). uf_root p i \<in> {uf_root p u, uf_root p v}) rest"
    using p1(4) Cons.prems(2-4) by (intro filter_cong) auto
  then show ?case using p1 q i by simp
qed simp

text \<open>Merging along an edge keeps the structure valid and only ever joins classes.\<close>

definition uf_coarser :: "string parents \<Rightarrow> string parents \<Rightarrow> bool" where
  "uf_coarser q p \<longleftrightarrow> uf_inv q \<and> uf_keys q = uf_keys p \<and>
     (\<forall>x \<in> uf_keys p. \<forall>y \<in> uf_keys p. uf_root p x = uf_root p y \<longrightarrow> uf_root q x = uf_root q y)"

lemma uf_coarser_refl: "uf_inv p \<Longrightarrow> uf_coarser p p"
  by (simp add: uf_coarser_def)

lemma uf_coarserD: "uf_coarser q p \<Longrightarrow> uf_inv q" "uf_coarser q p \<Longrightarrow> uf_keys q = uf_keys p"
  "uf_coarser q p \<Longrightarrow> x \<in> uf_keys p \<Longrightarrow> y \<in> uf_keys p \<Longrightarrow> uf_root p x = uf_root p y \<Longrightarrow>
     uf_root q x = uf_root q y"
  unfolding uf_coarser_def by blast+

lemma uf_coarser_trans: "uf_coarser r q \<Longrightarrow> uf_coarser q p \<Longrightarrow> uf_coarser r p"
proof -
  assume rq: "uf_coarser r q" and qp: "uf_coarser q p"
  have k: "uf_keys r = uf_keys p" using uf_coarserD(2) [OF rq] uf_coarserD(2) [OF qp] by (rule trans)
  have "uf_root r x = uf_root r y" if xy: "x \<in> uf_keys p" "y \<in> uf_keys p" "uf_root p x = uf_root p y" for x y
  proof (rule uf_coarserD(3) [OF rq])
    show "x \<in> uf_keys q" "y \<in> uf_keys q" unfolding uf_coarserD(2) [OF qp] by (rule xy)+
    show "uf_root q x = uf_root q y" by (rule uf_coarserD(3) [OF qp xy])
  qed
  then show "uf_coarser r p"
    unfolding uf_coarser_def [of r p] using uf_coarserD(1) [OF rq] k by blast
qed

lemma uf_coarser_same:
  "uf_inv q \<Longrightarrow> uf_keys q = uf_keys p \<Longrightarrow> (\<And>z. z \<in> uf_keys p \<Longrightarrow> uf_root q z = uf_root p z) \<Longrightarrow> uf_coarser q p"
  by (simp add: uf_coarser_def)

lemma uf_union_coarser:
  assumes "uf_inv p" "x \<in> uf_keys p" "y \<in> uf_keys p"
  obtains q where "uf_union p x y = Some q" "uf_coarser q p"
  using uf.union_law [OF assms] by (auto simp: uf_coarser_def)

lemma merge_edge_total:
  assumes p: "uf_inv p" "uf_keys p = fst ` set seeds" and e: "re_u e \<in> uf_keys p" "re_v e \<in> uf_keys p"
    and seeds: "seeds_ok seeds"
  shows "\<exists>q. merge_edge cfg seeds p e = Inr q \<and> uf_coarser q p"
proof (cases "re_merge e")
  case False
  then show ?thesis using p uf_coarser_refl by (simp add: merge_edge_def)
next
  case True
  have "set [re_u e, re_v e] \<subseteq> uf_keys p" using e by simp
  from uf_find_all_law [OF p(1) this] obtain p1 where
    p1: "find_all uf_find p [re_u e, re_v e] = Some (p1, map (uf_root p) [re_u e, re_v e])" "uf_inv p1"
      "uf_keys p1 = uf_keys p" "\<And>z. z \<in> uf_keys p \<Longrightarrow> uf_root p1 z = uf_root p z"
    by blast
  have c1: "uf_coarser p1 p" using p1 by (intro uf_coarser_same)
  show ?thesis
  proof (cases "uf_root p (re_u e) = uf_root p (re_v e)")
    case same: True
    then show ?thesis using True p1(1) c1 by (simp add: merge_edge_def)
  next
    case diff: False
    obtain p2 ms where p2: "merge_members p1 (re_u e) (re_v e) seeds = Some (p2, ms)" "uf_inv p2"
      "uf_keys p2 = uf_keys p1" "\<forall>z \<in> uf_keys p1. uf_root p2 z = uf_root p1 z"
      "ms = map snd (filter (\<lambda>(i, s). uf_root p1 i \<in> {uf_root p1 (re_u e), uf_root p1 (re_v e)}) seeds)"
      using merge_members_total [OF p1(2), of "re_u e" "re_v e" seeds] e p(2) p1(3) by auto
    have c2: "uf_coarser p2 p"
      using p2 by (intro uf_coarser_trans [OF uf_coarser_same c1]) auto
    have "(re_u e, the (map_of seeds (re_u e))) \<in> set seeds"
      using e(1) p(2) seeds by (auto simp: seeds_ok_def)
    then have "ms \<noteq> []" unfolding p2(5) by (force simp: filter_empty_conv)
    moreover have "\<forall>s \<in> set ms. seed_ok s" using seeds unfolding p2(5) by (auto simp: seeds_ok_def)
    ultimately obtain fits where f: "cap_ok cfg ms = Inr fits" using cap_ok_total by blast
    obtain q where q: "uf_union p2 (re_u e) (re_v e) = Some q" "uf_coarser q p2"
      using uf_union_coarser [OF p2(2)] e p1(3) p2(3) by metis
    have "merge_edge cfg seeds p e = (if fits then Inr q else Inr p2)"
      unfolding merge_edge_def using True diff p1(1) p2(1) f q(1) by simp
    then show ?thesis using uf_coarser_trans [OF q(2) c2] c2 by (cases fits) auto
  qed
qed

lemma merge_edges_total:
  assumes "uf_inv p" "uf_keys p = fst ` set seeds" "seeds_ok seeds"
    and "\<forall>e \<in> set es. re_u e \<in> uf_keys p \<and> re_v e \<in> uf_keys p"
  shows "\<exists>q. merge_edges cfg seeds p es = Inr q \<and> uf_coarser q p"
  using assms
proof (induction es arbitrary: p)
  case Nil
  then show ?case by (simp add: uf_coarser_refl)
next
  case (Cons e es)
  obtain p1 where p1: "merge_edge cfg seeds p e = Inr p1" "uf_coarser p1 p"
    using merge_edge_total [OF Cons.prems(1,2) _ _ Cons.prems(3), of e] Cons.prems(4) by auto
  obtain q where "merge_edges cfg seeds p1 es = Inr q" "uf_coarser q p1"
    using Cons.IH [OF uf_coarserD(1) [OF p1(2)]] Cons.prems(2-4) uf_coarserD(2) [OF p1(2)] by auto
  then show ?case using p1 uf_coarser_trans by auto
qed

lemma affinity_edge_ends:
  assumes "e \<in> set (affinity_edges cfg seeds)"
  obtains a b where "a \<in> set seeds" "b \<in> set seeds" "re_u e = seed_id a" "re_v e = seed_id b"
    "re_hard e = (editable_ids a \<inter> editable_ids b \<noteq> {})"
proof -
  obtain a b where ab: "(a, b) \<in> set (ordered_pairs seeds)" "edge_of cfg (a, b) = Some e"
    using assms by (auto simp: affinity_edges_def List.map_filter_def)
  have "re_u e = seed_id a \<and> re_v e = seed_id b \<and> re_hard e = (editable_ids a \<inter> editable_ids b \<noteq> {})"
    using ab(2) by (auto simp: edge_of_def seed_evidence_def Let_def split: if_splits)
  then show thesis using ordered_pairs_set [OF ab(1)] that by blast
qed

text \<open>
  The groups hold every seed once, and the ends of a hard edge share a group.
\<close>

definition group_ok :: "(string \<times> region_seed) list \<Rightarrow> region_seed list \<Rightarrow> bool" where
  "group_ok seeds g \<longleftrightarrow> g \<noteq> [] \<and> (\<forall>s \<in> set g. seed_ok s \<and> map_of seeds (seed_id s) = Some s)"

lemma seeds_ok_lookup:
  assumes "seeds_ok seeds" "i \<in> fst ` set seeds"
  shows "\<exists>s. map_of seeds i = Some s \<and> seed_id s = i \<and> seed_ok s \<and> s \<in> snd ` set seeds"
proof -
  obtain s where s: "map_of seeds i = Some s" using assms(2) by (metis map_of_eq_None_iff not_None_eq)
  from map_of_SomeD [OF s] show ?thesis using assms(1) s by (force simp: seeds_ok_def)
qed

lemma seeds_ok_member: "seeds_ok seeds \<Longrightarrow> s \<in> snd ` set seeds \<Longrightarrow> map_of seeds (seed_id s) = Some s"
  by (auto simp: seeds_ok_def)

lemma seed_groups_total:
  assumes seeds: "seeds_ok seeds"
  shows "\<exists>edges groups. seed_groups cfg seeds = Inr (edges, groups) \<and>
    edges = affinity_edges cfg (map snd seeds) \<and>
    mset (map seed_id (concat groups)) = mset (py_sorted (fst ` set seeds)) \<and>
    (\<forall>g \<in> set groups. group_ok seeds g) \<and>
    (\<forall>e \<in> set edges. re_hard e \<longrightarrow>
       (\<exists>g \<in> set groups. \<exists>a \<in> set g. \<exists>b \<in> set g. seed_id a = re_u e \<and> seed_id b = re_v e))"
proof -
  let ?K = "fst ` set seeds" and ?edges = "affinity_edges cfg (map snd seeds)"
  let ?hard = "map (\<lambda>e. (re_u e, re_v e)) (filter re_hard ?edges)" and ?p0 = "uf_init (map fst seeds)"
  have ends: "re_u e \<in> ?K \<and> re_v e \<in> ?K" if e: "e \<in> set ?edges" for e
  proof -
    obtain a b where ab: "a \<in> set (map snd seeds)" "b \<in> set (map snd seeds)" "re_u e = seed_id a" "re_v e = seed_id b"
      using affinity_edge_ends [OF e] by metis
    have "seed_id s \<in> ?K" if "s \<in> set (map snd seeds)" for s
      using that seeds by (force simp: seeds_ok_def)
    then show ?thesis using ab by simp
  qed
  have k0: "uf_keys ?p0 = ?K" by (simp add: uf_init_facts)
  have hk: "\<forall>(l, r) \<in> set ?hard. l \<in> uf_keys ?p0 \<and> r \<in> uf_keys ?p0" using ends k0 by auto
  obtain p where p: "union_all uf_union ?p0 ?hard = Some p" "uf_inv p" "uf_keys p = uf_keys ?p0"
    "\<forall>x \<in> uf_keys ?p0. \<forall>y \<in> uf_keys ?p0. uf_root p x = uf_root p y \<longleftrightarrow>
       (x, y) \<in> (uf.same_class ?p0 \<union> set ?hard \<union> (set ?hard)\<inverse>)\<^sup>*"
    using uf.union_all_law [OF uf_init_facts(2) hk] by blast
  have ek: "\<forall>e \<in> set (sort_key edge_key ?edges). re_u e \<in> uf_keys p \<and> re_v e \<in> uf_keys p"
    using ends p(3) k0 by simp
  obtain p1 where p1: "merge_edges cfg seeds p (sort_key edge_key ?edges) = Inr p1" "uf_coarser p1 p"
    using merge_edges_total [OF p(2) _ seeds ek, of cfg] p(3) k0 by auto
  note inv1 = uf_coarserD(1) [OF p1(2)]
  have k1: "uf_keys p1 = ?K" using uf_coarserD(2) [OF p1(2)] p(3) k0 by simp
  let ?items = "py_sorted (set (map fst p1))"
  have items: "set (map fst p1) = ?K" using k1 by (simp add: uf_keys_def)
  obtain p2 gs where gs: "uf_groups p1 = Some (p2, gs)" "mset (concat gs) = mset ?items" "[] \<notin> set gs"
    "\<forall>g \<in> set gs. \<exists>r. g = filter (\<lambda>x. uf_root p1 x = r) ?items"
    using uf.grouped_law [OF inv1, of ?items] k1 items unfolding uf_groups_def by auto
  let ?groups = "map (map (\<lambda>i. the (map_of seeds i))) gs"
  have members: "\<forall>g \<in> set gs. set g \<subseteq> ?K" using gs(4) items by fastforce
  have look: "\<And>i. i \<in> ?K \<Longrightarrow> seed_id (the (map_of seeds i)) = i"
    using seeds_ok_lookup [OF seeds] by fastforce
  have flat: "map seed_id (concat ?groups) = concat gs"
  proof -
    have "map seed_id (map (\<lambda>i. the (map_of seeds i)) g) = g" if "g \<in> set gs" for g
      using members that look by (auto simp: comp_def intro!: map_idI)
    then show ?thesis by (simp add: map_concat comp_def cong: map_cong)
  qed
  have "mset (map seed_id (concat ?groups)) = mset (py_sorted ?K)"
    unfolding flat using gs(2) unfolding items .
  moreover have "group_ok seeds g" if g_in: "g \<in> set ?groups" for g
  proof -
    obtain ids where ids: "ids \<in> set gs" "g = map (\<lambda>i. the (map_of seeds i)) ids" using g_in by auto
    then have sub: "ids \<noteq> []" "set ids \<subseteq> ?K" using gs(3) members by auto
    have "seed_ok (the (map_of seeds i)) \<and>
        map_of seeds (seed_id (the (map_of seeds i))) = Some (the (map_of seeds i))" if "i \<in> set ids" for i
      using seeds_ok_lookup [OF seeds, of i] subsetD [OF sub(2) that] by (metis option.sel)
    then show ?thesis using sub(1) unfolding group_ok_def ids(2) by simp
  qed
  moreover have "\<exists>g \<in> set ?groups. \<exists>a \<in> set g. \<exists>b \<in> set g. seed_id a = re_u e \<and> seed_id b = re_v e"
    if e: "e \<in> set ?edges" "re_hard e" for e
  proof -
    have uv: "re_u e \<in> ?K" "re_v e \<in> ?K" using ends e by auto
    have "(re_u e, re_v e) \<in> set ?hard" using e by auto
    then have "uf_root p (re_u e) = uf_root p (re_v e)" using p(4) uv k0 by blast
    then have same: "uf_root p1 (re_u e) = uf_root p1 (re_v e)"
      by (rule uf_coarserD(3) [OF p1(2), rotated 2]) (simp_all only: p(3) k0 uv)
    have "re_u e \<in> set (concat gs)"
      using gs(2) uv(1) items by (metis List.finite_set mset_eq_setD set_py_sorted)
    then obtain g where g: "g \<in> set gs" "re_u e \<in> set g" by auto
    then obtain r where r: "g = filter (\<lambda>x. uf_root p1 x = r) ?items" using gs(4) by blast
    have v: "re_v e \<in> set g" using g(2) same uv items unfolding r by simp
    let ?f = "\<lambda>i. the (map_of seeds i)"
    have in_g: "?f i \<in> set (map ?f g)" if "i \<in> set g" for i using that by simp
    have "map ?f g \<in> set ?groups" using g(1) by simp
    then show ?thesis using in_g [OF g(2)] in_g [OF v] look [OF uv(1)] look [OF uv(2)] by blast
  qed
  ultimately show ?thesis
    using p(1) p1(1) gs(1) by (simp add: seed_groups_def Let_def)
qed

subsection \<open>A build covers its violations\<close>

lemma seeds_hull_total:
  assumes "seeds \<noteq> []" "\<forall>s \<in> set seeds. box_ordered (f s)"
  shows "\<exists>h. seeds_hull f seeds = Inr h \<and> (\<forall>s \<in> set seeds. box_contains h (f s))"
proof -
  obtain s rest where sr: "seeds = s # rest" using assms(1) by (cases seeds) auto
  obtain u where "union_boxes (f s) (map f rest) = Inr u" "\<forall>b \<in> insert (f s) (set (map f rest)). box_contains u b"
    using union_boxes_total [of "f s" "map f rest"] assms(2) sr by auto
  then show ?thesis by (auto simp: seeds_hull_def first_box_def sr)
qed

definition region_of_part :: "region_config \<Rightarrow> region_seed list \<Rightarrow> region_state \<Rightarrow> bool" where
  "region_of_part cfg part r \<longleftrightarrow>
     mset (rg_violation_ids r) = mset (map seed_id part) \<and>
     (\<forall>s \<in> set part. box_contains (rg_bbox_dbu r) (sv_seed s)) \<and>
     cap_ok cfg part = Inr (rg_status r = RegionActive) \<and>
     rg_status r \<in> {RegionActive, RegionOversized}"

lemma finalize_total:
  assumes "part \<noteq> []" "\<forall>s \<in> set part. seed_ok s"
  shows "\<exists>r. finalize sh cfg previous part = Inr r \<and> region_of_part cfg part r"
proof -
  obtain b where b: "seeds_hull sv_seed part = Inr b" "\<forall>s \<in> set part. box_contains b (sv_seed s)"
    using seeds_hull_total [OF assms(1), of sv_seed] assms(2) by (auto simp: seed_ok_def)
  obtain h where h: "seeds_hull sv_halo part = Inr h"
    using seeds_hull_total [OF assms(1), of sv_halo] assms(2) by (auto simp: seed_ok_def)
  obtain fits where f: "cap_ok cfg part = Inr fits" using cap_ok_total [OF assms] by blast
  let ?r = "region_record sh cfg part previous b h (\<not> fits)"
  have "rg_violation_ids ?r = map v_violation_id (sort_key v_violation_id (map sv_violation part))"
    "rg_bbox_dbu ?r = b" "rg_status ?r = (if fits then RegionActive else RegionOversized)"
    by (simp_all add: region_record_def Let_def)
  then have "region_of_part cfg part ?r"
    using b f by (simp add: region_of_part_def comp_def image_mset.compositionality)
  then show ?thesis using b h f by (simp add: finalize_def)
qed

lemma concat_disjoint_members:
  assumes "distinct (concat (map f xs))" "a \<in> set xs" "b \<in> set xs" "x \<in> set (f a)" "x \<in> set (f b)"
  shows "a = b"
  using assms by (induction xs) auto

lemma hard_seeds_share:
  assumes "editable_ids a \<inter> editable_ids b \<noteq> {}" "a \<noteq> b" "a \<in> set g" "b \<in> set g"
  shows "\<not> distinct (object_ids g)"
proof
  assume "distinct (object_ids g)"
  moreover obtain x where "x \<in> set (map lo_object_id (sv_objects a))" "x \<in> set (map lo_object_id (sv_objects b))"
    using assms(1) by (auto simp: editable_ids_def)
  ultimately show False
    using assms(2-4) concat_disjoint_members [of "\<lambda>s. map lo_object_id (sv_objects s)" g a b x]
    by (auto simp: object_ids_def)
qed

definition part_ok :: "region_config \<Rightarrow> region_seed list \<Rightarrow> bool" where
  "part_ok cfg part \<longleftrightarrow> part \<noteq> [] \<and> (\<forall>s \<in> set part. seed_ok s) \<and>
     (cap_ok cfg part = Inr True \<or> length part \<le> 1 \<or> \<not> distinct (object_ids part))"

lemma split_groups_total:
  assumes "\<forall>g \<in> set groups. group_ok seeds g"
  shows "\<exists>parts. map_result (split_seeds cfg) groups = Inr parts \<and>
    mset (concat (concat parts)) = mset (concat groups) \<and> (\<forall>part \<in> set (concat parts). part_ok cfg part) \<and>
    (\<forall>g \<in> set groups. \<not> distinct (object_ids g) \<longrightarrow> g \<in> set (concat parts))"
  using assms
proof (induction groups)
  case (Cons g gs)
  have g: "g \<noteq> []" "\<forall>s \<in> set g. seed_ok s" using Cons.prems by (auto simp: group_ok_def)
  obtain ps where ps: "split_seeds cfg g = Inr ps" "mset (concat ps) = mset g" "[] \<notin> set ps"
    "\<forall>part \<in> set ps. cap_ok cfg part = Inr True \<or> length part \<le> 1 \<or> \<not> distinct (object_ids part)"
    using split_seeds_total [OF g] by blast
  have sub: "set (concat ps) = set g" using ps(2) by (metis set_mset_mset)
  have "\<forall>part \<in> set ps. part_ok cfg part"
    unfolding part_ok_def using ps(3,4) g(2) sub by auto
  moreover have "\<not> distinct (object_ids g) \<Longrightarrow> g \<in> set ps"
    using split_seeds_shared [OF ps(1)] by simp
  moreover obtain parts where "map_result (split_seeds cfg) gs = Inr parts"
    "mset (concat (concat parts)) = mset (concat gs)" "\<forall>part \<in> set (concat parts). part_ok cfg part"
    "\<forall>g \<in> set gs. \<not> distinct (object_ids g) \<longrightarrow> g \<in> set (concat parts)"
    using Cons by auto
  ultimately show ?case using ps(1,2) by (auto simp: ball_Un)
qed simp

lemma finalize_parts_total:
  assumes "\<forall>part \<in> set parts. part_ok cfg part"
  shows "\<exists>rs. map_result (finalize sh cfg previous) parts = Inr rs \<and> list_all2 (region_of_part cfg) parts rs"
  using assms finalize_total by (intro map_result_all2) (auto simp: part_ok_def)

lemma regions_of_parts_ids:
  "list_all2 (region_of_part cfg) parts rs \<Longrightarrow>
   mset (concat (map rg_violation_ids rs)) = mset (map seed_id (concat parts))"
  by (induction rule: list_all2_induct) (auto simp: region_of_part_def)

lemma ownership_keys:
  "fst ` set (dict_of (concat (map (\<lambda>r. map (\<lambda>v. (v, rg_region_id r)) (rg_violation_ids r)) rs)))
   = set (concat (map rg_violation_ids rs))"
  unfolding keys_dict_of by (force simp: image_iff)

lemma concat_map_sort_mset: "mset (concat (map f (sort_key k rs))) = mset (concat (map f rs))"
proof -
  have "mset (concat (map f xs)) = \<Sum>\<^sub># (image_mset (\<lambda>x. mset (f x)) (mset xs))" for xs
    by (induction xs) auto
  then show ?thesis by simp
qed

lemma list_all2_members:
  assumes "list_all2 P xs ys"
  shows "\<forall>y \<in> set ys. \<exists>x \<in> set xs. P x y" "\<forall>x \<in> set xs. \<exists>y \<in> set ys. P x y"
  using assms by (induction rule: list_all2_induct) auto

lemma concat_member_id:
  assumes "mset (map seed_id (concat groups)) = mset (py_sorted (f ` set xs))" "g \<in> set groups" "a \<in> set g"
  shows "seed_id a \<in> f ` set xs"
proof -
  have "seed_id a \<in> set (map seed_id (concat groups))" using assms(2,3) by auto
  then show ?thesis using assms(1) by (metis List.finite_set finite_imageI set_mset_mset set_py_sorted)
qed

lemma hard_edge_seeds:
  assumes seeds: "seeds_ok seeds" and e: "e \<in> set (affinity_edges cfg (map snd seeds))" "re_hard e"
    and a: "map_of seeds (re_u e) = Some a" and b: "map_of seeds (re_v e) = Some b"
  shows "editable_ids a \<inter> editable_ids b \<noteq> {}"
proof -
  obtain a' b' where ab: "a' \<in> set (map snd seeds)" "b' \<in> set (map snd seeds)" "re_u e = seed_id a'"
    "re_v e = seed_id b'" "re_hard e = (editable_ids a' \<inter> editable_ids b' \<noteq> {})"
    using affinity_edge_ends [OF e(1)] by metis
  have "map_of seeds (seed_id a') = Some a'" "map_of seeds (seed_id b') = Some b'"
    using seeds_ok_member [OF seeds] ab(1,2) by auto
  then show ?thesis using ab e(2) a b by simp
qed

text \<open>The parts behind a build's regions.\<close>

lemma build_total:
  assumes ok: "build_inputs_ok cfg violations objects"
  shows "\<exists>r parts seeds. build sh cfg violations objects catalog previous = Inr r \<and>
    build_seeds cfg objects catalog violations = Inr seeds \<and>
    mset (concat (map rg_violation_ids (br_regions r))) = mset (py_sorted (v_violation_id ` set violations)) \<and>
    (\<forall>q \<in> set (br_regions r). \<exists>part. part_ok cfg part \<and> region_of_part cfg part q) \<and>
    fst ` set (br_violation_to_region r) = v_violation_id ` set violations \<and>
    br_affinity_edges r = affinity_edges cfg (map snd seeds) \<and>
    (\<forall>e \<in> set (br_affinity_edges r). re_hard e \<longrightarrow>
       (\<exists>q \<in> set (br_regions r). re_u e \<in> set (rg_violation_ids q) \<and> re_v e \<in> set (rg_violation_ids q)))"
proof -
  let ?K = "v_violation_id ` set violations"
  obtain seeds where seeds: "build_seeds cfg objects catalog violations = Inr seeds" "seeds_ok seeds"
    "fst ` set seeds = ?K"
    using build_seeds_total [OF ok] by blast
  obtain edges groups where g: "seed_groups cfg seeds = Inr (edges, groups)"
    "edges = affinity_edges cfg (map snd seeds)"
    "mset (map seed_id (concat groups)) = mset (py_sorted ?K)" "\<forall>g \<in> set groups. group_ok seeds g"
    "\<forall>e \<in> set edges. re_hard e \<longrightarrow>
       (\<exists>g \<in> set groups. \<exists>a \<in> set g. \<exists>b \<in> set g. seed_id a = re_u e \<and> seed_id b = re_v e)"
    using seed_groups_total [OF seeds(2), of cfg] seeds(3) by auto
  obtain parts where parts: "map_result (split_seeds cfg) groups = Inr parts"
    "mset (concat (concat parts)) = mset (concat groups)" "\<forall>part \<in> set (concat parts). part_ok cfg part"
    "\<forall>g \<in> set groups. \<not> distinct (object_ids g) \<longrightarrow> g \<in> set (concat parts)"
    using split_groups_total [OF g(4)] by blast
  obtain rs where rs: "map_result (finalize sh cfg previous) (concat parts) = Inr rs"
    "list_all2 (region_of_part cfg) (concat parts) rs"
    using finalize_parts_total [OF parts(3)] by blast
  let ?regions = "sort_key rg_region_id rs"
  let ?own = "dict_of (concat (map (\<lambda>r. map (\<lambda>v. (v, rg_region_id r)) (rg_violation_ids r)) ?regions))"
  have cover: "mset (concat (map rg_violation_ids ?regions)) = mset (py_sorted ?K)"
    using regions_of_parts_ids [OF rs(2)] parts(2) g(3)
    unfolding concat_map_sort_mset by (metis mset_map)
  then have own: "fst ` set ?own = ?K"
    unfolding ownership_keys by (metis List.finite_set finite_imageI set_mset_mset set_py_sorted)
  have "\<forall>v \<in> set violations. \<exists>y. associate cfg v objects = Inr y"
    using ok associate_total by (fastforce simp: build_inputs_ok_def)
  then obtain changed where ch: "map_result (\<lambda>v. associate cfg v objects) violations = Inr changed"
    using map_result_total by metis
  let ?r = "\<lparr>br_violations = map fst changed, br_regions = ?regions, br_affinity_edges = edges,
      br_violation_to_region = ?own\<rparr>"
  have b: "build sh cfg violations objects catalog previous = Inr ?r"
    using seeds(1) g(1) parts(1) rs(1) own ch by (simp add: build_def Let_def)
  have regions: "\<forall>q \<in> set ?regions. \<exists>part. part_ok cfg part \<and> region_of_part cfg part q"
    using list_all2_members(1) [OF rs(2)] parts(3) by fastforce
  have hard: "\<exists>q \<in> set ?regions. re_u e \<in> set (rg_violation_ids q) \<and> re_v e \<in> set (rg_violation_ids q)"
    if e: "e \<in> set edges" "re_hard e" for e
  proof -
    obtain grp a b where ab: "grp \<in> set groups" "a \<in> set grp" "b \<in> set grp" "seed_id a = re_u e" "seed_id b = re_v e"
      using g(5) e by blast
    have share: "editable_ids a \<inter> editable_ids b \<noteq> {}"
      by (rule hard_edge_seeds [OF seeds(2) e(1) [unfolded g(2)] e(2)]) (use ab g(4) in \<open>metis group_ok_def\<close>)+
    show ?thesis
    proof (cases "a = b")
      case True
      have "re_u e \<in> ?K" using g(3) ab by (metis concat_member_id)
      then have "re_u e \<in> set (concat (map rg_violation_ids ?regions))"
        using cover by (metis List.finite_set finite_imageI set_mset_mset set_py_sorted)
      then show ?thesis using ab True by auto
    next
      case False
      then have "grp \<in> set (concat parts)" using hard_seeds_share [OF share] ab parts(4) by blast
      then obtain q where q: "q \<in> set rs" "region_of_part cfg grp q" using list_all2_members(2) [OF rs(2)] by blast
      then have "set (rg_violation_ids q) = seed_id ` set grp"
        by (metis list.set_map region_of_part_def set_mset_mset)
      then show ?thesis using q(1) ab by (metis imageI set_sort)
    qed
  qed
  show ?thesis
    by (intro exI conjI, rule b) (use seeds(1) cover own g(2) regions hard in simp_all)
qed

section \<open>Properties of a build\<close>

text \<open>
  C3. Building regions from valid inputs always succeeds: no box, lookup or \<open>find\<close> fails, and the
  coverage assertion never fires. Every violation belongs to exactly one region, and the ownership
  map covers exactly the violations of the input.
\<close>

theorem region_build_covers:
  assumes "build_inputs_ok cfg violations objects"
  shows "\<exists>r. build sh cfg violations objects catalog previous = Inr r \<and>
    mset (concat (map rg_violation_ids (br_regions r))) = mset (py_sorted (v_violation_id ` set violations)) \<and>
    fst ` set (br_violation_to_region r) = v_violation_id ` set violations"
  using build_total [OF assms] by metis

text \<open>Seeds that share an editable object have a hard edge when their halos are near enough.\<close>

lemma seed_evidence_hard: "fst (seed_evidence a b gap) \<longleftrightarrow> editable_ids a \<inter> editable_ids b \<noteq> {}"
  by (simp add: seed_evidence_def Let_def)

lemma edge_of_near:
  assumes "box_gap (sv_halo a) (sv_halo b) \<le> real_of_int (rgc_affinity_max_gap_dbu cfg)"
    and "editable_ids a \<inter> editable_ids b \<noteq> {}"
  shows "\<exists>e. edge_of cfg (a, b) = Some e \<and> re_hard e \<and> re_u e = seed_id a \<and> re_v e = seed_id b"
proof -
  obtain hard merge evidence where e: "seed_evidence a b (rgc_affinity_max_gap_dbu cfg) = (hard, merge, evidence)"
    by (rule prod_cases3)
  then have hard using seed_evidence_hard [of a b "rgc_affinity_max_gap_dbu cfg"] assms(2) by simp
  then show ?thesis using assms(1) by (simp add: edge_of_def e not_less)
qed

lemma near_seeds_hard_edge:
  assumes ab: "a \<in> set seeds" "b \<in> set seeds" "a \<noteq> b"
    and near: "box_gap (sv_halo a) (sv_halo b) \<le> real_of_int (rgc_affinity_max_gap_dbu cfg)"
    and shared: "editable_ids a \<inter> editable_ids b \<noteq> {}"
  shows "\<exists>e \<in> set (affinity_edges cfg seeds). re_hard e \<and> {re_u e, re_v e} = {seed_id a, seed_id b}"
proof -
  have one: "\<exists>e \<in> set (affinity_edges cfg seeds). re_hard e \<and> {re_u e, re_v e} = {seed_id x, seed_id y}"
    if xy: "(x, y) \<in> set (ordered_pairs seeds)"
      and gap: "box_gap (sv_halo x) (sv_halo y) \<le> real_of_int (rgc_affinity_max_gap_dbu cfg)"
      and share: "editable_ids x \<inter> editable_ids y \<noteq> {}" for x y
  proof -
    obtain e where e: "edge_of cfg (x, y) = Some e" "re_hard e" "re_u e = seed_id x" "re_v e = seed_id y"
      using edge_of_near [OF gap share] by blast
    have "e \<in> set (affinity_edges cfg seeds)"
      unfolding affinity_edges_def List.map_filter_def using xy e(1) by force
    then show ?thesis using e(2-4) by auto
  qed
  show ?thesis
    using ordered_pairs_complete [OF ab] one [of a b] one [of b a] near shared
    by (auto simp: box_gap_sym [of "sv_halo b"] Int_commute [of "editable_ids b"] insert_commute)
qed

text \<open>The seed of a short object holds its whole box; seeds that share one have overlapping halos.\<close>

definition within_window :: "region_config \<Rightarrow> box \<Rightarrow> bool" where
  "within_window cfg b \<longleftrightarrow>
     real_of_int (max (box_width b) (box_height b)) \<le> real_of_int (rgc_dbu_per_um cfg) * rgc_seed_window_um cfg"

lemma seed_box_contains:
  "seed_box cfg m acc objs = Inr s \<Longrightarrow>
   box_contains s acc \<and> (\<forall>obj \<in> set objs. within_window cfg (lo_bbox_dbu obj) \<longrightarrow> box_contains s (lo_bbox_dbu obj))"
proof (induction objs arbitrary: acc)
  case (Cons obj objs)
  obtain l u where l: "local_box cfg m (lo_bbox_dbu obj) = Inr l" and u: "box_union acc l = Inr u"
    and s: "seed_box cfg m u objs = Inr s"
    using Cons.prems by (auto simp: bind_result_Inr_iff)
  have "within_window cfg (lo_bbox_dbu obj) \<Longrightarrow> l = lo_bbox_dbu obj"
    using l by (simp add: local_box_def within_window_def)
  moreover have "box_contains u acc" "box_contains u l" using box_union_lub [OF u] by blast+
  ultimately show ?case using Cons.IH [OF s] box_contains_trans by auto
qed simp

lemma build_seed_objects:
  assumes "build_seed cfg objects catalog v = Inr s"
  shows "\<exists>v'. associate cfg v objects = Inr (v', sv_objects s)"
    and "seed_box cfg (v_marker_bbox_dbu (sv_violation s)) (v_marker_bbox_dbu (sv_violation s)) (sv_objects s) = Inr (sv_seed s)"
proof -
  obtain v' selected where v': "associate cfg v objects = Inr (v', selected)" "make_seed cfg v' selected catalog = Inr s"
    using assms by (auto simp: build_seed_def bind_result_Inr_iff)
  obtain rule known where "catalog_lookup catalog (v_rule_id v') = (rule, known)" by (rule prod.exhaust)
  with v'(2) have "sv_violation s = v' \<and> sv_objects s = selected \<and>
      seed_box cfg (v_marker_bbox_dbu v') (v_marker_bbox_dbu v') selected = Inr (sv_seed s)"
    by (auto simp: make_seed_def bind_result_Inr_iff)
  then show "\<exists>v'. associate cfg v objects = Inr (v', sv_objects s)"
    "seed_box cfg (v_marker_bbox_dbu (sv_violation s)) (v_marker_bbox_dbu (sv_violation s)) (sv_objects s) = Inr (sv_seed s)"
    using v'(1) by simp_all
qed

lemma associated_objects:
  assumes "associate cfg v objects = Inr (v', selected)"
  shows "set selected \<subseteq> set objects"
proof -
  obtain near where near: "nearby_objects cfg v objects = Inr near" "set selected \<subseteq> set near"
    using associate_result [OF assms] by blast
  have "set near \<subseteq> set objects"
    using near(1) by (auto simp: nearby_objects_def Let_def bind_result_Inr_iff split: if_splits)
  then show ?thesis using near(2) by blast
qed

lemma shared_object_near:
  assumes ok: "build_inputs_ok cfg violations objects"
    and a: "build_seed cfg objects catalog v = Inr a" "seed_ok a" and b: "build_seed cfg objects catalog w = Inr b" "seed_ok b"
    and obj: "obj \<in> set (sv_objects a)" "obj \<in> set (sv_objects b)" "within_window cfg (lo_bbox_dbu obj)"
  shows "box_gap (sv_halo a) (sv_halo b) \<le> real_of_int (rgc_affinity_max_gap_dbu cfg)"
proof -
  have in_halo: "box_contains (sv_halo s) (lo_bbox_dbu obj)"
    if "build_seed cfg objects catalog x = Inr s" "seed_ok s" "obj \<in> set (sv_objects s)" for x s
    using seed_box_contains [OF build_seed_objects(2) [OF that(1)]] that(2,3) obj(3) box_contains_trans
    by (auto simp: seed_ok_def)
  have "obj \<in> set objects"
    using build_seed_objects(1) [OF a(1)] associated_objects obj(1) by blast
  then have "box_ordered (lo_bbox_dbu obj)" using ok by (simp add: build_inputs_ok_def)
  then have "box_intersects (sv_halo a) (sv_halo b)"
    using in_halo [OF a obj(1)] in_halo [OF b obj(2)]
    by (auto simp: box_intersects_def box_contains_def box_ordered_def)
  then have "box_gap (sv_halo a) (sv_halo b) = 0" by (simp add: box_gap_zero_iff)
  then show ?thesis using ok by (simp add: build_inputs_ok_def region_config_ok_def)
qed

lemma map_ids:
  "list_all2 P xs ys \<Longrightarrow> (\<And>x y. x \<in> set xs \<Longrightarrow> P x y \<Longrightarrow> g y = h x) \<Longrightarrow> map g ys = map h xs"
  by (induction rule: list_all2_induct) auto

lemma build_seeds_lookup:
  assumes seeds: "build_seeds cfg objects catalog violations = Inr seeds"
    and distinct: "distinct (map v_violation_id violations)"
    and v: "v \<in> set violations" "build_seed cfg objects catalog v = Inr a"
    and ids: "\<And>v s. v \<in> set violations \<Longrightarrow> build_seed cfg objects catalog v = Inr s \<Longrightarrow> seed_id s = v_violation_id v"
  shows "a \<in> set (map snd seeds)"
proof -
  let ?vs = "sort_key v_violation_id violations"
  obtain ss where ss: "map_result (build_seed cfg objects catalog) ?vs = Inr ss"
    "seeds = dict_of (map (\<lambda>s. (seed_id s, s)) ss)"
    using seeds by (auto simp: build_seeds_def bind_result_Inr_iff)
  have pairs: "list_all2 (\<lambda>v s. build_seed cfg objects catalog v = Inr s) ?vs ss"
    using ss(1) by (rule map_result_list_all2)
  have "map seed_id ss = map v_violation_id ?vs"
    by (rule map_ids [OF pairs]) (simp only: set_sort ids)
  moreover have "distinct (map v_violation_id ?vs)"
    using distinct by (simp only: distinct_map distinct_sort set_sort)
  ultimately have "distinct (map fst (map (\<lambda>s. (seed_id s, s)) ss))" by (simp add: comp_def)
  then have "map snd seeds = ss" unfolding ss(2) by (simp add: dict_of_distinct comp_def)
  moreover have "a \<in> set ss"
  proof -
    have "v \<in> set ?vs" using v(1) by simp
    then obtain s where "s \<in> set ss" "build_seed cfg objects catalog v = Inr s"
      using list_all2_members(2) [OF pairs] by blast
    then show ?thesis using v(2) by simp
  qed
  ultimately show ?thesis by simp
qed

text \<open>
  C4. Violations whose repairs could write the same object are not separated. When the seeds of two
  violations share an editable object and their halos are within the affinity gap, both violations are
  in one region; the halos always are when the seeds share an object that is not longer than the seed
  window, since the seed then holds the whole object. (Seeds that share only a longer object, of which
  each holds a piece, and whose halos are further apart, get no edge.)
\<close>

theorem hard_edges_share_region:
  assumes ok: "build_inputs_ok cfg violations objects" and distinct: "distinct (map v_violation_id violations)"
  shows "\<exists>r. build sh cfg violations objects catalog previous = Inr r \<and>
    (\<forall>v \<in> set violations. \<forall>w \<in> set violations. \<exists>a b.
       build_seed cfg objects catalog v = Inr a \<and> build_seed cfg objects catalog w = Inr b \<and>
       (editable_ids a \<inter> editable_ids b \<noteq> {} \<and>
          (box_gap (sv_halo a) (sv_halo b) \<le> real_of_int (rgc_affinity_max_gap_dbu cfg) \<or>
           (\<exists>obj \<in> set (sv_objects a) \<inter> set (sv_objects b). within_window cfg (lo_bbox_dbu obj))) \<longrightarrow>
        (\<exists>q \<in> set (br_regions r).
           v_violation_id v \<in> set (rg_violation_ids q) \<and> v_violation_id w \<in> set (rg_violation_ids q))))"
proof -
  obtain r seeds where r: "build sh cfg violations objects catalog previous = Inr r"
    and seeds: "build_seeds cfg objects catalog violations = Inr seeds"
    and cover: "mset (concat (map rg_violation_ids (br_regions r))) = mset (py_sorted (v_violation_id ` set violations))"
    and edges: "br_affinity_edges r = affinity_edges cfg (map snd seeds)"
    and hard: "\<forall>e \<in> set (br_affinity_edges r). re_hard e \<longrightarrow>
       (\<exists>q \<in> set (br_regions r). re_u e \<in> set (rg_violation_ids q) \<and> re_v e \<in> set (rg_violation_ids q))"
    using build_total [OF ok] by metis
  have seed: "\<exists>s. build_seed cfg objects catalog v = Inr s \<and> seed_ok s \<and> seed_id s = v_violation_id v"
    if "v \<in> set violations" for v
    using build_seed_total ok that by (auto simp: build_inputs_ok_def)
  have ids: "seed_id s = v_violation_id v" if "v \<in> set violations" "build_seed cfg objects catalog v = Inr s" for v s
    using seed [OF that(1)] that(2) by auto
  have "\<exists>q \<in> set (br_regions r). v_violation_id v \<in> set (rg_violation_ids q) \<and> v_violation_id w \<in> set (rg_violation_ids q)"
    if v: "v \<in> set violations" "build_seed cfg objects catalog v = Inr a" "seed_ok a"
      and w: "w \<in> set violations" "build_seed cfg objects catalog w = Inr b" "seed_ok b"
      and shared: "editable_ids a \<inter> editable_ids b \<noteq> {}"
      and near: "box_gap (sv_halo a) (sv_halo b) \<le> real_of_int (rgc_affinity_max_gap_dbu cfg) \<or>
        (\<exists>obj \<in> set (sv_objects a) \<inter> set (sv_objects b). within_window cfg (lo_bbox_dbu obj))" for v w a b
  proof (cases "a = b")
    case True
    then have same: "v_violation_id w = v_violation_id v" using ids v(1,2) w(1,2) by metis
    have "v_violation_id v \<in> set (concat (map rg_violation_ids (br_regions r)))"
      using cover v(1) by (metis List.finite_set finite_imageI imageI set_mset_mset set_py_sorted)
    then show ?thesis unfolding same by auto
  next
    case False
    have gap: "box_gap (sv_halo a) (sv_halo b) \<le> real_of_int (rgc_affinity_max_gap_dbu cfg)"
      using near shared_object_near [OF ok v(2,3) w(2,3)] by blast
    have "a \<in> set (map snd seeds)" "b \<in> set (map snd seeds)"
      using build_seeds_lookup [OF seeds distinct _ _ ids] v(1,2) w(1,2) by blast+
    from near_seeds_hard_edge [OF this False gap shared] obtain e where
      e: "e \<in> set (br_affinity_edges r)" "re_hard e" "{re_u e, re_v e} = {seed_id a, seed_id b}"
      unfolding edges by blast
    obtain q where q: "q \<in> set (br_regions r)" "{re_u e, re_v e} \<subseteq> set (rg_violation_ids q)"
      using hard e(1,2) by blast
    show ?thesis using q unfolding e(3) ids [OF v(1,2)] ids [OF w(1,2)] by blast
  qed
  then show ?thesis using r seed by metis
qed

text \<open>
  A region is only left over the configured caps where it could not be cut: every region of a
  build is active and its seeds are within the caps, or it is marked oversized and consists of one
  seed or of seeds that share an object.
\<close>

theorem region_caps:
  assumes "build_inputs_ok cfg violations objects"
  shows "\<exists>r. build sh cfg violations objects catalog previous = Inr r \<and>
    (\<forall>q \<in> set (br_regions r). \<exists>part. mset (rg_violation_ids q) = mset (map seed_id part) \<and>
       cap_ok cfg part = Inr (rg_status q = RegionActive) \<and>
       (rg_status q = RegionActive \<or>
        rg_status q = RegionOversized \<and> (length part \<le> 1 \<or> \<not> distinct (object_ids part))))"
proof -
  have one: "\<exists>part. mset (rg_violation_ids q) = mset (map seed_id part) \<and>
       cap_ok cfg part = Inr (rg_status q = RegionActive) \<and>
       (rg_status q = RegionActive \<or>
        rg_status q = RegionOversized \<and> (length part \<le> 1 \<or> \<not> distinct (object_ids part)))"
    if q: "\<exists>part. part_ok cfg part \<and> region_of_part cfg part q" for q
    using q by (auto simp: part_ok_def region_of_part_def)
  show ?thesis using build_total [OF assms] one by metis
qed

text \<open>Inputs for the witnesses: two markers next to one wire.\<close>

definition example_violation :: "string \<Rightarrow> int \<Rightarrow> violation_record" where
  "example_violation vid x = \<lparr>v_violation_id = vid, v_case_id = ''c'', v_report_iteration = 0,
     v_rule_id = ''M1.S.1'', v_rule_family = FamilySpacing, v_description = None,
     v_marker_type = MarkerBbox, v_marker_bbox_dbu = \<lparr>bx_x1 = x, bx_y1 = 0, bx_x2 = x + 20, bx_y2 = 10\<rparr>,
     v_marker_geometry_dbu = PointGeometry [],
     v_layers = [''M1''], v_severity = 1, v_source_report_path = ''r'', v_source_index = 0,
     v_associated_object_ids = [], v_association_quality = AssocUnknown, v_fingerprint = ''f''\<rparr>"

definition example_object :: layout_object where
  "example_object = \<lparr>lo_object_id = ''o1'', lo_source_anchor_id = Some ''a1'', lo_kind = KindPolygon,
     lo_layer = ''M1'', lo_bbox_dbu = \<lparr>bx_x1 = 0, bx_y1 = 10, bx_x2 = 100, bx_y2 = 28\<rparr>,
     lo_geometry_dbu = None, lo_net_id = None, lo_net_mapping_quality = NetUnavailable,
     lo_connectivity_component_id = None, lo_routing_type = Some ''routing'', lo_editability = EditabilityA,
     lo_touches_region_boundary = False, lo_source_span = None, lo_insertion_source_span = None,
     lo_source_variable = None, lo_source_cell = None, lo_layer_number = Some 10, lo_geometry_hash = ''h''\<rparr>"

lemma example_inputs_ok:
  "build_inputs_ok default_region_config [example_violation ''v1'' 0, example_violation ''v2'' 60] [example_object]"
  by (simp add: build_inputs_ok_def region_config_ok_def default_region_config_def example_violation_def
      example_object_def)

lemma region_build_covers_witness:
  "\<forall>sh catalog. \<exists>r. build sh default_region_config [example_violation ''v1'' 0, example_violation ''v2'' 60] [example_object]
      catalog [] = Inr r \<and> fst ` set (br_violation_to_region r) = {''v1'', ''v2''}"
proof (intro allI)
  fix sh catalog
  show "\<exists>r. build sh default_region_config [example_violation ''v1'' 0, example_violation ''v2'' 60] [example_object]
      catalog [] = Inr r \<and> fst ` set (br_violation_to_region r) = {''v1'', ''v2''}"
    using region_build_covers [OF example_inputs_ok, of sh catalog "[]"]
    by (auto simp: example_violation_def)
qed

lemma example_associated:
  "map_sum id snd (associate default_region_config (example_violation ''v1'' 0) [example_object]) = Inr [example_object]"
  "map_sum id snd (associate default_region_config (example_violation ''v2'' 60) [example_object]) = Inr [example_object]"
  by code_simp+

lemma hard_edges_share_region_witness:
  "\<forall>sh catalog. \<exists>r. build sh default_region_config [example_violation ''v1'' 0, example_violation ''v2'' 60] [example_object]
      catalog [] = Inr r \<and> (\<exists>q \<in> set (br_regions r). ''v1'' \<in> set (rg_violation_ids q) \<and> ''v2'' \<in> set (rg_violation_ids q))"
proof (intro allI)
  fix sh catalog
  let ?v = "example_violation ''v1'' 0" and ?w = "example_violation ''v2'' 60"
  have "distinct (map v_violation_id [?v, ?w])" by (simp add: example_violation_def)
  from hard_edges_share_region [OF example_inputs_ok this, of sh catalog "[]"]
  obtain r where r: "build sh default_region_config [?v, ?w] [example_object] catalog [] = Inr r"
    and all: "\<forall>v \<in> set [?v, ?w]. \<forall>w \<in> set [?v, ?w]. \<exists>a b.
       build_seed default_region_config [example_object] catalog v = Inr a \<and>
       build_seed default_region_config [example_object] catalog w = Inr b \<and>
       (editable_ids a \<inter> editable_ids b \<noteq> {} \<and>
          (box_gap (sv_halo a) (sv_halo b) \<le> real_of_int (rgc_affinity_max_gap_dbu default_region_config) \<or>
           (\<exists>obj \<in> set (sv_objects a) \<inter> set (sv_objects b). within_window default_region_config (lo_bbox_dbu obj))) \<longrightarrow>
        (\<exists>q \<in> set (br_regions r).
           v_violation_id v \<in> set (rg_violation_ids q) \<and> v_violation_id w \<in> set (rg_violation_ids q)))"
    by (elim exE conjE)
  have "?v \<in> set [?v, ?w]" "?w \<in> set [?v, ?w]" by simp_all
  from bspec [OF bspec [OF all this(1)] this(2)] obtain a b where
    a: "build_seed default_region_config [example_object] catalog ?v = Inr a"
    and b: "build_seed default_region_config [example_object] catalog ?w = Inr b"
    and together: "editable_ids a \<inter> editable_ids b \<noteq> {} \<and>
        (box_gap (sv_halo a) (sv_halo b) \<le> real_of_int (rgc_affinity_max_gap_dbu default_region_config) \<or>
         (\<exists>obj \<in> set (sv_objects a) \<inter> set (sv_objects b). within_window default_region_config (lo_bbox_dbu obj))) \<longrightarrow>
      (\<exists>q \<in> set (br_regions r). v_violation_id ?v \<in> set (rg_violation_ids q) \<and> v_violation_id ?w \<in> set (rg_violation_ids q))"
    by (elim exE conjE)
  have objects: "sv_objects a = [example_object]" "sv_objects b = [example_object]"
    using build_seed_objects(1) [OF a] build_seed_objects(1) [OF b] example_associated by auto
  have "editable_ids a \<inter> editable_ids b \<noteq> {}" by (simp add: editable_ids_def objects example_object_def)
  moreover have "within_window default_region_config (lo_bbox_dbu example_object)"
    by (simp add: within_window_def default_region_config_def example_object_def box_width_def box_height_def)
  ultimately show "\<exists>r. build sh default_region_config [?v, ?w] [example_object] catalog [] = Inr r \<and>
      (\<exists>q \<in> set (br_regions r). ''v1'' \<in> set (rg_violation_ids q) \<and> ''v2'' \<in> set (rg_violation_ids q))"
    using together r objects by (auto simp: example_violation_def)
qed

lemma region_caps_witness:
  "\<forall>sh catalog. \<exists>r. build sh default_region_config [example_violation ''v1'' 0, example_violation ''v2'' 60] [example_object]
      catalog [] = Inr r \<and> (\<forall>q \<in> set (br_regions r). rg_status q \<in> {RegionActive, RegionOversized})"
proof (intro allI)
  fix sh catalog
  show "\<exists>r. build sh default_region_config [example_violation ''v1'' 0, example_violation ''v2'' 60] [example_object]
      catalog [] = Inr r \<and> (\<forall>q \<in> set (br_regions r). rg_status q \<in> {RegionActive, RegionOversized})"
    using region_caps [OF example_inputs_ok, of sh catalog "[]"] by auto
qed

end
