(* ===== verification/Graph_Search.thy ===== *)
theory Graph_Search
  imports Prelude
begin

text \<open>
  The breadth-first searches of the program. \<open>src/drc_agent/workflow/active_window.py\<close> runs the
  same loop three times: a \<open>deque\<close> of nodes still to visit, a set of nodes seen, and for every node
  taken from the front the unseen neighbours, in sorted order, go to the back and into the set.
  \<open>bfs\<close> is that loop. A \<open>defaultdict(set)\<close> of neighbours is the list of its pairs (node,
  neighbour), here called arcs.

  The locale \<open>closure_search\<close> is what the callers use of a search: it returns the least set of
  nodes that holds the start nodes and is closed under the arcs. Their lemmas are proved from that
  contract, and \<open>bfs\<close> is its interpretation.
\<close>

type_synonym 'a arcs = "('a \<times> 'a) list"

subsection \<open>Adjacency\<close>

definition arc_targets :: "'a arcs \<Rightarrow> 'a \<Rightarrow> 'a set" where
  "arc_targets arcs x = set (map snd (filter (\<lambda>a. fst a = x) arcs))"

definition both_ways :: "'a \<Rightarrow> 'a \<Rightarrow> 'a arcs" where
  "both_ways u v = [(u, v), (v, u)]"

lemma arc_targets_iff [simp]: "y \<in> arc_targets arcs x \<longleftrightarrow> (x, y) \<in> set arcs"
  by (force simp: arc_targets_def)

lemma finite_arc_targets [simp]: "finite (arc_targets arcs x)"
  by (simp add: arc_targets_def)

lemma sym_both_ways: "sym (set (concat (map (\<lambda>e. both_ways (f e) (g e)) es)))"
  by (auto simp: sym_def both_ways_def)

subsection \<open>The search\<close>

function bfs :: "'a::linorder arcs \<Rightarrow> 'a list \<Rightarrow> 'a set \<Rightarrow> 'a set" where
  "bfs arcs [] seen = seen"
| "bfs arcs (current # queue) seen =
     (let new = filter (\<lambda>n. n \<notin> seen) (py_sorted (arc_targets arcs current))
      in bfs arcs (queue @ new) (seen \<union> set new))"
  by pat_completeness auto

text \<open>Every node enters the queue at most once, so the unseen nodes and the queue shrink together.\<close>

lemma unseen_targets:
  assumes "finite U" "set new \<subseteq> U - seen" "distinct new"
  shows "card (U - (seen \<union> set new)) + length new = card (U - seen)"
proof -
  have eq: "U - (seen \<union> set new) = (U - seen) - set new" by blast
  have "card ((U - seen) - set new) = card (U - seen) - card (set new)"
    using assms by (intro card_Diff_subset) auto
  moreover have "card (set new) \<le> card (U - seen)"
    using assms by (intro card_mono) auto
  ultimately show ?thesis using distinct_card [OF assms(3)] unfolding eq by linarith
qed

termination bfs
proof (relation "measure (\<lambda>(arcs, queue, seen). card (snd ` set arcs - seen) + length queue)")
  fix arcs :: "'a arcs" and current :: 'a and queue seen new
  assume new: "new = filter (\<lambda>n. n \<notin> seen) (py_sorted (arc_targets arcs current))"
  have "set new \<subseteq> snd ` set arcs - seen" unfolding new by force
  moreover have "distinct new" unfolding new by simp
  ultimately have "card (snd ` set arcs - (seen \<union> set new)) + length new = card (snd ` set arcs - seen)"
    by (intro unseen_targets) auto
  then show "((arcs, queue @ new, seen \<union> set new), arcs, current # queue, seen)
      \<in> measure (\<lambda>(arcs, queue, seen). card (snd ` set arcs - seen) + length queue)"
    by simp
qed simp

text \<open>The queue is always seen, and what is seen but no longer queued has all its neighbours seen.\<close>

lemma bfs_mono: "seen \<subseteq> bfs arcs queue seen"
proof (induction arcs queue seen rule: bfs.induct)
  case (2 arcs current queue seen)
  then show ?case by (simp add: Let_def)
qed simp

lemma bfs_closed:
  assumes "set queue \<subseteq> seen"
    and "\<And>x y. x \<in> seen \<Longrightarrow> x \<notin> set queue \<Longrightarrow> (x, y) \<in> set arcs \<Longrightarrow> y \<in> seen"
  shows "x \<in> bfs arcs queue seen \<Longrightarrow> (x, y) \<in> set arcs \<Longrightarrow> y \<in> bfs arcs queue seen"
  using assms
proof (induction arcs queue seen rule: bfs.induct)
  case (2 arcs current queue seen)
  define new where "new = filter (\<lambda>n. n \<notin> seen) (py_sorted (arc_targets arcs current))"
  have set_new: "set new = arc_targets arcs current - seen" unfolding new_def by auto
  have unfolded: "bfs arcs (current # queue) seen = bfs arcs (queue @ new) (seen \<union> set new)"
    by (simp add: new_def Let_def)
  have "set (queue @ new) \<subseteq> seen \<union> set new" using "2.prems"(3) by auto
  moreover have "y \<in> seen \<union> set new"
    if "x \<in> seen \<union> set new" "x \<notin> set (queue @ new)" "(x, y) \<in> set arcs" for x y
  proof (cases "x = current")
    case True
    then show ?thesis using that set_new by auto
  next
    case False
    then show ?thesis using that "2.prems"(4) [of x y] by auto
  qed
  ultimately show ?case
    using "2.IH" [OF new_def] "2.prems"(1,2) unfolding unfolded by blast
qed simp

lemma bfs_least:
  assumes "\<And>x y. x \<in> T \<Longrightarrow> (x, y) \<in> set arcs \<Longrightarrow> y \<in> T"
  shows "seen \<subseteq> T \<Longrightarrow> set queue \<subseteq> T \<Longrightarrow> bfs arcs queue seen \<subseteq> T"
  using assms
proof (induction arcs queue seen rule: bfs.induct)
  case (2 arcs current queue seen)
  define new where "new = filter (\<lambda>n. n \<notin> seen) (py_sorted (arc_targets arcs current))"
  have "set new \<subseteq> T" using "2.prems" unfolding new_def by auto
  then have "bfs arcs (queue @ new) (seen \<union> set new) \<subseteq> T"
    using "2.prems" by (intro "2.IH" [OF new_def]) auto
  then show ?case by (simp add: new_def Let_def)
qed simp

definition bfs_from :: "'a::linorder arcs \<Rightarrow> 'a set \<Rightarrow> 'a set" where
  "bfs_from arcs S = bfs arcs (py_sorted S) S"

subsection \<open>The contract of a search\<close>

locale closure_search =
  fixes arcs :: "('a \<times> 'a) set"
    and search :: "'a set \<Rightarrow> 'a set"
  assumes search_start: "finite S \<Longrightarrow> S \<subseteq> search S"
    and search_closed: "finite S \<Longrightarrow> x \<in> search S \<Longrightarrow> (x, y) \<in> arcs \<Longrightarrow> y \<in> search S"
    and search_least:
      "finite S \<Longrightarrow> S \<subseteq> T \<Longrightarrow> (\<And>x y. x \<in> T \<Longrightarrow> (x, y) \<in> arcs \<Longrightarrow> y \<in> T) \<Longrightarrow> search S \<subseteq> T"
begin

lemma search_reachable: "finite S \<Longrightarrow> search S = arcs\<^sup>* `` S"
proof (intro equalityI)
  assume S: "finite S"
  show "search S \<subseteq> arcs\<^sup>* `` S"
    by (rule search_least [OF S]) (blast intro: rtrancl_into_rtrancl)+
  show "arcs\<^sup>* `` S \<subseteq> search S"
  proof
    fix y assume "y \<in> arcs\<^sup>* `` S"
    then obtain x where x: "x \<in> S" "(x, y) \<in> arcs\<^sup>*" by blast
    from x(2) show "y \<in> search S"
      by (induction rule: rtrancl_induct) (use S x(1) search_start search_closed in blast)+
  qed
qed

lemma search_mono: "finite T \<Longrightarrow> S \<subseteq> T \<Longrightarrow> search S \<subseteq> search T"
  using search_reachable finite_subset by (metis Image_mono order_refl)

lemma search_idem: "finite (search S) \<Longrightarrow> finite S \<Longrightarrow> search (search S) = search S"
  by (meson search_closed search_least search_start subset_antisym order_refl)

lemma search_finite: "finite S \<Longrightarrow> finite arcs \<Longrightarrow> finite (search S)"
  by (rule finite_subset [OF search_least [of S "S \<union> snd ` arcs"]]) force+

text \<open>Over arcs that run both ways, a search from one of its results finds the start again.\<close>

lemma search_back: "sym arcs \<Longrightarrow> y \<in> search {x} \<Longrightarrow> x \<in> search {y}"
  using search_reachable [of "{x}"] search_reachable [of "{y}"] sym_rtrancl [of arcs]
  by (auto dest: symD)

end

interpretation bfs: closure_search "set arcs" "bfs_from arcs" for arcs :: "'a::linorder arcs"
proof
  fix S T :: "'a set" and x y
  assume S: "finite S"
  show "S \<subseteq> bfs_from arcs S" by (simp add: bfs_from_def bfs_mono)
  show "x \<in> bfs_from arcs S \<Longrightarrow> (x, y) \<in> set arcs \<Longrightarrow> y \<in> bfs_from arcs S"
    unfolding bfs_from_def by (rule bfs_closed) (use S in auto)
  show "S \<subseteq> T \<Longrightarrow> (\<And>x y. x \<in> T \<Longrightarrow> (x, y) \<in> set arcs \<Longrightarrow> y \<in> T) \<Longrightarrow> bfs_from arcs S \<subseteq> T"
    unfolding bfs_from_def by (rule bfs_least) (use S in auto)
qed

end
