(* ===== verification/Agent_Graph.thy ===== *)
theory Agent_Graph
  imports Layout_Schemas
begin

text \<open>
  The agent graph of \<open>src/drc_agent/graphs/agent.py\<close>: the graph over the active regions whose edges
  say which regions may disturb each other (\<open>AgentGraphBuilder.build\<close>), with its test of physical
  dependency (\<open>_physical_dependency\<close>), and the message protocol over the edges of a subgraph
  (\<open>MessagePasser\<close>). The digest \<open>stable_hash\<close> is the parameter \<open>sh\<close>. \<open>networkx\<close> and the compiled
  module \<open>graphs/scopes\<close>, which prunes the graph, are outside the model.
\<close>

record planning_view =
  pv_view_id :: "string"
  pv_scope_id :: "string"
  pv_region_ids :: "string list"
  pv_internal_edge_ids :: "string list"
  pv_boundary_dependency_ids :: "string list"
  pv_factor_summary :: "(string \<times> json) list"
  pv_factor_summary_ref :: "artifact_ref option"
  pv_context_token_estimate :: "int"

datatype solver_scope_kind = GlobalHardComponent | Factorized

record hierarchical_scope =
  hs_scope_id :: "string"
  hs_hard_component_region_ids :: "string list"
  hs_factor_node_ids :: "string list"
  hs_views :: "planning_view list"
  hs_view_refs :: "artifact_ref list"
  hs_cross_view_constraints :: "json list"
  hs_cross_view_constraints_ref :: "artifact_ref option"
  hs_solver_scope :: "solver_scope_kind"

text \<open>
  The class declares the two lists of scopes and the dependencies without an element type; their
  elements are those that the program puts there.
\<close>

record agent_graph =
  gr_regions :: "(string \<times> region_state) list"
  gr_boundary_dependencies :: "boundary_dependency list"
  gr_planning_views :: "planning_view list"
  gr_hierarchy_scopes :: "hierarchical_scope list"
  gr_active_scopes :: "agent_subgraph list"
  gr_observability :: "(string \<times> json) list"
  gr_potential_access_summaries :: "(string \<times> potential_access_summary) list"
  gr_edges :: "agent_edge list"

record design_context =
  dc_iteration :: "int"
  dc_timing_enabled :: "bool"

definition default_design_context :: design_context where
  "default_design_context = \<lparr>dc_iteration = 0, dc_timing_enabled = False\<rparr>"

text \<open>The state of an \<open>AgentGraphBuilder\<close>.\<close>

record graph_builder =
  gb_geometry :: "bool"
  gb_shared_net :: "bool"
  gb_resource :: "bool"
  gb_timing :: "bool"
  gb_proximity_only_score_cap :: "real"

definition default_graph_builder :: graph_builder where
  "default_graph_builder =
     \<lparr>gb_geometry = True, gb_shared_net = True, gb_resource = True, gb_timing = False,
      gb_proximity_only_score_cap = 34 / 100\<rparr>"

subsection \<open>Edges\<close>

definition make_edge ::
    "(json \<Rightarrow> string) \<Rightarrow> string \<Rightarrow> string \<Rightarrow> edge_relation \<Rightarrow> real \<Rightarrow> bool \<Rightarrow> edge_evidence list \<Rightarrow> int \<Rightarrow> bool \<Rightarrow>
     agent_edge" where
  "make_edge sh u v relation score hard evidence iteration directed =
     (let (a, b) = (if directed \<or> u < v then (u, v) else (v, u));
          edge_id = ''edge_'' @ relation_text relation @ ''_'' @ take 16 (sh (JList [JStr a, JStr b,
            JStr (relation_text relation), JList (map (JStr \<circ> ee_evidence_id) evidence)]))
      in \<lparr>e_edge_id = edge_id, e_u = a, e_v = b, e_relation = relation, e_score = min (max score 0) 1,
          e_hard = hard, e_directed = directed, e_evidence = evidence, e_confidence = 1,
          e_created_iteration = iteration, e_last_validated_iteration = iteration\<rparr>)"

subsection \<open>Physical dependency\<close>

definition legacy_summaries :: "potential_access_summary \<Rightarrow> potential_access_summary \<Rightarrow> bool" where
  "legacy_summaries left right \<longleftrightarrow>
     ps_schema_version left = ps_schema_version right \<and> ps_schema_version right = ''1.0'' \<and>
     ps_access_evidence left = [] \<and> ps_access_evidence right = []"

definition exact_access :: "bool \<Rightarrow> potential_access_summary \<Rightarrow> string set" where
  "exact_access legacy s =
     (if \<not> legacy then set (ps_exact_authorized_access_ids s)
      else set (ps_writable_occurrence_ids s) \<union> set (ps_writable_source_target_ids s) \<union>
           set (ps_potential_write_geometry_ids s))"

definition proven_access :: "bool \<Rightarrow> potential_access_summary \<Rightarrow> string set" where
  "proven_access legacy s =
     (if \<not> legacy then set (ps_proven_physical_relation_ids s)
      else set (ps_protected_read_geometry_ids s) \<union> set (ps_protected_relation_ids s) \<union>
           set (ps_merged_boundary_contributor_ids s))"

text \<open>The five predicates that make a dependency hard, each with the identities that meet it.\<close>

definition physical_predicates ::
    "potential_access_summary \<Rightarrow> potential_access_summary \<Rightarrow> (string \<times> string set) list" where
  "physical_predicates left right =
     (let legacy = legacy_summaries left right;
          left_exact = exact_access legacy left; right_exact = exact_access legacy right;
          left_proven = proven_access legacy left; right_proven = proven_access legacy right
      in [(''same_writable_occurrence'',
             set (ps_writable_occurrence_ids left) \<inter> set (ps_writable_occurrence_ids right)
             \<inter> left_exact \<inter> right_exact),
          (''same_writable_source_target'',
             set (ps_writable_source_target_ids left) \<inter> set (ps_writable_source_target_ids right)
             \<inter> left_exact \<inter> right_exact),
          (''shared_merged_boundary_contributor'',
             set (ps_merged_boundary_contributor_ids left) \<inter> set (ps_merged_boundary_contributor_ids right)
             \<inter> left_proven \<inter> right_proven),
          (''potential_write_protected_read'',
             set (ps_potential_write_geometry_ids left) \<inter> left_exact
             \<inter> set (ps_protected_read_geometry_ids right) \<inter> right_proven
             \<union> set (ps_potential_write_geometry_ids right) \<inter> right_exact
             \<inter> set (ps_protected_read_geometry_ids left) \<inter> left_proven),
          (''shared_protected_landing_contact'',
             set (ps_protected_relation_write_ids left) \<inter> set (ps_protected_relation_ids right)
             \<inter> left_proven \<inter> right_proven
             \<union> set (ps_protected_relation_write_ids right) \<inter> set (ps_protected_relation_ids left)
             \<inter> left_proven \<inter> right_proven)])"

definition physical_item :: "(json \<Rightarrow> string) \<Rightarrow> bool \<Rightarrow> string \<times> string set \<Rightarrow> edge_evidence" where
  "physical_item sh legacy p =
     (let values = json_strings (py_sorted (snd p))
      in \<lparr>ee_evidence_id = ''physical:'' @ fst p @ '':'' @ take 12 (sh values), ee_kind = fst p,
          ee_details = [(''identities'', values),
            (''evidence_quality'',
               JStr (if legacy then ''legacy_exact'' else ''exact_or_proven_physical''))]\<rparr>)"

text \<open>An evidence item for a non-empty set of shared identities that never makes an edge hard.\<close>

definition soft_item ::
    "(json \<Rightarrow> string) \<Rightarrow> string \<Rightarrow> string \<Rightarrow> string \<Rightarrow> string \<Rightarrow> string set \<Rightarrow> edge_evidence list" where
  "soft_item sh pre kind key quality shared =
     (if shared = {} then []
      else let values = json_strings (py_sorted shared)
           in [\<lparr>ee_evidence_id = pre @ take 12 (sh values), ee_kind = kind,
                ee_details = [(key, values), (''evidence_quality'', JStr quality)]\<rparr>])"

definition physical_dependency ::
    "(json \<Rightarrow> string) \<Rightarrow> potential_access_summary \<Rightarrow> potential_access_summary \<Rightarrow> edge_evidence list \<times> bool" where
  "physical_dependency sh left right =
     (let legacy = legacy_summaries left right;
          met = filter (\<lambda>p. snd p \<noteq> {}) (physical_predicates left right);
          hard = (met \<noteq> []);
          broad = set (ps_broad_phase_relation_ids left) \<inter> set (ps_broad_phase_relation_ids right);
          unknown = set (ps_unknown_access_ids left) \<inter> set (ps_unknown_access_ids right);
          definitions = set (ps_source_definition_ids left) \<inter> set (ps_source_definition_ids right)
      in (map (physical_item sh legacy) met
          @ soft_item sh ''physical:broad-phase:'' ''broad_phase_physical_candidate''
              ''identities'' ''broad_phase'' broad
          @ soft_item sh ''physical:unknown-access:'' ''unknown_physical_access''
              ''identities'' ''unknown'' unknown
          @ soft_item sh ''physical:shared-definition:''
              ''shared_source_definition_distinct_or_unknown_occurrence''
              ''source_definition_ids'' ''unknown'' (if hard then {} else definitions),
          hard))"

subsection \<open>Build\<close>

type_synonym summaries = "(string \<times> potential_access_summary) list"

text \<open>The evidence and hardness of a pair; a pair without both summaries has neither.\<close>

definition pair_physical ::
    "(json \<Rightarrow> string) \<Rightarrow> summaries \<Rightarrow> region_state \<Rightarrow> region_state \<Rightarrow> edge_evidence list \<times> bool" where
  "pair_physical sh ss left right =
     (case (map_of ss (rg_region_id left), map_of ss (rg_region_id right)) of
        (Some a, Some b) \<Rightarrow> physical_dependency sh a b
      | _ \<Rightarrow> ([], False))"

definition shared_object_item :: "(json \<Rightarrow> string) \<Rightarrow> bool \<Rightarrow> string set \<Rightarrow> edge_evidence list" where
  "shared_object_item sh hard shared =
     (if shared = {} then []
      else let values = json_strings (py_sorted shared)
           in [\<lparr>ee_evidence_id = ''obj:'' @ take 12 (sh values), ee_kind = ''shared_editable_object'',
                ee_details = [(''object_ids'', values), (''hard_by_occurrence'', JBool hard)]\<rparr>])"

definition geometry_edges ::
    "(json \<Rightarrow> string) \<Rightarrow> graph_builder \<Rightarrow> int \<Rightarrow> summaries \<Rightarrow> region_state \<Rightarrow> region_state \<Rightarrow> agent_edge list" where
  "geometry_edges sh gb iteration ss left right =
     (let shared_objects = set (rg_editable_object_ids left) \<inter> set (rg_editable_object_ids right);
          lh = rg_edit_halo_dbu left; rh = rg_edit_halo_dbu right;
          overlap = box_intersection_area lh rh;
          min_area = min (box_area lh) (box_area rh);
          halo_score = (if min_area \<noteq> 0 then real_of_int overlap / real_of_int min_area else 0);
          gap = box_gap lh rh;
          href = max (min (box_width lh) (box_width rh)) 1;
          gap_score = exp (- gap / real_of_int href);
          (physical_evidence, physical_hard) = pair_physical sh ss left right;
          hard = (shared_objects \<noteq> {} \<and> ss = [] \<or> physical_hard);
          evidence =
            [\<lparr>ee_evidence_id = ''geo:'' @ rg_region_id left @ '':'' @ rg_region_id right,
              ee_kind = (if overlap \<noteq> 0 then ''halo_overlap'' else ''halo_gap''),
              ee_details = [(''overlap_area'', JInt overlap), (''gap_dbu'', JReal gap)]\<rparr>]
            @ shared_object_item sh hard shared_objects @ physical_evidence
      in if gb_geometry gb \<and>
            (overlap \<noteq> 0 \<or> gap_score \<ge> 35 / 100 \<or> shared_objects \<noteq> {} \<or> physical_evidence \<noteq> [])
         then [make_edge sh (rg_region_id left) (rg_region_id right) RelGeometry
                 (if hard then 1 else min (max halo_score gap_score) (gb_proximity_only_score_cap gb))
                 hard evidence iteration False]
         else [])"

definition net_edges ::
    "(json \<Rightarrow> string) \<Rightarrow> graph_builder \<Rightarrow> int \<Rightarrow> region_state \<Rightarrow> region_state \<Rightarrow> agent_edge list" where
  "net_edges sh gb iteration left right =
     (let shared_nets = set (rg_net_ids left) \<inter> set (rg_net_ids right);
          ql = rg_net_mapping_quality left; qr = rg_net_mapping_quality right;
          exact = (ql = qr \<and> qr = NetExact);
          nets = json_strings (py_sorted shared_nets);
          evidence =
            [\<lparr>ee_evidence_id = ''net:'' @ take 12 (sh nets),
              ee_kind = (if exact then ''shared_named_net'' else ''shared_connectivity_component''),
              ee_details = [(''net_ids'', nets),
                (''evidence_level'', JStr (if exact then ''exact'' else ''connectivity_component'')),
                (''mapping_quality_u'', JStr (net_quality_text ql)),
                (''mapping_quality_v'', JStr (net_quality_text qr))]\<rparr>]
      in if gb_shared_net gb \<and> shared_nets \<noteq> {}
         then [make_edge sh (rg_region_id left) (rg_region_id right) RelSharedNet
                 (if exact then 9 / 10 else 6 / 10) exact evidence iteration False]
         else [])"

definition resource_edges ::
    "(json \<Rightarrow> string) \<Rightarrow> graph_builder \<Rightarrow> int \<Rightarrow> region_state \<Rightarrow> region_state \<Rightarrow> agent_edge list" where
  "resource_edges sh gb iteration left right =
     (let lb = rx_occupied_track_bins (rg_resource_context left);
          rb = rx_occupied_track_bins (rg_resource_context right);
          bins = set lb \<inter> set rb;
          denom = min (length lb) (length rb);
          values = json_strings (py_sorted bins)
      in if gb_resource gb \<and> bins \<noteq> {}
         then [make_edge sh (rg_region_id left) (rg_region_id right) RelResource
                 (real (card bins) / real (max denom 1)) False
                 [\<lparr>ee_evidence_id = ''resource:'' @ take 12 (sh values), ee_kind = ''geometry_proxy_bins'',
                   ee_details = [(''bin_ids'', values)]\<rparr>] iteration False]
         else [])"

definition timing_edges ::
    "(json \<Rightarrow> string) \<Rightarrow> graph_builder \<Rightarrow> design_context \<Rightarrow> region_state \<Rightarrow> region_state \<Rightarrow> agent_edge list" where
  "timing_edges sh gb context left right =
     (case (rg_timing_context left, rg_timing_context right) of
        (Some lt, Some rt) \<Rightarrow>
          (let paths = set (tc_affected_path_ids lt) \<inter> set (tc_affected_path_ids rt);
               values = json_strings (py_sorted paths)
           in if gb_timing gb \<and> dc_timing_enabled context \<and> paths \<noteq> {} \<and>
                 tc_source lt = tc_source rt \<and> tc_source rt = TimingSta
              then [make_edge sh (rg_region_id left) (rg_region_id right) RelTiming 1 False
                      [\<lparr>ee_evidence_id = ''timing:'' @ take 12 (sh values), ee_kind = ''shared_sta_path'',
                        ee_details = [(''path_ids'', values)]\<rparr>] (dc_iteration context) True]
              else [])
      | _ \<Rightarrow> [])"

definition pair_edges ::
    "(json \<Rightarrow> string) \<Rightarrow> graph_builder \<Rightarrow> design_context \<Rightarrow> summaries \<Rightarrow> region_state \<times> region_state \<Rightarrow>
     agent_edge list" where
  "pair_edges sh gb context ss p =
     (case p of (left, right) \<Rightarrow>
        geometry_edges sh gb (dc_iteration context) ss left right
        @ net_edges sh gb (dc_iteration context) left right
        @ resource_edges sh gb (dc_iteration context) left right
        @ timing_edges sh gb context left right)"

text \<open>The pairs of the two nested loops over \<open>enumerate(ordered)\<close>.\<close>

fun later_pairs :: "'a list \<Rightarrow> ('a \<times> 'a) list" where
  "later_pairs [] = []"
| "later_pairs (x # xs) = map (Pair x) xs @ later_pairs xs"

definition physical_edge :: "agent_edge \<Rightarrow> bool" where
  "physical_edge e \<longleftrightarrow> (\<exists>i \<in> set (e_evidence e). starts_with (ee_evidence_id i) ''physical:'')"

definition evidence_counts :: "summaries \<Rightarrow> (string \<times> json) list" where
  "evidence_counts ss =
     (let categories = map (access_category_text \<circ> pe_category) (concat (map (ps_access_evidence \<circ> snd) ss))
      in map (\<lambda>c. (c, JInt (int (length (filter (\<lambda>d. d = c) categories))))) (py_sorted (set categories)))"

definition graph_observability :: "summaries \<Rightarrow> agent_edge list \<Rightarrow> (string \<times> json) list" where
  "graph_observability ss edges =
     [(''potential_access_region_count'', JInt (int (length ss))),
      (''potential_access_unknown_count'', JInt (\<Sum>s\<leftarrow>ss. int (length (ps_unknown_reasons (snd s))))),
      (''potential_physical_dependency_edge_count'', JInt (int (length (filter physical_edge edges)))),
      (''potential_access_evidence_counts'', JObj (evidence_counts ss)),
      (''hard_physical_dependency_edge_count'',
         JInt (int (length (filter (\<lambda>e. e_hard e \<and> physical_edge e) edges))))]"

definition build_graph ::
    "(json \<Rightarrow> string) \<Rightarrow> graph_builder \<Rightarrow> region_state list \<Rightarrow> design_context option \<Rightarrow> summaries \<Rightarrow>
     agent_graph result" where
  "build_graph sh gb regions context ss =
     (let ctx = (case context of None \<Rightarrow> default_design_context | Some c \<Rightarrow> c);
          ordered = sort_key rg_region_id regions;
          edges = concat (map (pair_edges sh gb ctx ss) (later_pairs ordered))
      in if \<not> gb_timing gb \<and> (\<exists>e \<in> set edges. e_relation e = RelTiming)
         then Inl (AssertionError ''timing edge created while disabled'')
         else Inr \<lparr>gr_regions = dict_of (map (\<lambda>r. (rg_region_id r, r)) ordered),
                   gr_boundary_dependencies = [], gr_planning_views = [], gr_hierarchy_scopes = [],
                   gr_active_scopes = [], gr_observability = graph_observability ss edges,
                   gr_potential_access_summaries = ss,
                   gr_edges = sort_key e_edge_id edges\<rparr>)"

subsection \<open>Messages\<close>

definition lookup_region :: "agent_graph \<Rightarrow> string \<Rightarrow> region_state result" where
  "lookup_region g rid =
     (case map_of (gr_regions g) rid of None \<Rightarrow> Inl (KeyError rid) | Some r \<Rightarrow> Inr r)"

text \<open>The relation's part of a constraint: its kind and its parameters.\<close>

definition relation_constraint ::
    "agent_edge \<Rightarrow> region_state \<Rightarrow> region_state \<Rightarrow> string \<times> (string \<times> json) list" where
  "relation_constraint e left right =
     (let hard = (''hard'', JBool (e_hard e));
          both = (\<lambda>f. json_strings (py_sorted (set (f left) \<inter> set (f right))))
      in case e_relation e of
        RelGeometry \<Rightarrow> (''geometry_boundary_constraint'',
          [hard, (''halo_u_dbu'', box_json (rg_edit_halo_dbu left)),
           (''halo_v_dbu'', box_json (rg_edit_halo_dbu right)),
           (''shared_editable_object_ids'', both rg_editable_object_ids),
           (''forbidden_overlap'', JBool True)])
      | RelSharedNet \<Rightarrow> (''shared_net_topology_constraint'',
          [hard, (''shared_net_ids'', both rg_net_ids),
           (''mapping_quality_u'', JStr (net_quality_text (rg_net_mapping_quality left))),
           (''mapping_quality_v'', JStr (net_quality_text (rg_net_mapping_quality right))),
           (''preserve_topology'', JBool True)])
      | RelResource \<Rightarrow> (''resource_geometry_proxy_constraint'',
          [hard, (''shared_proxy_bin_ids'', both (rx_occupied_track_bins \<circ> rg_resource_context)),
           (''source'', JStr ''geometry_proxy''), (''capacity_known'', JBool False)])
      | RelTiming \<Rightarrow> (''timing_constraint'',
          [hard, (''timing_disabled'',
             JBool (rg_timing_context left = None \<or> rg_timing_context right = None))]))"

definition access_json :: "potential_access_summary \<Rightarrow> json" where
  "access_json s =
     JObj [(''summary_id'', JStr (ps_summary_id s)), (''snapshot_id'', JStr (ps_snapshot_id s)),
           (''region_id'', JStr (ps_region_id s)),
           (''writable_occurrence_ids'', json_strings (ps_writable_occurrence_ids s)),
           (''writable_source_target_ids'', json_strings (ps_writable_source_target_ids s)),
           (''potential_write_geometry_ids'', json_strings (ps_potential_write_geometry_ids s)),
           (''potential_write_layers'', json_strings (ps_potential_write_layers s)),
           (''protected_relation_ids'', json_strings (ps_protected_relation_ids s)),
           (''protected_read_geometry_ids'', json_strings (ps_protected_read_geometry_ids s)),
           (''merged_boundary_contributor_ids'', json_strings (ps_merged_boundary_contributor_ids s)),
           (''landing_contact_relation_ids'', json_strings (ps_landing_contact_relation_ids s)),
           (''connectivity_evidence_quality'',
              JStr (evidence_quality_text (ps_connectivity_evidence_quality s))),
           (''unknown_reasons'', json_strings (ps_unknown_reasons s))]"

definition endpoint_access :: "agent_graph \<Rightarrow> string \<Rightarrow> string \<Rightarrow> (string \<times> json) list" where
  "endpoint_access g endpoint region_id =
     (case map_of (gr_potential_access_summaries g) region_id of
        None \<Rightarrow> [] | Some s \<Rightarrow> [(endpoint, access_json s)])"

definition edge_constraint :: "agent_edge \<Rightarrow> agent_graph \<Rightarrow> structured_constraint result" where
  "edge_constraint e g =
     bind_result (lookup_region g (e_u e)) (\<lambda>left.
       bind_result (lookup_region g (e_v e)) (\<lambda>right.
         let (kind, parameters) = relation_constraint e left right;
             physical = map edge_evidence_json
               (filter (\<lambda>i. starts_with (ee_evidence_id i) ''physical:'') (e_evidence e));
             access = endpoint_access g ''u'' (e_u e) @ endpoint_access g ''v'' (e_v e);
             extra = (if physical \<noteq> [] \<or> access \<noteq> []
                      then [(''physical_dependency_evidence'', JList physical),
                            (''potential_physical_access'', JObj access)] else [])
         in Inr \<lparr>sc_kind = kind, sc_parameters = parameters @ extra\<rparr>))"

definition relevant_edges :: "agent_subgraph \<Rightarrow> agent_graph \<Rightarrow> agent_edge list" where
  "relevant_edges sg g = filter (\<lambda>e. e_edge_id e \<in> set (sg_edge_ids sg)) (gr_edges g)"

definition edge_directions :: "agent_edge \<Rightarrow> (string \<times> string) list" where
  "edge_directions e = [(e_u e, e_v e), (e_v e, e_u e)]"

definition content_head :: "int \<Rightarrow> string \<Rightarrow> string \<Rightarrow> agent_edge \<Rightarrow> (string \<times> json) list" where
  "content_head rnd sender receiver e =
     [(''round'', JInt rnd), (''sender'', JStr sender), (''receiver'', JStr receiver),
      (''relation'', JStr (relation_text (e_relation e))), (''edge'', JStr (e_edge_id e))]"

definition edge_message ::
    "(json \<Rightarrow> string) \<Rightarrow> int \<Rightarrow> json \<Rightarrow> agent_edge \<Rightarrow> string \<times> string \<Rightarrow> structured_constraint \<Rightarrow>
     intent_summary list \<Rightarrow> string \<Rightarrow> neighbor_message" where
  "edge_message sh rnd content e d c intents response =
     \<lparr>nm_message_id = short_id sh ''msg_'' 20 content, nm_round = rnd,
      nm_sender_region_id = fst d, nm_receiver_region_id = snd d,
      nm_relation = relation_text (e_relation e),
      nm_evidence_ids = map ee_evidence_id (e_evidence e), nm_constraints = [c],
      nm_proposed_intents = intents, nm_resource_claims = [], nm_timing_claims = [],
      nm_requested_response = [response], nm_content_hash = sh content\<rparr>"

text \<open>The messages of one edge, both directions, for the content and intents of a round.\<close>

definition edge_messages ::
    "(json \<Rightarrow> string) \<Rightarrow> int \<Rightarrow> agent_graph \<Rightarrow>
     (agent_edge \<Rightarrow> structured_constraint \<Rightarrow> string \<times> string \<Rightarrow> json) \<Rightarrow> (string \<Rightarrow> intent_summary list) \<Rightarrow>
     string \<Rightarrow> agent_edge \<Rightarrow> neighbor_message list result" where
  "edge_messages sh rnd g content intents response e =
     bind_result (edge_constraint e g) (\<lambda>c.
       Inr (map (\<lambda>d. edge_message sh rnd (content e c d) e d c (intents (fst d)) response)
              (edge_directions e)))"

definition round_messages ::
    "(json \<Rightarrow> string) \<Rightarrow> int \<Rightarrow> agent_subgraph \<Rightarrow> agent_graph \<Rightarrow>
     (agent_edge \<Rightarrow> structured_constraint \<Rightarrow> string \<times> string \<Rightarrow> json) \<Rightarrow> (string \<Rightarrow> intent_summary list) \<Rightarrow>
     string \<Rightarrow> neighbor_message list result" where
  "round_messages sh rnd sg g content intents response =
     bind_result (map_result (edge_messages sh rnd g content intents response) (relevant_edges sg g))
       (\<lambda>mss. Inr (sort_key nm_message_id (concat mss)))"

definition round_one_content :: "agent_edge \<Rightarrow> structured_constraint \<Rightarrow> string \<times> string \<Rightarrow> json" where
  "round_one_content e c d =
     JObj (content_head 1 (fst d) (snd d) e
       @ [(''evidence_ids'', json_strings (map ee_evidence_id (e_evidence e))),
          (''constraints'', JList [constraint_json c])])"

definition round_one ::
    "(json \<Rightarrow> string) \<Rightarrow> agent_subgraph \<Rightarrow> agent_graph \<Rightarrow> neighbor_message list result" where
  "round_one sh sg g = round_messages sh 1 sg g round_one_content (\<lambda>_. []) ''FACT_ACK''"

type_synonym intents_by_region = "(string \<times> intent_summary list) list"

definition round_two_content ::
    "intents_by_region \<Rightarrow> agent_edge \<Rightarrow> structured_constraint \<Rightarrow> string \<times> string \<Rightarrow> json" where
  "round_two_content intents e c d =
     JObj (content_head 2 (fst d) (snd d) e
       @ [(''proposed_intents'', JList (map intent_json (dict_get_list intents (fst d))))])"

definition round_two ::
    "(json \<Rightarrow> string) \<Rightarrow> agent_subgraph \<Rightarrow> agent_graph \<Rightarrow> intents_by_region \<Rightarrow> neighbor_message list result" where
  "round_two sh sg g intents =
     round_messages sh 2 sg g (round_two_content intents) (dict_get_list intents) ''INTENT_COMPATIBILITY''"

definition sorted_pair :: "string \<Rightarrow> string \<Rightarrow> string \<times> string" where
  "sorted_pair a b = (if b < a then (b, a) else (a, b))"

definition revise_message :: "(json \<Rightarrow> string) \<Rightarrow> neighbor_message \<Rightarrow> neighbor_message" where
  "revise_message sh m =
     (let content = JObj [(''round'', JInt 3), (''sender'', JStr (nm_sender_region_id m)),
            (''receiver'', JStr (nm_receiver_region_id m)), (''relation'', JStr (nm_relation m)),
            (''evidence_ids'', json_strings (nm_evidence_ids m))]
      in m\<lparr>nm_message_id := short_id sh ''msg_'' 20 content, nm_round := 3,
           nm_requested_response := [''COORDINATED_REVISION_OR_NO_OP''], nm_content_hash := sh content\<rparr>)"

definition in_conflict :: "(string \<times> string) set \<Rightarrow> neighbor_message \<Rightarrow> bool" where
  "in_conflict pairs m \<longleftrightarrow> sorted_pair (nm_sender_region_id m) (nm_receiver_region_id m) \<in> pairs"

definition round_three ::
    "(json \<Rightarrow> string) \<Rightarrow> agent_subgraph \<Rightarrow> agent_graph \<Rightarrow> (string \<times> string) set \<Rightarrow> intents_by_region \<Rightarrow>
     neighbor_message list result" where
  "round_three sh sg g pairs intents =
     bind_result (round_two sh sg g intents) (\<lambda>ms.
       Inr (sort_key nm_message_id (map (revise_message sh) (filter (in_conflict pairs) ms))))"

text \<open>\<open>messages.extend(\<dots>)\<close> of a round that may not run.\<close>

definition extend_if ::
    "bool \<Rightarrow> neighbor_message list result \<Rightarrow> neighbor_message list \<Rightarrow> neighbor_message list result" where
  "extend_if c r ms = (if c then bind_result r (\<lambda>extra. Inr (ms @ extra)) else Inr ms)"

definition run_messages ::
    "(json \<Rightarrow> string) \<Rightarrow> agent_subgraph \<Rightarrow> agent_graph \<Rightarrow> int \<Rightarrow> intents_by_region \<Rightarrow> (string \<times> string) set \<Rightarrow>
     neighbor_message list result" where
  "run_messages sh sg g rounds intents pairs =
     (let n = min (max rounds 0) 3
      in bind_result (extend_if (n \<ge> 1) (round_one sh sg g) [])
           (\<lambda>m1. bind_result (extend_if (n \<ge> 2) (round_two sh sg g intents) m1)
             (\<lambda>m2. extend_if (n \<ge> 3 \<and> pairs \<noteq> {}) (round_three sh sg g pairs intents) m2)))"

subsection \<open>Scores and components\<close>

text \<open>\<open>_aggregate_score\<close>: the chance that at least one of independent edges holds.\<close>

definition aggregate_score :: "agent_edge list \<Rightarrow> real" where
  "aggregate_score es = 1 - foldl (\<lambda>remaining e. remaining * (1 - e_confidence e * e_score e)) 1 es"

text \<open>
  \<open>active_subgraphs\<close>: the scopes of a pruned graph, or one subgraph for each connected component;
  the components are those that \<open>networkx\<close> returns, a parameter.
\<close>

definition component_subgraph ::
    "(json \<Rightarrow> string) \<Rightarrow> agent_graph \<Rightarrow> int \<Rightarrow> string set \<Rightarrow> agent_subgraph" where
  "component_subgraph sh g max_regions component =
     (let region_ids = py_sorted component
      in \<lparr>sg_subgraph_id = short_id sh ''subgraph_'' 16 (json_strings region_ids),
          sg_region_ids = region_ids,
          sg_edge_ids = sort (map e_edge_id
            (filter (\<lambda>e. e_u e \<in> component \<and> e_v e \<in> component) (gr_edges g))),
          sg_hierarchical = (int (length region_ids) > max_regions), sg_scope_kind = ScopeFlat,
          sg_physical_scope_id = None, sg_solver_scope_id = None, sg_planning_view_id = None,
          sg_boundary_dependency_ids = [], sg_priority = 0\<rparr>)"

definition active_subgraphs ::
    "(json \<Rightarrow> string) \<Rightarrow> (agent_graph \<Rightarrow> string set list) \<Rightarrow> agent_graph \<Rightarrow> int \<Rightarrow> agent_subgraph list" where
  "active_subgraphs sh connected_components g max_regions =
     (if gr_active_scopes g \<noteq> [] then gr_active_scopes g
      else map (component_subgraph sh g max_regions) (sort_key py_sorted (connected_components g)))"

section \<open>What the builder guarantees\<close>

lemma later_pairs_in: "(l, r) \<in> set (later_pairs xs) \<Longrightarrow> l \<in> set xs \<and> r \<in> set xs"
  by (induction xs) auto

lemma later_pairs_sorted:
  assumes "sorted (map k xs)" "distinct (map k xs)"
  shows "(l, r) \<in> set (later_pairs xs) \<longleftrightarrow> l \<in> set xs \<and> r \<in> set xs \<and> k l < k r"
  using assms
proof (induction xs)
  case (Cons x xs)
  have lt: "k x < k y" if "y \<in> set xs" for y
    using Cons.prems that by (metis distinct.simps(2) imageI le_neq_trans list.simps(9) set_map sorted_simps(2))
  have IH: "(l, r) \<in> set (later_pairs xs) \<longleftrightarrow> l \<in> set xs \<and> r \<in> set xs \<and> k l < k r"
    using Cons by simp
  show ?case
    using lt [of l] lt [of r] IH by (auto dest: less_asym)
qed simp

lemma sorted_regions_pairs:
  assumes "distinct (map rg_region_id regions)"
  shows "(l, r) \<in> set (later_pairs (sort_key rg_region_id regions)) \<longleftrightarrow>
    l \<in> set regions \<and> r \<in> set regions \<and> rg_region_id l < rg_region_id r"
proof -
  have "distinct (map rg_region_id (sort_key rg_region_id regions))"
    using assms by (simp add: distinct_map distinct_sort)
  then show ?thesis by (subst later_pairs_sorted [where k = rg_region_id]) simp_all
qed

lemma make_edge_simps [simp]:
  "e_relation (make_edge sh u v rel score hard ev it dir) = rel"
  "e_hard (make_edge sh u v rel score hard ev it dir) = hard"
  "e_evidence (make_edge sh u v rel score hard ev it dir) = ev"
  "e_directed (make_edge sh u v rel score hard ev it dir) = dir"
  "e_confidence (make_edge sh u v rel score hard ev it dir) = 1"
  "e_score (make_edge sh u v rel score hard ev it dir) = min (max score 0) 1"
  by (simp_all add: make_edge_def Let_def)

lemma make_edge_ends:
  "{e_u (make_edge sh u v rel score hard ev it dir), e_v (make_edge sh u v rel score hard ev it dir)} = {u, v}"
  "u < v \<Longrightarrow> e_u (make_edge sh u v rel score hard ev it dir) = u"
  "u < v \<Longrightarrow> e_v (make_edge sh u v rel score hard ev it dir) = v"
  by (auto simp: make_edge_def Let_def)

text \<open>Every edge comes from \<open>make_edge\<close> on the two regions of a pair.\<close>

lemma in_singleton_if: "e \<in> set (if c then [x] else []) \<longleftrightarrow> c \<and> e = x"
  by (cases c) simp_all

lemma in_singleton_if_exists: "c \<Longrightarrow> \<exists>e. e \<in> set (if c then [x] else [])"
  by simp

definition pair_edge :: "region_state \<Rightarrow> region_state \<Rightarrow> edge_relation \<Rightarrow> bool \<Rightarrow> agent_edge \<Rightarrow> bool" where
  "pair_edge l r rel hard e \<longleftrightarrow>
     {e_u e, e_v e} = {rg_region_id l, rg_region_id r} \<and>
     (rg_region_id l < rg_region_id r \<longrightarrow> e_u e = rg_region_id l \<and> e_v e = rg_region_id r) \<and>
     0 \<le> e_score e \<and> e_score e \<le> 1 \<and> e_relation e = rel \<and> e_hard e = hard"

lemma make_edge_pair:
  "pair_edge l r rel hard (make_edge sh (rg_region_id l) (rg_region_id r) rel score hard ev it dir)"
  unfolding pair_edge_def by (intro conjI impI make_edge_ends) simp_all

lemma geometry_edges_pair:
  assumes "e \<in> set (geometry_edges sh gb it ss l r)"
  shows "pair_edge l r RelGeometry
    (set (rg_editable_object_ids l) \<inter> set (rg_editable_object_ids r) \<noteq> {} \<and> ss = [] \<or>
     snd (pair_physical sh ss l r)) e"
  using assms unfolding geometry_edges_def Let_def case_prod_beta in_singleton_if
  by (elim conjE) (simp only: make_edge_pair)

lemma net_edges_pair:
  assumes "e \<in> set (net_edges sh gb it l r)"
  shows "pair_edge l r RelSharedNet
    (rg_net_mapping_quality l = rg_net_mapping_quality r \<and> rg_net_mapping_quality r = NetExact) e"
  using assms unfolding net_edges_def Let_def in_singleton_if
  by (elim conjE) (simp only: make_edge_pair)

lemma resource_edges_pair:
  "e \<in> set (resource_edges sh gb it l r) \<Longrightarrow> pair_edge l r RelResource False e"
  unfolding resource_edges_def Let_def in_singleton_if
  by (elim conjE) (simp only: make_edge_pair)

lemma timing_edges_pair:
  assumes "e \<in> set (timing_edges sh gb ctx l r)"
  shows "pair_edge l r RelTiming False e" "gb_timing gb \<and> dc_timing_enabled ctx"
proof -
  obtain lt rt where t: "rg_timing_context l = Some lt" "rg_timing_context r = Some rt"
    using assms by (cases "rg_timing_context l"; cases "rg_timing_context r") (simp_all add: timing_edges_def)
  then show "pair_edge l r RelTiming False e" "gb_timing gb \<and> dc_timing_enabled ctx"
    using assms unfolding timing_edges_def Let_def t prod.case option.case in_singleton_if
    by (elim conjE, simp only: make_edge_pair)+
qed

lemma pair_edges_cases [consumes 1, case_names geometry net resource timing]:
  assumes "e \<in> set (pair_edges sh gb ctx ss (l, r))"
  obtains "e \<in> set (geometry_edges sh gb (dc_iteration ctx) ss l r)"
    | "e \<in> set (net_edges sh gb (dc_iteration ctx) l r)"
    | "e \<in> set (resource_edges sh gb (dc_iteration ctx) l r)"
    | "e \<in> set (timing_edges sh gb ctx l r)"
  using assms unfolding pair_edges_def by auto

lemma pair_edges_ends:
  assumes "e \<in> set (pair_edges sh gb ctx ss (l, r))"
  shows "{e_u e, e_v e} = {rg_region_id l, rg_region_id r}"
    "rg_region_id l < rg_region_id r \<Longrightarrow> e_u e = rg_region_id l \<and> e_v e = rg_region_id r"
    "0 \<le> e_score e \<and> e_score e \<le> 1"
proof -
  have "\<exists>rel hard. pair_edge l r rel hard e"
    using assms by (cases rule: pair_edges_cases)
      (blast dest: geometry_edges_pair net_edges_pair resource_edges_pair timing_edges_pair)+
  then show "{e_u e, e_v e} = {rg_region_id l, rg_region_id r}"
    "rg_region_id l < rg_region_id r \<Longrightarrow> e_u e = rg_region_id l \<and> e_v e = rg_region_id r"
    "0 \<le> e_score e \<and> e_score e \<le> 1"
    unfolding pair_edge_def by blast+
qed

lemma pair_edge_relation: "pair_edge l r rel hard e \<Longrightarrow> e_relation e = rel" "pair_edge l r rel hard e \<Longrightarrow> e_hard e = hard"
  by (simp_all add: pair_edge_def)

lemma pair_edges_relation:
  assumes "e \<in> set (pair_edges sh gb ctx ss (l, r))"
  shows "e_relation e = RelTiming \<Longrightarrow> gb_timing gb \<and> dc_timing_enabled ctx \<and> \<not> e_hard e"
    "e_relation e = RelResource \<Longrightarrow> \<not> e_hard e"
    "e_relation e = RelGeometry \<Longrightarrow> e \<in> set (geometry_edges sh gb (dc_iteration ctx) ss l r)"
    "e_relation e = RelSharedNet \<Longrightarrow> e \<in> set (net_edges sh gb (dc_iteration ctx) l r)"
  using assms
  by (cases rule: pair_edges_cases;
      force dest: geometry_edges_pair net_edges_pair resource_edges_pair timing_edges_pair
        simp: pair_edge_relation)+

text \<open>So the assertion against timing edges never fires.\<close>

lemma build_graph_result:
  "build_graph sh gb regions context ss =
     (let ctx = (case context of None \<Rightarrow> default_design_context | Some c \<Rightarrow> c);
          edges = concat (map (pair_edges sh gb ctx ss) (later_pairs (sort_key rg_region_id regions)))
      in Inr \<lparr>gr_regions = dict_of (map (\<lambda>r. (rg_region_id r, r)) (sort_key rg_region_id regions)),
              gr_boundary_dependencies = [], gr_planning_views = [], gr_hierarchy_scopes = [],
              gr_active_scopes = [], gr_observability = graph_observability ss edges,
              gr_potential_access_summaries = ss, gr_edges = sort_key e_edge_id edges\<rparr>)"
proof -
  have "\<not> (\<not> gb_timing gb \<and> (\<exists>e \<in> set (concat (map (pair_edges sh gb ctx ss) ps)). e_relation e = RelTiming))"
    for ctx ps
  proof
    assume "\<not> gb_timing gb \<and> (\<exists>e \<in> set (concat (map (pair_edges sh gb ctx ss) ps)). e_relation e = RelTiming)"
    then obtain p e where e: "\<not> gb_timing gb" "e \<in> set (pair_edges sh gb ctx ss p)" "e_relation e = RelTiming"
      by auto
    obtain l r where p: "p = (l, r)" by (cases p)
    show False using pair_edges_relation(1) [OF e(2) [unfolded p] e(3)] e(1) by blast
  qed
  then show ?thesis unfolding build_graph_def Let_def by simp
qed

lemma build_graph_edges:
  assumes "build_graph sh gb regions context ss = Inr g"
  shows "set (gr_edges g) = (\<Union>p \<in> set (later_pairs (sort_key rg_region_id regions)).
    set (pair_edges sh gb (case context of None \<Rightarrow> default_design_context | Some c \<Rightarrow> c) ss p))"
  using assms unfolding build_graph_result by (auto simp: Let_def)

lemma build_graph_regions:
  assumes "build_graph sh gb regions context ss = Inr g"
  shows "fst ` set (gr_regions g) = rg_region_id ` set regions"
    "distinct (map rg_region_id regions) \<Longrightarrow> map_of (gr_regions g) (rg_region_id r) = Some r \<longleftrightarrow> r \<in> set regions"
proof -
  have g: "gr_regions g = dict_of (map (\<lambda>r. (rg_region_id r, r)) (sort_key rg_region_id regions))"
    using assms unfolding build_graph_result by (auto simp: Let_def)
  show "fst ` set (gr_regions g) = rg_region_id ` set regions" unfolding g by (simp add: image_image)
  assume d: "distinct (map rg_region_id regions)"
  then have d': "distinct (map fst (map (\<lambda>r. (rg_region_id r, r)) (sort_key rg_region_id regions)))"
    by (simp add: distinct_map distinct_sort inj_on_def comp_def)
  have "map_of (gr_regions g) (rg_region_id r) = Some r \<longleftrightarrow>
      (rg_region_id r, r) \<in> set (map (\<lambda>r. (rg_region_id r, r)) (sort_key rg_region_id regions))"
    unfolding g dict_of_distinct [OF d'] using d' by (rule map_of_eq_Some_iff)
  also have "\<dots> \<longleftrightarrow> r \<in> set regions" by auto
  finally show "map_of (gr_regions g) (rg_region_id r) = Some r \<longleftrightarrow> r \<in> set regions" .
qed

subsection \<open>Physical dependency\<close>

lemma physical_hard_iff: "snd (physical_dependency sh left right) \<longleftrightarrow>
    (\<exists>p \<in> set (physical_predicates left right). snd p \<noteq> {})"
  by (simp add: physical_dependency_def Let_def filter_empty_conv)

lemma legacy_summaries_sym: "legacy_summaries left right = legacy_summaries right left"
  by (auto simp: legacy_summaries_def)

lemma physical_predicates_sym: "physical_predicates left right = physical_predicates right left"
  unfolding physical_predicates_def Let_def legacy_summaries_sym [of left right]
  by (simp add: Int_ac Un_commute)

definition physical_kinds :: "string list" where
  "physical_kinds = [''same_writable_occurrence'', ''same_writable_source_target'',
     ''shared_merged_boundary_contributor'', ''potential_write_protected_read'',
     ''shared_protected_landing_contact'']"

lemma physical_predicates_kinds: "map fst (physical_predicates left right) = physical_kinds"
  by (simp add: physical_predicates_def physical_kinds_def Let_def)

lemma physical_item_simps [simp]: "ee_kind (physical_item sh legacy p) = fst p"
  by (simp add: physical_item_def Let_def)

lemma soft_item_kind: "i \<in> set (soft_item sh pre kind key q S) \<Longrightarrow> ee_kind i = kind"
  by (auto simp: soft_item_def Let_def split: if_splits)

lemma physical_kind_names:
  "''broad_phase_physical_candidate'' \<notin> set physical_kinds"
  "''unknown_physical_access'' \<notin> set physical_kinds"
  "''shared_source_definition_distinct_or_unknown_occurrence'' \<notin> set physical_kinds"
  by (simp_all add: physical_kinds_def)

lemma soft_item_not_physical:
  assumes "kind \<notin> set physical_kinds"
  shows "\<not> (\<exists>i \<in> set (soft_item sh pre kind key q S). ee_kind i \<in> set physical_kinds)"
proof
  assume "\<exists>i \<in> set (soft_item sh pre kind key q S). ee_kind i \<in> set physical_kinds"
  then obtain i where i: "i \<in> set (soft_item sh pre kind key q S)" "ee_kind i \<in> set physical_kinds" ..
  show False using soft_item_kind [OF i(1)] i(2) assms by simp
qed

lemma physical_hard_evidence:
  "snd (physical_dependency sh left right) \<longleftrightarrow>
     (\<exists>i \<in> set (fst (physical_dependency sh left right)). ee_kind i \<in> set physical_kinds)"
proof -
  let ?met = "filter (\<lambda>p. snd p \<noteq> {}) (physical_predicates left right)"
  have kinds: "fst p \<in> set physical_kinds" if "p \<in> set ?met" for p
    unfolding physical_predicates_kinds [of left right, symmetric] using that by simp
  have "(\<exists>i \<in> set (fst (physical_dependency sh left right)). ee_kind i \<in> set physical_kinds) \<longleftrightarrow>
      (\<exists>i \<in> set (map (physical_item sh (legacy_summaries left right)) ?met). ee_kind i \<in> set physical_kinds)"
    unfolding physical_dependency_def Let_def fst_conv set_append bex_Un
    by (simp only: soft_item_not_physical [OF physical_kind_names(1)]
        soft_item_not_physical [OF physical_kind_names(2)]
        soft_item_not_physical [OF physical_kind_names(3)] simp_thms)
  also have "\<dots> \<longleftrightarrow> (\<exists>p \<in> set ?met. fst p \<in> set physical_kinds)"
    unfolding set_map by (simp only: bex_simps(7) physical_item_simps)
  also have "\<dots> \<longleftrightarrow> (\<exists>p \<in> set (physical_predicates left right). snd p \<noteq> {})"
    using kinds unfolding set_filter by blast
  finally show ?thesis unfolding physical_hard_iff by (rule sym)
qed

text \<open>When a geometry edge of a pair is hard, and what its evidence then holds.\<close>

definition must_share_scope :: "summaries \<Rightarrow> region_state \<Rightarrow> region_state \<Rightarrow> bool" where
  "must_share_scope ss left right \<longleftrightarrow>
     (if ss = [] then set (rg_editable_object_ids left) \<inter> set (rg_editable_object_ids right) \<noteq> {}
      else (case (map_of ss (rg_region_id left), map_of ss (rg_region_id right)) of
              (Some a, Some b) \<Rightarrow> \<exists>p \<in> set (physical_predicates a b). snd p \<noteq> {}
            | _ \<Rightarrow> False))"

lemma pair_physical_hard: "snd (pair_physical sh ss left right) \<longleftrightarrow> ss \<noteq> [] \<and> must_share_scope ss left right"
  by (auto simp: pair_physical_def must_share_scope_def physical_hard_iff split: option.splits)

lemma geometry_edge_hard:
  "e \<in> set (geometry_edges sh gb it ss left right) \<Longrightarrow> e_hard e \<longleftrightarrow> must_share_scope ss left right"
  using pair_edge_relation(2) [OF geometry_edges_pair] pair_physical_hard [of sh ss left right]
  by (auto simp: must_share_scope_def)

lemma geometry_edge_exists:
  assumes "must_share_scope ss left right" "gb_geometry gb"
  shows "\<exists>e. e \<in> set (geometry_edges sh gb it ss left right)"
proof -
  have "set (rg_editable_object_ids left) \<inter> set (rg_editable_object_ids right) \<noteq> {} \<or>
      fst (pair_physical sh ss left right) \<noteq> []"
  proof (cases "ss = []")
    case True
    then show ?thesis using assms(1) by (simp add: must_share_scope_def)
  next
    case False
    then have "snd (pair_physical sh ss left right)" using assms(1) pair_physical_hard by blast
    then show ?thesis
      using physical_hard_evidence [of sh] unfolding pair_physical_def by (auto split: option.splits)
  qed
  then show ?thesis
    using assms(2) unfolding geometry_edges_def Let_def case_prod_beta
    by (intro in_singleton_if_exists) blast
qed

subsection \<open>Messages\<close>

definition message_direction :: "neighbor_message \<Rightarrow> string \<times> string" where
  "message_direction m = (nm_sender_region_id m, nm_receiver_region_id m)"

definition subgraph_directions :: "agent_subgraph \<Rightarrow> agent_graph \<Rightarrow> (string \<times> string) list" where
  "subgraph_directions sg g = concat (map edge_directions (relevant_edges sg g))"

definition edges_known :: "agent_graph \<Rightarrow> bool" where
  "edges_known g \<longleftrightarrow> (\<forall>e \<in> set (gr_edges g). {e_u e, e_v e} \<subseteq> fst ` set (gr_regions g))"

lemma lookup_region_total: "rid \<in> fst ` set (gr_regions g) \<Longrightarrow> \<exists>r. lookup_region g rid = Inr r"
  by (auto simp: lookup_region_def map_of_eq_None_iff split: option.splits)

lemma edge_constraint_total:
  assumes "edges_known g" "e \<in> set (gr_edges g)"
  shows "\<exists>c. edge_constraint e g = Inr c"
proof -
  have "e_u e \<in> fst ` set (gr_regions g)" "e_v e \<in> fst ` set (gr_regions g)"
    using assms unfolding edges_known_def by blast+
  then obtain l r where "lookup_region g (e_u e) = Inr l" "lookup_region g (e_v e) = Inr r"
    using lookup_region_total by blast
  then show ?thesis unfolding edge_constraint_def by (simp add: case_prod_beta Let_def)
qed

lemma edge_message_simps [simp]:
  "message_direction (edge_message sh k content e d c is resp) = d"
  "nm_round (edge_message sh k content e d c is resp) = k"
  by (simp_all add: edge_message_def message_direction_def)

lemma mset_map_sort: "mset (map f (sort_key k xs)) = mset (map f xs)"
  by simp

text \<open>A round sends, for every relevant edge, one message in each direction.\<close>

lemma round_messages_total:
  assumes "edges_known g"
  shows "\<exists>ms. round_messages sh k sg g content is resp = Inr ms \<and> list_all (\<lambda>m. nm_round m = k) ms \<and>
    mset (map message_direction ms) = mset (subgraph_directions sg g)"
proof -
  have edge: "\<exists>ms. edge_messages sh k g content is resp e = Inr ms \<and> list_all (\<lambda>m. nm_round m = k) ms \<and>
      map message_direction ms = edge_directions e" if e: "e \<in> set (relevant_edges sg g)" for e
  proof -
    have "e \<in> set (gr_edges g)" using e by (simp add: relevant_edges_def)
    then obtain c where "edge_constraint e g = Inr c" using edge_constraint_total [OF assms] by blast
    then show ?thesis by (simp add: edge_messages_def edge_directions_def)
  qed
  then obtain mss where mss: "map_result (edge_messages sh k g content is resp) (relevant_edges sg g) = Inr mss"
    using map_result_total by (metis (no_types, lifting))
  have all2: "list_all2 (\<lambda>e ms. list_all (\<lambda>m. nm_round m = k) ms \<and> map message_direction ms = edge_directions e)
      (relevant_edges sg g) mss"
    using map_result_list_all2 [OF mss]
    by (rule list.rel_mono_strong) (metis (no_types, lifting) edge sum.inject(2))
  have "list_all (\<lambda>m. nm_round m = k) (concat mss) \<and>
      map message_direction (concat mss) = concat (map edge_directions (relevant_edges sg g))"
    using all2 by (induction rule: list_all2_induct) simp_all
  then show ?thesis
    using mss unfolding round_messages_def subgraph_directions_def
    by (simp add: list_all_iff mset_map_sort del: mset_map mset_concat)
qed

lemma revise_message_simps [simp]:
  "message_direction (revise_message sh m) = message_direction m"
  "nm_round (revise_message sh m) = 3"
  by (simp_all add: revise_message_def message_direction_def Let_def)

definition conflict_direction :: "(string \<times> string) set \<Rightarrow> string \<times> string \<Rightarrow> bool" where
  "conflict_direction pairs d \<longleftrightarrow> sorted_pair (fst d) (snd d) \<in> pairs"

lemma mset_filter_map: "mset (map f ms) = mset ds \<Longrightarrow> mset (map f (filter (\<lambda>m. P (f m)) ms)) = mset (filter P ds)"
proof -
  assume eq: "mset (map f ms) = mset ds"
  have "map f (filter (\<lambda>m. P (f m)) ms) = filter P (map f ms)"
    by (induction ms) auto
  then show ?thesis using eq by (metis mset_filter)
qed

lemma round_three_total:
  assumes "edges_known g"
  shows "\<exists>ms. round_three sh sg g pairs intents = Inr ms \<and> list_all (\<lambda>m. nm_round m = 3) ms \<and>
    mset (map message_direction ms) = mset (filter (conflict_direction pairs) (subgraph_directions sg g))"
proof -
  obtain ms where ms: "round_two sh sg g intents = Inr ms"
    "mset (map message_direction ms) = mset (subgraph_directions sg g)"
    using round_messages_total [OF assms] unfolding round_two_def by blast
  have conflict: "in_conflict pairs = (\<lambda>m. conflict_direction pairs (message_direction m))"
    by (simp add: fun_eq_iff in_conflict_def conflict_direction_def message_direction_def)
  have "mset (map message_direction (filter (in_conflict pairs) ms))
      = mset (filter (conflict_direction pairs) (subgraph_directions sg g))"
    unfolding conflict by (rule mset_filter_map [OF ms(2)])
  then have "mset (map message_direction (sort_key nm_message_id
      (map (revise_message sh) (filter (in_conflict pairs) ms))))
      = mset (filter (conflict_direction pairs) (subgraph_directions sg g))"
    unfolding mset_map_sort map_map comp_def revise_message_simps .
  then show ?thesis
    using ms(1) unfolding round_three_def by (simp add: list_all_iff del: mset_map mset_filter)
qed

lemma filter_round: "list_all (\<lambda>m. nm_round m = k) ms \<Longrightarrow>
    filter (\<lambda>m. nm_round m = j) ms = (if j = k then ms else [])"
  by (induction ms) auto

lemma run_messages_total:
  assumes "edges_known g"
  shows "\<exists>ms. run_messages sh sg g rounds intents pairs = Inr ms \<and>
    (\<forall>k. mset (map message_direction (filter (\<lambda>m. nm_round m = k) ms)) =
      (if 1 \<le> k \<and> k \<le> min rounds 3
       then mset (filter (\<lambda>d. k < 3 \<or> conflict_direction pairs d) (subgraph_directions sg g)) else {#}))"
proof -
  let ?n = "min (max rounds 0) 3" and ?ds = "subgraph_directions sg g"
  obtain m1 where m1: "round_one sh sg g = Inr m1" "list_all (\<lambda>m. nm_round m = 1) m1"
    "mset (map message_direction m1) = mset ?ds"
    using round_messages_total [OF assms] unfolding round_one_def by blast
  obtain m2 where m2: "round_two sh sg g intents = Inr m2" "list_all (\<lambda>m. nm_round m = 2) m2"
    "mset (map message_direction m2) = mset ?ds"
    using round_messages_total [OF assms] unfolding round_two_def by blast
  obtain m3 where m3: "round_three sh sg g pairs intents = Inr m3" "list_all (\<lambda>m. nm_round m = 3) m3"
    "mset (map message_direction m3) = mset (filter (conflict_direction pairs) ?ds)"
    using round_three_total [OF assms] by blast
  define ms where "ms = (if ?n \<ge> 1 then m1 else []) @ (if ?n \<ge> 2 then m2 else [])
    @ (if ?n \<ge> 3 \<and> pairs \<noteq> {} then m3 else [])"
  have run: "run_messages sh sg g rounds intents pairs = Inr ms"
    unfolding run_messages_def extend_if_def ms_def Let_def by (simp add: m1(1) m2(1) m3(1))
  have none: "filter (conflict_direction {}) ?ds = []"
    by (simp add: conflict_direction_def filter_empty_conv)
  have "mset (map message_direction (filter (\<lambda>m. nm_round m = k) ms)) =
      (if 1 \<le> k \<and> k \<le> min rounds 3
       then mset (filter (\<lambda>d. k < 3 \<or> conflict_direction pairs d) ?ds) else {#})" for k
  proof -
    have part: "filter (\<lambda>m. nm_round m = k) ms =
        (if k = 1 \<and> ?n \<ge> 1 then m1 else []) @ (if k = 2 \<and> ?n \<ge> 2 then m2 else [])
        @ (if k = 3 \<and> ?n \<ge> 3 \<and> pairs \<noteq> {} then m3 else [])"
      unfolding ms_def by (simp add: filter_round [OF m1(2)] filter_round [OF m2(2)] filter_round [OF m3(2)])
    consider "k = 1" | "k = 2" | "k = 3" | "k < 1 \<or> 3 < k" by linarith
    then show ?thesis
    proof cases
      case 1
      then show ?thesis unfolding part using m1(3) by (simp del: mset_map)
    next
      case 2
      then show ?thesis unfolding part using m2(3) by (simp del: mset_map)
    next
      case 3
      then show ?thesis unfolding part using m3(3) none by (cases "pairs = {}") (simp_all del: mset_map mset_filter)
    qed (simp add: part, linarith?)
  qed
  then show ?thesis using run by blast
qed

lemma build_graph_known:
  assumes "build_graph sh gb regions context ss = Inr g"
  shows "edges_known g"
proof -
  have "{e_u e, e_v e} \<subseteq> fst ` set (gr_regions g)" if e: "e \<in> set (gr_edges g)" for e
  proof -
    obtain p where p: "p \<in> set (later_pairs (sort_key rg_region_id regions))"
      "e \<in> set (pair_edges sh gb (case context of None \<Rightarrow> default_design_context | Some c \<Rightarrow> c) ss p)"
      using e unfolding build_graph_edges [OF assms] by (rule UN_E)
    obtain l r where lr: "p = (l, r)" by (cases p)
    show ?thesis
      using pair_edges_ends(1) [OF p(2) [unfolded lr]] later_pairs_in [OF p(1) [unfolded lr]]
      by (simp add: build_graph_regions(1) [OF assms])
  qed
  then show ?thesis unfolding edges_known_def by blast
qed

section \<open>Properties of the agent graph\<close>

text \<open>
  C35. The agent graph is always built (the assertion against timing edges never fires) and is well
  formed: its nodes are the regions, every edge joins two of them and has a score between 0 and 1,
  the edges are sorted by identifier, and only geometry and shared-net edges are hard. For distinct
  region identifiers no edge is a loop and the smaller identifier comes first.
\<close>

theorem agent_graph_well_formed:
  "case build_graph sh gb regions context ss of
     Inl _ \<Rightarrow> False
   | Inr g \<Rightarrow>
       fst ` set (gr_regions g) = rg_region_id ` set regions \<and>
       gr_potential_access_summaries g = ss \<and>
       sorted (map e_edge_id (gr_edges g)) \<and>
       (\<forall>e \<in> set (gr_edges g). {e_u e, e_v e} \<subseteq> rg_region_id ` set regions \<and> 0 \<le> e_score e \<and> e_score e \<le> 1 \<and>
         (e_hard e \<longrightarrow> e_relation e \<in> {RelGeometry, RelSharedNet}) \<and>
         (distinct (map rg_region_id regions) \<longrightarrow> e_u e < e_v e))"
proof (cases "build_graph sh gb regions context ss")
  case (Inl a)
  then show ?thesis unfolding build_graph_result by (simp add: Let_def)
next
  case (Inr g)
  have "{e_u e, e_v e} \<subseteq> rg_region_id ` set regions \<and> 0 \<le> e_score e \<and> e_score e \<le> 1 \<and>
      (e_hard e \<longrightarrow> e_relation e \<in> {RelGeometry, RelSharedNet}) \<and>
      (distinct (map rg_region_id regions) \<longrightarrow> e_u e < e_v e)" if e: "e \<in> set (gr_edges g)" for e
  proof -
    obtain p where p: "p \<in> set (later_pairs (sort_key rg_region_id regions))"
      "e \<in> set (pair_edges sh gb (case context of None \<Rightarrow> default_design_context | Some c \<Rightarrow> c) ss p)"
      using e unfolding build_graph_edges [OF Inr] by (rule UN_E)
    obtain l r where lr: "p = (l, r)" by (cases p)
    note ends = pair_edges_ends [OF p(2) [unfolded lr]]
    note rel = pair_edges_relation [OF p(2) [unfolded lr]]
    have "e_u e < e_v e" if "distinct (map rg_region_id regions)"
      using sorted_regions_pairs [OF that] p(1) ends(2) unfolding lr by simp
    moreover have "e_relation e \<in> {RelGeometry, RelSharedNet}" if "e_hard e"
      using rel(1,2) that by (cases "e_relation e") auto
    moreover have "{e_u e, e_v e} \<subseteq> rg_region_id ` set regions"
      using later_pairs_in [OF p(1) [unfolded lr]] unfolding ends(1) by simp
    ultimately show ?thesis using ends(3) by blast
  qed
  moreover have "sorted (map e_edge_id (gr_edges g))" "gr_potential_access_summaries g = ss"
    using Inr unfolding build_graph_result by (auto simp: Let_def)
  ultimately show ?thesis
    using Inr build_graph_regions(1) [OF Inr] by (simp only: sum.case) blast
qed

lemma hard_edge_iff:
  assumes "build_graph sh gb regions context ss = Inr g" and "distinct (map rg_region_id regions)"
    and "gb_geometry gb" and "l \<in> set regions" and "r \<in> set regions" and "rg_region_id l < rg_region_id r"
  shows "(\<exists>e \<in> set (gr_edges g). e_hard e \<and> e_relation e = RelGeometry \<and>
            e_u e = rg_region_id l \<and> e_v e = rg_region_id r) \<longleftrightarrow> must_share_scope ss l r"
proof -
  let ?ctx = "case context of None \<Rightarrow> default_design_context | Some c \<Rightarrow> c"
  have pair: "(l, r) \<in> set (later_pairs (sort_key rg_region_id regions))"
    using sorted_regions_pairs [OF assms(2)] assms(4-6) by blast
  show "(\<exists>e \<in> set (gr_edges g). e_hard e \<and> e_relation e = RelGeometry \<and>
      e_u e = rg_region_id l \<and> e_v e = rg_region_id r) \<longleftrightarrow> must_share_scope ss l r" (is "?L \<longleftrightarrow> _")
  proof
    assume ?L
    then obtain e where e: "e \<in> set (gr_edges g)" "e_hard e" "e_relation e = RelGeometry"
      "e_u e = rg_region_id l" "e_v e = rg_region_id r" by blast
    obtain p where p: "p \<in> set (later_pairs (sort_key rg_region_id regions))"
      "e \<in> set (pair_edges sh gb ?ctx ss p)"
      using e(1) unfolding build_graph_edges [OF assms(1)] by (rule UN_E)
    obtain l' r' where lr: "p = (l', r')" by (cases p)
    have lr': "l' \<in> set regions" "r' \<in> set regions" "rg_region_id l' < rg_region_id r'"
      using sorted_regions_pairs [OF assms(2)] p(1) unfolding lr by blast+
    have "rg_region_id l' = rg_region_id l" "rg_region_id r' = rg_region_id r"
      using pair_edges_ends(2) [OF p(2) [unfolded lr] lr'(3)] e(4,5) by simp_all
    then have "l' = l" "r' = r"
      using assms(2,4,5) lr' by (simp_all add: distinct_map inj_on_def)
    then show "must_share_scope ss l r"
      using geometry_edge_hard [OF pair_edges_relation(3) [OF p(2) [unfolded lr] e(3)]] e(2) by simp
  next
    assume must: "must_share_scope ss l r"
    obtain e where e: "e \<in> set (geometry_edges sh gb (dc_iteration ?ctx) ss l r)"
      using geometry_edge_exists [OF must assms(3)] by blast
    then have in_pair: "e \<in> set (pair_edges sh gb ?ctx ss (l, r))" by (simp add: pair_edges_def)
    then have "e \<in> set (gr_edges g)" unfolding build_graph_edges [OF assms(1)] using pair by (rule UN_I [rotated])
    then show ?L
      using geometry_edge_hard [OF e] must pair_edge_relation(1) [OF geometry_edges_pair [OF e]]
        pair_edges_ends(2) [OF in_pair assms(6)] by blast
  qed
qed

text \<open>
  C22. With geometry edges enabled and distinct region identifiers, two regions get a hard geometry
  edge exactly when they must be repaired together: without access summaries when they share an
  editable object, with them when one of the five physical predicates has an identity in common
  that both summaries authorise or prove. Which of the two is called left does not matter, and the
  broad-phase, unknown and source-definition facts of a summary have no influence.
\<close>

theorem hard_edges_exact:
  assumes "build_graph sh gb regions context ss = Inr g" and "distinct (map rg_region_id regions)"
    and "gb_geometry gb" and "l \<in> set regions" and "r \<in> set regions" and "rg_region_id l < rg_region_id r"
  shows "((\<exists>e \<in> set (gr_edges g). e_hard e \<and> e_relation e = RelGeometry \<and>
            e_u e = rg_region_id l \<and> e_v e = rg_region_id r) \<longleftrightarrow> must_share_scope ss l r) \<and>
    must_share_scope ss l r = must_share_scope ss r l \<and>
    must_share_scope (map (\<lambda>(k, s). (k, s\<lparr>ps_broad_phase_relation_ids := b, ps_unknown_access_ids := u,
           ps_source_definition_ids := d\<rparr>)) ss) l r = must_share_scope ss l r"
proof (intro conjI)
  show "(\<exists>e \<in> set (gr_edges g). e_hard e \<and> e_relation e = RelGeometry \<and>
      e_u e = rg_region_id l \<and> e_v e = rg_region_id r) \<longleftrightarrow> must_share_scope ss l r"
    by (rule hard_edge_iff [OF assms])
  show "must_share_scope ss l r = must_share_scope ss r l"
    unfolding must_share_scope_def
    by (auto simp: Int_commute physical_predicates_sym split: option.splits)
  show "must_share_scope (map (\<lambda>(k, s). (k, s\<lparr>ps_broad_phase_relation_ids := b, ps_unknown_access_ids := u,
      ps_source_definition_ids := d\<rparr>)) ss) l r = must_share_scope ss l r"
    unfolding must_share_scope_def map_of_map
    by (auto simp: physical_predicates_def legacy_summaries_def exact_access_def proven_access_def Let_def
        split: option.splits)
qed

text \<open>
  C32. The message protocol on a built graph never fails, and sends exactly the messages it should:
  in each of the rounds one and two, if it runs, one message in each direction of every edge of
  the subgraph; in round three the same, for the pairs in conflict only; no message belongs to
  another round, whatever number of rounds is asked for.
\<close>

theorem message_protocol:
  "case build_graph sh gb regions context ss of
     Inl _ \<Rightarrow> False
   | Inr g \<Rightarrow>
       \<exists>ms. run_messages sh sg g rounds intents pairs = Inr ms \<and>
         (\<forall>k. mset (map message_direction (filter (\<lambda>m. nm_round m = k) ms)) =
           (if 1 \<le> k \<and> k \<le> min rounds 3
            then mset (filter (\<lambda>d. k < 3 \<or> conflict_direction pairs d) (subgraph_directions sg g))
            else {#}))"
proof (cases "build_graph sh gb regions context ss")
  case (Inl a)
  then show ?thesis unfolding build_graph_result by (simp add: Let_def)
next
  case (Inr g)
  then show ?thesis using run_messages_total [OF build_graph_known [OF Inr]] by (simp only: sum.case)
qed

subsection \<open>Witnesses\<close>

definition no_resources :: resource_context where
  "no_resources = \<lparr>rx_source = SourceUnavailable, rx_occupied_track_bins = [], rx_free_track_bins = [],
     rx_via_site_bins = [], rx_local_whitespace_ratio = None, rx_local_density = None,
     rx_congestion_score = None, rx_confidence = 0\<rparr>"

text \<open>A region with the given editable objects and violations.\<close>

definition plain_region :: "string \<Rightarrow> string list \<Rightarrow> string list \<Rightarrow> region_state" where
  "plain_region rid objs vids =
     \<lparr>rg_schema_version = ''1.0'', rg_region_id = rid, rg_lineage_id = rid, rg_parent_region_ids = [],
      rg_status = RegionActive, rg_iteration = 0,
      rg_bbox_dbu = \<lparr>bx_x1 = 0, bx_y1 = 0, bx_x2 = 10, bx_y2 = 10\<rparr>,
      rg_edit_halo_dbu = \<lparr>bx_x1 = 0, bx_y1 = 0, bx_x2 = 10, bx_y2 = 10\<rparr>,
      rg_layers = [''M1''], rg_violation_ids = vids, rg_rule_ids = [], rg_rule_family_histogram = [],
      rg_object_ids = objs, rg_editable_object_ids = objs, rg_frozen_object_ids = [],
      rg_segment_ids = [], rg_via_ids = [], rg_cell_instance_ids = [], rg_net_ids = [],
      rg_net_mapping_quality = NetUnavailable, rg_resource_context = no_resources,
      rg_timing_context = None, rg_source_slices = [], rg_neighbor_edge_refs = [],
      rg_candidate_history = [], rg_rollback_history = [],
      rg_derived_features = \<lparr>rf_marker_count = 0, rf_object_count = 0, rf_token_estimate = 0,
        rf_density_proxy = None, rf_geometry_signature = []\<rparr>,
      rg_quality_flags = {}, rg_content_hash = []\<rparr>"

lemma plain_region_simps [simp]:
  "rg_region_id (plain_region rid objs vids) = rid"
  "rg_editable_object_ids (plain_region rid objs vids) = objs"
  "rg_violation_ids (plain_region rid objs vids) = vids"
  by (simp_all add: plain_region_def)

definition example_regions :: "region_state list" where
  "example_regions = [plain_region ''r1'' [''o1''] [''v1''], plain_region ''r2'' [''o1'', ''o2''] []]"

lemma example_graph_total: "\<exists>g. build_graph sh gb regions context ss = Inr g"
  unfolding build_graph_result by (simp add: Let_def)

lemma agent_graph_well_formed_witness:
  "\<forall>sh. \<exists>g. build_graph sh default_graph_builder example_regions None [] = Inr g \<and>
     (\<forall>e \<in> set (gr_edges g). e_u e < e_v e)"
proof
  fix sh
  obtain g where g: "build_graph sh default_graph_builder example_regions None [] = Inr g"
    using example_graph_total by blast
  have "distinct (map rg_region_id example_regions)" by (simp add: example_regions_def)
  then show "\<exists>g. build_graph sh default_graph_builder example_regions None [] = Inr g \<and>
      (\<forall>e \<in> set (gr_edges g). e_u e < e_v e)"
    using agent_graph_well_formed [of example_regions "[]" sh default_graph_builder None] g by simp
qed

lemma hard_edges_exact_witness:
  "\<forall>sh. \<exists>g. build_graph sh default_graph_builder example_regions None [] = Inr g \<and>
     (\<exists>e \<in> set (gr_edges g). e_hard e \<and> e_u e = ''r1'' \<and> e_v e = ''r2'')"
proof
  fix sh
  obtain g where g: "build_graph sh default_graph_builder example_regions None [] = Inr g"
    using example_graph_total by blast
  let ?l = "plain_region ''r1'' [''o1''] [''v1'']" and ?r = "plain_region ''r2'' [''o1'', ''o2''] []"
  have in_regions: "?l \<in> set example_regions" "?r \<in> set example_regions"
    by (simp_all add: example_regions_def)
  have less: "rg_region_id ?l < rg_region_id ?r" by (simp add: less_char_def)
  have "distinct (map rg_region_id example_regions)" "gb_geometry default_graph_builder"
    by (simp_all add: example_regions_def default_graph_builder_def)
  from hard_edges_exact [OF g this in_regions less, THEN conjunct1] g
  show "\<exists>g. build_graph sh default_graph_builder example_regions None [] = Inr g \<and>
      (\<exists>e \<in> set (gr_edges g). e_hard e \<and> e_u e = ''r1'' \<and> e_v e = ''r2'')"
    by (auto simp: must_share_scope_def)
qed

end
