(* ===== verification/Local_Topology.thy ===== *)
theory Local_Topology
  imports Geometry Layout_Schemas Action_Schemas
begin

text \<open>
  The local routing topology (\<open>regions/topology.py\<close>): the pieces of routes in a window around each
  violation, their endpoints, the landings of the vias that a violation is about, and which of them are
  near each other. \<open>sh\<close> is \<open>stable_hash\<close>.
\<close>

section \<open>Records\<close>

datatype boundary_kind = ParentEndpoint | WindowBoundary

datatype route_evidence = RouteSourceExact | RouteGeometric

datatype landing_evidence = LandingSourceExact | LandingMarkerGeometric

datatype via_relation = ViaOverlaps | ViaNearby

datatype topology_evidence = SourcePlusConnectivity | SourceGeometric

record route_endpoint =
  ren_endpoint_id :: string
  ren_fragment_id :: string
  ren_parent_object_id :: string
  ren_point_dbu :: point
  ren_end :: endpoint_end
  ren_boundary_kind :: boundary_kind
  ren_connectivity_component_id :: "string option"
  ren_evidence_level :: route_evidence

record route_fragment =
  rfr_fragment_id :: string
  rfr_parent_object_id :: string
  rfr_parent_source_anchor_id :: string
  rfr_violation_ids :: "string list"
  rfr_layer :: string
  rfr_bbox_dbu :: box
  rfr_geometry_dbu :: "point list"
  rfr_orientation :: orientation
  rfr_endpoint_ids :: "string list"
  rfr_connectivity_component_id :: "string option"
  rfr_evidence_level :: route_evidence

record via_landing =
  vln_landing_id :: string
  vln_violation_id :: string
  vln_layer :: string
  vln_bbox_dbu :: box
  vln_parent_object_id :: "string option"
  vln_parent_source_anchor_id :: "string option"
  vln_connectivity_component_id :: "string option"
  vln_evidence_level :: landing_evidence

record via_metal_adjacency =
  vma_adjacency_id :: string
  vma_via_landing_id :: string
  vma_route_fragment_id :: string
  vma_relation :: via_relation
  vma_overlap_area_dbu2 :: int
  vma_gap_dbu :: int
  vma_connectivity_component_id :: "string option"
  vma_evidence_level :: route_evidence

record same_layer_adjacency =
  sla_adjacency_id :: string
  sla_a_fragment_id :: string
  sla_b_fragment_id :: string
  sla_layer :: string
  sla_gap_dbu :: int
  sla_evidence_level :: route_evidence

record local_topology =
  ltp_fragments :: "(string \<times> route_fragment) list"
  ltp_endpoints :: "(string \<times> route_endpoint) list"
  ltp_via_landings :: "(string \<times> via_landing) list"
  ltp_via_metal_adjacencies :: "via_metal_adjacency list"
  ltp_same_layer_adjacencies :: "same_layer_adjacency list"
  ltp_parent_to_fragment_ids :: "(string \<times> string list) list"
  ltp_source_anchor_to_fragment_ids :: "(string \<times> string list) list"
  ltp_coverage :: "(string \<times> int) list"
  ltp_evidence_level :: topology_evidence

record topology_builder =
  tbu_dbu_per_um :: int
  tbu_minimum_window_dbu :: int

section \<open>Fragments\<close>

text \<open>The routes that the sources describe, and those that are long.\<close>

definition source_route :: "layout_object \<Rightarrow> bool" where
  "source_route x \<longleftrightarrow> opt_truthy (lo_source_anchor_id x) \<and> lo_geometry_dbu x \<noteq> None \<and> lo_geometry_dbu x \<noteq> Some [] \<and>
     lo_routing_type x = Some ''routing''"

definition anchor_of :: "layout_object \<Rightarrow> string" where
  "anchor_of x = (case lo_source_anchor_id x of None \<Rightarrow> [] | Some a \<Rightarrow> a)"

definition long_eligible :: "topology_builder \<Rightarrow> layout_object list \<Rightarrow> string set" where
  "long_eligible bu sources = lo_object_id ` {x \<in> set sources.
     2 * tbu_dbu_per_um bu \<le> max (box_width (lo_bbox_dbu x)) (box_height (lo_bbox_dbu x))}"

definition route_evidence_of :: "layout_object \<Rightarrow> route_evidence" where
  "route_evidence_of x = (if lo_source_span x \<noteq> None then RouteSourceExact else RouteGeometric)"

text \<open>The window of a violation.\<close>

definition violation_window :: "topology_builder \<Rightarrow> violation_record \<Rightarrow> box result" where
  "violation_window bu v =
     (let marker = v_marker_bbox_dbu v in
      box_expand marker (max (max (tbu_minimum_window_dbu bu) (box_width marker)) (box_height marker)))"

definition fragmentable :: "violation_record \<Rightarrow> layout_object \<Rightarrow> bool" where
  "fragmentable v x \<longleftrightarrow>
     lo_kind x \<in> {KindPolygon, KindPath} \<and> (v_layers v = [] \<or> lo_layer x \<in> set (v_layers v))"

definition fragment_name :: "(json \<Rightarrow> string) \<Rightarrow> violation_record \<Rightarrow> layout_object \<Rightarrow> box \<Rightarrow> string" where
  "fragment_name sh v x clipped =
     short_id sh ''fragment_'' 20 (JList [JStr (lo_object_id x), JStr (v_violation_id v), box_json clipped])"

text \<open>The two ends of a piece: the middle of its short sides, with its bound and that of the parent.\<close>

definition fragment_ends :: "layout_object \<Rightarrow> box \<Rightarrow> (point \<times> int \<times> int) list" where
  "fragment_ends x clipped =
     (let parent = lo_bbox_dbu x; mid_x = (bx_x1 clipped + bx_x2 clipped) div 2;
          mid_y = (bx_y1 clipped + bx_y2 clipped) div 2 in
      case box_orientation parent of
        Square \<Rightarrow> []
      | Horizontal \<Rightarrow>
          [(\<lparr>pt_x = bx_x1 clipped, pt_y = mid_y\<rparr>, bx_x1 clipped, bx_x1 parent),
           (\<lparr>pt_x = bx_x2 clipped, pt_y = mid_y\<rparr>, bx_x2 clipped, bx_x2 parent)]
      | Vertical \<Rightarrow>
          [(\<lparr>pt_x = mid_x, pt_y = bx_y1 clipped\<rparr>, bx_y1 clipped, bx_y1 parent),
           (\<lparr>pt_x = mid_x, pt_y = bx_y2 clipped\<rparr>, bx_y2 clipped, bx_y2 parent)])"

definition point_json :: "point \<Rightarrow> json" where
  "point_json p = JObj [(''x'', JInt (pt_x p)), (''y'', JInt (pt_y p))]"

definition make_endpoint ::
    "(json \<Rightarrow> string) \<Rightarrow> string \<Rightarrow> layout_object \<Rightarrow> int \<times> point \<times> int \<times> int \<Rightarrow> route_endpoint" where
  "make_endpoint sh fragment_id x entry =
     (let (index, p, bound, parent_bound) = entry in
      \<lparr>ren_endpoint_id = short_id sh ''endpoint_'' 20 (JList [JStr fragment_id, JInt index, point_json p]),
       ren_fragment_id = fragment_id, ren_parent_object_id = lo_object_id x, ren_point_dbu = p,
       ren_end = (if index = 0 then EndStart else EndEnd),
       ren_boundary_kind = (if bound = parent_bound then ParentEndpoint else WindowBoundary),
       ren_connectivity_component_id = lo_connectivity_component_id x,
       ren_evidence_level = route_evidence_of x\<rparr>)"

definition fragment_endpoints :: "(json \<Rightarrow> string) \<Rightarrow> string \<Rightarrow> layout_object \<Rightarrow> box \<Rightarrow> route_endpoint list" where
  "fragment_endpoints sh fragment_id x clipped =
     map (make_endpoint sh fragment_id x) (zip [0, 1] (fragment_ends x clipped))"

definition make_fragment ::
    "(json \<Rightarrow> string) \<Rightarrow> violation_record \<Rightarrow> layout_object \<Rightarrow> box \<Rightarrow> route_fragment" where
  "make_fragment sh v x clipped =
     (let i = fragment_name sh v x clipped in
      \<lparr>rfr_fragment_id = i, rfr_parent_object_id = lo_object_id x, rfr_parent_source_anchor_id = anchor_of x,
       rfr_violation_ids = [v_violation_id v], rfr_layer = lo_layer x, rfr_bbox_dbu = clipped,
       rfr_geometry_dbu = box_polygon clipped, rfr_orientation = box_orientation (lo_bbox_dbu x),
       rfr_endpoint_ids = map ren_endpoint_id (fragment_endpoints sh i x clipped),
       rfr_connectivity_component_id = lo_connectivity_component_id x,
       rfr_evidence_level = route_evidence_of x\<rparr>)"

section \<open>The state of a build\<close>

record topology_state =
  tst_fragments :: "(string \<times> route_fragment) list"
  tst_endpoints :: "(string \<times> route_endpoint) list"
  tst_landings :: "(string \<times> via_landing) list"
  tst_by_parent :: "(string \<times> string list) list"
  tst_by_anchor :: "(string \<times> string list) list"

definition empty_topology :: topology_state where
  "empty_topology = \<lparr>tst_fragments = [], tst_endpoints = [], tst_landings = [], tst_by_parent = [], tst_by_anchor = []\<rparr>"

definition add_fragment ::
    "(json \<Rightarrow> string) \<Rightarrow> violation_record \<Rightarrow> box \<Rightarrow> topology_state \<Rightarrow> layout_object \<Rightarrow> topology_state" where
  "add_fragment sh v window s x =
     (if \<not> fragmentable v x then s
      else case box_intersection (lo_bbox_dbu x) window of
        None \<Rightarrow> s
      | Some clipped \<Rightarrow>
          let i = fragment_name sh v x clipped in
          s\<lparr>tst_endpoints := foldl (\<lambda>d e. dict_set (ren_endpoint_id e) e d) (tst_endpoints s)
              (fragment_endpoints sh i x clipped),
            tst_fragments := dict_set i (make_fragment sh v x clipped) (tst_fragments s),
            tst_by_parent := dict_append (lo_object_id x) i (tst_by_parent s),
            tst_by_anchor := dict_append (anchor_of x) i (tst_by_anchor s)\<rparr>)"

text \<open>The landings of a via layer: the routes under the marker, or the marker itself.\<close>

definition source_landing :: "(json \<Rightarrow> string) \<Rightarrow> violation_record \<Rightarrow> string \<Rightarrow> layout_object \<Rightarrow> via_landing" where
  "source_landing sh v layer x =
     \<lparr>vln_landing_id = short_id sh ''landing_'' 20 (JList [JStr (v_violation_id v), JStr (lo_object_id x)]),
      vln_violation_id = v_violation_id v, vln_layer = layer, vln_bbox_dbu = lo_bbox_dbu x,
      vln_parent_object_id = Some (lo_object_id x), vln_parent_source_anchor_id = lo_source_anchor_id x,
      vln_connectivity_component_id = lo_connectivity_component_id x, vln_evidence_level = LandingSourceExact\<rparr>"

definition marker_landing :: "(json \<Rightarrow> string) \<Rightarrow> violation_record \<Rightarrow> string \<Rightarrow> via_landing" where
  "marker_landing sh v layer =
     \<lparr>vln_landing_id = short_id sh ''landing_'' 20
        (JList [JStr (v_violation_id v), JStr layer, box_json (v_marker_bbox_dbu v)]),
      vln_violation_id = v_violation_id v, vln_layer = layer, vln_bbox_dbu = v_marker_bbox_dbu v,
      vln_parent_object_id = None, vln_parent_source_anchor_id = None, vln_connectivity_component_id = None,
      vln_evidence_level = LandingMarkerGeometric\<rparr>"

definition layer_landings ::
    "(json \<Rightarrow> string) \<Rightarrow> layout_object list \<Rightarrow> violation_record \<Rightarrow> string \<Rightarrow> via_landing list" where
  "layer_landings sh sources v layer =
     (if \<not> starts_with layer ''V'' then []
      else case filter (\<lambda>x. lo_layer x = layer \<and> box_intersects (lo_bbox_dbu x) (v_marker_bbox_dbu v)) sources of
        [] \<Rightarrow> [marker_landing sh v layer]
      | matching \<Rightarrow> map (source_landing sh v layer) matching)"

definition add_violation ::
    "(json \<Rightarrow> string) \<Rightarrow> topology_builder \<Rightarrow> layout_object list \<Rightarrow> topology_state \<Rightarrow> violation_record \<Rightarrow>
     topology_state result" where
  "add_violation sh bu sources s v =
     bind_result (violation_window bu v) (\<lambda>window.
     let s1 = foldl (add_fragment sh v window) s sources in
     Inr (s1\<lparr>tst_landings := foldl (\<lambda>d l. dict_set (vln_landing_id l) l d) (tst_landings s1)
       (concat (map (layer_landings sh sources v) (v_layers v)))\<rparr>))"

fun add_violations ::
    "(json \<Rightarrow> string) \<Rightarrow> topology_builder \<Rightarrow> layout_object list \<Rightarrow> violation_record list \<Rightarrow> topology_state \<Rightarrow>
     topology_state result" where
  "add_violations sh bu sources [] s = Inr s"
| "add_violations sh bu sources (v # vs) s =
     bind_result (add_violation sh bu sources s v) (add_violations sh bu sources vs)"

section \<open>Adjacencies\<close>

definition same_layer_near :: "topology_builder \<Rightarrow> route_fragment \<Rightarrow> route_fragment \<Rightarrow> bool" where
  "same_layer_near bu a b \<longleftrightarrow>
     rfr_layer a = rfr_layer b \<and> rfr_parent_object_id a \<noteq> rfr_parent_object_id b \<and>
     outward_box_gap_dbu (rfr_bbox_dbu a) (rfr_bbox_dbu b) \<le> tbu_minimum_window_dbu bu"

definition make_same_layer :: "(json \<Rightarrow> string) \<Rightarrow> route_fragment \<times> route_fragment \<Rightarrow> same_layer_adjacency" where
  "make_same_layer sh entry =
     (let (a, b) = entry in
      \<lparr>sla_adjacency_id = short_id sh ''same_layer_'' 20 (JList [JStr (rfr_fragment_id a), JStr (rfr_fragment_id b)]),
       sla_a_fragment_id = rfr_fragment_id a, sla_b_fragment_id = rfr_fragment_id b, sla_layer = rfr_layer a,
       sla_gap_dbu = outward_box_gap_dbu (rfr_bbox_dbu a) (rfr_bbox_dbu b),
       sla_evidence_level = (if rfr_evidence_level a = RouteSourceExact \<and> rfr_evidence_level b = RouteSourceExact
         then RouteSourceExact else RouteGeometric)\<rparr>)"

definition same_layer_adjacencies ::
    "(json \<Rightarrow> string) \<Rightarrow> topology_builder \<Rightarrow> route_fragment list \<Rightarrow> same_layer_adjacency list" where
  "same_layer_adjacencies sh bu fragments =
     map (make_same_layer sh) (filter (\<lambda>(a, b). same_layer_near bu a b)
       (ordered_pairs (sort_key rfr_fragment_id fragments)))"

definition via_metal_near :: "topology_builder \<Rightarrow> via_landing \<Rightarrow> route_fragment \<Rightarrow> bool" where
  "via_metal_near bu l f \<longleftrightarrow>
     rfr_layer f \<in> via_adjacent_metals (vln_layer l) \<and> vln_violation_id l \<in> set (rfr_violation_ids f) \<and>
     \<not> (box_intersection_area (vln_bbox_dbu l) (rfr_bbox_dbu f) = 0 \<and>
        tbu_minimum_window_dbu bu < outward_box_gap_dbu (vln_bbox_dbu l) (rfr_bbox_dbu f))"

definition make_via_metal :: "(json \<Rightarrow> string) \<Rightarrow> via_landing \<times> route_fragment \<Rightarrow> via_metal_adjacency" where
  "make_via_metal sh entry =
     (let (l, f) = entry; overlap = box_intersection_area (vln_bbox_dbu l) (rfr_bbox_dbu f) in
      \<lparr>vma_adjacency_id = short_id sh ''via_metal_'' 20 (JList [JStr (vln_landing_id l), JStr (rfr_fragment_id f)]),
       vma_via_landing_id = vln_landing_id l, vma_route_fragment_id = rfr_fragment_id f,
       vma_relation = (if overlap \<noteq> 0 then ViaOverlaps else ViaNearby), vma_overlap_area_dbu2 = overlap,
       vma_gap_dbu = outward_box_gap_dbu (vln_bbox_dbu l) (rfr_bbox_dbu f),
       vma_connectivity_component_id =
         (if vln_connectivity_component_id l = rfr_connectivity_component_id f
          then vln_connectivity_component_id l else None),
       vma_evidence_level = (if vln_evidence_level l = LandingSourceExact \<and> rfr_evidence_level f = RouteSourceExact
         then RouteSourceExact else RouteGeometric)\<rparr>)"

definition via_metal_adjacencies ::
    "(json \<Rightarrow> string) \<Rightarrow> topology_builder \<Rightarrow> via_landing list \<Rightarrow> route_fragment list \<Rightarrow> via_metal_adjacency list" where
  "via_metal_adjacencies sh bu landings fragments =
     map (make_via_metal sh) (filter (\<lambda>(l, f). via_metal_near bu l f) (List.product landings fragments))"

section \<open>The topology\<close>

definition topology_coverage ::
    "topology_builder \<Rightarrow> layout_object list \<Rightarrow> topology_state \<Rightarrow> nat \<Rightarrow> nat \<Rightarrow> (string \<times> int) list" where
  "topology_coverage bu sources s via_metal same_layer =
     (let parents = fst ` set (tst_by_parent s); long_routes = long_eligible bu sources;
          fragmented_long = card (long_routes \<inter> parents) in
      [(''source_routing_object_count'', int (length sources)),
       (''fragmented_parent_count'', int (length (tst_by_parent s))),
       (''long_route_parent_count'', int (card long_routes)),
       (''fragmented_long_route_parent_count'', int fragmented_long),
       (''connectivity_component_object_count'',
         int (card (lo_object_id ` {x \<in> set sources. opt_truthy (lo_connectivity_component_id x)}))),
       (''via_landing_count'', int (length (tst_landings s))),
       (''via_metal_adjacency_count'', int via_metal),
       (''same_layer_adjacency_count'', int same_layer),
       (''parent_mapping_coverage_milli'',
         1000 * int (length (tst_by_parent s)) div max (int (length sources)) 1),
       (''long_route_mapping_coverage_milli'',
         1000 * int fragmented_long div max (int (card long_routes)) 1)])"

definition sorted_dict :: "(string \<times> 'a) list \<Rightarrow> (string \<times> 'a) list" where
  "sorted_dict d = sort_key fst d"

definition sorted_id_lists :: "(string \<times> string list) list \<Rightarrow> (string \<times> string list) list" where
  "sorted_id_lists d = map (\<lambda>(k, v). (k, py_sorted (set v))) (sorted_dict d)"

definition finish_topology ::
    "(json \<Rightarrow> string) \<Rightarrow> topology_builder \<Rightarrow> layout_object list \<Rightarrow> topology_state \<Rightarrow> local_topology" where
  "finish_topology sh bu sources s =
     (let fragments = map snd (tst_fragments s);
          same_layer = same_layer_adjacencies sh bu fragments;
          via_metal = via_metal_adjacencies sh bu (map snd (tst_landings s)) fragments in
      \<lparr>ltp_fragments = sorted_dict (tst_fragments s), ltp_endpoints = sorted_dict (tst_endpoints s),
       ltp_via_landings = sorted_dict (tst_landings s),
       ltp_via_metal_adjacencies = sort_key vma_adjacency_id via_metal,
       ltp_same_layer_adjacencies = sort_key sla_adjacency_id same_layer,
       ltp_parent_to_fragment_ids = sorted_id_lists (tst_by_parent s),
       ltp_source_anchor_to_fragment_ids = sorted_id_lists (tst_by_anchor s),
       ltp_coverage = topology_coverage bu sources s (length via_metal) (length same_layer),
       ltp_evidence_level = (if \<exists>x \<in> set sources. opt_truthy (lo_connectivity_component_id x)
         then SourcePlusConnectivity else SourceGeometric)\<rparr>)"

text \<open>\<open>LocalTopologyBuilder.build\<close>.\<close>

definition build_topology ::
    "(json \<Rightarrow> string) \<Rightarrow> topology_builder \<Rightarrow> violation_record list \<Rightarrow> layout_object list \<Rightarrow> local_topology result" where
  "build_topology sh bu violations objects =
     (let sources = filter source_route objects in
      bind_result (add_violations sh bu sources (sort_key v_violation_id violations) empty_topology)
        (\<lambda>s. Inr (finish_topology sh bu sources s)))"

section \<open>What a build contains\<close>

text \<open>The pieces of routes that a build is about: a violation, a route near it and the common box.\<close>

type_synonym route_piece = "violation_record \<times> layout_object \<times> box"

definition pieces_of :: "box \<Rightarrow> violation_record \<Rightarrow> layout_object list \<Rightarrow> route_piece set" where
  "pieces_of window v sources =
     {(v, x, c) | x c. x \<in> set sources \<and> fragmentable v x \<and> box_intersection (lo_bbox_dbu x) window = Some c}"

definition topology_pieces :: "topology_builder \<Rightarrow> violation_record list \<Rightarrow> layout_object list \<Rightarrow> route_piece set" where
  "topology_pieces bu violations sources =
     {p. \<exists>v \<in> set violations. \<exists>window. violation_window bu v = Inr window \<and> p \<in> pieces_of window v sources}"

fun piece_name :: "(json \<Rightarrow> string) \<Rightarrow> route_piece \<Rightarrow> string" where
  "piece_name sh (v, x, c) = fragment_name sh v x c"

fun piece_fragment :: "(json \<Rightarrow> string) \<Rightarrow> route_piece \<Rightarrow> route_fragment" where
  "piece_fragment sh (v, x, c) = make_fragment sh v x c"

fun piece_endpoints :: "(json \<Rightarrow> string) \<Rightarrow> route_piece \<Rightarrow> route_endpoint list" where
  "piece_endpoints sh (v, x, c) = fragment_endpoints sh (fragment_name sh v x c) x c"

definition piece_parent :: "route_piece \<Rightarrow> string" where
  "piece_parent p = lo_object_id (fst (snd p))"

definition piece_anchor :: "route_piece \<Rightarrow> string" where
  "piece_anchor p = anchor_of (fst (snd p))"

text \<open>A dictionary whose entries are made from some elements, one for each key.\<close>

definition made_from :: "('p \<Rightarrow> (string \<times> 'v) set) \<Rightarrow> 'p set \<Rightarrow> (string \<times> 'v) list \<Rightarrow> bool" where
  "made_from entries P d \<longleftrightarrow>
     distinct (map fst d) \<and> set d \<subseteq> \<Union> (entries ` P) \<and> fst ` set d = fst ` \<Union> (entries ` P)"

lemma made_from_empty: "made_from entries {} []"
  by (simp add: made_from_def)

lemma set_dict_set: "set (dict_set k v d) \<subseteq> insert (k, v) (set d)"
  by (induction d) (auto split: if_splits)

lemma made_from_set:
  assumes d: "made_from entries P d" and e: "entries p = {(k, v)}"
  shows "made_from entries (insert p P) (dict_set k v d)"
  using assms set_dict_set [of k v d]
  by (auto simp: made_from_def distinct_dict_set keys_dict_set)

lemma foldl_dict_set_keys:
  "fst ` set (foldl (\<lambda>d e. dict_set (f e) e d) d es) = fst ` set d \<union> f ` set es"
  by (induction es arbitrary: d) (auto simp: keys_dict_set)

lemma foldl_dict_set_entries:
  "set (foldl (\<lambda>d e. dict_set (f e) e d) d es) \<subseteq> set d \<union> (\<lambda>e. (f e, e)) ` set es"
proof (induction es arbitrary: d)
  case (Cons e es)
  from Cons [of "dict_set (f e) e d"] set_dict_set [of "f e" e d] show ?case by auto
qed simp

lemma foldl_dict_set_distinct:
  "distinct (map fst d) \<Longrightarrow> distinct (map fst (foldl (\<lambda>d e. dict_set (f e) e d) d es))"
  by (induction es arbitrary: d) (auto simp: distinct_dict_set)

lemma made_from_sets:
  assumes d: "made_from entries P d" and e: "entries p = (\<lambda>e. (f e, e)) ` set es"
  shows "made_from entries (insert p P) (foldl (\<lambda>d e. dict_set (f e) e d) d es)"
  using assms foldl_dict_set_entries [of f d es] foldl_dict_set_distinct [of d f es]
  by (auto simp: made_from_def foldl_dict_set_keys image_image image_Un)

text \<open>A dictionary of names by key.\<close>

definition names_by :: "('p \<Rightarrow> string) \<Rightarrow> ('p \<Rightarrow> string) \<Rightarrow> 'p set \<Rightarrow> (string \<times> string list) list \<Rightarrow> bool" where
  "names_by key name P d \<longleftrightarrow>
     distinct (map fst d) \<and> fst ` set d = key ` P \<and> (\<forall>k. set (dict_get_list d k) = name ` {p \<in> P. key p = k})"

lemma names_by_empty: "names_by key name {} []"
  by (simp add: names_by_def dict_get_list_def)

lemma names_by_append:
  assumes "names_by key name P d"
  shows "names_by key name (insert p P) (dict_append (key p) (name p) d)"
  using assms by (auto simp: names_by_def distinct_dict_append keys_dict_append dict_get_list_append)

lemma names_by_entry:
  assumes "names_by key name P d" "(k, ids) \<in> set d"
  shows "set ids = name ` {p \<in> P. key p = k}"
  using assms unfolding names_by_def dict_get_list_def
  by (metis (no_types, lifting) map_of_is_SomeI option.simps(5))

text \<open>The state after the pieces \<open>P\<close>.\<close>

definition holds_pieces :: "(json \<Rightarrow> string) \<Rightarrow> route_piece set \<Rightarrow> topology_state \<Rightarrow> bool" where
  "holds_pieces sh P s \<longleftrightarrow>
     made_from (\<lambda>p. {(piece_name sh p, piece_fragment sh p)}) P (tst_fragments s) \<and>
     made_from (\<lambda>p. (\<lambda>e. (ren_endpoint_id e, e)) ` set (piece_endpoints sh p)) P (tst_endpoints s) \<and>
     names_by piece_parent (piece_name sh) P (tst_by_parent s) \<and>
     names_by piece_anchor (piece_name sh) P (tst_by_anchor s)"

lemma holds_pieces_empty: "holds_pieces sh {} empty_topology"
  by (simp add: holds_pieces_def empty_topology_def made_from_empty names_by_empty)

lemma holds_pieces_add:
  assumes s: "holds_pieces sh P s" and x: "fragmentable v x" "box_intersection (lo_bbox_dbu x) window = Some c"
  shows "holds_pieces sh (insert (v, x, c) P) (add_fragment sh v window s x)"
proof -
  have "made_from (\<lambda>p. {(piece_name sh p, piece_fragment sh p)}) (insert (v, x, c) P)
      (dict_set (fragment_name sh v x c) (make_fragment sh v x c) (tst_fragments s))"
    by (rule made_from_set) (use s in \<open>simp_all add: holds_pieces_def\<close>)
  moreover have "made_from (\<lambda>p. (\<lambda>e. (ren_endpoint_id e, e)) ` set (piece_endpoints sh p)) (insert (v, x, c) P)
      (foldl (\<lambda>d e. dict_set (ren_endpoint_id e) e d) (tst_endpoints s)
        (fragment_endpoints sh (fragment_name sh v x c) x c))"
    by (rule made_from_sets) (use s in \<open>simp_all add: holds_pieces_def\<close>)
  moreover have "names_by piece_parent (piece_name sh) (insert (v, x, c) P)
      (dict_append (lo_object_id x) (fragment_name sh v x c) (tst_by_parent s))"
    using names_by_append [of piece_parent "piece_name sh" P "tst_by_parent s" "(v, x, c)"] s
    by (simp add: holds_pieces_def piece_parent_def)
  moreover have "names_by piece_anchor (piece_name sh) (insert (v, x, c) P)
      (dict_append (anchor_of x) (fragment_name sh v x c) (tst_by_anchor s))"
    using names_by_append [of piece_anchor "piece_name sh" P "tst_by_anchor s" "(v, x, c)"] s
    by (simp add: holds_pieces_def piece_anchor_def)
  ultimately show ?thesis by (simp add: holds_pieces_def add_fragment_def x Let_def)
qed

lemma pieces_of_simps [simp]:
  "pieces_of window v [] = {}"
  "pieces_of window v (x # xs) = (if fragmentable v x
     then (case box_intersection (lo_bbox_dbu x) window of None \<Rightarrow> {} | Some c \<Rightarrow> {(v, x, c)}) else {}) \<union> pieces_of window v xs"
  by (auto simp: pieces_of_def split: option.splits)

lemma holds_pieces_sources:
  "holds_pieces sh P s \<Longrightarrow> holds_pieces sh (P \<union> pieces_of window v sources) (foldl (add_fragment sh v window) s sources)"
proof (induction sources arbitrary: s P)
  case (Cons x xs)
  show ?case
  proof (cases "fragmentable v x")
    case True
    show ?thesis
    proof (cases "box_intersection (lo_bbox_dbu x) window")
      case None
      then have "add_fragment sh v window s x = s" by (simp add: add_fragment_def)
      then show ?thesis using Cons True None by simp
    next
      case (Some c)
      have "holds_pieces sh (insert (v, x, c) P) (add_fragment sh v window s x)"
        by (rule holds_pieces_add [OF Cons.prems True Some])
      from Cons.IH [OF this] show ?thesis using True Some by simp
    qed
  next
    case False
    then have "add_fragment sh v window s x = s" by (simp add: add_fragment_def)
    then show ?thesis using Cons False by simp
  qed
qed simp

lemma landings_unchanged: "tst_landings (foldl (add_fragment sh v window) s sources) = tst_landings s"
  by (induction sources arbitrary: s) (auto simp: add_fragment_def Let_def split: option.splits)

text \<open>The landings of a violation.\<close>

definition landings_of :: "(json \<Rightarrow> string) \<Rightarrow> layout_object list \<Rightarrow> violation_record \<Rightarrow> via_landing set" where
  "landings_of sh sources v = (\<Union>layer \<in> set (v_layers v). set (layer_landings sh sources v layer))"

lemma add_violation_result:
  assumes "holds_pieces sh P s" "made_from (\<lambda>v. (\<lambda>l. (vln_landing_id l, l)) ` landings_of sh sources v) V (tst_landings s)"
    and window: "violation_window bu v = Inr window"
  obtains s' where "add_violation sh bu sources s v = Inr s'" "holds_pieces sh (P \<union> pieces_of window v sources) s'"
    "made_from (\<lambda>v. (\<lambda>l. (vln_landing_id l, l)) ` landings_of sh sources v) (insert v V) (tst_landings s')"
proof -
  let ?s1 = "foldl (add_fragment sh v window) s sources"
  let ?ls = "concat (map (layer_landings sh sources v) (v_layers v))"
  let ?s' = "?s1\<lparr>tst_landings := foldl (\<lambda>d l. dict_set (vln_landing_id l) l d) (tst_landings ?s1) ?ls\<rparr>"
  have "add_violation sh bu sources s v = Inr ?s'" by (simp add: add_violation_def window Let_def)
  moreover have "holds_pieces sh (P \<union> pieces_of window v sources) ?s'"
    using holds_pieces_sources [OF assms(1)] by (simp add: holds_pieces_def)
  moreover have "made_from (\<lambda>v. (\<lambda>l. (vln_landing_id l, l)) ` landings_of sh sources v) (insert v V)
      (foldl (\<lambda>d l. dict_set (vln_landing_id l) l d) (tst_landings s) ?ls)"
    by (rule made_from_sets [OF assms(2)]) (simp add: landings_of_def)
  ultimately show ?thesis using that [of ?s'] by (simp add: landings_unchanged)
qed

lemma violation_window_total:
  assumes "box_ordered (v_marker_bbox_dbu v)"
  obtains window where "violation_window bu v = Inr window"
proof -
  have "0 \<le> max (max (tbu_minimum_window_dbu bu) (box_width (v_marker_bbox_dbu v))) (box_height (v_marker_bbox_dbu v))"
    using assms by (auto simp: box_ordered_def box_width_def box_height_def)
  then show ?thesis using box_expand_total [OF assms] that unfolding violation_window_def Let_def by metis
qed

lemma add_violations_result:
  assumes "\<forall>v \<in> set vs. box_ordered (v_marker_bbox_dbu v)" "holds_pieces sh P s"
    "made_from (\<lambda>v. (\<lambda>l. (vln_landing_id l, l)) ` landings_of sh sources v) V (tst_landings s)"
  shows "\<exists>s'. add_violations sh bu sources vs s = Inr s' \<and> holds_pieces sh (P \<union> topology_pieces bu vs sources) s' \<and>
    made_from (\<lambda>v. (\<lambda>l. (vln_landing_id l, l)) ` landings_of sh sources v) (V \<union> set vs) (tst_landings s')"
  using assms
proof (induction vs arbitrary: s P V)
  case Nil
  then show ?case by (simp add: topology_pieces_def)
next
  case (Cons v vs)
  obtain window where window: "violation_window bu v = Inr window"
    by (rule violation_window_total [of v bu]) (use Cons.prems(1) in auto)
  from add_violation_result [OF Cons.prems(2,3) window] obtain s1 where
    s1: "add_violation sh bu sources s v = Inr s1" "holds_pieces sh (P \<union> pieces_of window v sources) s1"
      "made_from (\<lambda>v. (\<lambda>l. (vln_landing_id l, l)) ` landings_of sh sources v) (insert v V) (tst_landings s1)"
    by blast
  have "\<forall>v \<in> set vs. box_ordered (v_marker_bbox_dbu v)" using Cons.prems(1) by simp
  from Cons.IH [OF this s1(2,3)] obtain s' where
    "add_violations sh bu sources vs s1 = Inr s'"
    "holds_pieces sh (P \<union> pieces_of window v sources \<union> topology_pieces bu vs sources) s'"
    "made_from (\<lambda>v. (\<lambda>l. (vln_landing_id l, l)) ` landings_of sh sources v) (insert v V \<union> set vs) (tst_landings s')"
    by blast
  moreover have "topology_pieces bu (v # vs) sources = pieces_of window v sources \<union> topology_pieces bu vs sources"
    by (auto simp: topology_pieces_def window)
  ultimately show ?case by (simp add: s1(1) Un_assoc)
qed


lemma made_from_perm: "made_from entries P d \<Longrightarrow> made_from entries P (sorted_dict d)"
  unfolding made_from_def sorted_dict_def by (simp only: distinct_map distinct_sort set_sort)

lemma names_by_sorted:
  assumes d: "names_by key name P d" and fin: "finite P"
  shows "(k, ids) \<in> set (sorted_id_lists d) \<longleftrightarrow> k \<in> key ` P \<and> ids = py_sorted (name ` {p \<in> P. key p = k})"
proof -
  have "(k, ids) \<in> set (sorted_id_lists d) \<longleftrightarrow> (\<exists>v. (k, v) \<in> set d \<and> ids = py_sorted (set v))"
    by (force simp: sorted_id_lists_def sorted_dict_def)
  also have "\<dots> \<longleftrightarrow> (\<exists>v. (k, v) \<in> set d \<and> ids = py_sorted (name ` {p \<in> P. key p = k}))"
    using names_by_entry [OF d] by metis
  also have "\<dots> \<longleftrightarrow> k \<in> fst ` set d \<and> ids = py_sorted (name ` {p \<in> P. key p = k})" by force
  finally show ?thesis using d by (simp add: names_by_def)
qed

lemma finite_topology_pieces: "finite (topology_pieces bu violations sources)"
proof -
  have "topology_pieces bu violations sources \<subseteq> set violations \<times> set sources \<times>
      (\<lambda>(x, w). the (box_intersection (lo_bbox_dbu x) w)) `
        (set sources \<times> (\<lambda>v. case violation_window bu v of Inr w \<Rightarrow> w | Inl _ \<Rightarrow> undefined) ` set violations)"
    by (force simp: topology_pieces_def pieces_of_def)
  then show ?thesis by (rule finite_subset) simp
qed

text \<open>A piece lies in its route and in the window, and its ends lie on it.\<close>

definition point_in :: "box \<Rightarrow> point \<Rightarrow> bool" where
  "point_in b p \<longleftrightarrow> bx_x1 b \<le> pt_x p \<and> pt_x p \<le> bx_x2 b \<and> bx_y1 b \<le> pt_y p \<and> pt_y p \<le> bx_y2 b"

definition piece_inside :: "topology_builder \<Rightarrow> (json \<Rightarrow> string) \<Rightarrow> route_piece \<Rightarrow> bool" where
  "piece_inside bu sh p \<longleftrightarrow>
     (case p of (v, x, c) \<Rightarrow> box_contains (lo_bbox_dbu x) c \<and> 0 < box_width c \<and> 0 < box_height c \<and>
        (case violation_window bu v of Inl _ \<Rightarrow> False | Inr w \<Rightarrow> box_contains w c) \<and>
        list_all (\<lambda>e. point_in c (ren_point_dbu e)) (piece_endpoints sh p))"

lemma box_intersection_inside:
  "box_intersection a b = Some c \<Longrightarrow> box_contains a c \<and> box_contains b c \<and> bx_x1 c < bx_x2 c \<and> bx_y1 c < bx_y2 c"
  by (auto simp: box_intersection_def box_contains_def Let_def split: if_splits)

lemma piece_inside: "p \<in> topology_pieces bu violations sources \<Longrightarrow> piece_inside bu sh p"
proof -
  assume "p \<in> topology_pieces bu violations sources"
  then obtain v x c w where p: "p = (v, x, c)" and w: "violation_window bu v = Inr w"
    and c: "box_intersection (lo_bbox_dbu x) w = Some c"
    by (auto simp: topology_pieces_def pieces_of_def)
  note inside = box_intersection_inside [OF c]
  have "point_in c (fst e)" if "e \<in> set (fragment_ends x c)" for e
    using that inside by (auto simp: fragment_ends_def point_in_def Let_def split: orientation.splits)
  then have "list_all (\<lambda>e. point_in c (ren_point_dbu e)) (piece_endpoints sh p)"
    unfolding p by (auto simp: list_all_iff fragment_endpoints_def make_endpoint_def dest!: set_zip_rightD)
  then show ?thesis using inside w unfolding piece_inside_def p by (simp add: box_width_def box_height_def)
qed

lemma build_topology_state:
  assumes ordered: "\<forall>v \<in> set violations. box_ordered (v_marker_bbox_dbu v)"
  obtains s where "build_topology sh bu violations objects = Inr (finish_topology sh bu (filter source_route objects) s)"
    "holds_pieces sh (topology_pieces bu violations (filter source_route objects)) s"
    "made_from (\<lambda>v. (\<lambda>l. (vln_landing_id l, l)) ` landings_of sh (filter source_route objects) v) (set violations)
      (tst_landings s)"
proof -
  let ?sources = "filter source_route objects"
  let ?vs = "sort_key v_violation_id violations"
  have ordered': "\<forall>v \<in> set ?vs. box_ordered (v_marker_bbox_dbu v)" using ordered by simp
  have start: "made_from (\<lambda>v. (\<lambda>l. (vln_landing_id l, l)) ` landings_of sh ?sources v) {} (tst_landings empty_topology)"
    by (simp add: empty_topology_def made_from_empty)
  have P: "topology_pieces bu ?vs ?sources = topology_pieces bu violations ?sources" by (simp add: topology_pieces_def)
  from add_violations_result [OF ordered' holds_pieces_empty start, of bu, unfolded P]
  obtain s where "add_violations sh bu ?sources ?vs empty_topology = Inr s"
    "holds_pieces sh (topology_pieces bu violations ?sources) s"
    "made_from (\<lambda>v. (\<lambda>l. (vln_landing_id l, l)) ` landings_of sh ?sources v) (set violations) (tst_landings s)"
    by auto
  then show ?thesis using that by (simp add: build_topology_def)
qed

lemma fragment_ids:
  assumes "holds_pieces sh P s"
  shows "map rfr_fragment_id (map snd (tst_fragments s)) = map fst (tst_fragments s)"
proof -
  have "rfr_fragment_id f = i" if "(i, f) \<in> set (tst_fragments s)" for i f
  proof -
    have "(i, f) \<in> (\<Union>p \<in> P. {(piece_name sh p, piece_fragment sh p)})"
      using that assms by (auto simp: holds_pieces_def made_from_def)
    then obtain v x c where "i = fragment_name sh v x c" "f = make_fragment sh v x c" by auto
    then show ?thesis by (simp add: make_fragment_def Let_def)
  qed
  then show ?thesis by auto
qed

lemma endpoint_ids_known:
  assumes s: "holds_pieces sh P s" and f: "f \<in> snd ` set (tst_fragments s)"
  shows "set (rfr_endpoint_ids f) \<subseteq> fst ` set (tst_endpoints s)"
proof -
  from f s obtain p where p: "p \<in> P" "f = piece_fragment sh p"
    by (auto simp: holds_pieces_def made_from_def)
  have "set (rfr_endpoint_ids f) = ren_endpoint_id ` set (piece_endpoints sh p)"
    unfolding p(2) by (cases p) (simp add: make_fragment_def Let_def)
  moreover have "fst ` set (tst_endpoints s) = fst ` (\<Union>p \<in> P. (\<lambda>e. (ren_endpoint_id e, e)) ` set (piece_endpoints sh p))"
    using s by (simp add: holds_pieces_def made_from_def)
  ultimately show ?thesis using p(1) by (force simp: image_iff)
qed

section \<open>Properties\<close>

text \<open>
  C39. \<open>LocalTopologyBuilder.build\<close> never fails on violations with ordered markers. Its fragments are exactly the
  pieces of routes in the windows of the violations that are about their layer, each inside its route
  and its window; its endpoints are those of the pieces and lie on them; its landings are those of the
  violations; and the two maps list for each object and each anchor exactly the names of its pieces.
\<close>

theorem topology_build_exact:
  fixes bu :: topology_builder and objects :: "layout_object list"
  assumes ordered: "\<forall>v \<in> set violations. box_ordered (v_marker_bbox_dbu v)"
  defines "P \<equiv> topology_pieces bu violations (filter source_route objects)"
  shows "\<exists>t. build_topology sh bu violations objects = Inr t \<and>
    (\<forall>p \<in> P. piece_inside bu sh p) \<and>
    made_from (\<lambda>p. {(piece_name sh p, piece_fragment sh p)}) P (ltp_fragments t) \<and>
    made_from (\<lambda>p. (\<lambda>e. (ren_endpoint_id e, e)) ` set (piece_endpoints sh p)) P (ltp_endpoints t) \<and>
    made_from (\<lambda>v. (\<lambda>l. (vln_landing_id l, l)) ` landings_of sh (filter source_route objects) v) (set violations)
      (ltp_via_landings t) \<and>
    (\<forall>k ids. (k, ids) \<in> set (ltp_parent_to_fragment_ids t) \<longleftrightarrow>
      k \<in> piece_parent ` P \<and> ids = py_sorted (piece_name sh ` {p \<in> P. piece_parent p = k})) \<and>
    (\<forall>k ids. (k, ids) \<in> set (ltp_source_anchor_to_fragment_ids t) \<longleftrightarrow>
      k \<in> piece_anchor ` P \<and> ids = py_sorted (piece_name sh ` {p \<in> P. piece_anchor p = k}))"
proof -
  let ?sources = "filter source_route objects"
  obtain s where s: "build_topology sh bu violations objects = Inr (finish_topology sh bu ?sources s)" "holds_pieces sh P s"
    "made_from (\<lambda>v. (\<lambda>l. (vln_landing_id l, l)) ` landings_of sh ?sources v) (set violations) (tst_landings s)"
    unfolding P_def by (rule build_topology_state [OF ordered])
  have fin: "finite P" unfolding P_def by (rule finite_topology_pieces)
  have names: "names_by piece_parent (piece_name sh) P (tst_by_parent s)"
    "names_by piece_anchor (piece_name sh) P (tst_by_anchor s)" using s(2) by (simp_all add: holds_pieces_def)
  show ?thesis
  proof (intro exI [of _ "finish_topology sh bu ?sources s"] conjI allI ballI)
    show "piece_inside bu sh p" if "p \<in> P" for p using that unfolding P_def by (rule piece_inside)
  qed (use s names in \<open>simp_all add: finish_topology_def Let_def holds_pieces_def made_from_perm names_by_sorted [OF _ fin]\<close>)
qed

text \<open>
  C40. The adjacencies of a local topology are exactly the near pairs: two fragments of one layer and
  different routes within the window distance, once, the smaller name first; and a via landing with a
  fragment on one of its two metals that belongs to its violation and overlaps or is within the
  distance. Every endpoint that a fragment names exists.
\<close>

theorem topology_adjacencies_exact:
  fixes t :: local_topology
  assumes ordered: "\<forall>v \<in> set violations. box_ordered (v_marker_bbox_dbu v)"
    and built: "build_topology sh bu violations objects = Inr t"
  defines "F \<equiv> snd ` set (ltp_fragments t)"
  shows "(\<forall>f \<in> F. set (rfr_endpoint_ids f) \<subseteq> fst ` set (ltp_endpoints t)) \<and>
    (\<lambda>a. (sla_a_fragment_id a, sla_b_fragment_id a)) ` set (ltp_same_layer_adjacencies t) =
      {(rfr_fragment_id f, rfr_fragment_id g) | f g. f \<in> F \<and> g \<in> F \<and> rfr_fragment_id f < rfr_fragment_id g \<and>
        same_layer_near bu f g} \<and>
    (\<lambda>a. (vma_via_landing_id a, vma_route_fragment_id a)) ` set (ltp_via_metal_adjacencies t) =
      {(vln_landing_id l, rfr_fragment_id f) | l f. l \<in> snd ` set (ltp_via_landings t) \<and> f \<in> F \<and> via_metal_near bu l f}"
proof -
  obtain s where s: "build_topology sh bu violations objects = Inr (finish_topology sh bu (filter source_route objects) s)"
    "holds_pieces sh (topology_pieces bu violations (filter source_route objects)) s"
    by (rule build_topology_state [OF ordered])
  have t: "t = finish_topology sh bu (filter source_route objects) s" using built s(1) by simp
  have F: "F = snd ` set (tst_fragments s)"
    by (simp add: F_def t finish_topology_def Let_def sorted_dict_def)
  let ?fs = "map snd (tst_fragments s)"
  have "distinct (map rfr_fragment_id ?fs)"
    using s(2) unfolding fragment_ids [OF s(2)] holds_pieces_def made_from_def by (elim conjE)
  then have distinct: "distinct (map rfr_fragment_id (sort_key rfr_fragment_id ?fs))"
    by (simp only: distinct_map distinct_sort set_sort)
  have pairs: "set (ordered_pairs (sort_key rfr_fragment_id ?fs)) =
      {(f, g). f \<in> F \<and> g \<in> F \<and> rfr_fragment_id f < rfr_fragment_id g}"
    unfolding set_ordered_pairs [OF sorted_sort_key distinct] by (simp add: F)
  have "(\<lambda>a. (sla_a_fragment_id a, sla_b_fragment_id a)) ` set (ltp_same_layer_adjacencies t) =
      (\<lambda>(f, g). (rfr_fragment_id f, rfr_fragment_id g)) ` {p \<in> set (ordered_pairs (sort_key rfr_fragment_id ?fs)).
        same_layer_near bu (fst p) (snd p)}"
    by (simp add: t finish_topology_def Let_def same_layer_adjacencies_def image_image make_same_layer_def case_prod_unfold)
  also have "\<dots> = {(rfr_fragment_id f, rfr_fragment_id g) | f g. f \<in> F \<and> g \<in> F \<and> rfr_fragment_id f < rfr_fragment_id g \<and>
      same_layer_near bu f g}"
    unfolding pairs by force
  finally have same: "(\<lambda>a. (sla_a_fragment_id a, sla_b_fragment_id a)) ` set (ltp_same_layer_adjacencies t) =
      {(rfr_fragment_id f, rfr_fragment_id g) | f g. f \<in> F \<and> g \<in> F \<and> rfr_fragment_id f < rfr_fragment_id g \<and>
      same_layer_near bu f g}" .
  have "(\<lambda>a. (vma_via_landing_id a, vma_route_fragment_id a)) ` set (ltp_via_metal_adjacencies t) =
      (\<lambda>(l, f). (vln_landing_id l, rfr_fragment_id f)) `
        {p \<in> snd ` set (tst_landings s) \<times> F. via_metal_near bu (fst p) (snd p)}"
    by (simp add: t finish_topology_def Let_def via_metal_adjacencies_def image_image make_via_metal_def case_prod_unfold F)
  also have "\<dots> = {(vln_landing_id l, rfr_fragment_id f) | l f. l \<in> snd ` set (tst_landings s) \<and> f \<in> F \<and> via_metal_near bu l f}"
    by force
  also have "snd ` set (tst_landings s) = snd ` set (ltp_via_landings t)"
    by (simp add: t finish_topology_def Let_def sorted_dict_def)
  finally have via: "(\<lambda>a. (vma_via_landing_id a, vma_route_fragment_id a)) ` set (ltp_via_metal_adjacencies t) =
      {(vln_landing_id l, rfr_fragment_id f) | l f. l \<in> snd ` set (ltp_via_landings t) \<and> f \<in> F \<and> via_metal_near bu l f}" .
  have "fst ` set (ltp_endpoints t) = fst ` set (tst_endpoints s)"
    by (simp add: t finish_topology_def Let_def sorted_dict_def)
  then show ?thesis using same via endpoint_ids_known [OF s(2)] unfolding F by simp
qed

section \<open>Concrete inputs\<close>

text \<open>Two routes of one layer near a violation.\<close>

definition topology_violation :: violation_record where
  "topology_violation = \<lparr>v_violation_id = ''v1'', v_case_id = ''c'', v_report_iteration = 0, v_rule_id = ''R'',
     v_rule_family = FamilySpacing, v_description = None, v_marker_type = MarkerBbox,
     v_marker_bbox_dbu = \<lparr>bx_x1 = 10, bx_y1 = 4, bx_x2 = 12, bx_y2 = 6\<rparr>, v_marker_geometry_dbu = EdgeGeometry [],
     v_layers = [''M1''], v_severity = 1, v_source_report_path = ''p'', v_source_index = 0,
     v_associated_object_ids = [], v_association_quality = AssocUnknown, v_fingerprint = ''f''\<rparr>"

definition topology_route :: "string \<Rightarrow> int \<Rightarrow> layout_object" where
  "topology_route i y = \<lparr>lo_object_id = i, lo_source_anchor_id = Some ''a'', lo_kind = KindPolygon, lo_layer = ''M1'',
     lo_bbox_dbu = \<lparr>bx_x1 = 0, bx_y1 = y, bx_x2 = 100, bx_y2 = y + 2\<rparr>,
     lo_geometry_dbu = Some (box_polygon \<lparr>bx_x1 = 0, bx_y1 = y, bx_x2 = 100, bx_y2 = y + 2\<rparr>), lo_net_id = None,
     lo_net_mapping_quality = NetUnavailable, lo_connectivity_component_id = None, lo_routing_type = Some ''routing'',
     lo_editability = EditabilityA, lo_touches_region_boundary = False, lo_source_span = None,
     lo_insertion_source_span = None, lo_source_variable = None, lo_source_cell = None, lo_layer_number = None,
     lo_geometry_hash = ''h''\<rparr>"

definition topology_hash :: "json \<Rightarrow> string" where
  "topology_hash j = (case j of JList (JStr a # _) \<Rightarrow> a | _ \<Rightarrow> ''digest'')"

definition small_builder :: topology_builder where
  "small_builder = \<lparr>tbu_dbu_per_um = 10, tbu_minimum_window_dbu = 8\<rparr>"

lemma topology_example:
  "\<exists>t. build_topology topology_hash small_builder [topology_violation] [topology_route ''o1'' 0, topology_route ''o2'' 8] =
      Inr t \<and> map fst (ltp_fragments t) = [''fragment_o1'', ''fragment_o2''] \<and>
    map (\<lambda>a. (sla_a_fragment_id a, sla_b_fragment_id a)) (ltp_same_layer_adjacencies t) = [(''fragment_o1'', ''fragment_o2'')]"
proof -
  let ?r = "build_topology topology_hash small_builder [topology_violation] [topology_route ''o1'' 0, topology_route ''o2'' 8]"
  have "map_sum id (\<lambda>t. (map fst (ltp_fragments t),
      map (\<lambda>a. (sla_a_fragment_id a, sla_b_fragment_id a)) (ltp_same_layer_adjacencies t))) ?r =
    Inr ([''fragment_o1'', ''fragment_o2''], [(''fragment_o1'', ''fragment_o2'')])"
    by code_simp
  then show ?thesis by (cases ?r) auto
qed

lemma topology_violation_ordered: "\<forall>v \<in> set [topology_violation]. box_ordered (v_marker_bbox_dbu v)"
  by (simp add: topology_violation_def)

lemma second_of_result: "\<exists>x. r = Inr x \<and> A x \<and> B x \<and> C x \<Longrightarrow> r = Inr y \<Longrightarrow> B y"
  by auto

lemma second_of_equal: "A \<and> x = y \<and> B \<Longrightarrow> x = z \<Longrightarrow> y = z"
  by simp

lemma topology_build_exact_witness:
  "\<exists>t. build_topology topology_hash small_builder [topology_violation] [topology_route ''o1'' 0, topology_route ''o2'' 8] =
      Inr t \<and> map fst (ltp_fragments t) = [''fragment_o1'', ''fragment_o2''] \<and>
    made_from (\<lambda>p. {(piece_name topology_hash p, piece_fragment topology_hash p)})
      (topology_pieces small_builder [topology_violation]
        (filter source_route [topology_route ''o1'' 0, topology_route ''o2'' 8])) (ltp_fragments t)"
proof -
  obtain t where t: "build_topology topology_hash small_builder [topology_violation]
      [topology_route ''o1'' 0, topology_route ''o2'' 8] = Inr t" "map fst (ltp_fragments t) = [''fragment_o1'', ''fragment_o2'']"
    using topology_example by (elim exE conjE)
  have "made_from (\<lambda>p. {(piece_name topology_hash p, piece_fragment topology_hash p)})
      (topology_pieces small_builder [topology_violation]
        (filter source_route [topology_route ''o1'' 0, topology_route ''o2'' 8])) (ltp_fragments t)"
    by (rule second_of_result [OF topology_build_exact [OF topology_violation_ordered] t(1)])
  from this show ?thesis by (intro exI [of _ t] conjI t)
qed

lemma topology_adjacencies_exact_witness:
  "\<exists>t. build_topology topology_hash small_builder [topology_violation] [topology_route ''o1'' 0, topology_route ''o2'' 8] =
      Inr t \<and> {(rfr_fragment_id f, rfr_fragment_id g) | f g. f \<in> snd ` set (ltp_fragments t) \<and>
        g \<in> snd ` set (ltp_fragments t) \<and> rfr_fragment_id f < rfr_fragment_id g \<and> same_layer_near small_builder f g} =
      {(''fragment_o1'', ''fragment_o2'')}"
proof -
  obtain t where t: "build_topology topology_hash small_builder [topology_violation]
      [topology_route ''o1'' 0, topology_route ''o2'' 8] = Inr t"
    and adj: "map (\<lambda>a. (sla_a_fragment_id a, sla_b_fragment_id a)) (ltp_same_layer_adjacencies t) = [(''fragment_o1'', ''fragment_o2'')]"
    using topology_example by (elim exE conjE)
  have "(\<lambda>a. (sla_a_fragment_id a, sla_b_fragment_id a)) ` set (ltp_same_layer_adjacencies t) = {(''fragment_o1'', ''fragment_o2'')}"
    using arg_cong [OF adj, of set] by simp
  from topology_adjacencies_exact [OF topology_violation_ordered t] this
  have "{(rfr_fragment_id f, rfr_fragment_id g) | f g. f \<in> snd ` set (ltp_fragments t) \<and>
        g \<in> snd ` set (ltp_fragments t) \<and> rfr_fragment_id f < rfr_fragment_id g \<and> same_layer_near small_builder f g} =
      {(''fragment_o1'', ''fragment_o2'')}"
    by (rule second_of_equal)
  from this show ?thesis by (intro exI [of _ t] conjI t)
qed

end
