(* ===== verification/Active_Window.thy ===== *)
theory Active_Window
  imports Agent_Graph Graph_Search Batching
begin

text \<open>
  The selection of an active window (\<open>src/drc_agent/workflow/active_window.py\<close>): from the agent graph
  and its subgraphs, the next set of subgraphs that is repaired together. The window is closed under
  hard dependencies, grows along soft ones within three budgets, and its regions have one of three
  roles: decision (they hold a target violation), helper (they must move with a decision region) and
  context. The coordination of a selected window is in \<open>Window_Coordination\<close>.

  A dictionary of sets (\<open>hard\<close>, \<open>soft\<close>) is the list of its arcs; \<open>dependency_ids\<close>, whose keys are
  frozen pairs, is keyed by the sorted pair. A lookup that may raise \<open>KeyError\<close> makes a result; where
  the code iterates over a set of regions, the model takes the lookups in the order of the list from
  which the set was made. \<open>sh\<close> is \<open>stable_hash\<close>.
\<close>

subsection \<open>Dependencies between subgraphs (\_scope\_ids, \_dependency\_pairs)\<close>

definition opt_list :: "string option \<Rightarrow> string list" where
  "opt_list s = (case s of None \<Rightarrow> [] | Some t \<Rightarrow> [t])"

definition scope_ids :: "agent_subgraph \<Rightarrow> string list" where
  "scope_ids sg = filter (\<lambda>s. s \<noteq> [])
     (sg_subgraph_id sg # opt_list (sg_physical_scope_id sg) @ opt_list (sg_solver_scope_id sg)
      @ opt_list (sg_planning_view_id sg))"

text \<open>The dictionary comprehensions \<open>owner\<close> and \<open>scope_owner\<close>: the last subgraph wins.\<close>

definition owner_of :: "(agent_subgraph \<Rightarrow> string list) \<Rightarrow> agent_subgraph list \<Rightarrow> string \<Rightarrow> string option" where
  "owner_of keys subgraphs =
     map_of (rev (concat (map (\<lambda>sg. map (\<lambda>k. (k, sg_subgraph_id sg)) (keys sg)) subgraphs)))"

definition owned_pair :: "(string \<Rightarrow> string option) \<Rightarrow> string \<Rightarrow> string \<Rightarrow> (string \<times> string) option" where
  "owned_pair owner a b =
     (case (owner a, owner b) of
        (Some left, Some right) \<Rightarrow>
          (if left = [] \<or> right = [] \<or> left = right then None else Some (left, right))
      | _ \<Rightarrow> None)"

text \<open>The pair of subgraphs that an edge of the graph, or a boundary dependency, connects.\<close>

definition edge_link :: "agent_subgraph list \<Rightarrow> agent_edge \<Rightarrow> (string \<times> string) option" where
  "edge_link subgraphs e = owned_pair (owner_of sg_region_ids subgraphs) (e_u e) (e_v e)"

definition boundary_link :: "agent_subgraph list \<Rightarrow> boundary_dependency \<Rightarrow> (string \<times> string) option" where
  "boundary_link subgraphs d =
     owned_pair (owner_of scope_ids subgraphs) (bd_u_scope_id d) (bd_v_scope_id d)"

definition solver_links :: "agent_subgraph list \<Rightarrow> (string \<times> string) list" where
  "solver_links subgraphs =
     concat (map (\<lambda>l. map (\<lambda>r. (sg_subgraph_id l, sg_subgraph_id r))
       (filter (\<lambda>r. sg_subgraph_id l < sg_subgraph_id r \<and> opt_truthy (sg_solver_scope_id l) \<and>
          sg_solver_scope_id l = sg_solver_scope_id r) subgraphs)) subgraphs)"

definition link_arcs :: "(string \<times> string) list \<Rightarrow> string arcs" where
  "link_arcs ps = concat (map (\<lambda>p. both_ways (fst p) (snd p)) ps)"

record dependency_pairs =
  dp_hard :: "string arcs"
  dp_soft :: "string arcs"
  dp_ids :: "((string \<times> string) \<times> string) list"

definition dependency_pairs_of :: "agent_graph \<Rightarrow> agent_subgraph list \<Rightarrow> dependency_pairs" where
  "dependency_pairs_of g subgraphs =
     (let edges = (\<lambda>h. List.map_filter (edge_link subgraphs)
            (filter (\<lambda>e. e_hard e = h) (gr_edges g)));
          boundaries = (\<lambda>h. List.map_filter (boundary_link subgraphs)
            (filter (\<lambda>d. bd_hard d = h) (gr_boundary_dependencies g)))
      in \<lparr>dp_hard = link_arcs (edges True @ boundaries True @ solver_links subgraphs),
          dp_soft = link_arcs (edges False @ boundaries False),
          dp_ids = List.map_filter
            (\<lambda>d. map_option (\<lambda>p. (sorted_pair (fst p) (snd p), bd_dependency_id d)) (boundary_link subgraphs d))
            (gr_boundary_dependencies g)\<rparr>)"

subsection \<open>Roles (classify\_window\_region\_roles)\<close>

definition hard_physical_evidence_kinds :: "string list" where
  "hard_physical_evidence_kinds = [''same_writable_occurrence'', ''same_writable_source_target'',
     ''shared_merged_boundary_contributor'', ''potential_write_protected_read'',
     ''shared_protected_landing_contact'']"

definition proves_dependency :: "edge_evidence \<Rightarrow> bool" where
  "proves_dependency i \<longleftrightarrow> ee_kind i \<in> set hard_physical_evidence_kinds \<or>
     (ee_kind i = ''shared_editable_object'' \<and> json_truthy (json_get (ee_details i) ''hard_by_occurrence''))"

definition region_violations :: "agent_graph \<Rightarrow> string \<Rightarrow> string list result" where
  "region_violations g rid = bind_result (lookup_region g rid) (\<lambda>r. Inr (rg_violation_ids r))"

text \<open>The violations of each region of a list, with the region.\<close>

definition regions_violations :: "agent_graph \<Rightarrow> string list \<Rightarrow> (string \<times> string list) list result" where
  "regions_violations g rids =
     map_result (\<lambda>rid. bind_result (region_violations g rid) (\<lambda>vs. Inr (rid, vs))) rids"

definition physical_arcs :: "agent_graph \<Rightarrow> string set \<Rightarrow> string arcs" where
  "physical_arcs g region_set =
     concat (map (\<lambda>e. both_ways (e_u e) (e_v e))
       (filter (\<lambda>e. e_hard e \<and> e_u e \<in> region_set \<and> e_v e \<in> region_set \<and>
          (\<exists>i \<in> set (e_evidence e). proves_dependency i)) (gr_edges g)))"

record region_roles =
  rr_decision :: "string list"
  rr_helper :: "string list"
  rr_context :: "string list"

definition classify_window_region_roles ::
    "agent_graph \<Rightarrow> string list \<Rightarrow> string list \<Rightarrow> region_roles result" where
  "classify_window_region_roles g region_ids frontier =
     bind_result (regions_violations g region_ids) (\<lambda>rvs.
       let region_set = set region_ids;
           decision = set (map fst (filter (\<lambda>p. \<exists>v \<in> set (snd p). v \<in> set frontier) rvs));
           reachable = bfs (physical_arcs g region_set) (py_sorted decision) decision;
           helper = reachable - decision;
           context_only = region_set - decision - helper
       in Inr \<lparr>rr_decision = py_sorted decision, rr_helper = py_sorted helper,
               rr_context = py_sorted context_only\<rparr>)"

subsection \<open>Helper assignments (build\_helper\_assignments)\<close>

type_synonym proven_links = "(string \<times> string \<times> string list) list"

text \<open>The dictionary \<open>adjacency\<close>: for every node the neighbours with the evidence of the edge.\<close>

definition proving_ids :: "agent_edge \<Rightarrow> string list" where
  "proving_ids e = map ee_evidence_id (filter proves_dependency (e_evidence e))"

definition proven_adjacency :: "agent_graph \<Rightarrow> proven_links" where
  "proven_adjacency g =
     concat (map (\<lambda>e. [(e_u e, e_v e, proving_ids e), (e_v e, e_u e, proving_ids e)])
       (filter (\<lambda>e. e_hard e \<and> proving_ids e \<noteq> []) (gr_edges g)))"

definition proven_neighbors :: "proven_links \<Rightarrow> string \<Rightarrow> (string \<times> string list) list" where
  "proven_neighbors links x = sort (map snd (filter (\<lambda>l. fst l = x) links))"

text \<open>
  The search from a helper: a queue of regions with the evidence of the path, the visited regions,
  and the decision regions met so far with the evidence that leads to them. A decision region is
  not expanded. \<open>dedup_loop fst\<close> takes the neighbours that are not visited, each once.
\<close>

function assist_search ::
    "proven_links \<Rightarrow> string set \<Rightarrow> (string \<times> string list) list \<Rightarrow> string set \<Rightarrow> string set \<Rightarrow> string set \<Rightarrow>
     string set \<times> string set" where
  "assist_search links decisions [] visited assisted evidence = (assisted, evidence)"
| "assist_search links decisions ((current, path) # queue) visited assisted evidence =
     (if current \<in> decisions
      then assist_search links decisions queue visited (insert current assisted) (evidence \<union> set path)
      else (let fresh = dedup_loop fst visited (proven_neighbors links current)
            in assist_search links decisions (queue @ map (\<lambda>n. (fst n, path @ snd n)) fresh)
                 (visited \<union> fst ` set fresh) assisted evidence))"
  by pat_completeness auto

termination assist_search
proof (relation "measure (\<lambda>(links, decisions, queue, visited, assisted, evidence).
    card (fst ` snd ` set links - visited) + length queue)")
  fix links :: proven_links and decisions current path queue visited assisted evidence fresh
  assume fresh: "fresh = dedup_loop fst visited (proven_neighbors links current)"
  have ids: "fst ` set fresh = fst ` set (proven_neighbors links current) - visited"
    unfolding fresh by (rule dedup_loop_ids)
  have "set (map fst fresh) \<subseteq> fst ` snd ` set links - visited"
    unfolding set_map ids by (auto simp: proven_neighbors_def)
  moreover have "distinct (map fst fresh)" unfolding fresh by (rule dedup_loop_distinct)
  ultimately have "card (fst ` snd ` set links - (visited \<union> set (map fst fresh))) + length (map fst fresh)
      = card (fst ` snd ` set links - visited)"
    by (intro unseen_targets) auto
  then show "((links, decisions, queue @ map (\<lambda>n. (fst n, path @ snd n)) fresh,
        visited \<union> fst ` set fresh, assisted, evidence),
      links, decisions, (current, path) # queue, visited, assisted, evidence)
      \<in> measure (\<lambda>(links, decisions, queue, visited, assisted, evidence).
          card (fst ` snd ` set links - visited) + length queue)"
    by simp
qed auto

definition assist_status_of :: "potential_access_summary option \<Rightarrow> assist_status" where
  "assist_status_of s =
     (case s of
        None \<Rightarrow> AssistDependency
      | Some summary \<Rightarrow>
          (if ps_schema_version summary = ''2.0'' \<and> ps_potential_dof_capability_ids summary = [] \<and>
              ps_potential_carrier_ids summary = []
           then AssistUnsupported else AssistDependency))"

definition summary_ids ::
    "(potential_access_summary \<Rightarrow> string list) \<Rightarrow> potential_access_summary option \<Rightarrow> string list" where
  "summary_ids f s = (case s of None \<Rightarrow> [] | Some summary \<Rightarrow> f summary)"

definition targets_of :: "string set \<Rightarrow> (string \<times> string list) list \<Rightarrow> string list" where
  "targets_of frontier rvs = py_sorted (set (filter (\<lambda>v. v \<in> frontier) (concat (map snd rvs))))"

text \<open>The assignment of one helper, if it has a target and evidence.\<close>

definition assign_helper ::
    "agent_graph \<Rightarrow> string set \<Rightarrow> string set \<Rightarrow> string \<Rightarrow> string \<Rightarrow> helper_assignment list result" where
  "assign_helper g decisions frontier snapshot_id helper =
     (let (assisted, evidence) = assist_search (proven_adjacency g) decisions [(helper, [])] {helper} {} {}
      in bind_result (regions_violations g (py_sorted assisted)) (\<lambda>rvs.
           let targets = targets_of frontier rvs;
               summary = map_of (gr_potential_access_summaries g) helper
           in if targets = [] \<or> evidence = {} then Inr []
              else bind_result (validate_helper_assignment
                \<lparr>ha_helper_region_id = helper, ha_assisted_region_ids = py_sorted assisted,
                 ha_assisted_target_violation_ids = targets,
                 ha_dependency_evidence_ids = py_sorted evidence,
                 ha_helper_potential_dof_capability_ids = summary_ids ps_potential_dof_capability_ids summary,
                 ha_helper_potential_carrier_ids = summary_ids ps_potential_carrier_ids summary,
                 ha_helper_protected_relation_ids = summary_ids ps_protected_relation_ids summary,
                 ha_snapshot_id = snapshot_id, ha_status = assist_status_of summary\<rparr>) (\<lambda>a. Inr [a])))"

definition build_helper_assignments ::
    "agent_graph \<Rightarrow> string list \<Rightarrow> string list \<Rightarrow> string list \<Rightarrow> string \<Rightarrow> helper_assignment list result" where
  "build_helper_assignments g helper_ids decision_ids frontier snapshot_id =
     bind_result (map_result (assign_helper g (set decision_ids) (set frontier) snapshot_id)
       (py_sorted (set helper_ids))) (\<lambda>as. Inr (concat as))"

subsection \<open>Engineering views (engineering\_scope\_views)\<close>

text \<open>One round of the loop: along hard edges, then whole scopes, then hard-dependent scopes.\<close>

definition edge_expansion :: "agent_graph \<Rightarrow> string set \<Rightarrow> string set" where
  "edge_expansion g selected =
     selected \<union> set (concat (map (\<lambda>e. [e_u e, e_v e])
       (filter (\<lambda>e. e_hard e \<and> (e_u e \<in> selected \<or> e_v e \<in> selected)) (gr_edges g))))"

definition expand_whole_scope :: "string set \<Rightarrow> agent_subgraph \<Rightarrow> string set" where
  "expand_whole_scope expanded scope =
     (if (\<exists>r \<in> set (sg_region_ids scope). r \<in> expanded) \<and>
         (sg_hierarchical scope \<or> sg_scope_kind scope \<noteq> ScopeFlat \<or> sg_boundary_dependency_ids scope \<noteq> [])
      then expanded \<union> set (sg_region_ids scope) else expanded)"

text \<open>\<open>owners[neighbor].region_ids\<close>: every neighbour is the identifier of a subgraph.\<close>

definition subgraph_by_id :: "agent_subgraph list \<Rightarrow> string \<Rightarrow> agent_subgraph option" where
  "subgraph_by_id subgraphs i = List.find (\<lambda>sg. sg_subgraph_id sg = i) (rev subgraphs)"

definition subgraph_regions :: "agent_subgraph list \<Rightarrow> string \<Rightarrow> string list" where
  "subgraph_regions subgraphs i = (case subgraph_by_id subgraphs i of None \<Rightarrow> [] | Some sg \<Rightarrow> sg_region_ids sg)"

definition expand_hard_scopes ::
    "agent_subgraph list \<Rightarrow> string arcs \<Rightarrow> string set \<Rightarrow> agent_subgraph \<Rightarrow> string set" where
  "expand_hard_scopes subgraphs hard expanded scope =
     (if \<exists>r \<in> set (sg_region_ids scope). r \<in> expanded
      then expanded \<union> set (concat (map (subgraph_regions subgraphs)
             (py_sorted (arc_targets hard (sg_subgraph_id scope)))))
      else expanded)"

definition expansion_round :: "agent_graph \<Rightarrow> agent_subgraph list \<Rightarrow> string set \<Rightarrow> string set" where
  "expansion_round g subgraphs selected =
     foldl (expand_hard_scopes subgraphs (dp_hard (dependency_pairs_of g subgraphs)))
       (foldl expand_whole_scope (edge_expansion g selected) subgraphs) subgraphs"

text \<open>Everything that the loop can select besides the start.\<close>

definition expansion_universe :: "agent_graph \<Rightarrow> agent_subgraph list \<Rightarrow> string set" where
  "expansion_universe g subgraphs =
     set (concat (map (\<lambda>e. [e_u e, e_v e]) (gr_edges g))) \<union> set (concat (map sg_region_ids subgraphs))"

lemma expand_whole_scope_bounds:
  "expanded \<subseteq> expand_whole_scope expanded scope"
  "expand_whole_scope expanded scope \<subseteq> expanded \<union> set (sg_region_ids scope)"
  by (auto simp: expand_whole_scope_def)

lemma subgraph_by_id_Some: "subgraph_by_id subgraphs i = Some sg \<Longrightarrow> sg \<in> set subgraphs \<and> sg_subgraph_id sg = i"
  by (auto simp: subgraph_by_id_def find_Some_iff) (metis length_rev nth_mem set_rev)

lemma subgraph_regions_bound: "set (subgraph_regions subgraphs i) \<subseteq> set (concat (map sg_region_ids subgraphs))"
  using subgraph_by_id_Some [of subgraphs i]
  by (cases "subgraph_by_id subgraphs i") (auto simp: subgraph_regions_def)

lemma expand_hard_scopes_bounds:
  "expanded \<subseteq> expand_hard_scopes subgraphs hard expanded scope"
  "expand_hard_scopes subgraphs hard expanded scope \<subseteq> expanded \<union> set (concat (map sg_region_ids subgraphs))"
  using subgraph_regions_bound [of subgraphs] by (auto simp: expand_hard_scopes_def)

lemma foldl_grows:
  "(\<And>S x. S \<subseteq> f S x) \<Longrightarrow> S \<subseteq> foldl f S xs"
  by (induction xs arbitrary: S) (auto, blast)

lemma foldl_within:
  "(\<And>S x. x \<in> set xs \<Longrightarrow> f S x \<subseteq> S \<union> T) \<Longrightarrow> foldl f S xs \<subseteq> S \<union> T"
proof (induction xs arbitrary: S)
  case (Cons x xs)
  have "foldl f (f S x) xs \<subseteq> f S x \<union> T" by (rule Cons.IH) (simp add: Cons.prems)
  moreover have "f S x \<subseteq> S \<union> T" by (simp add: Cons.prems)
  ultimately show ?case by auto
qed simp

lemma edge_expansion_bounds:
  "selected \<subseteq> edge_expansion g selected"
  "edge_expansion g selected \<subseteq> selected \<union> expansion_universe g subgraphs"
  by (auto simp: edge_expansion_def expansion_universe_def)

lemma scope_in_universe: "scope \<in> set subgraphs \<Longrightarrow> set (sg_region_ids scope) \<subseteq> expansion_universe g subgraphs"
  by (auto simp: expansion_universe_def)

lemma scopes_in_universe: "set (concat (map sg_region_ids subgraphs)) \<subseteq> expansion_universe g subgraphs"
  by (simp add: expansion_universe_def)

lemma expansion_round_bounds:
  "selected \<subseteq> expansion_round g subgraphs selected"
  "expansion_round g subgraphs selected \<subseteq> selected \<union> expansion_universe g subgraphs"
proof -
  let ?U = "expansion_universe g subgraphs"
  let ?whole = "foldl expand_whole_scope (edge_expansion g selected) subgraphs"
  have "edge_expansion g selected \<subseteq> ?whole" by (rule foldl_grows [OF expand_whole_scope_bounds(1)])
  moreover have "?whole \<subseteq> expansion_round g subgraphs selected"
    unfolding expansion_round_def by (rule foldl_grows [OF expand_hard_scopes_bounds(1)])
  ultimately show "selected \<subseteq> expansion_round g subgraphs selected"
    using edge_expansion_bounds(1) [of selected g] by (meson subset_trans)
  have "?whole \<subseteq> edge_expansion g selected \<union> ?U"
  proof (rule foldl_within)
    fix S x assume "x \<in> set subgraphs"
    then show "expand_whole_scope S x \<subseteq> S \<union> ?U"
      using expand_whole_scope_bounds(2) [of S x] scope_in_universe [of x subgraphs g] by (meson Un_mono order_refl subset_trans)
  qed
  moreover have "expansion_round g subgraphs selected \<subseteq> ?whole \<union> ?U"
    unfolding expansion_round_def
  proof (rule foldl_within)
    fix S x assume "x \<in> set subgraphs"
    show "expand_hard_scopes subgraphs (dp_hard (dependency_pairs_of g subgraphs)) S x \<subseteq> S \<union> ?U"
      using expand_hard_scopes_bounds(2) scopes_in_universe [of subgraphs g] by (meson Un_mono order_refl subset_trans)
  qed
  ultimately show "expansion_round g subgraphs selected \<subseteq> selected \<union> ?U"
    using edge_expansion_bounds(2) [of g selected subgraphs] by blast
qed

function expand_scopes :: "agent_graph \<Rightarrow> agent_subgraph list \<Rightarrow> string set \<Rightarrow> string set" where
  "expand_scopes g subgraphs selected =
     (let expanded = expansion_round g subgraphs selected
      in if expanded = selected then selected else expand_scopes g subgraphs expanded)"
  by pat_completeness auto

termination expand_scopes
proof (relation "measure (\<lambda>(g, subgraphs, selected). card (expansion_universe g subgraphs - selected))")
  fix g subgraphs selected expanded
  assume e: "expanded = expansion_round g subgraphs selected" "expanded \<noteq> selected"
  have "expansion_universe g subgraphs - expanded \<subset> expansion_universe g subgraphs - selected"
    using expansion_round_bounds [where selected = selected and g = g and subgraphs = subgraphs] e by blast
  moreover have "finite (expansion_universe g subgraphs - selected)"
    by (simp add: expansion_universe_def)
  ultimately show "((g, subgraphs, expanded), g, subgraphs, selected)
      \<in> measure (\<lambda>(g, subgraphs, selected). card (expansion_universe g subgraphs - selected))"
    by (simp add: psubset_card_mono)
qed simp

declare expand_scopes.simps [simp del]

definition target_regions :: "agent_graph \<Rightarrow> string set \<Rightarrow> string set" where
  "target_regions g targets =
     set (map rg_region_id (filter (\<lambda>r. \<exists>v \<in> set (rg_violation_ids r). v \<in> targets) (map snd (gr_regions g))))"

definition restrict_scope :: "agent_graph \<Rightarrow> string set \<Rightarrow> agent_subgraph \<Rightarrow> agent_subgraph" where
  "restrict_scope g selected scope =
     (let ids = py_sorted (set (filter (\<lambda>r. r \<in> selected) (sg_region_ids scope)))
      in scope\<lparr>sg_region_ids := ids,
           sg_edge_ids := map e_edge_id (filter (\<lambda>e. e_edge_id e \<in> set (sg_edge_ids scope) \<and>
             e_u e \<in> set ids \<and> e_v e \<in> set ids) (gr_edges g))\<rparr>)"

definition engineering_scope_views ::
    "agent_graph \<Rightarrow> agent_subgraph list \<Rightarrow> string set \<Rightarrow> agent_subgraph list" where
  "engineering_scope_views g subgraphs targets =
     (if targets = {} then subgraphs
      else (let selected = expand_scopes g subgraphs (target_regions g targets)
            in filter (\<lambda>s. sg_region_ids s \<noteq> []) (map (restrict_scope g selected) subgraphs)))"

subsection \<open>Selection (select\_active\_window)\<close>

record window_request =
  wq_iteration :: "int"
  wq_window_index :: "int"
  wq_base_snapshot_id :: "string"
  wq_iteration_frontier :: "string set"
  wq_processed_frontier :: "string set"
  wq_current :: "string set"
  wq_max_parallel_subgraphs :: "int"
  wq_max_active_regions :: "int"
  wq_top_k_candidates_including_noop :: "int"
  wq_max_non_noop_actions_per_batch :: "int"

definition pending_violations :: "window_request \<Rightarrow> string set" where
  "pending_violations q = (wq_iteration_frontier q - wq_processed_frontier q) \<inter> wq_current q"

text \<open>The dictionary \<open>claims\<close>: the pending violations of every subgraph.\<close>

definition claim_of ::
    "agent_graph \<Rightarrow> string set \<Rightarrow> agent_subgraph \<Rightarrow> (string \<times> string list) result" where
  "claim_of g pending sg =
     bind_result (regions_violations g (sg_region_ids sg)) (\<lambda>rvs.
       Inr (sg_subgraph_id sg, targets_of pending rvs))"

definition claims_of ::
    "agent_graph \<Rightarrow> string set \<Rightarrow> agent_subgraph list \<Rightarrow> (string \<times> string list) list result" where
  "claims_of g pending subgraphs =
     bind_result (map_result (claim_of g pending) subgraphs) (\<lambda>cs. Inr (dict_of cs))"

definition hard_degree :: "agent_graph \<Rightarrow> string arcs \<Rightarrow> agent_subgraph \<Rightarrow> nat" where
  "hard_degree g hard sg =
     card (arc_targets hard (sg_subgraph_id sg))
     + length (filter (\<lambda>e. e_hard e \<and> (e_u e \<in> set (sg_region_ids sg) \<or> e_v e \<in> set (sg_region_ids sg)))
         (gr_edges g))"

definition seed_key ::
    "agent_graph \<Rightarrow> string arcs \<Rightarrow> (string \<times> string list) list \<Rightarrow> agent_subgraph \<Rightarrow>
     int \<times> int \<times> int \<times> nat \<times> string" where
  "seed_key g hard claims sg =
     (- sg_priority sg, - int (hard_degree g hard sg),
      - int (length (dict_get_list claims (sg_subgraph_id sg))), length (sg_region_ids sg), sg_subgraph_id sg)"

definition soft_key :: "(string \<times> string list) list \<Rightarrow> agent_subgraph \<Rightarrow> int \<times> int \<times> nat \<times> string" where
  "soft_key claims sg =
     (- sg_priority sg, - int (length (dict_get_list claims (sg_subgraph_id sg))),
      length (sg_region_ids sg), sg_subgraph_id sg)"

definition window_regions :: "agent_subgraph list \<Rightarrow> string set \<Rightarrow> string set" where
  "window_regions subgraphs ids = set (concat (map (subgraph_regions subgraphs) (py_sorted ids)))"

definition region_count :: "agent_subgraph list \<Rightarrow> string set \<Rightarrow> nat" where
  "region_count subgraphs ids = card (window_regions subgraphs ids)"

definition fits_budgets :: "agent_subgraph list \<Rightarrow> window_request \<Rightarrow> string set \<Rightarrow> bool" where
  "fits_budgets subgraphs q proposal \<longleftrightarrow>
     int (card proposal) \<le> wq_max_parallel_subgraphs q \<and>
     int (region_count subgraphs proposal) \<le> wq_max_active_regions q \<and>
     int (region_count subgraphs proposal) * max (wq_top_k_candidates_including_noop q - 1) 0
       \<le> wq_max_non_noop_actions_per_batch q * wq_top_k_candidates_including_noop q"

definition soft_candidates :: "string arcs \<Rightarrow> string set \<Rightarrow> string set" where
  "soft_candidates soft selected = set (concat (map (\<lambda>i. py_sorted (arc_targets soft i)) (py_sorted selected))) - selected"

text \<open>The next subgraph that the window takes in, if one fits.\<close>

definition soft_choice ::
    "agent_subgraph list \<Rightarrow> window_request \<Rightarrow> string arcs \<Rightarrow> (string \<times> string list) list \<Rightarrow> string set \<Rightarrow>
     agent_subgraph option" where
  "soft_choice subgraphs q soft claims selected =
     List.find (\<lambda>sg. fits_budgets subgraphs q (insert (sg_subgraph_id sg) selected))
       (sort_key (soft_key claims)
         (List.map_filter (subgraph_by_id subgraphs) (py_sorted (soft_candidates soft selected))))"

lemma soft_choice_new:
  assumes "soft_choice subgraphs q soft claims selected = Some sg"
  shows "sg \<in> set subgraphs" "sg_subgraph_id sg \<in> soft_candidates soft selected"
    "fits_budgets subgraphs q (insert (sg_subgraph_id sg) selected)"
proof -
  let ?xs = "List.map_filter (subgraph_by_id subgraphs) (py_sorted (soft_candidates soft selected))"
  have sg: "sg \<in> set ?xs" "fits_budgets subgraphs q (insert (sg_subgraph_id sg) selected)"
    using assms unfolding soft_choice_def find_Some_iff by (metis nth_mem set_sort)+
  have "finite (soft_candidates soft selected)" by (simp add: soft_candidates_def)
  then obtain i where "i \<in> soft_candidates soft selected" "subgraph_by_id subgraphs i = Some sg"
    using sg(1) by (auto simp: List.map_filter_def)
  then show "sg \<in> set subgraphs" "sg_subgraph_id sg \<in> soft_candidates soft selected"
    using subgraph_by_id_Some by metis+
  show "fits_budgets subgraphs q (insert (sg_subgraph_id sg) selected)" by (rule sg(2))
qed

function grow_window ::
    "agent_subgraph list \<Rightarrow> window_request \<Rightarrow> string arcs \<Rightarrow> (string \<times> string list) list \<Rightarrow> string set \<Rightarrow>
     string set" where
  "grow_window subgraphs q soft claims selected =
     (case soft_choice subgraphs q soft claims selected of
        None \<Rightarrow> selected
      | Some sg \<Rightarrow> grow_window subgraphs q soft claims (insert (sg_subgraph_id sg) selected))"
  by pat_completeness auto

termination grow_window
proof (relation "measure (\<lambda>(subgraphs, q, soft, claims, selected).
    card (sg_subgraph_id ` set subgraphs - selected))")
  fix subgraphs q soft claims selected sg
  assume "soft_choice subgraphs q soft claims selected = Some sg"
  then have "sg_subgraph_id sg \<in> sg_subgraph_id ` set subgraphs - selected"
    using soft_choice_new by (fastforce simp: soft_candidates_def)
  then have "sg_subgraph_id ` set subgraphs - insert (sg_subgraph_id sg) selected
      \<subset> sg_subgraph_id ` set subgraphs - selected" by blast
  then show "((subgraphs, q, soft, claims, insert (sg_subgraph_id sg) selected),
      subgraphs, q, soft, claims, selected) \<in> measure (\<lambda>(subgraphs, q, soft, claims, selected).
        card (sg_subgraph_id ` set subgraphs - selected))"
    by (simp add: psubset_card_mono)
qed simp

declare grow_window.simps [simp del]

text \<open>The hard closure of the seed: the search goes to dependents that are subgraphs.\<close>

definition hard_closure :: "agent_subgraph list \<Rightarrow> string arcs \<Rightarrow> string \<Rightarrow> string set" where
  "hard_closure subgraphs hard seed =
     bfs (filter (\<lambda>a. snd a \<in> sg_subgraph_id ` set subgraphs) hard) [seed] {seed}"

definition selected_subgraphs ::
    "agent_graph \<Rightarrow> agent_subgraph list \<Rightarrow> window_request \<Rightarrow> (string \<times> string list) list \<Rightarrow>
     agent_subgraph list \<Rightarrow> string set" where
  "selected_subgraphs g subgraphs q claims eligible =
     (let deps = dependency_pairs_of g subgraphs;
          seed = min_by (seed_key g (dp_hard deps) claims) (hd eligible) (tl eligible)
      in grow_window subgraphs q (dp_soft deps) claims
           (hard_closure subgraphs (dp_hard deps) (sg_subgraph_id seed)))"

definition boundary_ids :: "((string \<times> string) \<times> string) list \<Rightarrow> string set \<Rightarrow> string list" where
  "boundary_ids ids selected =
     (if card selected > 1
      then py_sorted (set (map snd (filter (\<lambda>p. fst (fst p) \<in> selected \<and> snd (fst p) \<in> selected \<and>
             fst (fst p) < snd (fst p)) ids)))
      else [])"

fun assist_status_text :: "assist_status \<Rightarrow> string" where
  "assist_status_text AssistDependency = ''DEPENDENCY_ASSIST''"
| "assist_status_text AssistUnsupported = ''UNSUPPORTED_WITH_EVIDENCE''"

definition helper_assignment_json :: "helper_assignment \<Rightarrow> json" where
  "helper_assignment_json h =
     JObj [(''helper_region_id'', JStr (ha_helper_region_id h)),
           (''assisted_region_ids'', json_strings (ha_assisted_region_ids h)),
           (''assisted_target_violation_ids'', json_strings (ha_assisted_target_violation_ids h)),
           (''dependency_evidence_ids'', json_strings (ha_dependency_evidence_ids h)),
           (''helper_potential_dof_capability_ids'', json_strings (ha_helper_potential_dof_capability_ids h)),
           (''helper_potential_carrier_ids'', json_strings (ha_helper_potential_carrier_ids h)),
           (''helper_protected_relation_ids'', json_strings (ha_helper_protected_relation_ids h)),
           (''snapshot_id'', JStr (ha_snapshot_id h)),
           (''status'', JStr (assist_status_text (ha_status h)))]"

definition window_identity ::
    "window_request \<Rightarrow> string list \<Rightarrow> string list \<Rightarrow> region_roles \<Rightarrow> helper_assignment list \<Rightarrow> json" where
  "window_identity q selected frontier roles assignments =
     JList [JInt (wq_iteration q), JInt (wq_window_index q), JStr (wq_base_snapshot_id q),
            json_strings selected, json_strings frontier, json_strings (rr_decision roles),
            json_strings (rr_helper roles), json_strings (rr_context roles),
            JList (map helper_assignment_json assignments)]"

text \<open>A region without an assignment is context, not a helper.\<close>

definition assigned_roles :: "region_roles \<Rightarrow> helper_assignment list \<Rightarrow> region_roles" where
  "assigned_roles roles assignments =
     (let assigned = set (map ha_helper_region_id assignments)
      in roles\<lparr>rr_helper := py_sorted assigned,
           rr_context := py_sorted (set (rr_context roles) \<union> (set (rr_helper roles) - assigned))\<rparr>)"

definition make_window ::
    "(json \<Rightarrow> string) \<Rightarrow> window_request \<Rightarrow> string set \<Rightarrow> string list \<Rightarrow> string list \<Rightarrow> region_roles \<Rightarrow>
     helper_assignment list \<Rightarrow> string list \<Rightarrow> active_window" where
  "make_window sh q selected region_ids frontier roles assignments boundary =
     \<lparr>aw_window_id = short_id sh ''window_'' 20
        (window_identity q (py_sorted selected) frontier roles assignments),
      aw_iteration = wq_iteration q, aw_window_index = wq_window_index q,
      aw_base_snapshot_id = wq_base_snapshot_id q, aw_subgraph_ids = py_sorted selected,
      aw_region_ids = region_ids, aw_frontier_violation_ids = frontier,
      aw_claimed_frontier_violation_ids = frontier, aw_decision_region_ids = rr_decision roles,
      aw_helper_region_ids = rr_helper roles, aw_helper_assignments = assignments,
      aw_context_only_region_ids = rr_context roles, aw_boundary_dependency_ids = boundary,
      aw_hard_dependency_closure = True\<rparr>"

definition select_active_window ::
    "(json \<Rightarrow> string) \<Rightarrow> agent_graph \<Rightarrow> agent_subgraph list \<Rightarrow> window_request \<Rightarrow> active_window option result" where
  "select_active_window sh g subgraphs q =
     (let pending = pending_violations q in
      if pending = {} then Inr None
      else bind_result (claims_of g pending subgraphs) (\<lambda>claims.
        let eligible = filter (\<lambda>sg. dict_get_list claims (sg_subgraph_id sg) \<noteq> []) subgraphs in
        if eligible = [] then Inr None
        else let selected = selected_subgraphs g subgraphs q claims eligible;
                 region_ids = py_sorted (window_regions subgraphs selected);
                 frontier = py_sorted (set (concat (map (dict_get_list claims) (py_sorted selected))));
                 boundary = boundary_ids (dp_ids (dependency_pairs_of g subgraphs)) selected
             in bind_result (classify_window_region_roles g region_ids frontier) (\<lambda>roles.
                  bind_result (build_helper_assignments g (rr_helper roles) (rr_decision roles) frontier
                    (wq_base_snapshot_id q)) (\<lambda>assignments.
                      Inr (Some (make_window sh q selected region_ids frontier
                        (assigned_roles roles assignments) assignments boundary))))))"

section \<open>What the selection guarantees\<close>

subsection \<open>Lookups\<close>

definition holds_violation :: "agent_graph \<Rightarrow> string set \<Rightarrow> string \<Rightarrow> bool" where
  "holds_violation g S rid \<longleftrightarrow>
     (case map_of (gr_regions g) rid of None \<Rightarrow> False | Some r \<Rightarrow> \<exists>v \<in> set (rg_violation_ids r). v \<in> S)"

lemma region_violations_Inr:
  "region_violations g rid = Inr vs \<longleftrightarrow> (\<exists>r. map_of (gr_regions g) rid = Some r \<and> vs = rg_violation_ids r)"
  by (auto simp: region_violations_def lookup_region_def split: option.splits)

lemma regions_violations_Inr:
  "regions_violations g rids = Inr rvs \<longleftrightarrow>
     list_all2 (\<lambda>rid p. fst p = rid \<and> region_violations g rid = Inr (snd p)) rids rvs"
proof (induction rids arbitrary: rvs)
  case Nil
  then show ?case by (auto simp: regions_violations_def)
next
  case (Cons rid rids)
  have "regions_violations g (rid # rids) = Inr rvs \<longleftrightarrow>
      (\<exists>vs rvs'. region_violations g rid = Inr vs \<and> regions_violations g rids = Inr rvs' \<and> rvs = (rid, vs) # rvs')"
    by (auto simp: regions_violations_def bind_result_Inr_iff)
  then show ?case unfolding Cons.IH by (auto simp: list_all2_Cons1)
qed

lemma region_violations_total: "rid \<in> fst ` set (gr_regions g) \<Longrightarrow> \<exists>vs. region_violations g rid = Inr vs"
  using lookup_region_total [of rid g] by (auto simp: region_violations_def)

lemma regions_violations_total:
  assumes "set rids \<subseteq> fst ` set (gr_regions g)"
  shows "\<exists>rvs. regions_violations g rids = Inr rvs"
  unfolding regions_violations_def
proof (rule map_result_total)
  fix rid assume "rid \<in> set rids"
  then obtain vs where "region_violations g rid = Inr vs" using assms region_violations_total by blast
  then show "\<exists>y. bind_result (region_violations g rid) (\<lambda>vs. Inr (rid, vs)) = Inr y" by simp
qed

lemma regions_violations_facts:
  assumes "regions_violations g rids = Inr rvs"
  shows "map fst rvs = rids"
    "\<And>rid vs. (rid, vs) \<in> set rvs \<Longrightarrow> region_violations g rid = Inr vs"
proof -
  have all2: "list_all2 (\<lambda>rid p. fst p = rid \<and> region_violations g rid = Inr (snd p)) rids rvs"
    using assms by (simp add: regions_violations_Inr)
  show "map fst rvs = rids"
    using all2 by (induction rule: list_all2_induct) simp_all
  have "list_all (\<lambda>p. region_violations g (fst p) = Inr (snd p)) rvs"
    using all2 by (induction rule: list_all2_induct) simp_all
  then show "\<And>rid vs. (rid, vs) \<in> set rvs \<Longrightarrow> region_violations g rid = Inr vs"
    by (auto simp: list_all_iff)
qed

lemma regions_violations_ids:
  assumes "regions_violations g rids = Inr rvs"
  shows "rid \<in> set rids \<longleftrightarrow> (\<exists>vs. (rid, vs) \<in> set rvs)"
  unfolding regions_violations_facts(1) [OF assms, symmetric] by force

lemma holds_violation_Inr: "region_violations g rid = Inr vs \<Longrightarrow> holds_violation g S rid \<longleftrightarrow> (\<exists>v \<in> set vs. v \<in> S)"
  by (auto simp: region_violations_Inr holds_violation_def)

lemma holds_violation_lookup:
  assumes "regions_violations g rids = Inr rvs" "(rid, vs) \<in> set rvs"
  shows "holds_violation g S rid \<longleftrightarrow> (\<exists>v \<in> set vs. v \<in> S)"
  by (rule holds_violation_Inr [OF regions_violations_facts(2) [OF assms]])

lemma holding_regions:
  assumes "regions_violations g rids = Inr rvs"
  shows "set (map fst (filter (\<lambda>p. \<exists>v \<in> set (snd p). v \<in> S) rvs)) = {rid \<in> set rids. holds_violation g S rid}"
proof -
  have "set (map fst (filter (\<lambda>p. \<exists>v \<in> set (snd p). v \<in> S) rvs))
      = {rid. \<exists>vs. (rid, vs) \<in> set rvs \<and> (\<exists>v \<in> set vs. v \<in> S)}" by force
  also have "\<dots> = {rid. \<exists>vs. (rid, vs) \<in> set rvs \<and> holds_violation g S rid}"
    using holds_violation_lookup [OF assms] by blast
  also have "\<dots> = {rid \<in> set rids. holds_violation g S rid}"
    unfolding regions_violations_ids [OF assms] by blast
  finally show ?thesis .
qed

lemma targets_of_set:
  assumes "regions_violations g rids = Inr rvs"
  shows "set (targets_of S rvs) = {v \<in> S. \<exists>rid \<in> set rids. holds_violation g {v} rid}"
proof -
  have "set (targets_of S rvs) = {v. v \<in> S \<and> (\<exists>rid vs. (rid, vs) \<in> set rvs \<and> v \<in> set vs)}"
    by (force simp: targets_of_def)
  also have "\<dots> = {v. v \<in> S \<and> (\<exists>rid vs. (rid, vs) \<in> set rvs \<and> holds_violation g {v} rid)}"
    using holds_violation_lookup [OF assms] by blast
  also have "\<dots> = {v \<in> S. \<exists>rid \<in> set rids. holds_violation g {v} rid}"
    using regions_violations_ids [OF assms] by blast
  finally show ?thesis .
qed

lemma targets_of_order [simp]: "sorted (targets_of S rvs)" "distinct (targets_of S rvs)"
  by (simp_all add: targets_of_def)

lemma holds_violation_mono: "holds_violation g {v} rid \<Longrightarrow> v \<in> S \<Longrightarrow> holds_violation g S rid"
  by (auto simp: holds_violation_def split: option.splits)

lemma holds_violation_single: "holds_violation g S rid \<Longrightarrow> \<exists>v \<in> S. holds_violation g {v} rid"
  by (auto simp: holds_violation_def split: option.splits)

subsection \<open>Roles\<close>

lemma classify_facts:
  assumes "classify_window_region_roles g rids frontier = Inr roles"
  shows "set (rr_decision roles) = {rid \<in> set rids. holds_violation g (set frontier) rid}"
    "set (rr_helper roles) = (set (physical_arcs g (set rids)))\<^sup>* `` set (rr_decision roles) - set (rr_decision roles)"
    "set (rr_context roles) = set rids - set (rr_decision roles) - set (rr_helper roles)"
    "set (rr_helper roles) \<subseteq> set rids"
    "distinct (rr_decision roles @ rr_helper roles @ rr_context roles)"
    "sorted (rr_decision roles)" "sorted (rr_helper roles)" "sorted (rr_context roles)"
proof -
  let ?arcs = "physical_arcs g (set rids)"
  obtain rvs where rvs: "regions_violations g rids = Inr rvs"
    using assms by (auto simp: classify_window_region_roles_def bind_result_Inr_iff)
  define D where "D = set (map fst (filter (\<lambda>p. \<exists>v \<in> set (snd p). v \<in> set frontier) rvs))"
  define R where "R = bfs_from ?arcs D"
  have roles: "roles = \<lparr>rr_decision = py_sorted D, rr_helper = py_sorted (R - D),
      rr_context = py_sorted (set rids - D - (R - D))\<rparr>"
    using assms rvs by (simp add: classify_window_region_roles_def Let_def D_def R_def bfs_from_def)
  have D: "D = {rid \<in> set rids. holds_violation g (set frontier) rid}"
    unfolding D_def by (rule holding_regions [OF rvs])
  have fin: "finite D" unfolding D_def by simp
  have R: "R = (set ?arcs)\<^sup>* `` D" unfolding R_def by (rule bfs.search_reachable [OF fin])
  have finR: "finite R" unfolding R_def by (rule bfs.search_finite [OF fin]) simp
  have within: "R \<subseteq> set rids" unfolding R_def
    by (rule bfs.search_least [OF fin]) (auto simp: D physical_arcs_def both_ways_def)
  show "set (rr_decision roles) = {rid \<in> set rids. holds_violation g (set frontier) rid}"
    "set (rr_helper roles) = (set ?arcs)\<^sup>* `` set (rr_decision roles) - set (rr_decision roles)"
    "set (rr_context roles) = set rids - set (rr_decision roles) - set (rr_helper roles)"
    "set (rr_helper roles) \<subseteq> set rids"
    using D R fin finR within unfolding roles by auto
  show "distinct (rr_decision roles @ rr_helper roles @ rr_context roles)"
    using fin finR unfolding roles by auto
  show "sorted (rr_decision roles)" "sorted (rr_helper roles)" "sorted (rr_context roles)"
    unfolding roles by simp_all
qed

lemma classify_total:
  assumes "set rids \<subseteq> fst ` set (gr_regions g)"
  shows "\<exists>roles. classify_window_region_roles g rids frontier = Inr roles"
  using regions_violations_total [OF assms]
  by (auto simp: classify_window_region_roles_def bind_result_Inr_iff Let_def)

subsection \<open>Helper search\<close>

text \<open>A step of the search: along a proven link, from a region that is not a decision region.\<close>

definition assist_steps :: "proven_links \<Rightarrow> string set \<Rightarrow> (string \<times> string) set" where
  "assist_steps links decisions = {(x, y). x \<notin> decisions \<and> (\<exists>ev. (x, y, ev) \<in> set links)}"

lemma proven_neighbors_set: "(y, ev) \<in> set (proven_neighbors links x) \<longleftrightarrow> (x, y, ev) \<in> set links"
  by (force simp: proven_neighbors_def)

lemma dedup_loop_subset: "set (dedup_loop f seen xs) \<subseteq> set xs"
  by (induction xs arbitrary: seen) auto

lemma fresh_neighbors:
  "fst ` set (dedup_loop fst visited (proven_neighbors links x)) = {y. \<exists>ev. (x, y, ev) \<in> set links} - visited"
  unfolding dedup_loop_ids by (force simp flip: proven_neighbors_set)

lemma assist_search_complete:
  assumes "fst ` set queue \<subseteq> visited"
    and "\<And>x. x \<in> visited \<Longrightarrow> x \<notin> fst ` set queue \<Longrightarrow> x \<in> decisions \<Longrightarrow> x \<in> assisted"
    and "\<And>x y. x \<in> visited \<Longrightarrow> x \<notin> fst ` set queue \<Longrightarrow> (x, y) \<in> assist_steps links decisions \<Longrightarrow> y \<in> visited"
  shows "\<exists>V. visited \<subseteq> V \<and> (\<forall>x \<in> V. \<forall>y. (x, y) \<in> assist_steps links decisions \<longrightarrow> y \<in> V) \<and>
    V \<inter> decisions \<subseteq> fst (assist_search links decisions queue visited assisted evidence)"
  using assms
proof (induction links decisions queue visited assisted evidence rule: assist_search.induct)
  case (1 links decisions visited assisted evidence)
  then show ?case by (intro exI [of _ visited]) auto
next
  case (2 links decisions current path queue visited assisted evidence)
  show ?case
  proof (cases "current \<in> decisions")
    case True
    have "\<exists>V. visited \<subseteq> V \<and> (\<forall>x \<in> V. \<forall>y. (x, y) \<in> assist_steps links decisions \<longrightarrow> y \<in> V) \<and>
        V \<inter> decisions \<subseteq> fst (assist_search links decisions queue visited (insert current assisted) (evidence \<union> set path))"
    proof (rule "2.IH"(1) [OF True])
      show "fst ` set queue \<subseteq> visited" using "2.prems"(1) by auto
      show "x \<in> insert current assisted" if "x \<in> visited" "x \<notin> fst ` set queue" "x \<in> decisions" for x
        using "2.prems"(2) [of x] that by auto
      show "y \<in> visited" if "x \<in> visited" "x \<notin> fst ` set queue" "(x, y) \<in> assist_steps links decisions" for x y
        using "2.prems"(3) [of x y] that True by (cases "x = current") (auto simp: assist_steps_def)
    qed
    then show ?thesis using True by simp
  next
    case False
    define fresh where "fresh = dedup_loop fst visited (proven_neighbors links current)"
    have ids: "fst ` set fresh = {y. \<exists>ev. (current, y, ev) \<in> set links} - visited"
      unfolding fresh_def by (rule fresh_neighbors)
    let ?queue = "queue @ map (\<lambda>n. (fst n, path @ snd n)) fresh"
    have queue: "fst ` set ?queue = fst ` set queue \<union> fst ` set fresh" by force
    have "\<exists>V. visited \<union> fst ` set fresh \<subseteq> V \<and> (\<forall>x \<in> V. \<forall>y. (x, y) \<in> assist_steps links decisions \<longrightarrow> y \<in> V) \<and>
        V \<inter> decisions \<subseteq> fst (assist_search links decisions ?queue (visited \<union> fst ` set fresh) assisted evidence)"
    proof (rule "2.IH"(2) [OF False fresh_def])
      show "fst ` set ?queue \<subseteq> visited \<union> fst ` set fresh" unfolding queue using "2.prems"(1) by auto
      show "x \<in> assisted" if "x \<in> visited \<union> fst ` set fresh" "x \<notin> fst ` set ?queue" "x \<in> decisions" for x
        using "2.prems"(2) [of x] that False unfolding queue by auto
      show "y \<in> visited \<union> fst ` set fresh"
        if "x \<in> visited \<union> fst ` set fresh" "x \<notin> fst ` set ?queue" "(x, y) \<in> assist_steps links decisions" for x y
        using "2.prems"(3) [of x y] that unfolding queue ids
        by (cases "x = current") (auto simp: assist_steps_def)
    qed
    then show ?thesis using False by (simp add: fresh_def Let_def) blast
  qed
qed

lemma assist_search_sound:
  assumes "\<And>x y. x \<in> T \<Longrightarrow> (x, y) \<in> assist_steps links decisions \<Longrightarrow> y \<in> T"
  shows "fst ` set queue \<subseteq> T \<Longrightarrow>
    fst (assist_search links decisions queue visited assisted evidence) \<subseteq> assisted \<union> (T \<inter> decisions)"
  using assms
proof (induction links decisions queue visited assisted evidence rule: assist_search.induct)
  case (2 links decisions current path queue visited assisted evidence)
  show ?case
  proof (cases "current \<in> decisions")
    case True
    have "fst (assist_search links decisions queue visited (insert current assisted) (evidence \<union> set path))
        \<subseteq> insert current assisted \<union> (T \<inter> decisions)"
      by (rule "2.IH"(1) [OF True]) (use "2.prems" in auto)
    then show ?thesis using True "2.prems"(1) by auto
  next
    case False
    define fresh where "fresh = dedup_loop fst visited (proven_neighbors links current)"
    have "fst ` set fresh \<subseteq> T"
      using "2.prems" False unfolding fresh_def fresh_neighbors by (force simp: assist_steps_def)
    then have "fst (assist_search links decisions (queue @ map (\<lambda>n. (fst n, path @ snd n)) fresh)
        (visited \<union> fst ` set fresh) assisted evidence) \<subseteq> assisted \<union> (T \<inter> decisions)"
      by (intro "2.IH"(2) [OF False fresh_def]) (use "2.prems" in auto)
    then show ?thesis using False by (simp add: fresh_def Let_def)
  qed
qed simp

lemma assist_search_evidence:
  assumes "\<And>x y ev. (x, y, ev) \<in> set links \<Longrightarrow> ev \<noteq> [] \<and> set ev \<subseteq> E" and "h \<notin> decisions"
  shows "(\<And>x p. (x, p) \<in> set queue \<Longrightarrow> (x = h \<or> p \<noteq> []) \<and> set p \<subseteq> E) \<Longrightarrow> evidence \<subseteq> E \<Longrightarrow>
    (assisted \<noteq> {} \<Longrightarrow> evidence \<noteq> {}) \<Longrightarrow>
    snd (assist_search links decisions queue visited assisted evidence) \<subseteq> E \<and>
    (fst (assist_search links decisions queue visited assisted evidence) \<noteq> {} \<longrightarrow>
     snd (assist_search links decisions queue visited assisted evidence) \<noteq> {})"
  using assms
proof (induction links decisions queue visited assisted evidence rule: assist_search.induct)
  case (2 links decisions current path queue visited assisted evidence)
  have path: "(current = h \<or> path \<noteq> []) \<and> set path \<subseteq> E" using "2.prems"(1) [of current path] by simp
  show ?case
  proof (cases "current \<in> decisions")
    case True
    then have "path \<noteq> []" using path "2.prems"(5) by blast
    have "snd (assist_search links decisions queue visited (insert current assisted) (evidence \<union> set path)) \<subseteq> E \<and>
      (fst (assist_search links decisions queue visited (insert current assisted) (evidence \<union> set path)) \<noteq> {} \<longrightarrow>
       snd (assist_search links decisions queue visited (insert current assisted) (evidence \<union> set path)) \<noteq> {})"
      by (rule "2.IH"(1) [OF True]) (use "2.prems" path \<open>path \<noteq> []\<close> in auto)
    then show ?thesis using True by simp
  next
    case False
    define fresh where "fresh = dedup_loop fst visited (proven_neighbors links current)"
    have fresh: "snd n \<noteq> [] \<and> set (snd n) \<subseteq> E" if "n \<in> set fresh" for n
      using that dedup_loop_subset "2.prems"(4) unfolding fresh_def
      by (metis prod.collapse proven_neighbors_set subsetD)
    have in_E: "xa \<in> E" if "(a, b) \<in> set fresh" "xa \<in> set path \<or> xa \<in> set b" for a b xa
      using that fresh [of "(a, b)"] path by auto
    have "snd (assist_search links decisions (queue @ map (\<lambda>n. (fst n, path @ snd n)) fresh)
        (visited \<union> fst ` set fresh) assisted evidence) \<subseteq> E \<and>
      (fst (assist_search links decisions (queue @ map (\<lambda>n. (fst n, path @ snd n)) fresh)
        (visited \<union> fst ` set fresh) assisted evidence) \<noteq> {} \<longrightarrow>
       snd (assist_search links decisions (queue @ map (\<lambda>n. (fst n, path @ snd n)) fresh)
        (visited \<union> fst ` set fresh) assisted evidence) \<noteq> {})"
      by (rule "2.IH"(2) [OF False fresh_def]) (use "2.prems" fresh path in \<open>auto intro: in_E\<close>)
    then show ?thesis using False by (simp add: fresh_def Let_def)
  qed
qed simp

text \<open>The search from a helper finds exactly the decision regions that are reachable without passing another.\<close>

lemma assist_search_exact:
  "fst (assist_search links decisions [(h, [])] {h} {} {}) = (assist_steps links decisions)\<^sup>* `` {h} \<inter> decisions"
proof (intro equalityI)
  let ?R = "(assist_steps links decisions)\<^sup>* `` {h}"
  have "fst (assist_search links decisions [(h, [])] {h} {} {}) \<subseteq> {} \<union> (?R \<inter> decisions)"
    by (rule assist_search_sound) (auto intro: rtrancl_into_rtrancl)
  then show "fst (assist_search links decisions [(h, [])] {h} {} {}) \<subseteq> ?R \<inter> decisions" by simp
  obtain V where V: "{h} \<subseteq> V" "\<forall>x \<in> V. \<forall>y. (x, y) \<in> assist_steps links decisions \<longrightarrow> y \<in> V"
    "V \<inter> decisions \<subseteq> fst (assist_search links decisions [(h, [])] {h} {} {})"
    using assist_search_complete [of "[(h, [])]" "{h}" decisions "{}" links "{}"] by auto
  have "y \<in> V" if "(h, y) \<in> (assist_steps links decisions)\<^sup>*" for y
    using that by (induction rule: rtrancl_induct) (use V(1,2) in auto)
  then show "?R \<inter> decisions \<subseteq> fst (assist_search links decisions [(h, [])] {h} {} {})" using V(3) by blast
qed

subsection \<open>Helper assignments\<close>

definition proven_evidence :: "agent_graph \<Rightarrow> string set" where
  "proven_evidence g = set (concat (map proving_ids (filter e_hard (gr_edges g))))"

lemma proven_adjacency_evidence: "(x, y, ev) \<in> set (proven_adjacency g) \<Longrightarrow> ev \<noteq> [] \<and> set ev \<subseteq> proven_evidence g"
  by (auto simp: proven_adjacency_def proven_evidence_def)

lemma proving_ids_iff: "proving_ids e \<noteq> [] \<longleftrightarrow> (\<exists>i \<in> set (e_evidence e). proves_dependency i)"
  by (simp add: proving_ids_def filter_empty_conv)

lemma in_concat_map: "z \<in> set (concat (map f xs)) \<longleftrightarrow> (\<exists>x \<in> set xs. z \<in> set (f x))"
  by simp

lemma physical_arc_link:
  assumes "(x, y) \<in> set (physical_arcs g W)"
  shows "\<exists>ev. (x, y, ev) \<in> set (proven_adjacency g)"
proof -
  have "\<exists>e \<in> set (filter (\<lambda>e. e_hard e \<and> e_u e \<in> W \<and> e_v e \<in> W \<and>
      (\<exists>i \<in> set (e_evidence e). proves_dependency i)) (gr_edges g)). (x, y) \<in> set (both_ways (e_u e) (e_v e))"
    using assms unfolding physical_arcs_def in_concat_map .
  then obtain e where e: "e \<in> set (gr_edges g)" "e_hard e" "proving_ids e \<noteq> []"
    "(x, y) \<in> set (both_ways (e_u e) (e_v e))"
    unfolding proving_ids_iff set_filter by blast
  then have "e \<in> set (filter (\<lambda>e. e_hard e \<and> proving_ids e \<noteq> []) (gr_edges g))" by simp
  moreover have "(x, y, proving_ids e) \<in> set [(e_u e, e_v e, proving_ids e), (e_v e, e_u e, proving_ids e)]"
    using e(4) by (auto simp: both_ways_def)
  ultimately have "(x, y, proving_ids e) \<in> set (proven_adjacency g)"
    unfolding proven_adjacency_def in_concat_map by (rule bexI [rotated])
  then show ?thesis ..
qed

lemma sym_physical_arcs: "sym (set (physical_arcs g W))"
  unfolding physical_arcs_def by (rule sym_both_ways)

text \<open>A path that ends in \<open>D\<close> reaches \<open>D\<close> a first time.\<close>

lemma rtrancl_first:
  assumes "(x, y) \<in> R\<^sup>*" "y \<in> D"
  shows "\<exists>z \<in> D. (x, z) \<in> {(a, b) \<in> R. a \<notin> D}\<^sup>*"
  using assms
proof (induction rule: converse_rtrancl_induct)
  case (step x w)
  then obtain z where z: "z \<in> D" "(w, z) \<in> {(a, b) \<in> R. a \<notin> D}\<^sup>*" by blast
  show ?case
  proof (cases "x \<in> D")
    case False
    then have "(x, z) \<in> {(a, b) \<in> R. a \<notin> D}\<^sup>*"
      using step.hyps(1) z(2) by (intro converse_rtrancl_into_rtrancl [OF _ z(2)]) simp
    then show ?thesis using z(1) by blast
  qed blast
qed blast

definition assisted_regions :: "agent_graph \<Rightarrow> string set \<Rightarrow> string \<Rightarrow> string set" where
  "assisted_regions g decisions helper =
     (assist_steps (proven_adjacency g) decisions)\<^sup>* `` {helper} \<inter> decisions"

lemma helper_assists:
  assumes "(d, h) \<in> (set (physical_arcs g W))\<^sup>*" "d \<in> D"
  shows "assisted_regions g D h \<noteq> {}"
proof -
  let ?R = "set (physical_arcs g W)"
  have "(h, d) \<in> ?R\<^sup>*" by (rule symD [OF sym_rtrancl [OF sym_physical_arcs] assms(1)])
  then obtain z where z: "z \<in> D" "(h, z) \<in> {(a, b) \<in> ?R. a \<notin> D}\<^sup>*"
    using rtrancl_first [OF _ assms(2)] by blast
  have "{(a, b) \<in> ?R. a \<notin> D} \<subseteq> assist_steps (proven_adjacency g) D"
  proof
    fix p assume "p \<in> {(a, b) \<in> ?R. a \<notin> D}"
    then obtain a b where p: "p = (a, b)" "(a, b) \<in> ?R" "a \<notin> D" by blast
    then show "p \<in> assist_steps (proven_adjacency g) D"
      using physical_arc_link [OF p(2)] by (simp add: assist_steps_def)
  qed
  then have "(h, z) \<in> (assist_steps (proven_adjacency g) D)\<^sup>*" using z(2) by (rule rtrancl_mono [THEN subsetD])
  then show ?thesis using z(1) unfolding assisted_regions_def by blast
qed

text \<open>What an assignment must say.\<close>

definition assignment_ok :: "agent_graph \<Rightarrow> string set \<Rightarrow> string set \<Rightarrow> string \<Rightarrow> helper_assignment \<Rightarrow> bool" where
  "assignment_ok g decisions frontier snapshot_id a \<longleftrightarrow>
     set (ha_assisted_region_ids a) = assisted_regions g decisions (ha_helper_region_id a) \<and>
     set (ha_assisted_target_violation_ids a) =
       {v \<in> frontier. \<exists>rid \<in> set (ha_assisted_region_ids a). holds_violation g {v} rid} \<and>
     ha_assisted_region_ids a \<noteq> [] \<and> ha_assisted_target_violation_ids a \<noteq> [] \<and>
     ha_dependency_evidence_ids a \<noteq> [] \<and> set (ha_dependency_evidence_ids a) \<subseteq> proven_evidence g \<and>
     ha_snapshot_id a = snapshot_id \<and>
     ha_status a = assist_status_of (map_of (gr_potential_access_summaries g) (ha_helper_region_id a))"

lemma assign_helper_result:
  assumes "finite decisions" "\<And>d. d \<in> decisions \<Longrightarrow> d \<in> fst ` set (gr_regions g) \<and> holds_violation g frontier d"
    and "helper \<notin> decisions" "assisted_regions g decisions helper \<noteq> {}"
  shows "\<exists>a. assign_helper g decisions frontier snapshot_id helper = Inr [a] \<and>
    ha_helper_region_id a = helper \<and> assignment_ok g decisions frontier snapshot_id a"
proof -
  obtain assisted evidence where
    search: "assist_search (proven_adjacency g) decisions [(helper, [])] {helper} {} {} = (assisted, evidence)"
    by (metis prod.collapse)
  have assisted: "assisted = assisted_regions g decisions helper"
    using assist_search_exact [of "proven_adjacency g" decisions helper] search
    by (simp add: assisted_regions_def)
  have evidence: "evidence \<subseteq> proven_evidence g" "evidence \<noteq> {}"
    using assist_search_evidence [of "proven_adjacency g" "proven_evidence g" helper decisions
        "[(helper, [])]" "{}" "{}" "{helper}"] proven_adjacency_evidence assms(3,4)
    unfolding search assisted by auto
  have fin: "finite assisted" "finite evidence"
    using assms(1) finite_subset [OF evidence(1)]
    by (auto simp: assisted assisted_regions_def proven_evidence_def)
  have sub: "assisted \<subseteq> decisions" by (auto simp: assisted assisted_regions_def)
  obtain rvs where rvs: "regions_violations g (py_sorted assisted) = Inr rvs"
    using regions_violations_total [of "py_sorted assisted" g] assms(2) sub fin by auto
  have targets: "set (targets_of frontier rvs) = {v \<in> frontier. \<exists>rid \<in> assisted. holds_violation g {v} rid}"
    using targets_of_set [OF rvs] fin by simp
  have "targets_of frontier rvs \<noteq> []"
  proof -
    obtain d where d: "d \<in> assisted" using assms(4) assisted by blast
    then obtain v where "v \<in> frontier" "holds_violation g {v} d"
      using assms(2) sub holds_violation_single by blast
    then have "v \<in> set (targets_of frontier rvs)" using targets d by blast
    then show ?thesis by auto
  qed
  then show ?thesis
    unfolding assign_helper_def search Let_def prod.case rvs bind_result_simps
    using evidence fin assms(4) assisted targets
    by (simp add: validate_helper_assignment_def assignment_ok_def py_sorted_eq_Nil)
qed

lemma build_helper_assignments_result:
  assumes "finite decisions"
    and "\<And>d. d \<in> decisions \<Longrightarrow> d \<in> fst ` set (gr_regions g) \<and> holds_violation g (set frontier) d"
    and "set decision_ids = decisions" "sorted helpers" "distinct helpers"
    and "\<And>h. h \<in> set helpers \<Longrightarrow> h \<notin> decisions \<and> assisted_regions g decisions h \<noteq> {}"
  shows "\<exists>as. build_helper_assignments g helpers decision_ids frontier snapshot_id = Inr as \<and>
    map ha_helper_region_id as = helpers \<and>
    (\<forall>a \<in> set as. assignment_ok g decisions (set frontier) snapshot_id a)"
proof -
  let ?f = "assign_helper g decisions (set frontier) snapshot_id"
  have one: "\<exists>a. ?f h = Inr [a] \<and> ha_helper_region_id a = h \<and> assignment_ok g decisions (set frontier) snapshot_id a"
    if "h \<in> set helpers" for h
    using assms(6) [OF that] by (intro assign_helper_result assms(1,2)) auto
  define pick where "pick h = (SOME a. ?f h = Inr [a] \<and> ha_helper_region_id a = h \<and>
      assignment_ok g decisions (set frontier) snapshot_id a)" for h
  have pick: "?f h = Inr [pick h]" "ha_helper_region_id (pick h) = h"
    "assignment_ok g decisions (set frontier) snapshot_id (pick h)" if "h \<in> set helpers" for h
    using someI_ex [OF one [OF that]] unfolding pick_def by blast+
  have "map_result ?f helpers = Inr (map (\<lambda>h. [pick h]) helpers)"
    by (rule map_result_Inr) (rule pick(1))
  then have "build_helper_assignments g helpers decision_ids frontier snapshot_id = Inr (map pick helpers)"
    using py_sorted_unique [OF assms(4,5)]
    by (simp add: build_helper_assignments_def assms(3) concat_map_singleton)
  moreover have "map ha_helper_region_id (map pick helpers) = helpers"
    unfolding map_map by (rule map_idI) (simp add: pick(2))
  ultimately show ?thesis using pick(3) by auto
qed

text \<open>Every helper that the classification finds gets an assignment: no helper falls back to context.\<close>

lemma classified_helpers_assigned:
  assumes "classify_window_region_roles g rids frontier = Inr roles"
  shows "\<exists>as. build_helper_assignments g (rr_helper roles) (rr_decision roles) frontier snapshot_id = Inr as \<and>
    map ha_helper_region_id as = rr_helper roles \<and>
    (\<forall>a \<in> set as. assignment_ok g (set (rr_decision roles)) (set frontier) snapshot_id a)"
proof (rule build_helper_assignments_result)
  note roles = classify_facts [OF assms]
  show "finite (set (rr_decision roles))" "set (rr_decision roles) = set (rr_decision roles)"
    "sorted (rr_helper roles)" "distinct (rr_helper roles)"
    using roles(5,7) by simp_all
  show "d \<in> fst ` set (gr_regions g) \<and> holds_violation g (set frontier) d" if "d \<in> set (rr_decision roles)" for d
  proof
    show holds: "holds_violation g (set frontier) d" using that roles(1) by simp
    then have "map_of (gr_regions g) d \<noteq> None"
      by (cases "map_of (gr_regions g) d") (simp_all add: holds_violation_def)
    then show "d \<in> fst ` set (gr_regions g)" by (metis map_of_eq_None_iff)
  qed
  show "h \<notin> set (rr_decision roles) \<and> assisted_regions g (set (rr_decision roles)) h \<noteq> {}"
    if "h \<in> set (rr_helper roles)" for h
  proof -
    have h: "h \<in> (set (physical_arcs g (set rids)))\<^sup>* `` set (rr_decision roles) - set (rr_decision roles)"
      using that by (simp only: roles(2))
    then obtain d where "d \<in> set (rr_decision roles)" "(d, h) \<in> (set (physical_arcs g (set rids)))\<^sup>*"
      by blast
    then show ?thesis using h helper_assists by blast
  qed
qed

subsection \<open>Subgraphs of a window\<close>

lemma owner_of_id: "owner_of keys subgraphs x = Some y \<Longrightarrow> y \<in> sg_subgraph_id ` set subgraphs"
  by (auto simp: owner_of_def dest!: map_of_SomeD)

lemma owned_pair_ids:
  assumes "owned_pair (owner_of keys subgraphs) a b = Some (l, r)"
  shows "l \<in> sg_subgraph_id ` set subgraphs \<and> r \<in> sg_subgraph_id ` set subgraphs \<and> l \<noteq> r"
proof -
  have "owner_of keys subgraphs a = Some l" "owner_of keys subgraphs b = Some r" "l \<noteq> r"
    using assms by (auto simp: owned_pair_def split: option.splits if_splits)
  then show ?thesis using owner_of_id by metis
qed

lemma link_arcs_iff: "(x, y) \<in> set (link_arcs ps) \<longleftrightarrow> (x, y) \<in> set ps \<or> (y, x) \<in> set ps"
  by (induction ps) (auto simp: link_arcs_def both_ways_def)

lemma map_filter_in: "y \<in> set (List.map_filter f xs) \<longleftrightarrow> (\<exists>x \<in> set xs. f x = Some y)"
  by (force simp: List.map_filter_def)

lemma hard_arc_ids:
  assumes "(x, y) \<in> set (dp_hard (dependency_pairs_of g subgraphs))"
  shows "x \<in> sg_subgraph_id ` set subgraphs \<and> y \<in> sg_subgraph_id ` set subgraphs"
proof -
  let ?I = "sg_subgraph_id ` set subgraphs"
  let ?links = "List.map_filter (edge_link subgraphs) (filter (\<lambda>e. e_hard e = True) (gr_edges g))
    @ List.map_filter (boundary_link subgraphs) (filter (\<lambda>d. bd_hard d = True) (gr_boundary_dependencies g))
    @ solver_links subgraphs"
  have "a \<in> ?I \<and> b \<in> ?I" if link: "(a, b) \<in> set ?links" for a b
  proof -
    from link consider e where "edge_link subgraphs e = Some (a, b)"
      | d where "boundary_link subgraphs d = Some (a, b)" | "(a, b) \<in> set (solver_links subgraphs)"
      unfolding set_append Un_iff map_filter_in by blast
    then show ?thesis
    proof cases
      case 1
      then show ?thesis using owned_pair_ids unfolding edge_link_def by blast
    next
      case 2
      then show ?thesis using owned_pair_ids unfolding boundary_link_def by blast
    next
      case 3
      then show ?thesis by (auto simp: solver_links_def)
    qed
  qed
  moreover have "(x, y) \<in> set ?links \<or> (y, x) \<in> set ?links"
    using assms unfolding dependency_pairs_of_def Let_def dependency_pairs.simps link_arcs_iff .
  ultimately show ?thesis by blast
qed

lemma hard_closure_reachable:
  "hard_closure subgraphs (dp_hard (dependency_pairs_of g subgraphs)) seed
     = (set (dp_hard (dependency_pairs_of g subgraphs)))\<^sup>* `` {seed}"
proof -
  let ?hard = "dp_hard (dependency_pairs_of g subgraphs)"
  have "filter (\<lambda>a. snd a \<in> sg_subgraph_id ` set subgraphs) ?hard = ?hard"
    using hard_arc_ids by (intro filter_True) force
  then have "hard_closure subgraphs ?hard seed = bfs_from ?hard {seed}"
    by (simp add: hard_closure_def bfs_from_def py_sorted_def)
  then show ?thesis by (simp add: bfs.search_reachable)
qed

lemma hard_closure_ids:
  assumes "seed \<in> sg_subgraph_id ` set subgraphs"
  shows "hard_closure subgraphs (dp_hard (dependency_pairs_of g subgraphs)) seed \<subseteq> sg_subgraph_id ` set subgraphs"
proof -
  have "y \<in> sg_subgraph_id ` set subgraphs"
    if "(seed, y) \<in> (set (dp_hard (dependency_pairs_of g subgraphs)))\<^sup>*" for y
    using that by (induction rule: rtrancl_induct) (use assms hard_arc_ids in blast)+
  then show ?thesis unfolding hard_closure_reachable by blast
qed

lemma grow_window_facts:
  "selected \<subseteq> grow_window subgraphs q soft claims selected"
  "grow_window subgraphs q soft claims selected \<subseteq> selected \<union> sg_subgraph_id ` set subgraphs"
  "grow_window subgraphs q soft claims selected = selected \<or>
     fits_budgets subgraphs q (grow_window subgraphs q soft claims selected)"
proof (induction subgraphs q soft claims selected rule: grow_window.induct)
  case (1 subgraphs q soft claims selected)
  have *: "selected \<subseteq> grow_window subgraphs q soft claims selected \<and>
    grow_window subgraphs q soft claims selected \<subseteq> selected \<union> sg_subgraph_id ` set subgraphs \<and>
    (grow_window subgraphs q soft claims selected = selected \<or>
     fits_budgets subgraphs q (grow_window subgraphs q soft claims selected))"
  proof (cases "soft_choice subgraphs q soft claims selected")
    case None
    then show ?thesis by (subst (1 2 3 4) grow_window.simps) simp
  next
    case (Some sg)
    have eq: "grow_window subgraphs q soft claims selected
        = grow_window subgraphs q soft claims (insert (sg_subgraph_id sg) selected)"
      using Some by (subst grow_window.simps) simp
    show ?thesis
      using "1" [OF Some] soft_choice_new [OF Some] unfolding eq
      by (metis (no_types, lifting) Un_insert_left image_eqI insert_absorb insert_subset Un_iff)
  qed
  { case 1 show ?case using * by blast }
  { case 2 show ?case using * by blast }
  { case 3 show ?case using * by blast }
qed

lemma subgraph_by_id_distinct:
  assumes "distinct (map sg_subgraph_id subgraphs)" "sg \<in> set subgraphs"
  shows "subgraph_by_id subgraphs (sg_subgraph_id sg) = Some sg"
proof (cases "subgraph_by_id subgraphs (sg_subgraph_id sg)")
  case None
  then show ?thesis using assms(2) by (auto simp: subgraph_by_id_def find_None_iff)
next
  case (Some sg')
  then have "sg' \<in> set subgraphs" "sg_subgraph_id sg' = sg_subgraph_id sg" using subgraph_by_id_Some by blast+
  then have "sg' = sg" using assms by (simp add: distinct_map inj_on_def)
  then show ?thesis using Some by simp
qed

subsection \<open>The selected window\<close>

definition scopes_known :: "agent_graph \<Rightarrow> agent_subgraph list \<Rightarrow> bool" where
  "scopes_known g subgraphs \<longleftrightarrow>
     distinct (map sg_subgraph_id subgraphs) \<and>
     (\<forall>sg \<in> set subgraphs. set (sg_region_ids sg) \<subseteq> fst ` set (gr_regions g))"

lemma list_all2_partner: "list_all2 P xs ys \<Longrightarrow> x \<in> set xs \<Longrightarrow> \<exists>y \<in> set ys. P x y"
  by (induction rule: list_all2_induct) auto

lemma claims_of_result:
  assumes "scopes_known g subgraphs"
  shows "\<exists>claims. claims_of g pending subgraphs = Inr claims \<and>
    (\<forall>sg \<in> set subgraphs. set (dict_get_list claims (sg_subgraph_id sg)) =
      {v \<in> pending. \<exists>rid \<in> set (sg_region_ids sg). holds_violation g {v} rid})"
proof -
  have one: "\<exists>c. claim_of g pending sg = Inr c \<and> fst c = sg_subgraph_id sg \<and>
      set (snd c) = {v \<in> pending. \<exists>rid \<in> set (sg_region_ids sg). holds_violation g {v} rid}"
    if sg: "sg \<in> set subgraphs" for sg
  proof -
    obtain rvs where rvs: "regions_violations g (sg_region_ids sg) = Inr rvs"
      using regions_violations_total assms sg unfolding scopes_known_def by blast
    show ?thesis unfolding claim_of_def rvs using targets_of_set [OF rvs] by simp
  qed
  then obtain cs where cs: "map_result (claim_of g pending) subgraphs = Inr cs"
    using map_result_total by (metis (no_types, lifting))
  have all2: "list_all2 (\<lambda>sg c. fst c = sg_subgraph_id sg \<and>
      set (snd c) = {v \<in> pending. \<exists>rid \<in> set (sg_region_ids sg). holds_violation g {v} rid}) subgraphs cs"
    using map_result_list_all2 [OF cs] by (rule list.rel_mono_strong) (metis (no_types, lifting) one sum.inject(2))
  have ids: "map fst cs = map sg_subgraph_id subgraphs"
    using all2 by (induction rule: list_all2_induct) simp_all
  have dist: "distinct (map fst cs)" using assms unfolding ids scopes_known_def by blast
  have "set (dict_get_list (dict_of cs) (sg_subgraph_id sg)) =
      {v \<in> pending. \<exists>rid \<in> set (sg_region_ids sg). holds_violation g {v} rid}" if sg: "sg \<in> set subgraphs" for sg
  proof -
    obtain c where c: "c \<in> set cs" "fst c = sg_subgraph_id sg"
      "set (snd c) = {v \<in> pending. \<exists>rid \<in> set (sg_region_ids sg). holds_violation g {v} rid}"
      using list_all2_partner [OF all2 sg] by blast
    have "map_of cs (fst c) = Some (snd c)" using dist c(1) by simp
    then show ?thesis unfolding dict_of_distinct [OF dist] dict_get_list_def using c(2,3) by simp
  qed
  then show ?thesis unfolding claims_of_def cs by simp
qed

lemma window_regions_set:
  assumes "distinct (map sg_subgraph_id subgraphs)" "finite ids"
  shows "window_regions subgraphs ids =
    (\<Union>sg \<in> {sg \<in> set subgraphs. sg_subgraph_id sg \<in> ids}. set (sg_region_ids sg))"
proof -
  have "set (subgraph_regions subgraphs i) = (\<Union>sg \<in> {sg \<in> set subgraphs. sg_subgraph_id sg = i}. set (sg_region_ids sg))" for i
  proof (cases "subgraph_by_id subgraphs i")
    case None
    then have "\<not> (\<exists>sg. sg \<in> set subgraphs \<and> sg_subgraph_id sg = i)"
      by (simp add: subgraph_by_id_def find_None_iff)
    then have empty: "{sg \<in> set subgraphs. sg_subgraph_id sg = i} = {}" by blast
    show ?thesis unfolding subgraph_regions_def None empty by simp
  next
    case (Some sg)
    then have sg: "sg \<in> set subgraphs" "sg_subgraph_id sg = i" using subgraph_by_id_Some by blast+
    have "sg' = sg" if "sg' \<in> set subgraphs" "sg_subgraph_id sg' = i" for sg'
      using subgraph_by_id_distinct [OF assms(1) that(1)] that(2) Some by simp
    then have "{sg \<in> set subgraphs. sg_subgraph_id sg = i} = {sg}" using sg by blast
    then show ?thesis using Some by (simp add: subgraph_regions_def)
  qed
  note region_set = this
  have "window_regions subgraphs ids = (\<Union>i \<in> ids. set (subgraph_regions subgraphs i))"
    using assms(2) by (simp add: window_regions_def)
  then show ?thesis unfolding region_set by blast
qed

text \<open>What a window holds, and how far it reaches.\<close>

definition window_contents_ok :: "agent_graph \<Rightarrow> agent_subgraph list \<Rightarrow> window_request \<Rightarrow> active_window \<Rightarrow> bool" where
  "window_contents_ok g subgraphs q w \<longleftrightarrow>
     set (aw_region_ids w) =
       (\<Union>sg \<in> {sg \<in> set subgraphs. sg_subgraph_id sg \<in> set (aw_subgraph_ids w)}. set (sg_region_ids sg)) \<and>
     set (aw_frontier_violation_ids w) =
       {v \<in> pending_violations q. \<exists>rid \<in> set (aw_region_ids w). holds_violation g {v} rid} \<and>
     aw_frontier_violation_ids w \<noteq> [] \<and> aw_decision_region_ids w \<noteq> [] \<and>
     set (aw_decision_region_ids w) =
       {rid \<in> set (aw_region_ids w). holds_violation g (set (aw_frontier_violation_ids w)) rid} \<and>
     set (aw_helper_region_ids w) =
       (set (physical_arcs g (set (aw_region_ids w))))\<^sup>* `` set (aw_decision_region_ids w)
         - set (aw_decision_region_ids w) \<and>
     distinct (aw_decision_region_ids w @ aw_helper_region_ids w @ aw_context_only_region_ids w) \<and>
     set (aw_decision_region_ids w @ aw_helper_region_ids w @ aw_context_only_region_ids w)
       = set (aw_region_ids w) \<and>
     map ha_helper_region_id (aw_helper_assignments w) = aw_helper_region_ids w \<and>
     (\<forall>a \<in> set (aw_helper_assignments w). assignment_ok g (set (aw_decision_region_ids w))
        (set (aw_frontier_violation_ids w)) (wq_base_snapshot_id q) a)"

definition window_scope_ok :: "agent_graph \<Rightarrow> agent_subgraph list \<Rightarrow> window_request \<Rightarrow> active_window \<Rightarrow> bool" where
  "window_scope_ok g subgraphs q w \<longleftrightarrow>
     set (aw_subgraph_ids w) \<subseteq> sg_subgraph_id ` set subgraphs \<and>
     (\<exists>seed \<in> set (aw_subgraph_ids w).
        (let closure = (set (dp_hard (dependency_pairs_of g subgraphs)))\<^sup>* `` {seed}
         in closure \<subseteq> set (aw_subgraph_ids w) \<and>
            (set (aw_subgraph_ids w) = closure \<or> fits_budgets subgraphs q (set (aw_subgraph_ids w)))))"

definition no_pending_region :: "agent_graph \<Rightarrow> agent_subgraph list \<Rightarrow> window_request \<Rightarrow> bool" where
  "no_pending_region g subgraphs q \<longleftrightarrow>
     (\<forall>sg \<in> set subgraphs. \<forall>rid \<in> set (sg_region_ids sg). \<not> holds_violation g (pending_violations q) rid)"

lemma selected_subgraphs_facts:
  fixes g :: agent_graph and q :: window_request and claims :: "(string \<times> string list) list"
  assumes "eligible \<noteq> []" "set eligible \<subseteq> set subgraphs"
  defines "S \<equiv> selected_subgraphs g subgraphs q claims eligible"
  shows "S \<subseteq> sg_subgraph_id ` set subgraphs"
    "\<exists>sg \<in> set eligible. sg_subgraph_id sg \<in> S \<and>
       (let closure = (set (dp_hard (dependency_pairs_of g subgraphs)))\<^sup>* `` {sg_subgraph_id sg}
        in closure \<subseteq> S \<and> (S = closure \<or> fits_budgets subgraphs q S))"
proof -
  let ?deps = "dependency_pairs_of g subgraphs"
  let ?seed = "min_by (seed_key g (dp_hard ?deps) claims) (hd eligible) (tl eligible)"
  let ?closure = "hard_closure subgraphs (dp_hard ?deps) (sg_subgraph_id ?seed)"
  have S: "S = grow_window subgraphs q (dp_soft ?deps) claims ?closure"
    by (simp add: S_def selected_subgraphs_def Let_def)
  have seed: "?seed \<in> set eligible"
    using min_by_in [of "seed_key g (dp_hard ?deps) claims" "hd eligible" "tl eligible"] assms(1) by simp
  have "?closure \<subseteq> sg_subgraph_id ` set subgraphs"
    using seed assms(2) by (intro hard_closure_ids) blast
  then show "S \<subseteq> sg_subgraph_id ` set subgraphs"
    unfolding S using grow_window_facts(2) by blast
  have "?closure \<subseteq> S" "S = ?closure \<or> fits_budgets subgraphs q S"
    unfolding S by (rule grow_window_facts(1), rule grow_window_facts(3))
  moreover have "sg_subgraph_id ?seed \<in> ?closure" unfolding hard_closure_reachable by blast
  ultimately show "\<exists>sg \<in> set eligible. sg_subgraph_id sg \<in> S \<and>
      (let closure = (set (dp_hard ?deps))\<^sup>* `` {sg_subgraph_id sg}
       in closure \<subseteq> S \<and> (S = closure \<or> fits_budgets subgraphs q S))"
    using seed unfolding hard_closure_reachable Let_def by blast
qed

lemma assigned_roles_same:
  assumes "map ha_helper_region_id as = rr_helper roles" "sorted (rr_helper roles)" "distinct (rr_helper roles)"
    "sorted (rr_context roles)" "distinct (rr_context roles)"
  shows "assigned_roles roles as = roles"
proof -
  have "set (map ha_helper_region_id as) = set (rr_helper roles)" by (simp only: assms(1))
  then show ?thesis
    unfolding assigned_roles_def Let_def
    by (simp add: py_sorted_unique [OF assms(2,3)] py_sorted_unique [OF assms(4,5)])
qed

lemma select_active_window_result:
  assumes known: "scopes_known g subgraphs"
  shows "case select_active_window sh g subgraphs q of
     Inl _ \<Rightarrow> False
   | Inr None \<Rightarrow> no_pending_region g subgraphs q
   | Inr (Some w) \<Rightarrow> window_contents_ok g subgraphs q w \<and> window_scope_ok g subgraphs q w"
proof (cases "pending_violations q = {}")
  case True
  then show ?thesis
    by (auto simp: select_active_window_def no_pending_region_def holds_violation_def split: option.splits)
next
  case pending: False
  let ?P = "pending_violations q"
  obtain claims where claims: "claims_of g ?P subgraphs = Inr claims"
    "\<forall>sg \<in> set subgraphs. set (dict_get_list claims (sg_subgraph_id sg)) =
      {v \<in> ?P. \<exists>rid \<in> set (sg_region_ids sg). holds_violation g {v} rid}"
    using claims_of_result [OF known] by blast
  let ?eligible = "filter (\<lambda>sg. dict_get_list claims (sg_subgraph_id sg) \<noteq> []) subgraphs"
  have eligible: "sg \<in> set ?eligible \<longleftrightarrow>
      sg \<in> set subgraphs \<and> (\<exists>v \<in> ?P. \<exists>rid \<in> set (sg_region_ids sg). holds_violation g {v} rid)" for sg
  proof (cases "sg \<in> set subgraphs")
    case True
    then have eq: "set (dict_get_list claims (sg_subgraph_id sg)) =
        {v \<in> ?P. \<exists>rid \<in> set (sg_region_ids sg). holds_violation g {v} rid}" by (rule bspec [OF claims(2)])
    have "dict_get_list claims (sg_subgraph_id sg) \<noteq> [] \<longleftrightarrow>
        (\<exists>v. v \<in> set (dict_get_list claims (sg_subgraph_id sg)))"
      by (metis ex_in_conv set_empty)
    then have "dict_get_list claims (sg_subgraph_id sg) \<noteq> [] \<longleftrightarrow>
        (\<exists>v \<in> ?P. \<exists>rid \<in> set (sg_region_ids sg). holds_violation g {v} rid)"
      unfolding eq by blast
    then show ?thesis using True by simp
  qed simp
  show ?thesis
  proof (cases "?eligible = []")
    case True
    then have "no_pending_region g subgraphs q"
      unfolding no_pending_region_def using eligible holds_violation_single by (metis empty_iff list.set(1))
    then show ?thesis using pending True by (simp add: select_active_window_def claims(1) Let_def)
  next
    case False
    define S where "S = selected_subgraphs g subgraphs q claims ?eligible"
    have sub: "set ?eligible \<subseteq> set subgraphs" by auto
    note S = selected_subgraphs_facts [OF False sub, of g q claims, folded S_def]
    have finS: "finite S" by (rule finite_subset [OF S(1)]) simp
    have dist: "distinct (map sg_subgraph_id subgraphs)" using known by (simp add: scopes_known_def)
    define rids where "rids = py_sorted (window_regions subgraphs S)"
    define fr where "fr = py_sorted (set (concat (map (dict_get_list claims) (py_sorted S))))"
    have rids: "set rids = (\<Union>sg \<in> {sg \<in> set subgraphs. sg_subgraph_id sg \<in> S}. set (sg_region_ids sg))"
      unfolding rids_def window_regions_set [OF dist finS, symmetric] by (rule set_py_sorted) (simp add: window_regions_def)
    have "set fr = (\<Union>i \<in> S. set (dict_get_list claims i))" using finS by (simp add: fr_def)
    also have "\<dots> = (\<Union>sg \<in> {sg \<in> set subgraphs. sg_subgraph_id sg \<in> S}. set (dict_get_list claims (sg_subgraph_id sg)))"
      using S(1) by blast
    also have "\<dots> = {v \<in> ?P. \<exists>rid \<in> set rids. holds_violation g {v} rid}"
      unfolding rids using claims(2) by blast
    finally have fr: "set fr = {v \<in> ?P. \<exists>rid \<in> set rids. holds_violation g {v} rid}" .
    have "set rids \<subseteq> fst ` set (gr_regions g)" unfolding rids using known by (auto simp: scopes_known_def)
    then obtain roles where roles: "classify_window_region_roles g rids fr = Inr roles"
      using classify_total by blast
    note r = classify_facts [OF roles]
    obtain as where as: "build_helper_assignments g (rr_helper roles) (rr_decision roles) fr (wq_base_snapshot_id q) = Inr as"
      "map ha_helper_region_id as = rr_helper roles"
      "\<forall>a \<in> set as. assignment_ok g (set (rr_decision roles)) (set fr) (wq_base_snapshot_id q) a"
      using classified_helpers_assigned [OF roles] by blast
    have same: "assigned_roles roles as = roles"
      by (rule assigned_roles_same [OF as(2) r(7) _ r(8)]) (use r(5) in simp_all)
    define w where "w = make_window sh q S rids fr roles as
      (boundary_ids (dp_ids (dependency_pairs_of g subgraphs)) S)"
    have result: "select_active_window sh g subgraphs q = Inr (Some w)"
      using pending False
      unfolding select_active_window_def Let_def claims(1) bind_result_simps S_def [symmetric]
        rids_def [symmetric] fr_def [symmetric] roles as(1) same w_def
      by simp
    have fields: "aw_subgraph_ids w = py_sorted S" "aw_region_ids w = rids" "aw_frontier_violation_ids w = fr"
      "aw_decision_region_ids w = rr_decision roles" "aw_helper_region_ids w = rr_helper roles"
      "aw_context_only_region_ids w = rr_context roles" "aw_helper_assignments w = as"
      by (simp_all add: w_def make_window_def)
    have scope: "window_scope_ok g subgraphs q w"
      unfolding window_scope_ok_def fields set_py_sorted [OF finS] using S sub by blast
    obtain sg v rid where v: "sg \<in> set subgraphs" "sg_subgraph_id sg \<in> S" "v \<in> ?P" "rid \<in> set (sg_region_ids sg)"
      "holds_violation g {v} rid" using S(2) eligible by blast
    then have "v \<in> set fr" "rid \<in> set rids" using fr rids by blast+
    moreover from this have "rid \<in> set (rr_decision roles)"
      using v(5) r(1) holds_violation_mono by blast
    ultimately have nonempty: "fr \<noteq> []" "rr_decision roles \<noteq> []" by auto
    have cover: "set (rr_decision roles @ rr_helper roles @ rr_context roles) = set rids"
      using r(1,3,4) by auto
    have "window_contents_ok g subgraphs q w"
      unfolding window_contents_ok_def fields set_py_sorted [OF finS]
      by (intro conjI rids fr nonempty r(1) r(2) r(5) cover as(2) as(3))
    then show ?thesis using scope result by simp
  qed
qed

subsection \<open>Engineering views\<close>

lemma foldl_fixed:
  assumes "\<And>S x. S \<subseteq> f S x" "foldl f S xs = S"
  shows "x \<in> set xs \<Longrightarrow> f S x = S"
  using assms(2)
proof (induction xs)
  case (Cons y ys)
  have "f S y \<subseteq> foldl f (f S y) ys" by (rule foldl_grows [OF assms(1)])
  then have "f S y = S" using Cons.prems(2) assms(1) [of S y] by auto
  then show ?case using Cons by auto
qed simp

lemma expand_scopes_fixed:
  "selected \<subseteq> expand_scopes g subgraphs selected \<and>
   expansion_round g subgraphs (expand_scopes g subgraphs selected) = expand_scopes g subgraphs selected"
proof (induction g subgraphs selected rule: expand_scopes.induct)
  case (1 g subgraphs selected)
  show ?case
  proof (cases "expansion_round g subgraphs selected = selected")
    case True
    then show ?thesis by (simp add: expand_scopes.simps Let_def)
  next
    case False
    then have "expand_scopes g subgraphs selected = expand_scopes g subgraphs (expansion_round g subgraphs selected)"
      by (subst expand_scopes.simps) (simp add: Let_def)
    then show ?thesis using "1" [OF refl False] expansion_round_bounds(1) by (metis subset_trans)
  qed
qed

text \<open>A set that a round leaves as it is is closed in the three ways.\<close>

lemma expansion_round_closed:
  assumes fixed: "expansion_round g subgraphs S = S"
  shows "edge_expansion g S = S"
    "scope \<in> set subgraphs \<Longrightarrow> expand_whole_scope S scope = S"
    "scope \<in> set subgraphs \<Longrightarrow> expand_hard_scopes subgraphs (dp_hard (dependency_pairs_of g subgraphs)) S scope = S"
proof -
  let ?hard = "expand_hard_scopes subgraphs (dp_hard (dependency_pairs_of g subgraphs))"
  let ?whole = "foldl expand_whole_scope (edge_expansion g S) subgraphs"
  have round: "foldl ?hard ?whole subgraphs = S" using fixed by (simp add: expansion_round_def)
  have "?whole \<subseteq> foldl ?hard ?whole subgraphs" by (rule foldl_grows [OF expand_hard_scopes_bounds(1)])
  then have upper: "?whole \<subseteq> S" unfolding round .
  have lower: "edge_expansion g S \<subseteq> ?whole" by (rule foldl_grows [OF expand_whole_scope_bounds(1)])
  show edges: "edge_expansion g S = S"
    by (rule equalityI [OF subset_trans [OF lower upper] edge_expansion_bounds(1)])
  have whole: "?whole = S" by (rule equalityI [OF upper subset_trans [OF edge_expansion_bounds(1) lower]])
  then have "foldl expand_whole_scope S subgraphs = S" using edges by simp
  then show "scope \<in> set subgraphs \<Longrightarrow> expand_whole_scope S scope = S"
    by (rule foldl_fixed [OF expand_whole_scope_bounds(1)])
  have "foldl ?hard S subgraphs = S" using round whole by simp
  then show "scope \<in> set subgraphs \<Longrightarrow> ?hard S scope = S"
    by (rule foldl_fixed [OF expand_hard_scopes_bounds(1)])
qed

definition kept_regions :: "agent_subgraph list \<Rightarrow> string set" where
  "kept_regions views = set (concat (map sg_region_ids views))"

lemma kept_engineering:
  assumes "targets \<noteq> {}"
  shows "kept_regions (engineering_scope_views g subgraphs targets)
    = expand_scopes g subgraphs (target_regions g targets) \<inter> kept_regions subgraphs"
proof -
  let ?S = "expand_scopes g subgraphs (target_regions g targets)"
  have restrict: "set (sg_region_ids (restrict_scope g ?S sg)) = ?S \<inter> set (sg_region_ids sg)" for sg
    by (auto simp: restrict_scope_def Let_def)
  have views: "engineering_scope_views g subgraphs targets
      = filter (\<lambda>s. sg_region_ids s \<noteq> []) (map (restrict_scope g ?S) subgraphs)"
    using assms by (simp add: engineering_scope_views_def Let_def)
  have drop_empty: "kept_regions (filter (\<lambda>s. sg_region_ids s \<noteq> []) vs) = kept_regions vs" for vs
    by (induction vs) (auto simp: kept_regions_def)
  have "kept_regions (engineering_scope_views g subgraphs targets)
      = kept_regions (map (restrict_scope g ?S) subgraphs)" unfolding views by (rule drop_empty)
  also have "\<dots> = (\<Union>sg \<in> set subgraphs. set (sg_region_ids (restrict_scope g ?S sg)))"
    by (simp add: kept_regions_def)
  finally have "kept_regions (engineering_scope_views g subgraphs targets)
      = (\<Union>sg \<in> set subgraphs. set (sg_region_ids (restrict_scope g ?S sg)))" .
  then show ?thesis unfolding restrict by (auto simp: kept_regions_def)
qed

subsection \<open>Edges of a built graph\<close>

lemma hard_kinds: "hard_physical_evidence_kinds = physical_kinds"
  by (simp add: hard_physical_evidence_kinds_def physical_kinds_def)

lemma geometry_edge_evidence:
  assumes "e \<in> set (geometry_edges sh gb it ss l r)"
  shows "set (shared_object_item sh (e_hard e) (set (rg_editable_object_ids l) \<inter> set (rg_editable_object_ids r)))
      \<subseteq> set (e_evidence e)"
    "set (fst (pair_physical sh ss l r)) \<subseteq> set (e_evidence e)"
  using assms unfolding geometry_edges_def Let_def case_prod_beta in_singleton_if
  by (elim conjE, simp only: make_edge_simps set_append, blast)+

lemma geometry_edge_proven:
  assumes e: "e \<in> set (geometry_edges sh gb it ss l r)" and hard: "e_hard e"
  shows "\<exists>i \<in> set (e_evidence e). proves_dependency i"
proof (cases "ss = []")
  case True
  let ?shared = "set (rg_editable_object_ids l) \<inter> set (rg_editable_object_ids r)"
  have "?shared \<noteq> {}" using geometry_edge_hard [OF e] hard True by (simp add: must_share_scope_def)
  then obtain i where i: "i \<in> set (shared_object_item sh True ?shared)" "proves_dependency i"
    by (simp add: shared_object_item_def Let_def proves_dependency_def json_get_def)
  then show ?thesis using geometry_edge_evidence(1) [OF e] hard by auto
next
  case False
  have "snd (pair_physical sh ss l r)"
    using geometry_edge_hard [OF e] hard False pair_physical_hard by blast
  then obtain i where "i \<in> set (fst (pair_physical sh ss l r))" "ee_kind i \<in> set physical_kinds"
    using physical_hard_evidence [of sh] unfolding pair_physical_def by (auto split: option.splits)
  then show ?thesis
    using geometry_edge_evidence(2) [OF e] unfolding proves_dependency_def hard_kinds by blast
qed

lemma net_edge_unproven:
  assumes "e \<in> set (net_edges sh gb it l r)"
  shows "\<not> (\<exists>i \<in> set (e_evidence e). proves_dependency i)"
proof -
  have "\<exists>a b c. e_evidence e = [\<lparr>ee_evidence_id = a, ee_kind = b, ee_details = c\<rparr>] \<and>
      b \<in> {''shared_named_net'', ''shared_connectivity_component''}"
    using assms unfolding net_edges_def Let_def in_singleton_if
    by (elim conjE, simp only: make_edge_simps) (intro exI conjI, rule refl, simp)
  then show ?thesis by (auto simp: proves_dependency_def hard_physical_evidence_kinds_def)
qed

section \<open>Properties of the selection\<close>

text \<open>
  C33. On a graph that \<open>AgentGraphBuilder\<close> built, the evidence test with which the window recognises
  physical dependencies agrees with the edges' \<open>hard\<close> flag: an edge counts as proven dependency
  exactly when it is a hard geometry edge. A hard shared-net edge never makes a region a helper.
\<close>

theorem built_edges_proven:
  "case build_graph sh gb regions context ss of
     Inl _ \<Rightarrow> False
   | Inr g \<Rightarrow> set (physical_arcs g W) =
       {(u, v). \<exists>e \<in> set (gr_edges g). e_hard e \<and> e_relation e = RelGeometry \<and>
          {u, v} \<subseteq> W \<and> (u = e_u e \<and> v = e_v e \<or> u = e_v e \<and> v = e_u e)}"
proof (cases "build_graph sh gb regions context ss")
  case (Inl a)
  then show ?thesis unfolding build_graph_result by (simp add: Let_def)
next
  case (Inr g)
  have proven: "e_hard e \<and> (\<exists>i \<in> set (e_evidence e). proves_dependency i) \<longleftrightarrow> e_hard e \<and> e_relation e = RelGeometry"
    if e: "e \<in> set (gr_edges g)" for e
  proof -
    obtain p where p: "e \<in> set (pair_edges sh gb (case context of None \<Rightarrow> default_design_context | Some c \<Rightarrow> c) ss p)"
      using e unfolding build_graph_edges [OF Inr] by (rule UN_E)
    obtain l r where lr: "p = (l, r)" by (cases p)
    note rel = pair_edges_relation [OF p [unfolded lr]]
    show ?thesis
      using rel(1,2) geometry_edge_proven [OF rel(3)] net_edge_unproven [OF rel(4)] by (cases "e_relation e") blast+
  qed
  have "(u, v) \<in> set (physical_arcs g W) \<longleftrightarrow>
      (\<exists>e \<in> set (gr_edges g). e_hard e \<and> e_relation e = RelGeometry \<and>
          {u, v} \<subseteq> W \<and> (u = e_u e \<and> v = e_v e \<or> u = e_v e \<and> v = e_u e))" for u v
  proof -
    have "(u, v) \<in> set (physical_arcs g W) \<longleftrightarrow> (\<exists>e \<in> set (gr_edges g). (e_hard e \<and>
        (\<exists>i \<in> set (e_evidence e). proves_dependency i)) \<and> e_u e \<in> W \<and> e_v e \<in> W \<and>
        (u, v) \<in> set (both_ways (e_u e) (e_v e)))"
      unfolding physical_arcs_def in_concat_map set_filter by blast
    also have "\<dots> \<longleftrightarrow> (\<exists>e \<in> set (gr_edges g). (e_hard e \<and> e_relation e = RelGeometry) \<and>
        e_u e \<in> W \<and> e_v e \<in> W \<and> (u, v) \<in> set (both_ways (e_u e) (e_v e)))"
      using proven by (intro bex_cong refl) simp
    also have "\<dots> \<longleftrightarrow> (\<exists>e \<in> set (gr_edges g). e_hard e \<and> e_relation e = RelGeometry \<and>
          {u, v} \<subseteq> W \<and> (u = e_u e \<and> v = e_v e \<or> u = e_v e \<and> v = e_u e))"
      unfolding both_ways_def by (intro bex_cong refl) auto
    finally show ?thesis .
  qed
  then show ?thesis using Inr by (simp only: sum.case) auto
qed

text \<open>
  C21. When the subgraphs have distinct identifiers and their regions are nodes of the graph, the
  selection never fails. It returns no window exactly for want of a pending violation. A window's
  regions are those of its subgraphs, its frontier the pending violations in them, and it is not
  empty. The three roles are a partition of the regions: the decision regions are those with a
  frontier violation, the helpers those that a chain of proven hard edges inside the window links
  to a decision region, the rest is context. Every helper has exactly one assignment, which names
  the decision regions it can reach, their frontier violations, and evidence from hard edges.
\<close>

theorem active_window_contents:
  assumes "scopes_known g subgraphs"
  shows "case select_active_window sh g subgraphs q of
     Inl _ \<Rightarrow> False
   | Inr None \<Rightarrow> no_pending_region g subgraphs q
   | Inr (Some w) \<Rightarrow> window_contents_ok g subgraphs q w"
  using select_active_window_result [OF assms, where sh = sh and q = q] by (auto split: sum.splits option.splits)

text \<open>
  C30. A selected window contains some subgraph together with everything that depends on it through
  hard dependencies, directly or not; and either the window is just that closure, or it is within
  all three budgets: subgraphs, regions, and candidates. Only a closure that is too large by
  itself exceeds a budget.
\<close>

theorem active_window_scope:
  assumes "scopes_known g subgraphs" and "select_active_window sh g subgraphs q = Inr (Some w)"
  shows "window_scope_ok g subgraphs q w"
  using select_active_window_result [OF assms(1), where sh = sh and q = q] assms(2) by simp

text \<open>
  C34. The engineering restriction of a set of targets never cuts a dependency: the views keep every
  region with a target, both ends of a hard edge, all of a scope that is hierarchical, a planning
  view or has boundary dependencies, and all of the scopes that depend hard on a kept scope.
\<close>

theorem engineering_views_closed:
  assumes "targets \<noteq> {}"
  shows "target_regions g targets \<inter> kept_regions subgraphs
      \<subseteq> kept_regions (engineering_scope_views g subgraphs targets) \<and>
    (\<forall>e \<in> set (gr_edges g). e_hard e \<longrightarrow> {e_u e, e_v e} \<subseteq> kept_regions subgraphs \<longrightarrow>
      (e_u e \<in> kept_regions (engineering_scope_views g subgraphs targets) \<longleftrightarrow>
       e_v e \<in> kept_regions (engineering_scope_views g subgraphs targets))) \<and>
    (\<forall>scope \<in> set subgraphs.
      set (sg_region_ids scope) \<inter> kept_regions (engineering_scope_views g subgraphs targets) \<noteq> {} \<longrightarrow>
      sg_hierarchical scope \<or> sg_scope_kind scope \<noteq> ScopeFlat \<or> sg_boundary_dependency_ids scope \<noteq> [] \<longrightarrow>
      set (sg_region_ids scope) \<subseteq> kept_regions (engineering_scope_views g subgraphs targets)) \<and>
    (\<forall>scope \<in> set subgraphs. \<forall>i.
      set (sg_region_ids scope) \<inter> kept_regions (engineering_scope_views g subgraphs targets) \<noteq> {} \<longrightarrow>
      (sg_subgraph_id scope, i) \<in> set (dp_hard (dependency_pairs_of g subgraphs)) \<longrightarrow>
      set (subgraph_regions subgraphs i) \<subseteq> kept_regions (engineering_scope_views g subgraphs targets))"
proof (intro conjI ballI allI impI)
  define S where "S = expand_scopes g subgraphs (target_regions g targets)"
  have start: "target_regions g targets \<subseteq> S" and fixed: "expansion_round g subgraphs S = S"
    using expand_scopes_fixed unfolding S_def by blast+
  note closed = expansion_round_closed [OF fixed]
  note kept = kept_engineering [OF assms, of g subgraphs, folded S_def]
  show "target_regions g targets \<inter> kept_regions subgraphs
      \<subseteq> kept_regions (engineering_scope_views g subgraphs targets)"
    unfolding kept using start by blast
  show "e_u e \<in> kept_regions (engineering_scope_views g subgraphs targets) \<longleftrightarrow>
      e_v e \<in> kept_regions (engineering_scope_views g subgraphs targets)"
    if e: "e \<in> set (gr_edges g)" "e_hard e" "{e_u e, e_v e} \<subseteq> kept_regions subgraphs" for e
  proof -
    have "{e_u e, e_v e} \<subseteq> edge_expansion g S" if "e_u e \<in> S \<or> e_v e \<in> S"
      using e(1,2) that by (auto simp: edge_expansion_def)
    then show ?thesis unfolding kept closed(1) using e(3) by blast
  qed
  show "set (sg_region_ids scope) \<subseteq> kept_regions (engineering_scope_views g subgraphs targets)"
    if s: "scope \<in> set subgraphs" "set (sg_region_ids scope) \<inter> kept_regions (engineering_scope_views g subgraphs targets) \<noteq> {}"
      "sg_hierarchical scope \<or> sg_scope_kind scope \<noteq> ScopeFlat \<or> sg_boundary_dependency_ids scope \<noteq> []" for scope
  proof -
    have "\<exists>r \<in> set (sg_region_ids scope). r \<in> S" using s(2) unfolding kept by blast
    then have "set (sg_region_ids scope) \<subseteq> S"
      using closed(2) [OF s(1)] s(3) unfolding expand_whole_scope_def by auto
    then show ?thesis unfolding kept using s(1) by (auto simp: kept_regions_def)
  qed
  show "set (subgraph_regions subgraphs i) \<subseteq> kept_regions (engineering_scope_views g subgraphs targets)"
    if s: "scope \<in> set subgraphs" "set (sg_region_ids scope) \<inter> kept_regions (engineering_scope_views g subgraphs targets) \<noteq> {}"
      "(sg_subgraph_id scope, i) \<in> set (dp_hard (dependency_pairs_of g subgraphs))" for scope i
  proof -
    have meets: "\<exists>r \<in> set (sg_region_ids scope). r \<in> S" using s(2) unfolding kept by blast
    have "set (subgraph_regions subgraphs i) \<subseteq> S"
      using closed(3) [OF s(1)] meets s(3) unfolding expand_hard_scopes_def by auto
    then show ?thesis unfolding kept using subgraph_regions_bound [of subgraphs i] by (auto simp: kept_regions_def)
  qed
qed

subsection \<open>An example\<close>

definition plain_edge :: "string \<Rightarrow> string \<Rightarrow> string \<Rightarrow> bool \<Rightarrow> edge_evidence list \<Rightarrow> agent_edge" where
  "plain_edge eid u v hard ev =
     \<lparr>e_edge_id = eid, e_u = u, e_v = v, e_relation = RelGeometry, e_score = 1, e_hard = hard,
      e_directed = False, e_evidence = ev, e_confidence = 1, e_created_iteration = 0,
      e_last_validated_iteration = 0\<rparr>"

definition plain_subgraph :: "string \<Rightarrow> string list \<Rightarrow> agent_subgraph" where
  "plain_subgraph sid rids =
     \<lparr>sg_subgraph_id = sid, sg_region_ids = rids, sg_edge_ids = [], sg_hierarchical = False,
      sg_scope_kind = ScopeFlat, sg_physical_scope_id = None, sg_solver_scope_id = None,
      sg_planning_view_id = None, sg_boundary_dependency_ids = [], sg_priority = 0\<rparr>"

text \<open>
  Regions \<open>r1\<close> and \<open>h1\<close> in one subgraph, joined by a proven hard edge; a soft edge to \<open>r2\<close>, and a
  hard edge from \<open>r2\<close> to \<open>r3\<close>, each in a subgraph of its own. Only \<open>r1\<close> has a violation.
\<close>

definition window_graph :: agent_graph where
  "window_graph =
     \<lparr>gr_regions = [(''r1'', plain_region ''r1'' [] [''v1'']), (''h1'', plain_region ''h1'' [] []),
                    (''r2'', plain_region ''r2'' [] []), (''r3'', plain_region ''r3'' [] [])],
      gr_boundary_dependencies = [], gr_planning_views = [], gr_hierarchy_scopes = [],
      gr_active_scopes = [], gr_observability = [], gr_potential_access_summaries = [],
      gr_edges =
        [plain_edge ''e1'' ''h1'' ''r1'' True [\<lparr>ee_evidence_id = ''p1'', ee_kind = ''same_writable_occurrence'', ee_details = []\<rparr>],
         plain_edge ''e2'' ''r1'' ''r2'' False [], plain_edge ''e3'' ''r2'' ''r3'' True []]\<rparr>"

definition window_subgraphs :: "agent_subgraph list" where
  "window_subgraphs = [plain_subgraph ''s1'' [''r1'', ''h1''], plain_subgraph ''s2'' [''r2''],
     plain_subgraph ''s3'' [''r3'']]"

definition window_request_example :: window_request where
  "window_request_example = \<lparr>wq_iteration = 1, wq_window_index = 0, wq_base_snapshot_id = ''d0'',
     wq_iteration_frontier = {''v1''}, wq_processed_frontier = {}, wq_current = {''v1''},
     wq_max_parallel_subgraphs = 2, wq_max_active_regions = 4, wq_top_k_candidates_including_noop = 4,
     wq_max_non_noop_actions_per_batch = 5\<rparr>"

lemma window_example_known: "scopes_known window_graph window_subgraphs"
  by (simp add: scopes_known_def window_graph_def window_subgraphs_def plain_subgraph_def)

lemma window_example_run:
  "map_option (\<lambda>w. (aw_subgraph_ids w, aw_decision_region_ids w, aw_helper_region_ids w,
       aw_context_only_region_ids w, aw_hard_dependency_closure w))
     (projr (select_active_window (\<lambda>_. []) window_graph window_subgraphs window_request_example))
   = Some ([''s1'', ''s2''], [''r1''], [''h1''], [''r2''], True)"
  by code_simp

lemma window_example_result:
  obtains w where
    "select_active_window (\<lambda>_. []) window_graph window_subgraphs window_request_example = Inr (Some w)"
    "aw_subgraph_ids w = [''s1'', ''s2'']" "aw_helper_region_ids w = [''h1'']"
    "aw_hard_dependency_closure w"
proof -
  define r where "r = select_active_window (\<lambda>_. []) window_graph window_subgraphs window_request_example"
  have run: "map_option (\<lambda>w. (aw_subgraph_ids w, aw_decision_region_ids w, aw_helper_region_ids w,
       aw_context_only_region_ids w, aw_hard_dependency_closure w)) (projr r)
     = Some ([''s1'', ''s2''], [''r1''], [''h1''], [''r2''], True)"
    unfolding r_def by (rule window_example_run)
  have "case r of Inl _ \<Rightarrow> False | Inr _ \<Rightarrow> True"
    using select_active_window_result [OF window_example_known, where sh = "\<lambda>_. []" and q = window_request_example,
        folded r_def] by (cases r) simp_all
  then obtain w where w: "r = Inr (Some w)"
    using run by (cases r; cases "projr r") simp_all
  then show ?thesis using that [of w] run unfolding r_def by simp
qed

text \<open>
  C36. The field \<open>hard_dependency_closure\<close> of a window may be wrong: the subgraphs that the window takes
  in along soft dependencies bring their own hard dependencies, which are not followed. In the
  example the window holds \<open>s1\<close> and \<open>s2\<close> and says that it is closed, but \<open>s2\<close> depends hard on
  \<open>s3\<close>, which is left out although it is a subgraph.
\<close>

theorem hard_closure_flag_wrong:
  "\<exists>g subgraphs q w. scopes_known g subgraphs \<and>
     select_active_window (\<lambda>_. []) g subgraphs q = Inr (Some w) \<and> aw_hard_dependency_closure w \<and>
     \<not> set (dp_hard (dependency_pairs_of g subgraphs)) `` set (aw_subgraph_ids w) \<subseteq> set (aw_subgraph_ids w)"
proof -
  obtain w where w: "select_active_window (\<lambda>_. []) window_graph window_subgraphs window_request_example = Inr (Some w)"
    "aw_subgraph_ids w = [''s1'', ''s2'']" "aw_hard_dependency_closure w"
    by (rule window_example_result)
  have "(''s2'', ''s3'') \<in> set (dp_hard (dependency_pairs_of window_graph window_subgraphs))"
    by code_simp
  then have "\<not> set (dp_hard (dependency_pairs_of window_graph window_subgraphs)) `` set (aw_subgraph_ids w)
      \<subseteq> set (aw_subgraph_ids w)" unfolding w(2) by auto
  then show ?thesis using window_example_known w by blast
qed

lemma active_window_contents_witness:
  "\<exists>w. select_active_window (\<lambda>_. []) window_graph window_subgraphs window_request_example = Inr (Some w) \<and>
     window_contents_ok window_graph window_subgraphs window_request_example w"
proof -
  obtain w where w: "select_active_window (\<lambda>_. []) window_graph window_subgraphs window_request_example = Inr (Some w)"
    by (rule window_example_result)
  then show ?thesis
    using active_window_contents [OF window_example_known, where sh = "\<lambda>_. []" and q = window_request_example] by simp
qed

lemma active_window_scope_witness:
  "\<exists>w. select_active_window (\<lambda>_. []) window_graph window_subgraphs window_request_example = Inr (Some w) \<and>
     window_scope_ok window_graph window_subgraphs window_request_example w"
proof -
  obtain w where w: "select_active_window (\<lambda>_. []) window_graph window_subgraphs window_request_example = Inr (Some w)"
    by (rule window_example_result)
  then show ?thesis using active_window_scope [OF window_example_known w] by blast
qed

lemma engineering_views_closed_witness:
  "''h1'' \<in> kept_regions (engineering_scope_views window_graph window_subgraphs {''v1''})"
proof -
  have "''r1'' \<in> target_regions window_graph {''v1''}" "''r1'' \<in> kept_regions window_subgraphs"
    by (simp_all add: target_regions_def window_graph_def kept_regions_def window_subgraphs_def plain_subgraph_def)
  then have r1: "''r1'' \<in> kept_regions (engineering_scope_views window_graph window_subgraphs {''v1''})"
    using engineering_views_closed [of "{''v1''}" window_graph window_subgraphs] by blast
  have e1: "hd (gr_edges window_graph) \<in> set (gr_edges window_graph)" "e_hard (hd (gr_edges window_graph))"
    "e_u (hd (gr_edges window_graph)) = ''h1''" "e_v (hd (gr_edges window_graph)) = ''r1''"
    by (simp_all add: window_graph_def plain_edge_def)
  have kept: "{e_u (hd (gr_edges window_graph)), e_v (hd (gr_edges window_graph))} \<subseteq> kept_regions window_subgraphs"
    unfolding e1(3,4) by (simp add: kept_regions_def window_subgraphs_def plain_subgraph_def)
  have "e_u (hd (gr_edges window_graph)) \<in> kept_regions (engineering_scope_views window_graph window_subgraphs {''v1''}) \<longleftrightarrow>
      e_v (hd (gr_edges window_graph)) \<in> kept_regions (engineering_scope_views window_graph window_subgraphs {''v1''})"
    using engineering_views_closed [of "{''v1''}" window_graph window_subgraphs] e1(1,2) kept by blast
  then show ?thesis unfolding e1(3,4) using r1 by blast
qed

end
