(* ===== verification/Window_Coordination.thy ===== *)
theory Window_Coordination
  imports Active_Window
begin

text \<open>
  The coordination of an active window (\<open>coordinate_active_window\<close> in
  \<open>src/drc_agent/workflow/active_window.py\<close>): solve the candidate graph of the window, compile the
  selected bundle into a patch plan, run it in the sandbox, accept it only on complete and clean
  evidence that belongs to exactly this bundle, and otherwise exclude the bundle and try again with
  fewer repairs, within bounds on rounds and sandbox jobs.

  The compiled modules that the function calls are parameters, collected in \<open>window_env\<close>: the
  builder of the candidate graph, the solver, the patch compiler, the sandbox, the test of complete
  physical truth, and the two digests. The sandbox is an effect, so its answer may depend on the
  number of jobs run before. The loop's mutable variables are \<open>loop_state\<close>; the graph grows by the
  excluded sets only.
\<close>

datatype compile_outcome = Compiled patch_plan | CompileFailed string

datatype sandbox_outcome =
    SandboxEvidenceResult sandbox_evidence
  | SandboxInfrastructure string
  | SandboxException string

record window_env =
  env_build :: "repair_candidate list \<Rightarrow> string \<Rightarrow> (string \<times> int) list \<Rightarrow> candidate_graph result"
  env_solve :: "candidate_graph \<Rightarrow> int \<Rightarrow> joint_repair_bundle result"
  env_compile :: "joint_repair_bundle \<Rightarrow> compile_outcome"
  env_sandbox :: "nat \<Rightarrow> repair_candidate list \<Rightarrow> patch_plan \<Rightarrow> sandbox_outcome"
  env_complete :: "sandbox_evidence \<Rightarrow> bool"
  env_fingerprint :: "repair_candidate \<Rightarrow> string"
  env_plan_digest :: "patch_plan \<Rightarrow> string"
  env_digest :: "json \<Rightarrow> string"

record window_inputs =
  wi_window :: active_window
  wi_candidates :: "repair_candidate list"
  wi_snapshot :: design_snapshot
  wi_config :: app_config
  wi_resource_capacities :: "(string \<times> int) list"
  wi_sandbox_jobs_remaining :: int
  wi_rule_deck_sha256 :: string
  wi_evaluator_sha256 :: string

record window_coordination =
  wc_status :: "string"
  wc_candidate_graph :: "candidate_graph"
  wc_bundle :: "joint_repair_bundle option"
  wc_patch_plan :: "patch_plan option"
  wc_sandbox_evidence :: "sandbox_evidence option"
  wc_master_batches :: "transaction_batch list"
  wc_rounds :: "int"
  wc_no_good_count :: "int"
  wc_sandbox_jobs_used :: "int"
  wc_evidence_reused :: "bool"
  wc_failure_codes :: "string list option"
  wc_selection_cardinality_caps_tried :: "int list option"
  wc_selected_non_noop_counts :: "int list option"
  wc_backoff_count :: "int"

subsection \<open>Evidence (exact\_isolated\_evidence\_matches)\<close>

definition connectivity_sha256 :: "design_snapshot \<Rightarrow> string option" where
  "connectivity_sha256 s = map_option ar_sha256 (ds_connectivity_ref s)"

definition exact_isolated_evidence_matches ::
    "window_env \<Rightarrow> window_inputs \<Rightarrow> repair_candidate \<Rightarrow> patch_plan \<Rightarrow> bool" where
  "exact_isolated_evidence_matches env inp candidate plan \<longleftrightarrow>
     (let evidence = be_sandbox (c_benefit_evidence candidate); snapshot = wi_snapshot inp
      in env_complete env evidence \<and>
         se_status evidence = SandboxCleanProgress \<and>
         se_base_snapshot_id evidence = Some (ds_snapshot_id snapshot) \<and>
         se_scope evidence = ScopeIsolatedCandidate \<and>
         se_candidate_ids evidence = [c_candidate_id candidate] \<and>
         se_base_script_sha256 evidence = Some (ar_sha256 (ds_script_ref snapshot)) \<and>
         se_physical_effect_fingerprint evidence = Some (env_fingerprint env candidate) \<and>
         se_patch_plan_sha256 evidence = Some (env_plan_digest env plan) \<and>
         se_rule_deck_sha256 evidence = Some (wi_rule_deck_sha256 inp) \<and>
         se_evaluator_sha256 evidence = Some (wi_evaluator_sha256 inp) \<and>
         se_connectivity_reference_sha256 evidence = connectivity_sha256 snapshot \<and>
         (case se_removed_original_count evidence of None \<Rightarrow> False | Some n \<Rightarrow> 0 < n) \<and>
         se_new_violation_count evidence = Some 0 \<and>
         se_connectivity_preserved evidence = Some True)"

text \<open>The scope that the evidence of a selection must have, and the test that it belongs to it.\<close>

definition expected_scope :: "repair_candidate list \<Rightarrow> sandbox_scope" where
  "expected_scope selected = (if length selected \<ge> 2 then ScopeJointBundle else ScopeIsolatedCandidate)"

definition sorted_ids :: "repair_candidate list \<Rightarrow> string list" where
  "sorted_ids selected = sort (map c_candidate_id selected)"

definition identity_matches ::
    "window_env \<Rightarrow> window_inputs \<Rightarrow> repair_candidate list \<Rightarrow> patch_plan \<Rightarrow> sandbox_evidence \<Rightarrow> bool" where
  "identity_matches env inp selected plan evidence \<longleftrightarrow>
     se_scope evidence = expected_scope selected \<and>
     se_base_snapshot_id evidence = Some (ds_snapshot_id (wi_snapshot inp)) \<and>
     se_candidate_ids evidence = sorted_ids selected \<and>
     se_patch_plan_sha256 evidence = Some (env_plan_digest env plan) \<and>
     se_rule_deck_sha256 evidence = Some (wi_rule_deck_sha256 inp) \<and>
     se_evaluator_sha256 evidence = Some (wi_evaluator_sha256 inp) \<and>
     se_connectivity_reference_sha256 evidence = connectivity_sha256 (wi_snapshot inp)"

text \<open>
  The condition for accepting the evidence. Its comparison \<open>removed_original_count > 0\<close> raises a
  \<open>TypeError\<close> when the count is \<open>None\<close>.
\<close>

definition accepts_evidence ::
    "window_env \<Rightarrow> window_inputs \<Rightarrow> repair_candidate list \<Rightarrow> patch_plan \<Rightarrow> sandbox_evidence \<Rightarrow> bool result" where
  "accepts_evidence env inp selected plan evidence =
     (if env_complete env evidence \<and> se_status evidence = SandboxCleanProgress \<and>
         identity_matches env inp selected plan evidence
      then (case se_removed_original_count evidence of
              None \<Rightarrow> Inl (TypeError ''NoneType > int'')
            | Some n \<Rightarrow> Inr (n > 0 \<and> se_new_violation_count evidence = Some 0 \<and>
                            se_connectivity_preserved evidence = Some True))
      else Inr False)"

fun sandbox_status_text :: "sandbox_status \<Rightarrow> string" where
  "sandbox_status_text SandboxNotRun = ''NOT_RUN''"
| "sandbox_status_text SandboxCleanProgress = ''CLEAN_PROGRESS''"
| "sandbox_status_text SandboxNoProgress = ''NO_PROGRESS''"
| "sandbox_status_text SandboxOffTargetEffect = ''OFF_TARGET_EFFECT''"
| "sandbox_status_text SandboxRegression = ''REGRESSION''"
| "sandbox_status_text SandboxConnectivityFail = ''CONNECTIVITY_FAIL''"
| "sandbox_status_text SandboxExecutionFail = ''EXECUTION_FAIL''"
| "sandbox_status_text SandboxTimeout = ''TIMEOUT''"

subsection \<open>The loop\<close>

record loop_state =
  lp_graph :: "candidate_graph"
  lp_no_goods :: "int"
  lp_jobs :: "nat"
  lp_failures :: "string list"
  lp_caps :: "int list"
  lp_counts :: "int list"
  lp_backoff :: "int"
  lp_retried :: "nat set"
  lp_cap :: "int"

text \<open>How a round ends: by a \<open>return\<close>, a \<open>break\<close> or the next round.\<close>

datatype round_outcome =
    RoundReturn window_coordination
  | RoundBreak loop_state
  | RoundContinue loop_state

definition coordination ::
    "loop_state \<Rightarrow> string \<Rightarrow> joint_repair_bundle option \<Rightarrow> patch_plan option \<Rightarrow> sandbox_evidence option \<Rightarrow>
     transaction_batch list \<Rightarrow> int \<Rightarrow> bool \<Rightarrow> window_coordination" where
  "coordination s status bundle plan evidence batches rounds reused =
     \<lparr>wc_status = status, wc_candidate_graph = lp_graph s, wc_bundle = bundle, wc_patch_plan = plan,
      wc_sandbox_evidence = evidence, wc_master_batches = batches, wc_rounds = rounds,
      wc_no_good_count = lp_no_goods s, wc_sandbox_jobs_used = int (lp_jobs s),
      wc_evidence_reused = reused, wc_failure_codes = Some (lp_failures s),
      wc_selection_cardinality_caps_tried = Some (lp_caps s),
      wc_selected_non_noop_counts = Some (lp_counts s), wc_backoff_count = lp_backoff s\<rparr>"

definition no_safe_bundle :: "loop_state \<Rightarrow> sandbox_evidence option \<Rightarrow> int \<Rightarrow> window_coordination" where
  "no_safe_bundle s evidence rounds = coordination s ''NO_SAFE_BUNDLE'' None None evidence [] rounds False"

definition add_failure :: "string \<Rightarrow> loop_state \<Rightarrow> loop_state" where
  "add_failure code s = s\<lparr>lp_failures := lp_failures s @ [code]\<rparr>"

text \<open>Exclude exactly this set of candidates from the following solutions.\<close>

definition exclude :: "repair_candidate list \<Rightarrow> loop_state \<Rightarrow> loop_state" where
  "exclude selected s =
     s\<lparr>lp_graph := (lp_graph s)\<lparr>cg_no_good_candidate_sets :=
         cg_no_good_candidate_sets (lp_graph s) @ [sorted_ids selected]\<rparr>,
       lp_no_goods := lp_no_goods s + 1\<rparr>"

definition back_off :: "repair_candidate list \<Rightarrow> loop_state \<Rightarrow> round_outcome" where
  "back_off selected s =
     (let next_cap = min (lp_cap s - 1) (int (length selected) - 1)
      in if next_cap < 1 then RoundBreak s
         else RoundContinue (s\<lparr>lp_cap := next_cap, lp_backoff := lp_backoff s + 1\<rparr>))"

definition exceeds_transaction :: "window_inputs \<Rightarrow> repair_candidate list \<Rightarrow> bool" where
  "exceeds_transaction inp selected \<longleftrightarrow>
     (let config = app_transaction (wi_config inp)
      in int (length selected) > txc_max_non_noop_actions_per_batch config \<or>
         int (card (set (concat (map candidate_objects selected)))) > txc_max_modified_objects_per_batch config)"

text \<open>Whether a different bundle of the same size is left, and there is room to try it.\<close>

definition alternate_same_cardinality ::
    "window_env \<Rightarrow> window_inputs \<Rightarrow> int \<Rightarrow> repair_candidate list \<Rightarrow> loop_state \<Rightarrow> bool result" where
  "alternate_same_cardinality env inp rounds_remaining selected s =
     (let cardinality = length selected
      in if cardinality > 1 \<and> cardinality \<notin> lp_retried s \<and> rounds_remaining \<ge> int cardinality \<and>
            int (lp_jobs s) < wi_sandbox_jobs_remaining inp
         then bind_result (env_solve env (lp_graph s) (int cardinality)) (\<lambda>alternate.
                Inr (length (bundle_selection (wi_candidates inp) alternate) = cardinality))
         else Inr False)"

definition reject_evidence ::
    "window_env \<Rightarrow> window_inputs \<Rightarrow> int \<Rightarrow> repair_candidate list \<Rightarrow> sandbox_evidence \<Rightarrow> loop_state \<Rightarrow>
     round_outcome result" where
  "reject_evidence env inp rounds_remaining selected evidence s =
     (if \<not> env_complete env evidence then Inr (back_off selected s)
      else let s' = exclude selected s
           in bind_result (alternate_same_cardinality env inp rounds_remaining selected s') (\<lambda>alternate.
                Inr (if alternate
                     then RoundContinue (s'\<lparr>lp_retried := insert (length selected) (lp_retried s'),
                            lp_cap := int (length selected)\<rparr>)
                     else back_off selected s')))"

definition verified_bundle :: "joint_repair_bundle \<Rightarrow> sandbox_evidence \<Rightarrow> joint_repair_bundle" where
  "verified_bundle bundle evidence =
     bundle\<lparr>jb_sandbox_status := SandboxCleanProgress,
            jb_sandbox_verification_ref := se_verification_ref evidence\<rparr>"

definition window_batches :: "window_env \<Rightarrow> window_inputs \<Rightarrow> joint_repair_bundle \<Rightarrow> transaction_batch list" where
  "window_batches env inp bundle =
     schedule (env_digest env) [bundle] (wi_candidates inp) (wi_snapshot inp) (app_transaction (wi_config inp))"

definition one_batch_of :: "repair_candidate list \<Rightarrow> transaction_batch list \<Rightarrow> bool" where
  "one_batch_of selected batches \<longleftrightarrow>
     length batches = 1 \<and> sort (tb_candidate_ids (hd batches)) = sorted_ids selected"

text \<open>What the evidence of a round means for it.\<close>

definition judge_evidence ::
    "window_env \<Rightarrow> window_inputs \<Rightarrow> int \<Rightarrow> int \<Rightarrow> joint_repair_bundle \<Rightarrow> repair_candidate list \<Rightarrow> patch_plan \<Rightarrow>
     bool \<Rightarrow> sandbox_evidence \<Rightarrow> loop_state \<Rightarrow> round_outcome result" where
  "judge_evidence env inp max_rounds round_index bundle selected plan reused evidence s =
     (if \<not> env_complete env evidence
      then Inr (RoundReturn (no_safe_bundle
             (add_failure (case se_failure_code evidence of
                Some (c # cs) \<Rightarrow> c # cs | _ \<Rightarrow> ''WINDOW_SANDBOX_INFRASTRUCTURE'') s)
             (Some evidence) round_index))
      else if \<not> identity_matches env inp selected plan evidence
      then Inl (InfrastructureFailure ''WINDOW_EVIDENCE_IDENTITY_MISMATCH'')
      else bind_result (accepts_evidence env inp selected plan evidence) (\<lambda>accepted.
        if accepted
        then let verified = verified_bundle bundle evidence;
                 batches = window_batches env inp verified
             in if one_batch_of selected batches
                then Inr (RoundReturn (coordination s ''SAFE'' (Some verified) (Some plan) (Some evidence)
                       batches round_index reused))
                else reject_evidence env inp (max_rounds - round_index) selected evidence
                       (add_failure ''WINDOW_MASTER_BATCH_CARDINALITY'' s)
        else reject_evidence env inp (max_rounds - round_index) selected evidence
               (add_failure (''WINDOW_JOINT_'' @ sandbox_status_text (se_status evidence)) s)))"

definition run_selection ::
    "window_env \<Rightarrow> window_inputs \<Rightarrow> int \<Rightarrow> int \<Rightarrow> joint_repair_bundle \<Rightarrow> repair_candidate list \<Rightarrow> patch_plan \<Rightarrow>
     loop_state \<Rightarrow> round_outcome result" where
  "run_selection env inp max_rounds round_index bundle selected plan s =
     (if length selected = 1 \<and>
         rki_reuse_verified_kernel_evidence (app_repair_kernel_integration (wi_config inp)) \<and>
         exact_isolated_evidence_matches env inp (hd selected) plan
      then judge_evidence env inp max_rounds round_index bundle selected plan True
             (be_sandbox (c_benefit_evidence (hd selected))) s
      else if int (lp_jobs s) \<ge> wi_sandbox_jobs_remaining inp
      then Inr (RoundBreak (add_failure ''ITERATION_SANDBOX_BUDGET_EXHAUSTED'' s))
      else (case env_sandbox env (lp_jobs s) selected plan of
              SandboxInfrastructure message \<Rightarrow> Inl (InfrastructureFailure message)
            | SandboxException name \<Rightarrow>
                Inr (RoundReturn (no_safe_bundle
                  (add_failure (''WINDOW_SANDBOX_INFRASTRUCTURE:'' @ name) s) None round_index))
            | SandboxEvidenceResult evidence \<Rightarrow>
                judge_evidence env inp max_rounds round_index bundle selected plan False evidence
                  (s\<lparr>lp_jobs := Suc (lp_jobs s)\<rparr>)))"

definition coordinate_round ::
    "window_env \<Rightarrow> window_inputs \<Rightarrow> int \<Rightarrow> int \<Rightarrow> loop_state \<Rightarrow> round_outcome result" where
  "coordinate_round env inp max_rounds round_index s =
     bind_result (env_solve env (lp_graph s) (lp_cap s)) (\<lambda>bundle.
       let selected = bundle_selection (wi_candidates inp) bundle;
           s1 = s\<lparr>lp_caps := lp_caps s @ [lp_cap s], lp_counts := lp_counts s @ [int (length selected)]\<rparr>
       in if selected = []
          then Inr (RoundReturn (coordination s1 ''NO_OP'' (Some bundle) None None [] round_index False))
          else if exceeds_transaction inp selected
          then Inr (back_off selected (add_failure ''WINDOW_TRANSACTION_CAP_EXCEEDED'' (exclude selected s1)))
          else (case env_compile env bundle of
                  CompileFailed name \<Rightarrow>
                    Inr (back_off selected
                      (add_failure (''WINDOW_BUNDLE_COMPILE_FAIL:'' @ name) (exclude selected s1)))
                | Compiled plan \<Rightarrow> run_selection env inp max_rounds round_index bundle selected plan s1))"

definition give_up :: "loop_state \<Rightarrow> window_coordination" where
  "give_up s = no_safe_bundle s None (int (length (lp_caps s)))"

fun coordinate_rounds ::
    "window_env \<Rightarrow> window_inputs \<Rightarrow> int \<Rightarrow> int list \<Rightarrow> loop_state \<Rightarrow> window_coordination result" where
  "coordinate_rounds env inp max_rounds [] s = Inr (give_up s)"
| "coordinate_rounds env inp max_rounds (round_index # rest) s =
     bind_result (coordinate_round env inp max_rounds round_index s) (\<lambda>outcome.
       case outcome of
         RoundReturn w \<Rightarrow> Inr w
       | RoundBreak s' \<Rightarrow> Inr (give_up s')
       | RoundContinue s' \<Rightarrow> coordinate_rounds env inp max_rounds rest s')"

definition initial_loop :: "app_config \<Rightarrow> candidate_graph \<Rightarrow> loop_state" where
  "initial_loop config g =
     \<lparr>lp_graph = g, lp_no_goods = 0, lp_jobs = 0, lp_failures = [], lp_caps = [], lp_counts = [],
      lp_backoff = 0, lp_retried = {},
      lp_cap = min (txc_max_non_noop_actions_per_batch (app_transaction config))
        (cec_joint_sandbox_max_bundle_size (app_candidate_evidence config))\<rparr>"

definition coordinate_active_window :: "window_env \<Rightarrow> window_inputs \<Rightarrow> window_coordination result" where
  "coordinate_active_window env inp =
     bind_result (env_build env (wi_candidates inp) (aw_window_id (wi_window inp)) (wi_resource_capacities inp))
       (\<lambda>g. let max_rounds = cec_joint_sandbox_max_rounds (app_candidate_evidence (wi_config inp))
        in if max_rounds \<le> 0
           then Inr ((coordination (initial_loop (wi_config inp) g) ''NO_SAFE_BUNDLE'' None None None [] 0 False)
                  \<lparr>wc_failure_codes := Some [''JOINT_SANDBOX_ROUNDS_EXHAUSTED''],
                   wc_selection_cardinality_caps_tried := None, wc_selected_non_noop_counts := None\<rparr>)
           else coordinate_rounds env inp max_rounds [1..max_rounds] (initial_loop (wi_config inp) g))"

section \<open>What the coordination guarantees\<close>

text \<open>
  The state of the loop after \<open>r\<close> solutions, of which at most \<open>k\<close> were excluded and at most \<open>j\<close> run.
\<close>

definition loop_inv :: "window_inputs \<Rightarrow> candidate_graph \<Rightarrow> int \<Rightarrow> int \<Rightarrow> int \<Rightarrow> loop_state \<Rightarrow> bool" where
  "loop_inv inp g r j k s \<longleftrightarrow>
     int (length (lp_caps s)) = r \<and> length (lp_counts s) = length (lp_caps s) \<and>
     int (lp_jobs s) \<le> j \<and> (lp_jobs s = 0 \<or> int (lp_jobs s) \<le> wi_sandbox_jobs_remaining inp) \<and>
     0 \<le> lp_no_goods s \<and> lp_no_goods s \<le> k \<and>
     (\<exists>xs. lp_graph s = g\<lparr>cg_no_good_candidate_sets := cg_no_good_candidate_sets g @ xs\<rparr> \<and>
           int (length xs) = lp_no_goods s)"

lemma loop_inv_add_failure [inv_intros]: "loop_inv inp g r j k s \<Longrightarrow> loop_inv inp g r j k (add_failure c s)"
  by (simp add: loop_inv_def add_failure_def)

lemma loop_inv_exclude [inv_intros]: "loop_inv inp g r j k s \<Longrightarrow> loop_inv inp g r j (k + 1) (exclude selected s)"
  by (fastforce simp: loop_inv_def exclude_def)

lemma loop_inv_cap: "loop_inv inp g r j k (s\<lparr>lp_cap := c, lp_backoff := b\<rparr>) = loop_inv inp g r j k s"
  "loop_inv inp g r j k (s\<lparr>lp_retried := R, lp_cap := c\<rparr>) = loop_inv inp g r j k s"
  by (simp_all add: loop_inv_def)

lemma loop_inv_mono: "loop_inv inp g r j k s \<Longrightarrow> j \<le> j' \<Longrightarrow> k \<le> k' \<Longrightarrow> loop_inv inp g r j' k' s"
  by (auto simp: loop_inv_def)

lemma loop_inv_solve:
  "loop_inv inp g r j k s \<Longrightarrow>
   loop_inv inp g (r + 1) j k (s\<lparr>lp_caps := lp_caps s @ [c], lp_counts := lp_counts s @ [n]\<rparr>)"
  by (simp add: loop_inv_def)

lemma loop_inv_job:
  "loop_inv inp g r j k s \<Longrightarrow> int (lp_jobs s) < wi_sandbox_jobs_remaining inp \<Longrightarrow>
   loop_inv inp g r (j + 1) k (s\<lparr>lp_jobs := Suc (lp_jobs s)\<rparr>)"
  by (simp add: loop_inv_def)

subsection \<open>The verdict\<close>

text \<open>The numbers of a result are within the bounds, and its graph only excludes more.\<close>

definition coordination_bounds :: "window_inputs \<Rightarrow> candidate_graph \<Rightarrow> int \<Rightarrow> window_coordination \<Rightarrow> bool" where
  "coordination_bounds inp g r w \<longleftrightarrow>
     wc_rounds w \<le> r \<and> 0 \<le> wc_sandbox_jobs_used w \<and> wc_sandbox_jobs_used w \<le> wc_rounds w \<and>
     (wc_sandbox_jobs_used w = 0 \<or> wc_sandbox_jobs_used w \<le> wi_sandbox_jobs_remaining inp) \<and>
     0 \<le> wc_no_good_count w \<and> wc_no_good_count w \<le> wc_rounds w \<and>
     (\<exists>xs. wc_candidate_graph w = g\<lparr>cg_no_good_candidate_sets := cg_no_good_candidate_sets g @ xs\<rparr> \<and>
           int (length xs) = wc_no_good_count w)"

text \<open>What stands behind a result that is called safe.\<close>

definition safe_evidence ::
    "window_env \<Rightarrow> window_inputs \<Rightarrow> window_coordination \<Rightarrow> joint_repair_bundle \<Rightarrow> patch_plan \<Rightarrow>
     sandbox_evidence \<Rightarrow> bool" where
  "safe_evidence env inp w bundle plan evidence \<longleftrightarrow>
     (let selected = bundle_selection (wi_candidates inp) bundle
      in wc_bundle w = Some (verified_bundle bundle evidence) \<and> wc_patch_plan w = Some plan \<and>
         wc_sandbox_evidence w = Some evidence \<and>
         selected \<noteq> [] \<and> \<not> exceeds_transaction inp selected \<and> env_compile env bundle = Compiled plan \<and>
         env_complete env evidence \<and> se_status evidence = SandboxCleanProgress \<and>
         identity_matches env inp selected plan evidence \<and>
         (\<exists>n > 0. se_removed_original_count evidence = Some n) \<and>
         se_new_violation_count evidence = Some 0 \<and> se_connectivity_preserved evidence = Some True \<and>
         one_batch_of selected (wc_master_batches w) \<and>
         (wc_evidence_reused w \<longrightarrow> length selected = 1 \<and>
            evidence = be_sandbox (c_benefit_evidence (hd selected)) \<and>
            exact_isolated_evidence_matches env inp (hd selected) plan))"

definition verdict_ok :: "window_env \<Rightarrow> window_inputs \<Rightarrow> window_coordination \<Rightarrow> bool" where
  "verdict_ok env inp w \<longleftrightarrow>
     (if wc_status w = ''SAFE'' then \<exists>bundle plan evidence. safe_evidence env inp w bundle plan evidence
      else wc_status w \<in> {''NO_OP'', ''NO_SAFE_BUNDLE''} \<and> wc_patch_plan w = None \<and> wc_master_batches w = [])"

definition outcome_ok ::
    "window_env \<Rightarrow> window_inputs \<Rightarrow> candidate_graph \<Rightarrow> int \<Rightarrow> round_outcome \<Rightarrow> bool" where
  "outcome_ok env inp g r outcome \<longleftrightarrow>
     (case outcome of
        RoundReturn w \<Rightarrow> coordination_bounds inp g r w \<and> verdict_ok env inp w
      | RoundBreak s \<Rightarrow> loop_inv inp g r r r s
      | RoundContinue s \<Rightarrow> loop_inv inp g r r r s)"

lemma coordination_simps [simp]:
  "wc_status (coordination s st b p e bs n re) = st"
  "wc_bundle (coordination s st b p e bs n re) = b"
  "wc_patch_plan (coordination s st b p e bs n re) = p"
  "wc_sandbox_evidence (coordination s st b p e bs n re) = e"
  "wc_master_batches (coordination s st b p e bs n re) = bs"
  "wc_rounds (coordination s st b p e bs n re) = n"
  "wc_evidence_reused (coordination s st b p e bs n re) = re"
  "wc_sandbox_jobs_used (coordination s st b p e bs n re) = int (lp_jobs s)"
  "wc_no_good_count (coordination s st b p e bs n re) = lp_no_goods s"
  "wc_candidate_graph (coordination s st b p e bs n re) = lp_graph s"
  by (simp_all add: coordination_def)

lemma bounds_of_inv:
  assumes "loop_inv inp g r j k s" "j \<le> r" "k \<le> r"
  shows "coordination_bounds inp g r (coordination s st b p e bs r re)"
  using assms unfolding coordination_bounds_def loop_inv_def by auto

lemma unsafe_outcome:
  assumes "loop_inv inp g r j k s" "j \<le> r" "k \<le> r" "st \<in> {''NO_OP'', ''NO_SAFE_BUNDLE''}"
  shows "outcome_ok env inp g r (RoundReturn (coordination s st b None e [] r False))"
  using bounds_of_inv [OF assms(1-3)] assms(4) by (auto simp: outcome_ok_def verdict_ok_def)

lemma back_off_ok:
  assumes "loop_inv inp g r j k s" "j \<le> r" "k \<le> r"
  shows "outcome_ok env inp g r (back_off selected s)"
  using loop_inv_mono [OF assms] by (simp add: outcome_ok_def back_off_def Let_def loop_inv_cap)

lemma reject_evidence_ok:
  assumes "reject_evidence env inp rem selected evidence s = Inr outcome"
    and "loop_inv inp g r j k s" "j \<le> r" "k + 1 \<le> r"
  shows "outcome_ok env inp g r outcome"
proof (cases "env_complete env evidence")
  case False
  then have "outcome = back_off selected s" using assms(1) by (simp add: reject_evidence_def)
  then show ?thesis using back_off_ok [OF assms(2,3)] assms(4) by simp
next
  case True
  note inv = loop_inv_exclude [OF assms(2), of selected]
  obtain alternate where "outcome = (if alternate
      then RoundContinue (exclude selected s\<lparr>lp_retried := insert (length selected) (lp_retried (exclude selected s)),
             lp_cap := int (length selected)\<rparr>)
      else back_off selected (exclude selected s))"
    using assms(1) True unfolding reject_evidence_def Let_def by (auto simp: bind_result_Inr_iff)
  then show ?thesis
    using back_off_ok [OF inv assms(3,4)] loop_inv_mono [OF inv assms(3,4)]
    by (cases alternate) (simp_all add: outcome_ok_def loop_inv_cap)
qed

lemma accepts_evidence_True:
  "accepts_evidence env inp selected plan evidence = Inr True \<Longrightarrow>
     env_complete env evidence \<and> se_status evidence = SandboxCleanProgress \<and>
     identity_matches env inp selected plan evidence \<and>
     (\<exists>n > 0. se_removed_original_count evidence = Some n) \<and>
     se_new_violation_count evidence = Some 0 \<and> se_connectivity_preserved evidence = Some True"
  by (auto simp: accepts_evidence_def split: if_splits option.splits)

lemma judge_evidence_ok:
  assumes judge: "judge_evidence env inp mr r bundle selected plan reused evidence s = Inr outcome"
    and inv: "loop_inv inp g r j k s" "j \<le> r" "k + 1 \<le> r"
    and selected: "selected = bundle_selection (wi_candidates inp) bundle" "selected \<noteq> []"
      "\<not> exceeds_transaction inp selected" "env_compile env bundle = Compiled plan"
    and reused: "reused \<Longrightarrow> length selected = 1 \<and> evidence = be_sandbox (c_benefit_evidence (hd selected)) \<and>
      exact_isolated_evidence_matches env inp (hd selected) plan"
  shows "outcome_ok env inp g r outcome"
proof -
  have k: "k \<le> r" using inv(3) by simp
  have reject: "outcome_ok env inp g r outcome"
    if "reject_evidence env inp (mr - r) selected evidence (add_failure c s) = Inr outcome" for c
    by (rule reject_evidence_ok [OF that loop_inv_add_failure [OF inv(1)] inv(2,3)])
  show ?thesis
  proof (cases "env_complete env evidence \<and> identity_matches env inp selected plan evidence")
    case False
    then obtain c where "outcome = RoundReturn (no_safe_bundle (add_failure c s) (Some evidence) r)"
      using judge unfolding judge_evidence_def by (auto split: if_splits)
    then show ?thesis
      using unsafe_outcome [OF loop_inv_add_failure [OF inv(1)] inv(2) k] by (simp add: no_safe_bundle_def)
  next
    case True
    then obtain accepted where accepted: "accepts_evidence env inp selected plan evidence = Inr accepted"
      "(if accepted then let verified = verified_bundle bundle evidence; batches = window_batches env inp verified
          in if one_batch_of selected batches
             then Inr (RoundReturn (coordination s ''SAFE'' (Some verified) (Some plan) (Some evidence) batches r reused))
             else reject_evidence env inp (mr - r) selected evidence (add_failure ''WINDOW_MASTER_BATCH_CARDINALITY'' s)
        else reject_evidence env inp (mr - r) selected evidence
               (add_failure (''WINDOW_JOINT_'' @ sandbox_status_text (se_status evidence)) s)) = Inr outcome"
      using judge unfolding judge_evidence_def by (auto simp: bind_result_Inr_iff)
    show ?thesis
    proof (cases "accepted \<and> one_batch_of selected (window_batches env inp (verified_bundle bundle evidence))")
      case False
      then show ?thesis using accepted(2) reject by (auto simp: Let_def split: if_splits)
    next
      case safe: True
      let ?w = "coordination s ''SAFE'' (Some (verified_bundle bundle evidence)) (Some plan) (Some evidence)
        (window_batches env inp (verified_bundle bundle evidence)) r reused"
      have out: "outcome = RoundReturn ?w" using accepted(2) safe by (simp add: Let_def)
      have "accepts_evidence env inp selected plan evidence = Inr True" using accepted(1) safe by simp
      then have "safe_evidence env inp ?w bundle plan evidence"
        using accepts_evidence_True [of env inp selected plan evidence] safe selected reused
        unfolding safe_evidence_def Let_def coordination_simps selected(1) [symmetric] by blast
      then show ?thesis
        unfolding out outcome_ok_def round_outcome.case verdict_ok_def coordination_simps
        using bounds_of_inv [OF inv(1,2) k] by auto
    qed
  qed
qed

lemma coordinate_round_ok:
  assumes round: "coordinate_round env inp mr r s = Inr outcome"
    and inv: "loop_inv inp g (r - 1) (r - 1) (r - 1) s"
  shows "outcome_ok env inp g r outcome"
proof -
  obtain jb where solved: "env_solve env (lp_graph s) (lp_cap s) = Inr jb"
    using round by (auto simp: coordinate_round_def bind_result_Inr_iff)
  define selected where "selected = bundle_selection (wi_candidates inp) jb"
  define s1 where "s1 = s\<lparr>lp_caps := lp_caps s @ [lp_cap s], lp_counts := lp_counts s @ [int (length selected)]\<rparr>"
  have inv1: "loop_inv inp g r (r - 1) (r - 1) s1"
    using loop_inv_solve [OF inv] by (simp add: s1_def)
  have excl: "outcome_ok env inp g r (back_off selected (add_failure c (exclude selected s1)))" for c
    by (rule back_off_ok [OF loop_inv_add_failure [OF loop_inv_exclude [OF inv1]]]) simp_all
  have body: "(if selected = [] then Inr (RoundReturn (coordination s1 ''NO_OP'' (Some jb) None None [] r False))
      else if exceeds_transaction inp selected
      then Inr (back_off selected (add_failure ''WINDOW_TRANSACTION_CAP_EXCEEDED'' (exclude selected s1)))
      else (case env_compile env jb of
              CompileFailed name \<Rightarrow> Inr (back_off selected
                (add_failure (''WINDOW_BUNDLE_COMPILE_FAIL:'' @ name) (exclude selected s1)))
            | Compiled plan \<Rightarrow> run_selection env inp mr r jb selected plan s1)) = Inr outcome"
    using round unfolding coordinate_round_def solved bind_result_simps Let_def selected_def s1_def .
  show ?thesis
  proof (cases "selected = [] \<or> exceeds_transaction inp selected")
    case True
    then show ?thesis
      using body excl unsafe_outcome [OF inv1] by (auto split: if_splits)
  next
    case runs: False
    show ?thesis
    proof (cases "env_compile env jb")
      case (CompileFailed name)
      then show ?thesis using body runs excl by auto
    next
      case (Compiled plan)
      have run: "run_selection env inp mr r jb selected plan s1 = Inr outcome"
        using body runs Compiled by simp
      let ?reuse = "length selected = 1 \<and>
        rki_reuse_verified_kernel_evidence (app_repair_kernel_integration (wi_config inp)) \<and>
        exact_isolated_evidence_matches env inp (hd selected) plan"
      have sel: "selected \<noteq> []" "\<not> exceeds_transaction inp selected" using runs by blast+
      note judged = judge_evidence_ok [OF _ _ _ _ selected_def sel Compiled]
      show ?thesis
      proof (cases ?reuse)
        case True
        then have "judge_evidence env inp mr r jb selected plan True (be_sandbox (c_benefit_evidence (hd selected))) s1 = Inr outcome"
          using run by (simp add: run_selection_def)
        then show ?thesis by (rule judged [OF _ inv1]) (use True in simp_all)
      next
        case fresh: False
        show ?thesis
        proof (cases "int (lp_jobs s1) \<ge> wi_sandbox_jobs_remaining inp")
          case True
          then have "outcome = RoundBreak (add_failure ''ITERATION_SANDBOX_BUDGET_EXHAUSTED'' s1)"
            using run fresh by (auto simp: run_selection_def)
          then show ?thesis
            using loop_inv_mono [OF loop_inv_add_failure [OF inv1], of r r] by (simp add: outcome_ok_def)
        next
          case False
          then have jobs: "int (lp_jobs s1) < wi_sandbox_jobs_remaining inp" by simp
          have sand: "(case env_sandbox env (lp_jobs s1) selected plan of
              SandboxInfrastructure message \<Rightarrow> Inl (InfrastructureFailure message)
            | SandboxException name \<Rightarrow> Inr (RoundReturn (no_safe_bundle
                  (add_failure (''WINDOW_SANDBOX_INFRASTRUCTURE:'' @ name) s1) None r))
            | SandboxEvidenceResult evidence \<Rightarrow>
                judge_evidence env inp mr r jb selected plan False evidence (s1\<lparr>lp_jobs := Suc (lp_jobs s1)\<rparr>)) = Inr outcome"
            using run fresh False unfolding run_selection_def by (simp only: if_False)
          show ?thesis
          proof (cases "env_sandbox env (lp_jobs s1) selected plan")
            case (SandboxEvidenceResult evidence)
            then have "judge_evidence env inp mr r jb selected plan False evidence (s1\<lparr>lp_jobs := Suc (lp_jobs s1)\<rparr>) = Inr outcome"
              using sand by simp
            then show ?thesis by (rule judged [OF _ loop_inv_job [OF inv1 jobs]]) simp_all
          next
            case (SandboxInfrastructure message)
            then show ?thesis using sand by simp
          next
            case (SandboxException name)
            then show ?thesis
              using sand unsafe_outcome [OF loop_inv_add_failure [OF inv1]] by (auto simp: no_safe_bundle_def)
          qed
        qed
      qed
    qed
  qed
qed

lemma coordination_bounds_mono: "coordination_bounds inp g r w \<Longrightarrow> r \<le> m \<Longrightarrow> coordination_bounds inp g m w"
  by (auto simp: coordination_bounds_def)

lemma give_up_ok:
  assumes "loop_inv inp g r r r s"
  shows "coordination_bounds inp g r (give_up s) \<and> verdict_ok env inp (give_up s)"
proof -
  have "int (length (lp_caps s)) = r" using assms by (simp add: loop_inv_def)
  then show ?thesis
    using unsafe_outcome [OF assms order_refl order_refl, of "''NO_SAFE_BUNDLE''" env None None]
    by (simp add: give_up_def no_safe_bundle_def outcome_ok_def)
qed

lemma coordinate_rounds_ok:
  assumes "coordinate_rounds env inp mr [r + 1..m] s = Inr w" "loop_inv inp g r r r s" "r \<le> m"
  shows "coordination_bounds inp g m w \<and> verdict_ok env inp w"
  using assms
proof (induction "nat (m - r)" arbitrary: r s)
  case 0
  then have "w = give_up s" by simp
  then show ?case using give_up_ok [OF "0.prems"(2)] coordination_bounds_mono "0.prems"(3) by blast
next
  case (Suc n)
  then have upto: "[r + 1..m] = (r + 1) # [r + 1 + 1..m]" by (simp add: upto_rec1)
  obtain outcome where outcome: "coordinate_round env inp mr (r + 1) s = Inr outcome"
    "(case outcome of RoundReturn w' \<Rightarrow> Inr w' | RoundBreak s' \<Rightarrow> Inr (give_up s')
      | RoundContinue s' \<Rightarrow> coordinate_rounds env inp mr [r + 1 + 1..m] s') = Inr w"
    using Suc.prems(1) unfolding upto coordinate_rounds.simps bind_result_Inr_iff by blast
  have ok: "outcome_ok env inp g (r + 1) outcome"
    by (rule coordinate_round_ok [OF outcome(1)]) (use Suc.prems(2) in simp)
  have m: "r + 1 \<le> m" using Suc.hyps(2) by linarith
  show ?case
  proof (cases outcome)
    case (RoundReturn w')
    then show ?thesis using ok outcome(2) coordination_bounds_mono [OF _ m] by (auto simp: outcome_ok_def)
  next
    case (RoundBreak s')
    then show ?thesis
      using ok outcome(2) give_up_ok [of inp g "r + 1" s'] coordination_bounds_mono [OF _ m]
      by (auto simp: outcome_ok_def)
  next
    case (RoundContinue s')
    show ?thesis
      by (rule Suc.hyps(1) [of "r + 1" s']) (use RoundContinue ok outcome(2) m Suc.hyps(2) in \<open>auto simp: outcome_ok_def\<close>)
  qed
qed

lemma coordinate_active_window_ok:
  assumes "coordinate_active_window env inp = Inr w"
    "env_build env (wi_candidates inp) (aw_window_id (wi_window inp)) (wi_resource_capacities inp) = Inr g"
  shows "coordination_bounds inp g (max 0 (cec_joint_sandbox_max_rounds (app_candidate_evidence (wi_config inp)))) w \<and>
    verdict_ok env inp w"
proof -
  let ?mr = "cec_joint_sandbox_max_rounds (app_candidate_evidence (wi_config inp))"
  have init: "loop_inv inp g 0 0 0 (initial_loop (wi_config inp) g)"
    by (simp add: loop_inv_def initial_loop_def)
  show ?thesis
  proof (cases "?mr \<le> 0")
    case True
    then have "w = (coordination (initial_loop (wi_config inp) g) ''NO_SAFE_BUNDLE'' None None None [] 0 False)
        \<lparr>wc_failure_codes := Some [''JOINT_SANDBOX_ROUNDS_EXHAUSTED''],
         wc_selection_cardinality_caps_tried := None, wc_selected_non_noop_counts := None\<rparr>"
      using assms by (simp add: coordinate_active_window_def Let_def)
    then show ?thesis using True by (simp add: coordination_bounds_def verdict_ok_def initial_loop_def)
  next
    case False
    then have "coordinate_rounds env inp ?mr [0 + 1..?mr] (initial_loop (wi_config inp) g) = Inr w"
      using assms by (simp add: coordinate_active_window_def Let_def)
    then have "coordination_bounds inp g ?mr w \<and> verdict_ok env inp w"
      by (rule coordinate_rounds_ok [OF _ init]) (use False in simp)
    then show ?thesis using False by simp
  qed
qed

section \<open>Properties of the coordination\<close>

text \<open>
  C20. A window is called safe only with proof: there is a bundle whose repairs, within the limits of a
  transaction, were compiled to the returned patch plan, and sandbox evidence that is physically
  complete, reports clean progress (violations removed, none new, connectivity preserved) and was
  made for exactly this base snapshot, these candidates, this patch plan, rule deck, evaluator and
  connectivity reference. The repairs are one transaction batch. Evidence of an earlier run is
  reused for a single repair only, and only when it matches exactly. A result that is not safe has
  no patch plan and no batch.
\<close>

theorem window_safe_evidence:
  assumes "coordinate_active_window env inp = Inr w"
  shows "if wc_status w = ''SAFE'' then \<exists>bundle plan evidence. safe_evidence env inp w bundle plan evidence
    else wc_status w \<in> {''NO_OP'', ''NO_SAFE_BUNDLE''} \<and> wc_patch_plan w = None \<and> wc_master_batches w = []"
proof -
  obtain g where "env_build env (wi_candidates inp) (aw_window_id (wi_window inp)) (wi_resource_capacities inp) = Inr g"
    using assms by (auto simp: coordinate_active_window_def bind_result_Inr_iff)
  then show ?thesis using coordinate_active_window_ok [OF assms] unfolding verdict_ok_def by blast
qed

text \<open>
  C31. The coordination is bounded, whatever the solver, the compiler and the sandbox do: it runs at
  most the configured number of rounds, at most one sandbox job per round and never more jobs than
  remain, and it changes the candidate graph only by excluding one set of candidates in a round.
\<close>

theorem window_coordination_bounds:
  assumes "coordinate_active_window env inp = Inr w"
    "env_build env (wi_candidates inp) (aw_window_id (wi_window inp)) (wi_resource_capacities inp) = Inr g"
  shows "0 \<le> wc_sandbox_jobs_used w \<and> wc_sandbox_jobs_used w \<le> wc_rounds w \<and>
    wc_sandbox_jobs_used w \<le> max 0 (wi_sandbox_jobs_remaining inp) \<and>
    wc_rounds w \<le> max 0 (cec_joint_sandbox_max_rounds (app_candidate_evidence (wi_config inp))) \<and>
    (\<exists>xs. wc_candidate_graph w = g\<lparr>cg_no_good_candidate_sets := cg_no_good_candidate_sets g @ xs\<rparr> \<and>
       int (length xs) = wc_no_good_count w \<and> wc_no_good_count w \<le> wc_rounds w)"
  using coordinate_active_window_ok [OF assms] unfolding coordination_bounds_def by auto

subsection \<open>An example\<close>

definition example_candidate :: "string \<Rightarrow> repair_candidate" where
  "example_candidate cid =
     \<lparr>c_schema_version = ''1.0'', c_candidate_id = cid, c_region_id = ''r1'', c_subgraph_id = ''s1'',
      c_rank_from_agent = 0, c_action_family = ''MOVE_OBJECT'', c_edits = [], c_semantic_objective = [],
      c_semantic_postconditions = [], c_target_violation_ids = [''v1''], c_target_object_ids = [''o1''],
      c_affected_object_ids = [''o1''], c_affected_net_ids = [], c_affected_connectivity_component_ids = [],
      c_affected_physical_geometry_ids = [], c_source_targets = [],
      c_edit_footprint_dbu = \<lparr>bx_x1 = 0, bx_y1 = 0, bx_x2 = 10, bx_y2 = 10\<rparr>, c_required_resources = [],
      c_released_resources = [],
      c_benefit_evidence = \<lparr>be_proof_status = ProofNone, be_proof_codes = [], be_rule_proofs = [],
        be_proven_removed_violation_ids = [], be_proven_drc_benefit_lb = 0,
        be_heuristic_removed_violation_ids = [], be_heuristic_drc_benefit_est = 0,
        be_sandbox = default_sandbox_evidence\<rparr>,
      c_predicted_introduced_rule_ids = [], c_predicted_timing_delta = None, c_predicted_side_effects = [],
      c_preconditions = [], c_postconditions = [], c_requires_candidate_ids = [],
      c_excludes_candidate_ids = [], c_cooperates_with_hints = [], c_experience_support_ids = [],
      c_agent_confidence_milli = 500,
      c_estimated_disturbance = \<lparr>de_modified_objects = 1, de_area_dbu2 = 0, de_via_operations = 0,
        de_explicit_risk_milli = 0\<rparr>,
      c_estimated_cost = \<lparr>ce_patch_operations = 1, ce_preview_calls = 0, ce_runtime_millis = 0\<rparr>,
      c_validation_status = StatusValid, c_validation_issues = [], c_semantic_fingerprint = []\<rparr>"

definition example_config :: app_config where
  "example_config =
     \<lparr>app_schema_version = ''1.0'', app_project_root = ''.'', app_features = default_features_config,
      app_workflow = default_workflow_config, app_region = default_region_config,
      app_agent_graph = default_agent_graph_config, app_agent = default_agent_config,
      app_coordinator = default_coordinator_config, app_acceptance = default_acceptance_config,
      app_retrieval = default_retrieval_config, app_llm = default_llm_config,
      app_backend = default_backend_config, app_repair_programming = default_repair_programming_config,
      app_candidate_evidence = default_candidate_evidence_config,
      app_candidate_graph = default_candidate_graph_config, app_transaction = default_transaction_config,
      app_attribution = default_attribution_config,
      app_repair_kernel_integration = default_integration_config, app_resource_control = None\<rparr>"

definition example_graph :: candidate_graph where
  "example_graph =
     \<lparr>cg_subgraph_id = ''w'', cg_candidates = [], cg_edges = [],
      cg_audit = \<lparr>ga_candidate_pair_count = 0, ga_relevant_pair_count = 0, ga_covered_relevant_pair_count = 0,
        ga_completeness_milli = 1000, ga_missing_relevant_pairs = [], ga_spatially_relevant_pair_count = 0,
        ga_source_overlap_pair_count = 0, ga_object_overlap_pair_count = 0,
        ga_instance_occurrence_overlap_pair_count = 0, ga_net_overlap_pair_count = 0,
        ga_connectivity_component_overlap_pair_count = 0, ga_resource_overlap_pair_count = 0,
        ga_hard_conflict_edge_count = 0, ga_soft_relation_edge_count = 0, ga_unresolved_pair_count = 0,
        ga_unresolved_pairs = []\<rparr>,
      cg_resource_capacities = [], cg_no_good_candidate_sets = [], cg_bundle_atoms = []\<rparr>"

definition example_bundle :: "string list \<Rightarrow> joint_repair_bundle" where
  "example_bundle ids =
     \<lparr>jb_bundle_id = ''b'', jb_subgraph_id = ''w'', jb_selected_candidate_ids = ids, jb_solver_status = ''OPTIMAL'',
      jb_benefit = 1, jb_disturbance = 0, jb_evidence_quality = 0, jb_sandbox_status = SandboxNotRun,
      jb_sandbox_verification_ref = None, jb_solver_metrics = [], jb_candidate_dispositions = [],
      jb_all_noop_reason = None\<rparr>"

definition example_artifact :: artifact_ref where
  "example_artifact = \<lparr>ar_artifact_id = ''a'', ar_path = ''x'', ar_sha256 = ''0'', ar_media_type = ''t'',
     ar_schema_name = None, ar_schema_version = None, ar_producer = ''p'', ar_size_bytes = 1, ar_created_at = ''t''\<rparr>"

definition example_window :: active_window where
  "example_window = \<lparr>aw_window_id = ''w'', aw_iteration = 1, aw_window_index = 0, aw_base_snapshot_id = ''s0'',
     aw_subgraph_ids = [''s1''], aw_region_ids = [''r1''], aw_frontier_violation_ids = [''v1''],
     aw_claimed_frontier_violation_ids = [''v1''], aw_decision_region_ids = [''r1''], aw_helper_region_ids = [],
     aw_helper_assignments = [], aw_context_only_region_ids = [], aw_boundary_dependency_ids = [],
     aw_hard_dependency_closure = True\<rparr>"

definition example_inputs :: window_inputs where
  "example_inputs =
     \<lparr>wi_window = example_window, wi_candidates = [example_candidate ''c1'', example_candidate ''c2''],
      wi_snapshot = \<lparr>ds_snapshot_id = ''s0'', ds_script_ref = example_artifact, ds_gds_ref = None, ds_drc_ref = None,
        ds_connectivity_ref = None, ds_lineage_receipt_ref = None, ds_parent_snapshot_id = None,
        ds_parent_script_ref = None, ds_provenance_run_id = None, ds_provenance_relation_source = None,
        ds_score = None\<rparr>,
      wi_config = example_config, wi_resource_capacities = [], wi_sandbox_jobs_remaining = 3,
      wi_rule_deck_sha256 = ''rd'', wi_evaluator_sha256 = ''ev''\<rparr>"

text \<open>
  A solver that first selects both repairs and, once that set is excluded, the first one; a sandbox
  in which both together make no progress and the first one alone does.
\<close>

definition example_evidence :: "repair_candidate list \<Rightarrow> sandbox_evidence" where
  "example_evidence selected = clean_example\<lparr>
     se_status := (if length selected = 1 then SandboxCleanProgress else SandboxNoProgress),
     se_scope := expected_scope selected, se_candidate_ids := sorted_ids selected,
     se_patch_plan_sha256 := Some ''pd'', se_rule_deck_sha256 := Some ''rd'',
     se_evaluator_sha256 := Some ''ev''\<rparr>"

definition example_env :: window_env where
  "example_env =
     \<lparr>env_build = (\<lambda>cs wid rc. Inr example_graph),
      env_solve = (\<lambda>g cap. Inr (example_bundle
        (if cap \<ge> 2 \<and> [''c1'', ''c2''] \<notin> set (cg_no_good_candidate_sets g) then [''c1'', ''c2''] else [''c1'']))),
      env_compile = (\<lambda>b. Compiled \<lparr>pp_base_script_sha256 = ''0'', pp_occurrence_receipts = [],
        pp_source_edits = [], pp_touched_anchor_ids = [], pp_expected_object_after_hashes = []\<rparr>),
      env_sandbox = (\<lambda>n selected plan. SandboxEvidenceResult (example_evidence selected)),
      env_complete = (\<lambda>e. True), env_fingerprint = (\<lambda>c. ''f''), env_plan_digest = (\<lambda>p. ''pd''),
      env_digest = (\<lambda>j. ''d'')\<rparr>"

lemma example_run:
  "(case coordinate_active_window example_env example_inputs of
      Inl _ \<Rightarrow> None
    | Inr w \<Rightarrow> Some (wc_status w, wc_rounds w, wc_sandbox_jobs_used w, wc_no_good_count w))
   = Some (''SAFE'', 2, 2, 1)"
  by code_simp

lemma example_result:
  obtains w where "coordinate_active_window example_env example_inputs = Inr w" "wc_status w = ''SAFE''"
    "wc_rounds w = 2"
  using example_run that by (cases "coordinate_active_window example_env example_inputs") simp_all

lemma window_safe_evidence_witness:
  "\<exists>w. coordinate_active_window example_env example_inputs = Inr w \<and>
     (\<exists>bundle plan evidence. safe_evidence example_env example_inputs w bundle plan evidence)"
proof -
  obtain w where w: "coordinate_active_window example_env example_inputs = Inr w" "wc_status w = ''SAFE''"
    by (rule example_result)
  then show ?thesis using window_safe_evidence [OF w(1)] by simp
qed

lemma window_coordination_bounds_witness:
  "\<exists>w. coordinate_active_window example_env example_inputs = Inr w \<and> wc_sandbox_jobs_used w \<le> 2"
proof -
  obtain w where w: "coordinate_active_window example_env example_inputs = Inr w" "wc_rounds w = 2"
    by (rule example_result)
  have "env_build example_env (wi_candidates example_inputs) (aw_window_id (wi_window example_inputs))
      (wi_resource_capacities example_inputs) = Inr example_graph"
    by (simp add: example_env_def)
  then show ?thesis using window_coordination_bounds [OF w(1)] w by auto
qed

end
