(* ===== verification/Resource_Arbiter.thy ===== *)
theory Resource_Arbiter
  imports Json
begin

text \<open>
  The arbiter of provider and tool calls (\<open>src/drc_agent/infrastructure/resource_arbiter.py\<close>): a pool
  of slots shared by all processes. A slot is a file; who holds the exclusive lock of the file
  holds the slot, and the JSON in the file says who that is. A lease is admitted only when its
  record and its audit event are written; a slot whose lock is free but whose record is still
  \<open>HELD\<close> was left by a process that died, and is reused only if nothing that it started is alive.

  The state is the files, the lock table, the event log and the context variable
  \<open>_CURRENT_RESOURCE_LEASE\<close>. The module \<open>file_lock\<close> is compiled: its three operations are the
  parameter \<open>api\<close>, with the law \<open>exclusive_locks\<close> of an exclusive lock. Reading a slot for an
  acquisition and writing records and events may fail; which of these steps succeed, and what a failed
  write leaves, are inputs. Opening a file and reading it for the status do not fail in the model, and
  the current lease is one value, not one for each process and task. Time stamps, process identities and the unique part of a lease's name are inputs too. The
  asynchronous bridge and the translation of the environment variables are not modelled.
\<close>

datatype resource_kind = Http | Eda

fun kind_text :: "resource_kind \<Rightarrow> string" where
  "kind_text Http = ''http''"
| "kind_text Eda = ''eda''"

type_synonym slot = "resource_kind \<times> nat"

type_synonym metadata = "(string \<times> json) list"

datatype arbiter_error =
    ArbiterValueError string
  | ArbiterOsError
  | ResourceQueueTimeout resource_kind real real
  | ResourceAcquireCancelled resource_kind
  | ReleasedLeaseError string

subsection \<open>Locks\<close>

record 'l lock_api =
  la_try :: "'l \<Rightarrow> slot \<Rightarrow> string \<Rightarrow> 'l option"
  la_release :: "'l \<Rightarrow> slot \<Rightarrow> 'l"
  la_holder :: "'l \<Rightarrow> slot \<Rightarrow> string option"

text \<open>
  The law of an exclusive lock: it is granted only when nobody holds it, the grant and the release
  change this lock only, and a release frees it.
\<close>

definition exclusive_locks :: "'l lock_api \<Rightarrow> bool" where
  "exclusive_locks api \<longleftrightarrow>
     (\<forall>l p who l'. la_try api l p who = Some l' \<longrightarrow>
        la_holder api l p = None \<and> la_holder api l' = (la_holder api l)(p := Some who)) \<and>
     (\<forall>l p. la_holder api (la_release api l p) = (la_holder api l)(p := None))"

subsection \<open>Limits and the pool's policy (\_\_init\_\_, \_initialize\_policy)\<close>

definition default_global_limits :: "(string \<times> int) list" where
  "default_global_limits = [(''http'', 8), (''eda'', 4)]"

definition resource_protocol_version :: string where
  "resource_protocol_version = ''p5-global-resource-v1''"

definition valid_limits :: "(string \<times> int) list \<Rightarrow> bool" where
  "valid_limits limits \<longleftrightarrow>
     fst ` set limits = fst ` set default_global_limits \<and> (\<forall>p \<in> set limits. 1 \<le> snd p)"

definition arbiter_limits :: "(string \<times> int) list option \<Rightarrow> real \<Rightarrow> arbiter_error + (string \<times> int) list" where
  "arbiter_limits limits poll =
     (let requested = (case limits of None \<Rightarrow> default_global_limits | Some l \<Rightarrow> l)
      in if \<not> valid_limits requested
         then Inl (ArbiterValueError ''resource limits require positive http and eda values'')
         else if poll \<le> 0 then Inl (ArbiterValueError ''resource poll interval must be positive'')
         else Inr requested)"

definition limit_of :: "(string \<times> int) list \<Rightarrow> resource_kind \<Rightarrow> nat" where
  "limit_of limits kind = nat (the (map_of limits (kind_text kind)))"

text \<open>The limits of a policy file, as \<open>dict\<close> equality compares them: order does not matter.\<close>

definition limits_json :: "(string \<times> int) list \<Rightarrow> (string \<times> json) list" where
  "limits_json limits = map (\<lambda>(k, v). (k, JInt v)) limits"

definition same_limits :: "json \<Rightarrow> (string \<times> int) list \<Rightarrow> bool" where
  "same_limits v limits \<longleftrightarrow>
     (case v of JObj d \<Rightarrow> fst ` set d = fst ` set limits \<and>
        (\<forall>k \<in> fst ` set limits. map_of d k = map_of (limits_json limits) k) | _ \<Rightarrow> False)"

definition initialize_policy ::
    "(string \<times> int) list \<Rightarrow> string \<Rightarrow> metadata option \<Rightarrow> arbiter_error + metadata" where
  "initialize_policy limits now policy =
     (case policy of
        Some current \<Rightarrow>
          (if json_get current ''protocol_version'' \<noteq> JStr resource_protocol_version \<or>
              \<not> same_limits (json_get current ''limits'') limits
           then Inl (ArbiterValueError ''GLOBAL_RESOURCE_POLICY_DRIFT: existing limits differ'')
           else Inr current)
      | None \<Rightarrow> Inr [(''protocol_version'', JStr resource_protocol_version),
                    (''limits'', JObj (limits_json limits)), (''created_at'', JStr now)])"

subsection \<open>Who is alive (\_process\_identity\_alive, \_owned\_container\_active, \_default\_orphan\_probe)\<close>

text \<open>What the host can say: its name, its boot, its processes, its containers.\<close>

record host_info =
  hi_hostname :: "string"
  hi_boot_id :: "string option"
  hi_pid_stat :: "json \<Rightarrow> (int \<times> string) option"
  hi_inspect :: "string \<Rightarrow> string option"
  hi_str :: "json \<Rightarrow> string"

definition process_identity_alive :: "host_info \<Rightarrow> json \<Rightarrow> json \<Rightarrow> json \<Rightarrow> json \<Rightarrow> bool option" where
  "process_identity_alive host hostname pid start_ticks boot_id =
     (if \<not> json_truthy pid \<or> hostname \<noteq> JStr (hi_hostname host) then None
      else if json_truthy boot_id \<and>
        (case hi_boot_id host of None \<Rightarrow> False | Some b \<Rightarrow> b \<noteq> [] \<and> boot_id \<noteq> JStr b) then Some False
      else (case hi_pid_stat host pid of
              None \<Rightarrow> Some False
            | Some (ticks, st) \<Rightarrow>
                if st = ''Z'' then Some False
                else Some (start_ticks = JNull \<or> start_ticks = JInt ticks)))"

text \<open>\<open>str.partition\<close> at one character: the part before, whether it was found, the part after.\<close>

fun partition_at :: "char \<Rightarrow> string \<Rightarrow> string \<times> bool \<times> string" where
  "partition_at c [] = ([], False, [])"
| "partition_at c (x # xs) =
     (if x = c then ([], True, xs)
      else case partition_at c xs of (a, found, b) \<Rightarrow> (x # a, found, b))"

definition str_or_empty :: "host_info \<Rightarrow> json \<Rightarrow> string" where
  "str_or_empty host v = (if json_truthy v then hi_str host v else [])"

definition owned_container_active :: "host_info \<Rightarrow> metadata \<Rightarrow> bool" where
  "owned_container_active host m =
     (let name = json_get m ''container_name'' in
      if \<not> json_truthy name then False
      else (case hi_inspect host (hi_str host name) of
              None \<Rightarrow> False
            | Some value \<Rightarrow>
                (let (status, sep, identities) = partition_at CHR ''|'' value;
                     (attempt_id, second, owner_hash) = partition_at CHR ''|'' identities;
                     expected_hash = str_or_empty host (json_get m ''container_owner_token_hash'')
                 in if \<not> sep \<or> \<not> second then False
                    else if attempt_id \<noteq> str_or_empty host (json_get m ''attempt_id'') then False
                    else if expected_hash \<noteq> [] \<and> owner_hash \<noteq> expected_hash then False
                    else status \<in> {''created'', ''running'', ''restarting'', ''paused''})))"

definition identity_of_prefix :: "host_info \<Rightarrow> metadata \<Rightarrow> string \<Rightarrow> bool option" where
  "identity_of_prefix host m pre =
     process_identity_alive host (json_get m (pre @ ''_hostname'')) (json_get m (pre @ ''_pid''))
       (json_get m (pre @ ''_pid_start_ticks'')) (json_get m (pre @ ''_boot_id''))"

definition default_orphan_probe :: "host_info \<Rightarrow> metadata \<Rightarrow> bool" where
  "default_orphan_probe host m \<longleftrightarrow>
     identity_of_prefix host m ''worker'' = Some True \<or>
     identity_of_prefix host m ''owner'' = Some True \<or>
     owned_container_active host m \<or>
     json_get m ''kind'' = JStr ''eda'' \<and> json_truthy (json_get m ''worker_pid'') \<and>
       json_get m ''worker_hostname'' \<noteq> JStr (hi_hostname host)"

subsection \<open>Slot files and events\<close>

text \<open>What a slot file may hold, and how \<open>_read_stream_json\<close> reads it.\<close>

datatype slot_text = EmptyText | InvalidText | JsonText json

fun read_stream_json :: "slot_text \<Rightarrow> metadata" where
  "read_stream_json EmptyText = []"
| "read_stream_json InvalidText = [(''metadata_error'', JStr ''INVALID_JSON'')]"
| "read_stream_json (JsonText (JObj d)) = d"
| "read_stream_json (JsonText _) = [(''metadata_error'', JStr ''NOT_AN_OBJECT'')]"

record 'l pool =
  po_files :: "slot \<Rightarrow> slot_text option"
  po_locks :: 'l
  po_events :: "metadata list"
  po_current :: "string option"

definition file_text :: "'l pool \<Rightarrow> slot \<Rightarrow> slot_text" where
  "file_text st p = (case po_files st p of None \<Rightarrow> EmptyText | Some t \<Rightarrow> t)"

definition write_file :: "slot \<Rightarrow> slot_text \<Rightarrow> 'l pool \<Rightarrow> 'l pool" where
  "write_file p t st = st\<lparr>po_files := (po_files st)(p := Some t)\<rparr>"

definition event_payload :: "string \<Rightarrow> string \<Rightarrow> metadata \<Rightarrow> metadata \<Rightarrow> metadata" where
  "event_payload now event m extra =
     [(''protocol_version'', JStr resource_protocol_version), (''event'', JStr event),
      (''recorded_at'', JStr now), (''kind'', json_get m ''kind''), (''slot_id'', json_get m ''slot_id''),
      (''lease_id'', json_get m ''lease_id''), (''owner_id'', json_get m ''owner_id''),
      (''run_id'', json_get m ''run_id''), (''attempt_id'', json_get m ''attempt_id''),
      (''purpose'', json_get m ''purpose'')] @ extra"

definition log_event :: "string \<Rightarrow> string \<Rightarrow> metadata \<Rightarrow> metadata \<Rightarrow> 'l pool \<Rightarrow> 'l pool" where
  "log_event now event m extra st = st\<lparr>po_events := po_events st @ [event_payload now event m extra]\<rparr>"

definition unlock :: "'l lock_api \<Rightarrow> slot \<Rightarrow> 'l pool \<Rightarrow> 'l pool" where
  "unlock api p st = st\<lparr>po_locks := la_release api (po_locks st) p\<rparr>"

text \<open>\<open>dict.update\<close>: present keys keep their place.\<close>

definition dict_update :: "metadata \<Rightarrow> metadata \<Rightarrow> metadata" where
  "dict_update d updates = foldl (\<lambda>d (k, v). dict_set k v d) d updates"

subsection \<open>Leases (GlobalResourceLease)\<close>

record lease =
  le_kind :: "resource_kind"
  le_slot_id :: "nat"
  le_lease_id :: "string"
  le_metadata :: "metadata"
  le_wait_seconds :: "real"
  le_closed :: "bool"
  le_context_token :: "string option option"

definition lease_slot :: "lease \<Rightarrow> slot" where
  "lease_slot l = (le_kind l, le_slot_id l)"

definition activate :: "lease \<Rightarrow> 'l pool \<Rightarrow> arbiter_error option \<times> lease \<times> 'l pool" where
  "activate l st =
     (if le_closed l then (Some (ReleasedLeaseError ''cannot activate a released resource lease''), l, st)
      else if le_context_token l = None
      then (None, l\<lparr>le_context_token := Some (po_current st)\<rparr>, st\<lparr>po_current := Some (le_lease_id l)\<rparr>)
      else (None, l, st))"

definition worker_updates :: "host_info \<Rightarrow> int \<Rightarrow> string option \<Rightarrow> string option \<Rightarrow> string \<Rightarrow> metadata" where
  "worker_updates host pid container token_hash now =
     (let opt = (\<lambda>v. case v of None \<Rightarrow> JNull | Some t \<Rightarrow> JStr t)
      in [(''worker_hostname'', JStr (hi_hostname host)), (''worker_pid'', JInt pid),
          (''worker_pid_start_ticks'',
             (case hi_pid_stat host (JInt pid) of None \<Rightarrow> JNull | Some (ticks, st) \<Rightarrow> JInt ticks)),
          (''worker_boot_id'', opt (hi_boot_id host)), (''container_name'', opt container),
          (''container_owner_token_hash'', opt token_hash), (''worker_updated_at'', JStr now)])"

text \<open>
  Write the lease's record; a failed write raises and leaves \<open>partial\<close> in the file. An operation on a
  lease returns its error, if it raises, beside the changed lease.
\<close>

definition store_metadata ::
    "bool \<Rightarrow> slot_text \<Rightarrow> lease \<Rightarrow> 'l pool \<Rightarrow> arbiter_error option \<times> lease \<times> 'l pool" where
  "store_metadata ok partial l st =
     (if ok then (None, l, write_file (lease_slot l) (JsonText (JObj (le_metadata l))) st)
      else (Some ArbiterOsError, l, write_file (lease_slot l) partial st))"

definition update_worker ::
    "bool \<Rightarrow> slot_text \<Rightarrow> metadata \<Rightarrow> lease \<Rightarrow> 'l pool \<Rightarrow> arbiter_error option \<times> lease \<times> 'l pool" where
  "update_worker ok partial updates l st =
     (if le_closed l then (Some (ReleasedLeaseError ''cannot update a released resource lease''), l, st)
      else store_metadata ok partial (l\<lparr>le_metadata := dict_update (le_metadata l) updates\<rparr>) st)"

definition cleared_worker :: "metadata" where
  "cleared_worker = [(''worker_pid'', JNull), (''worker_pid_start_ticks'', JNull),
     (''container_name'', JNull), (''container_owner_token_hash'', JNull)]"

definition clear_worker ::
    "bool \<Rightarrow> slot_text \<Rightarrow> string \<Rightarrow> lease \<Rightarrow> 'l pool \<Rightarrow> arbiter_error option \<times> lease \<times> 'l pool" where
  "clear_worker ok partial now l st =
     (if le_closed l then (None, l, st)
      else store_metadata ok partial
        (l\<lparr>le_metadata := dict_update (le_metadata l) (cleared_worker @ [(''worker_cleared_at'', JStr now)])\<rparr>) st)"

definition released_metadata :: "string \<Rightarrow> string \<Rightarrow> metadata \<Rightarrow> metadata" where
  "released_metadata outcome now m =
     dict_update m ([(''state'', JStr ''RELEASED''), (''outcome'', JStr outcome),
       (''released_at'', JStr now)] @ cleared_worker)"

text \<open>
  \<open>close\<close>: write the record and log the event, either of which may raise; in every case reset the
  context variable, free the lock and mark the lease closed. The error, if any, is returned beside
  the closed lease.
\<close>

definition restore_context :: "string option option \<Rightarrow> 'l pool \<Rightarrow> 'l pool" where
  "restore_context token st = (case token of None \<Rightarrow> st | Some prior \<Rightarrow> st\<lparr>po_current := prior\<rparr>)"

definition close_lease ::
    "'l lock_api \<Rightarrow> bool \<Rightarrow> bool \<Rightarrow> slot_text \<Rightarrow> string \<Rightarrow> string \<Rightarrow> lease \<Rightarrow> 'l pool \<Rightarrow>
     arbiter_error option \<times> lease \<times> 'l pool" where
  "close_lease api write_ok event_ok partial outcome now l st =
     (if le_closed l then (None, l, st)
      else let m = released_metadata outcome now (le_metadata l);
               l1 = l\<lparr>le_metadata := m\<rparr>;
               (written, _, st1) = store_metadata write_ok partial l1 st;
               logged = (write_ok \<and> event_ok);
               st2 = (if logged then log_event now ''RELEASED'' m [] st1 else st1);
               st3 = restore_context (le_context_token l1) st2
           in (if logged then None else Some ArbiterOsError,
               l1\<lparr>le_context_token := None, le_closed := True\<rparr>,
               unlock api (lease_slot l) st3))"

definition current_resource_lease :: "(string \<Rightarrow> lease option) \<Rightarrow> resource_kind option \<Rightarrow> 'l pool \<Rightarrow> lease option" where
  "current_resource_lease leases kind st =
     (case Option.bind (po_current st) leases of
        None \<Rightarrow> None
      | Some l \<Rightarrow> (if kind \<noteq> None \<and> kind \<noteq> Some (le_kind l) then None else Some l))"

subsection \<open>Acquiring (\_try\_acquire, acquire)\<close>

text \<open>Who asks, and the readings of the clock and of the system that the record of a lease takes.\<close>

record acquire_request =
  rq_owner_id :: "string"
  rq_run_id :: "string"
  rq_attempt_id :: "string"
  rq_purpose :: "string"
  rq_hostname :: "string"
  rq_pid :: "int"
  rq_pid_start_ticks :: "int option"
  rq_boot_id :: "string option"

text \<open>
  One poll: the fresh lease name, the clock (when a record is written, and after the poll), and
  which steps of input and output succeed.
\<close>

record poll =
  pl_lease_id :: "string"
  pl_now :: "string"
  pl_cancelled :: "bool"
  pl_record_waited :: "real"
  pl_waited :: "real"
  pl_read_ok :: "nat \<Rightarrow> bool"
  pl_reclaim_event_ok :: "nat \<Rightarrow> bool"
  pl_write_ok :: "bool"
  pl_acquired_event_ok :: "bool"
  pl_release_write_ok :: "bool"
  pl_queue_event_ok :: "bool"
  pl_timeout_event_ok :: "bool"
  pl_partial :: "slot_text"

definition lease_metadata :: "resource_kind \<Rightarrow> nat \<Rightarrow> acquire_request \<Rightarrow> poll \<Rightarrow> metadata" where
  "lease_metadata kind slot_id rq pl =
     (let opt_int = (\<lambda>v. case v of None \<Rightarrow> JNull | Some t \<Rightarrow> JInt t);
          opt = (\<lambda>v. case v of None \<Rightarrow> JNull | Some t \<Rightarrow> JStr t)
      in [(''protocol_version'', JStr resource_protocol_version), (''state'', JStr ''HELD''),
          (''kind'', JStr (kind_text kind)), (''slot_id'', JInt (int slot_id)),
          (''lease_id'', JStr (pl_lease_id pl)), (''owner_id'', JStr (rq_owner_id rq)),
          (''owner_hostname'', JStr (rq_hostname rq)), (''owner_pid'', JInt (rq_pid rq)),
          (''owner_pid_start_ticks'', opt_int (rq_pid_start_ticks rq)),
          (''owner_boot_id'', opt (rq_boot_id rq)), (''run_id'', JStr (rq_run_id rq)),
          (''attempt_id'', JStr (rq_attempt_id rq)), (''purpose'', JStr (rq_purpose rq)),
          (''acquired_at'', JStr (pl_now pl)), (''queue_wait_seconds'', JReal (pl_record_waited pl)),
          (''worker_pid'', JNull), (''container_name'', JNull)])"

definition held :: "metadata \<Rightarrow> bool" where
  "held m \<longleftrightarrow> json_get m ''state'' = JStr ''HELD''"

datatype slot_outcome = SlotBusy | SlotFailed arbiter_error | SlotLeased lease

text \<open>With the lock of a slot in hand: write the record and the audit event, or give the slot back.\<close>

definition admit ::
    "'l lock_api \<Rightarrow> resource_kind \<Rightarrow> nat \<Rightarrow> acquire_request \<Rightarrow> poll \<Rightarrow> 'l pool \<Rightarrow> slot_outcome \<times> 'l pool" where
  "admit api kind slot_id rq pl st =
     (let p = (kind, slot_id); m = lease_metadata kind slot_id rq pl in
      if \<not> pl_write_ok pl
      then (SlotFailed ArbiterOsError, unlock api p (write_file p (pl_partial pl) st))
      else let st1 = write_file p (JsonText (JObj m)) st in
        if pl_acquired_event_ok pl
        then (SlotLeased \<lparr>le_kind = kind, le_slot_id = slot_id, le_lease_id = pl_lease_id pl,
                le_metadata = m, le_wait_seconds = pl_record_waited pl, le_closed = False,
                le_context_token = None\<rparr>,
              log_event (pl_now pl) ''ACQUIRED'' m [(''queue_wait_seconds'', JReal (pl_record_waited pl))] st1)
        else (SlotFailed ArbiterOsError,
              unlock api p (write_file p
                (if pl_release_write_ok pl
                 then JsonText (JObj (dict_update m [(''state'', JStr ''RELEASED''),
                   (''outcome'', JStr ''ACQUIRE_EVENT_FAILED''), (''released_at'', JStr (pl_now pl))]))
                 else pl_partial pl) st1)))"

definition try_slot ::
    "'l lock_api \<Rightarrow> (metadata \<Rightarrow> bool) \<Rightarrow> resource_kind \<Rightarrow> nat \<Rightarrow> acquire_request \<Rightarrow> poll \<Rightarrow> 'l pool \<Rightarrow>
     slot_outcome \<times> 'l pool" where
  "try_slot api probe kind slot_id rq pl st0 =
     (let p = (kind, slot_id);
          st = write_file p (file_text st0 p) st0
      in case la_try api (po_locks st) p (pl_lease_id pl) of
           None \<Rightarrow> (SlotBusy, st)
         | Some locks \<Rightarrow>
             (let st1 = st\<lparr>po_locks := locks\<rparr>;
                  previous = read_stream_json (file_text st1 p)
              in if \<not> pl_read_ok pl slot_id then (SlotFailed ArbiterOsError, unlock api p st1)
                 else if held previous \<and> probe previous then (SlotBusy, unlock api p st1)
                 else if held previous \<and> \<not> pl_reclaim_event_ok pl slot_id
                 then (SlotFailed ArbiterOsError, unlock api p st1)
                 else admit api kind slot_id rq pl
                        (if held previous
                         then log_event (pl_now pl) ''RECLAIMED'' previous
                                [(''reason'', JStr ''NO_ACTIVE_OWNER_OR_WORKER'')] st1
                         else st1)))"

fun try_acquire ::
    "'l lock_api \<Rightarrow> (metadata \<Rightarrow> bool) \<Rightarrow> resource_kind \<Rightarrow> acquire_request \<Rightarrow> poll \<Rightarrow> nat list \<Rightarrow> 'l pool \<Rightarrow>
     slot_outcome \<times> 'l pool" where
  "try_acquire api probe kind rq pl [] st = (SlotBusy, st)"
| "try_acquire api probe kind rq pl (slot_id # rest) st =
     (case try_slot api probe kind slot_id rq pl st of
        (SlotBusy, st') \<Rightarrow> try_acquire api probe kind rq pl rest st'
      | (outcome, st') \<Rightarrow> (outcome, st'))"

definition queue_metadata :: "resource_kind \<Rightarrow> acquire_request \<Rightarrow> metadata" where
  "queue_metadata kind rq =
     [(''kind'', JStr (kind_text kind)), (''slot_id'', JNull), (''lease_id'', JNull),
      (''owner_id'', JStr (rq_owner_id rq)), (''run_id'', JStr (rq_run_id rq)),
      (''attempt_id'', JStr (rq_attempt_id rq)), (''purpose'', JStr (rq_purpose rq))]"

text \<open>The pause between two polls.\<close>

definition sleep_time :: "real \<Rightarrow> real \<Rightarrow> real \<Rightarrow> real" where
  "sleep_time interval timeout waited = min interval (max 0 (timeout - waited))"

text \<open>
  The loop of \<open>acquire\<close> over the polls that the environment grants; the value \<open>None\<close> is a caller that
  still waits when they are used up.
\<close>

fun acquire_loop ::
    "'l lock_api \<Rightarrow> (metadata \<Rightarrow> bool) \<Rightarrow> nat \<Rightarrow> resource_kind \<Rightarrow> acquire_request \<Rightarrow> real \<Rightarrow> poll list \<Rightarrow> bool \<Rightarrow>
     'l pool \<Rightarrow> (arbiter_error + lease) option \<times> 'l pool" where
  "acquire_loop api probe limit kind rq timeout [] queued st = (None, st)"
| "acquire_loop api probe limit kind rq timeout (pl # pls) queued st =
     (if pl_cancelled pl then (Some (Inl (ResourceAcquireCancelled kind)), st)
      else case try_acquire api probe kind rq pl [0..<limit] st of
        (SlotLeased l, st1) \<Rightarrow> (Some (Inr l), st1)
      | (SlotFailed e, st1) \<Rightarrow> (Some (Inl e), st1)
      | (SlotBusy, st1) \<Rightarrow>
          (if \<not> queued \<and> \<not> pl_queue_event_ok pl then (Some (Inl ArbiterOsError), st1)
           else let st2 = (if queued then st1 else log_event (pl_now pl) ''QUEUED'' (queue_metadata kind rq) [] st1)
                in if pl_waited pl \<ge> timeout
                   then (if pl_timeout_event_ok pl
                         then (Some (Inl (ResourceQueueTimeout kind timeout (pl_waited pl))),
                               log_event (pl_now pl) ''QUEUE_TIMEOUT'' (queue_metadata kind rq)
                                 [(''queue_wait_seconds'', JReal (pl_waited pl))] st2)
                         else (Some (Inl ArbiterOsError), st2))
                   else acquire_loop api probe limit kind rq timeout pls True st2))"

definition acquire ::
    "'l lock_api \<Rightarrow> (metadata \<Rightarrow> bool) \<Rightarrow> (string \<times> int) list \<Rightarrow> resource_kind \<Rightarrow> acquire_request \<Rightarrow> real \<Rightarrow>
     poll list \<Rightarrow> 'l pool \<Rightarrow> (arbiter_error + lease) option \<times> 'l pool" where
  "acquire api probe limits kind rq timeout polls st =
     (if timeout \<le> 0 then (Some (Inl (ArbiterValueError ''resource queue timeout must be positive'')), st)
      else acquire_loop api probe (limit_of limits kind) kind rq timeout polls False st)"

subsection \<open>Status (read\_resource\_status)\<close>

record slot_status =
  sx_slot_id :: "nat"
  sx_active :: "bool"
  sx_lock_held :: "bool"
  sx_orphan_worker_active :: "bool"
  sx_metadata :: "metadata option"

definition slot_status_of ::
    "'l lock_api \<Rightarrow> (metadata \<Rightarrow> bool) \<Rightarrow> 'l pool \<Rightarrow> resource_kind \<Rightarrow> nat \<Rightarrow> slot_status" where
  "slot_status_of api probe st kind slot_id =
     (case po_files st (kind, slot_id) of
        None \<Rightarrow> \<lparr>sx_slot_id = slot_id, sx_active = False, sx_lock_held = False,
                 sx_orphan_worker_active = False, sx_metadata = None\<rparr>
      | Some t \<Rightarrow>
          (let locked = (la_try api (po_locks st) (kind, slot_id) ''status'' = None);
               m = read_stream_json t;
               orphan = (\<not> locked \<and> held m \<and> probe m)
           in \<lparr>sx_slot_id = slot_id, sx_active = (locked \<or> orphan), sx_lock_held = locked,
               sx_orphan_worker_active = orphan, sx_metadata = (if locked \<or> orphan then Some m else None)\<rparr>))"

record resource_status =
  rt_limit :: "nat"
  rt_in_flight :: "nat"
  rt_slots :: "slot_status list"

definition resource_status_of ::
    "'l lock_api \<Rightarrow> (metadata \<Rightarrow> bool) \<Rightarrow> (string \<times> int) list \<Rightarrow> 'l pool \<Rightarrow> resource_kind \<Rightarrow> resource_status" where
  "resource_status_of api probe limits st kind =
     (let slots = map (slot_status_of api probe st kind) [0..<limit_of limits kind]
      in \<lparr>rt_limit = limit_of limits kind, rt_in_flight = length (filter sx_active slots), rt_slots = slots\<rparr>)"

definition read_resource_status ::
    "'l lock_api \<Rightarrow> (metadata \<Rightarrow> bool) \<Rightarrow> (string \<times> int) list \<Rightarrow> 'l pool \<Rightarrow> (resource_kind \<times> resource_status) list option" where
  "read_resource_status api probe limits st =
     (if \<not> valid_limits limits then None
      else Some (map (\<lambda>k. (k, resource_status_of api probe limits st k)) [Http, Eda]))"

section \<open>What the arbiter guarantees\<close>

subsection \<open>Locks\<close>

definition holder :: "'l lock_api \<Rightarrow> 'l pool \<Rightarrow> slot \<Rightarrow> string option" where
  "holder api st = la_holder api (po_locks st)"

lemma holder_simps [simp]:
  "holder api (write_file p t st) = holder api st"
  "holder api (log_event now ev m x st) = holder api st"
  "holder api (st\<lparr>po_current := c\<rparr>) = holder api st"
  "holder api (st\<lparr>po_locks := l\<rparr>) = la_holder api l"
  by (simp_all add: holder_def write_file_def log_event_def)

lemma holder_unlock [simp]:
  "exclusive_locks api \<Longrightarrow> holder api (unlock api p st) = (holder api st)(p := None)"
  by (simp add: holder_def unlock_def exclusive_locks_def del: split_paired_All fun_upd_apply)

lemma locks_simps [simp]:
  "po_locks (write_file p t st) = po_locks st"
  "po_locks (log_event now ev m x st) = po_locks st"
  by (simp_all add: write_file_def log_event_def)

lemma files_simps [simp]:
  "po_files (write_file p t st) = (po_files st)(p := Some t)"
  "po_files (log_event now ev m x st) = po_files st"
  "po_files (unlock api p st) = po_files st"
  by (simp_all add: write_file_def log_event_def unlock_def)

lemma events_simps [simp]:
  "po_events (write_file p t st) = po_events st"
  "po_events (log_event now ev m x st) = po_events st @ [event_payload now ev m x]"
  "po_events (unlock api p st) = po_events st"
  by (simp_all add: write_file_def log_event_def unlock_def)

lemma la_try_law:
  assumes "exclusive_locks api" "la_try api l p who = Some l'"
  shows "la_holder api l p = None" "la_holder api l' = (la_holder api l)(p := Some who)"
  using assms unfolding exclusive_locks_def by blast+

lemma restore_context_simps [simp]:
  "holder api (restore_context token st) = holder api st"
  "po_files (restore_context token st) = po_files st"
  "po_locks (restore_context token st) = po_locks st"
  "po_events (restore_context token st) = po_events st"
  by (cases token; simp add: restore_context_def holder_def)+

subsection \<open>One slot\<close>

text \<open>What a leased slot looks like.\<close>

definition leased_ok :: "'l lock_api \<Rightarrow> resource_kind \<Rightarrow> acquire_request \<Rightarrow> poll \<Rightarrow> lease \<Rightarrow> 'l pool \<Rightarrow> bool" where
  "leased_ok api kind rq pl l st \<longleftrightarrow>
     le_kind l = kind \<and> le_lease_id l = pl_lease_id pl \<and> \<not> le_closed l \<and> le_context_token l = None \<and>
     le_metadata l = lease_metadata kind (le_slot_id l) rq pl \<and>
     po_files st (lease_slot l) = Some (JsonText (JObj (le_metadata l))) \<and>
     holder api st (lease_slot l) = Some (le_lease_id l) \<and>
     po_events st \<noteq> [] \<and> last (po_events st) = event_payload (pl_now pl) ''ACQUIRED'' (le_metadata l)
       [(''queue_wait_seconds'', JReal (pl_record_waited pl))]"

lemma admit_leased:
  assumes "admit api kind slot_id rq pl st = (SlotLeased l, st')"
    and "holder api st (kind, slot_id) = Some (pl_lease_id pl)"
  shows "leased_ok api kind rq pl l st' \<and> le_slot_id l = slot_id \<and> holder api st' = holder api st"
  using assms unfolding admit_def Let_def
  by (auto simp: leased_ok_def lease_slot_def split: if_splits)

lemma admit_not_leased:
  assumes "exclusive_locks api" "admit api kind slot_id rq pl st = (outcome, st')" "\<And>l. outcome \<noteq> SlotLeased l"
  shows "holder api st' = (holder api st)((kind, slot_id) := None)"
  using assms unfolding admit_def Let_def by (auto split: if_splits)

lemma admit_files:
  "admit api kind slot_id rq pl st = (outcome, st') \<Longrightarrow>
     (po_files st p \<noteq> None \<longrightarrow> po_files st' p \<noteq> None) \<and>
     (p \<noteq> (kind, slot_id) \<longrightarrow> po_files st' p = po_files st p)"
  unfolding admit_def Let_def by (auto split: if_splits)

lemma try_slot_leased:
  assumes api: "exclusive_locks api" and run: "try_slot api probe kind slot_id rq pl st = (SlotLeased l, st')"
  shows "leased_ok api kind rq pl l st' \<and> le_slot_id l = slot_id \<and> holder api st (kind, slot_id) = None \<and>
    holder api st' = (holder api st)((kind, slot_id) := Some (pl_lease_id pl)) \<and>
    \<not> (held (read_stream_json (file_text st (kind, slot_id))) \<and>
       probe (read_stream_json (file_text st (kind, slot_id))))"
proof -
  let ?p = "(kind, slot_id)"
  let ?st = "write_file ?p (file_text st ?p) st"
  obtain locks where locks: "la_try api (po_locks ?st) ?p (pl_lease_id pl) = Some locks"
    using run unfolding try_slot_def Let_def by (cases "la_try api (po_locks ?st) ?p (pl_lease_id pl)") simp_all
  let ?st1 = "?st\<lparr>po_locks := locks\<rparr>"
  let ?prev = "read_stream_json (file_text st ?p)"
  have same_text: "file_text ?st1 ?p = file_text st ?p" by (simp add: file_text_def)
  note law = la_try_law [OF api locks]
  have adm: "\<not> (held ?prev \<and> probe ?prev)"
    "admit api kind slot_id rq pl (if held ?prev
       then log_event (pl_now pl) ''RECLAIMED'' ?prev [(''reason'', JStr ''NO_ACTIVE_OWNER_OR_WORKER'')] ?st1
       else ?st1) = (SlotLeased l, st')"
    using run unfolding try_slot_def Let_def locks option.case same_text by (auto split: if_splits)
  have "leased_ok api kind rq pl l st' \<and> le_slot_id l = slot_id \<and> holder api st' = la_holder api locks"
    using admit_leased [OF adm(2)] law by (cases "held ?prev") simp_all
  then show ?thesis using adm(1) law by (simp add: holder_def)
qed

lemma try_slot_not_leased:
  assumes api: "exclusive_locks api" and run: "try_slot api probe kind slot_id rq pl st = (outcome, st')"
    and not_leased: "\<And>l. outcome \<noteq> SlotLeased l"
  shows "holder api st' = holder api st"
proof -
  let ?p = "(kind, slot_id)"
  let ?st = "write_file ?p (file_text st ?p) st"
  show ?thesis
  proof (cases "la_try api (po_locks ?st) ?p (pl_lease_id pl)")
    case None
    then show ?thesis using run unfolding try_slot_def Let_def None option.case by (auto simp del: fun_upd_apply)
  next
    case (Some locks)
    note law = la_try_law [OF api Some]
    have free: "(la_holder api locks)(?p := None) = holder api st"
      using law by (simp add: holder_def fun_upd_idem)
    have unl: "holder api (unlock api ?p (?st\<lparr>po_locks := locks\<rparr>)) = holder api st"
      by (simp only: holder_unlock [OF api] holder_simps free)
    have adm: "holder api st2 = holder api st"
      if "admit api kind slot_id rq pl s1 = (outcome, st2)" "holder api s1 = la_holder api locks" for s1 st2
      using admit_not_leased [OF api that(1) not_leased] that(2) free by simp
    show ?thesis
      using run unl adm unfolding try_slot_def Let_def Some option.case
      by (auto split: if_splits)
  qed
qed

lemma try_slot_files:
  assumes "try_slot api probe kind slot_id rq pl st = (outcome, st')"
  shows "po_files st p \<noteq> None \<Longrightarrow> po_files st' p \<noteq> None"
    "p \<noteq> (kind, slot_id) \<Longrightarrow> po_files st' p = po_files st p"
  using assms unfolding try_slot_def Let_def
  by (auto split: if_splits option.splits dest!: admit_files [where p = p])

subsection \<open>All slots\<close>

lemma try_acquire_leased:
  assumes api: "exclusive_locks api"
  shows "try_acquire api probe kind rq pl slots st = (SlotLeased l, st') \<Longrightarrow>
    leased_ok api kind rq pl l st' \<and> le_slot_id l \<in> set slots \<and>
    holder api st (lease_slot l) = None \<and>
    holder api st' = (holder api st)(lease_slot l := Some (pl_lease_id pl))"
proof (induction slots arbitrary: st)
  case (Cons slot_id rest)
  obtain outcome st1 where step: "try_slot api probe kind slot_id rq pl st = (outcome, st1)" by fastforce
  show ?case
  proof (cases outcome)
    case SlotBusy
    then have same: "holder api st1 = holder api st" using try_slot_not_leased [OF api step] by simp
    have "try_acquire api probe kind rq pl rest st1 = (SlotLeased l, st')"
      using Cons.prems step SlotBusy by simp
    then show ?thesis using Cons.IH [of st1] same by simp
  next
    case (SlotFailed e)
    then show ?thesis using Cons.prems step by simp
  next
    case (SlotLeased l')
    then have "l' = l" "st1 = st'" using Cons.prems step by simp_all
    then show ?thesis
      using try_slot_leased [OF api, of probe kind slot_id rq pl st l st'] step SlotLeased
      by (auto simp: leased_ok_def lease_slot_def)
  qed
qed simp

lemma try_acquire_not_leased:
  assumes api: "exclusive_locks api"
  shows "try_acquire api probe kind rq pl slots st = (outcome, st') \<Longrightarrow> (\<And>l. outcome \<noteq> SlotLeased l) \<Longrightarrow>
    holder api st' = holder api st"
proof (induction slots arbitrary: st)
  case (Cons slot_id rest)
  obtain o1 st1 where step: "try_slot api probe kind slot_id rq pl st = (o1, st1)" by fastforce
  show ?case
  proof (cases o1)
    case SlotBusy
    then have "holder api st1 = holder api st" using try_slot_not_leased [OF api step] by simp
    then show ?thesis using Cons step SlotBusy by simp
  next
    case (SlotFailed e)
    then show ?thesis using try_slot_not_leased [OF api step] Cons.prems step by simp
  next
    case (SlotLeased l')
    then show ?thesis using Cons.prems step by auto
  qed
qed simp

lemma try_acquire_files:
  "try_acquire api probe kind rq pl slots st = (outcome, st') \<Longrightarrow> po_files st p \<noteq> None \<Longrightarrow> po_files st' p \<noteq> None"
proof (induction slots arbitrary: st)
  case (Cons slot_id rest)
  obtain o1 st1 where step: "try_slot api probe kind slot_id rq pl st = (o1, st1)" by fastforce
  have "po_files st1 p \<noteq> None" using try_slot_files(1) [OF step] Cons.prems(2) by blast
  then show ?case using Cons step by (cases o1) simp_all
qed simp

text \<open>A slot whose record may belong to living work is passed over.\<close>

lemma try_acquire_orphan:
  assumes api: "exclusive_locks api"
  shows "try_acquire api probe kind rq pl slots st = (SlotLeased l, st') \<Longrightarrow> distinct slots \<Longrightarrow>
    \<not> (held (read_stream_json (file_text st (lease_slot l))) \<and>
       probe (read_stream_json (file_text st (lease_slot l))))"
proof (induction slots arbitrary: st)
  case (Cons slot_id rest)
  obtain outcome st1 where step: "try_slot api probe kind slot_id rq pl st = (outcome, st1)" by fastforce
  show ?case
  proof (cases outcome)
    case SlotBusy
    then have rest: "try_acquire api probe kind rq pl rest st1 = (SlotLeased l, st')"
      using Cons.prems step by simp
    have "le_slot_id l \<in> set rest" "le_kind l = kind"
      using try_acquire_leased [OF api rest] by (simp_all add: leased_ok_def)
    then have "lease_slot l \<noteq> (kind, slot_id)" using Cons.prems(2) by (auto simp: lease_slot_def)
    then have "file_text st1 (lease_slot l) = file_text st (lease_slot l)"
      using try_slot_files(2) [OF step] by (simp add: file_text_def)
    then show ?thesis using Cons.IH [OF rest] Cons.prems(2) by simp
  next
    case (SlotFailed e)
    then show ?thesis using Cons.prems step by simp
  next
    case (SlotLeased l')
    then have "l' = l" "st1 = st'" using Cons.prems step by simp_all
    then show ?thesis
      using try_slot_leased [OF api, of probe kind slot_id rq pl st l st'] step SlotLeased
      by (simp add: leased_ok_def lease_slot_def)
  qed
qed simp

subsection \<open>The loop of acquire\<close>

lemma acquire_loop_result:
  assumes api: "exclusive_locks api"
  shows "acquire_loop api probe limit kind rq timeout polls queued st = (result, st') \<Longrightarrow>
    (case result of
       Some (Inr l) \<Rightarrow> \<exists>pl \<in> set polls. leased_ok api kind rq pl l st' \<and> le_slot_id l < limit \<and>
         holder api st (lease_slot l) = None \<and>
         holder api st' = (holder api st)(lease_slot l := Some (le_lease_id l))
     | _ \<Rightarrow> holder api st' = holder api st)"
proof (induction polls arbitrary: queued st)
  case (Cons pl pls)
  obtain outcome st1 where step: "try_acquire api probe kind rq pl [0..<limit] st = (outcome, st1)" by fastforce
  show ?case
  proof (cases "pl_cancelled pl")
    case True
    then show ?thesis using Cons.prems by auto
  next
    case False
    show ?thesis
    proof (cases outcome)
      case (SlotLeased l)
      then have "result = Some (Inr l)" "st' = st1" using Cons.prems step False by simp_all
      then show ?thesis
        using try_acquire_leased [OF api step [unfolded SlotLeased]]
        by (auto simp: leased_ok_def)
    next
      case (SlotFailed e)
      then show ?thesis
        using Cons.prems step False try_acquire_not_leased [OF api step] by auto
    next
      case SlotBusy
      then have same: "holder api st1 = holder api st" using try_acquire_not_leased [OF api step] by simp
      define st2 where "st2 = (if queued then st1 else log_event (pl_now pl) ''QUEUED'' (queue_metadata kind rq) [] st1)"
      have same2: "holder api st2 = holder api st" by (simp add: st2_def same)
      have body: "(if \<not> queued \<and> \<not> pl_queue_event_ok pl then (Some (Inl ArbiterOsError), st1)
          else if pl_waited pl \<ge> timeout
          then (if pl_timeout_event_ok pl
                then (Some (Inl (ResourceQueueTimeout kind timeout (pl_waited pl))),
                      log_event (pl_now pl) ''QUEUE_TIMEOUT'' (queue_metadata kind rq)
                        [(''queue_wait_seconds'', JReal (pl_waited pl))] st2)
                else (Some (Inl ArbiterOsError), st2))
          else acquire_loop api probe limit kind rq timeout pls True st2) = (result, st')"
        using Cons.prems(1) unfolding acquire_loop.simps step SlotBusy prod.case slot_outcome.case
          if_not_P [OF False] Let_def st2_def .
      show ?thesis
      proof (cases "(\<not> queued \<and> \<not> pl_queue_event_ok pl) \<or> pl_waited pl \<ge> timeout")
        case True
        then have "(\<exists>e. result = Some (Inl e)) \<and> holder api st' = holder api st"
          using body same same2 by (auto split: if_splits)
        then show ?thesis by auto
      next
        case False
        then have "acquire_loop api probe limit kind rq timeout pls True st2 = (result, st')"
          using body by auto
        from Cons.IH [OF this] show ?thesis
          unfolding same2 by (cases result) (auto split: sum.splits)
      qed
    qed
  qed
qed simp

lemma acquire_loop_returns:
  "\<exists>pl \<in> set polls. pl_cancelled pl \<or> timeout \<le> pl_waited pl \<Longrightarrow>
   fst (acquire_loop api probe limit kind rq timeout polls queued st) \<noteq> None"
proof (induction polls arbitrary: queued st)
  case (Cons pl pls)
  obtain outcome st1 where step: "try_acquire api probe kind rq pl [0..<limit] st = (outcome, st1)" by fastforce
  show ?case
  proof (cases "pl_cancelled pl \<or> timeout \<le> pl_waited pl")
    case True
    then show ?thesis using step by (cases outcome) (auto simp: Let_def)
  next
    case False
    then show ?thesis using Cons step by (cases outcome) (auto simp: Let_def)
  qed
qed simp

lemma acquire_loop_timeout:
  "fst (acquire_loop api probe limit kind rq timeout polls queued st) = Some (Inl (ResourceQueueTimeout k t w)) \<Longrightarrow>
   timeout \<le> w \<and> t = timeout \<and> k = kind \<or>
   (\<exists>pl \<in> set polls. \<exists>st st'. try_acquire api probe kind rq pl [0..<limit] st = (SlotFailed (ResourceQueueTimeout k t w), st'))"
proof (induction polls arbitrary: queued st)
  case (Cons pl pls)
  obtain outcome st1 where step: "try_acquire api probe kind rq pl [0..<limit] st = (outcome, st1)" by fastforce
  then show ?case using Cons by (cases outcome) (auto simp: Let_def split: if_splits)
qed simp

subsection \<open>Closing\<close>

lemma close_lease_result:
  assumes api: "exclusive_locks api" and l: "\<not> le_closed l"
    and close: "close_lease api write_ok event_ok partial outcome now l st = (err, l', st')"
  shows "le_closed l' \<and> lease_slot l' = lease_slot l \<and> le_lease_id l' = le_lease_id l \<and>
    holder api st' = (holder api st)(lease_slot l := None) \<and>
    (\<forall>p. po_files st p \<noteq> None \<longrightarrow> po_files st' p \<noteq> None) \<and>
    (err = None \<longleftrightarrow> write_ok \<and> event_ok) \<and>
    (write_ok \<longrightarrow> po_files st' (lease_slot l) = Some (JsonText (JObj (released_metadata outcome now (le_metadata l)))))"
proof -
  show ?thesis
    using close l unfolding close_lease_def Let_def store_metadata_def
    by (cases write_ok; cases event_ok) (auto simp: api lease_slot_def)
qed

lemma close_lease_twice: "le_closed l \<Longrightarrow> close_lease api wo eo pa oc now l st = (None, l, st)"
  by (simp add: close_lease_def)

section \<open>Processes that share the pool\<close>

text \<open>
  Any number of processes act on one pool, and their steps interleave. One step is one attempt on
  one slot, which is the critical section under the slot's lock, the writing of a queue event, an
  operation on an open lease, its closing, or the death of the process that holds it: the system
  then frees the lock and the record stays \<open>HELD\<close>. \<open>wo_open\<close> are the leases handed out and not yet
  closed.
\<close>

record 'l arbiter_world =
  wo_pool :: "'l pool"
  wo_open :: "lease list"

definition replace_lease :: "lease \<Rightarrow> lease \<Rightarrow> lease list \<Rightarrow> lease list" where
  "replace_lease l l' ls = map (\<lambda>x. if x = l then l' else x) ls"

inductive arbiter_step ::
    "'l lock_api \<Rightarrow> (metadata \<Rightarrow> bool) \<Rightarrow> (string \<times> int) list \<Rightarrow> 'l arbiter_world \<Rightarrow> 'l arbiter_world \<Rightarrow> bool"
  for api :: "'l lock_api" and probe :: "metadata \<Rightarrow> bool" and limits :: "(string \<times> int) list" where
  leased: "slot_id < limit_of limits kind \<Longrightarrow>
    try_slot api probe kind slot_id rq pl (wo_pool w) = (SlotLeased l, st) \<Longrightarrow>
    arbiter_step api probe limits w \<lparr>wo_pool = st, wo_open = l # wo_open w\<rparr>"
| refused: "slot_id < limit_of limits kind \<Longrightarrow>
    try_slot api probe kind slot_id rq pl (wo_pool w) = (outcome, st) \<Longrightarrow> (\<And>l. outcome \<noteq> SlotLeased l) \<Longrightarrow>
    arbiter_step api probe limits w \<lparr>wo_pool = st, wo_open = wo_open w\<rparr>"
| queue_event: "arbiter_step api probe limits w
    \<lparr>wo_pool = log_event now event (queue_metadata kind rq) extra (wo_pool w), wo_open = wo_open w\<rparr>"
| activated: "l \<in> set (wo_open w) \<Longrightarrow> activate l (wo_pool w) = (err, l', st) \<Longrightarrow>
    arbiter_step api probe limits w \<lparr>wo_pool = st, wo_open = replace_lease l l' (wo_open w)\<rparr>"
| worker_updated: "l \<in> set (wo_open w) \<Longrightarrow>
    update_worker ok partial (worker_updates host pid container token_hash now) l (wo_pool w) = (err, l', st) \<Longrightarrow>
    arbiter_step api probe limits w \<lparr>wo_pool = st, wo_open = replace_lease l l' (wo_open w)\<rparr>"
| worker_cleared: "l \<in> set (wo_open w) \<Longrightarrow> clear_worker ok partial now l (wo_pool w) = (err, l', st) \<Longrightarrow>
    arbiter_step api probe limits w \<lparr>wo_pool = st, wo_open = replace_lease l l' (wo_open w)\<rparr>"
| closed: "l \<in> set (wo_open w) \<Longrightarrow>
    close_lease api write_ok event_ok partial outcome_text now l (wo_pool w) = (err, l', st) \<Longrightarrow>
    arbiter_step api probe limits w \<lparr>wo_pool = st, wo_open = remove1 l (wo_open w)\<rparr>"
| died: "l \<in> set (wo_open w) \<Longrightarrow>
    arbiter_step api probe limits w
      \<lparr>wo_pool = unlock api (lease_slot l) (wo_pool w), wo_open = remove1 l (wo_open w)\<rparr>"

inductive_cases arbiter_stepE: "arbiter_step api probe limits w w'"

text \<open>
  The invariant: an open lease is the one holder of its slot, which is below the limit and has a
  file; and no lock is held without a lease.
\<close>

definition lease_inv :: "'l lock_api \<Rightarrow> (string \<times> int) list \<Rightarrow> 'l pool \<Rightarrow> lease \<Rightarrow> bool" where
  "lease_inv api limits st l \<longleftrightarrow> \<not> le_closed l \<and> le_slot_id l < limit_of limits (le_kind l) \<and>
     holder api st (lease_slot l) = Some (le_lease_id l) \<and> po_files st (lease_slot l) \<noteq> None"

definition world_inv :: "'l lock_api \<Rightarrow> (string \<times> int) list \<Rightarrow> 'l arbiter_world \<Rightarrow> bool" where
  "world_inv api limits w \<longleftrightarrow> distinct (map lease_slot (wo_open w)) \<and>
     (\<forall>l \<in> set (wo_open w). lease_inv api limits (wo_pool w) l) \<and>
     (\<forall>p. holder api (wo_pool w) p \<noteq> None \<longrightarrow> p \<in> lease_slot ` set (wo_open w))"

definition initial_world :: "'l lock_api \<Rightarrow> 'l arbiter_world \<Rightarrow> bool" where
  "initial_world api w \<longleftrightarrow> wo_open w = [] \<and> (\<forall>p. holder api (wo_pool w) p = None)"

lemma initial_world_inv: "initial_world api w \<Longrightarrow> world_inv api limits w"
  by (simp add: initial_world_def world_inv_def)

text \<open>What an operation on an open lease leaves alone.\<close>

definition lease_op :: "'l lock_api \<Rightarrow> lease \<Rightarrow> 'l pool \<Rightarrow> lease \<Rightarrow> 'l pool \<Rightarrow> bool" where
  "lease_op api l st l' st' \<longleftrightarrow> lease_slot l' = lease_slot l \<and> le_lease_id l' = le_lease_id l \<and>
     le_closed l' = le_closed l \<and> holder api st' = holder api st \<and>
     (\<forall>p. po_files st p \<noteq> None \<longrightarrow> po_files st' p \<noteq> None)"

lemma lease_slot_simps [simp]:
  "lease_slot (l\<lparr>le_metadata := m\<rparr>) = lease_slot l"
  "lease_slot (l\<lparr>le_context_token := t\<rparr>) = lease_slot l"
  by (simp_all add: lease_slot_def)

lemma lease_ops:
  "activate l st = (err, l', st') \<Longrightarrow> lease_op api l st l' st'"
  "update_worker ok partial ups l st = (err, l', st') \<Longrightarrow> lease_op api l st l' st'"
  "clear_worker ok partial now l st = (err, l', st') \<Longrightarrow> lease_op api l st l' st'"
  unfolding lease_op_def activate_def update_worker_def clear_worker_def store_metadata_def
  by (auto split: if_splits)


lemma lease_inv_mono:
  assumes "lease_inv api limits st l" "holder api st' (lease_slot l) = holder api st (lease_slot l)"
    and "\<And>p. po_files st p \<noteq> None \<Longrightarrow> po_files st' p \<noteq> None"
  shows "lease_inv api limits st' l"
  using assms unfolding lease_inv_def by simp

text \<open>The pool changes without touching the locks.\<close>

lemma world_inv_pool:
  assumes "world_inv api limits w" "holder api st = holder api (wo_pool w)"
    and "\<And>p. po_files (wo_pool w) p \<noteq> None \<Longrightarrow> po_files st p \<noteq> None"
  shows "world_inv api limits \<lparr>wo_pool = st, wo_open = wo_open w\<rparr>"
  using assms lease_inv_mono [of api limits "wo_pool w" _ st] unfolding world_inv_def by simp

text \<open>A lease is added on a slot that was free.\<close>

lemma world_inv_add:
  assumes inv: "world_inv api limits w" and l: "lease_inv api limits st l"
    and free: "holder api (wo_pool w) (lease_slot l) = None"
    and change: "holder api st = (holder api (wo_pool w))(lease_slot l := Some who)"
    and files: "\<And>p. po_files (wo_pool w) p \<noteq> None \<Longrightarrow> po_files st p \<noteq> None"
  shows "world_inv api limits \<lparr>wo_pool = st, wo_open = l # wo_open w\<rparr>"
proof -
  have new: "lease_slot x \<noteq> lease_slot l" if "x \<in> set (wo_open w)" for x
    using inv that free unfolding world_inv_def lease_inv_def by fastforce
  have "lease_inv api limits st x" if x: "x \<in> set (wo_open w)" for x
  proof (rule lease_inv_mono)
    show "lease_inv api limits (wo_pool w) x" using inv x unfolding world_inv_def by blast
    show "holder api st (lease_slot x) = holder api (wo_pool w) (lease_slot x)"
      using new [OF x] by (simp add: change)
  qed (rule files)
  moreover have "lease_slot l \<notin> lease_slot ` set (wo_open w)" using new by (metis imageE)
  moreover have "p \<in> lease_slot ` set (l # wo_open w)" if "holder api st p \<noteq> None" for p
  proof (cases "p = lease_slot l")
    case False
    then have "holder api (wo_pool w) p \<noteq> None" using that by (simp add: change)
    then have "p \<in> lease_slot ` set (wo_open w)" using inv unfolding world_inv_def by blast
    then show ?thesis by simp
  qed simp
  ultimately show ?thesis using inv l unfolding world_inv_def by simp
qed

text \<open>An open lease is replaced by its changed self.\<close>

lemma world_inv_replace:
  assumes inv: "world_inv api limits w" and l: "l \<in> set (wo_open w)"
    and op: "lease_op api l (wo_pool w) l' st"
  shows "world_inv api limits \<lparr>wo_pool = st, wo_open = replace_lease l l' (wo_open w)\<rparr>"
proof -
  note op' = op [unfolded lease_op_def]
  have slots: "map lease_slot (replace_lease l l' xs) = map lease_slot xs" for xs
    using op' by (simp add: replace_lease_def)
  have all: "lease_inv api limits st x" if x: "x \<in> set (wo_open w)" for x
  proof (rule lease_inv_mono)
    show "lease_inv api limits (wo_pool w) x" using inv x unfolding world_inv_def by blast
    show "holder api st (lease_slot x) = holder api (wo_pool w) (lease_slot x)" using op' by simp
    show "po_files st p \<noteq> None" if "po_files (wo_pool w) p \<noteq> None" for p using op' that by blast
  qed
  have "lease_inv api limits st l'"
    using all [OF l] op' unfolding lease_inv_def lease_slot_def by simp
  then have "\<forall>x \<in> set (replace_lease l l' (wo_open w)). lease_inv api limits st x"
    using all by (auto simp: replace_lease_def)
  moreover have "lease_slot ` set (replace_lease l l' (wo_open w)) = lease_slot ` set (wo_open w)"
    using slots [of "wo_open w"] by (metis list.set_map)
  ultimately show ?thesis
    using inv op' unfolding world_inv_def arbiter_world.simps by (simp add: slots)
qed

text \<open>An open lease ends and its lock is freed.\<close>

lemma world_inv_remove:
  assumes inv: "world_inv api limits w" and l: "l \<in> set (wo_open w)"
    and change: "holder api st = (holder api (wo_pool w))(lease_slot l := None)"
    and files: "\<And>p. po_files (wo_pool w) p \<noteq> None \<Longrightarrow> po_files st p \<noteq> None"
  shows "world_inv api limits \<lparr>wo_pool = st, wo_open = remove1 l (wo_open w)\<rparr>"
proof -
  have d: "distinct (map lease_slot (wo_open w))" using inv unfolding world_inv_def by blast
  then have dw: "distinct (wo_open w)" and inj: "inj_on lease_slot (set (wo_open w))"
    by (simp_all add: distinct_map)
  have rest: "set (remove1 l (wo_open w)) = set (wo_open w) - {l}" using dw by (rule set_remove1_eq)
  have other: "lease_slot x \<noteq> lease_slot l" if "x \<in> set (remove1 l (wo_open w))" for x
    using that inj l unfolding rest inj_on_def by blast
  have "distinct (map lease_slot (remove1 l (wo_open w)))"
    using dw inj unfolding distinct_map rest by (simp add: inj_on_diff)
  moreover have "lease_inv api limits st x" if x: "x \<in> set (remove1 l (wo_open w))" for x
  proof (rule lease_inv_mono)
    show "lease_inv api limits (wo_pool w) x" using inv x unfolding world_inv_def rest by blast
    show "holder api st (lease_slot x) = holder api (wo_pool w) (lease_slot x)"
      using other [OF x] by (simp add: change)
  qed (rule files)
  moreover have "p \<in> lease_slot ` set (remove1 l (wo_open w))" if p: "holder api st p \<noteq> None" for p
  proof -
    have "p \<noteq> lease_slot l" "holder api (wo_pool w) p \<noteq> None" using p unfolding change by (auto split: if_splits)
    then show ?thesis using inv unfolding world_inv_def rest by blast
  qed
  ultimately show ?thesis unfolding world_inv_def by simp
qed

lemma arbiter_step_inv:
  assumes api: "exclusive_locks api" and step: "arbiter_step api probe limits w w'" and inv: "world_inv api limits w"
  shows "world_inv api limits w'"
  using step
proof cases
  case (leased slot_id kind rq pl l st)
  note run = try_slot_leased [OF api leased(3)]
  have here: "lease_slot l = (kind, slot_id)" using run by (simp add: leased_ok_def lease_slot_def)
  show ?thesis unfolding leased(1)
  proof (rule world_inv_add [OF inv])
    show "lease_inv api limits st l" using run leased(2) unfolding lease_inv_def leased_ok_def by auto
    show "holder api (wo_pool w) (lease_slot l) = None"
      "holder api st = (holder api (wo_pool w))(lease_slot l := Some (pl_lease_id pl))"
      using run unfolding here by blast+
  qed (rule try_slot_files(1) [OF leased(3)])
next
  case (refused slot_id kind rq pl outcome st)
  show ?thesis unfolding refused(1)
    by (rule world_inv_pool [OF inv try_slot_not_leased [OF api refused(3,4)] try_slot_files(1) [OF refused(3)]])
next
  case (queue_event now event kind rq extra)
  show ?thesis unfolding queue_event by (rule world_inv_pool [OF inv]) simp_all
next
  case (activated l err l' st)
  show ?thesis unfolding activated(1) by (rule world_inv_replace [OF inv activated(2) lease_ops(1) [OF activated(3)]])
next
  case (worker_updated l ok partial host pid container token_hash now err l' st)
  show ?thesis unfolding worker_updated(1)
    by (rule world_inv_replace [OF inv worker_updated(2) lease_ops(2) [OF worker_updated(3)]])
next
  case (worker_cleared l ok partial now err l' st)
  show ?thesis unfolding worker_cleared(1)
    by (rule world_inv_replace [OF inv worker_cleared(2) lease_ops(3) [OF worker_cleared(3)]])
next
  case (closed l write_ok event_ok partial outcome_text now err l' st)
  have "\<not> le_closed l" using inv closed(2) unfolding world_inv_def lease_inv_def by blast
  note run = close_lease_result [OF api this closed(3)]
  show ?thesis unfolding closed(1) by (rule world_inv_remove [OF inv closed(2)]) (use run in blast)+
next
  case (died l)
  show ?thesis unfolding died(1) by (rule world_inv_remove [OF inv died(2)]) (simp_all add: api)
qed

lemma arbiter_reachable_inv:
  assumes "exclusive_locks api" and "(arbiter_step api probe limits)\<^sup>*\<^sup>* w0 w" and "initial_world api w0"
  shows "world_inv api limits w"
  using assms(2,3) by (induction rule: rtranclp_induct) (auto intro: initial_world_inv arbiter_step_inv [OF assms(1)])


section \<open>Properties\<close>

lemma open_leases_below_limit:
  assumes "world_inv api limits w"
  shows "length (filter (\<lambda>l. le_kind l = kind) (wo_open w)) \<le> limit_of limits kind"
proof -
  let ?ls = "filter (\<lambda>l. le_kind l = kind) (wo_open w)"
  have inj: "inj_on lease_slot (set (wo_open w))" and dw: "distinct (wo_open w)"
    using assms by (simp_all add: world_inv_def distinct_map)
  have "inj_on le_slot_id (set ?ls)"
    using inj by (auto simp: inj_on_def lease_slot_def)
  then have "length ?ls = card (le_slot_id ` set ?ls)"
    using card_image [of le_slot_id "set ?ls"] distinct_card [of ?ls] dw by simp
  also have "\<dots> \<le> card {..<limit_of limits kind}"
    using assms by (intro card_mono) (auto simp: world_inv_def lease_inv_def)
  finally show ?thesis by simp
qed

lemma exclusive_try_fails: "exclusive_locks api \<Longrightarrow> la_holder api l p \<noteq> None \<Longrightarrow> la_try api l p who = None"
  using la_try_law(1) [of api l p who] by (cases "la_try api l p who") auto

lemma open_lease_active:
  assumes "exclusive_locks api" "lease_inv api limits st l"
  shows "sx_active (slot_status_of api probe st (le_kind l) (le_slot_id l))"
proof -
  have "la_try api (po_locks st) (le_kind l, le_slot_id l) ''status'' = None"
    using assms by (intro exclusive_try_fails) (auto simp: lease_inv_def holder_def lease_slot_def)
  then show ?thesis
    using assms(2) by (auto simp: slot_status_of_def lease_inv_def lease_slot_def Let_def split: option.split)
qed

lemma length_filter_upt: "length (filter f (map g [0..<n])) = card {i. i < n \<and> f (g i)}"
proof -
  have "{i. i < n \<and> f (map g [0..<n] ! i)} = {i. i < n \<and> f (g i)}" by auto
  then show ?thesis by (simp add: length_filter_conv_card)
qed

lemma in_flight_counts:
  assumes api: "exclusive_locks api" and inv: "world_inv api limits w"
  shows "length (filter (\<lambda>l. le_kind l = kind) (wo_open w))
      \<le> rt_in_flight (resource_status_of api probe limits (wo_pool w) kind)"
    "rt_in_flight (resource_status_of api probe limits (wo_pool w) kind) \<le> limit_of limits kind"
proof -
  let ?ls = "filter (\<lambda>l. le_kind l = kind) (wo_open w)"
  let ?A = "{i. i < limit_of limits kind \<and> sx_active (slot_status_of api probe (wo_pool w) kind i)}"
  have flight: "rt_in_flight (resource_status_of api probe limits (wo_pool w) kind) = card ?A"
    unfolding resource_status_of_def Let_def resource_status.simps by (rule length_filter_upt)
  have inj: "inj_on lease_slot (set (wo_open w))" and dw: "distinct (wo_open w)"
    using inv by (simp_all add: world_inv_def distinct_map)
  have "inj_on le_slot_id (set ?ls)"
    using inj by (auto simp: inj_on_def lease_slot_def)
  then have "length ?ls = card (le_slot_id ` set ?ls)"
    using card_image [of le_slot_id "set ?ls"] distinct_card [of ?ls] dw by simp
  also have "\<dots> \<le> card ?A"
  proof (rule card_mono)
    show "le_slot_id ` set ?ls \<subseteq> ?A"
    proof
      fix i assume "i \<in> le_slot_id ` set ?ls"
      then obtain l where l: "l \<in> set (wo_open w)" "le_kind l = kind" "i = le_slot_id l" by auto
      have ok: "lease_inv api limits (wo_pool w) l" using inv l(1) unfolding world_inv_def by blast
      then have "i < limit_of limits kind" using l unfolding lease_inv_def by simp
      then show "i \<in> ?A" using open_lease_active [OF api ok, of probe] l by simp
    qed
  qed simp
  finally show "length ?ls \<le> rt_in_flight (resource_status_of api probe limits (wo_pool w) kind)"
    by (simp add: flight)
  have "card ?A \<le> card {..<limit_of limits kind}" by (intro card_mono) auto
  then show "rt_in_flight (resource_status_of api probe limits (wo_pool w) kind) \<le> limit_of limits kind"
    by (simp add: flight)
qed

text \<open>
  C5. However the attempts, worker updates, closings and deaths of any number of processes
  interleave: no two open leases have the same slot, the lock of each open lease's slot is held by
  it, a lock is held only for an open lease (none leaks), at most the limit of leases of a kind are
  open, and the status report counts at least the open leases and at most the limit.
\<close>

theorem arbiter_mutual_exclusion:
  assumes "exclusive_locks api" and "initial_world api w0" and "(arbiter_step api probe limits)\<^sup>*\<^sup>* w0 w"
  shows "distinct (map lease_slot (wo_open w)) \<and>
    (\<forall>l \<in> set (wo_open w). holder api (wo_pool w) (lease_slot l) = Some (le_lease_id l)) \<and>
    {p. holder api (wo_pool w) p \<noteq> None} = lease_slot ` set (wo_open w) \<and>
    length (filter (\<lambda>l. le_kind l = kind) (wo_open w)) \<le> limit_of limits kind \<and>
    length (filter (\<lambda>l. le_kind l = kind) (wo_open w))
      \<le> rt_in_flight (resource_status_of api probe limits (wo_pool w) kind) \<and>
    rt_in_flight (resource_status_of api probe limits (wo_pool w) kind) \<le> limit_of limits kind"
proof -
  have inv: "world_inv api limits w" by (rule arbiter_reachable_inv [OF assms(1,3,2)])
  have "{p. holder api (wo_pool w) p \<noteq> None} = lease_slot ` set (wo_open w)"
    using inv unfolding world_inv_def lease_inv_def by fastforce
  then show ?thesis
    using inv open_leases_below_limit [OF inv] in_flight_counts [OF assms(1) inv]
    unfolding world_inv_def lease_inv_def by blast
qed

text \<open>
  C23. \<open>acquire\<close> is all or nothing: it returns a lease whose slot was free, whose lock it now holds,
  whose record is in the slot's file and whose event is the last one logged; or it raises, and every
  lock is held by whom it was held by before. And it returns as soon as the caller cancels or the
  queue timeout has passed.
\<close>

theorem acquire_all_or_nothing:
  assumes api: "exclusive_locks api"
    and acq: "acquire api probe limits kind rq timeout polls st = (result, st')"
  shows "(case result of
       Some (Inr l) \<Rightarrow> (\<exists>pl \<in> set polls. leased_ok api kind rq pl l st') \<and>
         le_slot_id l < limit_of limits kind \<and> holder api st (lease_slot l) = None \<and>
         holder api st' = (holder api st)(lease_slot l := Some (le_lease_id l))
     | _ \<Rightarrow> holder api st' = holder api st) \<and>
    ((\<exists>pl \<in> set polls. pl_cancelled pl \<or> timeout \<le> pl_waited pl) \<longrightarrow> result \<noteq> None)"
proof (cases "timeout \<le> 0")
  case True
  then show ?thesis using acq by (auto simp: acquire_def)
next
  case False
  then have run: "acquire_loop api probe (limit_of limits kind) kind rq timeout polls False st = (result, st')"
    using acq by (simp add: acquire_def)
  show ?thesis
    using acquire_loop_result [OF api run]
      acquire_loop_returns [of polls timeout api probe "limit_of limits kind" kind rq False st]
    by (auto simp: run split: option.splits sum.splits)
qed

text \<open>
  C24. A free lock is not enough: a slot whose record is \<open>HELD\<close> and whose worker or owner process
  lives on this host, whose container still runs, or whose tool worker is on another host, is not
  handed out, and its record stays as it is.
\<close>

theorem orphan_slot_not_reused:
  assumes "exclusive_locks api"
    and "try_slot api (default_orphan_probe host) kind slot_id rq pl st = (outcome, st')"
    and "held m" and "po_files st (kind, slot_id) = Some (JsonText (JObj m))"
    and "identity_of_prefix host m ''worker'' = Some True \<or> identity_of_prefix host m ''owner'' = Some True \<or>
      owned_container_active host m \<or>
      (json_get m ''kind'' = JStr ''eda'' \<and> json_truthy (json_get m ''worker_pid'') \<and>
       json_get m ''worker_hostname'' \<noteq> JStr (hi_hostname host))"
  shows "(\<forall>l. outcome \<noteq> SlotLeased l) \<and> holder api st' = holder api st \<and> po_files st' = po_files st"
proof -
  have m: "read_stream_json (file_text st (kind, slot_id)) = m" by (simp add: file_text_def assms(4))
  have probe: "default_orphan_probe host m" using assms(5) unfolding default_orphan_probe_def by blast
  have no: "outcome \<noteq> SlotLeased l" for l
    using try_slot_leased [OF assms(1), of "default_orphan_probe host" kind slot_id rq pl st l st']
      assms(2,3) probe m by auto
  have "(po_files st)((kind, slot_id) := Some (JsonText (JObj m))) = po_files st"
    by (rule ext) (simp add: assms(4))
  moreover have "po_files st' = (po_files st)((kind, slot_id) := Some (JsonText (JObj m)))"
  proof -
    have text1: "file_text (write_file (kind, slot_id) t st\<lparr>po_locks := ls\<rparr>) (kind, slot_id) = t" for t ls
      by (simp add: file_text_def)
    have text0: "file_text st (kind, slot_id) = JsonText (JObj m)" by (simp add: file_text_def assms(4))
    show ?thesis
      using assms(2,3) probe unfolding try_slot_def Let_def text1 text0
      by (auto simp del: fun_upd_apply split: option.splits if_splits)
  qed
  ultimately show ?thesis using no try_slot_not_leased [OF assms(1,2) no] by simp
qed

text \<open>
  C25. Closing an open lease frees its lock whatever fails on the way, touches no other lock, and
  raises exactly when the record or the event could not be written; when the record is written the
  slot reads \<open>RELEASED\<close>, so the next attempt on it needs no orphan check. A second close does nothing.
\<close>

theorem close_always_frees:
  assumes "exclusive_locks api" and "\<not> le_closed l"
    and "close_lease api write_ok event_ok partial outcome now l st = (err, l', st')"
  shows "le_closed l' \<and> holder api st' = (holder api st)(lease_slot l := None) \<and>
    (err = None \<longleftrightarrow> write_ok \<and> event_ok) \<and>
    (write_ok \<longrightarrow> \<not> held (read_stream_json (file_text st' (lease_slot l)))) \<and>
    close_lease api write_ok2 event_ok2 partial2 outcome2 now2 l' st' = (None, l', st')"
proof -
  note run = close_lease_result [OF assms]
  have "\<not> held (released_metadata outcome now (le_metadata l))"
    by (simp add: held_def released_metadata_def cleared_worker_def dict_update_def json_get_def)
  then show ?thesis using run close_lease_twice [of l'] by (simp add: file_text_def)
qed

subsection \<open>An example\<close>

text \<open>A lock table, two calls that take the first two slots, and a third that waits in vain.\<close>

definition table_api :: "(slot \<Rightarrow> string option) lock_api" where
  "table_api = \<lparr>la_try = (\<lambda>l p who. if l p = None then Some (l(p := Some who)) else None),
     la_release = (\<lambda>l p. l(p := None)), la_holder = (\<lambda>l. l)\<rparr>"

lemma table_api_law: "exclusive_locks table_api"
  by (simp add: exclusive_locks_def table_api_def)

definition empty_pool :: "(slot \<Rightarrow> string option) pool" where
  "empty_pool = \<lparr>po_files = (\<lambda>p. None), po_locks = (\<lambda>p. None), po_events = [], po_current = None\<rparr>"

definition example_request :: acquire_request where
  "example_request = \<lparr>rq_owner_id = ''o'', rq_run_id = ''r'', rq_attempt_id = ''a'', rq_purpose = ''p'',
     rq_hostname = ''h'', rq_pid = 7, rq_pid_start_ticks = None, rq_boot_id = None\<rparr>"

definition example_poll :: "string \<Rightarrow> real \<Rightarrow> poll" where
  "example_poll lease_id waited = \<lparr>pl_lease_id = lease_id, pl_now = ''t'', pl_cancelled = False,
     pl_record_waited = 0, pl_waited = waited, pl_read_ok = (\<lambda>i. True), pl_reclaim_event_ok = (\<lambda>i. True),
     pl_write_ok = True, pl_acquired_event_ok = True, pl_release_write_ok = True,
     pl_queue_event_ok = True, pl_timeout_event_ok = True, pl_partial = InvalidText\<rparr>"

definition example_limits :: "(string \<times> int) list" where
  "example_limits = [(''http'', 2), (''eda'', 1)]"

definition example_slot :: "nat \<Rightarrow> string \<Rightarrow> (slot \<Rightarrow> string option) pool \<Rightarrow> slot_outcome \<times> (slot \<Rightarrow> string option) pool" where
  "example_slot i lease_id st = try_slot table_api (\<lambda>m. True) Http i example_request (example_poll lease_id 0) st"

definition pool_one :: "(slot \<Rightarrow> string option) pool" where
  "pool_one = snd (example_slot 0 ''l1'' empty_pool)"

definition pool_two :: "(slot \<Rightarrow> string option) pool" where
  "pool_two = snd (example_slot 1 ''l2'' pool_one)"

definition example_lease :: "nat \<Rightarrow> string \<Rightarrow> lease" where
  "example_lease i lease_id =
     \<lparr>le_kind = Http, le_slot_id = i, le_lease_id = lease_id,
      le_metadata = lease_metadata Http i example_request (example_poll lease_id 0), le_wait_seconds = 0,
      le_closed = False, le_context_token = None\<rparr>"

lemma example_slots:
  "example_slot 0 ''l1'' empty_pool = (SlotLeased (example_lease 0 ''l1''), pool_one)"
  "example_slot 1 ''l2'' pool_one = (SlotLeased (example_lease 1 ''l2''), pool_two)"
  by (simp_all add: pool_two_def pool_one_def example_slot_def try_slot_def admit_def Let_def table_api_def
      empty_pool_def example_poll_def example_lease_def file_text_def write_file_def log_event_def held_def
      json_get_def)

definition example_world :: "(slot \<Rightarrow> string option) arbiter_world" where
  "example_world = \<lparr>wo_pool = empty_pool, wo_open = []\<rparr>"

lemma arbiter_example_run:
  "(arbiter_step table_api (\<lambda>m. True) example_limits)\<^sup>*\<^sup>* example_world
     \<lparr>wo_pool = pool_two, wo_open = [example_lease 1 ''l2'', example_lease 0 ''l1'']\<rparr>"
proof -
  let ?w1 = "\<lparr>wo_pool = pool_one, wo_open = [example_lease 0 ''l1'']\<rparr>"
  have limit: "limit_of example_limits Http = 2" by (simp add: limit_of_def example_limits_def)
  have "arbiter_step table_api (\<lambda>m. True) example_limits example_world ?w1"
    using arbiter_step.leased [of 0 example_limits Http table_api "\<lambda>m. True" example_request
        "example_poll ''l1'' 0" example_world "example_lease 0 ''l1''" pool_one] example_slots(1) limit
    by (simp add: example_slot_def example_world_def)
  moreover have "arbiter_step table_api (\<lambda>m. True) example_limits ?w1
      \<lparr>wo_pool = pool_two, wo_open = [example_lease 1 ''l2'', example_lease 0 ''l1'']\<rparr>"
    using arbiter_step.leased [of 1 example_limits Http table_api "\<lambda>m. True" example_request
        "example_poll ''l2'' 0" ?w1 "example_lease 1 ''l2''" pool_two] example_slots(2) limit
    by (simp add: example_slot_def)
  ultimately show ?thesis by (meson converse_rtranclp_into_rtranclp rtranclp.rtrancl_refl)
qed

lemma arbiter_mutual_exclusion_witness:
  "2 \<le> rt_in_flight (resource_status_of table_api (\<lambda>m. True) example_limits pool_two Http)"
proof -
  have "initial_world table_api example_world"
    by (simp add: initial_world_def example_world_def holder_def table_api_def empty_pool_def)
  from arbiter_mutual_exclusion [OF table_api_law this arbiter_example_run, of Http]
  show ?thesis by (simp add: example_lease_def)
qed

lemma acquire_all_or_nothing_witness:
  "fst (acquire table_api (\<lambda>m. True) example_limits Http example_request 5
      [example_poll ''l3'' 1, example_poll ''l4'' 5] pool_two) \<noteq> None"
proof -
  let ?run = "acquire table_api (\<lambda>m. True) example_limits Http example_request 5
      [example_poll ''l3'' 1, example_poll ''l4'' 5] pool_two"
  have late: "\<exists>pl \<in> set [example_poll ''l3'' 1, example_poll ''l4'' 5]. pl_cancelled pl \<or> 5 \<le> pl_waited pl"
    by (simp add: example_poll_def)
  show ?thesis
    using acquire_all_or_nothing [OF table_api_law prod.collapse [symmetric, of ?run]] late by blast
qed

lemma orphan_slot_not_reused_witness:
  "\<forall>l. fst (try_slot table_api (default_orphan_probe \<lparr>hi_hostname = ''h'', hi_boot_id = None,
       hi_pid_stat = (\<lambda>p. Some (5, ''S'')), hi_inspect = (\<lambda>n. None), hi_str = (\<lambda>v. [])\<rparr>) Http 0
       example_request (example_poll ''l3'' 0) (unlock table_api (Http, 0) pool_one)) \<noteq> SlotLeased l"
proof -
  let ?host = "\<lparr>hi_hostname = ''h'', hi_boot_id = None, hi_pid_stat = (\<lambda>p. Some (5, ''S'')),
     hi_inspect = (\<lambda>n. None), hi_str = (\<lambda>v. [])\<rparr>"
  let ?m = "lease_metadata Http 0 example_request (example_poll ''l1'' 0)"
  have stored: "po_files (unlock table_api (Http, 0) pool_one) (Http, 0) = Some (JsonText (JObj ?m))"
    by (simp add: pool_one_def example_slot_def try_slot_def admit_def Let_def table_api_def
      empty_pool_def example_poll_def file_text_def write_file_def log_event_def held_def json_get_def)
  have h: "held ?m" by (simp add: held_def json_get_def lease_metadata_def Let_def)
  have "identity_of_prefix ?host ?m ''owner'' = Some True"
    by (simp add: identity_of_prefix_def process_identity_alive_def json_get_def lease_metadata_def Let_def
        example_request_def)
  then show ?thesis
    using orphan_slot_not_reused [OF table_api_law prod.collapse [symmetric] h stored, of ?host example_request
        "example_poll ''l3'' 0"] by blast
qed

lemma close_always_frees_witness:
  "holder table_api (snd (snd (close_lease table_api False True InvalidText ''RAISED'' ''t''
      (example_lease 0 ''l1'') pool_one))) (Http, 0) = None"
proof -
  let ?run = "close_lease table_api False True InvalidText ''RAISED'' ''t'' (example_lease 0 ''l1'') pool_one"
  have op: "\<not> le_closed (example_lease 0 ''l1'')" by (simp add: example_lease_def)
  have run: "?run = (fst ?run, fst (snd ?run), snd (snd ?run))" by simp
  have "holder table_api (snd (snd ?run)) = (holder table_api pool_one)(lease_slot (example_lease 0 ''l1'') := None)"
    using close_always_frees [OF table_api_law op run] by blast
  then show ?thesis by (simp add: lease_slot_def example_lease_def)
qed

end
