(* ===== verification/Json_Values.thy ===== *)
theory Json_Values
  imports Connectivity_Map
begin

text \<open>
  What Python does with a value that was read from JSON: conversion to a number, indexing, \<open>get\<close> and
  equality, each with the exception that it raises on a value of the wrong type.
\<close>

text \<open>\<open>int(v)\<close>, \<open>d[k]\<close>, \<open>d.get(k)\<close> for a key that may be any value, and \<open>v.get(k)\<close>.\<close>

definition int_value :: "json \<Rightarrow> int result" where
  "int_value v =
     (case py_int v of
        Some i \<Rightarrow> Inr i
      | None \<Rightarrow> (case v of JStr s \<Rightarrow> Inl (ValueError ''int()'') | _ \<Rightarrow> Inl (TypeError ''int()'')))"

definition json_item :: "(string \<times> json) list \<Rightarrow> string \<Rightarrow> json result" where
  "json_item d k = (case map_of d k of None \<Rightarrow> Inl (KeyError k) | Some v \<Rightarrow> Inr v)"

definition get_by_value :: "(string \<times> json) list \<Rightarrow> json \<Rightarrow> json result" where
  "get_by_value d key =
     (case key of
        JStr k \<Rightarrow> Inr (json_get d k)
      | JList xs \<Rightarrow> Inl (TypeError ''unhashable type'')
      | JObj kvs \<Rightarrow> Inl (TypeError ''unhashable type'')
      | _ \<Rightarrow> Inr JNull)"

definition get_of_value :: "json \<Rightarrow> string \<Rightarrow> json result" where
  "get_of_value v k = (case v of JObj d \<Rightarrow> Inr (json_get d k) | _ \<Rightarrow> Inl (AttributeError ''get''))"

text \<open>
  \<open>==\<close> on JSON values: numbers and truth values compare by number, objects whatever their order.
\<close>

primrec number_norm :: "json \<Rightarrow> json" where
  "number_norm JNull = JNull"
| "number_norm (JBool b) = JReal (if b then 1 else 0)"
| "number_norm (JInt i) = JReal (real_of_int i)"
| "number_norm (JReal r) = JReal r"
| "number_norm (JStr s) = JStr s"
| "number_norm (JList xs) = JList (map number_norm xs)"
| "number_norm (JObj kvs) = JObj (map (map_prod id number_norm) kvs)"

definition py_equal :: "json \<Rightarrow> json \<Rightarrow> bool" where
  "py_equal a b \<longleftrightarrow> json_norm (number_norm a) = json_norm (number_norm b)"

definition opt_string :: "string option \<Rightarrow> json" where
  "opt_string s = (case s of None \<Rightarrow> JNull | Some t \<Rightarrow> JStr t)"

end
