(* ===== verification/Candidate_Checks.thy ===== *)
theory Candidate_Checks
  imports Action_Schemas Json_Values Agent_Graph
begin

text \<open>
  The deterministic checker of repair candidates (\<open>src/drc_agent/actions/candidates.py\<close>), with the
  state of the design that it reads (\<open>DesignState\<close> of \<open>schemas/action.py\<close>). A candidate passes six
  levels in turn: identity, targets and influence (0), source anchors (1), editability (2), geometry,
  semantics and locality (3), resources (4), anchors of the mutations (5). The first check that fails
  ends the validation with its code.

  An exception that Python raises on the way is the value \<open>Inl\<close>. \<open>model_validate\<close> of the two classes
  that the checker parses is pydantic's and a parameter, as are the compiled proof engine,
  \<open>stable_hash\<close> and \<open>str\<close> of a JSON value that is not a string.
\<close>

record design_state =
  dn_case_id :: "string"
  dn_die_boundary :: "box option"
  dn_legal_layers :: "string set"
  dn_objects :: "(string \<times> json) list"
  dn_violations :: "(string \<times> json) list"
  dn_local_topology :: "(string \<times> json) list"
  dn_physical_geometries :: "(string \<times> json) list"
  dn_rule_predicates :: "(string \<times> json) list"
  dn_rule_witnesses :: "(string \<times> json) list"
  dn_rule_knowledge_packs :: "(string \<times> json) list"
  dn_source_hashes :: "(string \<times> string) list"
  dn_resource_capacities :: "(string \<times> int) list"
  dn_manufacturing_grid_dbu :: "int"
  dn_dbu_per_um :: "int"

record check_env =
  ck_object :: "json \<Rightarrow> layout_object option"
  ck_box :: "json \<Rightarrow> box option"
  ck_prove :: "repair_candidate \<Rightarrow> (string \<times> violation_record) list \<Rightarrow>
    (string \<times> layout_object list) list \<Rightarrow> rule_catalog option \<Rightarrow> rule_benefit_proof list"
  ck_str :: "json \<Rightarrow> string"
  ck_hash :: "json \<Rightarrow> string"

text \<open>The values of the enumeration \<open>ActionType\<close>, which \<open>action_family\<close> is compared with.\<close>

fun action_text :: "action_type \<Rightarrow> string" where
  "action_text ActNoOp = ''NO_OP''"
| "action_text ActMoveShape = ''MOVE_SHAPE''"
| "action_text ActResizeShape = ''RESIZE_SHAPE''"
| "action_text ActAdjustEndpoint = ''ADJUST_ENDPOINT''"
| "action_text ActAddPolygon = ''ADD_POLYGON''"
| "action_text ActDeletePolygon = ''DELETE_POLYGON''"
| "action_text ActMoveViaStack = ''MOVE_VIA_STACK''"
| "action_text ActAddViaStack = ''ADD_VIA_STACK''"
| "action_text ActDeleteViaStack = ''DELETE_VIA_STACK''"
| "action_text ActReplaceViaStack = ''REPLACE_VIA_STACK''"
| "action_text ActChangeLayer = ''CHANGE_LAYER''"
| "action_text ActLocalDetour = ''LOCAL_DETOUR''"
| "action_text ActLocalReroute = ''LOCAL_REROUTE''"
| "action_text ActInstanceSpecialization = ''INSTANCE_SPECIALIZATION''"

section \<open>Python's operations on JSON values\<close>

definition validate_object :: "check_env \<Rightarrow> json \<Rightarrow> layout_object result" where
  "validate_object env raw =
     (case ck_object env raw of None \<Rightarrow> Inl (ValueError ''LayoutObject'') | Some obj \<Rightarrow> Inr obj)"

definition validate_box :: "check_env \<Rightarrow> json \<Rightarrow> box result" where
  "validate_box env raw = (case ck_box env raw of None \<Rightarrow> Inl (ValueError ''Box'') | Some b \<Rightarrow> Inr b)"

text \<open>\<open>str(v)\<close>.\<close>

definition str_value :: "check_env \<Rightarrow> json \<Rightarrow> string" where
  "str_value env v = (case v of JStr s \<Rightarrow> s | _ \<Rightarrow> ck_str env v)"

text \<open>\<open>any\<close> and \<open>all\<close> over tests that may raise: they stop at the first true, the first false.\<close>

fun any_result :: "('a \<Rightarrow> bool result) \<Rightarrow> 'a list \<Rightarrow> bool result" where
  "any_result f [] = Inr False"
| "any_result f (x # xs) = bind_result (f x) (\<lambda>b. if b then Inr True else any_result f xs)"

definition all_result :: "('a \<Rightarrow> bool result) \<Rightarrow> 'a list \<Rightarrow> bool result" where
  "all_result f xs =
     bind_result (any_result (\<lambda>x. bind_result (f x) (\<lambda>b. Inr (\<not> b))) xs) (\<lambda>b. Inr (\<not> b))"

section \<open>The no-op candidate (make\_noop\_candidate)\<close>

definition default_benefit_evidence :: benefit_evidence where
  "default_benefit_evidence =
     \<lparr>be_proof_status = ProofNone, be_proof_codes = [], be_rule_proofs = [],
      be_proven_removed_violation_ids = [], be_proven_drc_benefit_lb = 0,
      be_heuristic_removed_violation_ids = [], be_heuristic_drc_benefit_est = 0,
      be_sandbox = default_sandbox_evidence\<rparr>"

definition make_noop_candidate :: "check_env \<Rightarrow> region_state \<Rightarrow> string \<Rightarrow> repair_candidate" where
  "make_noop_candidate env region subgraph_id =
     \<lparr>c_schema_version = ''2.0'', c_candidate_id = rg_region_id region @ '':noop'',
      c_region_id = rg_region_id region, c_subgraph_id = subgraph_id, c_rank_from_agent = 0,
      c_action_family = ''NO_OP'', c_edits = [], c_semantic_objective = ''AUTO'',
      c_semantic_postconditions = [], c_target_violation_ids = [], c_target_object_ids = [],
      c_affected_object_ids = [], c_affected_net_ids = [], c_affected_connectivity_component_ids = [],
      c_affected_physical_geometry_ids = [], c_source_targets = [],
      c_edit_footprint_dbu = rg_bbox_dbu region, c_required_resources = [], c_released_resources = [],
      c_benefit_evidence = default_benefit_evidence\<lparr>be_proof_status := ProofProven,
        be_proof_codes := [''NO_OP_ZERO_EFFECT'']\<rparr>,
      c_predicted_introduced_rule_ids = [], c_predicted_timing_delta = None,
      c_predicted_side_effects = [], c_preconditions = [], c_postconditions = [],
      c_requires_candidate_ids = [], c_excludes_candidate_ids = [], c_cooperates_with_hints = [],
      c_experience_support_ids = [], c_agent_confidence_milli = 0,
      c_estimated_disturbance = \<lparr>de_modified_objects = 0, de_area_dbu2 = 0, de_via_operations = 0,
        de_explicit_risk_milli = 0\<rparr>,
      c_estimated_cost = \<lparr>ce_patch_operations = 0, ce_preview_calls = 0, ce_runtime_millis = 0\<rparr>,
      c_validation_status = StatusValid, c_validation_issues = [],
      c_semantic_fingerprint = ck_hash env (JList [JStr (rg_region_id region), JStr ''NO_OP''])\<rparr>"

section \<open>Geometric effect (\_after\_box, \_heuristic\_effect)\<close>

definition after_polygons :: "layout_edit \<Rightarrow> point list list" where
  "after_polygons e = (case ed_geometry_after_dbu e of None \<Rightarrow> [] | Some ps \<Rightarrow> ps)"

definition before_polygons :: "layout_edit \<Rightarrow> point list list" where
  "before_polygons e = (case ed_geometry_before_dbu e of None \<Rightarrow> [] | Some ps \<Rightarrow> ps)"

definition after_box :: "repair_candidate \<Rightarrow> string \<Rightarrow> box option result" where
  "after_box cand object_id =
     (let points = concat (concat (map after_polygons
                     (filter (\<lambda>e. object_id \<in> set (ed_target_object_ids e)) (c_edits cand))))
      in if points = [] then Inr None else bind_result (geometry_box points) (\<lambda>b. Inr (Some b)))"

definition resizing :: "repair_candidate \<Rightarrow> bool" where
  "resizing cand \<longleftrightarrow> c_action_family cand \<in> {action_text ActResizeShape, action_text ActAdjustEndpoint}"

definition improves :: "repair_candidate \<Rightarrow> violation_record \<Rightarrow> box \<Rightarrow> box \<Rightarrow> bool" where
  "improves cand v before after =
     (let marker = v_marker_bbox_dbu v in
      case v_rule_family v of
        FamilySpacing \<Rightarrow> box_gap after marker > box_gap before marker
      | FamilyShort \<Rightarrow> box_gap after marker > box_gap before marker
      | FamilyWidth \<Rightarrow> resizing cand \<and>
          (box_width after > box_width before \<or> box_height after > box_height before)
      | FamilyArea \<Rightarrow> resizing cand \<and> box_area after > box_area before
      | FamilyEnclosure \<Rightarrow> resizing cand \<and> box_area after > box_area before
      | FamilyAlignment \<Rightarrow> centroid_distance after marker < centroid_distance before marker
      | _ \<Rightarrow> False)"

text \<open>The same test without square roots, by which it is evaluated.\<close>

definition gap_squared :: "box \<Rightarrow> box \<Rightarrow> int" where
  "gap_squared a b = gap_dx a b * gap_dx a b + gap_dy a b * gap_dy a b"

definition centroid_squared :: "box \<Rightarrow> box \<Rightarrow> real" where
  "centroid_squared l r =
     (fst (box_centroid l) - fst (box_centroid r)) ^ 2 + (snd (box_centroid l) - snd (box_centroid r)) ^ 2"

lemma improves_squared [code]:
  "improves cand v before after =
     (let marker = v_marker_bbox_dbu v in
      case v_rule_family v of
        FamilySpacing \<Rightarrow> gap_squared after marker > gap_squared before marker
      | FamilyShort \<Rightarrow> gap_squared after marker > gap_squared before marker
      | FamilyWidth \<Rightarrow> resizing cand \<and>
          (box_width after > box_width before \<or> box_height after > box_height before)
      | FamilyArea \<Rightarrow> resizing cand \<and> box_area after > box_area before
      | FamilyEnclosure \<Rightarrow> resizing cand \<and> box_area after > box_area before
      | FamilyAlignment \<Rightarrow> centroid_squared after marker < centroid_squared before marker
      | _ \<Rightarrow> False)"
  unfolding improves_def Let_def
  by (simp add: box_gap_def gap_squared_def centroid_distance_def centroid_squared_def del: of_int_add of_int_mult
      split: rule_family.split)

definition heuristic_effect ::
    "repair_candidate \<Rightarrow> violation_record \<Rightarrow> layout_object list \<Rightarrow> bool result" where
  "heuristic_effect cand v objs =
     any_result (\<lambda>obj. bind_result (after_box cand (lo_object_id obj)) (\<lambda>a.
       case a of None \<Rightarrow> Inr False | Some after \<Rightarrow> Inr (improves cand v (lo_bbox_dbu obj) after))) objs"

section \<open>Local decomposition (\_proven\_local\_decomposition)\<close>

definition decomposition_predicates :: "repair_candidate \<Rightarrow> predicate list" where
  "decomposition_predicates cand =
     filter (\<lambda>p. pr_kind p = ''local_fragment_decomposition'') (c_semantic_postconditions cand)"

text \<open>\<open>(design.local\_topology.get("fragments") or {}).get(fragment\_id)\<close>; \<open>JNull\<close> is \<open>None\<close>.\<close>

definition local_fragment :: "design_state \<Rightarrow> json \<Rightarrow> json result" where
  "local_fragment design fragment_id =
     (if dn_local_topology design = [] then Inr JNull
      else let fragments = json_get (dn_local_topology design) ''fragments'' in
        if \<not> json_truthy fragments then get_by_value [] fragment_id
        else (case fragments of
                JObj d \<Rightarrow> get_by_value d fragment_id
              | _ \<Rightarrow> Inl (AttributeError ''get'')))"

text \<open>The fragment, its parent and the anchor name each other, and the boxes are the stated ones.\<close>

definition ownership_agrees :: "json \<Rightarrow> layout_object \<Rightarrow> json \<Rightarrow> json \<Rightarrow> bool result" where
  "ownership_agrees fragment parent parent_id anchor =
     bind_result (get_of_value fragment ''parent_object_id'') (\<lambda>p.
       if \<not> py_equal p parent_id then Inr False
       else bind_result (get_of_value fragment ''parent_source_anchor_id'') (\<lambda>a.
         Inr (py_equal a anchor \<and> py_equal (opt_string (lo_source_anchor_id parent)) anchor \<and>
              lo_source_span parent \<noteq> None \<and> lo_insertion_source_span parent \<noteq> None)))"

definition targets_only :: "layout_edit \<Rightarrow> json \<Rightarrow> bool" where
  "targets_only e v \<longleftrightarrow> (case ed_target_object_ids e of [t] \<Rightarrow> py_equal (JStr t) v | _ \<Rightarrow> False)"

definition anchored_only :: "layout_edit \<Rightarrow> json \<Rightarrow> bool" where
  "anchored_only e v \<longleftrightarrow> (case ed_source_anchor_ids e of [t] \<Rightarrow> py_equal (JStr t) v | _ \<Rightarrow> False)"

definition parent_deletes :: "repair_candidate \<Rightarrow> json \<Rightarrow> layout_edit list" where
  "parent_deletes cand parent_id =
     filter (\<lambda>e. ed_op e = ActDeletePolygon \<and> targets_only e parent_id) (c_edits cand)"

definition parent_replacements :: "repair_candidate \<Rightarrow> json \<Rightarrow> layout_edit list" where
  "parent_replacements cand parent_id =
     filter (\<lambda>e. ed_op e = ActAddPolygon \<and> targets_only e parent_id \<and> after_polygons e \<noteq> []) (c_edits cand)"

definition side_pieces :: "repair_candidate \<Rightarrow> layout_edit list" where
  "side_pieces cand =
     filter (\<lambda>e. ed_op e = ActAddPolygon \<and> ed_target_object_ids e = [] \<and> after_polygons e \<noteq> []) (c_edits cand)"

definition first_after_box :: "layout_edit \<Rightarrow> box result" where
  "first_after_box e = geometry_box (hd (after_polygons e))"

text \<open>The side pieces touch the fragment; joined with the replacement they span the parent.\<close>

fun combine_sides :: "box \<Rightarrow> box \<Rightarrow> box list \<Rightarrow> box option result" where
  "combine_sides fragment_box combined [] = Inr (Some combined)"
| "combine_sides fragment_box combined (b # bs) =
     (if \<not> box_intersects b fragment_box then Inr None
      else bind_result (box_union combined b) (\<lambda>c. combine_sides fragment_box c bs))"

definition spans_parent :: "box \<Rightarrow> box \<Rightarrow> bool" where
  "spans_parent combined parent_box \<longleftrightarrow>
     (if box_width parent_box \<ge> box_height parent_box
      then bx_x1 combined = bx_x1 parent_box \<and> bx_x2 combined = bx_x2 parent_box
      else bx_y1 combined = bx_y1 parent_box \<and> bx_y2 combined = bx_y2 parent_box)"

definition replacement_covers :: "repair_candidate \<Rightarrow> json \<Rightarrow> layout_object \<Rightarrow> box \<Rightarrow> bool result" where
  "replacement_covers cand parent_id parent fragment_box =
     bind_result (first_after_box (hd (parent_replacements cand parent_id))) (\<lambda>replacement_box.
       if \<not> box_intersects replacement_box fragment_box then Inr False
       else bind_result (map_result first_after_box (side_pieces cand)) (\<lambda>side_boxes.
         if side_boxes = [] then Inr True
         else bind_result (combine_sides fragment_box replacement_box side_boxes) (\<lambda>r.
           case r of None \<Rightarrow> Inr False | Some combined \<Rightarrow> Inr (spans_parent combined (lo_bbox_dbu parent)))))"

definition one_replacement_group :: "layout_edit list \<Rightarrow> bool" where
  "one_replacement_group edits \<longleftrightarrow>
     (let groups = set (map ed_replacement_group_id edits) in card groups = 1 \<and> None \<notin> groups)"

text \<open>The edits: one deletion and one replacement of the parent, the stated number of side pieces,
  all on the one anchor and in one group.\<close>

definition decomposition_edits ::
    "repair_candidate \<Rightarrow> (string \<times> json) list \<Rightarrow> json \<Rightarrow> json \<Rightarrow> bool result" where
  "decomposition_edits cand parameters parent_id anchor =
     (if length (parent_deletes cand parent_id) \<noteq> 1 \<or> length (parent_replacements cand parent_id) \<noteq> 1
      then Inr False
      else bind_result (int_value (case map_of parameters ''side_piece_count'' of None \<Rightarrow> JInt (-1) | Some v \<Rightarrow> v))
        (\<lambda>n. Inr (int (length (side_pieces cand)) = n \<and>
                  (\<forall>e \<in> set (c_edits cand). anchored_only e anchor) \<and>
                  one_replacement_group (c_edits cand))))"

definition decomposition_of_parent ::
    "check_env \<Rightarrow> repair_candidate \<Rightarrow> (string \<times> json) list \<Rightarrow> json \<Rightarrow> json \<Rightarrow> layout_object \<Rightarrow> bool result" where
  "decomposition_of_parent env cand parameters fragment parent_id parent =
     (let anchor = json_get parameters ''parent_source_anchor_id'' in
      bind_result (ownership_agrees fragment parent parent_id anchor) (\<lambda>owned.
        if \<not> owned then Inr False
        else bind_result (validate_box env (json_get parameters ''changed_footprint_dbu'')) (\<lambda>changed.
          if changed \<noteq> c_edit_footprint_dbu cand then Inr False
          else bind_result (case fragment of JObj d \<Rightarrow> json_item d ''bbox_dbu'' | _ \<Rightarrow> Inl (TypeError ''[]'')) (\<lambda>raw.
            bind_result (validate_box env raw) (\<lambda>fragment_box.
              bind_result (validate_box env (json_get parameters ''fragment_bbox_dbu'')) (\<lambda>stated.
                if stated \<noteq> fragment_box then Inr False
                else bind_result (decomposition_edits cand parameters parent_id anchor) (\<lambda>ok.
                  if \<not> ok then Inr False
                  else replacement_covers cand parent_id parent fragment_box)))))))"

definition proven_local_decomposition :: "check_env \<Rightarrow> repair_candidate \<Rightarrow> design_state \<Rightarrow> bool result" where
  "proven_local_decomposition env cand design =
     (case decomposition_predicates cand of
        [predicate] \<Rightarrow>
          (let parameters = pr_parameters predicate in
           bind_result (local_fragment design (json_get parameters ''fragment_id'')) (\<lambda>fragment.
             if \<not> json_truthy fragment then Inr False
             else let parent_id = json_get parameters ''parent_object_id'' in
               bind_result (get_by_value (dn_objects design) parent_id) (\<lambda>parent_raw.
                 if parent_raw = JNull then Inr False
                 else bind_result (validate_object env parent_raw) (\<lambda>parent.
                   decomposition_of_parent env cand parameters fragment parent_id parent))))
      | _ \<Rightarrow> Inr False)"

text \<open>\<open>violation\_id in set(fragment.get("violation\_ids") or [])\<close>.\<close>

definition value_contains :: "json \<Rightarrow> string \<Rightarrow> bool result" where
  "value_contains v x =
     (if \<not> json_truthy v then Inr False
      else case json_iter v of
        None \<Rightarrow> Inl (TypeError ''not iterable'')
      | Some xs \<Rightarrow>
          if \<exists>y \<in> set xs. (case y of JList _ \<Rightarrow> True | JObj _ \<Rightarrow> True | _ \<Rightarrow> False)
          then Inl (TypeError ''unhashable type'') else Inr (JStr x \<in> set xs))"

definition local_decomposition_targets_violation ::
    "check_env \<Rightarrow> repair_candidate \<Rightarrow> design_state \<Rightarrow> string \<Rightarrow> bool result" where
  "local_decomposition_targets_violation env cand design violation_id =
     bind_result (proven_local_decomposition env cand design) (\<lambda>proven.
       if \<not> proven then Inr False
       else let parameters = pr_parameters (hd (decomposition_predicates cand)) in
         bind_result (local_fragment design (json_get parameters ''fragment_id'')) (\<lambda>fragment.
           if \<not> json_truthy fragment then Inr False
           else bind_result (get_of_value fragment ''violation_ids'') (\<lambda>ids.
             bind_result (value_contains ids violation_id) (\<lambda>found.
               if \<not> found then Inr False
               else bind_result (get_of_value fragment ''parent_object_id'') (\<lambda>p.
                 Inr (py_equal p (json_get parameters ''parent_object_id'')))))))"

section \<open>Semantic consistency (\_semantic\_consistency\_issue)\<close>

type_synonym issue = "string \<times> string"

text \<open>The boxes of the after-geometry of the edits that \<open>P\<close> selects.\<close>

definition selected_boxes :: "(layout_edit \<Rightarrow> bool) \<Rightarrow> repair_candidate \<Rightarrow> box list result" where
  "selected_boxes P cand = map_result geometry_box (concat (map after_polygons (filter P (c_edits cand))))"

definition targeted_boxes :: "repair_candidate \<Rightarrow> box list result" where
  "targeted_boxes cand = selected_boxes (\<lambda>e. ed_target_object_ids e \<noteq> []) cand"

definition reference_width_issue :: "repair_candidate \<Rightarrow> (string \<times> json) list \<Rightarrow> issue option result" where
  "reference_width_issue cand parameters =
     bind_result (int_value (case map_of parameters ''reference_width_dbu'' of None \<Rightarrow> JInt (-1) | Some v \<Rightarrow> v)) (\<lambda>expected.
     bind_result (targeted_boxes cand) (\<lambda>boxes.
       case boxes of
         [b] \<Rightarrow>
           (let actual = (if json_get parameters ''axis'' = JStr ''Y'' then box_height b else box_width b) in
            if actual \<noteq> expected
            then Inr (Some (''SEMANTIC_WIDTH_MISMATCH'',
              ''after perpendicular width '' @ show_int actual @ '' != reference '' @ show_int expected))
            else Inr None)
       | _ \<Rightarrow> Inr (Some (''SEMANTIC_WIDTH_UNPROVEN'',
                ''MATCH_REFERENCE_WIDTH requires one authoritative after geometry''))))"

definition encloses_marker :: "box \<Rightarrow> layout_object \<Rightarrow> box \<Rightarrow> bool" where
  "encloses_marker required_box parent patch \<longleftrightarrow>
     bx_x1 patch \<le> bx_x1 required_box \<and> bx_y1 patch \<le> bx_y1 required_box \<and>
     bx_x2 patch \<ge> bx_x2 required_box \<and> bx_y2 patch \<ge> bx_y2 required_box \<and>
     box_intersection_area patch (lo_bbox_dbu parent) > 0"

definition enclosure_issue ::
    "check_env \<Rightarrow> repair_candidate \<Rightarrow> design_state \<Rightarrow> (string \<times> json) list \<Rightarrow> issue option result" where
  "enclosure_issue env cand design parameters =
     bind_result (json_item parameters ''marker_bbox_dbu'') (\<lambda>raw_marker.
     bind_result (validate_box env raw_marker) (\<lambda>marker.
     bind_result (json_item parameters ''minimum_enclosure_dbu'') (\<lambda>raw_required.
     bind_result (int_value raw_required) (\<lambda>required.
     bind_result (json_item parameters ''parent_object_id'') (\<lambda>raw_parent.
       (let parent_raw = json_get (dn_objects design) (str_value env raw_parent) in
        if parent_raw = JNull
        then Inr (Some (''SEMANTIC_ENCLOSURE_PARENT_MISSING'', ''enclosure parent object is unavailable''))
        else bind_result (validate_object env parent_raw) (\<lambda>parent.
          bind_result (selected_boxes (\<lambda>e. ed_op e = ActAddPolygon) cand) (\<lambda>patches.
            if patches = []
            then Inr (Some (''SEMANTIC_ENCLOSURE_UNPROVEN'', ''ENSURE_ENCLOSURE has no bounded metal patch''))
            else bind_result (box_expand marker required) (\<lambda>required_box.
              if \<not> (\<exists>patch \<in> set patches. encloses_marker required_box parent patch)
              then Inr (Some (''SEMANTIC_ENCLOSURE_MISMATCH'',
                ''local patch does not both enclose the marker and overlap its parent route''))
              else Inr None)))))))))"

definition alignment_issue :: "check_env \<Rightarrow> repair_candidate \<Rightarrow> (string \<times> json) list \<Rightarrow> issue option result" where
  "alignment_issue env cand parameters =
     bind_result (json_item parameters ''axis'') (\<lambda>raw_axis.
     bind_result (bind_result (json_item parameters ''period_dbu'') int_value) (\<lambda>period.
     bind_result (bind_result (json_item parameters ''origin_dbu'') int_value) (\<lambda>origin.
     bind_result (bind_result (json_item parameters ''target_coordinate_dbu'') int_value) (\<lambda>target.
     bind_result (targeted_boxes cand) (\<lambda>boxes.
       case boxes of
         [b] \<Rightarrow>
           (let mismatch = Inr (Some (''SEMANTIC_ALIGNMENT_MISMATCH'',
                  ''after edge is not at the deterministic legal coordinate''));
                coordinate = (if str_value env raw_axis = ''Y'' then bx_y1 b else bx_x1 b)
            in if coordinate \<noteq> target then mismatch
               else if period = 0 then Inl ZeroDivisionError
               else if (coordinate - origin) mod period \<noteq> 0 then mismatch
               else Inr None)
       | _ \<Rightarrow> Inr (Some (''SEMANTIC_ALIGNMENT_UNPROVEN'',
                ''alignment requires one authoritative after geometry'')))))))"

definition predicate_issue ::
    "check_env \<Rightarrow> repair_candidate \<Rightarrow> design_state \<Rightarrow> predicate \<Rightarrow> issue option result" where
  "predicate_issue env cand design p =
     (if pr_kind p = ''local_fragment_decomposition''
      then bind_result (proven_local_decomposition env cand design) (\<lambda>ok.
        if ok then Inr None
        else Inr (Some (''LOCAL_PATCH_UNREPRESENTABLE'',
          ''local route decomposition lacks exact parent/source ownership proof'')))
      else if pr_kind p = ''match_reference_width'' then reference_width_issue cand (pr_parameters p)
      else if pr_kind p = ''ensure_enclosure'' then enclosure_issue env cand design (pr_parameters p)
      else if pr_kind p = ''snap_edge_to_legal_alignment'' then alignment_issue env cand (pr_parameters p)
      else Inr None)"

text \<open>The first issue of a list of checks, each evaluated only when the ones before found none.\<close>

fun first_issue :: "('a \<Rightarrow> 'b option result) \<Rightarrow> 'a list \<Rightarrow> 'b option result" where
  "first_issue f [] = Inr None"
| "first_issue f (x # xs) =
     bind_result (f x) (\<lambda>r. case r of None \<Rightarrow> first_issue f xs | Some i \<Rightarrow> Inr (Some i))"

definition semantic_consistency_issue ::
    "check_env \<Rightarrow> repair_candidate \<Rightarrow> design_state \<Rightarrow> issue option result" where
  "semantic_consistency_issue env cand design =
     first_issue (predicate_issue env cand design) (c_semantic_postconditions cand)"

section \<open>Locality (\_specialization\_targets\_marker, \_locality\_issue)\<close>

definition specialization_targets_marker :: "repair_candidate \<Rightarrow> box \<Rightarrow> int \<Rightarrow> bool result" where
  "specialization_targets_marker cand marker influence =
     bind_result (box_expand marker influence) (\<lambda>expanded.
       any_result (\<lambda>e.
         if ed_instance_specializations e = [] then Inr False
         else any_result (\<lambda>polygon. bind_result (geometry_box polygon) (\<lambda>b. Inr (box_intersects b expanded)))
                (filter (\<lambda>polygon. polygon \<noteq> []) (before_polygons e @ after_polygons e))) (c_edits cand))"

definition local_objectives :: "string set" where
  "local_objectives = {''ENSURE_ENCLOSURE'', ''SNAP_EDGE_TO_LEGAL_ALIGNMENT'', ''INCREASE_SPACING'',
     ''LOCAL_DETOUR_AROUND_OBSTACLE''}"

fun join_markers :: "box \<Rightarrow> box list \<Rightarrow> box result" where
  "join_markers acc [] = Inr acc"
| "join_markers acc (b # bs) = bind_result (box_union acc b) (\<lambda>u. join_markers u bs)"

definition excessive_footprint :: "string \<Rightarrow> issue" where
  "excessive_footprint message = (''EXCESSIVE_COLLATERAL_FOOTPRINT'', message)"

definition locality_issue ::
    "check_env \<Rightarrow> repair_candidate \<Rightarrow> (string \<times> violation_record) list \<Rightarrow> design_state \<Rightarrow> region_state \<Rightarrow>
     issue option result" where
  "locality_issue env cand violations design region =
     (if c_semantic_objective cand \<notin> local_objectives then Inr None
      else case List.map_filter (\<lambda>i. map_option v_marker_bbox_dbu (map_of violations i)) (c_target_violation_ids cand) of
        [] \<Rightarrow> Inr (Some (''LOCALITY_EVIDENCE_MISSING'', ''local repair has no target marker''))
      | marker # markers \<Rightarrow>
          bind_result (join_markers marker markers) (\<lambda>joined.
            let margin = max (dn_manufacturing_grid_dbu design * 4) 1;
                footprint = c_edit_footprint_dbu cand
            in bind_result (box_expand joined margin) (\<lambda>influence.
               bind_result (box_expand (rg_bbox_dbu region) margin) (\<lambda>local_scope.
                 if \<not> box_contains (rg_edit_halo_dbu region) footprint
                 then Inr (Some (excessive_footprint ''changed footprint exceeds the bounded region edit halo''))
                 else if box_area footprint >
                   max (max (box_area influence * 16) (box_area local_scope * 4)) (margin * margin * 16)
                 then Inr (Some (excessive_footprint ''changed footprint is disproportionate to local fragment scope''))
                 else if box_intersects footprint influence then Inr None
                 else bind_result (all_result (local_decomposition_targets_violation env cand design)
                        (c_target_violation_ids cand)) (\<lambda>all_proven.
                   if all_proven then Inr None
                   else Inr (Some (''OFF_TARGET_FOOTPRINT'',
                     ''changed footprint does not intersect target violation influence'')))))))"

section \<open>The checker (CandidateChecker.validate)\<close>

record validation_report =
  vp_candidate_id :: "string"
  vp_status :: "validation_status"
  vp_issues :: "validation_issue list"
  vp_levels_passed :: "int list"

record failure =
  fa_level :: "int"
  fa_code :: "string"
  fa_message :: "string"
  fa_status :: "validation_status"

text \<open>\<open>fail\<close>: the one issue is stored in the candidate and reported.\<close>

definition fail_with :: "repair_candidate \<Rightarrow> int list \<Rightarrow> failure \<Rightarrow> repair_candidate \<times> validation_report" where
  "fail_with cand levels f =
     (let issues = [\<lparr>vi_level = fa_level f, vi_code = fa_code f, vi_message = fa_message f, vi_evidence = []\<rparr>]
      in (cand\<lparr>c_validation_status := fa_status f, c_validation_issues := issues\<rparr>,
          \<lparr>vp_candidate_id = c_candidate_id cand, vp_status = fa_status f, vp_issues = issues,
           vp_levels_passed = levels\<rparr>))"

definition failing :: "int \<Rightarrow> validation_status \<Rightarrow> string \<Rightarrow> string \<Rightarrow> failure" where
  "failing level status code message =
     \<lparr>fa_level = level, fa_code = code, fa_message = message, fa_status = status\<rparr>"

subsection \<open>Level 0\<close>

definition identity_failure :: "repair_candidate \<Rightarrow> region_state \<Rightarrow> string set \<Rightarrow> failure option" where
  "identity_failure cand region allowed =
     (if c_region_id cand \<noteq> rg_region_id region \<or> c_candidate_id cand = []
      then Some (failing 0 StatusInvalidSchema ''IDENTITY_MISMATCH'' ''candidate identity does not match region'')
      else if c_action_family cand \<notin> allowed
      then Some (failing 0 StatusInvalidSchema ''ACTION_NOT_ALLOWED'' ''action family is outside the rule whitelist'')
      else None)"

definition count_op :: "action_type \<Rightarrow> repair_candidate \<Rightarrow> nat" where
  "count_op a cand = length (filter (\<lambda>e. ed_op e = a) (c_edits cand))"

definition routing_groups :: "repair_candidate \<Rightarrow> string option set" where
  "routing_groups cand = ed_replacement_group_id ` set (filter (\<lambda>e.
     ed_op e \<in> {ActDeletePolygon, ActAddPolygon} \<and> ed_replacement_group_id e \<noteq> None) (c_edits cand))"

definition routing_failure :: "repair_candidate \<Rightarrow> failure option" where
  "routing_failure cand =
     (if c_action_family cand \<notin> {action_text ActLocalDetour, action_text ActLocalReroute, action_text ActChangeLayer}
      then None
      else if card (routing_groups cand) \<noteq> 1
      then Some (failing 0 StatusInvalidSchema ''INVALID_ROUTING_REPLACEMENT_GROUP''
        ''routing macro edits must share one replacement_group_id'')
      else if count_op ActDeletePolygon cand \<noteq> 1
      then Some (failing 0 StatusInvalidSchema ''INVALID_ROUTING_DELETE_COUNT''
        ''routing macro must delete exactly one old segment'')
      else if \<not> (\<exists>e \<in> set (c_edits cand). ed_op e = ActAddPolygon \<and> ed_target_object_ids e \<noteq> [] \<and>
                  after_polygons e \<noteq> [])
      then Some (failing 0 StatusInvalidSchema ''INVALID_ROUTING_REPLACEMENT''
        ''routing macro must add one executable replacement polygon'')
      else if c_action_family cand = action_text ActChangeLayer \<and> count_op ActAddViaStack cand < 2
      then Some (failing 0 StatusInvalidSchema ''MISSING_LAYER_CHANGE_VIAS''
        ''CHANGE_LAYER requires deterministic endpoint vias'')
      else None)"

definition target_failure ::
    "repair_candidate \<Rightarrow> region_state \<Rightarrow> design_state \<Rightarrow> (string \<times> violation_record) list \<Rightarrow> failure option" where
  "target_failure cand region design violations =
     (if \<not> set (c_target_violation_ids cand) \<subseteq> set (rg_violation_ids region)
      then Some (failing 0 StatusInvalidTarget ''UNKNOWN_VIOLATION'' ''candidate references a violation outside its region'')
      else if \<not> set (c_target_object_ids cand) \<subseteq> fst ` set (dn_objects design)
      then Some (failing 0 StatusInvalidTarget ''UNKNOWN_OBJECT'' ''candidate references an unknown object'')
      else if \<not> set (c_target_violation_ids cand) \<subseteq> fst ` set violations
      then Some (failing 0 StatusInvalidTarget ''MISSING_VIOLATION_EVIDENCE''
        ''candidate target violation evidence is unavailable'')
      else None)"

definition design_object :: "check_env \<Rightarrow> design_state \<Rightarrow> string \<Rightarrow> layout_object result" where
  "design_object env design object_id =
     bind_result (json_item (dn_objects design) object_id) (validate_object env)"

definition influence_of :: "repair_candidate \<Rightarrow> design_state \<Rightarrow> int" where
  "influence_of cand design =
     foldl max (dn_manufacturing_grid_dbu design)
       (0 # map (\<lambda>d. max \<bar>vec_dx d\<bar> \<bar>vec_dy d\<bar>) (List.map_filter ed_delta_dbu (c_edits cand)))"

definition related_objects :: "violation_record \<Rightarrow> layout_object list \<Rightarrow> layout_object list" where
  "related_objects v objs =
     filter (\<lambda>obj. (v_associated_object_ids v = [] \<or> lo_object_id obj \<in> set (v_associated_object_ids v)) \<and>
                   (v_layers v = [] \<or> lo_layer obj \<in> set (v_layers v))) objs"

definition within_influence ::
    "check_env \<Rightarrow> repair_candidate \<Rightarrow> design_state \<Rightarrow> int \<Rightarrow> string \<Rightarrow> violation_record \<Rightarrow> layout_object list \<Rightarrow>
     bool result" where
  "within_influence env cand design influence violation_id v related =
     bind_result (box_expand (v_marker_bbox_dbu v) influence) (\<lambda>expanded.
       if \<exists>obj \<in> set related. box_intersects (lo_bbox_dbu obj) expanded then Inr True
       else bind_result (specialization_targets_marker cand (v_marker_bbox_dbu v) influence) (\<lambda>specialized.
         if specialized then Inr True
         else if c_semantic_objective cand = ''ENSURE_ENCLOSURE'' \<and>
           box_intersects (c_edit_footprint_dbu cand) (v_marker_bbox_dbu v) then Inr True
         else local_decomposition_targets_violation env cand design violation_id))"

text \<open>The loop over the targets: the related objects of each violation, or the first failure.\<close>

fun relate_violations ::
    "check_env \<Rightarrow> repair_candidate \<Rightarrow> design_state \<Rightarrow> (string \<times> violation_record) list \<Rightarrow> layout_object list \<Rightarrow>
     (string \<times> layout_object list) list \<Rightarrow> string list \<Rightarrow> (failure + (string \<times> layout_object list) list) result" where
  "relate_violations env cand design violations objs acc [] = Inr (Inr acc)"
| "relate_violations env cand design violations objs acc (i # is) =
     (case map_of violations i of
        None \<Rightarrow> Inl (KeyError i)
      | Some v \<Rightarrow>
          (let related = related_objects v objs in
           if related = []
           then Inr (Inl (failing 0 StatusInvalidTarget ''UNRELATED_OBJECT_VIOLATION''
             ''target object is not associated with the violation layers''))
           else bind_result (within_influence env cand design (influence_of cand design) i v related) (\<lambda>ok.
             if ok then relate_violations env cand design violations objs (dict_set i related acc) is
             else Inr (Inl (failing 0 StatusInvalidTarget ''OUTSIDE_VIOLATION_INFLUENCE''
               ''target geometry is outside the violation influence area'')))))"

definition level_zero ::
    "check_env \<Rightarrow> repair_candidate \<Rightarrow> region_state \<Rightarrow> design_state \<Rightarrow> (string \<times> violation_record) list \<Rightarrow>
     (failure + (string \<times> layout_object list) list) result" where
  "level_zero env cand region design violations =
     (case routing_failure cand of
        Some f \<Rightarrow> Inr (Inl f)
      | None \<Rightarrow>
          (case target_failure cand region design violations of
             Some f \<Rightarrow> Inr (Inl f)
           | None \<Rightarrow>
               bind_result (map_result (design_object env design) (c_target_object_ids cand)) (\<lambda>objs.
                 relate_violations env cand design violations objs [] (c_target_violation_ids cand))))"

subsection \<open>Levels 1 and 2\<close>

fun source_failure :: "design_state \<Rightarrow> source_target list \<Rightarrow> failure option" where
  "source_failure design [] = None"
| "source_failure design (t # ts) =
     (case map_of (dn_source_hashes design) (st_source_anchor_id t) of
        None \<Rightarrow> Some (failing 1 StatusInvalidTarget ''MISSING_SOURCE_ANCHOR'' ''source anchor is unavailable'')
      | Some h \<Rightarrow>
          if h \<noteq> st_source_hash t
          then Some (failing 1 StatusStaleTarget ''STALE_TARGET'' ''source geometry changed after candidate generation'')
          else source_failure design ts)"

definition edits_by_anchor :: "repair_candidate \<Rightarrow> (string \<times> layout_edit list) list" where
  "edits_by_anchor cand =
     foldl (\<lambda>d (a, e). dict_append a e d) []
       (concat (map (\<lambda>e. map (\<lambda>a. (a, e)) (ed_source_anchor_ids e)) (c_edits cand)))"

definition carrier_specializations :: "layout_edit list \<Rightarrow> layout_edit list" where
  "carrier_specializations es =
     filter (\<lambda>e. ed_op e = ActInstanceSpecialization \<and> ed_instance_specializations e \<noteq> [] \<and>
                 ed_target_object_ids e = []) es"

text \<open>One polygon rewritten directly beside one specialised occurrence on the same anchor.\<close>

definition direct_plus_specialization :: "layout_edit list \<Rightarrow> bool" where
  "direct_plus_specialization es \<longleftrightarrow>
     (let carriers = carrier_specializations es; ordinary = filter (\<lambda>e. e \<notin> set carriers) es
      in length carriers = 1 \<and>
         (case ordinary of
            [e] \<Rightarrow> ed_target_object_ids e \<noteq> [] \<and> ed_op e \<in> {ActAdjustEndpoint, ActResizeShape, ActMoveShape}
          | _ \<Rightarrow> False))"

definition atomic_replacement :: "layout_edit list \<Rightarrow> bool" where
  "atomic_replacement es \<longleftrightarrow>
     one_replacement_group es \<and>
     length (filter (\<lambda>e. ed_op e \<in> {ActDeletePolygon, ActDeleteViaStack}) es) = 1 \<and>
     length (filter (\<lambda>e. after_polygons e \<noteq> [] \<and> ed_target_object_ids e \<noteq> []) es) = 1"

fun anchor_failure :: "(string \<times> layout_edit list) list \<Rightarrow> failure option" where
  "anchor_failure [] = None"
| "anchor_failure ((a, es) # rest) =
     (if length es \<le> 1 \<or> atomic_replacement es \<or> direct_plus_specialization es then anchor_failure rest
      else Some (failing 1 StatusInvalidTarget ''INTERNAL_SOURCE_CONFLICT''
        (''edits on '' @ a @ '' are not one atomic replacement group'')))"

definition level_one :: "repair_candidate \<Rightarrow> design_state \<Rightarrow> failure option" where
  "level_one cand design =
     (case source_failure design (c_source_targets cand) of
        Some f \<Rightarrow> Some f
      | None \<Rightarrow> anchor_failure (edits_by_anchor cand))"

definition editability_failure ::
    "check_env \<Rightarrow> repair_candidate \<Rightarrow> design_state \<Rightarrow> layout_edit \<times> string \<Rightarrow> failure option result" where
  "editability_failure env cand design p =
     bind_result (design_object env design (snd p)) (\<lambda>obj.
       case lo_editability obj of
         EditabilityD \<Rightarrow> Inr (Some (failing 2 StatusInvalidEditability ''FROZEN_OBJECT''
           ''Class D object cannot be mutated''))
       | EditabilityC \<Rightarrow>
           (if ed_op (fst p) = ActAdjustEndpoint then Inr None
            else bind_result (proven_local_decomposition env cand design) (\<lambda>proven.
              if proven then Inr None
              else Inr (Some (failing 2 StatusInvalidEditability ''BOUNDARY_OBJECT_OPERATION''
                ''Class C requires endpoint adjustment or an exact source-owned local decomposition proof''))))
       | EditabilityA \<Rightarrow>
           (if sublist ''VIA_STACK'' (action_text (ed_op (fst p))) then Inr None
            else Inr (Some (failing 2 StatusInvalidEditability ''PARTIAL_VIA_EDIT''
              ''Class A via stack must be edited atomically'')))
       | EditabilityB \<Rightarrow> Inr None)"

definition edited_objects :: "repair_candidate \<Rightarrow> (layout_edit \<times> string) list" where
  "edited_objects cand = concat (map (\<lambda>e. map (\<lambda>i. (e, i)) (ed_target_object_ids e)) (c_edits cand))"

definition level_two :: "check_env \<Rightarrow> repair_candidate \<Rightarrow> design_state \<Rightarrow> failure option result" where
  "level_two env cand design = first_issue (editability_failure env cand design) (edited_objects cand)"

subsection \<open>Level 3\<close>

definition inside_box :: "box \<Rightarrow> point \<Rightarrow> bool" where
  "inside_box b p \<longleftrightarrow> bx_x1 b \<le> pt_x p \<and> pt_x p \<le> bx_x2 b \<and> bx_y1 b \<le> pt_y p \<and> pt_y p \<le> bx_y2 b"

definition off_grid :: "int \<Rightarrow> point \<Rightarrow> bool" where
  "off_grid grid p \<longleftrightarrow> pt_x p mod grid \<noteq> 0 \<or> pt_y p mod grid \<noteq> 0"

definition polygon_failure :: "design_state \<Rightarrow> point list \<Rightarrow> failure option" where
  "polygon_failure design polygon =
     (if \<exists>p \<in> set polygon. off_grid (dn_manufacturing_grid_dbu design) p
      then Some (failing 3 StatusInvalidGeometry ''OFF_MANUFACTURING_GRID''
        ''after geometry is off the configured DBU grid'')
      else if length polygon < 3 \<or> polygon_area2 polygon = 0 \<or> \<not> polygon_is_simple polygon
      then Some (failing 3 StatusInvalidGeometry ''INVALID_POLYGON'' ''after geometry is degenerate'')
      else (case dn_die_boundary design of
              None \<Rightarrow> None
            | Some die \<Rightarrow>
                if \<exists>p \<in> set polygon. \<not> inside_box die p
                then Some (failing 3 StatusInvalidGeometry ''OUTSIDE_DIE'' ''after geometry is outside die boundary'')
                else None))"

fun polygons_failure :: "design_state \<Rightarrow> point list list \<Rightarrow> failure option" where
  "polygons_failure design [] = None"
| "polygons_failure design (p # ps) =
     (case polygon_failure design p of Some f \<Rightarrow> Some f | None \<Rightarrow> polygons_failure design ps)"

definition layer_failure :: "design_state \<Rightarrow> layout_edit \<Rightarrow> failure option" where
  "layer_failure design e =
     (case ed_layer_after e of
        None \<Rightarrow> None
      | Some l \<Rightarrow>
          if l \<noteq> [] \<and> dn_legal_layers design \<noteq> {} \<and> l \<notin> dn_legal_layers design
          then Some (failing 3 StatusInvalidGeometry ''ILLEGAL_LAYER'' ''target layer is not legal'')
          else None)"

fun geometry_failure :: "design_state \<Rightarrow> layout_edit list \<Rightarrow> failure option" where
  "geometry_failure design [] = None"
| "geometry_failure design (e # es) =
     (case polygons_failure design (after_polygons e) of
        Some f \<Rightarrow> Some f
      | None \<Rightarrow>
          (case layer_failure design e of Some f \<Rightarrow> Some f | None \<Rightarrow> geometry_failure design es))"

definition issue_failure :: "issue \<Rightarrow> failure" where
  "issue_failure i = failing 3 StatusInvalidGeometry (fst i) (snd i)"

definition level_three ::
    "check_env \<Rightarrow> repair_candidate \<Rightarrow> region_state \<Rightarrow> design_state \<Rightarrow> (string \<times> violation_record) list \<Rightarrow>
     failure option result" where
  "level_three env cand region design violations =
     (case geometry_failure design (c_edits cand) of
        Some f \<Rightarrow> Inr (Some f)
      | None \<Rightarrow>
          bind_result (semantic_consistency_issue env cand design) (\<lambda>s.
            case s of
              Some i \<Rightarrow> Inr (Some (issue_failure i))
            | None \<Rightarrow>
                bind_result (locality_issue env cand violations design region) (\<lambda>l.
                  Inr (map_option issue_failure l))))"

subsection \<open>Evidence, levels 4 and 5\<close>

definition heuristic_ids ::
    "repair_candidate \<Rightarrow> (string \<times> violation_record) list \<Rightarrow> (string \<times> layout_object list) list \<Rightarrow>
     string list result" where
  "heuristic_ids cand violations related =
     bind_result (map_result (\<lambda>(i, objs).
         case map_of violations i of
           None \<Rightarrow> Inl (KeyError i)
         | Some v \<Rightarrow> bind_result (heuristic_effect cand v objs) (\<lambda>b. Inr (i, b))) related)
       (\<lambda>rs. Inr (map fst (filter snd rs)))"

definition checked_evidence :: "rule_benefit_proof list \<Rightarrow> string list \<Rightarrow> benefit_evidence" where
  "checked_evidence proofs heuristic =
     default_benefit_evidence\<lparr>be_proof_codes := py_sorted (rp_proof_code ` set proofs),
       be_rule_proofs := proofs,
       be_heuristic_removed_violation_ids := sort heuristic,
       be_heuristic_drc_benefit_est := int (length heuristic)\<rparr>"

definition claim_capacity :: "design_state \<Rightarrow> resource_claim \<Rightarrow> int option" where
  "claim_capacity design claim =
     (case rcl_capacity claim of
        Some c \<Rightarrow> Some c
      | None \<Rightarrow> map_of (dn_resource_capacities design) (rcl_resource_id claim))"

fun resource_failure :: "design_state \<Rightarrow> (string \<Rightarrow> int) \<Rightarrow> resource_claim list \<Rightarrow> failure option" where
  "resource_failure design demand [] = None"
| "resource_failure design demand (c # cs) =
     (let demand' = demand(rcl_resource_id c := demand (rcl_resource_id c) + rcl_amount c)
      in case claim_capacity design c of
           None \<Rightarrow> resource_failure design demand' cs
         | Some capacity \<Rightarrow>
             if demand' (rcl_resource_id c) > capacity
             then Some (failing 4 StatusInvalidResource ''INTERNAL_RESOURCE_OVERFLOW''
               ''candidate exceeds resource capacity'')
             else resource_failure design demand' cs)"

definition anchorless_failure :: "repair_candidate \<Rightarrow> failure option" where
  "anchorless_failure cand =
     (if \<exists>e \<in> set (c_edits cand). ed_source_anchor_ids e = [] \<and> ed_op e \<noteq> ActNoOp
      then Some (failing 5 StatusUnpatchable ''NO_PATCH_ANCHOR'' ''mutation has no source anchor'')
      else None)"

definition final_status :: "repair_candidate \<Rightarrow> validation_status" where
  "final_status cand =
     (if be_proven_drc_benefit_lb (c_benefit_evidence cand) = 0 \<or>
         (\<exists>s \<in> set (c_predicted_side_effects cand). sf_kind s = ''CONNECTIVITY_ARTICULATION_RISK'')
      then StatusValidRequiresSandbox else StatusValid)"

definition accept_with :: "repair_candidate \<Rightarrow> validation_status \<Rightarrow> repair_candidate \<times> validation_report" where
  "accept_with cand status =
     (cand\<lparr>c_validation_status := status, c_validation_issues := []\<rparr>,
      \<lparr>vp_candidate_id = c_candidate_id cand, vp_status = status, vp_issues = [],
       vp_levels_passed = [0, 1, 2, 3, 4, 5]\<rparr>)"

subsection \<open>All levels\<close>

text \<open>A step of the validation: stop with a failure after the levels passed so far, or go on.\<close>

definition stop_or ::
    "repair_candidate \<Rightarrow> int list \<Rightarrow> failure option result \<Rightarrow> (repair_candidate \<times> validation_report) result \<Rightarrow>
     (repair_candidate \<times> validation_report) result" where
  "stop_or cand levels r rest =
     bind_result r (\<lambda>f. case f of Some f \<Rightarrow> Inr (fail_with cand levels f) | None \<Rightarrow> rest)"

definition finish_validation ::
    "repair_candidate \<Rightarrow> design_state \<Rightarrow> (repair_candidate \<times> validation_report) result" where
  "finish_validation cand design =
     stop_or cand [0, 1, 2, 3] (Inr (resource_failure design (\<lambda>r. 0) (c_required_resources cand)))
       (stop_or cand [0, 1, 2, 3, 4] (Inr (anchorless_failure cand))
         (Inr (accept_with cand (final_status cand))))"

definition accept_noop :: "repair_candidate \<Rightarrow> repair_candidate \<times> validation_report" where
  "accept_noop cand =
     (cand\<lparr>c_validation_status := StatusValid\<rparr>,
      \<lparr>vp_candidate_id = c_candidate_id cand, vp_status = StatusValid, vp_issues = [],
       vp_levels_passed = [0, 1, 2, 3, 4, 5]\<rparr>)"

definition violations_by_id :: "violation_record list + (string \<times> violation_record) list \<Rightarrow>
    (string \<times> violation_record) list" where
  "violations_by_id violations =
     (case violations of Inl vs \<Rightarrow> dict_of (map (\<lambda>v. (v_violation_id v, v)) vs) | Inr d \<Rightarrow> d)"

definition validate_related ::
    "check_env \<Rightarrow> repair_candidate \<Rightarrow> region_state \<Rightarrow> design_state \<Rightarrow> (string \<times> violation_record) list \<Rightarrow>
     rule_catalog option \<Rightarrow> (string \<times> layout_object list) list \<Rightarrow> (repair_candidate \<times> validation_report) result" where
  "validate_related env cand region design violations catalog related =
     stop_or cand [0] (Inr (level_one cand design))
       (stop_or cand [0, 1] (level_two env cand design)
         (stop_or cand [0, 1, 2] (level_three env cand region design violations)
           (bind_result (heuristic_ids cand violations related) (\<lambda>heuristic.
             finish_validation (cand\<lparr>c_benefit_evidence :=
               checked_evidence (ck_prove env cand violations related catalog) heuristic\<rparr>) design))))"

definition validate_candidate ::
    "check_env \<Rightarrow> repair_candidate \<Rightarrow> region_state \<Rightarrow> design_state \<Rightarrow> string set \<Rightarrow>
     violation_record list + (string \<times> violation_record) list \<Rightarrow> rule_catalog option \<Rightarrow>
     (repair_candidate \<times> validation_report) result" where
  "validate_candidate env cand region design allowed violations catalog =
     stop_or cand [] (Inr (identity_failure cand region allowed))
       (if is_noop cand then Inr (accept_noop cand)
        else bind_result (level_zero env cand region design (violations_by_id violations)) (\<lambda>r.
          case r of
            Inl f \<Rightarrow> Inr (fail_with cand [] f)
          | Inr related \<Rightarrow> validate_related env cand region design (violations_by_id violations) catalog related))"

section \<open>Candidate sets (validate\_candidate\_set)\<close>

text \<open>\<open>region\_ids\<close> is the set of regions in the order in which Python iterates over it.\<close>

fun group_candidates ::
    "(string \<times> repair_candidate list) list \<Rightarrow> repair_candidate list \<Rightarrow> (string \<times> repair_candidate list) list result" where
  "group_candidates by_region [] = Inr by_region"
| "group_candidates by_region (c # cs) =
     (case map_of by_region (c_region_id c) of
        None \<Rightarrow> Inl (ValueError (''candidate belongs to unknown region: '' @ c_region_id c))
      | Some vs \<Rightarrow> group_candidates (dict_set (c_region_id c) (vs @ [c]) by_region) cs)"

fun check_groups :: "(string \<times> repair_candidate list) list \<Rightarrow> unit result" where
  "check_groups [] = Inr ()"
| "check_groups ((r, vs) # rest) =
     (if length (filter is_noop vs) \<noteq> 1
      then Inl (ValueError (''region '' @ r @ '' must have exactly one NO_OP''))
      else if \<not> distinct (map c_semantic_fingerprint (filter (\<lambda>c. \<not> is_noop c) vs))
      then Inl (ValueError (''region '' @ r @ '' has duplicate semantic candidates''))
      else check_groups rest)"

definition validate_candidate_set :: "repair_candidate list \<Rightarrow> string list \<Rightarrow> unit result" where
  "validate_candidate_set cands region_ids =
     bind_result (group_candidates (map (\<lambda>r. (r, [])) region_ids) cands) check_groups"

section \<open>What the checker guarantees\<close>

subsection \<open>Stages\<close>

definition accepted_status :: "validation_status \<Rightarrow> bool" where
  "accepted_status s \<longleftrightarrow> s = StatusValid \<or> s = StatusValidRequiresSandbox"

text \<open>A failure of a level, with a status that is no acceptance.\<close>

definition failure_at :: "int \<Rightarrow> failure \<Rightarrow> bool" where
  "failure_at level f \<longleftrightarrow> fa_level f = level \<and> \<not> accepted_status (fa_status f)"

lemma failing_at [simp]: "failure_at level (failing k status code message) \<longleftrightarrow> k = level \<and> \<not> accepted_status status"
  by (simp add: failure_at_def failing_def)

lemma rejected_status [simp]:
  "\<not> accepted_status StatusInvalidSchema" "\<not> accepted_status StatusInvalidTarget"
  "\<not> accepted_status StatusInvalidEditability" "\<not> accepted_status StatusInvalidGeometry"
  "\<not> accepted_status StatusInvalidResource" "\<not> accepted_status StatusStaleTarget"
  "\<not> accepted_status StatusUnpatchable"
  "accepted_status StatusValid" "accepted_status StatusValidRequiresSandbox"
  by (simp_all add: accepted_status_def)

lemma stop_or_Inr:
  "stop_or cand levels r rest = Inr x \<longleftrightarrow>
     (\<exists>f. r = Inr (Some f) \<and> x = fail_with cand levels f) \<or> (r = Inr None \<and> rest = Inr x)"
  by (auto simp: stop_or_def bind_result_Inr_iff split: option.splits)

text \<open>How a validation ends: a failure of some level with exactly the levels below it passed, or acceptance.\<close>

definition rejects :: "repair_candidate \<Rightarrow> (repair_candidate \<times> validation_report) \<Rightarrow> bool" where
  "rejects cand x \<longleftrightarrow> (\<exists>level f. 0 \<le> level \<and> level \<le> 5 \<and> failure_at level f \<and> x = fail_with cand [0..level - 1] f)"

lemma rejectsI: "failure_at level f \<Longrightarrow> 0 \<le> level \<Longrightarrow> level \<le> 5 \<Longrightarrow> levels = [0..level - 1] \<Longrightarrow>
    rejects cand (fail_with cand levels f)"
  by (auto simp: rejects_def)

lemma rejects_not_accepted: "rejects cand (cand', r) \<Longrightarrow> \<not> accepted_status (vp_status r)"
  by (auto simp: rejects_def fail_with_def failure_at_def Let_def)

lemma identity_failure_at: "identity_failure cand region allowed = Some f \<Longrightarrow> failure_at 0 f"
  by (auto simp: identity_failure_def split: if_splits)

lemma routing_failure_at: "routing_failure cand = Some f \<Longrightarrow> failure_at 0 f"
  by (auto simp: routing_failure_def split: if_splits)

lemma target_failure_at: "target_failure cand region design vs = Some f \<Longrightarrow> failure_at 0 f"
  by (auto simp: target_failure_def split: if_splits)

lemma relate_violations_at:
  "relate_violations env cand design vs objs acc is = Inr (Inl f) \<Longrightarrow> failure_at 0 f"
  by (induction "is" arbitrary: acc) (auto simp: bind_result_Inr_iff Let_def split: option.splits if_splits)

lemma level_zero_at: "level_zero env cand region design vs = Inr (Inl f) \<Longrightarrow> failure_at 0 f"
  by (auto simp: level_zero_def bind_result_Inr_iff split: option.splits
      dest: routing_failure_at target_failure_at relate_violations_at)

lemma source_failure_at: "source_failure design ts = Some f \<Longrightarrow> failure_at 1 f"
  by (induction ts) (auto split: option.splits if_splits)

lemma anchor_failure_at: "anchor_failure gs = Some f \<Longrightarrow> failure_at 1 f"
  by (induction gs rule: anchor_failure.induct) (auto split: if_splits)

lemma level_one_at: "level_one cand design = Some f \<Longrightarrow> failure_at 1 f"
  by (auto simp: level_one_def split: option.splits dest: source_failure_at anchor_failure_at)

lemma first_issue_some: "first_issue f xs = Inr (Some i) \<Longrightarrow> \<exists>x \<in> set xs. f x = Inr (Some i)"
  by (induction xs) (auto simp: bind_result_Inr_iff split: option.splits)

lemma first_issue_none: "first_issue f xs = Inr None \<longleftrightarrow> (\<forall>x \<in> set xs. f x = Inr None)"
  by (induction xs) (auto simp: bind_result_Inr_iff split: option.splits)

lemma editability_failure_at:
  assumes "editability_failure env cand design p = Inr (Some f)"
  shows "failure_at 2 f"
proof -
  obtain obj where "design_object env design (snd p) = Inr obj"
    using assms by (auto simp: editability_failure_def bind_result_Inr_iff)
  then show ?thesis
    using assms by (cases "lo_editability obj") (auto simp: editability_failure_def bind_result_Inr_iff split: if_splits)
qed

lemma level_two_at: "level_two env cand design = Inr (Some f) \<Longrightarrow> failure_at 2 f"
  unfolding level_two_def by (auto dest: first_issue_some editability_failure_at)

lemma polygons_failure_at: "polygons_failure design ps = Some f \<Longrightarrow> failure_at 3 f"
  by (induction ps) (auto simp: polygon_failure_def split: option.splits if_splits)

lemma geometry_failure_at: "geometry_failure design es = Some f \<Longrightarrow> failure_at 3 f"
  by (induction es) (auto simp: layer_failure_def polygons_failure_at split: option.splits if_splits)

lemma level_three_at: "level_three env cand region design vs = Inr (Some f) \<Longrightarrow> failure_at 3 f"
  by (auto simp: level_three_def bind_result_Inr_iff issue_failure_def geometry_failure_at split: option.splits)

lemma resource_failure_at: "resource_failure design demand cs = Some f \<Longrightarrow> failure_at 4 f"
  by (induction cs arbitrary: demand) (auto simp: Let_def split: option.splits if_splits)

lemma anchorless_failure_at: "anchorless_failure cand = Some f \<Longrightarrow> failure_at 5 f"
  by (auto simp: anchorless_failure_def split: if_splits)

subsection \<open>The result of a validation\<close>

lemma finish_validation_result:
  assumes "finish_validation cand design = Inr x"
  shows "rejects cand x \<or>
    (resource_failure design (\<lambda>r. 0) (c_required_resources cand) = None \<and> anchorless_failure cand = None \<and>
     x = accept_with cand (final_status cand))"
proof -
  consider f where "resource_failure design (\<lambda>r. 0) (c_required_resources cand) = Some f"
      "x = fail_with cand [0, 1, 2, 3] f"
    | f where "anchorless_failure cand = Some f" "x = fail_with cand [0, 1, 2, 3, 4] f"
    | "resource_failure design (\<lambda>r. 0) (c_required_resources cand) = None" "anchorless_failure cand = None"
      "x = accept_with cand (final_status cand)"
    using assms unfolding finish_validation_def stop_or_Inr by auto
  then show ?thesis
  proof cases
    case 1
    then show ?thesis using rejectsI [OF resource_failure_at [OF 1(1)]] by (simp add: upto_rec1)
  next
    case 2
    then show ?thesis using rejectsI [OF anchorless_failure_at [OF 2(1)]] by (simp add: upto_rec1)
  qed simp
qed

text \<open>The evidence that the checker attaches: no proven benefit, the effects it saw as heuristics.\<close>

definition with_evidence :: "repair_candidate \<Rightarrow> rule_benefit_proof list \<Rightarrow> string list \<Rightarrow> repair_candidate" where
  "with_evidence cand proofs heuristic = cand\<lparr>c_benefit_evidence := checked_evidence proofs heuristic\<rparr>"

lemma validate_related_result:
  assumes "validate_related env cand region design vs catalog related = Inr x"
  shows "rejects cand x \<or>
    (level_one cand design = None \<and> level_two env cand design = Inr None \<and>
     level_three env cand region design vs = Inr None \<and>
     (\<exists>heuristic. heuristic_ids cand vs related = Inr heuristic \<and>
        finish_validation (with_evidence cand (ck_prove env cand vs related catalog) heuristic) design = Inr x))"
proof -
  consider f where "level_one cand design = Some f" "x = fail_with cand [0] f"
    | f where "level_two env cand design = Inr (Some f)" "x = fail_with cand [0, 1] f"
    | f where "level_three env cand region design vs = Inr (Some f)" "x = fail_with cand [0, 1, 2] f"
    | heuristic where "level_one cand design = None" "level_two env cand design = Inr None"
      "level_three env cand region design vs = Inr None" "heuristic_ids cand vs related = Inr heuristic"
      "finish_validation (with_evidence cand (ck_prove env cand vs related catalog) heuristic) design = Inr x"
    using assms unfolding validate_related_def stop_or_Inr bind_result_Inr_iff with_evidence_def by auto
  then show ?thesis
  proof cases
    case 1
    then show ?thesis using rejectsI [OF level_one_at [OF 1(1)]] by (simp add: upto_rec1)
  next
    case 2
    then show ?thesis using rejectsI [OF level_two_at [OF 2(1)]] by (simp add: upto_rec1)
  next
    case 3
    then show ?thesis using rejectsI [OF level_three_at [OF 3(1)]] by (simp add: upto_rec1)
  qed blast
qed

lemma validate_candidate_result:
  assumes "validate_candidate env cand region design allowed violations catalog = Inr x"
  shows "rejects cand x \<or>
    (identity_failure cand region allowed = None \<and>
     (is_noop cand \<and> x = accept_noop cand \<or>
      \<not> is_noop cand \<and>
      (\<exists>related. level_zero env cand region design (violations_by_id violations) = Inr (Inr related) \<and>
         validate_related env cand region design (violations_by_id violations) catalog related = Inr x)))"
proof -
  have "(\<exists>f. identity_failure cand region allowed = Some f \<and> x = fail_with cand [] f) \<or>
      identity_failure cand region allowed = None \<and>
      (if is_noop cand then Inr (accept_noop cand)
       else bind_result (level_zero env cand region design (violations_by_id violations)) (\<lambda>r.
         case r of
           Inl f \<Rightarrow> Inr (fail_with cand [] f)
         | Inr related \<Rightarrow> validate_related env cand region design (violations_by_id violations) catalog related)) = Inr x"
    using assms unfolding validate_candidate_def stop_or_Inr by blast
  then consider f where "identity_failure cand region allowed = Some f" "x = fail_with cand [] f"
    | "identity_failure cand region allowed = None" "is_noop cand" "x = accept_noop cand"
    | v where "identity_failure cand region allowed = None" "\<not> is_noop cand"
      "level_zero env cand region design (violations_by_id violations) = Inr v"
      "(case v of Inl f \<Rightarrow> Inr (fail_with cand [] f)
        | Inr related \<Rightarrow> validate_related env cand region design (violations_by_id violations) catalog related) = Inr x"
    by (cases "is_noop cand") (auto simp: bind_result_Inr_iff)
  then show ?thesis
  proof cases
    case 1
    then show ?thesis using rejectsI [OF identity_failure_at [OF 1(1)]] by simp
  next
    case 3
    show ?thesis
    proof (cases v)
      case (Inl f)
      then show ?thesis using rejectsI [OF level_zero_at [OF 3(3) [unfolded Inl]]] 3(4) by auto
    next
      case (Inr related)
      then show ?thesis using 3 by simp
    qed
  qed blast
qed

text \<open>A validation that ends without an exception accepts exactly when no level finds anything.\<close>

definition passes ::
    "repair_candidate \<Rightarrow> region_state \<Rightarrow> design_state \<Rightarrow> string set \<Rightarrow> check_env \<Rightarrow> (string \<times> violation_record) list \<Rightarrow> bool" where
  "passes cand region design allowed env vs \<longleftrightarrow>
     identity_failure cand region allowed = None \<and>
     (is_noop cand \<or>
      (\<exists>related. level_zero env cand region design vs = Inr (Inr related)) \<and>
      level_one cand design = None \<and> level_two env cand design = Inr None \<and>
      level_three env cand region design vs = Inr None \<and>
      resource_failure design (\<lambda>r. 0) (c_required_resources cand) = None \<and> anchorless_failure cand = None)"

lemma with_evidence_frame [simp]:
  "c_required_resources (with_evidence cand proofs heuristic) = c_required_resources cand"
  "anchorless_failure (with_evidence cand proofs heuristic) = anchorless_failure cand"
  "be_proven_drc_benefit_lb (c_benefit_evidence (with_evidence cand proofs heuristic)) = 0"
  by (simp_all add: with_evidence_def anchorless_failure_def checked_evidence_def default_benefit_evidence_def)

lemma finish_with_evidence:
  assumes "finish_validation (with_evidence cand proofs heuristic) design = Inr (cand', report)"
  shows "accepted_status (vp_status report) \<longleftrightarrow>
      resource_failure design (\<lambda>r. 0) (c_required_resources cand) = None \<and> anchorless_failure cand = None"
    "accepted_status (vp_status report) \<Longrightarrow>
      vp_status report = StatusValidRequiresSandbox \<and> be_proven_drc_benefit_lb (c_benefit_evidence cand') = 0"
proof -
  have stop: "resource_failure design (\<lambda>r. 0) (c_required_resources cand) \<noteq> None \<or> anchorless_failure cand \<noteq> None \<Longrightarrow>
      \<not> accepted_status (vp_status report)"
    using assms resource_failure_at anchorless_failure_at
    unfolding finish_validation_def stop_or_Inr
    by (auto simp: fail_with_def Let_def failure_at_def)
  note result = finish_validation_result [OF assms]
  have accept: "accept_with (with_evidence cand proofs heuristic) (final_status (with_evidence cand proofs heuristic)) =
      (cand', report) \<Longrightarrow>
      vp_status report = StatusValidRequiresSandbox \<and> be_proven_drc_benefit_lb (c_benefit_evidence cand') = 0"
    by (auto simp: accept_with_def final_status_def)
  have "rejects (with_evidence cand proofs heuristic) (cand', report) \<Longrightarrow>
      resource_failure design (\<lambda>r. 0) (c_required_resources cand) \<noteq> None \<or> anchorless_failure cand \<noteq> None"
    using assms accept rejects_not_accepted [of "with_evidence cand proofs heuristic" cand' report]
    unfolding finish_validation_def stop_or_Inr by auto
  then show "accepted_status (vp_status report) \<longleftrightarrow>
      resource_failure design (\<lambda>r. 0) (c_required_resources cand) = None \<and> anchorless_failure cand = None"
    using stop result accept rejected_status(9) by metis
  show "accepted_status (vp_status report) \<Longrightarrow>
      vp_status report = StatusValidRequiresSandbox \<and> be_proven_drc_benefit_lb (c_benefit_evidence cand') = 0"
    using result accept rejects_not_accepted by metis
qed

lemma validate_candidate_passes:
  assumes run: "validate_candidate env cand region design allowed violations catalog = Inr (cand', report)"
  shows "accepted_status (vp_status report) = passes cand region design allowed env (violations_by_id violations) \<and>
    (accepted_status (vp_status report) \<longrightarrow>
      vp_status report = (if is_noop cand then StatusValid else StatusValidRequiresSandbox) \<and>
      (is_noop cand \<or> be_proven_drc_benefit_lb (c_benefit_evidence cand') = 0))"
proof -
  let ?vs = "violations_by_id violations"
  have failed: "\<not> accepted_status (vp_status report)" if "failure_at level f" "(cand', report) = fail_with cand levels f"
    for level f levels
    using that by (auto simp: fail_with_def Let_def failure_at_def)
  consider (identity) f where "identity_failure cand region allowed = Some f" "(cand', report) = fail_with cand [] f"
    | (noop) "identity_failure cand region allowed = None" "is_noop cand" "(cand', report) = accept_noop cand"
    | (zero) f where "\<not> is_noop cand" "level_zero env cand region design ?vs = Inr (Inl f)"
      "(cand', report) = fail_with cand [] f"
    | (later) related where "identity_failure cand region allowed = None" "\<not> is_noop cand"
      "level_zero env cand region design ?vs = Inr (Inr related)"
      "validate_related env cand region design ?vs catalog related = Inr (cand', report)"
    using run unfolding validate_candidate_def stop_or_Inr
    by (cases "is_noop cand"; cases "level_zero env cand region design ?vs") (auto split: sum.split_asm)
  then show ?thesis
  proof cases
    case identity
    then show ?thesis using failed [OF identity_failure_at] by (simp add: passes_def)
  next
    case noop
    then show ?thesis by (simp add: passes_def accept_noop_def)
  next
    case zero
    then show ?thesis using failed [OF level_zero_at] by (simp add: passes_def)
  next
    case later
    consider f where "level_one cand design = Some f" "(cand', report) = fail_with cand [0] f"
      | f where "level_two env cand design = Inr (Some f)" "(cand', report) = fail_with cand [0, 1] f"
      | f where "level_three env cand region design ?vs = Inr (Some f)" "(cand', report) = fail_with cand [0, 1, 2] f"
      | heuristic where "level_one cand design = None" "level_two env cand design = Inr None"
        "level_three env cand region design ?vs = Inr None"
        "finish_validation (with_evidence cand (ck_prove env cand ?vs related catalog) heuristic) design = Inr (cand', report)"
      using later(4) unfolding validate_related_def stop_or_Inr bind_result_Inr_iff with_evidence_def by auto
    then show ?thesis
    proof cases
      case 1
      then show ?thesis using later(2) failed [OF level_one_at] by (simp add: passes_def)
    next
      case 2
      then show ?thesis using later(2) failed [OF level_two_at] by (simp add: passes_def)
    next
      case 3
      then show ?thesis using later(2) failed [OF level_three_at] by (simp add: passes_def)
    next
      case 4
      then show ?thesis using later finish_with_evidence [OF 4(4)] by (auto simp: passes_def)
    qed
  qed
qed

subsection \<open>Properties\<close>

text \<open>What each level has checked when it finds nothing.\<close>

lemma source_failure_none:
  "source_failure design ts = None \<longleftrightarrow>
   (\<forall>t \<in> set ts. map_of (dn_source_hashes design) (st_source_anchor_id t) = Some (st_source_hash t))"
  by (induction ts) (auto split: option.splits)

definition source_exact :: "layout_edit list \<Rightarrow> bool" where
  "source_exact es \<longleftrightarrow> length es \<le> 1 \<or> atomic_replacement es \<or> direct_plus_specialization es"

lemma anchor_failure_none: "anchor_failure gs = None \<longleftrightarrow> (\<forall>g \<in> set gs. source_exact (snd g))"
  by (induction gs rule: anchor_failure.induct) (auto simp: source_exact_def)

definition anchor_edits :: "repair_candidate \<Rightarrow> string \<Rightarrow> layout_edit list" where
  "anchor_edits cand a =
     concat (map (\<lambda>e. map (\<lambda>_. e) (filter (\<lambda>b. b = a) (ed_source_anchor_ids e))) (c_edits cand))"

lemma dict_append_foldl_get:
  "dict_get_list (foldl (\<lambda>d (a, e). dict_append a e d) d xs) k =
     dict_get_list d k @ map snd (filter (\<lambda>x. fst x = k) xs)"
  by (induction xs arbitrary: d) (auto simp: dict_get_list_append)

lemma edits_by_anchor_get: "dict_get_list (edits_by_anchor cand) a = anchor_edits cand a"
proof -
  have "map snd (filter (\<lambda>x. fst x = a) (concat (map (\<lambda>e. map (\<lambda>b. (b, e)) (ed_source_anchor_ids e)) es)))
      = concat (map (\<lambda>e. map (\<lambda>_. e) (filter (\<lambda>b. b = a) (ed_source_anchor_ids e))) es)" for es
    by (induction es) (simp_all add: filter_map o_def)
  then show ?thesis
    by (simp add: edits_by_anchor_def dict_append_foldl_get anchor_edits_def dict_get_list_def [of "[]"])
qed

lemma edits_by_anchor_entry:
  "(a, es) \<in> set (edits_by_anchor cand) \<Longrightarrow> es = anchor_edits cand a"
proof -
  have distinct: "distinct (map fst (foldl (\<lambda>d (a, e). dict_append a e d) d xs))"
    if "distinct (map fst d)" for d :: "(string \<times> layout_edit list) list" and xs
    using that by (induction xs arbitrary: d) (auto simp: distinct_dict_append)
  have "distinct (map fst (edits_by_anchor cand))" unfolding edits_by_anchor_def by (rule distinct) simp
  moreover assume "(a, es) \<in> set (edits_by_anchor cand)"
  ultimately have "map_of (edits_by_anchor cand) a = Some es" by simp
  then show ?thesis using edits_by_anchor_get [of cand a] by (simp add: dict_get_list_def)
qed

lemma anchors_source_exact:
  "anchor_failure (edits_by_anchor cand) = None \<longleftrightarrow> (\<forall>a. source_exact (anchor_edits cand a))"
proof
  assume none: "anchor_failure (edits_by_anchor cand) = None"
  show "\<forall>a. source_exact (anchor_edits cand a)"
  proof
    fix a
    show "source_exact (anchor_edits cand a)"
    proof (cases "map_of (edits_by_anchor cand) a")
      case None
      then have "anchor_edits cand a = []" using edits_by_anchor_get [of cand a] by (simp add: dict_get_list_def)
      then show ?thesis by (simp add: source_exact_def)
    next
      case (Some es)
      then have "(a, es) \<in> set (edits_by_anchor cand)" by (rule map_of_SomeD)
      then show ?thesis using none edits_by_anchor_entry unfolding anchor_failure_none by fastforce
    qed
  qed
next
  assume "\<forall>a. source_exact (anchor_edits cand a)"
  then show "anchor_failure (edits_by_anchor cand) = None"
    unfolding anchor_failure_none using edits_by_anchor_entry by fastforce
qed

text \<open>An edit that the class of its object allows.\<close>

definition editable_by :: "check_env \<Rightarrow> repair_candidate \<Rightarrow> design_state \<Rightarrow> layout_edit \<Rightarrow> layout_object \<Rightarrow> bool" where
  "editable_by env cand design e obj \<longleftrightarrow>
     lo_editability obj = EditabilityB \<or>
     (lo_editability obj = EditabilityA \<and>
        ed_op e \<in> {ActMoveViaStack, ActAddViaStack, ActDeleteViaStack, ActReplaceViaStack}) \<or>
     (lo_editability obj = EditabilityC \<and>
        (ed_op e = ActAdjustEndpoint \<or> proven_local_decomposition env cand design = Inr True))"

lemma via_stack_ops:
  "sublist ''VIA_STACK'' (action_text a) \<longleftrightarrow>
   a \<in> {ActMoveViaStack, ActAddViaStack, ActDeleteViaStack, ActReplaceViaStack}"
  by (cases a) (simp_all add: sublist_code)

lemma editability_failure_none:
  "editability_failure env cand design (e, i) = Inr None \<longleftrightarrow>
   (\<exists>obj. design_object env design i = Inr obj \<and> editable_by env cand design e obj)"
proof (cases "design_object env design i")
  case (Inr obj)
  then show ?thesis
    by (cases "lo_editability obj")
      (auto simp: editability_failure_def bind_result_Inr_iff editable_by_def via_stack_ops)
qed (simp add: editability_failure_def)

lemma level_two_none:
  "level_two env cand design = Inr None \<longleftrightarrow>
   (\<forall>e \<in> set (c_edits cand). \<forall>i \<in> set (ed_target_object_ids e).
      \<exists>obj. design_object env design i = Inr obj \<and> editable_by env cand design e obj)"
  unfolding level_two_def first_issue_none editability_failure_none [symmetric]
  by (auto simp: edited_objects_def)

definition legal_polygon :: "design_state \<Rightarrow> point list \<Rightarrow> bool" where
  "legal_polygon design polygon \<longleftrightarrow>
     3 \<le> length polygon \<and> polygon_area2 polygon \<noteq> 0 \<and> polygon_is_simple polygon \<and>
     (\<forall>p \<in> set polygon. dn_manufacturing_grid_dbu design dvd pt_x p \<and> dn_manufacturing_grid_dbu design dvd pt_y p \<and>
        (case dn_die_boundary design of None \<Rightarrow> True | Some die \<Rightarrow> inside_box die p))"

lemma polygons_failure_none: "polygons_failure design ps = None \<longleftrightarrow> (\<forall>p \<in> set ps. legal_polygon design p)"
  by (induction ps)
    (auto simp: polygon_failure_def legal_polygon_def off_grid_def dvd_eq_mod_eq_0 split: option.splits if_splits)

definition legal_layer :: "design_state \<Rightarrow> layout_edit \<Rightarrow> bool" where
  "legal_layer design e \<longleftrightarrow>
     (case ed_layer_after e of None \<Rightarrow> True | Some l \<Rightarrow> l = [] \<or> dn_legal_layers design = {} \<or> l \<in> dn_legal_layers design)"

lemma geometry_failure_none:
  "geometry_failure design es = None \<longleftrightarrow>
     (\<forall>e \<in> set es. (\<forall>p \<in> set (after_polygons e). legal_polygon design p) \<and> legal_layer design e)"
  by (induction es)
    (auto simp: polygons_failure_none [symmetric] layer_failure_def legal_layer_def split: option.splits if_splits)

text \<open>What a semantic postcondition asks of the geometry of the edits.\<close>

definition width_met :: "repair_candidate \<Rightarrow> (string \<times> json) list \<Rightarrow> bool" where
  "width_met cand parameters \<longleftrightarrow>
     (\<exists>b. targeted_boxes cand = Inr [b] \<and>
        int_value (case map_of parameters ''reference_width_dbu'' of None \<Rightarrow> JInt (-1) | Some v \<Rightarrow> v) =
          Inr (if json_get parameters ''axis'' = JStr ''Y'' then box_height b else box_width b))"

definition enclosure_met :: "check_env \<Rightarrow> repair_candidate \<Rightarrow> design_state \<Rightarrow> (string \<times> json) list \<Rightarrow> bool" where
  "enclosure_met env cand design parameters \<longleftrightarrow>
     (\<exists>m r i marker required parent patches reach.
        map_of parameters ''marker_bbox_dbu'' = Some m \<and> validate_box env m = Inr marker \<and>
        map_of parameters ''minimum_enclosure_dbu'' = Some r \<and> int_value r = Inr required \<and>
        map_of parameters ''parent_object_id'' = Some i \<and>
        json_get (dn_objects design) (str_value env i) \<noteq> JNull \<and>
        validate_object env (json_get (dn_objects design) (str_value env i)) = Inr parent \<and>
        selected_boxes (\<lambda>e. ed_op e = ActAddPolygon) cand = Inr patches \<and>
        box_expand marker required = Inr reach \<and> (\<exists>patch \<in> set patches. encloses_marker reach parent patch))"

definition alignment_met :: "check_env \<Rightarrow> repair_candidate \<Rightarrow> (string \<times> json) list \<Rightarrow> bool" where
  "alignment_met env cand parameters \<longleftrightarrow>
     (\<exists>axis p c t period origin target b.
        map_of parameters ''axis'' = Some axis \<and>
        map_of parameters ''period_dbu'' = Some p \<and> int_value p = Inr period \<and> period \<noteq> 0 \<and>
        map_of parameters ''origin_dbu'' = Some c \<and> int_value c = Inr origin \<and>
        map_of parameters ''target_coordinate_dbu'' = Some t \<and> int_value t = Inr target \<and>
        targeted_boxes cand = Inr [b] \<and>
        target = (if str_value env axis = ''Y'' then bx_y1 b else bx_x1 b) \<and> period dvd target - origin)"

definition predicate_met :: "check_env \<Rightarrow> repair_candidate \<Rightarrow> design_state \<Rightarrow> predicate \<Rightarrow> bool" where
  "predicate_met env cand design p \<longleftrightarrow>
     (pr_kind p = ''local_fragment_decomposition'' \<longrightarrow> proven_local_decomposition env cand design = Inr True) \<and>
     (pr_kind p = ''match_reference_width'' \<longrightarrow> width_met cand (pr_parameters p)) \<and>
     (pr_kind p = ''ensure_enclosure'' \<longrightarrow> enclosure_met env cand design (pr_parameters p)) \<and>
     (pr_kind p = ''snap_edge_to_legal_alignment'' \<longrightarrow> alignment_met env cand (pr_parameters p))"

lemma json_item_Inr: "json_item d k = Inr v \<longleftrightarrow> map_of d k = Some v"
  by (simp add: json_item_def split: option.splits)

lemma reference_width_none: "reference_width_issue cand parameters = Inr None \<longleftrightarrow> width_met cand parameters"
proof (cases "targeted_boxes cand")
  case (Inr boxes)
  consider "boxes = []" | b where "boxes = [b]" | b c bs where "boxes = b # c # bs"
    by (metis neq_Nil_conv)
  then show ?thesis
    by cases (auto simp: reference_width_issue_def width_met_def bind_result_Inr_iff Inr Let_def)
qed (auto simp: reference_width_issue_def width_met_def bind_result_Inr_iff)

lemma enclosure_none: "enclosure_issue env cand design parameters = Inr None \<longleftrightarrow> enclosure_met env cand design parameters"
  unfolding enclosure_issue_def enclosure_met_def Let_def bind_result_Inr_iff json_item_Inr
  by (fastforce simp: bind_result_Inr_iff split: if_splits)

lemma alignment_none: "alignment_issue env cand parameters = Inr None \<longleftrightarrow> alignment_met env cand parameters"
  unfolding alignment_issue_def alignment_met_def Let_def bind_result_Inr_iff json_item_Inr
  by (fastforce simp: dvd_eq_mod_eq_0 split: list.splits if_splits)

lemma predicate_issue_none: "predicate_issue env cand design p = Inr None \<longleftrightarrow> predicate_met env cand design p"
  by (auto simp: predicate_issue_def predicate_met_def bind_result_Inr_iff reference_width_none enclosure_none
      alignment_none split: if_splits)

lemma semantic_consistency_none:
  "semantic_consistency_issue env cand design = Inr None \<longleftrightarrow>
   (\<forall>p \<in> set (c_semantic_postconditions cand). predicate_met env cand design p)"
  by (simp add: semantic_consistency_issue_def first_issue_none predicate_issue_none)

text \<open>A local repair stays in the halo, is in proportion, and reaches the markers of its targets.\<close>

lemma all_result_True: "all_result f xs = Inr True \<longleftrightarrow> (\<forall>x \<in> set xs. f x = Inr True)"
proof -
  have "any_result (\<lambda>x. bind_result (f x) (\<lambda>b. Inr (\<not> b))) xs = Inr False \<longleftrightarrow> (\<forall>x \<in> set xs. f x = Inr True)"
    by (induction xs) (auto simp: bind_result_Inr_iff)
  then show ?thesis by (simp add: all_result_def bind_result_Inr_iff ex_bool_eq)
qed

definition locality_met ::
    "check_env \<Rightarrow> repair_candidate \<Rightarrow> (string \<times> violation_record) list \<Rightarrow> design_state \<Rightarrow> region_state \<Rightarrow> bool" where
  "locality_met env cand violations design region \<longleftrightarrow>
     (\<exists>marker markers joined influence scope.
        marker # markers =
          List.map_filter (\<lambda>i. map_option v_marker_bbox_dbu (map_of violations i)) (c_target_violation_ids cand) \<and>
        join_markers marker markers = Inr joined \<and>
        (let margin = max (dn_manufacturing_grid_dbu design * 4) 1; footprint = c_edit_footprint_dbu cand in
         box_expand joined margin = Inr influence \<and> box_expand (rg_bbox_dbu region) margin = Inr scope \<and>
         box_contains (rg_edit_halo_dbu region) footprint \<and>
         box_area footprint \<le> max (max (box_area influence * 16) (box_area scope * 4)) (margin * margin * 16) \<and>
         (box_intersects footprint influence \<or>
          (\<forall>i \<in> set (c_target_violation_ids cand). local_decomposition_targets_violation env cand design i = Inr True))))"

lemma proven_or_issue: "bind_result r (\<lambda>b. if b then Inr None else Inr (Some i)) = Inr None \<longleftrightarrow> r = Inr True"
  by (cases r) auto

lemma locality_issue_none:
  "locality_issue env cand vs design region = Inr None \<longleftrightarrow>
   (c_semantic_objective cand \<in> local_objectives \<longrightarrow> locality_met env cand vs design region)"
proof (cases "List.map_filter (\<lambda>i. map_option v_marker_bbox_dbu (map_of vs i)) (c_target_violation_ids cand)")
  case Nil
  then show ?thesis by (simp add: locality_issue_def locality_met_def)
next
  case (Cons marker markers)
  let ?margin = "max (dn_manufacturing_grid_dbu design * 4) 1"
  note defs = locality_issue_def locality_met_def Cons all_result_True [symmetric] Let_def proven_or_issue
  show ?thesis
  proof (cases "join_markers marker markers")
    case (Inr joined)
    show ?thesis
    proof (cases "box_expand joined ?margin")
      case reach: (Inr influence)
      show ?thesis
      proof (cases "box_expand (rg_bbox_dbu region) ?margin")
        case scope: (Inr scope)
        show ?thesis unfolding defs by (simp add: Inr reach scope proven_or_issue not_less del: max_less_iff_conj)
      qed (simp add: defs Inr reach)
    qed (simp add: defs Inr)
  qed (simp add: defs)
qed

lemma level_three_none:
  "level_three env cand region design vs = Inr None \<longleftrightarrow>
    geometry_failure design (c_edits cand) = None \<and>
    (\<forall>p \<in> set (c_semantic_postconditions cand). predicate_met env cand design p) \<and>
    (c_semantic_objective cand \<in> local_objectives \<longrightarrow> locality_met env cand vs design region)"
proof -
  have "level_three env cand region design vs = Inr None \<longleftrightarrow>
      geometry_failure design (c_edits cand) = None \<and> semantic_consistency_issue env cand design = Inr None \<and>
      locality_issue env cand vs design region = Inr None"
    by (auto simp: level_three_def bind_result_Inr_iff split: option.splits)
  then show ?thesis unfolding semantic_consistency_none locality_issue_none .
qed

text \<open>The demand on a resource up to and including a claim stays within the capacity that the claim has.\<close>

definition demand_of :: "string \<Rightarrow> resource_claim list \<Rightarrow> int" where
  "demand_of r cs = (\<Sum>c\<leftarrow>filter (\<lambda>c. rcl_resource_id c = r) cs. rcl_amount c)"

lemma split_Cons_iff:
  "(\<forall>before c after. d # ds = before @ c # after \<longrightarrow> P before c) \<longleftrightarrow>
   P [] d \<and> (\<forall>before c after. ds = before @ c # after \<longrightarrow> P (d # before) c)"
  by (auto simp: Cons_eq_append_conv)

lemma resource_failure_none:
  "resource_failure design demand cs = None \<longleftrightarrow>
   (\<forall>before c after. cs = before @ c # after \<longrightarrow>
      (case claim_capacity design c of None \<Rightarrow> True
       | Some k \<Rightarrow> demand (rcl_resource_id c) + demand_of (rcl_resource_id c) (before @ [c]) \<le> k))"
proof (induction cs arbitrary: demand)
  case (Cons d ds)
  define demand' where "demand' = demand(rcl_resource_id d := demand (rcl_resource_id d) + rcl_amount d)"
  have shift: "demand r + demand_of r ((d # before) @ [c]) = demand' r + demand_of r (before @ [c])" for r before c
    by (simp add: demand_of_def demand'_def)
  have "resource_failure design demand (d # ds) = None \<longleftrightarrow>
      (case claim_capacity design d of None \<Rightarrow> True
       | Some k \<Rightarrow> demand (rcl_resource_id d) + demand_of (rcl_resource_id d) ([] @ [d]) \<le> k) \<and>
      resource_failure design demand' ds = None"
    by (simp add: demand'_def demand_of_def Let_def not_less split: option.splits)
  then show ?case unfolding Cons.IH split_Cons_iff [of d ds] shift .
qed simp

text \<open>
  Level 0: a routing macro is complete, and every target violation is known and has a target object that
  it is associated with and that lies in reach of its marker, or one of the accepted substitutes.
\<close>

definition routing_complete :: "repair_candidate \<Rightarrow> bool" where
  "routing_complete cand \<longleftrightarrow>
     (c_action_family cand \<in> {''LOCAL_DETOUR'', ''LOCAL_REROUTE'', ''CHANGE_LAYER''} \<longrightarrow>
        (\<exists>group. routing_groups cand = {group}) \<and> count_op ActDeletePolygon cand = 1 \<and>
        (\<exists>e \<in> set (c_edits cand). ed_op e = ActAddPolygon \<and> ed_target_object_ids e \<noteq> [] \<and> after_polygons e \<noteq> [])) \<and>
     (c_action_family cand = ''CHANGE_LAYER'' \<longrightarrow> 2 \<le> count_op ActAddViaStack cand)"

definition near_violation ::
    "check_env \<Rightarrow> repair_candidate \<Rightarrow> design_state \<Rightarrow> string \<Rightarrow> violation_record \<Rightarrow> layout_object list \<Rightarrow> bool" where
  "near_violation env cand design i v related \<longleftrightarrow>
     (\<exists>reach. box_expand (v_marker_bbox_dbu v) (influence_of cand design) = Inr reach \<and>
        ((\<exists>obj \<in> set related. box_intersects (lo_bbox_dbu obj) reach) \<or>
         specialization_targets_marker cand (v_marker_bbox_dbu v) (influence_of cand design) = Inr True \<or>
         specialization_targets_marker cand (v_marker_bbox_dbu v) (influence_of cand design) = Inr False \<and>
           (c_semantic_objective cand = ''ENSURE_ENCLOSURE'' \<and>
              box_intersects (c_edit_footprint_dbu cand) (v_marker_bbox_dbu v) \<or>
            local_decomposition_targets_violation env cand design i = Inr True)))"

definition targets_met ::
    "check_env \<Rightarrow> repair_candidate \<Rightarrow> region_state \<Rightarrow> design_state \<Rightarrow> (string \<times> violation_record) list \<Rightarrow> bool" where
  "targets_met env cand region design violations \<longleftrightarrow>
     set (c_target_violation_ids cand) \<subseteq> set (rg_violation_ids region) \<and>
     set (c_target_object_ids cand) \<subseteq> fst ` set (dn_objects design) \<and>
     (\<exists>objs. map_result (design_object env design) (c_target_object_ids cand) = Inr objs \<and>
        (\<forall>i \<in> set (c_target_violation_ids cand). \<exists>v. map_of violations i = Some v \<and>
           related_objects v objs \<noteq> [] \<and> near_violation env cand design i v (related_objects v objs)))"

lemma routing_failure_none: "routing_failure cand = None \<longleftrightarrow> routing_complete cand"
  by (auto simp: routing_failure_def routing_complete_def card_1_singleton_iff not_less)

lemma within_influence_True:
  "within_influence env cand design (influence_of cand design) i v related = Inr True \<longleftrightarrow>
   near_violation env cand design i v related"
  by (auto simp: within_influence_def near_violation_def bind_result_Inr_iff split: if_splits)

lemma relate_violations_passes:
  "(\<exists>related. relate_violations env cand design violations objs acc is = Inr (Inr related)) \<longleftrightarrow>
   (\<forall>i \<in> set is. \<exists>v. map_of violations i = Some v \<and> related_objects v objs \<noteq> [] \<and>
      near_violation env cand design i v (related_objects v objs))"
proof (induction "is" arbitrary: acc)
  case (Cons i "is")
  show ?case
  proof (cases "map_of violations i")
    case (Some v)
    show ?thesis
      using Cons.IH [of "dict_set i (related_objects v objs) acc"]
      by (auto simp: Some Let_def bind_result_Inr_iff within_influence_True [symmetric] split: if_splits)
  qed simp
qed simp

lemma implied_conjunct:
  "(\<And>x. C x \<Longrightarrow> k) \<Longrightarrow> (r \<and> (a \<and> b \<and> k) \<and> (\<exists>x. m x \<and> C x)) = (r \<and> a \<and> b \<and> (\<exists>x. m x \<and> C x))"
  by blast

lemma level_zero_passes:
  "(\<exists>related. level_zero env cand region design violations = Inr (Inr related)) \<longleftrightarrow>
   routing_complete cand \<and> targets_met env cand region design violations"
proof -
  have known: "set (c_target_violation_ids cand) \<subseteq> fst ` set violations"
    if "\<forall>i \<in> set (c_target_violation_ids cand). \<exists>v. map_of violations i = Some v \<and> Q i v" for Q
    using that by (force dest: map_of_SomeD)
  have target: "target_failure cand region design violations = None \<longleftrightarrow>
      set (c_target_violation_ids cand) \<subseteq> set (rg_violation_ids region) \<and>
      set (c_target_object_ids cand) \<subseteq> fst ` set (dn_objects design) \<and>
      set (c_target_violation_ids cand) \<subseteq> fst ` set violations"
    by (simp add: target_failure_def)
  have "(\<exists>related. level_zero env cand region design violations = Inr (Inr related)) \<longleftrightarrow>
      routing_failure cand = None \<and>
      (set (c_target_violation_ids cand) \<subseteq> set (rg_violation_ids region) \<and>
       set (c_target_object_ids cand) \<subseteq> fst ` set (dn_objects design) \<and>
       set (c_target_violation_ids cand) \<subseteq> fst ` set violations) \<and>
      (\<exists>objs. map_result (design_object env design) (c_target_object_ids cand) = Inr objs \<and>
        (\<exists>related. relate_violations env cand design violations objs [] (c_target_violation_ids cand) = Inr (Inr related)))"
    unfolding level_zero_def target [symmetric]
    by (cases "routing_failure cand"; cases "target_failure cand region design violations";
        cases "map_result (design_object env design) (c_target_object_ids cand)") simp_all
  then show ?thesis
    unfolding relate_violations_passes routing_failure_none targets_met_def
    by (rule trans) (rule implied_conjunct, rule known)
qed

text \<open>Grouping a list of candidates by region.\<close>

definition region_candidates :: "repair_candidate list \<Rightarrow> string \<Rightarrow> repair_candidate list" where
  "region_candidates cs r = filter (\<lambda>c. c_region_id c = r) cs"

lemma dict_set_present:
  "distinct (map fst d) \<Longrightarrow> k \<in> fst ` set d \<Longrightarrow>
   dict_set k v d = map (\<lambda>p. (fst p, if fst p = k then v else snd p)) d"
proof (induction d)
  case (Cons p d)
  show ?case
  proof (cases "fst p = k")
    case True
    then have "k \<notin> fst ` set d" using Cons.prems(1) by auto
    then have "map (\<lambda>p. (fst p, if fst p = k then v else snd p)) d = d" by (intro map_idI) auto
    then show ?thesis using True by (cases p) simp
  next
    case False
    then show ?thesis using Cons by (cases p) auto
  qed
qed simp

lemma group_candidates_result:
  "distinct (map fst d) \<Longrightarrow>
   group_candidates d cs = Inr d' \<longleftrightarrow>
     (\<forall>c \<in> set cs. c_region_id c \<in> fst ` set d) \<and>
     d' = map (\<lambda>p. (fst p, snd p @ region_candidates cs (fst p))) d"
proof (induction cs arbitrary: d)
  case Nil
  then show ?case by (auto simp: region_candidates_def)
next
  case (Cons c cs)
  show ?case
  proof (cases "map_of d (c_region_id c)")
    case None
    then have "c_region_id c \<notin> fst ` set d" by (simp add: map_of_eq_None_iff)
    then show ?thesis unfolding group_candidates.simps None option.case by auto
  next
    case (Some vs)
    then have key: "c_region_id c \<in> fst ` set d" using map_of_SomeD by force
    let ?d = "map (\<lambda>p. (fst p, if fst p = c_region_id c then vs @ [c] else snd p)) d"
    have upd: "dict_set (c_region_id c) (vs @ [c]) d = ?d" by (rule dict_set_present [OF Cons.prems key])
    have keys: "map fst ?d = map fst d" by simp
    have vs: "snd p = vs" if "p \<in> set d" "fst p = c_region_id c" for p
      using Some that Cons.prems by (metis map_of_is_SomeI option.inject prod.collapse)
    have same: "map (\<lambda>p. (fst p, snd p @ region_candidates cs (fst p))) ?d =
        map (\<lambda>p. (fst p, snd p @ region_candidates (c # cs) (fst p))) d"
      using vs by (auto simp: region_candidates_def)
    have key_set: "fst ` set ?d = fst ` set d" unfolding list.set_map [symmetric] keys ..
    have "group_candidates ?d cs = Inr d' \<longleftrightarrow> (\<forall>c \<in> set cs. c_region_id c \<in> fst ` set ?d) \<and>
        d' = map (\<lambda>p. (fst p, snd p @ region_candidates cs (fst p))) ?d"
      by (rule Cons.IH) (simp only: keys Cons.prems)
    then show ?thesis
      using key unfolding group_candidates.simps Some option.case upd same key_set by simp
  qed
qed

lemma check_groups_ok:
  "check_groups gs = Inr () \<longleftrightarrow>
   (\<forall>g \<in> set gs. length (filter is_noop (snd g)) = 1 \<and>
      distinct (map c_semantic_fingerprint (filter (\<lambda>c. \<not> is_noop c) (snd g))))"
  by (induction gs rule: check_groups.induct) auto

text \<open>
  C6. What the checker accepts, when it answers at all (a malformed input can raise). A candidate is
  accepted exactly when it belongs to the region, has an identifier and an allowed family, and either is
  the no-op, which needs nothing else and is \<open>VALID\<close>, or meets all the checks of the six levels:
  its routing macro is complete; its targets are known, and each target violation has evidence, an
  associated target object, and one in reach of its marker (or a substitute); its sources are
  unchanged and no two edits compete for one source statement; every edit respects the class of the
  object it edits; all new geometry is simple, on grid, inside the die and on legal layers; every
  semantic postcondition holds of the new geometry; a local repair stays inside the edit halo, in
  proportion, and reaches its targets; its resource demand fits; and every mutation has an anchor.
  A candidate with edits is never certified: its status is the one that requires a sandbox run, and no
  benefit counts as proven.
\<close>

theorem accepted_candidate_sound:
  assumes "validate_candidate env cand region design allowed violations catalog = Inr (cand', report)"
  shows "(accepted_status (vp_status report) \<longleftrightarrow>
      c_region_id cand = rg_region_id region \<and> c_candidate_id cand \<noteq> [] \<and> c_action_family cand \<in> allowed \<and>
      (is_noop cand \<or>
       routing_complete cand \<and>
       targets_met env cand region design (violations_by_id violations) \<and>
       (\<forall>t \<in> set (c_source_targets cand).
          map_of (dn_source_hashes design) (st_source_anchor_id t) = Some (st_source_hash t)) \<and>
       (\<forall>a. source_exact (anchor_edits cand a)) \<and>
       (\<forall>e \<in> set (c_edits cand).
          (\<forall>i \<in> set (ed_target_object_ids e). \<exists>obj. design_object env design i = Inr obj \<and> editable_by env cand design e obj) \<and>
          (\<forall>p \<in> set (after_polygons e). legal_polygon design p) \<and> legal_layer design e \<and>
          (ed_source_anchor_ids e \<noteq> [] \<or> ed_op e = ActNoOp)) \<and>
       (\<forall>p \<in> set (c_semantic_postconditions cand). predicate_met env cand design p) \<and>
       (c_semantic_objective cand \<in> local_objectives \<longrightarrow>
          locality_met env cand (violations_by_id violations) design region) \<and>
       (\<forall>before c after. c_required_resources cand = before @ c # after \<longrightarrow>
          (case claim_capacity design c of None \<Rightarrow> True
           | Some k \<Rightarrow> demand_of (rcl_resource_id c) (before @ [c]) \<le> k)))) \<and>
    (accepted_status (vp_status report) \<longrightarrow>
      vp_status report = (if is_noop cand then StatusValid else StatusValidRequiresSandbox) \<and>
      (is_noop cand \<or> be_proven_drc_benefit_lb (c_benefit_evidence cand') = 0))"
proof -
  let ?vs = "violations_by_id violations"
  let ?identity = "identity_failure cand region allowed = None"
  let ?edits = "(\<forall>e \<in> set (c_edits cand). \<forall>i \<in> set (ed_target_object_ids e).
      \<exists>obj. design_object env design i = Inr obj \<and> editable_by env cand design e obj)"
  have identity: "?identity \<longleftrightarrow>
      c_region_id cand = rg_region_id region \<and> c_candidate_id cand \<noteq> [] \<and> c_action_family cand \<in> allowed"
    by (simp add: identity_failure_def)
  have one: "level_one cand design = None \<longleftrightarrow>
      (\<forall>t \<in> set (c_source_targets cand).
         map_of (dn_source_hashes design) (st_source_anchor_id t) = Some (st_source_hash t)) \<and>
      (\<forall>a. source_exact (anchor_edits cand a))"
    unfolding source_failure_none [symmetric] anchors_source_exact [symmetric]
    by (simp add: level_one_def split: option.split)
  have anchored: "anchorless_failure cand = None \<longleftrightarrow>
      (\<forall>e \<in> set (c_edits cand). ed_source_anchor_ids e \<noteq> [] \<or> ed_op e = ActNoOp)"
    by (auto simp: anchorless_failure_def)
  have resources: "resource_failure design (\<lambda>r. 0) (c_required_resources cand) = None \<longleftrightarrow>
      (\<forall>before c after. c_required_resources cand = before @ c # after \<longrightarrow>
        (case claim_capacity design c of None \<Rightarrow> True
         | Some k \<Rightarrow> demand_of (rcl_resource_id c) (before @ [c]) \<le> k))"
    unfolding resource_failure_none add_0 ..
  have outcome: "accepted_status (vp_status report) = passes cand region design allowed env ?vs \<and>
      (accepted_status (vp_status report) \<longrightarrow>
        vp_status report = (if is_noop cand then StatusValid else StatusValidRequiresSandbox) \<and>
        (is_noop cand \<or> be_proven_drc_benefit_lb (c_benefit_evidence cand') = 0))"
    by (rule validate_candidate_passes [OF assms])
  show ?thesis
    using outcome unfolding passes_def identity one level_two_none level_three_none level_zero_passes
      geometry_failure_none anchored resources by blast
qed

text \<open>
  C7. A rejected candidate is told why: it gets exactly one issue, the levels reported as passed are
  exactly the levels below that of the issue, the report and the candidate agree, and the status is
  none of the accepting ones. An accepted candidate has passed all six levels and has no issue.
\<close>

theorem validation_report_exact:
  assumes "validate_candidate env cand region design allowed violations catalog = Inr (cand', report)"
  shows "vp_candidate_id report = c_candidate_id cand \<and> c_validation_status cand' = vp_status report \<and>
    (if accepted_status (vp_status report)
     then vp_issues report = [] \<and> vp_levels_passed report = [0, 1, 2, 3, 4, 5]
     else \<exists>issue. vp_issues report = [issue] \<and> c_validation_issues cand' = [issue] \<and>
       0 \<le> vi_level issue \<and> vi_level issue \<le> 5 \<and> vp_levels_passed report = [0..vi_level issue - 1])"
proof -
  let ?vs = "violations_by_id violations"
  have "(\<exists>c. c_candidate_id c = c_candidate_id cand \<and> rejects c (cand', report)) \<or>
      (\<exists>c s. c_candidate_id c = c_candidate_id cand \<and> accepted_status s \<and>
        (cand', report) \<in> {accept_with c s, accept_noop c})"
  proof -
    have fin: "?thesis" if "finish_validation (with_evidence cand proofs heuristic) design = Inr (cand', report)"
      for proofs heuristic
    proof -
      let ?c = "with_evidence cand proofs heuristic"
      have c: "c_candidate_id ?c = c_candidate_id cand" by (simp add: with_evidence_def)
      have s: "accepted_status (final_status ?c)" by (simp add: final_status_def)
      show ?thesis using finish_validation_result [OF that] c s by blast
    qed
    show ?thesis
      using validate_candidate_result [OF assms] validate_related_result fin rejected_status(8) by blast
  qed
  then show ?thesis
    by (auto simp: rejects_def fail_with_def accept_with_def accept_noop_def failure_at_def Let_def)
qed

text \<open>
  A set of candidates is accepted exactly when every candidate belongs to one of the regions, and
  every region has exactly one no-op and no two other candidates with the same fingerprint.
\<close>

theorem candidate_set_exact:
  assumes "distinct region_ids"
  shows "validate_candidate_set cands region_ids = Inr () \<longleftrightarrow>
    (\<forall>c \<in> set cands. c_region_id c \<in> set region_ids) \<and>
    (\<forall>r \<in> set region_ids. length (filter is_noop (region_candidates cands r)) = 1 \<and>
       distinct (map c_semantic_fingerprint (filter (\<lambda>c. \<not> is_noop c) (region_candidates cands r))))"
proof -
  let ?d = "map (\<lambda>r. (r, [])) region_ids"
  have "map fst ?d = region_ids" by (simp add: o_def)
  from this [symmetric] have d: "distinct (map fst ?d)" using assms by (rule subst)
  have keys: "fst ` set ?d = set region_ids" by (simp add: image_image)
  show ?thesis
    unfolding validate_candidate_set_def bind_result_Inr_iff group_candidates_result [OF d] check_groups_ok keys
    by auto
qed

subsection \<open>An example\<close>

text \<open>A polygon on one violation, moved by one unit.\<close>

definition example_square :: "point list" where
  "example_square = map (\<lambda>(x, y). \<lparr>pt_x = x, pt_y = y\<rparr>) [(0, 0), (0, 10), (10, 10), (10, 0)]"

definition example_object :: layout_object where
  "example_object = \<lparr>lo_object_id = ''o1'', lo_source_anchor_id = Some ''a1'', lo_kind = KindPolygon, lo_layer = ''M1'',
     lo_bbox_dbu = \<lparr>bx_x1 = 0, bx_y1 = 0, bx_x2 = 10, bx_y2 = 10\<rparr>, lo_geometry_dbu = None, lo_net_id = None,
     lo_net_mapping_quality = NetUnavailable, lo_connectivity_component_id = None, lo_routing_type = None,
     lo_editability = EditabilityB, lo_touches_region_boundary = False, lo_source_span = None,
     lo_insertion_source_span = None, lo_source_variable = None, lo_source_cell = None, lo_layer_number = None,
     lo_geometry_hash = ''h''\<rparr>"

definition example_violation :: violation_record where
  "example_violation = \<lparr>v_violation_id = ''v1'', v_case_id = ''c'', v_report_iteration = 0, v_rule_id = ''R'',
     v_rule_family = FamilySpacing, v_description = None, v_marker_type = MarkerBbox,
     v_marker_bbox_dbu = \<lparr>bx_x1 = 10, bx_y1 = 0, bx_x2 = 12, bx_y2 = 10\<rparr>, v_marker_geometry_dbu = EdgeGeometry [],
     v_layers = [], v_severity = 1, v_source_report_path = ''p'', v_source_index = 0, v_associated_object_ids = [],
     v_association_quality = AssocUnknown, v_fingerprint = ''f''\<rparr>"

definition example_design :: design_state where
  "example_design = \<lparr>dn_case_id = ''c'', dn_die_boundary = Some \<lparr>bx_x1 = 0, bx_y1 = 0, bx_x2 = 100, bx_y2 = 100\<rparr>,
     dn_legal_layers = {''M1''}, dn_objects = [(''o1'', JObj [])], dn_violations = [], dn_local_topology = [],
     dn_physical_geometries = [], dn_rule_predicates = [], dn_rule_witnesses = [], dn_rule_knowledge_packs = [],
     dn_source_hashes = [(''a1'', ''h'')], dn_resource_capacities = [], dn_manufacturing_grid_dbu = 1,
     dn_dbu_per_um = 4000\<rparr>"

definition example_check_env :: check_env where
  "example_check_env = \<lparr>ck_object = (\<lambda>raw. Some example_object), ck_box = (\<lambda>raw. None),
     ck_prove = (\<lambda>c vs os k. []), ck_str = (\<lambda>v. []), ck_hash = (\<lambda>v. ''h'')\<rparr>"

definition example_edit :: "string list \<Rightarrow> layout_edit" where
  "example_edit targets = \<lparr>ed_edit_id = ''e1'', ed_op = ActMoveShape, ed_target_object_ids = targets,
     ed_source_anchor_ids = [''a1''], ed_layer_before = None, ed_layer_after = None, ed_geometry_before_dbu = None,
     ed_geometry_after_dbu = Some [example_square], ed_replacement_group_id = None,
     ed_delta_dbu = Some \<lparr>vec_dx = -1, vec_dy = 0\<rparr>, ed_endpoint_selector = None, ed_net_id = None,
     ed_preconditions = [], ed_postconditions = [], ed_editability_required = {}, ed_instance_specializations = [],
     ed_provenance = \<lparr>ep_generator = ''g'', ep_intent_id = None, ep_evidence_ids = []\<rparr>\<rparr>"

definition example_region :: region_state where
  "example_region = plain_region ''r1'' [''o1''] [''v1'']"

definition example_move :: "string list \<Rightarrow> repair_candidate" where
  "example_move targets = (make_noop_candidate example_check_env example_region ''s1'')
     \<lparr>c_candidate_id := ''c1'', c_action_family := ''MOVE_SHAPE'', c_edits := [example_edit targets],
      c_target_violation_ids := [''v1''], c_target_object_ids := [''o1''],
      c_source_targets := [\<lparr>st_source_anchor_id = ''a1'', st_source_hash = ''h'', st_object_id = ''o1''\<rparr>]\<rparr>"

definition example_validation :: "string list \<Rightarrow> (repair_candidate \<times> validation_report) result" where
  "example_validation targets = validate_candidate example_check_env (example_move targets) example_region
     example_design {''MOVE_SHAPE''} (Inl [example_violation]) None"

lemma example_validation_run:
  "(case example_validation [''o1''] of Inl _ \<Rightarrow> None | Inr x \<Rightarrow> Some (vp_status (snd x)))
     = Some StatusValidRequiresSandbox"
  by code_simp

text \<open>
  The targets of the candidate are checked against the design, but those of its edits are not: a
  candidate whose edit names an object that the design does not have is not rejected as
  \<open>UNKNOWN_OBJECT\<close>; the lookup of the object's class raises \<open>KeyError\<close> and ends the validation.
\<close>

lemma unknown_edit_target_crashes: "example_validation [''o2''] = Inl (KeyError ''o2'')"
  by code_simp

lemma example_accepted:
  obtains cand' report where "example_validation [''o1''] = Inr (cand', report)"
    "vp_status report = StatusValidRequiresSandbox"
proof (cases "example_validation [''o1'']")
  case (Inl e)
  then show ?thesis using example_validation_run by simp
next
  case (Inr x)
  then show ?thesis using example_validation_run that by (cases x) simp
qed

lemma accepted_candidate_sound_witness:
  "targets_met example_check_env (example_move [''o1'']) example_region example_design [(''v1'', example_violation)] \<and>
   legal_polygon example_design example_square"
proof -
  obtain cand' report where run: "example_validation [''o1''] = Inr (cand', report)"
    "vp_status report = StatusValidRequiresSandbox" by (rule example_accepted)
  have acc: "accepted_status (vp_status report)" "\<not> is_noop (example_move [''o1''])"
    by (simp_all add: run(2) is_noop_def example_move_def)
  have e: "example_edit [''o1''] \<in> set (c_edits (example_move [''o1'']))"
    "example_square \<in> set (after_polygons (example_edit [''o1'']))"
    by (simp_all add: example_move_def example_edit_def after_polygons_def)
  have vs: "violations_by_id (Inl [example_violation]) = [(''v1'', example_violation)]"
    by (simp add: violations_by_id_def dict_of_def example_violation_def)
  show ?thesis
    using accepted_candidate_sound [OF run(1) [unfolded example_validation_def], unfolded vs] acc e by blast
qed

lemma validation_report_exact_witness:
  "\<exists>cand' report. example_validation [''o1''] = Inr (cand', report) \<and> vp_issues report = []"
proof -
  obtain cand' report where run: "example_validation [''o1''] = Inr (cand', report)"
    "vp_status report = StatusValidRequiresSandbox" by (rule example_accepted)
  then show ?thesis using validation_report_exact [OF run(1) [unfolded example_validation_def]] by auto
qed

lemma candidate_set_exact_witness:
  "validate_candidate_set [make_noop_candidate example_check_env example_region ''s1'', example_move [''o1'']] [''r1'']
     = Inr ()"
proof -
  let ?noop = "make_noop_candidate example_check_env example_region ''s1''"
  have "is_noop ?noop" "\<not> is_noop (example_move [''o1''])" "c_region_id ?noop = ''r1''"
    "c_region_id (example_move [''o1'']) = ''r1''"
    by (simp_all add: is_noop_def example_move_def make_noop_candidate_def example_region_def)
  then show ?thesis
    using candidate_set_exact [of "[''r1'']" "[?noop, example_move [''o1'']]"]
    by (simp add: region_candidates_def)
qed

end
