(* ===== verification/Effects.thy ===== *)
theory Effects
  imports Prelude
begin

text \<open>
  Programs that change a state and may raise: the shape of the code that writes files and calls
  tools. A run of \<open>m\<close> in a state gives an exception or a value, and the state as it is then; a raised
  exception does not undo what was done before it. \<open>triple P m Q E\<close> is the Hoare triple with one
  postcondition for values and one for exceptions.
\<close>

type_synonym ('s, 'e, 'a) effect = "'s \<Rightarrow> ('e + 'a) \<times> 's"

definition pass :: "'a \<Rightarrow> ('s, 'e, 'a) effect" where
  "pass x s = (Inr x, s)"

definition throw :: "'e \<Rightarrow> ('s, 'e, 'a) effect" where
  "throw e s = (Inl e, s)"

definition and_then :: "('s, 'e, 'a) effect \<Rightarrow> ('a \<Rightarrow> ('s, 'e, 'b) effect) \<Rightarrow> ('s, 'e, 'b) effect" where
  "and_then m f s = (case m s of (Inl e, s') \<Rightarrow> (Inl e, s') | (Inr x, s') \<Rightarrow> f x s')"

definition modify :: "('s \<Rightarrow> 's) \<Rightarrow> ('s, 'e, unit) effect" where
  "modify f s = (Inr (), f s)"

definition gets :: "('s \<Rightarrow> 'a) \<Rightarrow> ('s, 'e, 'a) effect" where
  "gets f s = (Inr (f s), s)"

text \<open>\<open>try: m except: h\<close>; what the handler does not want it raises again.\<close>

definition handle :: "('s, 'e, 'a) effect \<Rightarrow> ('e \<Rightarrow> ('s, 'e, 'a) effect) \<Rightarrow> ('s, 'e, 'a) effect" where
  "handle m h s = (case m s of (Inl e, s') \<Rightarrow> h e s' | (Inr x, s') \<Rightarrow> (Inr x, s'))"

text \<open>\<open>try: m finally: h\<close>: an exception of \<open>h\<close> replaces that of \<open>m\<close>.\<close>

definition finally_do :: "('s, 'e, 'a) effect \<Rightarrow> ('s, 'e, unit) effect \<Rightarrow> ('s, 'e, 'a) effect" where
  "finally_do m h s = (case m s of (r, s') \<Rightarrow> (case h s' of (Inl e, s'') \<Rightarrow> (Inl e, s'') | (Inr _, s'') \<Rightarrow> (r, s'')))"

text \<open>A \<open>try\<close> block whose \<open>except\<close> clauses go on with the exception as a value.\<close>

definition caught :: "('s, 'e, 'a) effect \<Rightarrow> ('s, 'e, 'e + 'a) effect" where
  "caught m s = (case m s of (r, s') \<Rightarrow> (Inr r, s'))"

text \<open>The result of something outside the program: it raises or it has a value.\<close>

definition outside :: "'e + 'a \<Rightarrow> ('s, 'e, 'a) effect" where
  "outside r s = (r, s)"

fun map_effect :: "('a \<Rightarrow> ('s, 'e, 'b) effect) \<Rightarrow> 'a list \<Rightarrow> ('s, 'e, 'b list) effect" where
  "map_effect f [] = pass []"
| "map_effect f (x # xs) = and_then (f x) (\<lambda>y. and_then (map_effect f xs) (\<lambda>ys. pass (y # ys)))"

subsection \<open>Results\<close>

lemma pass_result [simp]: "pass x s = (r, s') \<longleftrightarrow> r = Inr x \<and> s' = s"
  by (auto simp: pass_def)

lemma throw_result [simp]: "throw e s = (r, s') \<longleftrightarrow> r = Inl e \<and> s' = s"
  by (auto simp: throw_def)

lemma modify_result [simp]: "modify f s = (r, s') \<longleftrightarrow> r = Inr () \<and> s' = f s"
  by (auto simp: modify_def)

lemma gets_result [simp]: "gets f s = (r, s') \<longleftrightarrow> r = Inr (f s) \<and> s' = s"
  by (auto simp: gets_def)

lemma caught_result: "caught m s = (Inr r, s') \<longleftrightarrow> m s = (r, s')"
  by (simp add: caught_def split: prod.split)

lemma caught_raises [simp]: "caught m s \<noteq> (Inl e, s')"
  by (simp add: caught_def split: prod.split)

lemma outside_result [simp]: "outside r s = (r', s') \<longleftrightarrow> r' = r \<and> s' = s"
  by (auto simp: outside_def)

lemma and_then_result:
  "and_then m f s = (Inr y, s') \<longleftrightarrow> (\<exists>x s1. m s = (Inr x, s1) \<and> f x s1 = (Inr y, s'))"
  by (auto simp: and_then_def split: prod.splits sum.splits)

lemma and_then_raises:
  "and_then m f s = (Inl e, s') \<longleftrightarrow>
     m s = (Inl e, s') \<or> (\<exists>x s1. m s = (Inr x, s1) \<and> f x s1 = (Inl e, s'))"
  by (auto simp: and_then_def split: prod.splits sum.splits)

lemma and_then_run: "m s = (Inr x, s1) \<Longrightarrow> and_then m f s = f x s1"
  by (simp add: and_then_def)

lemma handle_result:
  "handle m h s = (Inr y, s') \<longleftrightarrow> m s = (Inr y, s') \<or> (\<exists>e s1. m s = (Inl e, s1) \<and> h e s1 = (Inr y, s'))"
  by (auto simp: handle_def split: prod.splits sum.splits)

lemma handle_raises: "handle m h s = (Inl e', s') \<longleftrightarrow> (\<exists>e s1. m s = (Inl e, s1) \<and> h e s1 = (Inl e', s'))"
  by (auto simp: handle_def split: prod.splits sum.splits)

lemma finally_result:
  "finally_do m h s = (Inr y, s') \<longleftrightarrow> (\<exists>s1 u. m s = (Inr y, s1) \<and> h s1 = (Inr u, s'))"
  by (auto simp: finally_do_def split: prod.splits sum.splits)

lemma finally_raises:
  "finally_do m h s = (Inl e, s') \<longleftrightarrow>
     (\<exists>s1 u. m s = (Inl e, s1) \<and> h s1 = (Inr u, s')) \<or> (\<exists>r s1. m s = (r, s1) \<and> h s1 = (Inl e, s'))"
  by (auto simp: finally_do_def split: prod.splits sum.splits)

lemma and_thenE:
  assumes "and_then m f s = (Inr y, s')"
  obtains x s1 where "m s = (Inr x, s1)" "f x s1 = (Inr y, s')"
  using assms by (auto simp: and_then_result)

subsection \<open>Triples\<close>

named_theorems triple_rules "how to prove a triple, from the outside in"

definition triple ::
    "('s \<Rightarrow> bool) \<Rightarrow> ('s, 'e, 'a) effect \<Rightarrow> ('a \<Rightarrow> 's \<Rightarrow> bool) \<Rightarrow> ('e \<Rightarrow> 's \<Rightarrow> bool) \<Rightarrow> bool" where
  "triple P m Q E \<longleftrightarrow>
     (\<forall>s s' x. P s \<longrightarrow> m s = (Inr x, s') \<longrightarrow> Q x s') \<and> (\<forall>s s' e. P s \<longrightarrow> m s = (Inl e, s') \<longrightarrow> E e s')"

lemma triple_Inr: "triple P m Q E \<Longrightarrow> P s \<Longrightarrow> m s = (Inr x, s') \<Longrightarrow> Q x s'"
  unfolding triple_def by blast

lemma triple_Inl: "triple P m Q E \<Longrightarrow> P s \<Longrightarrow> m s = (Inl e, s') \<Longrightarrow> E e s'"
  unfolding triple_def by blast

lemma triple_weaken:
  "triple P m Q E \<Longrightarrow> (\<And>s. P' s \<Longrightarrow> P s) \<Longrightarrow> (\<And>x s. Q x s \<Longrightarrow> Q' x s) \<Longrightarrow> (\<And>e s. E e s \<Longrightarrow> E' e s) \<Longrightarrow> triple P' m Q' E'"
  unfolding triple_def by blast

lemma triple_pre: "triple P m Q E \<Longrightarrow> (\<And>s. P' s \<Longrightarrow> P s) \<Longrightarrow> triple P' m Q E"
  unfolding triple_def by blast

lemma triple_pass: "(\<And>s. P s \<Longrightarrow> Q x s) \<Longrightarrow> triple P (pass x) Q E"
  by (simp add: triple_def pass_def)

lemma triple_throw: "(\<And>s. P s \<Longrightarrow> E e s) \<Longrightarrow> triple P (throw e) Q E"
  by (simp add: triple_def throw_def)

lemma triple_modify: "(\<And>s. P s \<Longrightarrow> Q () (f s)) \<Longrightarrow> triple P (modify f) Q E"
  by (simp add: triple_def modify_def)

lemma triple_gets: "(\<And>s. P s \<Longrightarrow> Q (f s) s) \<Longrightarrow> triple P (gets f) Q E"
  by (simp add: triple_def)

lemma triple_caught: "triple P m (\<lambda>x. R (Inr x)) (\<lambda>e. R (Inl e)) \<Longrightarrow> triple P (caught m) R E"
  unfolding triple_def caught_result by (auto simp: sum.split_sel) (metis sum.exhaust)

lemma triple_outside: "(\<And>s x. P s \<Longrightarrow> Q x s) \<Longrightarrow> (\<And>s e. P s \<Longrightarrow> E e s) \<Longrightarrow> triple P (outside r) Q E"
  by (simp add: triple_def outside_def)

lemma triple_and_then:
  "triple P m R E \<Longrightarrow> (\<And>x. triple (R x) (f x) Q E) \<Longrightarrow> triple P (and_then m f) Q E"
  unfolding triple_def and_then_result and_then_raises by blast

lemma triple_handle:
  "triple P m Q R \<Longrightarrow> (\<And>e. triple (R e) (h e) Q E) \<Longrightarrow> triple P (handle m h) Q E"
  unfolding triple_def handle_result handle_raises by blast

lemma triple_finally:
  assumes "triple P m R F" "\<And>x. triple (R x) h (\<lambda>_. Q x) E" "\<And>e. triple (F e) h (\<lambda>_. E e) E"
  shows "triple P (finally_do m h) Q E"
  unfolding triple_def
proof (intro conjI allI impI)
  fix s s' x assume "P s" "finally_do m h s = (Inr x, s')"
  then show "Q x s'" using assms unfolding triple_def finally_result by blast
next
  fix s s' e assume p: "P s" and run: "finally_do m h s = (Inl e, s')"
  from run consider s1 u where "m s = (Inl e, s1)" "h s1 = (Inr u, s')" | r s1 where "m s = (r, s1)" "h s1 = (Inl e, s')"
    unfolding finally_raises by blast
  then show "E e s'"
  proof cases
    case 1
    then show ?thesis using p assms unfolding triple_def by blast
  next
    case 2
    then show ?thesis using p assms unfolding triple_def by (cases r) blast+
  qed
qed

lemma triple_if: "triple P m Q E \<Longrightarrow> triple P n Q E \<Longrightarrow> triple P (if b then m else n) Q E"
  by simp

text \<open>What keeps an invariant, whether it raises or not.\<close>

definition keeps :: "('s \<Rightarrow> bool) \<Rightarrow> ('s, 'e, 'a) effect \<Rightarrow> bool" where
  "keeps I m \<longleftrightarrow> triple I m (\<lambda>_. I) (\<lambda>_. I)"

lemma keeps_Inr: "keeps I m \<Longrightarrow> I s \<Longrightarrow> m s = (Inr x, s') \<Longrightarrow> I s'"
  unfolding keeps_def by (rule triple_Inr)

lemma keeps_Inl: "keeps I m \<Longrightarrow> I s \<Longrightarrow> m s = (Inl e, s') \<Longrightarrow> I s'"
  unfolding keeps_def by (rule triple_Inl)

lemma keeps_pass [triple_rules]: "keeps I (pass x)"
  unfolding keeps_def by (rule triple_pass)

lemma keeps_throw [triple_rules]: "keeps I (throw e)"
  unfolding keeps_def by (rule triple_throw)

lemma keeps_gets [triple_rules]: "keeps I (gets f)"
  unfolding keeps_def by (rule triple_gets)

lemma keeps_caught [triple_rules]: "keeps I m \<Longrightarrow> keeps I (caught m)"
  unfolding keeps_def by (rule triple_caught)

lemma keeps_outside [triple_rules]: "keeps I (outside r)"
  unfolding keeps_def by (rule triple_outside)

lemma keeps_modify: "(\<And>s. I s \<Longrightarrow> I (f s)) \<Longrightarrow> keeps I (modify f)"
  unfolding keeps_def by (rule triple_modify)

lemma keeps_and_then [triple_rules]: "keeps I m \<Longrightarrow> (\<And>x. keeps I (f x)) \<Longrightarrow> keeps I (and_then m f)"
  unfolding keeps_def by (rule triple_and_then)

lemma keeps_handle [triple_rules]: "keeps I m \<Longrightarrow> (\<And>e. keeps I (h e)) \<Longrightarrow> keeps I (handle m h)"
  unfolding keeps_def by (rule triple_handle)

lemma keeps_map_effect [triple_rules]: "(\<And>x. keeps I (f x)) \<Longrightarrow> keeps I (map_effect f xs)"
  by (induction xs) (auto intro: triple_rules)

lemma keeps_if [triple_rules]: "keeps I m \<Longrightarrow> keeps I n \<Longrightarrow> keeps I (if b then m else n)"
  by simp

lemma keeps_option [triple_rules]:
  "keeps I m \<Longrightarrow> (\<And>x. keeps I (f x)) \<Longrightarrow> keeps I (case v of None \<Rightarrow> m | Some x \<Rightarrow> f x)"
  by (cases v) simp_all

lemma keeps_sum [triple_rules]:
  "(\<And>x. keeps I (f x)) \<Longrightarrow> (\<And>x. keeps I (g x)) \<Longrightarrow> keeps I (case v of Inl x \<Rightarrow> f x | Inr x \<Rightarrow> g x)"
  by (cases v) simp_all

lemma keeps_prod [triple_rules]: "(\<And>x y. keeps I (f x y)) \<Longrightarrow> keeps I (case p of (x, y) \<Rightarrow> f x y)"
  by (cases p) simp

end
