(* ===== verification/Failures.thy ===== *)
theory Failures
  imports Json
begin

text \<open>
  The failures that cross component borders: the records of \<open>src/drc_agent/reliability/errors.py\<close> and
  \<open>failure_metadata\<close> of \<open>run_validity.py\<close>. \<open>exn\<close> is a raised exception as the handlers of the
  program tell them apart: the classes they name, and for any other class the builtin class below
  which it stands (\<open>exn_kind\<close>). The classes \<open>JobPreparationError\<close> and \<open>ExecutionCancelled\<close> come
  from a compiled module, so an exception of theirs carries its builtin class with it.
\<close>

subsection \<open>Domains and codes\<close>

datatype failure_domain =
    DomainInfrastructure
  | DomainIntegrity
  | DomainInfrastructureTransient
  | DomainSemanticBinding
  | DomainPhysicalVerdict
  | DomainUnsupportedCapability
  | DomainDeferredResource

fun failure_domain_value :: "failure_domain \<Rightarrow> string" where
  "failure_domain_value DomainInfrastructure = ''INFRASTRUCTURE''"
| "failure_domain_value DomainIntegrity = ''INTEGRITY''"
| "failure_domain_value DomainInfrastructureTransient = ''INFRASTRUCTURE_TRANSIENT''"
| "failure_domain_value DomainSemanticBinding = ''SEMANTIC_BINDING''"
| "failure_domain_value DomainPhysicalVerdict = ''PHYSICAL_VERDICT''"
| "failure_domain_value DomainUnsupportedCapability = ''UNSUPPORTED_CAPABILITY''"
| "failure_domain_value DomainDeferredResource = ''DEFERRED_RESOURCE''"

datatype failure_code =
    CodeConfiguration
  | CodeAuthentication
  | CodeRateLimit
  | CodeProviderServerError
  | CodeNetworkError
  | CodeRequestTimeout
  | CodeQueueTimeout
  | CodeProviderProtocolError
  | CodeCircuitOpen
  | CodeWorkspaceOwnership
  | CodeEvidenceOwnership
  | CodeArtifactPublication
  | CodeEdaUnavailable
  | CodeEdaCancelTimeout
  | CodeBudgetExhausted
  | CodeResourceQueueTimeout
  | CodeStoragePressure
  | CodeStorageExhausted
  | CodeOutputMissing

definition failure_codes :: "(failure_code \<times> string) list" where
  "failure_codes =
     [(CodeConfiguration, ''CONFIGURATION''), (CodeAuthentication, ''AUTHENTICATION''),
      (CodeRateLimit, ''RATE_LIMIT''), (CodeProviderServerError, ''PROVIDER_SERVER_ERROR''),
      (CodeNetworkError, ''NETWORK_ERROR''), (CodeRequestTimeout, ''REQUEST_TIMEOUT''),
      (CodeQueueTimeout, ''QUEUE_TIMEOUT''), (CodeProviderProtocolError, ''PROVIDER_PROTOCOL_ERROR''),
      (CodeCircuitOpen, ''CIRCUIT_OPEN''), (CodeWorkspaceOwnership, ''WORKSPACE_OWNERSHIP''),
      (CodeEvidenceOwnership, ''EVIDENCE_OWNERSHIP''), (CodeArtifactPublication, ''ARTIFACT_PUBLICATION''),
      (CodeEdaUnavailable, ''EDA_UNAVAILABLE''), (CodeEdaCancelTimeout, ''EDA_CANCEL_TIMEOUT''),
      (CodeBudgetExhausted, ''BUDGET_EXHAUSTED''), (CodeResourceQueueTimeout, ''RESOURCE_QUEUE_TIMEOUT''),
      (CodeStoragePressure, ''STORAGE_PRESSURE''), (CodeStorageExhausted, ''STORAGE_EXHAUSTED''),
      (CodeOutputMissing, ''OUTPUT_MISSING'')]"

definition failure_code_value :: "failure_code \<Rightarrow> string" where
  "failure_code_value c = (case map_of failure_codes c of Some v \<Rightarrow> v | None \<Rightarrow> '''')"

text \<open>\<open>FailureCode(v)\<close>.\<close>

definition failure_code_of :: "string \<Rightarrow> failure_code result" where
  "failure_code_of v =
     (case map_of (map prod.swap failure_codes) v of
        Some c \<Rightarrow> Inr c
      | None \<Rightarrow> Inl (ValueError (v @ '' is not a valid FailureCode'')))"

lemma failure_code_of_value [simp]: "failure_code_of (failure_code_value c) = Inr c"
  by (cases c) (simp_all add: failure_code_of_def failure_code_value_def failure_codes_def)

subsection \<open>InfrastructureFailure, InfrastructurePause\<close>

text \<open>\<open>inf_pause\<close> holds the two attributes that \<open>InfrastructurePause\<close> adds.\<close>

record infra_failure =
  inf_message :: "string"
  inf_error_code :: "string"
  inf_failure_code :: "failure_code"
  inf_retryable :: "bool"
  inf_provider :: "string"
  inf_model :: "string"
  inf_http_status_code :: "int option"
  inf_retry_after_seconds :: "real option"
  inf_original_exception_type :: "string option"
  inf_failure_stage :: "string"
  inf_pause :: "(string \<times> (string \<times> json) list) option"

definition transient_types :: "string list" where
  "transient_types = [''ConnectError'', ''ReadTimeout'', ''ConnectTimeout'', ''TimeoutError'',
     ''TimeoutException'', ''LLMQueueTimeout'']"

definition compatibility_code :: "int option \<Rightarrow> string option \<Rightarrow> failure_code \<Rightarrow> string" where
  "compatibility_code http original code =
     (case http of
        Some n \<Rightarrow> ''HTTP_'' @ show_int n
      | None \<Rightarrow>
          (case original of
             Some t \<Rightarrow> if t \<in> set transient_types then t else failure_code_value code
           | None \<Rightarrow> failure_code_value code))"

definition infrastructure_failure ::
    "string \<Rightarrow> failure_code \<Rightarrow> bool \<Rightarrow> string \<Rightarrow> string \<Rightarrow> int option \<Rightarrow> real option \<Rightarrow> string option \<Rightarrow> string \<Rightarrow>
     infra_failure" where
  "infrastructure_failure message code retryable provider model http retry_after original stage =
     \<lparr>inf_message = message, inf_error_code = compatibility_code http original code,
      inf_failure_code = code, inf_retryable = retryable, inf_provider = provider, inf_model = model,
      inf_http_status_code = http, inf_retry_after_seconds = retry_after,
      inf_original_exception_type = original, inf_failure_stage = stage, inf_pause = None\<rparr>"

text \<open>The same with the code as a string, which is converted first.\<close>

definition coded_failure ::
    "string \<Rightarrow> string \<Rightarrow> bool \<Rightarrow> string \<Rightarrow> string \<Rightarrow> int option \<Rightarrow> real option \<Rightarrow> string option \<Rightarrow> string \<Rightarrow>
     infra_failure result" where
  "coded_failure message code retryable provider model http retry_after original stage =
     bind_result (failure_code_of code)
       (\<lambda>c. Inr (infrastructure_failure message c retryable provider model http retry_after original stage))"

definition infrastructure_pause :: "string \<Rightarrow> (string \<times> json) list \<Rightarrow> infra_failure \<Rightarrow> infra_failure" where
  "infrastructure_pause scope health f = f\<lparr>inf_pause := Some (scope, health)\<rparr>"

definition with_stage :: "string \<Rightarrow> infra_failure \<Rightarrow> infra_failure" where
  "with_stage stage f = f\<lparr>inf_failure_stage := stage\<rparr>"

definition json_opt :: "('a \<Rightarrow> json) \<Rightarrow> 'a option \<Rightarrow> json" where
  "json_opt f v = (case v of None \<Rightarrow> JNull | Some x \<Rightarrow> f x)"

definition infra_metadata :: "infra_failure \<Rightarrow> (string \<times> json) list" where
  "infra_metadata f =
     [(''failure_domain'', JStr (failure_domain_value DomainInfrastructure)),
      (''failure_code'', JStr (failure_code_value (inf_failure_code f))),
      (''failure_stage'', JStr (inf_failure_stage f)),
      (''retryable'', JBool (inf_retryable f)),
      (''http_status_code'', json_opt JInt (inf_http_status_code f)),
      (''retry_after_seconds'', json_opt JReal (inf_retry_after_seconds f)),
      (''provider'', JStr (inf_provider f)),
      (''model'', JStr (inf_model f)),
      (''original_exception_type'', json_opt JStr (inf_original_exception_type f))] @
     (case inf_pause f of
        None \<Rightarrow> []
      | Some (scope, health) \<Rightarrow>
          [(''typed_stop'', JStr ''INFRASTRUCTURE_PAUSE''), (''pause_scope'', JStr scope),
           (''health_snapshot'', JObj health)])"

subsection \<open>IntegrityFailure\<close>

record integrity_failure =
  igf_message :: "string"
  igf_failure_code :: "string"
  igf_failure_stage :: "string"
  igf_details :: "(string \<times> json) list"

definition integrity_with_stage :: "string \<Rightarrow> integrity_failure \<Rightarrow> integrity_failure" where
  "integrity_with_stage stage f = f\<lparr>igf_failure_stage := stage\<rparr>"

definition integrity_metadata :: "integrity_failure \<Rightarrow> (string \<times> json) list" where
  "integrity_metadata f =
     [(''failure_domain'', JStr (failure_domain_value DomainIntegrity)),
      (''failure_code'', JStr (igf_failure_code f)),
      (''failure_stage'', JStr (igf_failure_stage f)),
      (''retryable'', JBool False),
      (''details'', JObj (igf_details f))]"

subsection \<open>Raised exceptions\<close>

datatype exn_kind = KindOs | KindValue | KindRuntime | KindException | KindBase

record preparation_error =
  pe_message :: "string"
  pe_failure_code :: "string"
  pe_retryable :: "bool"
  pe_attempt_id :: "string"
  pe_workspace :: "string"
  pe_cause :: "string option"
  pe_kind :: "exn_kind"

datatype exn =
    ExnInfrastructure infra_failure
  | ExnIntegrity integrity_failure
  | ExnPreparation preparation_error
  | ExnCancelled exn_kind string
  | ExnInterrupt
  | ExnOther exn_kind string string

fun kind_of :: "exn \<Rightarrow> exn_kind" where
  "kind_of (ExnInfrastructure _) = KindRuntime"
| "kind_of (ExnIntegrity _) = KindRuntime"
| "kind_of (ExnPreparation p) = pe_kind p"
| "kind_of (ExnCancelled k _) = k"
| "kind_of ExnInterrupt = KindBase"
| "kind_of (ExnOther k _ _) = k"

text \<open>\<open>type(exc).__name__\<close> and \<open>str(exc)\<close>.\<close>

fun exn_class :: "exn \<Rightarrow> string" where
  "exn_class (ExnInfrastructure f) =
     (if inf_pause f = None then ''InfrastructureFailure'' else ''InfrastructurePause'')"
| "exn_class (ExnIntegrity _) = ''IntegrityFailure''"
| "exn_class (ExnPreparation _) = ''JobPreparationError''"
| "exn_class (ExnCancelled _ _) = ''ExecutionCancelled''"
| "exn_class ExnInterrupt = ''KeyboardInterrupt''"
| "exn_class (ExnOther _ c _) = c"

fun exn_message :: "exn \<Rightarrow> string" where
  "exn_message (ExnInfrastructure f) = inf_message f"
| "exn_message (ExnIntegrity f) = igf_message f"
| "exn_message (ExnPreparation p) = pe_message p"
| "exn_message (ExnCancelled _ m) = m"
| "exn_message ExnInterrupt = ''''"
| "exn_message (ExnOther _ _ m) = m"

text \<open>\<open>except Exception\<close>, \<open>except OSError\<close>, \<open>except ValueError\<close>, \<open>except RuntimeError\<close>.\<close>

definition is_exception :: "exn \<Rightarrow> bool" where
  "is_exception e \<longleftrightarrow> kind_of e \<noteq> KindBase"

definition is_os_error :: "exn \<Rightarrow> bool" where
  "is_os_error e \<longleftrightarrow> kind_of e = KindOs"

definition is_value_error :: "exn \<Rightarrow> bool" where
  "is_value_error e \<longleftrightarrow> kind_of e = KindValue"

definition is_runtime_error :: "exn \<Rightarrow> bool" where
  "is_runtime_error e \<longleftrightarrow> kind_of e = KindRuntime"

text \<open>\<open>failure_metadata\<close> of \<open>run_validity.py\<close>.\<close>

definition failure_metadata :: "exn \<Rightarrow> (string \<times> json) list" where
  "failure_metadata e =
     (case e of
        ExnInfrastructure f \<Rightarrow> infra_metadata f
      | ExnIntegrity f \<Rightarrow> integrity_metadata f
      | _ \<Rightarrow>
          [(''failure_domain'', JStr ''WORKFLOW''), (''failure_code'', JStr (exn_class e)),
           (''failure_stage'', JStr ''WORKFLOW''), (''retryable'', JBool False)])"

text \<open>The errors of the modelled functions as exceptions.\<close>

fun exn_of :: "py_error \<Rightarrow> exn" where
  "exn_of (ValueError m) = ExnOther KindValue ''ValueError'' m"
| "exn_of (KeyError m) = ExnOther KindException ''KeyError'' m"
| "exn_of IndexError = ExnOther KindException ''IndexError'' ''''"
| "exn_of ZeroDivisionError = ExnOther KindException ''ZeroDivisionError'' ''''"
| "exn_of (AssertionError m) = ExnOther KindException ''AssertionError'' m"
| "exn_of (RuntimeError m) = ExnOther KindRuntime ''RuntimeError'' m"
| "exn_of (TypeError m) = ExnOther KindException ''TypeError'' m"
| "exn_of (AttributeError m) = ExnOther KindException ''AttributeError'' m"
| "exn_of (InfrastructureFailure m) = ExnOther KindRuntime ''InfrastructureFailure'' m"

definition exn_result :: "'a result \<Rightarrow> exn + 'a" where
  "exn_result r = (case r of Inl e \<Rightarrow> Inl (exn_of e) | Inr x \<Rightarrow> Inr x)"

lemma exn_result_simps [simp]: "exn_result (Inr x) = Inr x" "exn_result (Inl e) = Inl (exn_of e)"
  by (simp_all add: exn_result_def)

text \<open>
  Whatever is raised, its metadata states the four keys that the checkpoint of a failed run reads,
  and only an infrastructure failure can be retryable.
\<close>

lemma failure_metadata_keys:
  "set [''failure_domain'', ''failure_code'', ''failure_stage'', ''retryable''] \<subseteq> fst ` set (failure_metadata e)"
  by (cases e) (auto simp: failure_metadata_def infra_metadata_def integrity_metadata_def)

lemma failure_metadata_retryable:
  "map_of (failure_metadata e) ''retryable'' = Some (JBool b) \<Longrightarrow>
     b = (case e of ExnInfrastructure f \<Rightarrow> inf_retryable f | _ \<Rightarrow> False)"
  by (cases e) (simp_all add: failure_metadata_def infra_metadata_def integrity_metadata_def split: option.splits)

end
