(* ===== verification/Tool_Schemas.thy ===== *)
theory Tool_Schemas
  imports Workflow_Schemas
begin

text \<open>
  The records of a physical attempt: what is asked of the EDA backend and what it answers
  (\<open>src/drc_agent/schemas/tools.py\<close>), the transaction record (\<open>schemas/action.py\<close>), the official score
  (\<open>backends/dac26.py\<close>) and the result of an execution (\<open>backends/transaction.py\<close>). Paths and times
  are strings; the dumped tool results of a transaction are kept as the records.
\<close>

datatype execution_purpose =
    PurposeUnknown
  | PurposeBaseline
  | PurposeRoot
  | PurposeDebt
  | PurposeCondensation
  | PurposeCandidate
  | PurposeJoint
  | PurposeMaster

datatype attempt_lifecycle =
    LifePreparing
  | LifeReady
  | LifeRunning
  | LifeLayoutGenerated
  | LifeDrcVerified
  | LifePublishing
  | LifePublished
  | LifePrepareFailed
  | LifeTerminal
  | LifeRetained
  | LifeCleaned
  | LifeCancelRequested
  | LifeCancelled

record trace_context =
  ec_protocol_version :: "string"
  ec_formal_run_id :: "string"
  ec_execution_epoch :: "string"
  ec_formal_iteration :: "int"
  ec_window_id :: "string option"
  ec_window_index :: "int option"
  ec_subgraph_id :: "string option"
  ec_region_id :: "string option"
  ec_plan_id :: "string option"
  ec_plan_revision :: "int"
  ec_target_violation_id :: "string option"
  ec_root_proposal_id :: "string option"
  ec_proposal_id :: "string option"
  ec_parent_snapshot_id :: "string option"
  ec_depth :: "int"
  ec_purpose :: "execution_purpose"
  ec_invocation_id :: "string option"

datatype tool_status =
    ToolSuccess
  | ToolFailed
  | ToolTimeout
  | ToolUnsupported
  | ToolInvalidInput
  | ToolMissingArtifact
  | ToolCancelled

record tool_result =
  tl_tool_name :: "string"
  tl_action :: "string"
  tl_status :: "tool_status"
  tl_return_code :: "int option"
  tl_started_at :: "string"
  tl_ended_at :: "string"
  tl_runtime_seconds :: "real"
  tl_stdout_ref :: "artifact_ref option"
  tl_stderr_ref :: "artifact_ref option"
  tl_artifacts :: "artifact_ref list"
  tl_metrics :: "(string \<times> json) list"
  tl_command_fingerprint :: "string"
  tl_error_code :: "string option"
  tl_error_message :: "string option"
  tl_attempt_id :: "string option"
  tl_owner_token_hash :: "string option"
  tl_container_name :: "string option"

record prepare_request =
  pq_run_id :: "string"
  pq_case_id :: "string"
  pq_iteration :: "int"
  pq_baseline_script :: "artifact_ref"
  pq_baseline_gds :: "artifact_ref"
  pq_baseline_drc :: "artifact_ref"
  pq_rule_deck :: "artifact_ref"
  pq_connectivity :: "artifact_ref option"
  pq_trace_context :: "trace_context option"
  pq_logical_evidence_key :: "string option"
  pq_retry_of_attempt_id :: "string option"
  pq_evaluator_hash :: "string option"
  pq_verification_policy_hash :: "string option"
  pq_canonical_patch_effect_sha256 :: "string option"
  pq_execution_protocol_version :: "string"
  pq_requested_attempt_id :: "string option"

record prepared_job =
  pj_job_id :: "string"
  pj_host_path :: "string"
  pj_container_path :: "string"
  pj_case_id :: "string"
  pj_iteration :: "int"
  pj_manifest_ref :: "artifact_ref"
  pj_run_id :: "string option"
  pj_attempt_id :: "string option"
  pj_owner_token :: "string option"
  pj_owner_token_hash :: "string option"
  pj_logical_evidence_key :: "string option"
  pj_execution_epoch :: "string"
  pj_purpose :: "execution_purpose"
  pj_lifecycle_state :: "attempt_lifecycle"
  pj_trace_context :: "trace_context option"

record transaction =
  tn_transaction_id :: "string"
  tn_run_id :: "string"
  tn_case_id :: "string"
  tn_iteration :: "int"
  tn_base_snapshot_id :: "string"
  tn_bundle_ids :: "string list"
  tn_patch_plan_ref :: "artifact_ref"
  tn_job_dir :: "string"
  tn_status :: "transaction_status"
  tn_started_at :: "string"
  tn_finished_at :: "string option"
  tn_tool_results :: "tool_result list"
  tn_verification_result_ref :: "artifact_ref option"
  tn_decision_reasons :: "string list"
  tn_rollback_reason :: "string option"
  tn_execution_protocol_version :: "string"
  tn_attempt_id :: "string option"
  tn_logical_evidence_key :: "string option"
  tn_execution_epoch :: "string option"
  tn_purpose :: "string option"
  tn_terminal_status :: "attempt_terminal_status option"

record repair_score =
  osc_repair_rate :: "real"
  osc_new_violation_rate :: "real"
  osc_original_violations :: "int"
  osc_final_violations :: "int"
  osc_removed_violations :: "int"
  osc_new_violations :: "int"
  osc_original_rules_violated :: "int"
  osc_final_rules_violated :: "int"
  osc_evaluator_hash :: "string"

record execution_result =
  xr_transaction :: "transaction"
  xr_verification :: "verification_result"
  xr_accepted :: "bool"
  xr_decision_reasons :: "string list"
  xr_attempted_snapshot :: "design_snapshot"
  xr_committed_snapshot :: "design_snapshot"
  xr_attempted_total_drv :: "int option"
  xr_committed_total_drv :: "int"
  xr_tool_runtime_seconds :: "real"
  xr_rollback_reason :: "string option"
  xr_attempt_id :: "string option"
  xr_logical_evidence_key :: "string option"

fun purpose_value :: "execution_purpose \<Rightarrow> string" where
  "purpose_value PurposeUnknown = ''UNKNOWN''"
| "purpose_value PurposeBaseline = ''BASELINE''"
| "purpose_value PurposeRoot = ''ROOT''"
| "purpose_value PurposeDebt = ''DEBT''"
| "purpose_value PurposeCondensation = ''CONDENSATION''"
| "purpose_value PurposeCandidate = ''CANDIDATE''"
| "purpose_value PurposeJoint = ''JOINT''"
| "purpose_value PurposeMaster = ''MASTER''"

fun terminal_status_value :: "attempt_terminal_status \<Rightarrow> string" where
  "terminal_status_value TerminalEvaluated = ''EVALUATED''"
| "terminal_status_value TerminalExecutionFailure = ''EXECUTION_FAILURE''"
| "terminal_status_value TerminalCancelled = ''CANCELLED''"

fun validity_value :: "evidence_validity \<Rightarrow> string" where
  "validity_value EvidenceNotEvaluated = ''NOT_EVALUATED''"
| "validity_value EvidenceValid = ''VALID''"
| "validity_value EvidenceError = ''ERROR''"

fun outcome_value :: "verification_outcome \<Rightarrow> string" where
  "outcome_value OutcomeWorkspacePreparationFailure = ''WORKSPACE_PREPARATION_FAILURE''"
| "outcome_value OutcomePatchApplicationFailure = ''PATCH_APPLICATION_FAILURE''"
| "outcome_value OutcomeSyntaxFailure = ''SYNTAX_FAILURE''"
| "outcome_value OutcomeLayoutGenerationFailure = ''LAYOUT_GENERATION_FAILURE''"
| "outcome_value OutcomeDrcExecutionFailure = ''DRC_EXECUTION_FAILURE''"
| "outcome_value OutcomeEvidencePublicationFailure = ''EVIDENCE_PUBLICATION_FAILURE''"
| "outcome_value OutcomeCancelled = ''CANCELLED''"
| "outcome_value OutcomeGdsSanityFailure = ''GDS_SANITY_FAILURE''"
| "outcome_value OutcomeDrcNoProgress = ''DRC_NO_PROGRESS''"
| "outcome_value OutcomeNewDrcIntroduced = ''NEW_DRC_INTRODUCED''"
| "outcome_value OutcomeConnectivityFailure = ''CONNECTIVITY_FAILURE''"
| "outcome_value OutcomeTimingFailure = ''TIMING_FAILURE''"
| "outcome_value OutcomeSuccess = ''SUCCESS''"

end
