(* ===== verification/Metrics.thy ===== *)
theory Metrics
  imports Json_Values Workflow_Schemas
begin

text \<open>
  What is counted (\<open>src/drc_agent/observability/metrics.py\<close>): the statistics of a DRC report, the
  coverage of the source map, the evidence levels of the graph, the metrics file of the iterations
  and the token usage of an iteration. A \<open>Counter\<close> is an association list with distinct keys; the
  text of a non-string value is the parameter \<open>str\<close>.
\<close>

subsection \<open>Records\<close>

record drc_stats =
  dst_total_drv :: "int"
  dst_rules_violated :: "int"
  dst_drc_by_rule :: "(string \<times> int) list"
  dst_drc_by_marker_type :: "(string \<times> int) list"
  dst_drc_by_rule_and_type :: "(string \<times> ((string \<times> int) list)) list"

record mapping_coverage =
  mcv_object_count :: "int"
  mcv_source_anchor_known :: "int"
  mcv_source_anchor_unknown :: "int"
  mcv_source_span_known :: "int"
  mcv_geometry_known :: "int"
  mcv_net_known :: "int"
  mcv_net_unknown :: "int"
  mcv_resource_mapping_source :: "string"
  mcv_layer_histogram :: "(string \<times> int) list"
  mcv_editability_histogram :: "(string \<times> int) list"

record observability_counts =
  gob_object_count :: "int"
  gob_region_count :: "int"
  gob_named_net_object_count :: "int"
  gob_connectivity_component_object_count :: "int"
  gob_unavailable_net_object_count :: "int"
  gob_net_evidence_level :: "string"
  gob_exact_resource_region_count :: "int"
  gob_proxy_resource_region_count :: "int"
  gob_unavailable_resource_region_count :: "int"
  gob_resource_evidence_level :: "string"
  gob_resource_capacity_known :: "bool"
  gob_fabricated_named_net_count :: "int"

datatype iteration_transaction_status =
    IterationBaseline
  | IterationCommit
  | IterationRollback
  | IterationNoOp
  | IterationNoProgress
  | IterationFailed

record iteration_metrics =
  im_iteration :: "int"
  im_metrics_semantics_version :: "string"
  im_transaction_status :: "iteration_transaction_status"
  im_committed_total_drv :: "int"
  im_attempted_total_drv :: "int"
  im_removed_original_drv :: "int"
  im_new_drv :: "int option"
  im_connectivity_preserved :: "bool option"
  im_drc_by_rule :: "(string \<times> int) list"
  im_drc_by_marker_type :: "(string \<times> int) list"
  im_drc_by_rule_and_type :: "(string \<times> ((string \<times> int) list)) list"
  im_attempted_drc_by_rule :: "((string \<times> int) list) option"
  im_attempted_drc_by_marker_type :: "((string \<times> int) list) option"
  im_attempted_drc_by_rule_and_type :: "((string \<times> ((string \<times> int) list)) list) option"
  im_region_count :: "int"
  im_window_count :: "int"
  im_active_subgraph_count :: "int"
  im_candidate_count :: "int"
  im_non_noop_candidate_count :: "int"
  im_selected_non_noop_count :: "int"
  im_rollback_reason :: "string option"
  im_llm_calls :: "int"
  im_input_tokens :: "int"
  im_output_tokens :: "int"
  im_cache_read_tokens :: "int"
  im_reasoning_tokens :: "int"
  im_tool_runtime_seconds :: "real"
  im_raw_agent_edge_count :: "int"
  im_pruned_agent_edge_count :: "int"
  im_hard_component_count :: "int"
  im_largest_hard_component_size :: "int"
  im_planning_view_count :: "int"
  im_boundary_dependency_count :: "int"
  im_candidate_graph_edge_count :: "int"
  im_candidate_graph_completeness_milli :: "int"
  im_unresolved_candidate_pair_count :: "int"
  im_sandbox_trial_count :: "int"
  im_sandbox_clean_progress_count :: "int"
  im_sandbox_cache_hit_count :: "int"
  im_selected_sandbox_verified_count :: "int"
  im_selected_proven_count :: "int"
  im_selected_heuristic_count :: "int"
  im_transaction_batch_count :: "int"
  im_deferred_batch_count :: "int"
  im_attribution_quality :: "string option"
  im_artifact_paths :: "(string \<times> string) list"

subsection \<open>Counters\<close>

definition counter_get :: "(string \<times> int) list \<Rightarrow> string \<Rightarrow> int" where
  "counter_get c k = (case map_of c k of None \<Rightarrow> 0 | Some n \<Rightarrow> n)"

definition counter_add :: "string \<Rightarrow> int \<Rightarrow> (string \<times> int) list \<Rightarrow> (string \<times> int) list" where
  "counter_add k n c = dict_set k (counter_get c k + n) c"

definition counter_of :: "string list \<Rightarrow> (string \<times> int) list" where
  "counter_of ks = fold (\<lambda>k. counter_add k 1) ks []"

definition counter_total :: "(string \<times> int) list \<Rightarrow> int" where
  "counter_total c = sum_list (map snd c)"

text \<open>\<open>dict(sorted(counter.items()))\<close>.\<close>

definition sorted_items :: "(string \<times> 'a) list \<Rightarrow> (string \<times> 'a) list" where
  "sorted_items d = sort_key fst d"

subsection \<open>drc_statistics\<close>

text \<open>\<open>value or {}\<close> and its \<open>items()\<close>; \<open>len(value)\<close>.\<close>

definition dict_items :: "json \<Rightarrow> (string \<times> json) list result" where
  "dict_items v =
     (if \<not> json_truthy v then Inr []
      else case v of JObj d \<Rightarrow> Inr d | _ \<Rightarrow> Inl (AttributeError ''items''))"

definition list_values :: "json \<Rightarrow> json list result" where
  "list_values v =
     (if \<not> json_truthy v then Inr []
      else case json_iter v of None \<Rightarrow> Inl (TypeError ''has no len()'') | Some xs \<Rightarrow> Inr xs)"

definition violation_type :: "(json \<Rightarrow> string) \<Rightarrow> json \<Rightarrow> string result" where
  "violation_type str violation =
     bind_result (get_of_value violation ''type'') (\<lambda>t.
       Inr (if json_truthy t then (case t of JStr s \<Rightarrow> s | _ \<Rightarrow> str t) else ''unknown''))"

text \<open>\<open>declared is not None and int(declared) != n\<close>.\<close>

definition check_declared :: "json \<Rightarrow> nat \<Rightarrow> string \<Rightarrow> unit result" where
  "check_declared declared n message =
     (if declared = JNull then Inr ()
      else bind_result (int_value declared) (\<lambda>k.
        if k \<noteq> int n then Inl (ValueError message) else Inr ()))"

record drc_tally =
  dty_by_rule :: "(string \<times> int) list"
  dty_by_type :: "(string \<times> int) list"
  dty_by_rule_type :: "(string \<times> (string \<times> int) list) list"

definition tally_rule :: "(json \<Rightarrow> string) \<Rightarrow> string \<times> json \<Rightarrow> drc_tally \<Rightarrow> drc_tally result" where
  "tally_rule str rule t =
     bind_result (get_of_value (snd rule) ''violations'') (\<lambda>raw.
     bind_result (get_of_value (snd rule) ''violation_count'') (\<lambda>declared.
     bind_result (list_values raw) (\<lambda>values.
     bind_result (check_declared declared (length values) (''rule count mismatch for '' @ fst rule)) (\<lambda>_.
     bind_result (map_result (violation_type str) values) (\<lambda>types.
     Inr \<lparr>dty_by_rule = counter_add (fst rule) (int (length values)) (dty_by_rule t),
          dty_by_type = fold (\<lambda>k. counter_add k 1) types (dty_by_type t),
          dty_by_rule_type =
            (let own = (case map_of (dty_by_rule_type t) (fst rule) of None \<Rightarrow> [] | Some c \<Rightarrow> c) in
             dict_set (fst rule) (fold (\<lambda>k. counter_add k 1) types own) (dty_by_rule_type t))\<rparr>)))))"

fun tally_rules :: "(json \<Rightarrow> string) \<Rightarrow> (string \<times> json) list \<Rightarrow> drc_tally \<Rightarrow> drc_tally result" where
  "tally_rules str [] t = Inr t"
| "tally_rules str (r # rs) t = bind_result (tally_rule str r t) (tally_rules str rs)"

definition drc_statistics :: "(json \<Rightarrow> string) \<Rightarrow> json \<Rightarrow> drc_stats result" where
  "drc_statistics str data =
     bind_result (get_of_value data ''rules'') (\<lambda>raw.
     bind_result (dict_items raw) (\<lambda>rules.
     bind_result (tally_rules str (sorted_items rules)
         \<lparr>dty_by_rule = [], dty_by_type = [], dty_by_rule_type = []\<rparr>) (\<lambda>t.
     let total = counter_total (dty_by_rule t) in
     bind_result (get_of_value data ''total_violations'') (\<lambda>declared.
     bind_result (check_declared declared (nat total) ''report total mismatch'') (\<lambda>_.
     Inr \<lparr>dst_total_drv = total,
          dst_rules_violated = int (length (filter (\<lambda>n. n > 0) (map snd (dty_by_rule t)))),
          dst_drc_by_rule = sorted_items (dty_by_rule t),
          dst_drc_by_marker_type = sorted_items (dty_by_type t),
          dst_drc_by_rule_and_type =
            map (\<lambda>(rule, counts). (rule, sorted_items counts)) (sorted_items (dty_by_rule_type t))\<rparr>)))))"

subsection \<open>mapping_coverage, graph_observability_report\<close>

fun editability_text :: "editability_class \<Rightarrow> string" where
  "editability_text EditabilityA = ''A''"
| "editability_text EditabilityB = ''B''"
| "editability_text EditabilityC = ''C''"
| "editability_text EditabilityD = ''D''"

definition count_where :: "('a \<Rightarrow> bool) \<Rightarrow> 'a list \<Rightarrow> int" where
  "count_where P xs = int (length (filter P xs))"

definition mapping_coverage_of :: "layout_object list \<Rightarrow> mapping_coverage" where
  "mapping_coverage_of objects =
     (let anchor_known = count_where (\<lambda>x. opt_truthy (lo_source_anchor_id x)) objects;
          net_known = count_where (\<lambda>x. opt_truthy (lo_net_id x)) objects in
      \<lparr>mcv_object_count = int (length objects),
       mcv_source_anchor_known = anchor_known,
       mcv_source_anchor_unknown = int (length objects) - anchor_known,
       mcv_source_span_known = count_where (\<lambda>x. lo_source_span x \<noteq> None) objects,
       mcv_geometry_known =
         count_where (\<lambda>x. case lo_geometry_dbu x of None \<Rightarrow> False | Some g \<Rightarrow> g \<noteq> []) objects,
       mcv_net_known = net_known,
       mcv_net_unknown = int (length objects) - net_known,
       mcv_resource_mapping_source = ''unavailable'',
       mcv_layer_histogram = sorted_items (counter_of (map lo_layer objects)),
       mcv_editability_histogram =
         sorted_items (counter_of (map (\<lambda>x. editability_text (lo_editability x)) objects))\<rparr>)"

text \<open>The level that two counts of evidence of different strength give.\<close>

definition evidence_level :: "string \<Rightarrow> string \<Rightarrow> int \<Rightarrow> int \<Rightarrow> string" where
  "evidence_level strong weak n m =
     (if n \<noteq> 0 \<and> m \<noteq> 0 then ''mixed'' else if n \<noteq> 0 then strong else if m \<noteq> 0 then weak
      else ''unavailable'')"

definition graph_observability_report :: "layout_object list \<Rightarrow> region_state list \<Rightarrow> observability_counts" where
  "graph_observability_report objects regions =
     (let named = count_where (\<lambda>x. lo_net_id x \<noteq> None \<and> lo_net_mapping_quality x = NetExact) objects;
          components = count_where (\<lambda>x. lo_connectivity_component_id x \<noteq> None \<and>
            lo_net_mapping_quality x = NetConnectivityComponent) objects;
          exact_resource = count_where (\<lambda>r. rx_source (rg_resource_context r) = SourceTrueRoutingGrid) regions;
          proxy_resource = count_where (\<lambda>r. rx_source (rg_resource_context r) = SourceGeometryProxy) regions in
      \<lparr>gob_object_count = int (length objects), gob_region_count = int (length regions),
       gob_named_net_object_count = named,
       gob_connectivity_component_object_count = components,
       gob_unavailable_net_object_count = int (length objects) - named - components,
       gob_net_evidence_level = evidence_level ''named_exact'' ''connectivity_component'' named components,
       gob_exact_resource_region_count = exact_resource,
       gob_proxy_resource_region_count = proxy_resource,
       gob_unavailable_resource_region_count = int (length regions) - exact_resource - proxy_resource,
       gob_resource_evidence_level = evidence_level ''exact'' ''proxy'' exact_resource proxy_resource,
       gob_resource_capacity_known = (exact_resource \<noteq> 0),
       gob_fabricated_named_net_count = 0\<rparr>)"

subsection \<open>The metrics file, token usage\<close>

text \<open>
  \<open>IterationMetricsStore.read\<close>: of the rows of one iteration the last one counts.
\<close>

definition read_metrics :: "iteration_metrics list \<Rightarrow> iteration_metrics list" where
  "read_metrics rows =
     (let by_iteration = dict_of (map (\<lambda>row. (im_iteration row, row)) rows) in
      map snd (sort_key fst by_iteration))"

record llm_usage =
  lu_llm_calls :: "int"
  lu_input_tokens :: "int"
  lu_output_tokens :: "int"
  lu_cache_read_tokens :: "int"
  lu_reasoning_tokens :: "int"

definition no_usage :: llm_usage where
  "no_usage = \<lparr>lu_llm_calls = 0, lu_input_tokens = 0, lu_output_tokens = 0, lu_cache_read_tokens = 0,
     lu_reasoning_tokens = 0\<rparr>"

text \<open>\<open>v[k]\<close> on a value that should be a dictionary; \<open>int(usage.get(k) or 0)\<close>.\<close>

definition item_of_value :: "json \<Rightarrow> string \<Rightarrow> json result" where
  "item_of_value v k = (case v of JObj d \<Rightarrow> json_item d k | _ \<Rightarrow> Inl (TypeError ''indices''))"

definition token_count :: "json \<Rightarrow> string \<Rightarrow> int result" where
  "token_count usage k =
     bind_result (get_of_value usage k) (\<lambda>v. if json_truthy v then int_value v else Inr 0)"

definition add_usage :: "int \<Rightarrow> json \<Rightarrow> llm_usage \<Rightarrow> llm_usage result" where
  "add_usage iteration entry u =
     bind_result (item_of_value entry ''context'') (\<lambda>ctx.
     bind_result (item_of_value ctx ''iteration'') (\<lambda>raw.
     bind_result (int_value raw) (\<lambda>k.
     if k \<noteq> iteration then Inr u
     else
       bind_result (get_of_value entry ''usage'') (\<lambda>given.
       let usage = (if json_truthy given then given else JObj []) in
       bind_result (token_count usage ''input_tokens'') (\<lambda>i.
       bind_result (token_count usage ''output_tokens'') (\<lambda>out.
       bind_result (token_count usage ''cache_read_tokens'') (\<lambda>cached.
       bind_result (token_count usage ''reasoning_tokens'') (\<lambda>thought.
       Inr (u\<lparr>lu_llm_calls := lu_llm_calls u + 1, lu_input_tokens := lu_input_tokens u + i,
              lu_output_tokens := lu_output_tokens u + out,
              lu_cache_read_tokens := lu_cache_read_tokens u + cached,
              lu_reasoning_tokens := lu_reasoning_tokens u + thought\<rparr>)))))))))"

fun usage_of_lines :: "int \<Rightarrow> json list \<Rightarrow> llm_usage \<Rightarrow> llm_usage result" where
  "usage_of_lines iteration [] u = Inr u"
| "usage_of_lines iteration (e # es) u =
     bind_result (add_usage iteration e u) (usage_of_lines iteration es)"

text \<open>
  \<open>llm_usage_for_iteration\<close> on the records of the file, \<open>None\<close> when there is no file. A line that is
  not JSON ends the code at that line; here the records before it are given.
\<close>

definition llm_usage_for_iteration :: "json list option \<Rightarrow> int \<Rightarrow> llm_usage result" where
  "llm_usage_for_iteration lines iteration =
     (case lines of None \<Rightarrow> Inr no_usage | Some es \<Rightarrow> usage_of_lines iteration es no_usage)"

subsection \<open>The statistics of a report are consistent\<close>

lemma counter_total_dict_set:
  assumes "distinct (map fst c)"
  shows "counter_total (dict_set k v c) = counter_total c - counter_get c k + v"
  using assms
proof (induction c)
  case (Cons p c)
  then show ?case by (cases p) (auto simp: counter_total_def counter_get_def)
qed (simp add: counter_total_def counter_get_def)

lemma counter_add_facts [simp]:
  "distinct (map fst c) \<Longrightarrow> distinct (map fst (counter_add k n c))"
  "distinct (map fst c) \<Longrightarrow> counter_total (counter_add k n c) = counter_total c + n"
  by (simp_all add: counter_add_def distinct_dict_set counter_total_dict_set)

lemma fold_counter_facts:
  assumes "distinct (map fst c)"
  shows "distinct (map fst (fold (\<lambda>k. counter_add k 1) ks c)) \<and>
    counter_total (fold (\<lambda>k. counter_add k 1) ks c) = counter_total c + int (length ks)"
  using assms
proof (induction ks arbitrary: c)
  case (Cons k ks)
  then show ?case using Cons.IH [of "counter_add k 1 c"] by simp
qed simp

lemma map_result_length: "map_result f xs = Inr ys \<Longrightarrow> length ys = length xs"
  using map_result_list_all2 list_all2_lengthD by fastforce

lemma counter_total_sorted [simp]: "counter_total (sorted_items c) = counter_total c"
proof -
  have "mset (map snd (sorted_items c)) = mset (map snd c)" by (simp add: sorted_items_def)
  then show ?thesis unfolding counter_total_def by (metis sum_mset_sum_list)
qed

text \<open>The counters agree: by rule, by type and by both.\<close>

definition tally_ok :: "drc_tally \<Rightarrow> bool" where
  "tally_ok t \<longleftrightarrow>
     distinct (map fst (dty_by_rule t)) \<and> distinct (map fst (dty_by_type t)) \<and>
     (\<forall>n \<in> snd ` set (dty_by_rule t). 0 \<le> n) \<and>
     counter_total (dty_by_type t) = counter_total (dty_by_rule t) \<and>
     map (\<lambda>(rule, counts). (rule, counter_total counts)) (dty_by_rule_type t) = dty_by_rule t \<and>
     (\<forall>counts \<in> snd ` set (dty_by_rule_type t). distinct (map fst counts))"

lemma map_dict_set:
  "map (\<lambda>(k, v). (k, f v)) (dict_set k v d) = dict_set k (f v) (map (\<lambda>(k, v). (k, f v)) d)"
  by (induction d) auto

lemma values_dict_set: "snd ` set (dict_set k v d) \<subseteq> insert v (snd ` set d)"
proof (induction d)
  case (Cons p d)
  then show ?case by (cases p) auto
qed simp

lemma ball_dict_set: "P v \<Longrightarrow> \<forall>x \<in> snd ` set d. P x \<Longrightarrow> \<forall>x \<in> snd ` set (dict_set k v d). P x"
  using values_dict_set [of k v d] by blast

lemma map_of_value: "map_of d k = Some v \<Longrightarrow> v \<in> snd ` set d"
  by (metis image_eqI map_of_SomeD snd_conv)

lemma tally_rule_ok:
  assumes "tally_ok t" "tally_rule str rule t = Inr t'"
  shows "tally_ok t'"
proof -
  define own where "own = (case map_of (dty_by_rule_type t) (fst rule) of None \<Rightarrow> [] | Some c \<Rightarrow> c)"
  from assms(2) obtain vs types where types: "map_result (violation_type str) vs = Inr types"
    and t': "t' = \<lparr>dty_by_rule = counter_add (fst rule) (int (length vs)) (dty_by_rule t),
          dty_by_type = fold (\<lambda>k. counter_add k 1) types (dty_by_type t),
          dty_by_rule_type = dict_set (fst rule) (fold (\<lambda>k. counter_add k 1) types own) (dty_by_rule_type t)\<rparr>"
    unfolding tally_rule_def own_def by (auto simp: bind_result_Inr_iff Let_def)
  have len: "length types = length vs" using types by (rule map_result_length)
  have rules: "map (\<lambda>(rule, counts). (rule, counter_total counts)) (dty_by_rule_type t) = dty_by_rule t"
    using assms(1) by (simp add: tally_ok_def)
  have get: "map_of (dty_by_rule t) (fst rule) = map_option counter_total (map_of (dty_by_rule_type t) (fst rule))"
    unfolding rules [symmetric] by (simp add: map_of_map)
  have own: "distinct (map fst own) \<and> counter_total own = counter_get (dty_by_rule t) (fst rule)"
  proof (cases "map_of (dty_by_rule_type t) (fst rule)")
    case None
    then show ?thesis using get by (simp add: own_def counter_get_def counter_total_def)
  next
    case (Some c)
    then have "c \<in> snd ` set (dty_by_rule_type t)" by (rule map_of_value)
    then have "distinct (map fst c)" using assms(1) unfolding tally_ok_def by blast
    then show ?thesis using Some get by (simp add: own_def counter_get_def)
  qed
  have counted: "distinct (map fst (fold (\<lambda>k. counter_add k 1) types own))"
    "counter_total (fold (\<lambda>k. counter_add k 1) types own) =
       counter_get (dty_by_rule t) (fst rule) + int (length vs)"
    using fold_counter_facts [of own types] own len by simp_all
  have nonneg: "0 \<le> counter_get (dty_by_rule t) (fst rule)"
    using assms(1) map_of_value [of "dty_by_rule t" "fst rule"]
    by (auto simp: counter_get_def tally_ok_def split: option.split)
  show ?thesis
    unfolding tally_ok_def
  proof (intro conjI)
    show "map (\<lambda>(rule, counts). (rule, counter_total counts)) (dty_by_rule_type t') = dty_by_rule t'"
      by (simp add: t' map_dict_set rules counted counter_add_def)
    have "\<forall>n \<in> snd ` set (dty_by_rule t). 0 \<le> n" using assms(1) unfolding tally_ok_def by blast
    then show "\<forall>n \<in> snd ` set (dty_by_rule t'). 0 \<le> n"
      unfolding t' drc_tally.simps counter_add_def using nonneg by (intro ball_dict_set) simp_all
    have "\<forall>counts \<in> snd ` set (dty_by_rule_type t). distinct (map fst counts)"
      using assms(1) unfolding tally_ok_def by blast
    then show "\<forall>counts \<in> snd ` set (dty_by_rule_type t'). distinct (map fst counts)"
      unfolding t' drc_tally.simps using counted(1) by (intro ball_dict_set)
    show "distinct (map fst (dty_by_rule t'))" "distinct (map fst (dty_by_type t'))"
      "counter_total (dty_by_type t') = counter_total (dty_by_rule t')"
      using assms(1) fold_counter_facts [of "dty_by_type t" types] len by (simp_all add: t' tally_ok_def)
  qed
qed

lemma tally_rules_ok: "tally_rules str rs t = Inr t' \<Longrightarrow> tally_ok t \<Longrightarrow> tally_ok t'"
proof (induction rs arbitrary: t)
  case (Cons r rs)
  then obtain t1 where "tally_rule str r t = Inr t1" "tally_rules str rs t1 = Inr t'"
    by (auto simp: bind_result_Inr_iff)
  then show ?case using Cons.IH tally_rule_ok [OF Cons.prems(2)] by blast
qed simp

lemma drc_statistics_tally:
  assumes "drc_statistics str data = Inr st"
  obtains t where "tally_ok t" "dst_total_drv st = counter_total (dty_by_rule t)"
    "dst_rules_violated st = int (length (filter (\<lambda>n. n > 0) (map snd (dty_by_rule t))))"
    "dst_drc_by_rule st = sorted_items (dty_by_rule t)"
    "dst_drc_by_marker_type st = sorted_items (dty_by_type t)"
    "dst_drc_by_rule_and_type st =
       map (\<lambda>(rule, counts). (rule, sorted_items counts)) (sorted_items (dty_by_rule_type t))"
proof -
  from assms obtain rules t where
    "tally_rules str rules \<lparr>dty_by_rule = [], dty_by_type = [], dty_by_rule_type = []\<rparr> = Inr t"
    and "st = \<lparr>dst_total_drv = counter_total (dty_by_rule t),
          dst_rules_violated = int (length (filter (\<lambda>n. n > 0) (map snd (dty_by_rule t)))),
          dst_drc_by_rule = sorted_items (dty_by_rule t),
          dst_drc_by_marker_type = sorted_items (dty_by_type t),
          dst_drc_by_rule_and_type =
            map (\<lambda>(rule, counts). (rule, sorted_items counts)) (sorted_items (dty_by_rule_type t))\<rparr>"
    unfolding drc_statistics_def by (auto simp: bind_result_Inr_iff Let_def)
  moreover have "tally_ok \<lparr>dty_by_rule = [], dty_by_type = [], dty_by_rule_type = []\<rparr>"
    by (simp add: tally_ok_def counter_total_def)
  ultimately show thesis using that tally_rules_ok by fastforce
qed

end
