(* ===== verification/Attempts.thy ===== *)
theory Attempts
  imports Effects Failures Tool_Schemas
begin

text \<open>
  The accounting of physical attempts (\<open>_AttemptLedger\<close> and \<open>_account_physical_attempts\<close> of
  \<open>src/drc_agent/backends/transaction.py\<close>). Every attempt on the EDA tools claims a reservation of
  the shared budget and is registered in the attempt index; whatever happens afterwards, one terminal
  record is written for it and the reservation is finished.

  What is outside the modelled code, the validation budget, the file of the index and the storage
  monitor, is the environment \<open>journal_env\<close>: its answers depend on the number of outside calls made
  so far, so each of them may raise at any time. A reservation is finished in the model when
  \<open>finish_claim\<close> has been called for it, whether that call raises or not.
\<close>

subsection \<open>State and environment\<close>

record reservation =
  rsv_claim_id :: "string"
  rsv_queue_wait_seconds :: "real"

record ledger =
  lgr_attempt_id :: "string"
  lgr_logical_evidence_key :: "string"
  lgr_current_stage :: "string"
  lgr_failure_domain :: "string"
  lgr_terminal_written :: "bool"
  lgr_validation_reservation :: "reservation option"

datatype index_event =
    AttemptRegistered string string trace_context string "string option" "string option" real
  | AttemptPhase string string string "(string \<times> json) list"
  | AttemptTerminal string attempt_terminal_status string "(string \<times> json) list"

text \<open>
  \<open>js_ledger\<close> is the context variable \<open>_ACTIVE_LEDGER\<close>; \<open>js_claims\<close> and \<open>js_finishes\<close> list the calls
  of the budget that returned a claim and the calls of \<open>finish_claim\<close>, with the attempt of the ledger
  that makes them.
\<close>

record journal_state =
  js_clock :: "nat"
  js_index :: "index_event list"
  js_ledger :: "ledger option"
  js_claims :: "(string \<times> reservation option) list"
  js_finishes :: "(string \<times> reservation option \<times> attempt_terminal_status) list"

record journal_env =
  je_claim :: "nat \<Rightarrow> trace_context \<Rightarrow> string \<Rightarrow> exn + reservation option"
  je_finish :: "nat \<Rightarrow> reservation option \<Rightarrow> attempt_terminal_status \<Rightarrow> exn + unit"
  je_append :: "nat \<Rightarrow> index_event \<Rightarrow> exn + unit"
  je_storage_pause :: "nat \<Rightarrow> exn \<Rightarrow> string \<Rightarrow> string \<Rightarrow> string \<Rightarrow> exn + infra_failure option"
  je_incident :: "nat \<Rightarrow> string \<Rightarrow> string \<Rightarrow> exn + (string \<times> json) list option"

type_synonym ('z, 'a) journal = "('z journal_state_scheme, exn, 'a) effect"

text \<open>A call of the outside.\<close>

definition ask :: "(nat \<Rightarrow> exn + 'a) \<Rightarrow> ('z, 'a) journal" where
  "ask f s = (f (js_clock s), s\<lparr>js_clock := Suc (js_clock s)\<rparr>)"

subsection \<open>The ledger of one attempt\<close>

definition append_index :: "'y journal_env_scheme \<Rightarrow> index_event \<Rightarrow> ('z, unit) journal" where
  "append_index env ev =
     and_then (ask (\<lambda>n. je_append env n ev)) (\<lambda>_. modify (\<lambda>s. s\<lparr>js_index := js_index s @ [ev]\<rparr>))"

definition set_active :: "ledger option \<Rightarrow> ('z, unit) journal" where
  "set_active l = modify (\<lambda>s. s\<lparr>js_ledger := l\<rparr>)"

text \<open>\<open>_AttemptLedger.__init__\<close>.\<close>

definition open_ledger ::
    "'y journal_env_scheme \<Rightarrow> string \<Rightarrow> string \<Rightarrow> trace_context \<Rightarrow> string \<Rightarrow> string option \<Rightarrow>
     string option \<Rightarrow> ('z, unit) journal" where
  "open_ledger env attempt_id key trace patch_sha effect_sha retry_of =
     and_then (ask (\<lambda>n. je_claim env n trace attempt_id)) (\<lambda>claim.
     and_then (modify (\<lambda>s. s\<lparr>js_claims := js_claims s @ [(attempt_id, claim)],
       js_ledger := Some \<lparr>lgr_attempt_id = attempt_id, lgr_logical_evidence_key = key,
         lgr_current_stage = ''ATTEMPT_REGISTERED'', lgr_failure_domain = ''EXECUTION'',
         lgr_terminal_written = False, lgr_validation_reservation = claim\<rparr>\<rparr>)) (\<lambda>_.
     append_index env (AttemptRegistered attempt_id key trace patch_sha effect_sha retry_of
       (case claim of None \<Rightarrow> 0 | Some r \<Rightarrow> rsv_queue_wait_seconds r))))"

definition with_ledger :: "(ledger \<Rightarrow> ('z, unit) journal) \<Rightarrow> ('z, unit) journal" where
  "with_ledger f = and_then (gets js_ledger) (\<lambda>l. case l of None \<Rightarrow> pass () | Some l \<Rightarrow> f l)"

definition set_stage :: "string \<Rightarrow> string \<Rightarrow> ('z, unit) journal" where
  "set_stage stage domain =
     with_ledger (\<lambda>l. set_active (Some (l\<lparr>lgr_current_stage := stage, lgr_failure_domain := domain\<rparr>)))"

definition phase_event :: "'y journal_env_scheme \<Rightarrow> string \<Rightarrow> (string \<times> json) list \<Rightarrow> ('z, unit) journal" where
  "phase_event env event details =
     with_ledger (\<lambda>l. append_index env
       (AttemptPhase event (lgr_attempt_id l) (lgr_logical_evidence_key l) details))"

definition finish_reservation ::
    "'y journal_env_scheme \<Rightarrow> ledger \<Rightarrow> attempt_terminal_status \<Rightarrow> ('z, unit) journal" where
  "finish_reservation env l status =
     and_then (modify (\<lambda>s. s\<lparr>js_ledger := Some (l\<lparr>lgr_terminal_written := True\<rparr>),
       js_finishes := js_finishes s @ [(lgr_attempt_id l, lgr_validation_reservation l, status)]\<rparr>)) (\<lambda>_.
     ask (\<lambda>n. je_finish env n (lgr_validation_reservation l) status))"

definition terminal ::
    "'y journal_env_scheme \<Rightarrow> attempt_terminal_status \<Rightarrow> (string \<times> json) list \<Rightarrow> ('z, unit) journal" where
  "terminal env status details =
     with_ledger (\<lambda>l.
       if lgr_terminal_written l then pass ()
       else finally_do
         (append_index env (AttemptTerminal (lgr_attempt_id l) status (lgr_logical_evidence_key l) details))
         (finish_reservation env l status))"

subsection \<open>The decorator\<close>

definition current_stage :: "ledger option \<Rightarrow> string" where
  "current_stage l = (case l of None \<Rightarrow> ''TRANSACTION'' | Some l \<Rightarrow> lgr_current_stage l)"

text \<open>\<open>pause.health_snapshot = incident or {}\<close>.\<close>

definition set_health :: "(string \<times> json) list option \<Rightarrow> infra_failure \<Rightarrow> infra_failure" where
  "set_health health f =
     f\<lparr>inf_pause := map_option (\<lambda>p. (fst p, case health of None \<Rightarrow> [] | Some h \<Rightarrow> h)) (inf_pause f)\<rparr>"

text \<open>The incident that is recorded when an exception means that the storage is exhausted.\<close>

definition storage_pause_of ::
    "'y journal_env_scheme \<Rightarrow> exn \<Rightarrow> string \<Rightarrow> string \<Rightarrow> string \<Rightarrow> (infra_failure \<Rightarrow> string) \<Rightarrow>
     ('z, infra_failure option) journal" where
  "storage_pause_of env exc stage provider model incident_stage =
     and_then (ask (\<lambda>n. je_storage_pause env n exc stage provider model)) (\<lambda>p.
       case p of
         None \<Rightarrow> pass None
       | Some f \<Rightarrow>
           and_then (ask (\<lambda>n. je_incident env n
             (case inf_original_exception_type f of
                None \<Rightarrow> ''STORAGE_EXHAUSTED''
              | Some t \<Rightarrow> if t = [] then ''STORAGE_EXHAUSTED'' else t)
             (incident_stage f))) (\<lambda>health. pass (Some (set_health health f))))"

definition normalise_exception :: "'y journal_env_scheme \<Rightarrow> exn \<Rightarrow> ('z, exn) journal" where
  "normalise_exception env exc =
     (case exc of
        ExnInfrastructure f \<Rightarrow> pass exc
      | _ \<Rightarrow>
          and_then (gets js_ledger) (\<lambda>l.
          and_then (storage_pause_of env exc (current_stage l) ''TransactionExecutor'' ''host-storage''
              inf_failure_stage) (\<lambda>p.
          pass (case p of None \<Rightarrow> exc | Some f \<Rightarrow> ExnInfrastructure f))))"

definition is_cancellation :: "exn \<Rightarrow> bool" where
  "is_cancellation e = (case e of ExnCancelled _ _ \<Rightarrow> True | ExnInterrupt \<Rightarrow> True | _ \<Rightarrow> False)"

definition terminal_of :: "exn \<Rightarrow> attempt_terminal_status" where
  "terminal_of e = (if is_cancellation e then TerminalCancelled else TerminalExecutionFailure)"

definition terminal_details :: "exn \<Rightarrow> ledger \<Rightarrow> (string \<times> json) list" where
  "terminal_details e l =
     (case e of
        ExnInfrastructure f \<Rightarrow>
          [(''failure_domain'', JStr ''INFRASTRUCTURE''),
           (''failure_code'', JStr (failure_code_value (inf_failure_code f))),
           (''failure_stage'', JStr (inf_failure_stage f)), (''retryable'', JBool (inf_retryable f))]
      | _ \<Rightarrow>
          [(''failure_domain'', JStr (lgr_failure_domain l)),
           (''failure_code'', JStr (if is_cancellation e then ''CANCELLED'' else exn_class e)),
           (''failure_stage'', JStr (lgr_current_stage l))])"

definition record_exception :: "'y journal_env_scheme \<Rightarrow> exn \<Rightarrow> ('z, 'a) journal" where
  "record_exception env exc =
     and_then (normalise_exception env exc) (\<lambda>normalized.
     and_then (with_ledger (\<lambda>l. terminal env (terminal_of normalized) (terminal_details normalized l))) (\<lambda>_.
     throw normalized))"

definition check_terminal :: "'y journal_env_scheme \<Rightarrow> 'a \<Rightarrow> ('z, 'a) journal" where
  "check_terminal env result =
     and_then (gets js_ledger) (\<lambda>l.
       case l of
         None \<Rightarrow> pass result
       | Some l \<Rightarrow>
           if lgr_terminal_written l then pass result
           else and_then (terminal env TerminalExecutionFailure
               [(''failure_domain'', JStr ''INFRASTRUCTURE''),
                (''failure_code'', JStr ''TERMINAL_ACCOUNTING_MISSING''),
                (''failure_stage'', JStr (lgr_current_stage l))]) (\<lambda>_.
             throw (ExnOther KindRuntime ''RuntimeError'' ''TERMINAL_ACCOUNTING_MISSING'')))"

definition account_physical_attempts :: "'y journal_env_scheme \<Rightarrow> ('z, 'a) journal \<Rightarrow> ('z, 'a) journal" where
  "account_physical_attempts env body =
     and_then (gets js_ledger) (\<lambda>token.
     and_then (set_active None) (\<lambda>_.
     finally_do
       (handle (and_then body (check_terminal env)) (record_exception env))
       (set_active token)))"

subsection \<open>What is claimed is finished\<close>

definition claim_entry :: "string \<times> reservation option \<times> attempt_terminal_status \<Rightarrow> string \<times> reservation option" where
  "claim_entry x = (fst x, fst (snd x))"

definition status_of :: "string \<times> reservation option \<times> attempt_terminal_status \<Rightarrow> attempt_terminal_status" where
  "status_of x = snd (snd x)"

definition open_claims :: "ledger option \<Rightarrow> (string \<times> reservation option) list" where
  "open_claims l =
     (case l of
        None \<Rightarrow> []
      | Some l \<Rightarrow> if lgr_terminal_written l then [] else [(lgr_attempt_id l, lgr_validation_reservation l)])"

lemma open_claims_simps [simp]:
  "open_claims None = []"
  "lgr_terminal_written l \<Longrightarrow> open_claims (Some l) = []"
  "\<not> lgr_terminal_written l \<Longrightarrow> open_claims (Some l) = [(lgr_attempt_id l, lgr_validation_reservation l)]"
  by (simp_all add: open_claims_def)

fun registered_ids :: "index_event list \<Rightarrow> string list" where
  "registered_ids [] = []"
| "registered_ids (AttemptRegistered i _ _ _ _ _ _ # evs) = i # registered_ids evs"
| "registered_ids (_ # evs) = registered_ids evs"

fun terminal_entries :: "index_event list \<Rightarrow> (string \<times> attempt_terminal_status) list" where
  "terminal_entries [] = []"
| "terminal_entries (AttemptTerminal i st _ _ # evs) = (i, st) # terminal_entries evs"
| "terminal_entries (_ # evs) = terminal_entries evs"

lemma registered_ids_append [simp]: "registered_ids (xs @ ys) = registered_ids xs @ registered_ids ys"
  by (induction xs rule: registered_ids.induct) simp_all

lemma terminal_entries_append [simp]: "terminal_entries (xs @ ys) = terminal_entries xs @ terminal_entries ys"
  by (induction xs rule: terminal_entries.induct) simp_all

text \<open>The index holds what happened: every claim as a registration, every finish as a terminal record.\<close>

definition journaled :: "'z journal_state_scheme \<Rightarrow> bool" where
  "journaled s \<longleftrightarrow>
     registered_ids (js_index s) = map fst (js_claims s) \<and>
     terminal_entries (js_index s) = map (\<lambda>x. (fst x, status_of x)) (js_finishes s)"

text \<open>No write of the index and no call of \<open>finish_claim\<close> raises.\<close>

definition calm :: "'y journal_env_scheme \<Rightarrow> bool" where
  "calm env \<longleftrightarrow>
     (\<forall>n ev. je_append env n ev = Inr ()) \<and> (\<forall>n r st. je_finish env n r st = Inr ())"

text \<open>The two functions of the storage monitor that the handler calls do not raise.\<close>

definition reporting_works :: "'y journal_env_scheme \<Rightarrow> bool" where
  "reporting_works env \<longleftrightarrow>
     (\<forall>n e stage provider model e'. je_storage_pause env n e stage provider model \<noteq> Inl e') \<and>
     (\<forall>n code stage e'. je_incident env n code stage \<noteq> Inl e')"

text \<open>
  Since the claims \<open>c\<close> and the finishes \<open>f\<close>: at most \<open>k\<close> claims were made, and each of them is finished
  with a status of \<open>A\<close>, in order, but for that of the open ledger.
\<close>

definition ledger_inv ::
    "'y journal_env_scheme \<Rightarrow> attempt_terminal_status set \<Rightarrow> nat \<Rightarrow> (string \<times> reservation option) list \<Rightarrow>
     (string \<times> reservation option \<times> attempt_terminal_status) list \<Rightarrow> bool \<Rightarrow> 'z journal_state_scheme \<Rightarrow> bool" where
  "ledger_inv env A k c f j s \<longleftrightarrow>
     (\<exists>new. js_finishes s = f @ new \<and>
            js_claims s = c @ map claim_entry new @ open_claims (js_ledger s) \<and>
            status_of ` set new \<subseteq> A) \<and>
     length (js_claims s) \<le> length c + k \<and>
     (calm env \<and> j \<longrightarrow> journaled s)"

definition settled ::
    "'y journal_env_scheme \<Rightarrow> attempt_terminal_status set \<Rightarrow> nat \<Rightarrow> (string \<times> reservation option) list \<Rightarrow>
     (string \<times> reservation option \<times> attempt_terminal_status) list \<Rightarrow> bool \<Rightarrow> 'z journal_state_scheme \<Rightarrow> bool" where
  "settled env A k c f j s \<longleftrightarrow> ledger_inv env A k c f j s \<and> open_claims (js_ledger s) = []"

lemma settledD: "settled env A k c f j s \<Longrightarrow> ledger_inv env A k c f j s"
  by (simp add: settled_def)

lemma ledger_inv_mono: "ledger_inv env A k c f j s \<Longrightarrow> A \<subseteq> B \<Longrightarrow> k \<le> m \<Longrightarrow> ledger_inv env B m c f j s"
  unfolding ledger_inv_def by fastforce

lemma settled_mono: "settled env A k c f j s \<Longrightarrow> A \<subseteq> B \<Longrightarrow> k \<le> m \<Longrightarrow> settled env B m c f j s"
  unfolding settled_def using ledger_inv_mono by blast

text \<open>What does not touch the journal keeps the invariant.\<close>

lemma ledger_inv_frame:
  assumes "js_finishes s' = js_finishes s" "js_claims s' = js_claims s" "js_index s' = js_index s"
    "open_claims (js_ledger s') = open_claims (js_ledger s)"
  shows "ledger_inv env A k c f j s' \<longleftrightarrow> ledger_inv env A k c f j s"
  unfolding ledger_inv_def journaled_def assms ..

lemma settled_frame:
  assumes "js_finishes s' = js_finishes s" "js_claims s' = js_claims s" "js_index s' = js_index s"
    "open_claims (js_ledger s') = open_claims (js_ledger s)"
  shows "settled env A k c f j s' \<longleftrightarrow> settled env A k c f j s"
  unfolding settled_def ledger_inv_frame [OF assms] assms(4) ..

lemma triple_ask:
  assumes "\<And>s x. P s \<Longrightarrow> g (js_clock s) = Inr x \<Longrightarrow> Q x (s\<lparr>js_clock := Suc (js_clock s)\<rparr>)"
    "\<And>s e. P s \<Longrightarrow> g (js_clock s) = Inl e \<Longrightarrow> E e (s\<lparr>js_clock := Suc (js_clock s)\<rparr>)"
  shows "triple P (ask g) Q E"
  using assms unfolding triple_def ask_def by auto

lemma ledger_inv_clock [simp]: "ledger_inv env A k c f j (s\<lparr>js_clock := t\<rparr>) = ledger_inv env A k c f j s"
  by (simp add: ledger_inv_def journaled_def)

lemma settled_clock [simp]: "settled env A k c f j (s\<lparr>js_clock := t\<rparr>) = settled env A k c f j s"
  by (simp add: settled_def)

lemma keeps_ask [triple_rules]: "keeps (ledger_inv env A k c f j) (ask g)"
  unfolding keeps_def by (rule triple_ask) simp_all

lemma settled_ask [triple_rules]: "keeps (settled env A k c f j) (ask g)"
  unfolding keeps_def by (rule triple_ask) simp_all

lemma ledger_inv_event:
  "ledger_inv env A k c f j s \<Longrightarrow> registered_ids [ev] = [] \<Longrightarrow> terminal_entries [ev] = [] \<Longrightarrow>
   ledger_inv env A k c f j (s\<lparr>js_index := js_index s @ [ev]\<rparr>)"
  by (simp add: ledger_inv_def journaled_def)

lemma keeps_append_index:
  "registered_ids [ev] = [] \<Longrightarrow> terminal_entries [ev] = [] \<Longrightarrow> keeps (ledger_inv env A k c f j) (append_index env' ev)"
  unfolding append_index_def by (intro triple_rules keeps_modify ledger_inv_event)

lemma triple_with_ledger:
  assumes "\<And>l. triple (\<lambda>s. P s \<and> js_ledger s = Some l) (g l) Q E"
    "\<And>s. P s \<Longrightarrow> js_ledger s = None \<Longrightarrow> Q () s"
  shows "triple P (with_ledger g) Q E"
  using assms unfolding triple_def with_ledger_def and_then_result and_then_raises
  by (fastforce split: option.splits)

lemma keeps_with_ledger [triple_rules]: "(\<And>l. keeps I (g l)) \<Longrightarrow> keeps I (with_ledger g)"
  unfolding with_ledger_def by (intro triple_rules)

lemma keeps_phase_event [triple_rules]: "keeps (ledger_inv env A k c f j) (phase_event env' event details)"
  unfolding phase_event_def by (intro triple_rules keeps_append_index) simp_all

lemma open_claims_stage [simp]:
  "open_claims (Some (l\<lparr>lgr_current_stage := stage, lgr_failure_domain := domain\<rparr>)) = open_claims (Some l)"
  by (simp add: open_claims_def)

lemma keeps_set_stage [triple_rules]: "keeps (ledger_inv env A k c f j) (set_stage stage domain)"
  unfolding keeps_def set_stage_def set_active_def
  by (intro triple_with_ledger triple_modify) (auto simp: ledger_inv_def journaled_def)

lemma append_raises: "je_append env n ev = Inl e \<Longrightarrow> \<not> calm env"
  by (auto simp: calm_def)

lemma finish_raises: "je_finish env n r st = Inl e \<Longrightarrow> \<not> calm env"
  by (auto simp: calm_def)

lemma triple_append_index:
  assumes "\<And>s. P s \<Longrightarrow> Q () (s\<lparr>js_clock := Suc (js_clock s), js_index := js_index s @ [ev]\<rparr>)"
    "\<And>s e. P s \<Longrightarrow> \<not> calm env \<Longrightarrow> E e (s\<lparr>js_clock := Suc (js_clock s)\<rparr>)"
  shows "triple P (append_index env ev) Q E"
  using assms append_raises [of env _ ev] unfolding triple_def append_index_def and_then_result and_then_raises ask_def
  by fastforce

lemma triple_finish_ask:
  assumes "\<And>s. P s \<Longrightarrow> Q () (s\<lparr>js_clock := Suc (js_clock s)\<rparr>)"
    "\<And>s e. P s \<Longrightarrow> \<not> calm env \<Longrightarrow> E e (s\<lparr>js_clock := Suc (js_clock s)\<rparr>)"
  shows "triple P (ask (\<lambda>n. je_finish env n r st)) Q E"
  by (rule triple_ask) (use assms finish_raises [of env _ r st] in fastforce)+

lemma open_ledger_inv:
  "triple (settled env A k c f j :: 'z journal_state_scheme \<Rightarrow> bool) (open_ledger env attempt_id key trace patch effect retry)
     (\<lambda>_. ledger_inv env A (Suc k) c f j) (\<lambda>_. ledger_inv env A (Suc k) c f j)"
proof -
  define registered where "registered = (\<lambda>s :: 'z journal_state_scheme.
    ledger_inv env A (Suc k) c f False s \<and>
    (calm env \<and> j \<longrightarrow> registered_ids (js_index s) @ [attempt_id] = map fst (js_claims s) \<and>
       terminal_entries (js_index s) = map (\<lambda>x. (fst x, status_of x)) (js_finishes s)))"
  have claimed: "triple (settled env A k c f j) (ask g) (\<lambda>_. settled env A k c f j) (\<lambda>_. ledger_inv env A (Suc k) c f j)"
    for g :: "nat \<Rightarrow> exn + reservation option"
    by (rule triple_weaken [OF settled_ask [unfolded keeps_def]])
      (auto simp: settled_def intro: ledger_inv_mono [of env A k c f j _ A "Suc k"])
  show ?thesis
    unfolding open_ledger_def
    by (intro triple_and_then [OF claimed] triple_and_then [where R = "\<lambda>_. registered"] triple_modify
        triple_append_index) (auto simp: registered_def settled_def ledger_inv_def journaled_def)
qed

lemma terminal_inv:
  assumes "st \<in> A"
  shows "triple (ledger_inv env A k c f j :: 'z journal_state_scheme \<Rightarrow> bool) (terminal env st details)
     (\<lambda>_. settled env A k c f j) (\<lambda>_ s. settled env A k c f j s \<and> \<not> calm env)"
  unfolding terminal_def
proof (rule triple_with_ledger)
  fix l
  define ready where "ready = (\<lambda>s :: 'z journal_state_scheme.
    ledger_inv env A k c f False s \<and> js_ledger s = Some l \<and>
    (calm env \<and> j \<longrightarrow> registered_ids (js_index s) = map fst (js_claims s) \<and>
       terminal_entries (js_index s) =
         map (\<lambda>x. (fst x, status_of x)) (js_finishes s) @ [(lgr_attempt_id l, st)]))"
  show "triple (\<lambda>s :: 'z journal_state_scheme. ledger_inv env A k c f j s \<and> js_ledger s = Some l)
     (if lgr_terminal_written l then pass ()
      else finally_do (append_index env (AttemptTerminal (lgr_attempt_id l) st (lgr_logical_evidence_key l) details))
             (finish_reservation env l st))
     (\<lambda>_. settled env A k c f j) (\<lambda>_ s. settled env A k c f j s \<and> \<not> calm env)"
  proof (cases "lgr_terminal_written l")
    case True
    then show ?thesis by (auto simp: settled_def intro: triple_pass)
  next
    case False
    have close: "settled env A k c f j (s\<lparr>js_ledger := Some (l\<lparr>lgr_terminal_written := True\<rparr>),
        js_finishes := js_finishes s @ [(lgr_attempt_id l, lgr_validation_reservation l, st)]\<rparr>)"
      if ready: "ready s" for s :: "'z journal_state_scheme"
    proof -
      from ready obtain new where new: "js_finishes s = f @ new"
        "js_claims s = c @ map claim_entry new @ [(lgr_attempt_id l, lgr_validation_reservation l)]"
        "status_of ` set new \<subseteq> A"
        using False by (auto simp: ready_def ledger_inv_def)
      have oc: "open_claims (Some l) = [(lgr_attempt_id l, lgr_validation_reservation l)]" using False by simp
      let ?x = "(lgr_attempt_id l, lgr_validation_reservation l, st)"
      have "js_claims s = c @ map claim_entry (new @ [?x])" "status_of ` set (new @ [?x]) \<subseteq> A"
        using new assms by (simp_all add: claim_entry_def status_of_def)
      moreover have "js_finishes s @ [?x] = f @ new @ [?x]" using new(1) by simp
      moreover have "length (js_claims s) \<le> length c + k"
        using ready by (simp add: ready_def ledger_inv_def)
      moreover have "calm env \<and> j \<Longrightarrow> registered_ids (js_index s) = map fst (js_claims s) \<and>
          terminal_entries (js_index s) = map (\<lambda>x. (fst x, status_of x)) (js_finishes s @ [?x])"
        using ready by (simp add: ready_def status_of_def)
      ultimately show ?thesis
        unfolding settled_def ledger_inv_def journaled_def
        by (intro conjI exI [of _ "new @ [?x]"] impI) simp_all
    qed
    have finish: "triple ready (finish_reservation env l st) (\<lambda>_. settled env A k c f j)
        (\<lambda>_ s. settled env A k c f j s \<and> \<not> calm env)"
      unfolding finish_reservation_def
      by (intro triple_and_then [where R = "\<lambda>_. settled env A k c f j"] triple_modify close triple_finish_ask) auto
    have failed: "triple (\<lambda>s. ready s \<and> \<not> calm env) (finish_reservation env l st)
        (\<lambda>_ s. settled env A k c f j s \<and> \<not> calm env) (\<lambda>_ s. settled env A k c f j s \<and> \<not> calm env)"
      using finish unfolding triple_def by blast
    have append: "triple (\<lambda>s. ledger_inv env A k c f j s \<and> js_ledger s = Some l)
        (append_index env (AttemptTerminal (lgr_attempt_id l) st (lgr_logical_evidence_key l) details))
        (\<lambda>_. ready) (\<lambda>_ s. ready s \<and> \<not> calm env)"
      by (rule triple_append_index) (auto simp: ready_def ledger_inv_def journaled_def)
    show ?thesis
      unfolding if_not_P [OF False] by (rule triple_finally [OF append finish failed])
  qed
next
  fix s assume "ledger_inv env A k c f j s" "js_ledger s = None"
  then show "settled env A k c f j s" by (simp add: settled_def)
qed

lemma ask_raises: "ask g s = (Inl e, s') \<longleftrightarrow> g (js_clock s) = Inl e \<and> s' = s\<lparr>js_clock := Suc (js_clock s)\<rparr>"
  by (auto simp: ask_def)

lemma ask_result: "ask g s = (Inr x, s') \<longleftrightarrow> g (js_clock s) = Inr x \<and> s' = s\<lparr>js_clock := Suc (js_clock s)\<rparr>"
  by (auto simp: ask_def)

lemma storage_pause_of_total:
  assumes "reporting_works env"
  shows "storage_pause_of env exc stage provider model g s \<noteq> (Inl e, s')"
  using assms unfolding storage_pause_of_def reporting_works_def
  by (auto simp: and_then_raises ask_raises split: option.splits)

lemma normalise_exception_inv:
  assumes "reporting_works env"
  shows "triple (ledger_inv env A k c f j) (normalise_exception env exc)
     (\<lambda>_. ledger_inv env A k c f j) (\<lambda>_ _. False)"
proof -
  have pause: "keeps (ledger_inv env A k c f j) (storage_pause_of env e stage provider model g)" for e stage provider model g
    unfolding storage_pause_of_def by (intro triple_rules)
  have "keeps (ledger_inv env A k c f j) (normalise_exception env exc)"
    unfolding normalise_exception_def
    by (cases exc) (auto intro!: triple_rules pause)
  moreover have "normalise_exception env exc s \<noteq> (Inl e, s')" for e s s'
    unfolding normalise_exception_def
    by (cases exc) (simp_all add: and_then_raises storage_pause_of_total [OF assms])
  ultimately show ?thesis unfolding keeps_def triple_def by blast
qed

lemma record_exception_inv:
  assumes "reporting_works env" "{TerminalExecutionFailure, TerminalCancelled} \<subseteq> A"
  shows "triple (ledger_inv env A k c f j) (record_exception env exc) Q (\<lambda>_. settled env A k c f j)"
  unfolding record_exception_def
proof (rule triple_and_then)
  show "triple (ledger_inv env A k c f j) (normalise_exception env exc)
      (\<lambda>_. ledger_inv env A k c f j) (\<lambda>_. settled env A k c f j)"
    by (rule triple_weaken [OF normalise_exception_inv [OF assms(1)]]) simp_all
  fix normalized
  have "terminal_of normalized \<in> A" using assms(2) by (simp add: terminal_of_def)
  note closing = terminal_inv [OF this]
  show "triple (ledger_inv env A k c f j)
      (and_then (with_ledger (\<lambda>l. terminal env (terminal_of normalized) (terminal_details normalized l)))
        (\<lambda>_. throw normalized)) Q (\<lambda>_. settled env A k c f j)"
    by (intro triple_and_then [where R = "\<lambda>_. settled env A k c f j"] triple_with_ledger triple_throw
        triple_weaken [OF closing]) (auto simp: settled_def)
qed

lemma check_terminal_settled:
  "triple (settled env A k c f j) (check_terminal env x) (\<lambda>_. settled env A k c f j) (\<lambda>_ _. False)"
  unfolding check_terminal_def triple_def and_then_result and_then_raises
  by (auto simp: settled_def open_claims_def split: option.splits if_splits)

subsection \<open>What the decorator promises\<close>

abbreviation unevaluated :: "attempt_terminal_status set" where
  "unevaluated \<equiv> {TerminalExecutionFailure, TerminalCancelled}"

text \<open>
  What a run since the claims \<open>c\<close> and the finishes \<open>f\<close> leaves behind: every reservation that it claimed is
  finished, once and in order.
\<close>

definition run_closed ::
    "'y journal_env_scheme \<Rightarrow> attempt_terminal_status set \<Rightarrow> nat \<Rightarrow> 'z journal_state_scheme \<Rightarrow>
     'z journal_state_scheme \<Rightarrow> bool" where
  "run_closed env A k s s' \<longleftrightarrow>
     (\<exists>new. js_finishes s' = js_finishes s @ new \<and> js_claims s' = js_claims s @ map claim_entry new \<and>
            status_of ` set new \<subseteq> A \<and> length new \<le> k) \<and>
     js_ledger s' = js_ledger s \<and>
     (calm env \<and> journaled s \<longrightarrow> journaled s')"

lemma run_closed_settled:
  assumes "settled env A k (js_claims s) (js_finishes s) (journaled s) (s'\<lparr>js_ledger := None\<rparr>) \<and> js_ledger s' = js_ledger s"
  shows "run_closed env A k s s'"
proof -
  from assms obtain new where "js_finishes s' = js_finishes s @ new" "js_claims s' = js_claims s @ map claim_entry new"
    "status_of ` set new \<subseteq> A" "length (js_claims s') \<le> length (js_claims s) + k"
    "calm env \<and> journaled s \<longrightarrow> journaled s'"
    by (auto simp: settled_def ledger_inv_def journaled_def)
  then show ?thesis using assms unfolding run_closed_def by auto
qed

text \<open>
  The interface of the decorator: a function that, started without a ledger, keeps the journal
  whatever it raises, has written the terminal record of its last attempt when it returns, and
  records \<open>EVALUATED\<close> only then.
\<close>

locale accounted_function =
  fixes env :: "'y journal_env_scheme" and body :: "('z, 'a) journal" and attempts :: nat
  assumes keeps_journal:
    "triple (\<lambda>s. settled env unevaluated 0 c f j s \<and> js_ledger s = None) body
       (\<lambda>_. settled env UNIV attempts c f j)
       (\<lambda>_. ledger_inv env (if calm env then unevaluated else UNIV) attempts c f j)"
begin

lemma decorated:
  assumes "reporting_works env"
  shows "triple (\<lambda>s. js_claims s = c \<and> js_finishes s = f \<and> js_ledger s = token \<and> journaled s = j)
     (account_physical_attempts env body)
     (\<lambda>_ s. settled env UNIV attempts c f j (s\<lparr>js_ledger := None\<rparr>) \<and> js_ledger s = token)
     (\<lambda>_ s. settled env (if calm env then unevaluated else UNIV) attempts c f j (s\<lparr>js_ledger := None\<rparr>) \<and>
        js_ledger s = token)"
proof -
  let ?A = "if calm env then unevaluated else UNIV"
  have start: "triple (\<lambda>s. js_claims s = c \<and> js_finishes s = f \<and> js_ledger s = token \<and> journaled s = j)
      (gets js_ledger) (\<lambda>l s. js_claims s = c \<and> js_finishes s = f \<and> journaled s = j \<and> l = token) E" for E
    by (rule triple_gets) simp
  have clear: "triple (\<lambda>s. js_claims s = c \<and> js_finishes s = f \<and> journaled s = j \<and> l = token)
      (set_active None) (\<lambda>_ s. (settled env unevaluated 0 c f j s \<and> js_ledger s = None) \<and> l = token) E" for E l
    unfolding set_active_def
    by (rule triple_modify) (auto simp: settled_def ledger_inv_def journaled_def)
  have restore: "triple (\<lambda>s. settled env A attempts c f j s) (set_active token)
      (\<lambda>_ s. settled env A attempts c f j (s\<lparr>js_ledger := None\<rparr>) \<and> js_ledger s = token) E" for E A
    unfolding set_active_def
    by (rule triple_modify) (auto simp: settled_def ledger_inv_def journaled_def)
  have accounted: "triple (\<lambda>s. settled env unevaluated 0 c f j s \<and> js_ledger s = None)
      (handle (and_then body (check_terminal env)) (record_exception env))
      (\<lambda>_. settled env UNIV attempts c f j) (\<lambda>_. settled env ?A attempts c f j)"
    using assms
    by (intro triple_handle [where R = "\<lambda>_. ledger_inv env ?A attempts c f j"] record_exception_inv
        triple_and_then [OF keeps_journal] triple_weaken [OF check_terminal_settled]) auto
  have scoped: "triple (\<lambda>s. (settled env unevaluated 0 c f j s \<and> js_ledger s = None) \<and> l = token)
      (finally_do (handle (and_then body (check_terminal env)) (record_exception env)) (set_active l))
      (\<lambda>_ s. settled env UNIV attempts c f j (s\<lparr>js_ledger := None\<rparr>) \<and> js_ledger s = token)
      (\<lambda>_ s. settled env ?A attempts c f j (s\<lparr>js_ledger := None\<rparr>) \<and> js_ledger s = token)" for l
  proof (cases "l = token")
    case True
    show ?thesis
      unfolding True
      by (rule triple_pre [OF triple_finally [OF accounted restore restore]]) simp
  qed (simp add: triple_def)
  show ?thesis
    unfolding account_physical_attempts_def by (rule triple_and_then [OF start triple_and_then [OF clear scoped]])
qed

lemma run_accounted:
  assumes "reporting_works env" "account_physical_attempts env body s = (r, s')"
  shows "run_closed env (if isl r \<and> calm env then unevaluated else UNIV) attempts s s'"
proof -
  note run = decorated [OF assms(1), of "js_claims s" "js_finishes s" "js_ledger s" "journaled s"]
  have "settled env (if isl r \<and> calm env then unevaluated else UNIV) attempts (js_claims s) (js_finishes s)
      (journaled s) (s'\<lparr>js_ledger := None\<rparr>) \<and> js_ledger s' = js_ledger s"
  proof (cases r)
    case (Inl e)
    have run': "account_physical_attempts env body s = (Inl e, s')" using assms(2) Inl by simp
    show ?thesis
      unfolding Inl sum.disc using triple_Inl [OF run _ run'] by simp
  next
    case (Inr x)
    have run': "account_physical_attempts env body s = (Inr x, s')" using assms(2) Inr by simp
    show ?thesis
      unfolding Inr sum.disc using triple_Inr [OF run _ run'] by simp
  qed
  then show ?thesis by (rule run_closed_settled)
qed

end

end
