(* ===== verification/Transactions.thy ===== *)
theory Transactions
  imports Attempts Policy Metrics
begin

text \<open>
  \<open>TransactionExecutor.execute\<close> of \<open>src/drc_agent/backends/transaction.py\<close>: the only way in which a patch
  plan becomes a verified snapshot. One run prepares a workspace, applies the patch, runs the tools
  in a fixed order until one of them fails, judges the evidence by the acceptance gate, and commits
  the attempted snapshot or goes back to the current one.

  The backend, the report adapter, the artifact store, the compiler of patch plans and the file
  system are the environment \<open>tx_env\<close>: each answer depends on the number of outside calls made so far,
  and each may be an exception. What is written to the store and told to the workspace is logged in
  the state. Paths are strings.
\<close>

section \<open>What a run is given\<close>

text \<open>The arguments of \<open>build_logical_evidence_key\<close>.\<close>

record evidence_inputs =
  ein_parent_script_sha256 :: "string"
  ein_parent_gds_sha256 :: "string option"
  ein_parent_drc_sha256 :: "string option"
  ein_connectivity_reference_sha256 :: "string option"
  ein_rule_deck_sha256 :: "string"
  ein_evaluator_hash :: "string option"
  ein_sanity_helper_sha256 :: "string option"
  ein_connectivity_helper_sha256 :: "string option"
  ein_backend_image :: "string"
  ein_backend_image_digest :: "string"
  ein_verification_policy_hash :: "string"
  ein_patch_plan_sha256 :: "string"
  ein_physical_effect_sha256 :: "string option"
  ein_target_violation_id :: "string option"

record violation_delta =
  vd_removed_violation_ids :: "string list"
  vd_new_violation_ids :: "string list"
  vd_removed_marker_fingerprints :: "string list"
  vd_new_marker_fingerprints :: "string list"

datatype tool_call = CallValidateScript | CallLayout | CallDrc | CallDrcRetry | CallSanity | CallConnectivity

type_synonym lineage = "(string \<times> json) list"

text \<open>
  \<open>te_image_digest\<close> and \<open>te_remap\<close> are \<open>None\<close> for a backend without the method; \<open>te_is_klayout\<close> is
  \<open>isinstance(self.backend, KLayoutBackend)\<close>.
\<close>

record tx_env = journal_env +
  te_hash :: "json \<Rightarrow> string"
  te_str :: "json \<Rightarrow> string"
  te_plan_dump :: "patch_plan \<Rightarrow> json"
  te_acceptance_dump :: "acceptance_config \<Rightarrow> json"
  te_score_dump :: "repair_score \<Rightarrow> json"
  te_ref_dump :: "artifact_ref \<Rightarrow> json"
  te_protocol :: "string"
  te_is_klayout :: "bool"
  te_image :: "string"
  te_image_digest :: "(nat \<Rightarrow> exn + string) option"
  te_logical_key :: "nat \<Rightarrow> evidence_inputs \<Rightarrow> exn + string"
  te_file_sha256 :: "nat \<Rightarrow> string \<Rightarrow> exn + string"
  te_evaluator_hash :: "nat \<Rightarrow> exn + string option"
  te_read_json :: "nat \<Rightarrow> string \<Rightarrow> exn + json"
  te_ref :: "nat \<Rightarrow> string \<Rightarrow> string \<Rightarrow> string \<Rightarrow> exn + artifact_ref"
  te_new_attempt :: "nat \<Rightarrow> string"
  te_now :: "nat \<Rightarrow> string"
  te_prepare :: "nat \<Rightarrow> prepare_request \<Rightarrow> exn + prepared_job"
  te_write_json :: "nat \<Rightarrow> string \<Rightarrow> exn + artifact_ref"
  te_copy :: "nat \<Rightarrow> string \<Rightarrow> string \<Rightarrow> exn + artifact_ref"
  te_control :: "nat \<Rightarrow> exn + unit"
  te_apply_patch :: "nat \<Rightarrow> patch_plan \<Rightarrow> string \<Rightarrow> string \<Rightarrow> layout_object list \<Rightarrow> exn + lineage option"
  te_build_map :: "nat \<Rightarrow> string \<Rightarrow> exn + layout_object list"
  te_write_diff :: "nat \<Rightarrow> string \<Rightarrow> string \<Rightarrow> string \<Rightarrow> exn + unit"
  te_tool :: "nat \<Rightarrow> tool_call \<Rightarrow> prepared_job \<Rightarrow> int \<Rightarrow> exn + tool_result"
  te_validate_lyrpt :: "nat \<Rightarrow> string \<Rightarrow> exn + unit"
  te_convert :: "nat \<Rightarrow> artifact_ref \<Rightarrow> string \<Rightarrow> string \<Rightarrow> exn + artifact_ref"
  te_score :: "nat \<Rightarrow> artifact_ref \<Rightarrow> artifact_ref \<Rightarrow> exn + repair_score"
  te_is_file :: "nat \<Rightarrow> string \<Rightarrow> bool"
  te_is_dir :: "nat \<Rightarrow> string \<Rightarrow> bool"
  te_list_dir :: "nat \<Rightarrow> string \<Rightarrow> exn + string list"
  te_delta :: "nat \<Rightarrow> string \<Rightarrow> string \<Rightarrow> exn + violation_delta"
  te_mark_job :: "nat \<Rightarrow> attempt_lifecycle \<Rightarrow> (string \<times> json) list \<Rightarrow> exn + unit"
  te_collect :: "nat \<Rightarrow> prepared_job \<Rightarrow> string \<Rightarrow> exn + artifact_ref list"
  te_remap :: "(nat \<Rightarrow> tool_result list \<Rightarrow> exn + tool_result list) option"
  te_cleanup :: "nat \<Rightarrow> prepared_job \<Rightarrow> bool \<Rightarrow> exn + unit"

record executor =
  tx_acceptance :: "acceptance_config"
  tx_backend_config :: "backend_config"
  tx_paths :: "(string \<times> string) list"
  tx_store_root :: "string"

record tx_request =
  xq_run_id :: "string"
  xq_case_id :: "string"
  xq_iteration :: "int"
  xq_baseline_snapshot :: "design_snapshot"
  xq_current_snapshot :: "design_snapshot"
  xq_patch_plan :: "patch_plan"
  xq_source_map :: "layout_object list"
  xq_bundle_ids :: "string list"
  xq_artifact_prefix :: "string option"
  xq_job_run_id :: "string option"
  xq_legacy_artifact_prefix :: "string option"
  xq_trace_context :: "trace_context option"
  xq_physical_effect_fingerprint :: "string option"
  xq_retry_of_attempt_id :: "string option"

text \<open>What is written to the store, and the states told to the owner of the workspace.\<close>

datatype stored =
    StoredPlan string patch_plan
  | StoredLineage string lineage
  | StoredTransaction string transaction
  | StoredVerification string verification_result
  | StoredPointer string "(string \<times> json) list"
  | StoredCopy string string

record tx_state = journal_state +
  ts_store :: "stored list"
  ts_job_states :: "(attempt_lifecycle \<times> (string \<times> json) list) list"

type_synonym 'a tx = "(tx_state, exn, 'a) effect"

section \<open>Outside calls\<close>

definition raising :: "'a result \<Rightarrow> 'a tx" where
  "raising r = outside (exn_result r)"

definition value_error :: "string \<Rightarrow> exn" where
  "value_error m = ExnOther KindValue ''ValueError'' m"

text \<open>\<open>sep.join(parts)\<close>, and \<open>a / b / c\<close> of paths.\<close>

fun join_with :: "string \<Rightarrow> string list \<Rightarrow> string" where
  "join_with sep [] = []"
| "join_with sep [p] = p"
| "join_with sep (p # ps) = p @ sep @ join_with sep ps"

definition path_join :: "string list \<Rightarrow> string" where
  "path_join parts = join_with ''/'' parts"

definition now :: "tx_env \<Rightarrow> string tx" where
  "now env = ask (\<lambda>n. Inr (te_now env n))"

definition is_file :: "tx_env \<Rightarrow> string \<Rightarrow> bool tx" where
  "is_file env path = ask (\<lambda>n. Inr (te_is_file env n path))"

definition log_stored :: "stored \<Rightarrow> unit tx" where
  "log_stored e = modify (\<lambda>s. s\<lparr>ts_store := ts_store s @ [e]\<rparr>)"

text \<open>\<open>store.write_json\<close> of an entry, and \<open>store.copy\<close>.\<close>

fun stored_path :: "stored \<Rightarrow> string" where
  "stored_path (StoredPlan p _) = p"
| "stored_path (StoredLineage p _) = p"
| "stored_path (StoredTransaction p _) = p"
| "stored_path (StoredVerification p _) = p"
| "stored_path (StoredPointer p _) = p"
| "stored_path (StoredCopy _ p) = p"

definition write_json :: "tx_env \<Rightarrow> stored \<Rightarrow> artifact_ref tx" where
  "write_json env e =
     and_then (ask (\<lambda>n. te_write_json env n (stored_path e))) (\<lambda>ref.
     and_then (log_stored e) (\<lambda>_. pass ref))"

definition copy_file :: "tx_env \<Rightarrow> string \<Rightarrow> string \<Rightarrow> artifact_ref tx" where
  "copy_file env source target =
     and_then (ask (\<lambda>n. te_copy env n source target)) (\<lambda>ref.
     and_then (log_stored (StoredCopy source target)) (\<lambda>_. pass ref))"

text \<open>\<open>mark_job_state\<close>, which only the KLayout backend has.\<close>

definition mark_job :: "tx_env \<Rightarrow> attempt_lifecycle \<Rightarrow> (string \<times> json) list \<Rightarrow> unit tx" where
  "mark_job env state details =
     (if te_is_klayout env
      then and_then (ask (\<lambda>n. te_mark_job env n state details)) (\<lambda>_.
           modify (\<lambda>s. s\<lparr>ts_job_states := ts_job_states s @ [(state, details)]\<rparr>))
      else pass ())"

text \<open>The failures that the executor raises itself.\<close>

definition backend_failure ::
    "tx_env \<Rightarrow> string \<Rightarrow> failure_code \<Rightarrow> bool \<Rightarrow> string option \<Rightarrow> string \<Rightarrow> exn" where
  "backend_failure env message code retryable original stage =
     ExnInfrastructure (infrastructure_failure message code retryable ''KLayoutBackend'' (te_image env)
       None None original stage)"

section \<open>Before the attempt\<close>

definition path_item :: "executor \<Rightarrow> string \<Rightarrow> string tx" where
  "path_item ex k = (case map_of (tx_paths ex) k of None \<Rightarrow> raising (Inl (KeyError k)) | Some p \<Rightarrow> pass p)"

definition path_sha256 :: "tx_env \<Rightarrow> executor \<Rightarrow> string \<Rightarrow> string tx" where
  "path_sha256 env ex k = and_then (path_item ex k) (\<lambda>p. ask (\<lambda>n. te_file_sha256 env n p))"

definition optional_sha256 :: "tx_env \<Rightarrow> executor \<Rightarrow> string \<Rightarrow> string option tx" where
  "optional_sha256 env ex k =
     (case map_of (tx_paths ex) k of
        None \<Rightarrow> pass None
      | Some p \<Rightarrow> and_then (ask (\<lambda>n. te_file_sha256 env n p)) (\<lambda>h. pass (Some h)))"

definition execution_trace :: "tx_request \<Rightarrow> trace_context" where
  "execution_trace req =
     (case xq_trace_context req of
        Some t \<Rightarrow> t
      | None \<Rightarrow>
          \<lparr>ec_protocol_version = ''p3.2-execution-v1'', ec_formal_run_id = xq_run_id req,
           ec_execution_epoch = ''epoch_legacy_call'', ec_formal_iteration = xq_iteration req,
           ec_window_id = None, ec_window_index = None, ec_subgraph_id = None, ec_region_id = None,
           ec_plan_id = None, ec_plan_revision = 0, ec_target_violation_id = None,
           ec_root_proposal_id = None, ec_proposal_id = None,
           ec_parent_snapshot_id = Some (ds_snapshot_id (xq_current_snapshot req)), ec_depth = 0,
           ec_purpose = PurposeMaster, ec_invocation_id = None\<rparr>)"

definition image_digest :: "tx_env \<Rightarrow> string tx" where
  "image_digest env =
     and_then (caught (case te_image_digest env of
         None \<Rightarrow> pass (te_hash env (JStr (te_image env)))
       | Some f \<Rightarrow> ask f)) (\<lambda>r.
       case r of
         Inr d \<Rightarrow> pass d
       | Inl e \<Rightarrow>
           if is_runtime_error e
           then throw (backend_failure env (exn_message e) CodeEdaUnavailable False (Some (exn_class e)) ''EDA_PREFLIGHT'')
           else throw e)"

text \<open>\<open>drc_statistics\<close> of a file.\<close>

definition file_statistics :: "tx_env \<Rightarrow> string \<Rightarrow> drc_stats tx" where
  "file_statistics env path =
     and_then (ask (\<lambda>n. te_read_json env n path)) (\<lambda>data. raising (drc_statistics (te_str env) data))"

text \<open>The patterns of the two identities of \<open>PrepareJobRequest\<close>.\<close>

definition hex_pattern :: "string \<Rightarrow> nat \<Rightarrow> string \<Rightarrow> bool" where
  "hex_pattern lead n v \<longleftrightarrow>
     starts_with v lead \<and> length v = length lead + n \<and>
     (\<forall>c \<in> set (drop (length lead) v). is_lower_hex c)"

definition validate_prepare_request :: "prepare_request \<Rightarrow> prepare_request result" where
  "validate_prepare_request q =
     (if (case pq_logical_evidence_key q of None \<Rightarrow> False | Some k \<Rightarrow> \<not> hex_pattern [] 64 k) \<or>
         (case pq_requested_attempt_id q of None \<Rightarrow> False | Some i \<Rightarrow> \<not> hex_pattern ''attempt_'' 32 i)
      then Inl (ValueError ''String should match pattern'') else Inr q)"

record tx_context =
  cx_trace :: "trace_context"
  cx_key :: "string"
  cx_plan_sha256 :: "string"
  cx_baseline :: "drc_stats"
  cx_request :: "prepare_request"

definition ref_sha256 :: "artifact_ref option \<Rightarrow> string option" where
  "ref_sha256 r = map_option ar_sha256 r"

definition logical_key :: "tx_env \<Rightarrow> executor \<Rightarrow> tx_request \<Rightarrow> string \<Rightarrow> string \<Rightarrow> string tx" where
  "logical_key env ex req plan_sha policy_hash =
     (let current = xq_current_snapshot req in
      and_then (image_digest env) (\<lambda>digest.
      and_then (path_sha256 env ex ''rule_deck'') (\<lambda>deck.
      and_then (ask (te_evaluator_hash env)) (\<lambda>evaluator.
      and_then (optional_sha256 env ex ''sanity_helper'') (\<lambda>sanity.
      and_then (optional_sha256 env ex ''connectivity_helper'') (\<lambda>connectivity.
      ask (\<lambda>n. te_logical_key env n
        \<lparr>ein_parent_script_sha256 = ar_sha256 (ds_script_ref current),
         ein_parent_gds_sha256 = ref_sha256 (ds_gds_ref current),
         ein_parent_drc_sha256 = ref_sha256 (ds_drc_ref current),
         ein_connectivity_reference_sha256 = ref_sha256 (ds_connectivity_ref current),
         ein_rule_deck_sha256 = deck, ein_evaluator_hash = evaluator,
         ein_sanity_helper_sha256 = sanity, ein_connectivity_helper_sha256 = connectivity,
         ein_backend_image = te_image env, ein_backend_image_digest = digest,
         ein_verification_policy_hash = policy_hash, ein_patch_plan_sha256 = plan_sha,
         ein_physical_effect_sha256 = xq_physical_effect_fingerprint req,
         ein_target_violation_id = ec_target_violation_id (execution_trace req)\<rparr>)))))))"

text \<open>
  \<open>PrepareJobRequest(...)\<close>: the GDS and the DRC report of the snapshot are required there.
\<close>

definition required_ref :: "artifact_ref option \<Rightarrow> artifact_ref tx" where
  "required_ref r = (case r of None \<Rightarrow> throw (value_error ''ArtifactRef'') | Some a \<Rightarrow> pass a)"

definition preflight :: "tx_env \<Rightarrow> executor \<Rightarrow> tx_request \<Rightarrow> tx_context tx" where
  "preflight env ex req =
     (let current = xq_current_snapshot req; trace = execution_trace req;
          plan_sha = te_hash env (te_plan_dump env (xq_patch_plan req));
          policy_hash = te_hash env (te_acceptance_dump env (tx_acceptance ex)) in
      and_then (logical_key env ex req plan_sha policy_hash) (\<lambda>key.
      and_then (case ds_drc_ref current of
          None \<Rightarrow> raising (Inl (AttributeError ''path'')) | Some r \<Rightarrow> pass (ar_path r)) (\<lambda>current_drc.
      and_then (file_statistics env current_drc) (\<lambda>base_stats.
      and_then (path_item ex ''rule_deck'') (\<lambda>deck.
      and_then (ask (\<lambda>n. te_ref env n deck ''initialize_case'' ''application/x-klayout-drc'')) (\<lambda>deck_ref.
      and_then (path_item ex ''connectivity'') (\<lambda>connectivity.
      and_then (ask (\<lambda>n. te_ref env n connectivity ''initialize_case'' ''application/json'')) (\<lambda>connectivity_ref.
      and_then (ask (te_evaluator_hash env)) (\<lambda>evaluator.
      and_then (ask (\<lambda>n. Inr (te_new_attempt env n))) (\<lambda>attempt_id.
      and_then (required_ref (ds_gds_ref current)) (\<lambda>gds.
      and_then (required_ref (ds_drc_ref current)) (\<lambda>drc.
      and_then (raising (validate_prepare_request
        \<lparr>pq_run_id = (case xq_job_run_id req of
             None \<Rightarrow> xq_run_id req | Some r \<Rightarrow> if r = [] then xq_run_id req else r),
         pq_case_id = xq_case_id req, pq_iteration = xq_iteration req,
         pq_baseline_script = ds_script_ref current, pq_baseline_gds = gds, pq_baseline_drc = drc,
         pq_rule_deck = deck_ref, pq_connectivity = Some connectivity_ref,
         pq_trace_context = Some trace, pq_logical_evidence_key = Some key,
         pq_retry_of_attempt_id = xq_retry_of_attempt_id req, pq_evaluator_hash = evaluator,
         pq_verification_policy_hash = Some policy_hash,
         pq_canonical_patch_effect_sha256 = xq_physical_effect_fingerprint req,
         pq_execution_protocol_version = te_protocol env,
         pq_requested_attempt_id = Some attempt_id\<rparr>)) (\<lambda>request.
      pass \<lparr>cx_trace = trace, cx_key = key, cx_plan_sha256 = plan_sha, cx_baseline = base_stats,
            cx_request = request\<rparr>)))))))))))))"

section \<open>Preparing the workspace\<close>

text \<open>What is raised when the preparation failed and is not tried again.\<close>

definition preparation_failure :: "tx_env \<Rightarrow> preparation_error \<Rightarrow> exn" where
  "preparation_failure env p =
     (if pe_failure_code p = failure_code_value CodeStorageExhausted
      then ExnInfrastructure (infrastructure_pause ''SHARED_STORAGE'' []
        (infrastructure_failure (pe_message p) CodeStorageExhausted True ''KLayoutBackend'' (te_image env)
          None None
          (Some (case pe_cause p of Some c \<Rightarrow> c | None \<Rightarrow> exn_class (ExnPreparation p))) ''PREPARE_JOB''))
      else
        let budget_exhausted = (pe_failure_code p = ''PHYSICAL_ATTEMPT_BUDGET_EXHAUSTED'') in
        backend_failure env (pe_message p)
          (if budget_exhausted then CodeBudgetExhausted else CodeWorkspaceOwnership)
          (pe_retryable p) (Some (exn_class (ExnPreparation p)))
          (if budget_exhausted then ''EDA_ATTEMPT_BUDGET'' else ''PREPARE_JOB''))"

text \<open>The \<open>except\<close> clauses; \<open>retry\<close> is what follows the terminal record of a \<open>JobPreparationError\<close>.\<close>

definition prepare_raised ::
    "tx_env \<Rightarrow> (preparation_error \<Rightarrow> (prepare_request \<times> prepared_job) tx) \<Rightarrow> exn \<Rightarrow>
     (prepare_request \<times> prepared_job) tx" where
  "prepare_raised env retry exc =
     (case exc of
        ExnPreparation p \<Rightarrow>
          and_then (terminal env TerminalExecutionFailure
            [(''failure_domain'', JStr ''INFRASTRUCTURE''), (''failure_code'', JStr (pe_failure_code p)),
             (''failure_stage'', JStr ''PREPARE_JOB''), (''workspace'', JStr (pe_workspace p)),
             (''retryable'', JBool (pe_retryable p))]) (\<lambda>_. retry p)
      | ExnInfrastructure f \<Rightarrow> throw exc
      | _ \<Rightarrow>
          if \<not> is_exception exc then throw exc
          else and_then (storage_pause_of env exc ''PREPARE_JOB'' ''KLayoutBackend'' (te_image env)
              (\<lambda>_. ''PREPARE_JOB'')) (\<lambda>p.
            case p of
              Some f \<Rightarrow> throw (ExnInfrastructure f)
            | None \<Rightarrow> throw (backend_failure env (''WORKSPACE_PREPARATION_FAILED: '' @ exn_message exc)
                CodeWorkspaceOwnership False (Some (exn_class exc)) ''PREPARE_JOB'')))"

text \<open>One round of the loop up to the call of \<open>prepare_job\<close>.\<close>

definition begin_attempt ::
    "tx_env \<Rightarrow> tx_request \<Rightarrow> tx_context \<Rightarrow> prepare_request \<Rightarrow> (exn + prepared_job) tx" where
  "begin_attempt env req cx request =
     (case pq_requested_attempt_id request of
        None \<Rightarrow> raising (Inl (AssertionError ''''))
      | Some attempt_id \<Rightarrow>
          and_then (open_ledger env attempt_id (cx_key cx) (cx_trace cx) (cx_plan_sha256 cx)
            (xq_physical_effect_fingerprint req) (pq_retry_of_attempt_id request)) (\<lambda>_.
          and_then (set_stage ''PREPARE_JOB'' ''INFRASTRUCTURE'') (\<lambda>_.
          caught (ask (\<lambda>n. te_prepare env n request)))))"

text \<open>The loop, with the number of retries that are left (one at the start).\<close>

primrec prepare_loop ::
    "tx_env \<Rightarrow> tx_request \<Rightarrow> tx_context \<Rightarrow> nat \<Rightarrow> prepare_request \<Rightarrow> (prepare_request \<times> prepared_job) tx" where
  "prepare_loop env req cx 0 request =
     and_then (begin_attempt env req cx request) (\<lambda>r.
       case r of
         Inr job \<Rightarrow> pass (request, job)
       | Inl e \<Rightarrow> prepare_raised env (\<lambda>p. throw (preparation_failure env p)) e)"
| "prepare_loop env req cx (Suc retries) request =
     and_then (begin_attempt env req cx request) (\<lambda>r.
       case r of
         Inr job \<Rightarrow> pass (request, job)
       | Inl e \<Rightarrow> prepare_raised env (\<lambda>p.
           if pe_retryable p
           then and_then (ask (\<lambda>n. Inr (te_new_attempt env n))) (\<lambda>attempt_id.
             prepare_loop env req cx retries
               (request\<lparr>pq_requested_attempt_id := Some attempt_id,
                        pq_retry_of_attempt_id := Some (pe_attempt_id p)\<rparr>))
           else throw (preparation_failure env p)) e)"

text \<open>The identity of the attempt that the backend prepared.\<close>

definition claim_job :: "tx_env \<Rightarrow> tx_context \<Rightarrow> string option \<Rightarrow> prepared_job \<Rightarrow> prepared_job tx" where
  "claim_job env cx attempt_id job =
     (if te_is_klayout env
      then if pj_attempt_id job \<noteq> attempt_id
        then throw (backend_failure env ''WORKSPACE_OWNERSHIP_INVALID: backend changed attempt identity''
          CodeWorkspaceOwnership False None ''PREPARE_JOB'')
        else pass job
      else if \<not> opt_truthy (pj_attempt_id job)
        then pass (job\<lparr>pj_attempt_id := attempt_id, pj_logical_evidence_key := Some (cx_key cx),
          pj_execution_epoch := ec_execution_epoch (cx_trace cx), pj_trace_context := Some (cx_trace cx)\<rparr>)
        else pass job)"

section \<open>The transaction and its patch\<close>

text \<open>\<open>f"iterations/iter_{iteration:04d}"\<close>.\<close>

definition pad4 :: "int \<Rightarrow> string" where
  "pad4 k =
     (let digits = show_nat (nat \<bar>k\<bar>); sign = (if k < 0 then ''-'' else []) in
      sign @ replicate (4 - length sign - length digits) CHR ''0'' @ digits)"

definition base_prefix :: "tx_request \<Rightarrow> string" where
  "base_prefix req =
     (case xq_artifact_prefix req of
        Some p \<Rightarrow> if p = [] then ''iterations/iter_'' @ pad4 (xq_iteration req) else p
      | None \<Rightarrow> ''iterations/iter_'' @ pad4 (xq_iteration req))"

text \<open>What the rest of the run refers to.\<close>

record tx_attempt =
  ta_attempt_id :: "string"
  ta_job :: "prepared_job"
  ta_prefix :: "string"
  ta_transaction :: "transaction"
  ta_snapshot_id :: "string"

definition attempt_path :: "tx_attempt \<Rightarrow> string \<Rightarrow> string" where
  "attempt_path a rest = path_join [ta_prefix a, rest]"

definition job_path :: "tx_attempt \<Rightarrow> string list \<Rightarrow> string" where
  "job_path a parts = path_join (pj_host_path (ta_job a) # parts)"

definition patched_script :: "tx_request \<Rightarrow> tx_attempt \<Rightarrow> string" where
  "patched_script req a = job_path a [''layout_script'', xq_case_id req @ ''.py'']"

definition open_transaction ::
    "tx_env \<Rightarrow> tx_request \<Rightarrow> tx_context \<Rightarrow> prepare_request \<Rightarrow> string \<Rightarrow> prepared_job \<Rightarrow> tx_attempt tx" where
  "open_transaction env req cx request attempt_id job =
     and_then (phase_event env ''WORKSPACE_READY''
       [(''workspace'', JStr (pj_host_path job)),
        (''retry_of'', json_opt JStr (pq_retry_of_attempt_id request))]) (\<lambda>_.
     let prefix = path_join [base_prefix req, ''attempts'', attempt_id] in
     and_then (write_json env (StoredPlan (path_join [prefix, ''transaction/patch_plan.json'']) (xq_patch_plan req)))
       (\<lambda>patch_ref.
     and_then (now env) (\<lambda>started.
     let transaction_id = short_id (te_hash env) ''transaction_'' 20
           (JList [JStr (xq_run_id req), JStr attempt_id, JStr (cx_plan_sha256 cx)]);
         tx = \<lparr>tn_transaction_id = transaction_id, tn_run_id = xq_run_id req, tn_case_id = xq_case_id req,
           tn_iteration = xq_iteration req,
           tn_base_snapshot_id = ds_snapshot_id (xq_current_snapshot req),
           tn_bundle_ids = sort (xq_bundle_ids req), tn_patch_plan_ref = patch_ref,
           tn_job_dir = pj_host_path job, tn_status = TxPrepared, tn_started_at = started,
           tn_finished_at = None, tn_tool_results = [], tn_verification_result_ref = None,
           tn_decision_reasons = [], tn_rollback_reason = None,
           tn_execution_protocol_version = te_protocol env, tn_attempt_id = Some attempt_id,
           tn_logical_evidence_key = Some (cx_key cx),
           tn_execution_epoch = Some (ec_execution_epoch (cx_trace cx)),
           tn_purpose = Some (purpose_value (ec_purpose (cx_trace cx))), tn_terminal_status = None\<rparr> in
     and_then (phase_event env ''PATCH_REGISTERED'' [(''patch_plan_ref'', te_ref_dump env patch_ref)]) (\<lambda>_.
     pass \<lparr>ta_attempt_id = attempt_id, ta_job = job, ta_prefix = prefix,
           ta_transaction = tx\<lparr>tn_job_dir := pj_host_path job, tn_status := TxRunning\<rparr>,
           ta_snapshot_id = short_id (te_hash env) ''snapshot_'' 20
             (JList [JStr transaction_id, JStr ''attempted''])\<rparr>))))"

text \<open>\<open>_post_patch_object_matches\<close>.\<close>

definition post_patch_object_matches :: "layout_object option \<Rightarrow> layout_object list \<Rightarrow> string \<Rightarrow> bool" where
  "post_patch_object_matches original patched expected_hash =
     (case original of
        None \<Rightarrow> False
      | Some x \<Rightarrow>
          if \<exists>y \<in> set patched. lo_source_anchor_id y = lo_source_anchor_id x \<and> lo_geometry_hash y = expected_hash
          then True
          else if \<not> opt_truthy (lo_source_variable x) \<or> \<not> opt_truthy (lo_source_cell x) then False
          else
            let stable = filter (\<lambda>y. lo_source_variable y = lo_source_variable x \<and>
                  lo_source_cell y = lo_source_cell x \<and> lo_layer y = lo_layer x) patched
            in (case stable of [y] \<Rightarrow> lo_geometry_hash y = expected_hash | _ \<Rightarrow> False))"

fun check_after_hashes ::
    "(string \<times> layout_object) list \<Rightarrow> layout_object list \<Rightarrow> (string \<times> string) list \<Rightarrow> unit result" where
  "check_after_hashes originals patched [] = Inr ()"
| "check_after_hashes originals patched ((object_id, expected_hash) # rest) =
     (if post_patch_object_matches (map_of originals object_id) patched expected_hash
      then check_after_hashes originals patched rest
      else Inl (ValueError (''POST_PATCH_GEOMETRY_HASH_MISMATCH: '' @ object_id)))"

definition apply_patch :: "tx_env \<Rightarrow> tx_request \<Rightarrow> tx_attempt \<Rightarrow> (lineage option \<times> artifact_ref option) tx" where
  "apply_patch env req a =
     and_then (ask (te_control env)) (\<lambda>_.
     and_then (ask (\<lambda>n. te_apply_patch env n (xq_patch_plan req)
         (ar_path (ds_script_ref (xq_current_snapshot req))) (patched_script req a) (xq_source_map req))) (\<lambda>lineage.
     and_then (case lineage of
         None \<Rightarrow> pass None
       | Some l \<Rightarrow>
           and_then (write_json env (StoredLineage
             (attempt_path a (''attempted/'' @ xq_case_id req @ ''.lineage.json'')) l)) (\<lambda>r. pass (Some r))) (\<lambda>lineage_ref.
     and_then (ask (\<lambda>n. te_build_map env n (patched_script req a))) (\<lambda>patched.
     and_then (raising (check_after_hashes (dict_of (map (\<lambda>x. (lo_object_id x, x)) (xq_source_map req)))
         patched (pp_expected_object_after_hashes (xq_patch_plan req)))) (\<lambda>_.
     pass (lineage, lineage_ref))))))"

definition transaction_path :: "tx_attempt \<Rightarrow> string" where
  "transaction_path a = attempt_path a ''transaction/transaction.json''"

definition patch_failed :: "tx_env \<Rightarrow> tx_attempt \<Rightarrow> exn \<Rightarrow> 'a tx" where
  "patch_failed env a exc =
     and_then (now env) (\<lambda>finished.
     let tx = (ta_transaction a)\<lparr>tn_status := TxFailed, tn_finished_at := Some finished,
           tn_terminal_status := Some TerminalExecutionFailure,
           tn_rollback_reason := Some ''PATCH_APPLICATION_FAILED''\<rparr> in
     and_then (write_json env (StoredTransaction (transaction_path a) tx)) (\<lambda>_.
     and_then (mark_job env LifeTerminal
       [(''terminal_status'', JStr (terminal_status_value TerminalExecutionFailure)),
        (''failure_code'', JStr ''PATCH_APPLICATION_FAILED'')]) (\<lambda>_.
     throw (value_error (''PATCH_APPLICATION_FAILED: '' @ exn_message exc)))))"

definition patch_stage :: "tx_env \<Rightarrow> tx_request \<Rightarrow> tx_attempt \<Rightarrow> (lineage option \<times> artifact_ref option) tx" where
  "patch_stage env req a =
     and_then (set_stage ''APPLY_PATCH'' ''CANDIDATE'') (\<lambda>_.
     and_then (caught (apply_patch env req a)) (\<lambda>r.
     and_then (case r of
         Inr x \<Rightarrow> pass x
       | Inl e \<Rightarrow> if is_exception e then patch_failed env a e else throw e) (\<lambda>lineage.
     and_then (ask (\<lambda>n. te_write_diff env n (ar_path (ds_script_ref (xq_current_snapshot req)))
         (patched_script req a) (attempt_path a ''transaction/combined.diff''))) (\<lambda>_.
     and_then (copy_file env (patched_script req a)
       (attempt_path a (''attempted/'' @ xq_case_id req @ ''.py''))) (\<lambda>_.
     pass lineage)))))"

section \<open>The stages of the verification\<close>

record progress =
  pg_tools :: "tool_result list"
  pg_failure :: "(verification_outcome \<times> string) option"
  pg_failure_stage :: "string option"
  pg_script :: "evidence_validity"
  pg_layout :: "evidence_validity"
  pg_drc :: "evidence_validity"
  pg_sanity :: "evidence_validity"
  pg_connectivity :: "evidence_validity"
  pg_report_path :: "string"
  pg_score :: "repair_score option"
  pg_sanity_data :: "json"
  pg_connectivity_data :: "json"

definition drc_report_path :: "tx_request \<Rightarrow> tx_attempt \<Rightarrow> string" where
  "drc_report_path req a = job_path a [''report'', xq_case_id req @ ''.drc.json'']"

definition initial_progress :: "tx_request \<Rightarrow> tx_attempt \<Rightarrow> progress" where
  "initial_progress req a =
     \<lparr>pg_tools = [], pg_failure = None, pg_failure_stage = None, pg_script = EvidenceNotEvaluated,
      pg_layout = EvidenceNotEvaluated, pg_drc = EvidenceNotEvaluated, pg_sanity = EvidenceNotEvaluated,
      pg_connectivity = EvidenceNotEvaluated,
      pg_report_path = job_path a [''report'', xq_case_id req @ ''.lyrpt''],
      pg_score = None, pg_sanity_data = JObj [], pg_connectivity_data = JObj []\<rparr>"

text \<open>\<open>failure = ...\<close>: a cancelled tool is a cancellation, any other failure has the stage's code.\<close>

definition fail_at :: "string \<Rightarrow> verification_outcome \<Rightarrow> string \<Rightarrow> progress \<Rightarrow> progress" where
  "fail_at stage outcome code p = p\<lparr>pg_failure := Some (outcome, code), pg_failure_stage := Some stage\<rparr>"

definition tool_failed :: "string \<Rightarrow> tool_result \<Rightarrow> verification_outcome \<Rightarrow> string \<Rightarrow> progress \<Rightarrow> progress" where
  "tool_failed stage r outcome code =
     (if tl_status r = ToolCancelled then fail_at stage OutcomeCancelled ''CANCELLED''
      else fail_at stage outcome code)"

definition call_tool :: "tx_env \<Rightarrow> tx_attempt \<Rightarrow> tool_call \<Rightarrow> int \<Rightarrow> tool_result tx" where
  "call_tool env a call timeout = ask (\<lambda>n. te_tool env n call (ta_job a) timeout)"

definition add_tool :: "tool_result \<Rightarrow> progress \<Rightarrow> progress" where
  "add_tool r p = p\<lparr>pg_tools := pg_tools p @ [r]\<rparr>"

definition script_stage :: "tx_env \<Rightarrow> executor \<Rightarrow> tx_attempt \<Rightarrow> progress \<Rightarrow> progress tx" where
  "script_stage env ex a p =
     and_then (set_stage ''VALIDATE_SCRIPT'' ''EXECUTION'') (\<lambda>_.
     and_then (call_tool env a CallValidateScript (bk_layout_timeout_seconds (tx_backend_config ex))) (\<lambda>r.
     pass (if tl_status r \<noteq> ToolSuccess
       then tool_failed ''VALIDATE_SCRIPT'' r OutcomeSyntaxFailure ''SCRIPT_VALIDATION_FAILED''
         (add_tool r p\<lparr>pg_script := EvidenceError\<rparr>)
       else add_tool r p\<lparr>pg_script := EvidenceValid\<rparr>)))"

definition layout_stage :: "tx_env \<Rightarrow> executor \<Rightarrow> tx_attempt \<Rightarrow> progress \<Rightarrow> progress tx" where
  "layout_stage env ex a p =
     and_then (set_stage ''GENERATE_LAYOUT'' ''EXECUTION'') (\<lambda>_.
     and_then (call_tool env a CallLayout (bk_layout_timeout_seconds (tx_backend_config ex))) (\<lambda>r.
     if tl_status r \<noteq> ToolSuccess
     then pass (tool_failed ''GENERATE_LAYOUT'' r OutcomeLayoutGenerationFailure ''LAYOUT_GENERATION_FAILED''
       (add_tool r p\<lparr>pg_layout := EvidenceError\<rparr>))
     else and_then (phase_event env ''LAYOUT_GENERATED'' []) (\<lambda>_.
       pass (add_tool r p\<lparr>pg_layout := EvidenceValid\<rparr>))))"

definition drc_stage :: "tx_env \<Rightarrow> executor \<Rightarrow> tx_attempt \<Rightarrow> progress \<Rightarrow> progress tx" where
  "drc_stage env ex a p =
     and_then (set_stage ''RUN_DRC'' ''EXECUTION'') (\<lambda>_.
     and_then (call_tool env a CallDrc (bk_drc_timeout_seconds (tx_backend_config ex))) (\<lambda>r.
     pass (if tl_status r \<noteq> ToolSuccess
       then tool_failed ''RUN_DRC'' r OutcomeDrcExecutionFailure ''DRC_EXECUTION_FAILED''
         (add_tool r p\<lparr>pg_drc := EvidenceError\<rparr>)
       else add_tool r p)))"

text \<open>
  The report is parsed; one that is not valid is made a second time, and the second one replaces it.
\<close>

definition check_retry :: "tx_env \<Rightarrow> tool_result \<Rightarrow> string \<Rightarrow> unit tx" where
  "check_retry env r path =
     (if tl_status r \<noteq> ToolSuccess then throw (value_error ''retry execution failed'')
      else ask (\<lambda>n. te_validate_lyrpt env n path))"

definition retry_report :: "tx_env \<Rightarrow> executor \<Rightarrow> tx_request \<Rightarrow> tx_attempt \<Rightarrow> progress \<Rightarrow> progress tx" where
  "retry_report env ex req a p =
     and_then (call_tool env a CallDrcRetry (bk_drc_timeout_seconds (tx_backend_config ex))) (\<lambda>r.
     let retry_path = job_path a [''report'', xq_case_id req @ ''.retry.lyrpt''] in
     and_then (caught (check_retry env r retry_path)) (\<lambda>v.
       case v of
         Inr _ \<Rightarrow> pass (add_tool r p\<lparr>pg_report_path := retry_path\<rparr>)
       | Inl e \<Rightarrow>
           if is_value_error e
           then pass (fail_at ''VALIDATE_DRC_REPORT'' OutcomeDrcExecutionFailure ''INVALID_LYRPT_XML_AFTER_RETRY''
             (add_tool r p\<lparr>pg_drc := EvidenceError\<rparr>))
           else throw e))"

definition report_stage :: "tx_env \<Rightarrow> executor \<Rightarrow> tx_request \<Rightarrow> tx_attempt \<Rightarrow> progress \<Rightarrow> progress tx" where
  "report_stage env ex req a p =
     and_then (set_stage ''VALIDATE_DRC_REPORT'' ''EXECUTION'') (\<lambda>_.
     and_then (caught (ask (\<lambda>n. te_validate_lyrpt env n (pg_report_path p)))) (\<lambda>v.
       case v of
         Inr _ \<Rightarrow> pass p
       | Inl e \<Rightarrow> if is_value_error e then retry_report env ex req a p else throw e))"

text \<open>
  Conversion and score. The score is kept when the journal entry that follows it cannot be written.
\<close>

definition convert_report :: "tx_env \<Rightarrow> tx_request \<Rightarrow> tx_attempt \<Rightarrow> progress \<Rightarrow> repair_score tx" where
  "convert_report env req a p =
     and_then (ask (\<lambda>n. te_ref env n (pg_report_path p) ''KLayoutBackend.run_drc'' ''application/xml'')) (\<lambda>lyrpt.
     and_then (ask (\<lambda>n. te_convert env n lyrpt (patched_script req a) (drc_report_path req a))) (\<lambda>attempted.
     and_then (case ds_drc_ref (xq_current_snapshot req) of
         None \<Rightarrow> raising (Inl (AttributeError ''verify'')) | Some r \<Rightarrow> pass r) (\<lambda>current.
     ask (\<lambda>n. te_score env n current attempted))))"

definition convert_failed :: "exn \<Rightarrow> progress \<Rightarrow> progress tx" where
  "convert_failed e p =
     (if is_exception e
      then pass (fail_at ''CONVERT_DRC_REPORT'' OutcomeDrcExecutionFailure (''EVALUATOR_FAILURE_'' @ exn_class e)
        (p\<lparr>pg_drc := EvidenceError\<rparr>))
      else throw e)"

definition convert_stage :: "tx_env \<Rightarrow> tx_request \<Rightarrow> tx_attempt \<Rightarrow> progress \<Rightarrow> progress tx" where
  "convert_stage env req a p =
     and_then (set_stage ''CONVERT_DRC_REPORT'' ''EXECUTION'') (\<lambda>_.
     and_then (caught (convert_report env req a p)) (\<lambda>r.
       case r of
         Inl e \<Rightarrow> convert_failed e p
       | Inr score \<Rightarrow>
           and_then (caught (phase_event env ''DRC_VERIFIED'' [])) (\<lambda>v.
             case v of
               Inl e \<Rightarrow> convert_failed e (p\<lparr>pg_score := Some score\<rparr>)
             | Inr _ \<Rightarrow> pass (p\<lparr>pg_score := Some score, pg_drc := EvidenceValid\<rparr>))))"

text \<open>A result file of a tool: \<open>except (OSError, ValueError, json.JSONDecodeError)\<close>.\<close>

definition read_evidence :: "tx_env \<Rightarrow> string \<Rightarrow> (exn + json) tx" where
  "read_evidence env path =
     and_then (caught (and_then (is_file env path) (\<lambda>present.
       if \<not> present then throw (ExnOther KindOs ''FileNotFoundError'' path)
       else ask (\<lambda>n. te_read_json env n path)))) (\<lambda>r.
       case r of
         Inr data \<Rightarrow> pass (Inr data)
       | Inl e \<Rightarrow> if is_os_error e \<or> is_value_error e then pass (Inl e) else throw e)"

definition sanity_stage :: "tx_env \<Rightarrow> executor \<Rightarrow> tx_request \<Rightarrow> tx_attempt \<Rightarrow> progress \<Rightarrow> progress tx" where
  "sanity_stage env ex req a p =
     and_then (set_stage ''SANITY'' ''EXECUTION'') (\<lambda>_.
     and_then (path_item ex ''sanity_helper'') (\<lambda>_.
     and_then (path_item ex ''connectivity_helper'') (\<lambda>_.
     and_then (case ds_gds_ref (xq_baseline_snapshot req) of
         None \<Rightarrow> raising (Inl (AttributeError ''path'')) | Some r \<Rightarrow> pass r) (\<lambda>_.
     and_then (call_tool env a CallSanity (bk_connectivity_timeout_seconds (tx_backend_config ex))) (\<lambda>r.
     if tl_status r \<noteq> ToolSuccess
     then pass (tool_failed ''SANITY'' r OutcomeGdsSanityFailure ''SANITY_EXECUTION_FAILED''
       (add_tool r p\<lparr>pg_sanity := EvidenceError\<rparr>))
     else and_then (read_evidence env (job_path a [''report'', ''sanity.json''])) (\<lambda>v.
       case v of
         Inr data \<Rightarrow> pass (add_tool r p\<lparr>pg_sanity_data := data, pg_sanity := EvidenceValid\<rparr>)
       | Inl e \<Rightarrow> pass (fail_at ''SANITY_EVIDENCE'' OutcomeGdsSanityFailure
           (''SANITY_EVIDENCE_INVALID_'' @ exn_class e) (add_tool r p\<lparr>pg_sanity := EvidenceError\<rparr>))))))))"

definition connectivity_stage :: "tx_env \<Rightarrow> executor \<Rightarrow> tx_attempt \<Rightarrow> progress \<Rightarrow> progress tx" where
  "connectivity_stage env ex a p =
     and_then (set_stage ''CONNECTIVITY'' ''EXECUTION'') (\<lambda>_.
     and_then (path_item ex ''connectivity_helper'') (\<lambda>_.
     and_then (call_tool env a CallConnectivity (bk_connectivity_timeout_seconds (tx_backend_config ex))) (\<lambda>r.
     if tl_status r \<noteq> ToolSuccess
     then pass (tool_failed ''CONNECTIVITY'' r OutcomeConnectivityFailure ''CONNECTIVITY_EXECUTION_FAILED''
       (add_tool r p\<lparr>pg_connectivity := EvidenceError\<rparr>))
     else and_then (read_evidence env (job_path a [''connectivity'', ''result.json''])) (\<lambda>v.
       case v of
         Inr data \<Rightarrow> pass (add_tool r p\<lparr>pg_connectivity_data := data, pg_connectivity := EvidenceValid\<rparr>)
       | Inl e \<Rightarrow> pass (fail_at ''CONNECTIVITY_EVIDENCE'' OutcomeConnectivityFailure
           (''CONNECTIVITY_EVIDENCE_INVALID_'' @ exn_class e) (add_tool r p\<lparr>pg_connectivity := EvidenceError\<rparr>))))))"

text \<open>\<open>if failure is None: ...\<close>.\<close>

definition unless_failed :: "(progress \<Rightarrow> progress tx) \<Rightarrow> progress \<Rightarrow> progress tx" where
  "unless_failed stage p = (if pg_failure p = None then stage p else pass p)"

definition run_stages :: "tx_env \<Rightarrow> executor \<Rightarrow> tx_request \<Rightarrow> tx_attempt \<Rightarrow> progress tx" where
  "run_stages env ex req a =
     and_then (script_stage env ex a (initial_progress req a)) (\<lambda>p.
     and_then (unless_failed (layout_stage env ex a) p) (\<lambda>p.
     and_then (unless_failed (drc_stage env ex a) p) (\<lambda>p.
     and_then (unless_failed (report_stage env ex req a) p) (\<lambda>p.
     and_then (unless_failed (convert_stage env req a) p) (\<lambda>p.
     and_then (unless_failed (sanity_stage env ex req a) p) (\<lambda>p.
     unless_failed (connectivity_stage env ex a) p))))))"

section \<open>Evidence and verdict\<close>

definition empty_delta :: violation_delta where
  "empty_delta = \<lparr>vd_removed_violation_ids = [], vd_new_violation_ids = [],
     vd_removed_marker_fingerprints = [], vd_new_marker_fingerprints = []\<rparr>"

text \<open>The identities are kept only when their number is the official one.\<close>

definition official_delta :: "repair_score \<Rightarrow> violation_delta \<Rightarrow> violation_delta" where
  "official_delta score d = d\<lparr>
     vd_removed_violation_ids :=
       (if int (length (vd_removed_violation_ids d)) \<noteq> osc_removed_violations score then []
        else vd_removed_violation_ids d),
     vd_new_violation_ids :=
       (if int (length (vd_new_violation_ids d)) \<noteq> osc_new_violations score then []
        else vd_new_violation_ids d)\<rparr>"

definition delta_stage :: "tx_env \<Rightarrow> tx_request \<Rightarrow> tx_attempt \<Rightarrow> string \<Rightarrow> progress \<Rightarrow> violation_delta tx" where
  "delta_stage env req a current_drc p =
     (case pg_score p of
        Some score \<Rightarrow>
          if pg_drc p = EvidenceValid
          then and_then (set_stage ''DRC_DELTA'' ''EXECUTION'') (\<lambda>_.
               and_then (ask (\<lambda>n. te_delta env n current_drc (drc_report_path req a))) (\<lambda>d.
               pass (official_delta score d)))
          else pass empty_delta
      | None \<Rightarrow> pass empty_delta)"

definition validities :: "progress \<Rightarrow> evidence_validity list" where
  "validities p = [pg_script p, pg_layout p, pg_drc p, pg_sanity p, pg_connectivity p]"

definition complete_validity :: "progress \<Rightarrow> bool" where
  "complete_validity p \<longleftrightarrow> (\<forall>v \<in> set (validities p). v = EvidenceValid)"

definition progress_status :: "progress \<Rightarrow> attempt_terminal_status" where
  "progress_status p =
     (if (case pg_failure p of None \<Rightarrow> False | Some f \<Rightarrow> fst f = OutcomeCancelled) then TerminalCancelled
      else if complete_validity p then TerminalEvaluated else TerminalExecutionFailure)"

text \<open>\<open>bool(data.get(key, False))\<close>.\<close>

definition flag_of :: "json \<Rightarrow> string \<Rightarrow> bool result" where
  "flag_of data key = bind_result (get_of_value data key) (\<lambda>v. Inr (json_truthy v))"

definition connectivity_flag :: "json \<Rightarrow> bool result" where
  "connectivity_flag data =
     bind_result (flag_of data ''passed'') (\<lambda>passed.
       if passed then flag_of data ''connectivity_preserved'' else Inr False)"

text \<open>The verification without the fields that tell a failure from a verdict.\<close>

definition verification_base ::
    "tx_env \<Rightarrow> tx_attempt \<Rightarrow> progress \<Rightarrow> violation_delta \<Rightarrow> json list \<Rightarrow> verification_outcome \<Rightarrow>
     bool option \<Rightarrow> bool option \<Rightarrow> bool option \<Rightarrow> int \<Rightarrow> verification_result" where
  "verification_base env a p d identity outcome script sanity connectivity baseline =
     \<lparr>vr_verification_id = short_id (te_hash env) ''verification_'' 20
        (JList (JStr (tn_transaction_id (ta_transaction a)) # identity)),
      vr_transaction_id = tn_transaction_id (ta_transaction a), vr_outcome = outcome,
      vr_script_valid = script, vr_gds_sanity_pass = sanity, vr_connectivity_preserved = connectivity,
      vr_timing_gate_pass = None, vr_baseline_residual_count = baseline,
      vr_residual_violation_count = map_option osc_final_violations (pg_score p),
      vr_new_violation_count = map_option osc_new_violations (pg_score p),
      vr_removed_original_count = map_option osc_removed_violations (pg_score p),
      vr_removed_original_violation_ids = vd_removed_violation_ids d,
      vr_removed_original_marker_fingerprints = vd_removed_marker_fingerprints d,
      vr_new_violation_ids = vd_new_violation_ids d,
      vr_new_marker_fingerprints = vd_new_marker_fingerprints d, vr_evidence_refs = [],
      vr_failure_codes = [], vr_execution_protocol_version = te_protocol env,
      vr_attempt_id = Some (ta_attempt_id a), vr_terminal_status = Some (progress_status p),
      vr_script_validity = pg_script p, vr_layout_validity = pg_layout p, vr_drc_validity = pg_drc p,
      vr_sanity_validity = pg_sanity p, vr_connectivity_validity = pg_connectivity p,
      vr_fresh_evidence_valid = complete_validity p, vr_failure_domain = None,
      vr_failure_stage = None\<rparr>"

text \<open>\<open>value if validity == VALID else None\<close>.\<close>

definition if_valid :: "evidence_validity \<Rightarrow> bool result \<Rightarrow> bool option result" where
  "if_valid v r = (if v = EvidenceValid then bind_result r (\<lambda>b. Inr (Some b)) else Inr None)"

definition script_passed :: "progress \<Rightarrow> bool" where
  "script_passed p = (case pg_tools p of [] \<Rightarrow> False | r # _ \<Rightarrow> tl_status r = ToolSuccess)"

definition failed_verification ::
    "tx_env \<Rightarrow> tx_attempt \<Rightarrow> drc_stats \<Rightarrow> progress \<Rightarrow> violation_delta \<Rightarrow> verification_outcome \<Rightarrow> string \<Rightarrow>
     verification_result result" where
  "failed_verification env a base_stats p d outcome code =
     bind_result (if_valid (pg_sanity p) (flag_of (pg_sanity_data p) ''passed'')) (\<lambda>sanity.
     bind_result (if_valid (pg_connectivity p) (connectivity_flag (pg_connectivity_data p))) (\<lambda>connectivity.
     validate_verification_result
       ((verification_base env a p d [JStr code] outcome
           (if pg_script p \<noteq> EvidenceNotEvaluated then Some (script_passed p) else None)
           sanity connectivity (dst_total_drv base_stats))
        \<lparr>vr_failure_codes := [code], vr_failure_domain := Some ''EXECUTION'',
         vr_failure_stage := pg_failure_stage p\<rparr>)))"

definition verdict :: "bool \<Rightarrow> bool \<Rightarrow> repair_score \<Rightarrow> verification_outcome" where
  "verdict sanity_pass connectivity_preserved score =
     (if \<not> sanity_pass then OutcomeGdsSanityFailure
      else if \<not> connectivity_preserved then OutcomeConnectivityFailure
      else if osc_new_violations score \<noteq> 0 then OutcomeNewDrcIntroduced
      else if osc_removed_violations score \<le> 0 then OutcomeDrcNoProgress
      else OutcomeSuccess)"

definition completed_verification ::
    "tx_env \<Rightarrow> tx_attempt \<Rightarrow> progress \<Rightarrow> violation_delta \<Rightarrow> verification_result result" where
  "completed_verification env a p d =
     bind_result (flag_of (pg_sanity_data p) ''passed'') (\<lambda>sanity_pass.
     bind_result (connectivity_flag (pg_connectivity_data p)) (\<lambda>connectivity_preserved.
     case pg_score p of
       None \<Rightarrow> Inl (AttributeError ''new_violations'')
     | Some score \<Rightarrow>
         let outcome = verdict sanity_pass connectivity_preserved score in
         validate_verification_result
           ((verification_base env a p d
               [te_score_dump env score, pg_sanity_data p, pg_connectivity_data p] outcome
               (Some (script_passed p)) (Some sanity_pass) (Some connectivity_preserved)
               (osc_original_violations score))
            \<lparr>vr_failure_codes := (if outcome = OutcomeSuccess then [] else [outcome_value outcome])\<rparr>)))"

definition verification_of ::
    "tx_env \<Rightarrow> tx_attempt \<Rightarrow> drc_stats \<Rightarrow> progress \<Rightarrow> violation_delta \<Rightarrow> verification_result result" where
  "verification_of env a base_stats p d =
     (case pg_failure p of
        Some f \<Rightarrow> failed_verification env a base_stats p d (fst f) (snd f)
      | None \<Rightarrow> completed_verification env a p d)"

section \<open>Commit or rollback\<close>

definition decide_transaction ::
    "tx_attempt \<Rightarrow> progress \<Rightarrow> acceptance_decision \<Rightarrow> string \<Rightarrow> transaction" where
  "decide_transaction a p decision finished = (ta_transaction a)\<lparr>
     tn_tool_results := pg_tools p, tn_finished_at := Some finished,
     tn_terminal_status := Some (progress_status p),
     tn_status :=
       (if progress_status p = TerminalCancelled then TxCancelled
        else if ad_accepted decision then TxCommitted else TxRolledBack)\<rparr>"

text \<open>\<open>store.copy(...) if path.is_file() else None\<close>.\<close>

definition copy_if_file :: "tx_env \<Rightarrow> string \<Rightarrow> string \<Rightarrow> artifact_ref option tx" where
  "copy_if_file env source target =
     and_then (is_file env source) (\<lambda>present.
       if present then and_then (copy_file env source target) (\<lambda>r. pass (Some r)) else pass None)"

text \<open>The receipt of the compiler, with the status that the evidence gives its correspondences.\<close>

fun mark_correspondences :: "string \<Rightarrow> json list \<Rightarrow> json list result" where
  "mark_correspondences status [] = Inr []"
| "mark_correspondences status (x # xs) =
     (case x of
        JObj d \<Rightarrow> bind_result (mark_correspondences status xs) (\<lambda>ys.
          Inr (JObj (dict_set ''verification_status'' (JStr status) d) # ys))
      | _ \<Rightarrow> Inl (TypeError ''not a mapping''))"

definition final_lineage :: "bool \<Rightarrow> lineage \<Rightarrow> lineage result" where
  "final_lineage fresh l =
     (let verified = dict_set ''physical_eda_verified'' (JBool fresh) l;
          status = (if fresh then ''FRESH_VERIFIED'' else ''SOURCE_REPARSE_VERIFIED_PHYSICAL_EDA_INCOMPLETE'');
          given = (case map_of l ''direct_correspondences'' of None \<Rightarrow> Some [] | Some v \<Rightarrow> json_iter v) in
      case given of
        None \<Rightarrow> Inl (TypeError ''not iterable'')
      | Some items \<Rightarrow> bind_result (mark_correspondences status items) (\<lambda>marked.
          Inr (dict_set ''direct_correspondences'' (JList marked) verified)))"

definition write_final_lineage ::
    "tx_env \<Rightarrow> tx_request \<Rightarrow> tx_attempt \<Rightarrow> bool \<Rightarrow> lineage option \<times> artifact_ref option \<Rightarrow>
     artifact_ref option tx" where
  "write_final_lineage env req a fresh receipt =
     (case fst receipt of
        None \<Rightarrow> pass (snd receipt)
      | Some l \<Rightarrow>
          and_then (raising (final_lineage fresh l)) (\<lambda>final.
          and_then (write_json env (StoredLineage
            (attempt_path a (''attempted/'' @ xq_case_id req @ ''.lineage.final.json'')) final)) (\<lambda>r.
          pass (Some r))))"

definition snapshot_score :: "verification_result \<Rightarrow> (int \<times> int \<times> int) option" where
  "snapshot_score v =
     (case (vr_new_violation_count v, vr_residual_violation_count v, vr_connectivity_preserved v) of
        (Some new, Some residual, Some preserved) \<Rightarrow> Some (if preserved then 1 else 0, - new, - residual)
      | _ \<Rightarrow> None)"

text \<open>\<open>".retry." in report_path.name\<close>.\<close>

fun contains_text :: "string \<Rightarrow> string \<Rightarrow> bool" where
  "contains_text pat [] = (pat = [])"
| "contains_text pat (c # cs) = (take (length pat) (c # cs) = pat \<or> contains_text pat cs)"

definition path_name :: "string \<Rightarrow> string" where
  "path_name path = rev (takeWhile (\<lambda>c. c \<noteq> CHR ''/'') (rev path))"

definition report_suffix :: "string \<Rightarrow> string" where
  "report_suffix path = (if contains_text ''.retry.'' (path_name path) then ''.retry.lyrpt'' else ''.lyrpt'')"

definition persist_attempt ::
    "tx_env \<Rightarrow> tx_request \<Rightarrow> tx_attempt \<Rightarrow> progress \<Rightarrow> verification_result \<Rightarrow>
     lineage option \<times> artifact_ref option \<Rightarrow> (design_snapshot \<times> int option) tx" where
  "persist_attempt env req a p v receipt =
     (let current = xq_current_snapshot req; gds_path = job_path a [''gds'', xq_case_id req @ ''.gds''];
          derived = (fst receipt \<noteq> None) in
      and_then (set_stage ''PERSIST_ATTEMPT'' ''EXECUTION'') (\<lambda>_.
      and_then (copy_file env (patched_script req a)
        (attempt_path a (''attempted/'' @ xq_case_id req @ ''.py''))) (\<lambda>script.
      and_then (copy_if_file env gds_path (attempt_path a (''attempted/'' @ xq_case_id req @ ''.gds''))) (\<lambda>gds.
      and_then (copy_if_file env (pg_report_path p)
        (attempt_path a (''attempted/'' @ xq_case_id req @ report_suffix (pg_report_path p)))) (\<lambda>_.
      and_then (copy_if_file env (drc_report_path req a)
        (attempt_path a (''attempted/'' @ xq_case_id req @ ''.drc.json''))) (\<lambda>drc.
      and_then (if pg_drc p = EvidenceValid
        then and_then (is_file env (drc_report_path req a)) (\<lambda>present.
          if present
          then and_then (file_statistics env (drc_report_path req a)) (\<lambda>st. pass (Some (dst_total_drv st)))
          else pass None)
        else pass None) (\<lambda>drv_total.
      and_then (write_final_lineage env req a (vr_fresh_evidence_valid v) receipt) (\<lambda>lineage_ref.
      pass (\<lparr>ds_snapshot_id = ta_snapshot_id a, ds_script_ref = script, ds_gds_ref = gds,
             ds_drc_ref = drc, ds_connectivity_ref = None, ds_lineage_receipt_ref = lineage_ref,
             ds_parent_snapshot_id = (if derived then Some (ds_snapshot_id current) else None),
             ds_parent_script_ref = (if derived then Some (ds_script_ref current) else None),
             ds_provenance_run_id = (if derived then Some (xq_run_id req) else None),
             ds_provenance_relation_source =
               (if derived then Some ''COMPILER_REPARSE_PARENT_CHILD'' else None),
             ds_score = snapshot_score v\<rparr>, drv_total)))))))))"

definition copy_ref :: "tx_env \<Rightarrow> string \<Rightarrow> artifact_ref option \<Rightarrow> artifact_ref option tx" where
  "copy_ref env target r =
     (case r of
        None \<Rightarrow> pass None
      | Some x \<Rightarrow> and_then (copy_file env (ar_path x) target) (\<lambda>y. pass (Some y)))"

text \<open>\<open>_copy_snapshot\<close>.\<close>

definition copy_snapshot :: "tx_env \<Rightarrow> design_snapshot \<Rightarrow> string \<Rightarrow> string \<Rightarrow> design_snapshot tx" where
  "copy_snapshot env snapshot folder case_id =
     (let target = (\<lambda>ending. path_join [folder, case_id @ ending]) in
      and_then (copy_file env (ar_path (ds_script_ref snapshot)) (target ''.py'')) (\<lambda>script.
      and_then (copy_ref env (target ''.gds'') (ds_gds_ref snapshot)) (\<lambda>gds.
      and_then (copy_ref env (target ''.drc.json'') (ds_drc_ref snapshot)) (\<lambda>drc.
      and_then (copy_ref env (target ''.lineage.json'') (ds_lineage_receipt_ref snapshot)) (\<lambda>lineage.
      pass (snapshot\<lparr>ds_script_ref := script, ds_lineage_receipt_ref := lineage, ds_gds_ref := gds,
        ds_drc_ref := drc\<rparr>))))))"

text \<open>The committed snapshot and its number of violations.\<close>

definition commit_or_rollback ::
    "tx_env \<Rightarrow> tx_request \<Rightarrow> tx_attempt \<Rightarrow> drc_stats \<Rightarrow> bool \<Rightarrow> design_snapshot \<Rightarrow> int option \<Rightarrow>
     (design_snapshot \<times> int) tx" where
  "commit_or_rollback env req a base_stats accepted attempted drv_total =
     (if accepted
      then and_then (copy_snapshot env attempted (attempt_path a ''committed'') (xq_case_id req)) (\<lambda>committed.
        case drv_total of None \<Rightarrow> raising (Inl (AssertionError '''')) | Some n \<Rightarrow> pass (committed, n))
      else and_then (copy_snapshot env (xq_current_snapshot req) (attempt_path a ''committed'') (xq_case_id req))
        (\<lambda>committed. pass (committed, dst_total_drv base_stats)))"

section \<open>Publication\<close>

text \<open>The copies of one attempt under the paths that older readers know.\<close>

definition alias_files :: "string list" where
  "alias_files = [''transaction/patch_plan.json'', ''transaction/transaction.json'',
     ''transaction/combined.diff'', ''verification/verification.json'']"

definition alias_dir :: "tx_env \<Rightarrow> executor \<Rightarrow> tx_request \<Rightarrow> tx_attempt \<Rightarrow> string \<Rightarrow> unit tx" where
  "alias_dir env ex req a name =
     (let source_dir = path_join [tx_store_root ex, attempt_path a name] in
      and_then (ask (\<lambda>n. Inr (te_is_dir env n source_dir))) (\<lambda>present.
      if \<not> present then pass ()
      else and_then (ask (\<lambda>n. te_list_dir env n source_dir)) (\<lambda>sources.
        and_then (map_effect (\<lambda>source. copy_if_file env source
          (path_join [base_prefix req, name, path_name source])) (sort sources)) (\<lambda>_. pass ()))))"

definition alias_to :: "tx_env \<Rightarrow> executor \<Rightarrow> tx_attempt \<Rightarrow> string \<Rightarrow> unit tx" where
  "alias_to env ex a target =
     and_then (map_effect (\<lambda>relative. copy_if_file env
       (path_join [tx_store_root ex, attempt_path a relative]) (path_join [target, relative])) alias_files)
     (\<lambda>_. pass ())"

definition legacy_target :: "tx_request \<Rightarrow> string option" where
  "legacy_target req =
     (case xq_legacy_artifact_prefix req of None \<Rightarrow> None | Some p \<Rightarrow> if p = [] then None else Some p)"

definition publish ::
    "tx_env \<Rightarrow> executor \<Rightarrow> tx_request \<Rightarrow> tx_context \<Rightarrow> tx_attempt \<Rightarrow> progress \<Rightarrow> verification_result \<Rightarrow>
     acceptance_decision \<Rightarrow> string option \<Rightarrow> transaction \<Rightarrow> transaction tx" where
  "publish env ex req cx a p v decision rollback tx0 =
     and_then (write_json env (StoredVerification (attempt_path a ''verification/verification.json'') v)) (\<lambda>vref.
     let tx = tx0\<lparr>tn_verification_result_ref := Some vref, tn_decision_reasons := ad_reasons decision,
           tn_rollback_reason := rollback\<rparr> in
     and_then (write_json env (StoredTransaction (transaction_path a) tx)) (\<lambda>_.
     and_then (write_json env (StoredPointer (path_join [base_prefix req, ''transaction/latest_attempt.json''])
       [(''execution_protocol_version'', JStr (te_protocol env)),
        (''attempt_id'', JStr (ta_attempt_id a)), (''logical_evidence_key'', JStr (cx_key cx)),
        (''terminal_status'', JStr (terminal_status_value (progress_status p))),
        (''transaction_ref'', JStr (path_join [tx_store_root ex, transaction_path a])),
        (''verification_ref'', te_ref_dump env vref)])) (\<lambda>_.
     and_then (alias_dir env ex req a ''attempted'') (\<lambda>_.
     and_then (alias_dir env ex req a ''committed'') (\<lambda>_.
     and_then (alias_to env ex a (base_prefix req)) (\<lambda>_.
     and_then (case legacy_target req of None \<Rightarrow> pass () | Some t \<Rightarrow> alias_to env ex a t) (\<lambda>_.
     and_then (mark_job env LifeTerminal
       [(''terminal_status'', JStr (terminal_status_value (progress_status p))),
        (''verification_outcome'', JStr (outcome_value (vr_outcome v))),
        (''fresh_evidence_valid'', JBool (vr_fresh_evidence_valid v))]) (\<lambda>_.
     pass tx))))))))"

text \<open>An exception of \<open>m\<close> below \<open>Exception\<close> is replaced.\<close>

definition replacing :: "(exn \<Rightarrow> exn) \<Rightarrow> 'a tx \<Rightarrow> 'a tx" where
  "replacing g m =
     and_then (caught m) (\<lambda>r. case r of Inr x \<Rightarrow> pass x | Inl e \<Rightarrow> throw (if is_exception e then g e else e))"

definition collect_results :: "tx_env \<Rightarrow> executor \<Rightarrow> tx_attempt \<Rightarrow> artifact_ref list tx" where
  "collect_results env ex a =
     and_then (set_stage ''COLLECT_RESULTS'' ''INFRASTRUCTURE'') (\<lambda>_.
     replacing (\<lambda>e. backend_failure env (''ARTIFACT_PUBLICATION_FAILED: '' @ exn_message e)
         CodeArtifactPublication (is_os_error e) (Some (exn_class e)) ''COLLECT_RESULTS'')
       (ask (\<lambda>n. te_collect env n (ta_job a)
         (path_join [tx_store_root ex, attempt_path a ''transaction'', ''tool_evidence'']))))"

definition remap_tools ::
    "tx_env \<Rightarrow> executor \<Rightarrow> tx_request \<Rightarrow> tx_attempt \<Rightarrow> tool_result list \<Rightarrow> transaction \<Rightarrow>
     (tool_result list \<times> transaction) tx" where
  "remap_tools env ex req a tools tx =
     (case te_remap env of
        None \<Rightarrow> pass (tools, tx)
      | Some remap \<Rightarrow>
          replacing (\<lambda>e. backend_failure env (''ARTIFACT_REFERENCE_REMAP_FAILED: '' @ exn_message e)
              CodeArtifactPublication False (Some (exn_class e)) ''COLLECT_RESULTS'')
            (and_then (ask (\<lambda>n. remap n tools)) (\<lambda>mapped.
             let tx' = tx\<lparr>tn_tool_results := mapped\<rparr>;
                 source = path_join [tx_store_root ex, transaction_path a] in
             and_then (write_json env (StoredTransaction (transaction_path a) tx')) (\<lambda>_.
             and_then (copy_file env source (path_join [base_prefix req, ''transaction/transaction.json''])) (\<lambda>_.
             and_then (case legacy_target req of
                 None \<Rightarrow> pass ()
               | Some t \<Rightarrow> and_then (copy_file env source (path_join [t, ''transaction/transaction.json''])) (\<lambda>_. pass ()))
               (\<lambda>_. pass (mapped, tx')))))))"

definition cleanup_job :: "tx_env \<Rightarrow> tx_attempt \<Rightarrow> bool \<Rightarrow> unit tx" where
  "cleanup_job env a keep_workspace =
     and_then (set_stage ''CLEANUP'' ''INFRASTRUCTURE'') (\<lambda>_.
     replacing (\<lambda>e. backend_failure env (''WORKSPACE_CLEANUP_FAILED: '' @ exn_message e)
         CodeWorkspaceOwnership False (Some (exn_class e)) ''CLEANUP'')
       (ask (\<lambda>n. te_cleanup env n (ta_job a) keep_workspace)))"

text \<open>A tool that could not run at all makes the run an infrastructure failure.\<close>

definition infra_tool :: "tool_result list \<Rightarrow> tool_result option" where
  "infra_tool tools =
     List.find (\<lambda>r. tl_error_code r \<in> {Some ''EXECUTABLE_NOT_FOUND'', Some ''INVALID_INPUT_PATH''}) tools"

definition check_infra :: "tx_env \<Rightarrow> tool_result list \<Rightarrow> unit tx" where
  "check_infra env tools =
     (case infra_tool tools of
        None \<Rightarrow> pass ()
      | Some r \<Rightarrow>
          throw (backend_failure env
            (if opt_truthy (tl_error_message r) then the (tl_error_message r)
             else if opt_truthy (tl_error_code r) then the (tl_error_code r) else ''EDA unavailable'')
            CodeEdaUnavailable False (tl_error_code r) (tl_action r)))"

definition final_details ::
    "tx_env \<Rightarrow> verification_result \<Rightarrow> bool \<Rightarrow> bool \<Rightarrow> artifact_ref list \<Rightarrow> (string \<times> json) list" where
  "final_details env v accepted keep_workspace collected =
     [(''verification_outcome'', JStr (outcome_value (vr_outcome v))),
      (''fresh_evidence_valid'', JBool (vr_fresh_evidence_valid v)),
      (''drc_validity'', JStr (validity_value (vr_drc_validity v))),
      (''sanity_validity'', JStr (validity_value (vr_sanity_validity v))),
      (''connectivity_validity'', JStr (validity_value (vr_connectivity_validity v))),
      (''accepted'', JBool accepted), (''workspace_retained'', JBool keep_workspace),
      (''result_manifest_refs'', JList (map (te_ref_dump env)
        (filter (\<lambda>r. path_name (ar_path r) = ''result_manifest.json'') collected)))]"

section \<open>execute\<close>

text \<open>From the evidence of the stages to the result.\<close>

definition conclude ::
    "tx_env \<Rightarrow> executor \<Rightarrow> tx_request \<Rightarrow> tx_context \<Rightarrow> tx_attempt \<Rightarrow>
     lineage option \<times> artifact_ref option \<Rightarrow> progress \<Rightarrow> violation_delta \<Rightarrow> execution_result tx" where
  "conclude env ex req cx a receipt p d =
     and_then (raising (verification_of env a (cx_baseline cx) p d)) (\<lambda>v.
     and_then (set_stage ''ACCEPTANCE'' ''EXECUTION'') (\<lambda>_.
     let decision = evaluate_acceptance v (tx_acceptance ex);
         rollback = (if ad_accepted decision then None
           else Some (join_with '','' (if ad_reasons decision \<noteq> [] then ad_reasons decision
             else vr_failure_codes v)));
         keep_workspace = (bk_keep_failed_workspace (tx_backend_config ex) \<and> \<not> ad_accepted decision) in
     and_then (now env) (\<lambda>finished.
     and_then (persist_attempt env req a p v receipt) (\<lambda>(attempted, drv_total).
     and_then (commit_or_rollback env req a (cx_baseline cx) (ad_accepted decision) attempted drv_total)
       (\<lambda>(committed, committed_total).
     and_then (publish env ex req cx a p v decision rollback (decide_transaction a p decision finished)) (\<lambda>tx.
     and_then (collect_results env ex a) (\<lambda>collected.
     and_then (remap_tools env ex req a (pg_tools p) tx) (\<lambda>(tools, tx).
     and_then (cleanup_job env a keep_workspace) (\<lambda>_.
     and_then (check_infra env tools) (\<lambda>_.
     and_then (terminal env (progress_status p)
       (final_details env v (ad_accepted decision) keep_workspace collected)) (\<lambda>_.
     pass \<lparr>xr_transaction = tx, xr_verification = v, xr_accepted = ad_accepted decision,
           xr_decision_reasons = ad_reasons decision, xr_attempted_snapshot = attempted,
           xr_committed_snapshot = committed, xr_attempted_total_drv = drv_total,
           xr_committed_total_drv = committed_total,
           xr_tool_runtime_seconds = sum_list (map tl_runtime_seconds tools),
           xr_rollback_reason = rollback, xr_attempt_id = Some (ta_attempt_id a),
           xr_logical_evidence_key = Some (cx_key cx)\<rparr>)))))))))))"

definition run_attempt ::
    "tx_env \<Rightarrow> executor \<Rightarrow> tx_request \<Rightarrow> tx_context \<Rightarrow> prepare_request \<Rightarrow> prepared_job \<Rightarrow> execution_result tx" where
  "run_attempt env ex req cx request job0 =
     and_then (claim_job env cx (pq_requested_attempt_id request) job0) (\<lambda>job.
     and_then (open_transaction env req cx request (the (pq_requested_attempt_id request)) job) (\<lambda>a.
     and_then (patch_stage env req a) (\<lambda>receipt.
     and_then (run_stages env ex req a) (\<lambda>p.
     and_then (delta_stage env req a
       (case ds_drc_ref (xq_current_snapshot req) of None \<Rightarrow> [] | Some r \<Rightarrow> ar_path r) p) (\<lambda>d.
     conclude env ex req cx a receipt p d)))))"

definition execute_body :: "tx_env \<Rightarrow> executor \<Rightarrow> tx_request \<Rightarrow> execution_result tx" where
  "execute_body env ex req =
     and_then (preflight env ex req) (\<lambda>cx.
     and_then (prepare_loop env req cx 1 (cx_request cx)) (\<lambda>(request, job).
     run_attempt env ex req cx request job))"

definition execute :: "tx_env \<Rightarrow> executor \<Rightarrow> tx_request \<Rightarrow> execution_result tx" where
  "execute env ex req = account_physical_attempts env (execute_body env ex req)"

end
