(* ===== verification/Transaction_Accounting.thy ===== *)
theory Transaction_Accounting
  imports Transactions
begin

text \<open>
  Every physical attempt of \<open>execute\<close> is accounted for: the stages keep the journal of \<open>Attempts\<close>, so
  the contract of the decorator holds for the body that it decorates.
\<close>

section \<open>The stages keep the journal\<close>

text \<open>Invariants that do not see the number of outside calls, nor what is written to the store.\<close>

definition journal_only :: "(tx_state \<Rightarrow> bool) \<Rightarrow> bool" where
  "journal_only I \<longleftrightarrow>
     (\<forall>s t. I (s\<lparr>js_clock := t\<rparr>) = I s) \<and> (\<forall>s t. I (s\<lparr>ts_store := t\<rparr>) = I s) \<and>
     (\<forall>s t. I (s\<lparr>ts_job_states := t\<rparr>) = I s)"

lemma journal_only_inv [triple_rules]: "journal_only (ledger_inv env A k c f j)"
  by (simp add: journal_only_def ledger_inv_def journaled_def)

lemma journal_only_settled [triple_rules]: "journal_only (settled env A k c f j)"
  by (simp add: journal_only_def settled_def ledger_inv_def journaled_def)

lemma keeps_asked [triple_rules]: "journal_only I \<Longrightarrow> keeps I (ask g)"
  unfolding keeps_def journal_only_def by (intro triple_ask) simp_all

lemma keeps_raising [triple_rules]: "keeps I (raising r)"
  unfolding raising_def by (intro triple_rules)

lemma keeps_log_stored [triple_rules]: "journal_only I \<Longrightarrow> keeps I (log_stored e)"
  unfolding log_stored_def journal_only_def by (intro keeps_modify) simp

lemma keeps_store [triple_rules]:
  assumes "journal_only I"
  shows "keeps I (now env)" "keeps I (is_file env path)" "keeps I (write_json env e)"
    "keeps I (copy_file env source target)" "keeps I (copy_if_file env source target)"
  unfolding now_def is_file_def write_json_def copy_file_def copy_if_file_def
  by (intro triple_rules assms)+

lemma keeps_mark_job [triple_rules]: "journal_only I \<Longrightarrow> keeps I (mark_job env state details)"
  unfolding mark_job_def
  by (intro triple_rules keeps_modify) (simp_all add: journal_only_def)

lemma keeps_files [triple_rules]:
  assumes "journal_only I"
  shows "keeps I (path_item ex k)" "keeps I (path_sha256 env ex k)" "keeps I (optional_sha256 env ex k)"
    "keeps I (file_statistics env path)"
  unfolding path_item_def path_sha256_def optional_sha256_def file_statistics_def
  by (intro triple_rules assms)+

lemma keeps_image_digest [triple_rules]: "journal_only I \<Longrightarrow> keeps I (image_digest env)"
  unfolding image_digest_def by (intro triple_rules)

text \<open>Invariants that do not see the stage of the ledger nor the events of the index either.\<close>

definition journal_stable :: "(tx_state \<Rightarrow> bool) \<Rightarrow> bool" where
  "journal_stable I \<longleftrightarrow>
     journal_only I \<and> (\<forall>stage domain. keeps I (set_stage stage domain)) \<and>
     (\<forall>(env :: tx_env) event details. keeps I (phase_event env event details))"

lemma journal_stable_inv [triple_rules]: "journal_stable (ledger_inv e A k c f j)"
  unfolding journal_stable_def by (intro conjI allI triple_rules)

lemma journal_stableD:
  assumes "journal_stable I"
  shows "journal_only I" "keeps I (set_stage stage domain)" "keeps I (phase_event (env :: tx_env) event details)"
  using assms by (auto simp: journal_stable_def)

lemma keeps_preflight [triple_rules]: "journal_only I \<Longrightarrow> keeps I (preflight env ex req)"
  unfolding preflight_def logical_key_def required_ref_def Let_def by (intro triple_rules)

lemma keeps_claim_job [triple_rules]: "keeps I (claim_job env cx i job)"
  unfolding claim_job_def by (intro triple_rules)

lemma keeps_open_transaction [triple_rules]:
  "journal_stable I \<Longrightarrow> keeps I (open_transaction env req cx request i job)"
  unfolding open_transaction_def Let_def by (intro triple_rules journal_stableD)

lemma keeps_patch_stage [triple_rules]: "journal_stable I \<Longrightarrow> keeps I (patch_stage env req a)"
  unfolding patch_stage_def apply_patch_def patch_failed_def Let_def by (intro triple_rules journal_stableD)

lemma keeps_tools [triple_rules]:
  assumes "journal_stable I"
  shows "keeps I (script_stage env ex a p)"
  "keeps I (layout_stage env ex a p)"
  "keeps I (drc_stage env ex a p)"
  unfolding script_stage_def layout_stage_def drc_stage_def call_tool_def by (intro triple_rules journal_stableD [OF assms] assms)+

lemma keeps_report_stage [triple_rules]: "journal_stable I \<Longrightarrow> keeps I (report_stage env ex req a p)"
  unfolding report_stage_def retry_report_def check_retry_def call_tool_def Let_def by (intro triple_rules journal_stableD)

lemma keeps_convert_stage [triple_rules]: "journal_stable I \<Longrightarrow> keeps I (convert_stage env req a p)"
  unfolding convert_stage_def convert_report_def convert_failed_def by (intro triple_rules journal_stableD)

lemma keeps_read_evidence [triple_rules]: "journal_only I \<Longrightarrow> keeps I (read_evidence env path)"
  unfolding read_evidence_def by (intro triple_rules)

lemma keeps_helpers [triple_rules]:
  assumes "journal_stable I"
  shows "keeps I (sanity_stage env ex req a p)"
  "keeps I (connectivity_stage env ex a p)"
  unfolding sanity_stage_def connectivity_stage_def call_tool_def by (intro triple_rules journal_stableD [OF assms] assms)+

lemma keeps_unless_failed [triple_rules]: "(\<And>p. keeps I (stage p)) \<Longrightarrow> keeps I (unless_failed stage p)"
  unfolding unless_failed_def by (intro triple_rules)

lemma keeps_run_stages [triple_rules]: "journal_stable I \<Longrightarrow> keeps I (run_stages env ex req a)"
  unfolding run_stages_def by (intro triple_rules journal_stableD)

lemma keeps_delta_stage [triple_rules]: "journal_stable I \<Longrightarrow> keeps I (delta_stage env req a drc p)"
  unfolding delta_stage_def by (intro triple_rules journal_stableD)

lemma keeps_persist_attempt [triple_rules]: "journal_stable I \<Longrightarrow> keeps I (persist_attempt env req a p v receipt)"
  unfolding persist_attempt_def write_final_lineage_def Let_def by (intro triple_rules journal_stableD)

lemma keeps_copy_snapshot [triple_rules]: "journal_only I \<Longrightarrow> keeps I (copy_snapshot env snapshot folder case_id)"
  unfolding copy_snapshot_def copy_ref_def Let_def by (intro triple_rules)

lemma keeps_commit_or_rollback [triple_rules]:
  "journal_only I \<Longrightarrow> keeps I (commit_or_rollback env req a before accepted attempted n)"
  unfolding commit_or_rollback_def by (intro triple_rules)

lemma keeps_publish [triple_rules]:
  "journal_only I \<Longrightarrow> keeps I (publish env ex req cx a p v decision rollback tx)"
  unfolding publish_def alias_dir_def alias_to_def Let_def by (intro triple_rules)

lemma keeps_replacing [triple_rules]: "keeps I m \<Longrightarrow> keeps I (replacing g m)"
  unfolding replacing_def by (intro triple_rules)

lemma keeps_collect_results [triple_rules]: "journal_stable I \<Longrightarrow> keeps I (collect_results env ex a)"
  unfolding collect_results_def by (intro triple_rules journal_stableD)

lemma keeps_remap_tools [triple_rules]: "journal_only I \<Longrightarrow> keeps I (remap_tools env ex req a tools tx)"
  unfolding remap_tools_def Let_def by (intro triple_rules)

lemma keeps_cleanup_job [triple_rules]: "journal_stable I \<Longrightarrow> keeps I (cleanup_job env a keep_workspace)"
  unfolding cleanup_job_def by (intro triple_rules journal_stableD)

lemma keeps_check_infra [triple_rules]: "keeps I (check_infra env tools)"
  unfolding check_infra_def by (intro triple_rules)

section \<open>The contract of the decorator\<close>

lemma triple_keeps_then:
  "keeps I m \<Longrightarrow> (\<And>x. triple I (g x) Q E) \<Longrightarrow> (\<And>e s. I s \<Longrightarrow> E e s) \<Longrightarrow> triple I (and_then m g) Q E"
  by (rule triple_and_then [where R = "\<lambda>_. I"]) (auto simp: keeps_def intro: triple_weaken)

lemma triple_prod: "(\<And>x y. triple P (g x y) Q E) \<Longrightarrow> triple P (case z of (x, y) \<Rightarrow> g x y) Q E"
  by (cases z) simp

lemma begin_attempt_inv:
  "triple (settled env A k c f j) (begin_attempt env req cx request)
     (\<lambda>_. ledger_inv env A (Suc k) c f j) (\<lambda>_. ledger_inv env A (Suc k) c f j)"
proof (cases "pq_requested_attempt_id request")
  case None
  have "ledger_inv env A (Suc k) c f j s" if "settled env A k c f j s" for s
    using ledger_inv_mono [OF settledD [OF that]] by simp
  then show ?thesis
    unfolding begin_attempt_def None option.case raising_def by (intro triple_outside)
next
  case (Some i)
  have rest: "keeps (ledger_inv env A (Suc k) c f j)
      (and_then (set_stage ''PREPARE_JOB'' ''INFRASTRUCTURE'') (\<lambda>_. caught (ask (\<lambda>n. te_prepare env n request))))"
    by (intro triple_rules)
  show ?thesis
    unfolding begin_attempt_def Some option.case
    by (rule triple_and_then [OF open_ledger_inv]) (rule rest [unfolded keeps_def])
qed

lemma prepare_raised_inv:
  assumes retry: "\<And>p. triple (settled env unevaluated k c f j) (retry p) Q E"
    and raised: "\<And>e s. ledger_inv env unevaluated k c f j s \<Longrightarrow> E e s"
  shows "triple (ledger_inv env unevaluated k c f j) (prepare_raised env retry e) Q E"
proof -
  have pause: "keeps (ledger_inv env unevaluated k c f j) (storage_pause_of env e stage provider model g)"
    for e stage provider model g
    unfolding storage_pause_of_def by (intro triple_rules)
  have other: "triple (ledger_inv env unevaluated k c f j)
      (if \<not> is_exception e then throw e
       else and_then (storage_pause_of env e ''PREPARE_JOB'' ''KLayoutBackend'' (te_image env)
              (\<lambda>_. ''PREPARE_JOB'')) (\<lambda>p.
            case p of
              Some f \<Rightarrow> throw (ExnInfrastructure f)
            | None \<Rightarrow> throw (backend_failure env (''WORKSPACE_PREPARATION_FAILED: '' @ exn_message e)
                CodeWorkspaceOwnership False (Some (exn_class e)) ''PREPARE_JOB''))) Q E" for e
    by (intro triple_if triple_throw raised triple_keeps_then pause) (auto split: option.split intro: triple_throw raised)
  have ended: "triple (ledger_inv env unevaluated k c f j)
      (and_then (terminal env TerminalExecutionFailure details) (\<lambda>_. retry p)) Q E" for details p
    by (rule triple_and_then [OF triple_weaken [OF terminal_inv] retry]) (auto intro: raised settledD)
  show ?thesis
  proof (cases e)
    case (ExnInfrastructure f)
    show ?thesis unfolding prepare_raised_def ExnInfrastructure exn.case by (intro triple_throw raised)
  next
    case (ExnPreparation p)
    show ?thesis unfolding prepare_raised_def ExnPreparation exn.case by (rule ended)
  qed (simp_all only: prepare_raised_def exn.case other)
qed

lemma prepare_round_inv:
  assumes retry: "\<And>p. triple (settled env unevaluated (Suc k) c f j) (retry p)
      (\<lambda>_. ledger_inv env unevaluated m c f j) (\<lambda>_. ledger_inv env unevaluated m c f j)"
    and "Suc k \<le> m"
  shows "triple (settled env unevaluated k c f j)
     (and_then (begin_attempt env req cx request) (\<lambda>r.
       case r of Inr job \<Rightarrow> pass (request, job) | Inl e \<Rightarrow> prepare_raised env retry e))
     (\<lambda>_. ledger_inv env unevaluated m c f j) (\<lambda>_. ledger_inv env unevaluated m c f j)"
proof (rule triple_and_then)
  have mono: "ledger_inv env unevaluated m c f j s" if "ledger_inv env unevaluated (Suc k) c f j s" for s :: tx_state
    using ledger_inv_mono [OF that subset_refl assms(2)] .
  show "triple (settled env unevaluated k c f j) (begin_attempt env req cx request)
      (\<lambda>_. ledger_inv env unevaluated (Suc k) c f j) (\<lambda>_. ledger_inv env unevaluated m c f j)"
    by (rule triple_weaken [OF begin_attempt_inv]) (auto intro: mono)
  fix r
  show "triple (ledger_inv env unevaluated (Suc k) c f j)
      (case r of Inr job \<Rightarrow> pass (request, job) | Inl e \<Rightarrow> prepare_raised env retry e)
      (\<lambda>_. ledger_inv env unevaluated m c f j) (\<lambda>_. ledger_inv env unevaluated m c f j)"
  proof (cases r)
    case (Inl e)
    show ?thesis unfolding Inl sum.case by (rule prepare_raised_inv [OF retry mono])
  next
    case (Inr job)
    show ?thesis unfolding Inr sum.case by (rule triple_pass) (rule mono)
  qed
qed

lemma prepare_loop_inv:
  "triple (settled env unevaluated k c f j) (prepare_loop env req cx n request)
     (\<lambda>_. ledger_inv env unevaluated (k + Suc n) c f j) (\<lambda>_. ledger_inv env unevaluated (k + Suc n) c f j)"
proof (induction n arbitrary: k request)
  case 0
  show ?case
    unfolding prepare_loop.simps
    by (rule prepare_round_inv) (auto intro: triple_throw settledD)
next
  case (Suc n)
  have fresh: "keeps (settled env unevaluated (Suc k) c f j) (ask (\<lambda>t. Inr (te_new_attempt env t)) :: string tx)"
    by (intro triple_rules)
  have inv: "ledger_inv env unevaluated (Suc (Suc (k + n))) c f j s" if "settled env unevaluated (Suc k) c f j s"
    for s :: tx_state
    using ledger_inv_mono [OF settledD [OF that] subset_refl] by (simp add: add.commute)
  show ?case
    unfolding prepare_loop.simps
    by (rule prepare_round_inv)
      (auto intro!: triple_throw triple_keeps_then [OF fresh] Suc.IH [of "Suc k", simplified] dest: inv)
qed

lemma conclude_inv:
  "triple (ledger_inv env unevaluated k c f j) (conclude env ex req cx a receipt p d)
     (\<lambda>_. settled env UNIV k c f j)
     (\<lambda>_. ledger_inv env (if calm env then unevaluated else UNIV) k c f j)"
proof -
  have raised: "ledger_inv env (if calm env then unevaluated else UNIV) k c f j s"
    if "ledger_inv env unevaluated k c f j s" for s :: tx_state
    using ledger_inv_mono [OF that, of "if calm env then unevaluated else UNIV"] by auto
  have "triple (ledger_inv env unevaluated k c f j) (terminal env st details)
      (\<lambda>_. settled env UNIV k c f j) (\<lambda>_ s :: tx_state. settled env UNIV k c f j s \<and> \<not> calm env)" for st details
    by (rule triple_pre [OF terminal_inv]) (auto intro: ledger_inv_mono)
  then have closing: "triple (ledger_inv env unevaluated k c f j) (terminal env st details)
      (\<lambda>_. settled env UNIV k c f j)
      (\<lambda>_. ledger_inv env (if calm env then unevaluated else UNIV) k c f j :: tx_state \<Rightarrow> bool)" for st details
    by (rule triple_weaken) (auto intro: settledD)
  show ?thesis
    unfolding conclude_def Let_def
    by (intro triple_keeps_then triple_prod raised triple_and_then [OF closing] triple_pass triple_rules)
qed

lemma execute_body_inv:
  "triple (\<lambda>s. settled env unevaluated 0 c f j s \<and> js_ledger s = None) (execute_body env ex req)
     (\<lambda>_. settled env UNIV 2 c f j)
     (\<lambda>_. ledger_inv env (if calm env then unevaluated else UNIV) 2 c f j)"
proof -
  have raised: "ledger_inv env (if calm env then unevaluated else UNIV) 2 c f j s"
    if "ledger_inv env unevaluated k c f j s" "k \<le> 2" for s :: tx_state and k
    using ledger_inv_mono [OF that(1) _ that(2), of "if calm env then unevaluated else UNIV"] by auto
  have two: "0 + Suc 1 = (2 :: nat)" by simp
  note at_last = raised [OF _ order_refl]
  have attempt: "triple (ledger_inv env unevaluated 2 c f j) (run_attempt env ex req cx request job)
      (\<lambda>_. settled env UNIV 2 c f j)
      (\<lambda>_. ledger_inv env (if calm env then unevaluated else UNIV) 2 c f j)" for cx request job
    unfolding run_attempt_def
    by (intro triple_keeps_then conclude_inv triple_rules at_last)
  have loop: "triple (settled env unevaluated 0 c f j) (prepare_loop env req cx 1 request)
      (\<lambda>_. ledger_inv env unevaluated 2 c f j)
      (\<lambda>_. ledger_inv env (if calm env then unevaluated else UNIV) 2 c f j)" for cx request
    by (rule triple_weaken [OF prepare_loop_inv [of env 0 c f j req cx 1 request, unfolded two] _ _ at_last])
  have "triple (settled env unevaluated 0 c f j) (execute_body env ex req)
     (\<lambda>_. settled env UNIV 2 c f j)
     (\<lambda>_. ledger_inv env (if calm env then unevaluated else UNIV) 2 c f j)"
    unfolding execute_body_def
  proof (rule triple_keeps_then)
    show "keeps (settled env unevaluated 0 c f j) (preflight env ex req)" by (intro triple_rules)
    show "ledger_inv env (if calm env then unevaluated else UNIV) 2 c f j s" if "settled env unevaluated 0 c f j s" for s :: tx_state
      by (rule raised [OF settledD [OF that]]) simp
    show "triple (settled env unevaluated 0 c f j)
        (and_then (prepare_loop env req cx 1 (cx_request cx)) (\<lambda>(request, job). run_attempt env ex req cx request job))
        (\<lambda>_. settled env UNIV 2 c f j)
        (\<lambda>_. ledger_inv env (if calm env then unevaluated else UNIV) 2 c f j)" for cx
      by (rule triple_and_then [OF loop]) (rule triple_prod, rule attempt)
  qed
  then show ?thesis by (rule triple_pre) simp
qed

interpretation executed: accounted_function env "execute_body env ex req" 2
  for env :: tx_env and ex :: executor and req :: tx_request
  by unfold_locales (rule execute_body_inv)

section \<open>What is accounted\<close>

text \<open>
  C2. Whatever a run of \<open>execute\<close> raises or returns, every reservation that it claimed from the validation
  budget is finished, exactly once and in the order of the claims; it makes at most two physical
  attempts, leaves the active ledger as it found it, and when it raises, no attempt is recorded as
  evaluated unless the journal itself could not be written. The two functions of the storage monitor
  that the handler calls are taken not to raise.
\<close>

theorem attempts_accounted_once:
  assumes "reporting_works env" "execute env ex req s = (r, s')"
  shows "\<exists>new. js_finishes s' = js_finishes s @ new \<and>
    js_claims s' = js_claims s @ map claim_entry new \<and> length new \<le> 2 \<and>
    js_ledger s' = js_ledger s \<and>
    (isl r \<and> calm env \<longrightarrow> TerminalEvaluated \<notin> status_of ` set new)"
proof -
  have "run_closed env (if isl r \<and> calm env then unevaluated else UNIV) 2 s s'"
    using executed.run_accounted [OF assms(1)] assms(2) unfolding execute_def by blast
  then show ?thesis unfolding run_closed_def by (auto split: if_splits)
qed

text \<open>
  C10. The attempt index is complete: when its writes succeed, a run keeps it so that the registered
  attempts are those that claimed a reservation and the terminal records are those of the finished
  attempts, each with the status that the budget was told.
\<close>

theorem index_complete:
  assumes "reporting_works env" "calm env" "execute env ex req s = (r, s')"
    "registered_ids (js_index s) = map fst (js_claims s)"
    "terminal_entries (js_index s) = map (\<lambda>x. (fst x, status_of x)) (js_finishes s)"
  shows "registered_ids (js_index s') = map fst (js_claims s') \<and>
    terminal_entries (js_index s') = map (\<lambda>x. (fst x, status_of x)) (js_finishes s')"
proof -
  have "run_closed env (if isl r \<and> calm env then unevaluated else UNIV) 2 s s'"
    using executed.run_accounted [OF assms(1)] assms(3) unfolding execute_def by blast
  then show ?thesis using assms(2,4,5) unfolding run_closed_def journaled_def by simp
qed

end
