(* ===== verification/Transaction_Results.thy ===== *)
theory Transaction_Results
  imports Transaction_Accounting
begin

text \<open>
  What a run of \<open>execute\<close> that returns says: the evidence of the stages is a prefix of valid stages,
  the accepted results are those that the gate accepts on complete evidence, and the committed
  snapshot is the attempted one or the current one.
\<close>

section \<open>Values of effects\<close>

definition yields :: "('s, 'e, 'a) effect \<Rightarrow> ('a \<Rightarrow> bool) \<Rightarrow> bool" where
  "yields m P \<longleftrightarrow> (\<forall>s x s'. m s = (Inr x, s') \<longrightarrow> P x)"

named_theorems yield_rules "what an effect returns"

lemma yieldsD: "yields m P \<Longrightarrow> m s = (Inr x, s') \<Longrightarrow> P x"
  unfolding yields_def by blast

lemma yields_pass [yield_rules]: "P x \<Longrightarrow> yields (pass x) P"
  by (simp add: yields_def)

lemma yields_throw [yield_rules]: "yields (throw e) P"
  by (simp add: yields_def)

lemma yields_and_then [yield_rules]: "(\<And>x. yields (g x) P) \<Longrightarrow> yields (and_then m g) P"
  unfolding yields_def and_then_result by blast

lemma yields_bind: "yields m R \<Longrightarrow> (\<And>x. R x \<Longrightarrow> yields (g x) P) \<Longrightarrow> yields (and_then m g) P"
  unfolding yields_def and_then_result by blast

lemma yields_if [yield_rules]: "(b \<Longrightarrow> yields m P) \<Longrightarrow> (\<not> b \<Longrightarrow> yields n P) \<Longrightarrow> yields (if b then m else n) P"
  by simp

lemma yields_sum [yield_rules]:
  "(\<And>x. v = Inl x \<Longrightarrow> yields (g x) P) \<Longrightarrow> (\<And>x. v = Inr x \<Longrightarrow> yields (h x) P) \<Longrightarrow>
   yields (case v of Inl x \<Rightarrow> g x | Inr x \<Rightarrow> h x) P"
  by (cases v) simp_all

section \<open>The evidence is a prefix\<close>

text \<open>
  After the stages up to the \<open>k\<close>-th: no failure, these are valid and the others not evaluated; or a
  failure, which made one stage an error, with the stages before it valid and those after it not
  evaluated.
\<close>

definition stages_ok :: "nat \<Rightarrow> progress \<Rightarrow> bool" where
  "stages_ok k p \<longleftrightarrow>
     (case pg_failure p of
        None \<Rightarrow>
          validities p = replicate k EvidenceValid @ replicate (5 - k) EvidenceNotEvaluated \<and>
          (1 \<le> k \<longrightarrow> script_passed p) \<and> (3 \<le> k \<longrightarrow> pg_score p \<noteq> None)
      | Some f \<Rightarrow>
          fst f \<noteq> OutcomeSuccess \<and>
          (\<exists>i < 5. validities p =
             replicate i EvidenceValid @ EvidenceError # replicate (4 - i) EvidenceNotEvaluated))"

lemma stages_ok_failed: "pg_failure p \<noteq> None \<Longrightarrow> stages_ok k p \<Longrightarrow> stages_ok m p"
  by (auto simp: stages_ok_def)

lemma unless_failed_ok:
  assumes "stages_ok k p" "\<And>p. pg_failure p = None \<Longrightarrow> stages_ok k p \<Longrightarrow> yields (stage p) (stages_ok m)"
  shows "yields (unless_failed stage p) (stages_ok m)"
  using assms stages_ok_failed [of p k m] unfolding unless_failed_def by (auto intro: yield_rules)

lemmas stage_simps = stages_ok_def validities_def script_passed_def tool_failed_def fail_at_def add_tool_def
  initial_progress_def numeral_nat

lemma script_stage_ok: "yields (script_stage env ex a (initial_progress req a)) (stages_ok 1)"
  unfolding script_stage_def
  by (intro yield_rules) (auto simp: stage_simps intro!: exI [of _ 0])

lemma layout_stage_ok:
  "pg_failure p = None \<Longrightarrow> stages_ok 1 p \<Longrightarrow> yields (layout_stage env ex a p) (stages_ok 2)"
  unfolding layout_stage_def
  by (intro yield_rules) (auto simp: stage_simps split: list.splits intro!: exI [of _ 1])

lemma drc_stage_ok:
  "pg_failure p = None \<Longrightarrow> stages_ok 2 p \<Longrightarrow> yields (drc_stage env ex a p) (stages_ok 2)"
  unfolding drc_stage_def
  by (intro yield_rules) (auto simp: stage_simps split: list.splits intro!: exI [of _ 2])

lemma report_stage_ok:
  "pg_failure p = None \<Longrightarrow> stages_ok 2 p \<Longrightarrow> yields (report_stage env ex req a p) (stages_ok 2)"
  unfolding report_stage_def retry_report_def Let_def
  by (intro yield_rules) (auto simp: stage_simps split: list.splits intro!: exI [of _ 2])

lemma convert_stage_ok:
  "pg_failure p = None \<Longrightarrow> stages_ok 2 p \<Longrightarrow> yields (convert_stage env req a p) (stages_ok 3)"
  unfolding convert_stage_def convert_failed_def
  by (intro yield_rules) (auto simp: stage_simps split: list.splits intro!: exI [of _ 2])

lemma sanity_stage_ok:
  "pg_failure p = None \<Longrightarrow> stages_ok 3 p \<Longrightarrow> yields (sanity_stage env ex req a p) (stages_ok 4)"
  unfolding sanity_stage_def
  by (intro yield_rules) (auto simp: stage_simps split: list.splits intro!: exI [of _ 3])

lemma connectivity_stage_ok:
  "pg_failure p = None \<Longrightarrow> stages_ok 4 p \<Longrightarrow> yields (connectivity_stage env ex a p) (stages_ok 5)"
  unfolding connectivity_stage_def
  by (intro yield_rules) (auto simp: stage_simps split: list.splits intro!: exI [of _ 4])

lemma run_stages_ok: "yields (run_stages env ex req a) (stages_ok 5)"
  unfolding run_stages_def
  by (rule yields_bind [OF script_stage_ok] yields_bind [OF unless_failed_ok] unless_failed_ok layout_stage_ok
      drc_stage_ok report_stage_ok convert_stage_ok sanity_stage_ok connectivity_stage_ok | assumption)+

lemma complete_iff: "stages_ok 5 p \<Longrightarrow> complete_validity p \<longleftrightarrow> pg_failure p = None"
  unfolding stages_ok_def complete_validity_def by (auto simp: numeral_nat split: option.splits)

lemma progress_status_evaluated:
  "stages_ok 5 p \<Longrightarrow> progress_status p = TerminalEvaluated \<longleftrightarrow> pg_failure p = None"
  using complete_iff [of p] by (auto simp: progress_status_def split: option.splits)

section \<open>The verification says what the stages found\<close>

lemma validate_verification_id: "validate_verification_result r = Inr v \<Longrightarrow> v = r"
  by (auto simp: validate_verification_result_def split: if_splits)

lemma verification_fields:
  assumes "verification_of env a base_stats p d = Inr v"
  shows "vr_script_validity v = pg_script p" "vr_layout_validity v = pg_layout p"
    "vr_drc_validity v = pg_drc p" "vr_sanity_validity v = pg_sanity p"
    "vr_connectivity_validity v = pg_connectivity p" "vr_fresh_evidence_valid v = complete_validity p"
    "vr_terminal_status v = Some (progress_status p)" "vr_attempt_id v = Some (ta_attempt_id a)"
    "vr_timing_gate_pass v = None"
  using assms unfolding verification_of_def failed_verification_def completed_verification_def Let_def
  by (auto simp: bind_result_Inr_iff verification_base_def dest!: validate_verification_id split: option.splits)

lemma verification_outcome_success:
  assumes "verification_of env a base_stats p d = Inr v" "vr_outcome v = OutcomeSuccess" "stages_ok 5 p"
  shows "pg_failure p = None \<and> vr_script_valid v = Some True \<and> vr_gds_sanity_pass v = Some True \<and>
    vr_connectivity_preserved v = Some True \<and> vr_new_violation_count v = Some 0 \<and>
    (\<exists>n > 0. vr_removed_original_count v = Some n) \<and> vr_failure_codes v = []"
proof -
  have ok: "pg_failure p = None"
  proof (rule ccontr)
    assume "pg_failure p \<noteq> None"
    then obtain o' code where f: "pg_failure p = Some (o', code)" by auto
    then have "vr_outcome v = o'"
      using assms(1) unfolding verification_of_def failed_verification_def
      by (auto simp: bind_result_Inr_iff verification_base_def dest!: validate_verification_id)
    then show False using f assms(2,3) by (simp add: stages_ok_def)
  qed
  from assms(1) ok obtain sanity connected score where score: "pg_score p = Some score"
    and v: "validate_verification_result
           ((verification_base env a p d
               [te_score_dump env score, pg_sanity_data p, pg_connectivity_data p] (verdict sanity connected score)
               (Some (script_passed p)) (Some sanity) (Some connected) (osc_original_violations score))
            \<lparr>vr_failure_codes := (if verdict sanity connected score = OutcomeSuccess then []
               else [outcome_value (verdict sanity connected score)])\<rparr>) = Inr v"
    unfolding verification_of_def completed_verification_def Let_def
    by (auto simp: bind_result_Inr_iff split: option.splits)
  note fields = validate_verification_id [OF v]
  have success: "verdict sanity connected score = OutcomeSuccess"
    using assms(2) unfolding fields verification_base_def by simp
  then have "sanity \<and> connected \<and> osc_new_violations score = 0 \<and> 0 < osc_removed_violations score"
    by (auto simp: verdict_def split: if_splits)
  moreover have "script_passed p" using assms(3) ok by (simp add: stages_ok_def)
  ultimately show ?thesis
    using ok success unfolding fields verification_base_def by (simp add: score)
qed

section \<open>Commit and rollback\<close>

lemma yields_raising [yield_rules]: "(\<And>x. r = Inr x \<Longrightarrow> P x) \<Longrightarrow> yields (raising r) P"
  by (cases r) (auto simp: yields_def raising_def)

lemma yields_option [yield_rules]:
  "(v = None \<Longrightarrow> yields m P) \<Longrightarrow> (\<And>x. v = Some x \<Longrightarrow> yields (g x) P) \<Longrightarrow>
   yields (case v of None \<Rightarrow> m | Some x \<Rightarrow> g x) P"
  by (cases v) simp_all

lemma yields_prod [yield_rules]: "(\<And>x y. z = (x, y) \<Longrightarrow> yields (g x y) P) \<Longrightarrow> yields (case z of (x, y) \<Rightarrow> g x y) P"
  by (cases z) simp

text \<open>A snapshot with its files at another place.\<close>

definition copy_of :: "design_snapshot \<Rightarrow> design_snapshot \<Rightarrow> bool" where
  "copy_of c d \<longleftrightarrow>
     c = d\<lparr>ds_script_ref := ds_script_ref c, ds_lineage_receipt_ref := ds_lineage_receipt_ref c,
           ds_gds_ref := ds_gds_ref c, ds_drc_ref := ds_drc_ref c\<rparr> \<and>
     (ds_gds_ref c = None \<longleftrightarrow> ds_gds_ref d = None) \<and> (ds_drc_ref c = None \<longleftrightarrow> ds_drc_ref d = None) \<and>
     (ds_lineage_receipt_ref c = None \<longleftrightarrow> ds_lineage_receipt_ref d = None)"

lemma copy_ref_yields: "yields (copy_ref env target r) (\<lambda>x. x = None \<longleftrightarrow> r = None)"
  unfolding copy_ref_def by (intro yield_rules) simp_all

lemma copy_snapshot_yields: "yields (copy_snapshot env snapshot folder case_id) (\<lambda>c. copy_of c snapshot)"
  unfolding copy_snapshot_def Let_def
  by (intro yields_and_then yields_bind [OF copy_ref_yields] yields_pass) (simp add: copy_of_def)

lemma commit_yields:
  "yields (commit_or_rollback env req a base_stats accepted attempted n)
     (\<lambda>(committed, m). if accepted then copy_of committed attempted \<and> n = Some m
        else copy_of committed (xq_current_snapshot req) \<and> m = dst_total_drv base_stats)"
  unfolding commit_or_rollback_def
  by (intro yields_if yields_bind [OF copy_snapshot_yields] yields_option yields_pass yields_raising) auto

lemma persist_yields:
  "yields (persist_attempt env req a p v receipt) (\<lambda>(attempted, n).
     ds_snapshot_id attempted = ta_snapshot_id a \<and> ds_score attempted = snapshot_score v \<and>
     ds_connectivity_ref attempted = None \<and>
     (ds_parent_snapshot_id attempted \<in> {None, Some (ds_snapshot_id (xq_current_snapshot req))}) \<and>
     (pg_drc p \<noteq> EvidenceValid \<longrightarrow> n = None))"
  unfolding persist_attempt_def Let_def
  by (intro yields_and_then yields_bind [where R = "\<lambda>n. pg_drc p \<noteq> EvidenceValid \<longrightarrow> n = None"]
      yields_if yields_pass) (auto intro!: yield_rules)

lemma publish_yields:
  "yields (publish env ex req cx a p v decision rollback tx) (\<lambda>tx'.
     tn_status tx' = tn_status tx \<and> tn_terminal_status tx' = tn_terminal_status tx \<and>
     tn_decision_reasons tx' = ad_reasons decision \<and> tn_rollback_reason tx' = rollback \<and>
     tn_attempt_id tx' = tn_attempt_id tx)"
  unfolding publish_def Let_def by (intro yields_and_then yields_pass) simp

lemma replacing_yields: "yields m P \<Longrightarrow> yields (replacing g m) P"
  unfolding replacing_def
  by (rule yields_bind [where R = "\<lambda>r. \<forall>x. r = Inr x \<longrightarrow> P x"])
    (auto simp: yields_def caught_result split: sum.splits)

lemma remap_yields:
  "yields (remap_tools env ex req a tools tx) (\<lambda>(tools', tx').
     tn_status tx' = tn_status tx \<and> tn_terminal_status tx' = tn_terminal_status tx \<and>
     tn_decision_reasons tx' = tn_decision_reasons tx \<and> tn_rollback_reason tx' = tn_rollback_reason tx \<and>
     tn_attempt_id tx' = tn_attempt_id tx)"
  unfolding remap_tools_def Let_def
  by (intro yields_option yields_pass replacing_yields yields_and_then) simp_all

text \<open>What the result of \<open>conclude\<close> is made of.\<close>

definition concluded ::
    "tx_env \<Rightarrow> executor \<Rightarrow> tx_request \<Rightarrow> drc_stats \<Rightarrow> tx_attempt \<Rightarrow> progress \<Rightarrow> violation_delta \<Rightarrow>
     execution_result \<Rightarrow> bool" where
  "concluded env ex req base_stats a p d x \<longleftrightarrow>
     (let v = xr_verification x; decision = evaluate_acceptance v (tx_acceptance ex); tx = xr_transaction x in
      verification_of env a base_stats p d = Inr v \<and>
      xr_accepted x = ad_accepted decision \<and> xr_decision_reasons x = ad_reasons decision \<and>
      tn_status tx = (if progress_status p = TerminalCancelled then TxCancelled
        else if ad_accepted decision then TxCommitted else TxRolledBack) \<and>
      tn_terminal_status tx = Some (progress_status p) \<and>
      tn_decision_reasons tx = ad_reasons decision \<and>
      tn_rollback_reason tx = xr_rollback_reason x \<and>
      (xr_rollback_reason x = None \<longleftrightarrow> ad_accepted decision) \<and>
      ds_snapshot_id (xr_attempted_snapshot x) = ta_snapshot_id a \<and>
      (pg_drc p \<noteq> EvidenceValid \<longrightarrow> xr_attempted_total_drv x = None) \<and>
      (if ad_accepted decision
       then copy_of (xr_committed_snapshot x) (xr_attempted_snapshot x) \<and>
            xr_attempted_total_drv x = Some (xr_committed_total_drv x)
       else copy_of (xr_committed_snapshot x) (xq_current_snapshot req) \<and>
            xr_committed_total_drv x = dst_total_drv base_stats) \<and>
      xr_attempt_id x = Some (ta_attempt_id a))"

lemma conclude_yields:
  "yields (conclude env ex req cx a receipt p d) (concluded env ex req (cx_baseline cx) a p d)"
  unfolding conclude_def Let_def
  apply (rule yields_bind [where R = "\<lambda>v. verification_of env a (cx_baseline cx) p d = Inr v"])
   apply (intro yield_rules, assumption)
  apply (rule yields_and_then)
  apply (rule yields_and_then)
  apply (rule yields_bind [OF persist_yields])
  apply (rule yields_prod)
  apply (rule yields_bind [OF commit_yields])
  apply (rule yields_prod)
  apply (rule yields_bind [OF publish_yields])
  apply (rule yields_and_then)
  apply (rule yields_bind [OF remap_yields])
  apply (rule yields_prod)
  apply (intro yields_and_then yields_pass)
  apply (simp add: concluded_def Let_def decide_transaction_def)
  done

section \<open>Results of execute\<close>

text \<open>The statistics of the report of the current snapshot.\<close>

definition baseline_statistics :: "tx_env \<Rightarrow> tx_request \<Rightarrow> drc_stats \<Rightarrow> bool" where
  "baseline_statistics env req st \<longleftrightarrow>
     (\<exists>r n data. ds_drc_ref (xq_current_snapshot req) = Some r \<and> te_read_json env n (ar_path r) = Inr data \<and>
        drc_statistics (te_str env) data = Inr st)"

lemma file_statistics_yields:
  "yields (file_statistics env path)
     (\<lambda>st. \<exists>n data. te_read_json env n path = Inr data \<and> drc_statistics (te_str env) data = Inr st)"
  unfolding file_statistics_def
proof (rule yields_bind)
  show "yields (ask (\<lambda>n. te_read_json env n path) :: json tx) (\<lambda>data. \<exists>n. te_read_json env n path = Inr data)"
    by (auto simp: yields_def ask_result)
qed (auto intro!: yields_raising simp: exn_result_def split: sum.splits)

lemma preflight_yields: "yields (preflight env ex req) (\<lambda>cx. baseline_statistics env req (cx_baseline cx))"
  unfolding preflight_def Let_def
  by (rule yields_and_then,
      rule yields_bind [where R = "\<lambda>path. \<exists>r. ds_drc_ref (xq_current_snapshot req) = Some r \<and> path = ar_path r"],
      intro yield_rules, simp, simp, rule yields_bind [OF file_statistics_yields],
      intro yields_and_then yields_pass) (auto simp: baseline_statistics_def)

lemma run_attempt_yields:
  "yields (run_attempt env ex req cx request job)
     (\<lambda>x. \<exists>a p d. stages_ok 5 p \<and> concluded env ex req (cx_baseline cx) a p d x)"
  unfolding run_attempt_def
proof (rule yields_and_then, rule yields_and_then, rule yields_and_then)
  fix job' a receipt
  show "yields (and_then (run_stages env ex req a) (\<lambda>p.
      and_then (delta_stage env req a (case ds_drc_ref (xq_current_snapshot req) of None \<Rightarrow> [] | Some r \<Rightarrow> ar_path r) p)
        (\<lambda>d. conclude env ex req cx a receipt p d)))
     (\<lambda>x. \<exists>a p d. stages_ok 5 p \<and> concluded env ex req (cx_baseline cx) a p d x)"
  proof (rule yields_bind [OF run_stages_ok], rule yields_and_then)
    fix p d assume p: "stages_ok 5 p"
    show "yields (conclude env ex req cx a receipt p d)
       (\<lambda>x. \<exists>a p d. stages_ok 5 p \<and> concluded env ex req (cx_baseline cx) a p d x)"
      using conclude_yields p unfolding yields_def by blast
  qed
qed

lemma execute_body_yields:
  "yields (execute_body env ex req)
     (\<lambda>x. \<exists>base_stats a p d. stages_ok 5 p \<and> concluded env ex req base_stats a p d x \<and> baseline_statistics env req base_stats)"
  unfolding execute_body_def
proof (rule yields_bind [OF preflight_yields], rule yields_and_then, rule yields_prod)
  fix cx :: tx_context and z request job
  assume "baseline_statistics env req (cx_baseline cx)"
  then show "yields (run_attempt env ex req cx request job)
     (\<lambda>x. \<exists>base_stats a p d. stages_ok 5 p \<and> concluded env ex req base_stats a p d x \<and> baseline_statistics env req base_stats)"
    using run_attempt_yields unfolding yields_def by blast
qed

lemma account_yields:
  assumes "yields m P"
  shows "yields (account_physical_attempts env m) P"
proof -
  have check: "check_terminal env x s = (Inr y, s') \<Longrightarrow> y = x" for x y s s'
    unfolding check_terminal_def and_then_result by (auto simp: and_then_result split: option.splits if_splits)
  have raised: "record_exception env e s \<noteq> (Inr y, s')" for e y s s'
    unfolding record_exception_def and_then_result by simp
  show ?thesis
    using assms unfolding yields_def account_physical_attempts_def and_then_result finally_result handle_result
    by (auto simp: raised and_then_result dest!: check)
qed

lemma execute_result:
  assumes "execute env ex req s = (Inr x, s')"
  obtains base_stats a p d where "stages_ok 5 p" "concluded env ex req base_stats a p d x" "baseline_statistics env req base_stats"
  using yieldsD [OF account_yields [OF execute_body_yields] assms [unfolded execute_def]] by blast

section \<open>The last record of the index\<close>

text \<open>The ledger of attempt \<open>i\<close> is active and has no terminal record yet.\<close>

definition ledger_open :: "string \<Rightarrow> tx_state \<Rightarrow> bool" where
  "ledger_open i s \<longleftrightarrow> (\<exists>l. js_ledger s = Some l \<and> \<not> lgr_terminal_written l \<and> lgr_attempt_id l = i)"

lemma append_index_ledger_open: "keeps (ledger_open i) (append_index env ev)"
  unfolding append_index_def
  by (intro triple_rules keeps_modify) (auto simp: ledger_open_def journal_only_def)

lemma ledger_open_stable [triple_rules]: "journal_stable (ledger_open i)"
  unfolding journal_stable_def
proof (intro conjI allI)
  show "journal_only (ledger_open i)" by (simp add: journal_only_def ledger_open_def)
  show "keeps (ledger_open i) (set_stage stage domain)" for stage domain
    unfolding keeps_def set_stage_def set_active_def
    by (intro triple_with_ledger triple_modify) (auto simp: ledger_open_def)
  show "keeps (ledger_open i) (phase_event env event details)" for env :: tx_env and event details
    unfolding phase_event_def by (intro triple_rules append_index_ledger_open)
qed

lemma triple_any: "triple P m (\<lambda>_ _. True) (\<lambda>_ _. True)"
  by (simp add: triple_def)

lemma triple_yields:
  "triple P m Q E \<Longrightarrow> yields m R \<Longrightarrow> triple P m (\<lambda>x s. R x \<and> Q x s) E"
  unfolding triple_def yields_def by blast

lemma triple_sum:
  "(\<And>x. v = Inl x \<Longrightarrow> triple P (g x) Q E) \<Longrightarrow> (\<And>x. v = Inr x \<Longrightarrow> triple P (h x) Q E) \<Longrightarrow>
   triple P (case v of Inl x \<Rightarrow> g x | Inr x \<Rightarrow> h x) Q E"
  by (cases v) simp_all

lemma open_ledger_opens:
  "triple P (open_ledger env i key trace patch effect retry) (\<lambda>_. ledger_open i) (\<lambda>_ _. True)"
  unfolding open_ledger_def
  by (rule triple_and_then [OF triple_any], rule triple_and_then [where R = "\<lambda>_. ledger_open i"],
      rule triple_modify, simp add: ledger_open_def,
      rule triple_weaken [OF append_index_ledger_open [unfolded keeps_def]]) simp_all

lemma begin_attempt_opens:
  "triple P (begin_attempt env req cx request)
     (\<lambda>_ s. \<exists>i. pq_requested_attempt_id request = Some i \<and> ledger_open i s) (\<lambda>_ _. True)"
proof (cases "pq_requested_attempt_id request")
  case None
  then show ?thesis by (simp add: begin_attempt_def raising_def triple_def)
next
  case (Some i)
  have rest: "keeps (ledger_open i)
      (and_then (set_stage ''PREPARE_JOB'' ''INFRASTRUCTURE'') (\<lambda>_. caught (ask (\<lambda>n. te_prepare env n request))))"
    by (intro triple_rules journal_stableD [OF ledger_open_stable])
  show ?thesis
    unfolding begin_attempt_def Some option.case
    by (rule triple_and_then [OF open_ledger_opens]) (use rest in \<open>auto simp: keeps_def intro: triple_weaken\<close>)
qed

lemma prepare_raised_yields:
  assumes "\<And>p. triple (\<lambda>_. True) (retry p) Q (\<lambda>_ _. True)"
  shows "triple P (prepare_raised env retry e) Q (\<lambda>_ _. True)"
proof -
  have other: "triple P (if \<not> is_exception e then throw e
       else and_then (storage_pause_of env e ''PREPARE_JOB'' ''KLayoutBackend'' (te_image env)
              (\<lambda>_. ''PREPARE_JOB'')) (\<lambda>p.
            case p of
              Some f \<Rightarrow> throw (ExnInfrastructure f)
            | None \<Rightarrow> throw (backend_failure env (''WORKSPACE_PREPARATION_FAILED: '' @ exn_message e)
                CodeWorkspaceOwnership False (Some (exn_class e)) ''PREPARE_JOB''))) Q (\<lambda>_ _. True)" for e
    unfolding triple_def and_then_result by (auto simp: and_then_result split: option.splits)
  show ?thesis
  proof (cases e)
    case (ExnInfrastructure f)
    show ?thesis unfolding prepare_raised_def ExnInfrastructure exn.case by (intro triple_throw) simp
  next
    case (ExnPreparation p)
    show ?thesis unfolding prepare_raised_def ExnPreparation exn.case
      by (rule triple_and_then [OF triple_any assms])
  qed (simp_all only: prepare_raised_def exn.case other)
qed

definition prepared :: "prepare_request \<times> prepared_job \<Rightarrow> tx_state \<Rightarrow> bool" where
  "prepared z s \<longleftrightarrow> (\<exists>i. pq_requested_attempt_id (fst z) = Some i \<and> ledger_open i s)"

lemma prepare_round_opens:
  assumes "\<And>p. triple (\<lambda>_. True) (retry p) prepared (\<lambda>_ _. True)"
  shows "triple P (and_then (begin_attempt env req cx request) (\<lambda>r.
      case r of Inr job \<Rightarrow> pass (request, job) | Inl e \<Rightarrow> prepare_raised env retry e)) prepared (\<lambda>_ _. True)"
  by (rule triple_and_then [OF begin_attempt_opens])
    (intro triple_sum prepare_raised_yields assms triple_pass, simp add: prepared_def)

lemma prepare_loop_opens: "triple (\<lambda>_. True) (prepare_loop env req cx n request) prepared (\<lambda>_ _. True)"
proof (induction n arbitrary: request)
  case 0
  show ?case unfolding prepare_loop.simps by (rule prepare_round_opens) (simp add: triple_throw)
next
  case (Suc n)
  show ?case
    unfolding prepare_loop.simps
    by (rule prepare_round_opens) (intro triple_if triple_throw triple_and_then [OF triple_any Suc.IH], simp)
qed

text \<open>The terminal record of attempt \<open>i\<close> is the last one that was written.\<close>

definition last_record :: "string \<Rightarrow> attempt_terminal_status \<Rightarrow> (string \<times> json) list \<Rightarrow> tx_state \<Rightarrow> bool" where
  "last_record i st details s \<longleftrightarrow>
     (\<exists>fs r evs key. js_finishes s = fs @ [(i, r, st)] \<and> js_index s = evs @ [AttemptTerminal i st key details])"

lemma terminal_records:
  "triple (ledger_open i) (terminal env st details) (\<lambda>_. last_record i st details) (\<lambda>_ _. True)"
  unfolding terminal_def
proof (rule triple_with_ledger)
  fix l
  show "triple (\<lambda>s. ledger_open i s \<and> js_ledger s = Some l)
      (if lgr_terminal_written l then pass ()
       else finally_do (append_index env (AttemptTerminal (lgr_attempt_id l) st (lgr_logical_evidence_key l) details))
         (finish_reservation env l st)) (\<lambda>_. last_record i st details) (\<lambda>_ _. True)"
    unfolding triple_def finally_result append_index_def finish_reservation_def and_then_result last_record_def
    by (auto simp: ledger_open_def finally_result append_index_def finish_reservation_def and_then_result ask_result)
qed (simp add: ledger_open_def)

definition recorded :: "tx_env \<Rightarrow> string \<Rightarrow> execution_result \<Rightarrow> tx_state \<Rightarrow> bool" where
  "recorded env i x s \<longleftrightarrow>
     (\<exists>st keep_workspace collected. vr_terminal_status (xr_verification x) = Some st \<and>
        last_record i st (final_details env (xr_verification x) (xr_accepted x) keep_workspace collected) s)"

lemma triple_fact: "(C \<Longrightarrow> triple I m Q E) \<Longrightarrow> triple (\<lambda>s. C \<and> I s) m Q E"
  unfolding triple_def by blast

lemma verified_open:
  "triple (ledger_open i) (raising (verification_of env a base_stats p d))
     (\<lambda>v s. vr_terminal_status v = Some (progress_status p) \<and> ledger_open i s) (\<lambda>_ _. True)"
  by (auto simp: triple_def raising_def exn_result_def verification_fields(7) split: sum.splits)

lemma conclude_records:
  "triple (ledger_open i) (conclude env ex req cx a receipt p d) (recorded env i) (\<lambda>_ _. True)"
  unfolding conclude_def Let_def
  by (rule triple_and_then [OF verified_open], rule triple_fact,
      intro triple_keeps_then triple_prod triple_rules journal_stableD [OF ledger_open_stable] TrueI
        triple_and_then [OF terminal_records] triple_pass) (auto simp: recorded_def)

lemma open_transaction_attempt:
  "yields (open_transaction env req cx request i job) (\<lambda>a. ta_attempt_id a = i)"
  unfolding open_transaction_def Let_def by (intro yields_and_then yields_pass) simp

lemma conclude_attempt:
  "yields (conclude env ex req cx a receipt p d) (\<lambda>x. xr_attempt_id x = Some (ta_attempt_id a))"
  using conclude_yields unfolding yields_def concluded_def Let_def by blast

lemma run_attempt_records:
  "triple (\<lambda>s. \<exists>i. pq_requested_attempt_id request = Some i \<and> ledger_open i s)
     (run_attempt env ex req cx request job)
     (\<lambda>x s. \<exists>i. xr_attempt_id x = Some i \<and> recorded env i x s) (\<lambda>_ _. True)"
proof (cases "pq_requested_attempt_id request")
  case None
  then show ?thesis by (simp add: triple_def)
next
  case (Some i)
  note stable = journal_stableD [OF ledger_open_stable]
  have tail: "triple (ledger_open i) (conclude env ex req cx a receipt p d)
      (\<lambda>x s. xr_attempt_id x = Some i \<and> recorded env i x s) (\<lambda>_ _. True)" if "ta_attempt_id a = i" for a receipt p d
    using triple_yields [OF conclude_records conclude_attempt, of i env ex req cx a receipt p d] that by simp
  have opened: "triple (ledger_open i) (open_transaction env req cx request i job)
      (\<lambda>a s. ta_attempt_id a = i \<and> ledger_open i s) (\<lambda>_ _. True)" for job
    using keeps_open_transaction [OF ledger_open_stable, of i env req cx request i job]
    unfolding keeps_def by (rule triple_weaken [OF triple_yields [OF _ open_transaction_attempt]]) simp_all
  have "triple (ledger_open i) (run_attempt env ex req cx request job)
      (\<lambda>x s. xr_attempt_id x = Some i \<and> recorded env i x s) (\<lambda>_ _. True)"
    unfolding run_attempt_def Some option.sel
    by (intro triple_keeps_then [OF keeps_claim_job] triple_and_then [OF opened] triple_fact
        triple_keeps_then [OF keeps_patch_stage [OF ledger_open_stable]]
        triple_keeps_then [OF keeps_run_stages [OF ledger_open_stable]]
        triple_keeps_then [OF keeps_delta_stage [OF ledger_open_stable]] tail TrueI)
  then show ?thesis unfolding Some triple_def by auto
qed

lemma execute_body_records:
  "triple P (execute_body env ex req) (\<lambda>x s. \<exists>i. xr_attempt_id x = Some i \<and> recorded env i x s) (\<lambda>_ _. True)"
  unfolding execute_body_def
proof (rule triple_and_then [OF triple_any], rule triple_and_then [OF prepare_loop_opens])
  fix cx and z :: "prepare_request \<times> prepared_job"
  show "triple (prepared z) (case z of (request, job) \<Rightarrow> run_attempt env ex req cx request job)
      (\<lambda>x s. \<exists>i. xr_attempt_id x = Some i \<and> recorded env i x s) (\<lambda>_ _. True)"
    by (cases z) (simp add: prepared_def [abs_def] run_attempt_records)
qed

lemma account_runs:
  assumes "account_physical_attempts env m s = (Inr x, s')"
  obtains s1 where "m (s\<lparr>js_ledger := None\<rparr>) = (Inr x, s1)" "js_finishes s' = js_finishes s1" "js_index s' = js_index s1"
proof -
  have check: "check_terminal env x s = (Inr y, s') \<Longrightarrow> y = x \<and> s' = s" for x y s s'
    unfolding check_terminal_def and_then_result by (auto simp: and_then_result split: option.splits if_splits)
  have raised: "record_exception env e s \<noteq> (Inr y, s')" for e y s s'
    unfolding record_exception_def and_then_result by simp
  show thesis
    using assms that unfolding account_physical_attempts_def and_then_result finally_result handle_result set_active_def
    by (auto simp: raised and_then_result dest!: check)
qed

section \<open>Properties of execute\<close>

text \<open>
  C1. A run commits only on complete evidence: when \<open>execute\<close> returns an accepted result, script,
  layout, DRC, sanity and connectivity of this attempt were all evaluated and valid, the sanity check
  passed, connectivity is preserved, no violation is new and at least one is gone; the attempt is
  terminal as evaluated, the transaction is committed, and the committed snapshot is the attempted
  one, at another place, with its number of violations.
\<close>

theorem commits_only_on_complete_evidence:
  assumes "execute env ex req s = (Inr x, s')" "xr_accepted x"
  shows "(\<forall>validity \<in> {vr_script_validity, vr_layout_validity, vr_drc_validity, vr_sanity_validity, vr_connectivity_validity}.
        validity (xr_verification x) = EvidenceValid) \<and>
    vr_fresh_evidence_valid (xr_verification x) \<and>
    vr_gds_sanity_pass (xr_verification x) = Some True \<and>
    vr_connectivity_preserved (xr_verification x) = Some True \<and>
    vr_new_violation_count (xr_verification x) = Some 0 \<and>
    (\<exists>n > 0. vr_removed_original_count (xr_verification x) = Some n) \<and>
    vr_terminal_status (xr_verification x) = Some TerminalEvaluated \<and>
    tn_status (xr_transaction x) = TxCommitted \<and> xr_rollback_reason x = None \<and>
    copy_of (xr_committed_snapshot x) (xr_attempted_snapshot x) \<and>
    xr_attempted_total_drv x = Some (xr_committed_total_drv x)"
proof -
  from assms(1) obtain base_stats a p d where p: "stages_ok 5 p" and x: "concluded env ex req base_stats a p d x"
    by (rule execute_result)
  have v: "verification_of env a base_stats p d = Inr (xr_verification x)" using x by (simp add: concluded_def Let_def)
  have accepted: "ad_accepted (evaluate_acceptance (xr_verification x) (tx_acceptance ex))"
    using x assms(2) by (simp add: concluded_def Let_def)
  then have "vr_outcome (xr_verification x) = OutcomeSuccess" by (simp add: evaluate_acceptance_iff)
  note found = verification_outcome_success [OF v this p]
  then have status: "progress_status p = TerminalEvaluated" using progress_status_evaluated [OF p] by simp
  have "complete_validity p" using found complete_iff [OF p] by simp
  then show ?thesis
    using x found accepted status verification_fields [OF v]
    by (simp add: concluded_def Let_def complete_validity_def validities_def)
qed

text \<open>
  C9. A run that does not accept goes back: the committed snapshot is the current one, at another
  place, its number of violations is that of the report of the current snapshot, the transaction is
  rolled back or cancelled and states a reason.
\<close>

theorem rollback_keeps_current:
  assumes "execute env ex req s = (Inr x, s')" "\<not> xr_accepted x"
  shows "copy_of (xr_committed_snapshot x) (xq_current_snapshot req) \<and>
    (\<exists>st. baseline_statistics env req st \<and> xr_committed_total_drv x = dst_total_drv st) \<and>
    tn_status (xr_transaction x) \<in> {TxRolledBack, TxCancelled} \<and>
    xr_rollback_reason x \<noteq> None \<and> xr_decision_reasons x \<noteq> []"
proof -
  from assms(1) obtain base_stats a p d where x: "concluded env ex req base_stats a p d x"
    and base: "baseline_statistics env req base_stats"
    by (rule execute_result)
  have "\<not> ad_accepted (evaluate_acceptance (xr_verification x) (tx_acceptance ex))"
    using x assms(2) by (simp add: concluded_def Let_def)
  then show ?thesis
    using x base evaluate_acceptance_reasons [of "xr_verification x" "tx_acceptance ex"]
    by (auto simp: concluded_def Let_def)
qed

text \<open>
  C11. The five validities of a returned verification are a prefix of valid ones, then, unless all five
  are valid, one error, then stages that were not evaluated; the evidence is fresh, and the attempt
  recorded as evaluated, exactly when all five are valid.
\<close>

theorem evidence_is_prefix:
  assumes "execute env ex req s = (Inr x, s')"
  shows "\<exists>k \<le> 5. map (\<lambda>validity. validity (xr_verification x))
        [vr_script_validity, vr_layout_validity, vr_drc_validity, vr_sanity_validity, vr_connectivity_validity] =
      replicate k EvidenceValid @ (if k = 5 then [] else EvidenceError # replicate (4 - k) EvidenceNotEvaluated) \<and>
    (vr_fresh_evidence_valid (xr_verification x) \<longleftrightarrow> k = 5) \<and>
    (vr_terminal_status (xr_verification x) = Some TerminalEvaluated \<longleftrightarrow> k = 5) \<and>
    tn_terminal_status (xr_transaction x) = vr_terminal_status (xr_verification x)"
proof -
  from assms obtain base_stats a p d where p: "stages_ok 5 p" and x: "concluded env ex req base_stats a p d x"
    by (rule execute_result)
  have v: "verification_of env a base_stats p d = Inr (xr_verification x)" using x by (simp add: concluded_def Let_def)
  have list: "map (\<lambda>validity. validity (xr_verification x))
      [vr_script_validity, vr_layout_validity, vr_drc_validity, vr_sanity_validity, vr_connectivity_validity] = validities p"
    by (simp add: validities_def verification_fields [OF v])
  have status: "vr_terminal_status (xr_verification x) = Some (progress_status p)"
    "tn_terminal_status (xr_transaction x) = Some (progress_status p)"
    "vr_fresh_evidence_valid (xr_verification x) = complete_validity p"
    using x by (simp_all add: verification_fields [OF v] concluded_def Let_def)
  have all: "progress_status p = TerminalEvaluated \<longleftrightarrow> pg_failure p = None" "complete_validity p \<longleftrightarrow> pg_failure p = None"
    using p by (simp_all add: progress_status_evaluated complete_iff)
  show ?thesis
  proof (cases "pg_failure p")
    case None
    then have "validities p = replicate 5 EvidenceValid" using p by (simp add: stages_ok_def)
    then show ?thesis unfolding list status all option.inject using None by (intro exI [of _ 5]) simp
  next
    case (Some f)
    then obtain i where "i < 5"
      "validities p = replicate i EvidenceValid @ EvidenceError # replicate (4 - i) EvidenceNotEvaluated"
      using p by (auto simp: stages_ok_def)
    then show ?thesis unfolding list status all option.inject using Some by (intro exI [of _ i]) simp
  qed
qed

text \<open>
  C12. The index and the result tell the same: when \<open>execute\<close> returns, the last finished reservation and
  the last record of the attempt index are those of the returned attempt, with the terminal status of
  its verification and with the details of the verdict that is returned.
\<close>

theorem final_record_matches_result:
  assumes "execute env ex req s = (Inr x, s')"
  shows "\<exists>i st r key keep_workspace collected fs evs.
    xr_attempt_id x = Some i \<and> vr_terminal_status (xr_verification x) = Some st \<and>
    js_finishes s' = fs @ [(i, r, st)] \<and>
    js_index s' = evs @ [AttemptTerminal i st key
      (final_details env (xr_verification x) (xr_accepted x) keep_workspace collected)]"
proof -
  from assms obtain s1 where run: "execute_body env ex req (s\<lparr>js_ledger := None\<rparr>) = (Inr x, s1)"
    and same: "js_finishes s' = js_finishes s1" "js_index s' = js_index s1"
    unfolding execute_def by (rule account_runs)
  obtain i where "xr_attempt_id x = Some i" "recorded env i x s1"
    using triple_Inr [OF execute_body_records [of "\<lambda>_. True"] TrueI run] by blast
  then show ?thesis unfolding recorded_def last_record_def same by blast
qed

end
