(* ===== verification/Transaction_Liveness.thy ===== *)
theory Transaction_Liveness
  imports Transaction_Results
begin

text \<open>
  A patch that the evidence supports is committed: when every outside call answers, every tool
  succeeds and the acceptance gate passes on what they report, \<open>execute\<close> returns an accepted result.
\<close>

section \<open>Effects that return\<close>

text \<open>From every state of \<open>I\<close> the effect returns a value of \<open>P\<close>, in a state of \<open>J\<close>.\<close>

definition leads :: "(tx_state \<Rightarrow> bool) \<Rightarrow> 'a tx \<Rightarrow> ('a \<Rightarrow> bool) \<Rightarrow> (tx_state \<Rightarrow> bool) \<Rightarrow> bool" where
  "leads I m P J \<longleftrightarrow> (\<forall>s. I s \<longrightarrow> (\<exists>x s'. m s = (Inr x, s') \<and> P x \<and> J s'))"

abbreviation returns :: "(tx_state \<Rightarrow> bool) \<Rightarrow> 'a tx \<Rightarrow> ('a \<Rightarrow> bool) \<Rightarrow> bool" where
  "returns I m P \<equiv> leads I m P I"

lemma returns_weaken: "leads I m P J \<Longrightarrow> (\<And>x. P x \<Longrightarrow> Q x) \<Longrightarrow> leads I m Q J"
  unfolding leads_def by blast

lemma returns_pass: "P x \<Longrightarrow> returns I (pass x) P"
  by (simp add: leads_def)

lemma returns_done: "returns I (pass x) (\<lambda>_. True)"
  by (rule returns_pass) simp

lemma returns_and_then: "leads I m R J \<Longrightarrow> (\<And>x. R x \<Longrightarrow> leads J (g x) P K) \<Longrightarrow> leads I (and_then m g) P K"
  unfolding leads_def and_then_result by blast

lemma returns_caught: "leads I m (\<lambda>x. P (Inr x)) J \<Longrightarrow> leads I (caught m) P J"
  unfolding leads_def caught_result by blast

lemma returns_ask:
  assumes "journal_only I" "\<And>n. \<exists>x. g n = Inr x \<and> P x"
  shows "returns I (ask g) P"
  using assms unfolding leads_def ask_result journal_only_def by blast

lemma returns_raising: "r = Inr x \<Longrightarrow> P x \<Longrightarrow> returns I (raising r) P"
  by (simp add: leads_def raising_def)

lemma returns_map_effect: "(\<And>x. returns I (g x) (\<lambda>_. True)) \<Longrightarrow> returns I (map_effect g xs) (\<lambda>_. True)"
  by (induction xs) (auto intro: returns_pass returns_and_then)

section \<open>An environment that answers\<close>

text \<open>
  What the outside answers: no call raises; identities have their patterns; the backend prepares the
  attempt that it is asked for; the parsed patched script has the expected objects; every tool
  succeeds; the reports can be read and are consistent. The verdict of the tools is the score
  \<open>score\<close> and the two flags.
\<close>

definition answers :: "(nat \<Rightarrow> exn + 'a) \<Rightarrow> ('a \<Rightarrow> bool) \<Rightarrow> bool" where
  "answers g P \<longleftrightarrow> (\<forall>n. \<exists>x. g n = Inr x \<and> P x)"

definition flagged :: "json \<Rightarrow> bool \<Rightarrow> bool \<Rightarrow> bool" where
  "flagged data passed preserved \<longleftrightarrow>
     flag_of data ''passed'' = Inr passed \<and> flag_of data ''connectivity_preserved'' = Inr preserved"

definition journal_answers :: "tx_env \<Rightarrow> bool" where
  "journal_answers env \<longleftrightarrow> calm env \<and> (\<forall>trace i. answers (\<lambda>n. je_claim env n trace i) (\<lambda>_. True))"

definition preflight_answers :: "tx_env \<Rightarrow> executor \<Rightarrow> tx_request \<Rightarrow> drc_stats \<Rightarrow> bool" where
  "preflight_answers env ex req base_stats \<longleftrightarrow>
     (\<forall>g. te_image_digest env = Some g \<longrightarrow> answers g (\<lambda>_. True)) \<and>
     (\<forall>e. answers (\<lambda>n. te_logical_key env n e) (hex_pattern [] 64)) \<and>
     (\<forall>p. answers (\<lambda>n. te_file_sha256 env n p) (\<lambda>_. True)) \<and>
     answers (te_evaluator_hash env) (\<lambda>_. True) \<and>
     (\<forall>p producer media. answers (\<lambda>n. te_ref env n p producer media) (\<lambda>_. True)) \<and>
     (\<forall>n. hex_pattern ''attempt_'' 32 (te_new_attempt env n)) \<and>
     {''rule_deck'', ''connectivity'', ''sanity_helper'', ''connectivity_helper''} \<subseteq> dom (map_of (tx_paths ex)) \<and>
     (\<exists>gds drc. ds_gds_ref (xq_current_snapshot req) = Some gds \<and> ds_drc_ref (xq_current_snapshot req) = Some drc \<and>
        answers (\<lambda>n. te_read_json env n (ar_path drc)) (\<lambda>data. drc_statistics (te_str env) data = Inr base_stats)) \<and>
     ds_gds_ref (xq_baseline_snapshot req) \<noteq> None"

definition backend_answers :: "tx_env \<Rightarrow> tx_request \<Rightarrow> bool" where
  "backend_answers env req \<longleftrightarrow>
     (\<forall>q. answers (\<lambda>n. te_prepare env n q) (\<lambda>job. pj_attempt_id job = pq_requested_attempt_id q)) \<and>
     (\<forall>p. answers (\<lambda>n. te_write_json env n p) (\<lambda>_. True)) \<and>
     (\<forall>a b. answers (\<lambda>n. te_copy env n a b) (\<lambda>_. True)) \<and>
     answers (te_control env) (\<lambda>_. True) \<and>
     (\<forall>plan a b sources. answers (\<lambda>n. te_apply_patch env n plan a b sources)
        (\<lambda>lineage. \<forall>l fresh. lineage = Some l \<longrightarrow> (\<exists>l'. final_lineage fresh l = Inr l'))) \<and>
     (\<forall>p. answers (\<lambda>n. te_build_map env n p) (\<lambda>patched.
        check_after_hashes (dict_of (map (\<lambda>x. (lo_object_id x, x)) (xq_source_map req))) patched
          (pp_expected_object_after_hashes (xq_patch_plan req)) = Inr ())) \<and>
     (\<forall>a b c. answers (\<lambda>n. te_write_diff env n a b c) (\<lambda>_. True)) \<and>
     (\<forall>state details. answers (\<lambda>n. te_mark_job env n state details) (\<lambda>_. True)) \<and>
     (\<forall>d. answers (\<lambda>n. te_list_dir env n d) (\<lambda>_. True)) \<and>
     (\<forall>job d. answers (\<lambda>n. te_collect env n job d) (\<lambda>_. True)) \<and>
     (\<forall>g tools. te_remap env = Some g \<longrightarrow> answers (\<lambda>n. g n tools) (\<lambda>tools'. infra_tool tools' = None)) \<and>
     (\<forall>job b. answers (\<lambda>n. te_cleanup env n job b) (\<lambda>_. True))"

definition tools_answer :: "tx_env \<Rightarrow> tx_request \<Rightarrow> repair_score \<Rightarrow> bool \<Rightarrow> bool \<Rightarrow> bool" where
  "tools_answer env req score sanity preserved \<longleftrightarrow>
     (\<forall>call job t. answers (\<lambda>n. te_tool env n call job t)
        (\<lambda>r. tl_status r = ToolSuccess \<and> infra_tool [r] = None)) \<and>
     (\<forall>p. answers (\<lambda>n. te_validate_lyrpt env n p) (\<lambda>_. True)) \<and>
     (\<forall>r a b. answers (\<lambda>n. te_convert env n r a b) (\<lambda>_. True)) \<and>
     (\<forall>a b. answers (\<lambda>n. te_score env n a b) (\<lambda>x. x = score)) \<and>
     (\<forall>n p. te_is_file env n p) \<and>
     (\<forall>a. answers (\<lambda>n. te_read_json env n (job_path a [''report'', ''sanity.json'']))
        (\<lambda>data. flag_of data ''passed'' = Inr sanity)) \<and>
     (\<forall>a. answers (\<lambda>n. te_read_json env n (job_path a [''connectivity'', ''result.json'']))
        (\<lambda>data. connectivity_flag data = Inr preserved)) \<and>
     (\<forall>a. answers (\<lambda>n. te_read_json env n (drc_report_path req a))
        (\<lambda>data. \<exists>st. drc_statistics (te_str env) data = Inr st)) \<and>
     (\<forall>a b. answers (\<lambda>n. te_delta env n a b) (\<lambda>d.
        \<not> exceeds (vd_removed_marker_fingerprints d) (Some (osc_removed_violations score)) \<and>
        \<not> exceeds (vd_new_marker_fingerprints d) (Some (osc_new_violations score))))"

lemma returns_answers: "journal_only I \<Longrightarrow> answers g P \<Longrightarrow> returns I (ask g) P"
  unfolding answers_def by (intro returns_ask) auto


lemma returns_total: "journal_only I \<Longrightarrow> (\<And>n. \<exists>x. g n = Inr x \<and> P x) \<Longrightarrow> returns I (ask g) P"
  by (rule returns_ask)

lemma journal_only_True [triple_rules]: "journal_only (\<lambda>_. True)"
  by (simp add: journal_only_def)

lemma returns_now: "journal_only I \<Longrightarrow> returns I (now env) (\<lambda>_. True)"
  unfolding now_def by (rule returns_ask) simp_all

lemma returns_is_file: "journal_only I \<Longrightarrow> tools_answer env req score a b \<Longrightarrow> returns I (is_file env p) (\<lambda>x. x)"
  unfolding is_file_def tools_answer_def by (rule returns_ask) auto

lemma returns_log: "journal_only I \<Longrightarrow> returns I (log_stored e) (\<lambda>_. True)"
  unfolding log_stored_def leads_def journal_only_def by simp

lemma returns_write: "journal_only I \<Longrightarrow> backend_answers env req \<Longrightarrow> returns I (write_json env e) (\<lambda>_. True)"
  unfolding write_json_def backend_answers_def
  by (intro returns_and_then [OF returns_answers] returns_and_then [OF returns_log] returns_pass) auto

lemma returns_copy: "journal_only I \<Longrightarrow> backend_answers env req \<Longrightarrow> returns I (copy_file env a b) (\<lambda>_. True)"
  unfolding copy_file_def backend_answers_def
  by (intro returns_and_then [OF returns_answers] returns_and_then [OF returns_log] returns_pass) auto

lemma returns_copy_if_file:
  "journal_only I \<Longrightarrow> backend_answers env req \<Longrightarrow> returns I (copy_if_file env a b) (\<lambda>_. True)"
  unfolding copy_if_file_def is_file_def
  by (rule returns_and_then [OF returns_ask [where P = "\<lambda>_. True"]])
    (auto intro!: returns_pass returns_and_then [OF returns_copy])

lemma returns_mark_job: "journal_only I \<Longrightarrow> backend_answers env req \<Longrightarrow> returns I (mark_job env state d) (\<lambda>_. True)"
  unfolding mark_job_def backend_answers_def
  by (auto intro!: returns_pass returns_and_then [OF returns_answers [where P = "\<lambda>_. True"]])
    (auto simp: leads_def journal_only_def)

lemma returns_set_stage: "returns (ledger_open i) (set_stage stage domain) (\<lambda>_. True)"
  by (auto simp: leads_def set_stage_def with_ledger_def and_then_result set_active_def ledger_open_def)

lemma append_index_calm:
  "calm env \<Longrightarrow> append_index env ev s =
     (Inr (), s\<lparr>js_clock := Suc (js_clock s), js_index := js_index s @ [ev]\<rparr>)"
  by (simp add: append_index_def and_then_def ask_def modify_def calm_def)

lemma returns_phase:
  assumes "calm env"
  shows "returns (ledger_open i) (phase_event env event d) (\<lambda>_. True)"
  using assms
  by (auto simp: leads_def phase_event_def with_ledger_def and_then_result append_index_calm ledger_open_def)

lemma stable_only: "journal_only (ledger_open i)"
  by (rule journal_stableD [OF ledger_open_stable])

subsection \<open>Preflight\<close>

lemma returns_path_item: "k \<in> dom (map_of (tx_paths ex)) \<Longrightarrow> returns I (path_item ex k) (\<lambda>_. True)"
  unfolding path_item_def by (auto intro: returns_pass)

lemma returns_paths:
  assumes "preflight_answers env ex req base_stats"
    "k \<in> {''rule_deck'', ''connectivity'', ''sanity_helper'', ''connectivity_helper''}" "journal_only I"
  shows "returns I (path_item ex k) (\<lambda>_. True)" "returns I (path_sha256 env ex k) (\<lambda>_. True)"
    "returns I (optional_sha256 env ex k) (\<lambda>_. True)"
proof -
  have "{''rule_deck'', ''connectivity'', ''sanity_helper'', ''connectivity_helper''} \<subseteq> dom (map_of (tx_paths ex))"
    using assms(1) by (simp only: preflight_answers_def)
  then have k: "k \<in> dom (map_of (tx_paths ex))" using assms(2) by (rule subsetD)
  have sha: "answers (\<lambda>n. te_file_sha256 env n p) (\<lambda>_. True)" for p
    using assms(1) by (simp only: preflight_answers_def)
  show item: "returns I (path_item ex k) (\<lambda>_. True)" using k by (rule returns_path_item)
  show "returns I (path_sha256 env ex k) (\<lambda>_. True)"
    unfolding path_sha256_def by (rule returns_and_then [OF item]) (rule returns_answers [OF assms(3) sha])
  show "returns I (optional_sha256 env ex k) (\<lambda>_. True)"
    using k unfolding optional_sha256_def
    by (auto intro!: returns_and_then [OF returns_answers [OF assms(3) sha]] returns_pass)
qed

lemma returns_image_digest:
  assumes "preflight_answers env ex req base_stats" "journal_only I"
  shows "returns I (image_digest env) (\<lambda>_. True)"
proof -
  have "returns I (case te_image_digest env of None \<Rightarrow> pass (te_hash env (JStr (te_image env))) | Some g \<Rightarrow> ask g) (\<lambda>_. True)"
    using assms unfolding preflight_answers_def by (auto split: option.split intro: returns_pass returns_answers)
  then show ?thesis
    unfolding image_digest_def
    by (intro returns_and_then [OF returns_caught [where P = "\<lambda>r. \<exists>d. r = Inr d"]])
      (auto intro: returns_weaken returns_pass)
qed

lemma and_then_pass: "and_then (pass x) g = g x"
  by (rule ext) (simp add: and_then_def pass_def)

lemma preflight_refs:
  assumes "preflight_answers env ex req base_stats"
  obtains gds drc where "ds_gds_ref (xq_current_snapshot req) = Some gds" "ds_drc_ref (xq_current_snapshot req) = Some drc"
    "answers (\<lambda>n. te_read_json env n (ar_path drc)) (\<lambda>data. drc_statistics (te_str env) data = Inr base_stats)"
proof -
  have "\<exists>gds drc. ds_gds_ref (xq_current_snapshot req) = Some gds \<and> ds_drc_ref (xq_current_snapshot req) = Some drc \<and>
        answers (\<lambda>n. te_read_json env n (ar_path drc)) (\<lambda>data. drc_statistics (te_str env) data = Inr base_stats)"
    using assms by (simp only: preflight_answers_def)
  then show thesis using that by blast
qed

lemma preflight_key:
  assumes a: "preflight_answers env ex req base_stats"
  shows "returns (\<lambda>_. True) (logical_key env ex req plan policy) (hex_pattern [] 64)"
proof -
  note only = journal_only_True
  have k: "answers (\<lambda>n. te_logical_key env n e) (hex_pattern [] 64)" "answers (te_evaluator_hash env) (\<lambda>_. True)" for e
    using a by (simp_all only: preflight_answers_def)
  show ?thesis
    unfolding logical_key_def Let_def
    apply (rule returns_and_then [OF returns_image_digest [OF a only]])
    apply (rule returns_and_then [OF returns_paths(2) [OF a _ only]], simp)
    apply (rule returns_and_then [OF returns_answers [OF only k(2)]])
    apply (rule returns_and_then [OF returns_paths(3) [OF a _ only]], simp)
    apply (rule returns_and_then [OF returns_paths(3) [OF a _ only]], simp)
    apply (rule returns_answers [OF only k(1)])
    done
qed

definition asked :: "drc_stats \<Rightarrow> tx_context \<Rightarrow> bool" where
  "asked base_stats cx \<longleftrightarrow> cx_baseline cx = base_stats \<and> (\<exists>i. pq_requested_attempt_id (cx_request cx) = Some i)"

lemma returns_preflight:
  assumes a: "preflight_answers env ex req base_stats"
  shows "returns (\<lambda>_. True) (preflight env ex req) (asked base_stats)"
proof -
  note only = journal_only_True
  obtain gds drc where refs: "ds_gds_ref (xq_current_snapshot req) = Some gds"
    "ds_drc_ref (xq_current_snapshot req) = Some drc"
    and report: "answers (\<lambda>n. te_read_json env n (ar_path drc)) (\<lambda>data. drc_statistics (te_str env) data = Inr base_stats)"
    using a by (rule preflight_refs)
  have stats: "returns (\<lambda>_. True) (file_statistics env (ar_path drc)) (\<lambda>st. st = base_stats)"
    unfolding file_statistics_def
    by (rule returns_and_then [OF returns_answers [OF only report]]) (simp add: returns_raising)
  have ref: "answers (\<lambda>n. te_ref env n p producer media) (\<lambda>_. True)" "answers (te_evaluator_hash env) (\<lambda>_. True)"
    for p producer media
    using a by (simp_all only: preflight_answers_def)
  have "\<forall>n. hex_pattern ''attempt_'' 32 (te_new_attempt env n)"
    using a by (simp only: preflight_answers_def simp_thms)
  then have new: "answers (\<lambda>n. Inr (te_new_attempt env n)) (hex_pattern ''attempt_'' 32)"
    by (simp add: answers_def)
  show ?thesis
    unfolding preflight_def Let_def refs option.case required_ref_def and_then_pass
    apply (rule returns_and_then [OF preflight_key [OF a]])
    apply (rule returns_and_then [OF stats])
    apply (rule returns_and_then [OF returns_paths(1) [OF a _ only]], simp)
    apply (rule returns_and_then [OF returns_answers [OF only ref(1)]])
    apply (rule returns_and_then [OF returns_paths(1) [OF a _ only]], simp)
    apply (rule returns_and_then [OF returns_answers [OF only ref(1)]])
    apply (rule returns_and_then [OF returns_answers [OF only ref(2)]])
    apply (rule returns_and_then [OF returns_answers [OF only new]])
    apply (rule returns_and_then [OF returns_raising [where P = "\<lambda>q. \<exists>i. pq_requested_attempt_id q = Some i"]])
      apply (simp add: validate_prepare_request_def)
     apply simp
    apply (rule returns_pass)
    apply (simp add: asked_def)
    done
qed


subsection \<open>The workspace and the patch\<close>

text \<open>The ledger is opened, so the invariant of what follows is \<open>ledger_open i\<close>.\<close>

abbreviation opens :: "string \<Rightarrow> 'a tx \<Rightarrow> ('a \<Rightarrow> bool) \<Rightarrow> bool" where
  "opens i m P \<equiv> leads (\<lambda>_. True) m P (ledger_open i)"

lemma open_ledger_returns:
  assumes "journal_answers env"
  shows "opens i (open_ledger env i key trace patch effect retry) (\<lambda>_. True)"
proof -
  have calm: "calm env" and claim: "answers (\<lambda>n. je_claim env n trace i) (\<lambda>_. True)"
    using assms by (simp_all add: journal_answers_def)
  show ?thesis
    unfolding leads_def
  proof (intro allI impI)
    fix s :: tx_state
    obtain c where "je_claim env (js_clock s) trace i = Inr c" using claim unfolding answers_def by blast
    then show "\<exists>x s'. open_ledger env i key trace patch effect retry s = (Inr x, s') \<and> True \<and> ledger_open i s'"
      unfolding open_ledger_def
      by (simp add: and_then_result ask_result append_index_calm [OF calm] ledger_open_def)
  qed
qed

lemma returns_begin:
  assumes "journal_answers env" "backend_answers env req" "pq_requested_attempt_id request = Some i"
  shows "opens i (begin_attempt env req cx request) (\<lambda>r. \<exists>job. r = Inr job \<and> pj_attempt_id job = Some i)"
proof -
  have prepare: "answers (\<lambda>n. te_prepare env n request) (\<lambda>job. pj_attempt_id job = pq_requested_attempt_id request)"
    using assms(2) by (simp only: backend_answers_def)
  show ?thesis
    unfolding begin_attempt_def assms(3) option.case
    apply (rule returns_and_then [OF open_ledger_returns [OF assms(1)]])
    apply (rule returns_and_then [OF returns_set_stage])
    apply (rule returns_caught)
    apply (rule returns_weaken [OF returns_answers [OF stable_only prepare]])
    apply (simp add: assms(3))
    done
qed

lemma returns_prepare:
  assumes "journal_answers env" "backend_answers env req" "pq_requested_attempt_id request = Some i"
  shows "opens i (prepare_loop env req cx n request) (\<lambda>z. fst z = request \<and> pj_attempt_id (snd z) = Some i)"
  by (cases n; simp only: prepare_loop.simps, rule returns_and_then [OF returns_begin [OF assms]])
    (auto simp: returns_pass)

lemma returns_claim: "pj_attempt_id job = i \<Longrightarrow> returns I (claim_job env cx i job) (\<lambda>_. True)"
  by (simp add: claim_job_def returns_done)

lemma returns_open_transaction:
  assumes "journal_answers env" "backend_answers env req"
  shows "returns (ledger_open i) (open_transaction env req cx request i' job) (\<lambda>_. True)"
proof -
  have calm: "calm env" using assms(1) by (simp add: journal_answers_def)
  show ?thesis
    unfolding open_transaction_def Let_def
    apply (rule returns_and_then [OF returns_phase [OF calm]])
    apply (rule returns_and_then [OF returns_write [OF stable_only assms(2)]])
    apply (rule returns_and_then [OF returns_now [OF stable_only]])
    apply (rule returns_and_then [OF returns_phase [OF calm]])
    apply (rule returns_done)
    done
qed

definition receipt_ok :: "lineage option \<times> artifact_ref option \<Rightarrow> bool" where
  "receipt_ok receipt \<longleftrightarrow> (\<forall>l fresh. fst receipt = Some l \<longrightarrow> (\<exists>l'. final_lineage fresh l = Inr l'))"

lemma returns_apply_patch:
  assumes "backend_answers env req"
  shows "returns (ledger_open i) (apply_patch env req a) receipt_ok"
proof -
  have k: "answers (te_control env) (\<lambda>_. True)"
    "answers (\<lambda>n. te_apply_patch env n plan p q sources)
        (\<lambda>lineage. \<forall>l fresh. lineage = Some l \<longrightarrow> (\<exists>l'. final_lineage fresh l = Inr l'))"
    "answers (\<lambda>n. te_build_map env n p) (\<lambda>patched.
        check_after_hashes (dict_of (map (\<lambda>x. (lo_object_id x, x)) (xq_source_map req))) patched
          (pp_expected_object_after_hashes (xq_patch_plan req)) = Inr ())" for plan p q sources
    using assms by (simp_all only: backend_answers_def)
  have lineage: "returns (ledger_open i) (case l of None \<Rightarrow> pass None
       | Some l \<Rightarrow> and_then (write_json env (StoredLineage p l)) (\<lambda>r. pass (Some r))) (\<lambda>_. True)" for l p
    by (cases l) (auto intro: returns_pass returns_and_then [OF returns_write [OF stable_only assms]])
  show ?thesis
    unfolding apply_patch_def
    apply (rule returns_and_then [OF returns_answers [OF stable_only k(1)]])
    apply (rule returns_and_then [OF returns_answers [OF stable_only k(2)]])
    apply (rule returns_and_then [OF lineage])
    apply (rule returns_and_then [OF returns_answers [OF stable_only k(3)]])
    apply (rule returns_and_then [OF returns_raising [where P = "\<lambda>_. True"]], assumption, simp)
    apply (rule returns_pass)
    apply (simp add: receipt_ok_def)
    done
qed

lemma returns_patch_stage:
  assumes "backend_answers env req"
  shows "returns (ledger_open i) (patch_stage env req a) receipt_ok"
proof -
  have diff: "answers (\<lambda>n. te_write_diff env n p q r) (\<lambda>_. True)" for p q r
    using assms by (simp only: backend_answers_def)
  show ?thesis
    unfolding patch_stage_def
    apply (rule returns_and_then [OF returns_set_stage])
    apply (rule returns_and_then [OF returns_caught [where P = "\<lambda>r. \<exists>x. r = Inr x \<and> receipt_ok x"]])
     apply (rule returns_weaken [OF returns_apply_patch [OF assms]], simp)
    apply (rule returns_and_then [where R = receipt_ok and J = "ledger_open i"])
     apply (erule exE, simp add: returns_pass)
    apply (rule returns_and_then [OF returns_answers [OF stable_only diff]])
    apply (rule returns_and_then [OF returns_copy [OF stable_only assms]])
    apply (rule returns_pass, assumption)
    done
qed


subsection \<open>The stages\<close>

definition all_well :: "progress \<Rightarrow> bool" where
  "all_well p \<longleftrightarrow> pg_failure p = None \<and> infra_tool (pg_tools p) = None"

lemma infra_tool_append: "infra_tool xs = None \<Longrightarrow> infra_tool [r] = None \<Longrightarrow> infra_tool (xs @ [r]) = None"
  unfolding infra_tool_def find_None_iff by auto

lemma all_well_add [simp]: "all_well p \<Longrightarrow> infra_tool [r] = None \<Longrightarrow> all_well (add_tool r p)"
  by (simp add: all_well_def add_tool_def infra_tool_append)

lemma all_well_frame [simp]:
  "all_well (p\<lparr>pg_script := v\<rparr>) = all_well p" "all_well (p\<lparr>pg_layout := v\<rparr>) = all_well p"
  "all_well (p\<lparr>pg_drc := v\<rparr>) = all_well p" "all_well (p\<lparr>pg_sanity := v\<rparr>) = all_well p"
  "all_well (p\<lparr>pg_connectivity := v\<rparr>) = all_well p" "all_well (p\<lparr>pg_score := w\<rparr>) = all_well p"
  "all_well (p\<lparr>pg_sanity_data := data\<rparr>) = all_well p" "all_well (p\<lparr>pg_connectivity_data := data\<rparr>) = all_well p"
  by (simp_all add: all_well_def)

lemma add_tool_fields [simp]:
  "pg_score (add_tool r p) = pg_score p" "pg_sanity_data (add_tool r p) = pg_sanity_data p"
  by (simp_all add: add_tool_def)

lemma all_well_initial [simp]: "all_well (initial_progress req a)"
  by (simp add: all_well_def initial_progress_def infra_tool_def)

lemma returns_tool:
  assumes "journal_only I" "tools_answer env req score sanity preserved"
  shows "returns I (call_tool env a call t) (\<lambda>r. tl_status r = ToolSuccess \<and> infra_tool [r] = None)"
proof -
  have "answers (\<lambda>n. te_tool env n call job t) (\<lambda>r. tl_status r = ToolSuccess \<and> infra_tool [r] = None)" for job
    using assms(2) by (simp only: tools_answer_def)
  then show ?thesis unfolding call_tool_def by (rule returns_answers [OF assms(1)])
qed

lemma unless_failed_well: "all_well p \<Longrightarrow> unless_failed stage p = stage p"
  by (simp add: unless_failed_def all_well_def)

lemma returns_script_stage:
  assumes "tools_answer env req score sanity preserved" "all_well p"
  shows "returns (ledger_open i) (script_stage env ex a p) all_well"
  unfolding script_stage_def
  by (rule returns_and_then [OF returns_set_stage], rule returns_and_then [OF returns_tool [OF stable_only assms(1)]])
    (simp add: returns_pass assms(2))

lemma returns_layout_stage:
  assumes "calm env" "tools_answer env req score sanity preserved" "all_well p"
  shows "returns (ledger_open i) (layout_stage env ex a p) all_well"
  unfolding layout_stage_def
  by (rule returns_and_then [OF returns_set_stage], rule returns_and_then [OF returns_tool [OF stable_only assms(2)]])
    (simp add: returns_pass assms(3) returns_and_then [OF returns_phase [OF assms(1)]])

lemma returns_drc_stage:
  assumes "tools_answer env req score sanity preserved" "all_well p"
  shows "returns (ledger_open i) (drc_stage env ex a p) all_well"
  unfolding drc_stage_def
  by (rule returns_and_then [OF returns_set_stage], rule returns_and_then [OF returns_tool [OF stable_only assms(1)]])
    (simp add: returns_pass assms(2))

lemma returns_report_stage:
  assumes "tools_answer env req score sanity preserved" "all_well p"
  shows "returns (ledger_open i) (report_stage env ex req a p) all_well"
proof -
  have valid: "answers (\<lambda>n. te_validate_lyrpt env n path) (\<lambda>_. True)" for path
    using assms(1) by (simp only: tools_answer_def)
  show ?thesis
    unfolding report_stage_def
    apply (rule returns_and_then [OF returns_set_stage])
    apply (rule returns_and_then [OF returns_caught [where P = "\<lambda>r. \<exists>u. r = Inr u"]])
     apply (rule returns_weaken [OF returns_answers [OF stable_only valid]], blast)
    apply (auto simp: returns_pass assms(2))
    done
qed

lemma returns_convert_report:
  assumes t: "tools_answer env req score sanity preserved" and a: "preflight_answers env ex req base_stats"
  shows "returns (ledger_open i) (convert_report env req a p) (\<lambda>x. x = score)"
proof -
  have k: "answers (\<lambda>n. te_convert env n r path target) (\<lambda>_. True)" "answers (\<lambda>n. te_score env n r r') (\<lambda>x. x = score)"
    for r r' path target
    using t by (simp_all only: tools_answer_def)
  have ref: "answers (\<lambda>n. te_ref env n path producer media) (\<lambda>_. True)" for path producer media
    using a by (simp only: preflight_answers_def)
  obtain drc where drc: "ds_drc_ref (xq_current_snapshot req) = Some drc"
    using a by (rule preflight_refs)
  show ?thesis
    unfolding convert_report_def drc option.case and_then_pass
    apply (rule returns_and_then [OF returns_answers [OF stable_only ref]])
    apply (rule returns_and_then [OF returns_answers [OF stable_only k(1)]])
    apply (rule returns_answers [OF stable_only k(2)])
    done
qed

definition scored :: "repair_score \<Rightarrow> progress \<Rightarrow> bool" where
  "scored score p \<longleftrightarrow> all_well p \<and> pg_score p = Some score"

lemma returns_convert_stage:
  assumes "calm env" "tools_answer env req score sanity preserved" "preflight_answers env ex req base_stats" "all_well p"
  shows "returns (ledger_open i) (convert_stage env req a p) (scored score)"
  unfolding convert_stage_def
  apply (rule returns_and_then [OF returns_set_stage])
  apply (rule returns_and_then [OF returns_caught [where P = "\<lambda>r. r = Inr score"]])
   apply (rule returns_weaken [OF returns_convert_report [OF assms(2,3)]], simp)
  apply (simp only: sum.case)
  apply (rule returns_and_then [OF returns_caught [where P = "\<lambda>r. r = Inr ()"]])
   apply (rule returns_weaken [OF returns_phase [OF assms(1)]], simp)
  apply (simp add: returns_pass scored_def assms(4))
  done

lemma returns_read_evidence:
  assumes "\<And>n. te_is_file env n path" "answers (\<lambda>n. te_read_json env n path) P"
  shows "returns (ledger_open i) (read_evidence env path) (\<lambda>r. \<exists>data. r = Inr data \<and> P data)"
proof -
  have present: "returns (ledger_open i) (is_file env path) (\<lambda>x. x)"
    unfolding is_file_def by (rule returns_ask [OF stable_only]) (auto simp: assms(1))
  show ?thesis
    unfolding read_evidence_def
    apply (rule returns_and_then [OF returns_caught [where P = "\<lambda>r. \<exists>data. r = Inr data \<and> P data"]])
     apply (rule returns_and_then [OF present])
     apply (simp, rule returns_answers [OF stable_only assms(2)])
    apply (auto simp: returns_pass)
    done
qed

definition sane :: "repair_score \<Rightarrow> bool \<Rightarrow> progress \<Rightarrow> bool" where
  "sane score sanity p \<longleftrightarrow> scored score p \<and> flag_of (pg_sanity_data p) ''passed'' = Inr sanity"

lemma returns_sanity_stage:
  assumes t: "tools_answer env req score sanity preserved" and a: "preflight_answers env ex req base_stats"
    and p: "scored score p"
  shows "returns (ledger_open i) (sanity_stage env ex req a p) (sane score sanity)"
proof -
  have "ds_gds_ref (xq_baseline_snapshot req) \<noteq> None"
    using a by (simp only: preflight_answers_def simp_thms)
  then obtain gds where gds: "ds_gds_ref (xq_baseline_snapshot req) = Some gds" by blast
  have k: "answers (\<lambda>n. te_read_json env n (job_path a [''report'', ''sanity.json'']))
        (\<lambda>data. flag_of data ''passed'' = Inr sanity)" "te_is_file env n path" for n path
    using t by (simp_all only: tools_answer_def simp_thms)
  show ?thesis
    unfolding sanity_stage_def gds option.case and_then_pass
    apply (rule returns_and_then [OF returns_set_stage])
    apply (rule returns_and_then [OF returns_paths(1) [OF a _ stable_only]], simp)
    apply (rule returns_and_then [OF returns_paths(1) [OF a _ stable_only]], simp)
    apply (rule returns_and_then [OF returns_tool [OF stable_only t]])
    apply (simp only: simp_thms if_False)
    apply (rule returns_and_then [OF returns_read_evidence [OF k(2) k(1)]])
    apply (use p in \<open>auto simp: returns_pass sane_def scored_def\<close>)
    done
qed

definition judged :: "repair_score \<Rightarrow> bool \<Rightarrow> bool \<Rightarrow> progress \<Rightarrow> bool" where
  "judged score sanity preserved p \<longleftrightarrow>
     sane score sanity p \<and> connectivity_flag (pg_connectivity_data p) = Inr preserved"

lemma returns_connectivity_stage:
  assumes t: "tools_answer env req score sanity preserved" and a: "preflight_answers env ex req base_stats"
    and p: "sane score sanity p"
  shows "returns (ledger_open i) (connectivity_stage env ex a p) (judged score sanity preserved)"
proof -
  have k: "answers (\<lambda>n. te_read_json env n (job_path a [''connectivity'', ''result.json'']))
        (\<lambda>data. connectivity_flag data = Inr preserved)" "te_is_file env n path" for n path
    using t by (simp_all only: tools_answer_def simp_thms)
  show ?thesis
    unfolding connectivity_stage_def
    apply (rule returns_and_then [OF returns_set_stage])
    apply (rule returns_and_then [OF returns_paths(1) [OF a _ stable_only]], simp)
    apply (rule returns_and_then [OF returns_tool [OF stable_only t]])
    apply (simp only: simp_thms if_False)
    apply (rule returns_and_then [OF returns_read_evidence [OF k(2) k(1)]])
    apply (use p in \<open>auto simp: returns_pass judged_def sane_def scored_def\<close>)
    done
qed

lemma returns_run_stages:
  assumes c: "calm env" and t: "tools_answer env req score sanity preserved"
    and a: "preflight_answers env ex req base_stats"
  shows "returns (ledger_open i) (run_stages env ex req att) (judged score sanity preserved)"
  unfolding run_stages_def
  apply (rule returns_and_then [OF returns_script_stage [OF t all_well_initial]])
  apply (rule returns_and_then [where R = all_well and J = "ledger_open i"], simp add: unless_failed_well returns_layout_stage [OF c t])
  apply (rule returns_and_then [where R = all_well and J = "ledger_open i"], simp add: unless_failed_well returns_drc_stage [OF t])
  apply (rule returns_and_then [where R = all_well and J = "ledger_open i"], simp add: unless_failed_well returns_report_stage [OF t])
  apply (rule returns_and_then [where R = "scored score" and J = "ledger_open i"], simp add: unless_failed_well returns_convert_stage [OF c t a])
  apply (rule returns_and_then [where R = "sane score sanity" and J = "ledger_open i"],
    simp add: unless_failed_well scored_def returns_sanity_stage [OF t a])
  apply (simp add: unless_failed_well sane_def scored_def returns_connectivity_stage [OF t a])
  done


subsection \<open>The verdict and its publication\<close>

definition consistent :: "repair_score \<Rightarrow> violation_delta \<Rightarrow> bool" where
  "consistent score d \<longleftrightarrow>
     \<not> exceeds (vd_removed_marker_fingerprints d) (Some (osc_removed_violations score)) \<and>
     \<not> exceeds (vd_new_marker_fingerprints d) (Some (osc_new_violations score))"

lemma returns_delta:
  assumes "tools_answer env req score sanity preserved" "pg_score p = Some score" "pg_drc p = EvidenceValid"
  shows "returns (ledger_open i) (delta_stage env req a path p) (consistent score)"
proof -
  have k: "answers (\<lambda>n. te_delta env n path path') (consistent score)" for path'
    unfolding consistent_def using assms(1) by (simp only: tools_answer_def)
  show ?thesis
    unfolding delta_stage_def assms(2,3) option.case simp_thms if_True
    apply (rule returns_and_then [OF returns_set_stage])
    apply (rule returns_and_then [OF returns_answers [OF stable_only k]])
    apply (rule returns_pass)
    apply (simp add: consistent_def official_delta_def)
    done
qed

definition gate_passes :: "executor \<Rightarrow> repair_score \<Rightarrow> bool \<Rightarrow> bool \<Rightarrow> bool" where
  "gate_passes ex score sanity preserved \<longleftrightarrow>
     sanity \<and> preserved \<and> osc_new_violations score = 0 \<and> 0 < osc_removed_violations score \<and>
     (acc_require_drc_progress (tx_acceptance ex) \<longrightarrow> osc_final_violations score < osc_original_violations score)"

lemma verification_judged:
  assumes p: "judged score sanity preserved p" and ok: "stages_ok 5 p" and d: "consistent score d"
  shows "\<exists>v. verification_of env a base_stats p d = Inr v \<and>
    (ad_accepted (evaluate_acceptance v (tx_acceptance ex)) \<longleftrightarrow> gate_passes ex score sanity preserved)"
proof -
  from p have well: "pg_failure p = None" "pg_score p = Some score" "flag_of (pg_sanity_data p) ''passed'' = Inr sanity"
    "connectivity_flag (pg_connectivity_data p) = Inr preserved"
    by (simp_all add: judged_def sane_def scored_def all_well_def)
  have complete: "complete_validity p" using ok well(1) by (simp add: complete_iff)
  have script: "script_passed p" using ok well(1) by (simp add: stages_ok_def)
  define v where "v = (verification_base env a p d
               [te_score_dump env score, pg_sanity_data p, pg_connectivity_data p] (verdict sanity preserved score)
               (Some (script_passed p)) (Some sanity) (Some preserved) (osc_original_violations score))
            \<lparr>vr_failure_codes := (if verdict sanity preserved score = OutcomeSuccess then []
               else [outcome_value (verdict sanity preserved score)])\<rparr>"
  have "verification_complete v" "vr_fresh_evidence_valid v"
    using complete by (simp_all add: v_def verification_base_def verification_complete_def complete_validity_def validities_def)
  moreover have "\<not> exceeds (vr_removed_original_marker_fingerprints v) (vr_removed_original_count v)"
    "\<not> exceeds (vr_new_marker_fingerprints v) (vr_new_violation_count v)"
    using d by (simp_all add: v_def verification_base_def consistent_def well)
  ultimately have "validate_verification_result v = Inr v"
    by (simp add: validate_verification_result_def)
  then have result: "verification_of env a base_stats p d = Inr v"
    unfolding verification_of_def completed_verification_def Let_def
    by (simp add: well v_def)
  have "vr_outcome v = OutcomeSuccess \<longleftrightarrow>
      sanity \<and> preserved \<and> osc_new_violations score = 0 \<and> 0 < osc_removed_violations score"
    by (auto simp: v_def verification_base_def verdict_def)
  moreover have "vr_script_valid v = Some True" "vr_gds_sanity_pass v = Some sanity"
    "vr_connectivity_preserved v = Some preserved" "vr_timing_gate_pass v = None"
    "vr_residual_violation_count v = Some (osc_final_violations score)"
    "vr_baseline_residual_count v = osc_original_violations score"
    "vr_new_violation_count v = Some (osc_new_violations score)"
    by (simp_all add: v_def verification_base_def well script)
  ultimately have "ad_accepted (evaluate_acceptance v (tx_acceptance ex)) \<longleftrightarrow> gate_passes ex score sanity preserved"
    using \<open>vr_fresh_evidence_valid v\<close> by (auto simp: evaluate_acceptance_iff gate_passes_def)
  then show ?thesis using result by blast
qed

lemma returns_persist:
  assumes b: "backend_answers env req" and t: "tools_answer env req score sanity preserved"
    and r: "receipt_ok receipt" and p: "pg_drc p = EvidenceValid"
  shows "returns (ledger_open i) (persist_attempt env req a p v receipt) (\<lambda>z. snd z \<noteq> None)"
proof -
  have report: "answers (\<lambda>n. te_read_json env n (drc_report_path req a))
        (\<lambda>data. \<exists>st. drc_statistics (te_str env) data = Inr st)" "te_is_file env n path" for n path
    using t by (simp_all only: tools_answer_def simp_thms)
  have stats: "returns (ledger_open i) (file_statistics env (drc_report_path req a)) (\<lambda>_. True)"
    unfolding file_statistics_def
    apply (rule returns_and_then [OF returns_answers [OF stable_only report(1)]])
    apply (erule exE, rule returns_raising, assumption, simp)
    done
  have drv: "returns (ledger_open i) (and_then (is_file env (drc_report_path req a)) (\<lambda>present.
          if present
          then and_then (file_statistics env (drc_report_path req a)) (\<lambda>st. pass (Some (dst_total_drv st)))
          else pass None)) (\<lambda>n. n \<noteq> None)"
    apply (rule returns_and_then [OF returns_is_file [OF stable_only t]])
    apply (simp only: if_True)
    apply (rule returns_and_then [OF stats])
    apply (simp add: returns_pass)
    done
  have lineage: "returns (ledger_open i) (write_final_lineage env req a fresh receipt) (\<lambda>_. True)" for fresh
  proof (cases "fst receipt")
    case None
    then show ?thesis by (simp add: write_final_lineage_def returns_done)
  next
    case (Some l)
    then obtain l' where "final_lineage fresh l = Inr l'" using r unfolding receipt_ok_def by blast
    then have "returns (ledger_open i) (raising (final_lineage fresh l)) (\<lambda>_. True)" by (rule returns_raising) simp
    then show ?thesis
      unfolding write_final_lineage_def Some option.case
      by (rule returns_and_then) (rule returns_and_then [OF returns_write [OF stable_only b]], rule returns_done)
  qed
  show ?thesis
    unfolding persist_attempt_def Let_def p simp_thms if_True
    apply (rule returns_and_then [OF returns_set_stage])
    apply (rule returns_and_then [OF returns_copy [OF stable_only b]])
    apply (rule returns_and_then [OF returns_copy_if_file [OF stable_only b]])
    apply (rule returns_and_then [OF returns_copy_if_file [OF stable_only b]])
    apply (rule returns_and_then [OF returns_copy_if_file [OF stable_only b]])
    apply (rule returns_and_then [OF drv])
    apply (rule returns_and_then [OF lineage])
    apply (simp add: returns_pass)
    done
qed

lemma returns_copy_snapshot:
  assumes "journal_only I" "backend_answers env req"
  shows "returns I (copy_snapshot env snapshot folder case_id) (\<lambda>_. True)"
proof -
  have ref: "returns I (copy_ref env target r) (\<lambda>_. True)" for target r
    by (cases r) (simp_all add: copy_ref_def returns_done returns_and_then [OF returns_copy [OF assms]])
  show ?thesis
    unfolding copy_snapshot_def Let_def
    apply (rule returns_and_then [OF returns_copy [OF assms]])
    apply (rule returns_and_then [OF ref])
    apply (rule returns_and_then [OF ref])
    apply (rule returns_and_then [OF ref])
    apply (rule returns_done)
    done
qed

lemma returns_commit:
  assumes "backend_answers env req" "n \<noteq> None"
  shows "returns (ledger_open i) (commit_or_rollback env req a base_stats accepted attempted n) (\<lambda>_. True)"
  using assms(2) unfolding commit_or_rollback_def
  by (auto simp: returns_done returns_and_then [OF returns_copy_snapshot [OF stable_only assms(1)]])

lemma returns_aliases:
  assumes "journal_only I" "backend_answers env req"
  shows "returns I (alias_to env ex a target) (\<lambda>_. True)" "returns I (alias_dir env ex req a name) (\<lambda>_. True)"
proof -
  have dirs: "answers (\<lambda>n. te_list_dir env n d) (\<lambda>_. True)" for d
    using assms(2) by (simp only: backend_answers_def)
  have copies: "returns I (map_effect (\<lambda>x. copy_if_file env (f x) (g x)) xs) (\<lambda>_. True)"
    for f g :: "string \<Rightarrow> string" and xs
    by (rule returns_map_effect) (rule returns_copy_if_file [OF assms])
  show "returns I (alias_to env ex a target) (\<lambda>_. True)"
    unfolding alias_to_def by (rule returns_and_then [OF copies]) (rule returns_done)
  have "returns I (ask (\<lambda>n. Inr (te_is_dir env n d))) (\<lambda>_. True)" for d
    by (rule returns_ask [OF assms(1)]) simp
  then show "returns I (alias_dir env ex req a name) (\<lambda>_. True)"
    unfolding alias_dir_def Let_def
    by (rule returns_and_then)
      (simp add: returns_done returns_and_then [OF returns_answers [OF assms(1) dirs]] returns_and_then [OF copies])
qed

lemma returns_publish:
  assumes "journal_only I" "backend_answers env req"
  shows "returns I (publish env ex req cx a p v decision rollback tx) (\<lambda>_. True)"
proof -
  have legacy: "returns I (case legacy_target req of None \<Rightarrow> pass () | Some t \<Rightarrow> alias_to env ex a t) (\<lambda>_. True)"
    by (cases "legacy_target req") (simp_all add: returns_done returns_aliases [OF assms])
  show ?thesis
    unfolding publish_def Let_def
    apply (rule returns_and_then [OF returns_write [OF assms]])
    apply (rule returns_and_then [OF returns_write [OF assms]])
    apply (rule returns_and_then [OF returns_write [OF assms]])
    apply (rule returns_and_then [OF returns_aliases(2) [OF assms]])
    apply (rule returns_and_then [OF returns_aliases(2) [OF assms]])
    apply (rule returns_and_then [OF returns_aliases(1) [OF assms]])
    apply (rule returns_and_then [OF legacy])
    apply (rule returns_and_then [OF returns_mark_job [OF assms]])
    apply (rule returns_done)
    done
qed


subsection \<open>The end of the attempt\<close>

definition ledger_closed :: "tx_state \<Rightarrow> bool" where
  "ledger_closed s \<longleftrightarrow> (\<exists>l. js_ledger s = Some l \<and> lgr_terminal_written l)"

lemma returns_replacing: "leads I m P J \<Longrightarrow> leads I (replacing g m) P J"
  unfolding replacing_def
  by (rule returns_and_then [OF returns_caught [where P = "\<lambda>r. \<exists>x. r = Inr x \<and> P x"]])
    (auto simp: returns_pass intro: returns_weaken)

lemma returns_collect:
  assumes "backend_answers env req"
  shows "returns (ledger_open i) (collect_results env ex a) (\<lambda>_. True)"
proof -
  have k: "answers (\<lambda>n. te_collect env n job d) (\<lambda>_. True)" for job d
    using assms by (simp only: backend_answers_def)
  show ?thesis
    unfolding collect_results_def
    by (rule returns_and_then [OF returns_set_stage]) (rule returns_replacing [OF returns_answers [OF stable_only k]])
qed

lemma returns_remap:
  assumes b: "backend_answers env req" and well: "infra_tool tools = None"
  shows "returns (ledger_open i) (remap_tools env ex req a tools tx) (\<lambda>z. infra_tool (fst z) = None)"
proof (cases "te_remap env")
  case None
  then show ?thesis by (simp add: remap_tools_def returns_pass well)
next
  case (Some g)
  have "\<forall>g tools. te_remap env = Some g \<longrightarrow> answers (\<lambda>n. g n tools) (\<lambda>tools'. infra_tool tools' = None)"
    using b unfolding backend_answers_def by (elim conjE)
  then have mapped: "answers (\<lambda>n. g n tools) (\<lambda>tools'. infra_tool tools' = None)" using Some by blast
  have legacy: "returns (ledger_open i) (case legacy_target req of None \<Rightarrow> pass ()
      | Some t \<Rightarrow> and_then (copy_file env source (f t)) (\<lambda>_. pass ())) (\<lambda>_. True)" for source f
    by (cases "legacy_target req") (simp_all add: returns_done returns_and_then [OF returns_copy [OF stable_only b]])
  show ?thesis
    unfolding remap_tools_def Some option.case Let_def
    apply (rule returns_replacing)
    apply (rule returns_and_then [OF returns_answers [OF stable_only mapped]])
    apply (rule returns_and_then [OF returns_write [OF stable_only b]])
    apply (rule returns_and_then [OF returns_copy [OF stable_only b]])
    apply (rule returns_and_then [OF legacy])
    apply (simp add: returns_pass)
    done
qed

lemma returns_cleanup:
  assumes "backend_answers env req"
  shows "returns (ledger_open i) (cleanup_job env a keep_workspace) (\<lambda>_. True)"
proof -
  have k: "answers (\<lambda>n. te_cleanup env n job b) (\<lambda>_. True)" for job b
    using assms by (simp only: backend_answers_def)
  show ?thesis
    unfolding cleanup_job_def
    by (rule returns_and_then [OF returns_set_stage]) (rule returns_replacing [OF returns_answers [OF stable_only k]])
qed

lemma terminal_closes:
  assumes "calm env"
  shows "leads (ledger_open i) (terminal env st details) (\<lambda>_. True) ledger_closed"
proof -
  have finish: "\<exists>s'. finish_reservation env l st s = (Inr (), s') \<and> ledger_closed s'" for l and s :: tx_state
    using assms by (simp add: finish_reservation_def and_then_result ask_result calm_def ledger_closed_def)
  show ?thesis
    unfolding leads_def
  proof (intro allI impI)
    fix s assume "ledger_open i s"
    then obtain l where l: "js_ledger s = Some l" "\<not> lgr_terminal_written l" by (auto simp: ledger_open_def)
    define s1 where "s1 = s\<lparr>js_clock := Suc (js_clock s), js_index := js_index s @
      [AttemptTerminal (lgr_attempt_id l) st (lgr_logical_evidence_key l) details]\<rparr>"
    obtain s' where "finish_reservation env l st s1 = (Inr (), s')" "ledger_closed s'" using finish by blast
    then show "\<exists>x s'. terminal env st details s = (Inr x, s') \<and> True \<and> ledger_closed s'"
      by (auto simp: terminal_def with_ledger_def and_then_result l finally_result append_index_calm [OF assms] s1_def)
  qed
qed

lemma returns_conclude:
  assumes c: "calm env" and b: "backend_answers env req" and t: "tools_answer env req score sanity preserved"
    and r: "receipt_ok receipt" and p: "judged score sanity preserved p" "stages_ok 5 p" and d: "consistent score d"
  shows "leads (ledger_open i) (conclude env ex req cx a receipt p d)
     (\<lambda>x. xr_accepted x \<longleftrightarrow> gate_passes ex score sanity preserved) ledger_closed"
proof -
  obtain v where v: "verification_of env a (cx_baseline cx) p d = Inr v"
    and gate: "ad_accepted (evaluate_acceptance v (tx_acceptance ex)) \<longleftrightarrow> gate_passes ex score sanity preserved"
    using verification_judged [OF p d] by blast
  have well: "pg_failure p = None" "infra_tool (pg_tools p) = None"
    using p(1) by (simp_all add: judged_def sane_def scored_def all_well_def)
  have "complete_validity p" using p(2) well(1) by (simp add: complete_iff)
  then have drc: "pg_drc p = EvidenceValid" by (simp add: complete_validity_def validities_def)
  have "returns (ledger_open i) (raising (verification_of env a (cx_baseline cx) p d)) (\<lambda>w. w = v)"
    by (rule returns_raising [OF v]) simp
  then show ?thesis
    unfolding conclude_def Let_def case_prod_unfold
    apply (rule returns_and_then)
    apply (erule ssubst)
    apply (rule returns_and_then [OF returns_set_stage])
    apply (rule returns_and_then [OF returns_now [OF stable_only]])
    apply (rule returns_and_then [OF returns_persist [OF b t r drc]])
    apply (rule returns_and_then [OF returns_commit [OF b]], assumption)
    apply (rule returns_and_then [OF returns_publish [OF stable_only b]])
    apply (rule returns_and_then [OF returns_collect [OF b]])
    apply (rule returns_and_then [OF returns_remap [OF b well(2)]])
    apply (rule returns_and_then [OF returns_cleanup [OF b]])
    apply (rule returns_and_then [where R = "\<lambda>_. True" and J = "ledger_open i"], simp add: check_infra_def returns_done)
    apply (rule returns_and_then [OF terminal_closes [OF c]])
    apply (rule returns_pass)
    apply (simp add: gate)
    done
qed


section \<open>execute\<close>

text \<open>The three parts of the outside together; \<open>score\<close>, \<open>sanity\<close> and \<open>preserved\<close> are what the tools find.\<close>

definition outside_works ::
    "tx_env \<Rightarrow> executor \<Rightarrow> tx_request \<Rightarrow> repair_score \<Rightarrow> bool \<Rightarrow> bool \<Rightarrow> bool" where
  "outside_works env ex req score sanity preserved \<longleftrightarrow>
     journal_answers env \<and> (\<exists>base_stats. preflight_answers env ex req base_stats) \<and>
     backend_answers env req \<and> tools_answer env req score sanity preserved"

lemma returns_run_stages_ok:
  assumes "calm env" "tools_answer env req score sanity preserved" "preflight_answers env ex req base_stats"
  shows "returns (ledger_open i) (run_stages env ex req att)
     (\<lambda>p. judged score sanity preserved p \<and> stages_ok 5 p)"
  using returns_run_stages [OF assms] run_stages_ok unfolding leads_def yields_def by meson

lemma returns_run_attempt:
  assumes j: "journal_answers env" and b: "backend_answers env req"
    and t: "tools_answer env req score sanity preserved" and a: "preflight_answers env ex req base_stats"
    and i: "pj_attempt_id job = pq_requested_attempt_id request"
  shows "leads (ledger_open i) (run_attempt env ex req cx request job)
     (\<lambda>x. xr_accepted x \<longleftrightarrow> gate_passes ex score sanity preserved) ledger_closed"
proof -
  have c: "calm env" using j by (simp only: journal_answers_def)
  have delta: "returns (ledger_open i) (delta_stage env req att path p) (consistent score)"
    if "judged score sanity preserved p \<and> stages_ok 5 p" for att path p
  proof (rule returns_delta [OF t])
    show "pg_score p = Some score" using that by (simp add: judged_def sane_def scored_def)
    have "pg_failure p = None" using that by (simp add: judged_def sane_def scored_def all_well_def)
    then have "complete_validity p" using that complete_iff by blast
    then show "pg_drc p = EvidenceValid" by (simp add: complete_validity_def validities_def)
  qed
  show ?thesis
    unfolding run_attempt_def
    apply (rule returns_and_then [OF returns_claim [OF i]])
    apply (rule returns_and_then [OF returns_open_transaction [OF j b]])
    apply (rule returns_and_then [OF returns_patch_stage [OF b]])
    apply (rule returns_and_then [OF returns_run_stages_ok [OF c t a]])
    apply (rule returns_and_then [OF delta], assumption)
    apply (erule conjE, rule returns_conclude [OF c b t], assumption+)
    done
qed

lemma returns_execute_body:
  assumes "outside_works env ex req score sanity preserved"
  shows "leads (\<lambda>_. True) (execute_body env ex req)
     (\<lambda>x. xr_accepted x \<longleftrightarrow> gate_passes ex score sanity preserved) ledger_closed"
proof -
  obtain base_stats where j: "journal_answers env" and a: "preflight_answers env ex req base_stats"
    and b: "backend_answers env req" and t: "tools_answer env req score sanity preserved"
    using assms unfolding outside_works_def by blast
  show ?thesis
    unfolding execute_body_def case_prod_unfold
  proof (rule returns_and_then [OF returns_preflight [OF a]])
    fix cx assume "asked base_stats cx"
    then obtain i where i: "pq_requested_attempt_id (cx_request cx) = Some i" by (auto simp: asked_def)
    show "leads (\<lambda>_. True) (and_then (prepare_loop env req cx 1 (cx_request cx))
        (\<lambda>z. run_attempt env ex req cx (fst z) (snd z)))
       (\<lambda>x. xr_accepted x \<longleftrightarrow> gate_passes ex score sanity preserved) ledger_closed"
      by (rule returns_and_then [OF returns_prepare [OF j b i]], rule returns_run_attempt [OF j b t a])
        (simp add: i)
  qed
qed

lemma accounted_returns:
  assumes "leads (\<lambda>_. True) m P ledger_closed"
  shows "\<exists>x s'. account_physical_attempts env m s = (Inr x, s') \<and> P x"
proof -
  obtain x s1 where run: "m (s\<lparr>js_ledger := None\<rparr>) = (Inr x, s1)" "P x" and closed: "ledger_closed s1"
    using assms unfolding leads_def by blast
  have "check_terminal env x s1 = (Inr x, s1)"
    using closed by (auto simp: ledger_closed_def check_terminal_def and_then_result)
  then show ?thesis
    using run by (auto simp: account_physical_attempts_def and_then_result finally_result handle_result set_active_def)
qed

lemma execute_returns:
  assumes "outside_works env ex req score sanity preserved"
  shows "\<exists>x s'. execute env ex req s = (Inr x, s') \<and> (xr_accepted x \<longleftrightarrow> gate_passes ex score sanity preserved)"
  using accounted_returns [OF returns_execute_body [OF assms]] unfolding execute_def .

text \<open>
  C8. A good patch is committed: when the outside calls answer and the tools succeed, \<open>execute\<close>
  returns, from whatever state it is called in, and what it returns is accepted exactly when the
  sanity check passes, connectivity is preserved, no violation is new, at least one is gone and, if
  the configuration asks for progress, fewer are left than there were.
\<close>

theorem good_patch_commits:
  assumes "outside_works env ex req score sanity preserved"
  shows "\<exists>x s'. execute env ex req s = (Inr x, s') \<and>
    (xr_accepted x \<longleftrightarrow>
       sanity \<and> preserved \<and> osc_new_violations score = 0 \<and> 0 < osc_removed_violations score \<and>
       (\<not> acc_require_drc_progress (tx_acceptance ex) \<or>
          osc_final_violations score < osc_original_violations score))"
  using execute_returns [OF assms] unfolding gate_passes_def imp_conv_disj .

end
