(* ===== verification/Transaction_Examples.thy ===== *)
theory Transaction_Examples
  imports Transaction_Liveness
begin

text \<open>
  Runs of \<open>execute\<close> in an environment in which everything works, and in which single things fail. They
  show that the hypotheses of the properties of \<open>Transaction_Accounting\<close> and \<open>Transaction_Results\<close> can
  hold.
\<close>

definition example_ref :: "string \<Rightarrow> artifact_ref" where
  "example_ref path = \<lparr>ar_artifact_id = ''a'', ar_path = path, ar_sha256 = ''0'', ar_media_type = ''t'',
     ar_schema_name = None, ar_schema_version = None, ar_producer = ''p'', ar_size_bytes = 1,
     ar_created_at = ''t''\<rparr>"

definition example_snapshot :: design_snapshot where
  "example_snapshot = \<lparr>ds_snapshot_id = ''s0'', ds_script_ref = example_ref ''c.py'',
     ds_gds_ref = Some (example_ref ''c.gds''), ds_drc_ref = Some (example_ref ''c.drc''),
     ds_connectivity_ref = None, ds_lineage_receipt_ref = None, ds_parent_snapshot_id = None,
     ds_parent_script_ref = None, ds_provenance_run_id = None, ds_provenance_relation_source = None,
     ds_score = None\<rparr>"

definition example_tool :: "tool_status \<Rightarrow> tool_result" where
  "example_tool status = \<lparr>tl_tool_name = ''klayout'', tl_action = ''run'', tl_status = status,
     tl_return_code = Some 0, tl_started_at = ''t'', tl_ended_at = ''t'', tl_runtime_seconds = 0,
     tl_stdout_ref = None, tl_stderr_ref = None, tl_artifacts = [], tl_metrics = [],
     tl_command_fingerprint = ''f'', tl_error_code = None, tl_error_message = None,
     tl_attempt_id = None, tl_owner_token_hash = None, tl_container_name = None\<rparr>"

definition example_score :: "int \<Rightarrow> repair_score" where
  "example_score new = \<lparr>osc_repair_rate = 1, osc_new_violation_rate = 0, osc_original_violations = 2,
     osc_final_violations = 1, osc_removed_violations = 1, osc_new_violations = new,
     osc_original_rules_violated = 1, osc_final_rules_violated = 1, osc_evaluator_hash = ''e''\<rparr>"

definition example_job :: prepared_job where
  "example_job = \<lparr>pj_job_id = ''j'', pj_host_path = ''job'', pj_container_path = ''/job'', pj_case_id = ''c'',
     pj_iteration = 1, pj_manifest_ref = example_ref ''m'', pj_run_id = None, pj_attempt_id = None,
     pj_owner_token = None, pj_owner_token_hash = None, pj_logical_evidence_key = None,
     pj_execution_epoch = ''epoch_legacy'', pj_purpose = PurposeUnknown, pj_lifecycle_state = LifeReady,
     pj_trace_context = None\<rparr>"

definition marker_list :: "nat \<Rightarrow> json" where
  "marker_list n = JObj [(''rules'', JObj [(''M1'', JObj [(''violations'', JList (replicate n (JObj [])))])]),
     (''passed'', JBool True), (''connectivity_preserved'', JBool True)]"

text \<open>
  The answers of the environment. There are two violations before and one after the patch.
\<close>

definition example_claim :: "nat \<Rightarrow> trace_context \<Rightarrow> string \<Rightarrow> exn + reservation option" where
  "example_claim n t i = Inr (Some \<lparr>rsv_claim_id = i, rsv_queue_wait_seconds = 0\<rparr>)"

definition example_id :: string where
  "example_id = ''attempt_'' @ replicate 32 CHR ''a''"

definition example_digest :: string where
  "example_digest = replicate 64 CHR ''0''"

definition example_key :: "nat \<Rightarrow> evidence_inputs \<Rightarrow> exn + string" where
  "example_key n e = Inr example_digest"

definition example_json :: "nat \<Rightarrow> string \<Rightarrow> exn + json" where
  "example_json n path = Inr (marker_list (if path = ''c.drc'' then 2 else 1))"

definition example_file :: "nat \<Rightarrow> string \<Rightarrow> string \<Rightarrow> string \<Rightarrow> exn + artifact_ref" where
  "example_file n path producer media = Inr (example_ref path)"

definition example_attempt :: "nat \<Rightarrow> string" where
  "example_attempt n = example_id"

definition example_prepare :: "nat \<Rightarrow> prepare_request \<Rightarrow> exn + prepared_job" where
  "example_prepare n q = Inr (example_job\<lparr>pj_attempt_id := pq_requested_attempt_id q\<rparr>)"

definition example_write :: "nat \<Rightarrow> string \<Rightarrow> exn + artifact_ref" where
  "example_write n path = Inr (example_ref path)"

definition example_copy :: "nat \<Rightarrow> string \<Rightarrow> string \<Rightarrow> exn + artifact_ref" where
  "example_copy n source target = Inr (example_ref target)"

definition example_call :: "nat \<Rightarrow> tool_call \<Rightarrow> prepared_job \<Rightarrow> int \<Rightarrow> exn + tool_result" where
  "example_call n c j t = Inr (example_tool ToolSuccess)"

definition example_convert :: "nat \<Rightarrow> artifact_ref \<Rightarrow> string \<Rightarrow> string \<Rightarrow> exn + artifact_ref" where
  "example_convert n r script path = Inr (example_ref path)"

definition example_scores :: "int \<Rightarrow> nat \<Rightarrow> artifact_ref \<Rightarrow> artifact_ref \<Rightarrow> exn + repair_score" where
  "example_scores new n a b = Inr (example_score new)"

text \<open>The environment in which everything works; the patch makes \<open>new\<close> violations.\<close>

definition scored_env :: "int \<Rightarrow> tx_env" where
  "scored_env new = \<lparr>
     je_claim = example_claim,
     je_finish = \<lambda>_ _ _. Inr (), je_append = \<lambda>_ _. Inr (),
     je_storage_pause = \<lambda>_ _ _ _ _. Inr None, je_incident = \<lambda>_ _ _. Inr None,
     te_hash = \<lambda>_. ''0'', te_str = \<lambda>_. [], te_plan_dump = \<lambda>_. JNull, te_acceptance_dump = \<lambda>_. JNull,
     te_score_dump = \<lambda>_. JNull, te_ref_dump = \<lambda>_. JNull, te_protocol = ''p3.2-execution-v1'',
     te_is_klayout = True, te_image = ''image'', te_image_digest = None,
     te_logical_key = example_key, te_file_sha256 = \<lambda>_ _. Inr ''0'',
     te_evaluator_hash = \<lambda>_. Inr None, te_read_json = example_json,
     te_ref = example_file, te_new_attempt = example_attempt, te_now = \<lambda>_. ''t'',
     te_prepare = example_prepare, te_write_json = example_write,
     te_copy = example_copy, te_control = \<lambda>_. Inr (),
     te_apply_patch = \<lambda>_ _ _ _ _. Inr None, te_build_map = \<lambda>_ _. Inr [],
     te_write_diff = \<lambda>_ _ _ _. Inr (), te_tool = example_call,
     te_validate_lyrpt = \<lambda>_ _. Inr (), te_convert = example_convert,
     te_score = example_scores new, te_is_file = \<lambda>_ _. True, te_is_dir = \<lambda>_ _. False,
     te_list_dir = \<lambda>_ _. Inr [], te_delta = \<lambda>_ _ _. Inr empty_delta, te_mark_job = \<lambda>_ _ _. Inr (),
     te_collect = \<lambda>_ _ _. Inr [], te_remap = None, te_cleanup = \<lambda>_ _ _. Inr ()\<rparr>"

definition clean_env :: tx_env where
  "clean_env = scored_env 0"

definition example_executor :: executor where
  "example_executor = \<lparr>tx_acceptance = default_acceptance_config, tx_backend_config = default_backend_config,
     tx_paths = [(''rule_deck'', ''r''), (''connectivity'', ''n''), (''sanity_helper'', ''h''),
       (''connectivity_helper'', ''k'')], tx_store_root = ''store''\<rparr>"

definition clean_request :: tx_request where
  "clean_request = \<lparr>xq_run_id = ''run'', xq_case_id = ''c'', xq_iteration = 1,
     xq_baseline_snapshot = example_snapshot, xq_current_snapshot = example_snapshot,
     xq_patch_plan = \<lparr>pp_base_script_sha256 = ''0'', pp_occurrence_receipts = [], pp_source_edits = [],
       pp_touched_anchor_ids = [], pp_expected_object_after_hashes = []\<rparr>,
     xq_source_map = [], xq_bundle_ids = [''b''], xq_artifact_prefix = Some ''p'', xq_job_run_id = None,
     xq_legacy_artifact_prefix = None, xq_trace_context = None, xq_physical_effect_fingerprint = None,
     xq_retry_of_attempt_id = None\<rparr>"

definition initial_state :: tx_state where
  "initial_state = \<lparr>js_clock = 0, js_index = [], js_ledger = None, js_claims = [], js_finishes = [],
     ts_store = [], ts_job_states = []\<rparr>"

lemma example_reporting: "reporting_works clean_env" "calm clean_env"
  by (simp_all add: reporting_works_def calm_def clean_env_def scored_env_def)

lemma example_statistics: "\<exists>st. drc_statistics (\<lambda>_. []) (marker_list 1) = Inr st"
  "\<exists>st. drc_statistics (\<lambda>_. []) (marker_list 2) = Inr st"
proof -
  have ok: "isl r = False \<Longrightarrow> \<exists>st. r = Inr st" for r :: "drc_stats result"
    by (cases r) simp_all
  have run: "isl (drc_statistics (\<lambda>_. []) (marker_list 1)) = False" "isl (drc_statistics (\<lambda>_. []) (marker_list 2)) = False"
    by code_simp+
  show "\<exists>st. drc_statistics (\<lambda>_. []) (marker_list 1) = Inr st" by (rule ok [OF run(1)])
  show "\<exists>st. drc_statistics (\<lambda>_. []) (marker_list 2) = Inr st" by (rule ok [OF run(2)])
qed

lemma example_flags: "flag_of (marker_list n) ''passed'' = Inr True" "connectivity_flag (marker_list n) = Inr True"
  by (simp_all add: marker_list_def flag_of_def connectivity_flag_def get_of_value_def json_get_def)

lemma scored_env_fields [simp]:
  "je_claim (scored_env new) = example_claim" "te_str (scored_env new) = (\<lambda>_. [])"
  "te_image_digest (scored_env new) = None" "te_logical_key (scored_env new) = example_key"
  "te_file_sha256 (scored_env new) = (\<lambda>_ _. Inr ''0'')" "te_evaluator_hash (scored_env new) = (\<lambda>_. Inr None)"
  "te_read_json (scored_env new) = example_json" "te_ref (scored_env new) = example_file"
  "te_new_attempt (scored_env new) = example_attempt" "te_prepare (scored_env new) = example_prepare"
  "te_write_json (scored_env new) = example_write" "te_copy (scored_env new) = example_copy"
  "te_control (scored_env new) = (\<lambda>_. Inr ())" "te_apply_patch (scored_env new) = (\<lambda>_ _ _ _ _. Inr None)"
  "te_build_map (scored_env new) = (\<lambda>_ _. Inr [])" "te_write_diff (scored_env new) = (\<lambda>_ _ _ _. Inr ())"
  "te_tool (scored_env new) = example_call" "te_validate_lyrpt (scored_env new) = (\<lambda>_ _. Inr ())"
  "te_convert (scored_env new) = example_convert" "te_score (scored_env new) = example_scores new"
  "te_is_file (scored_env new) = (\<lambda>_ _. True)" "te_list_dir (scored_env new) = (\<lambda>_ _. Inr [])"
  "te_delta (scored_env new) = (\<lambda>_ _ _. Inr empty_delta)" "te_mark_job (scored_env new) = (\<lambda>_ _ _. Inr ())"
  "te_collect (scored_env new) = (\<lambda>_ _ _. Inr [])" "te_remap (scored_env new) = None"
  "te_cleanup (scored_env new) = (\<lambda>_ _ _. Inr ())"
  by (simp_all add: scored_env_def)

lemma answers_Inr [simp]: "answers (\<lambda>n. Inr (f n)) P \<longleftrightarrow> (\<forall>n. P (f n))"
  by (simp add: answers_def)

lemma example_journal: "journal_answers (scored_env new)"
  by (simp add: journal_answers_def example_claim_def [abs_def]) (simp add: calm_def scored_env_def)

lemma example_preflight: "\<exists>st. preflight_answers (scored_env new) example_executor clean_request st"
proof -
  have "hex_pattern ''attempt_'' 32 example_id" "hex_pattern [] 64 example_digest"
    by code_simp+
  then show ?thesis
    using example_statistics(2)
    by (auto simp: preflight_answers_def example_key_def [abs_def] example_file_def [abs_def] example_attempt_def [abs_def]
        example_json_def [abs_def] example_executor_def clean_request_def example_snapshot_def example_ref_def)
qed

lemma example_backend: "backend_answers (scored_env new) clean_request"
  by (simp add: backend_answers_def example_prepare_def [abs_def] example_write_def [abs_def] example_copy_def [abs_def]
      clean_request_def)

lemma example_tools: "0 \<le> new \<Longrightarrow> tools_answer (scored_env new) clean_request (example_score new) True True"
  unfolding tools_answer_def
  using example_statistics
  by (auto simp: example_call_def [abs_def] example_convert_def [abs_def] example_scores_def [abs_def]
      example_json_def [abs_def] example_flags empty_delta_def exceeds_def example_score_def example_tool_def infra_tool_def)

lemma example_outside: "0 \<le> new \<Longrightarrow> outside_works (scored_env new) example_executor clean_request (example_score new) True True"
  unfolding outside_works_def using example_journal example_preflight example_backend example_tools by blast

lemma example_gate: "gate_passes example_executor (example_score new) True True \<longleftrightarrow> new = 0"
  by (simp add: gate_passes_def example_score_def)

text \<open>The runs: one that commits and one that goes back.\<close>

lemma example_commits: "\<exists>x s'. execute clean_env example_executor clean_request initial_state = (Inr x, s') \<and> xr_accepted x"
  using execute_returns [OF example_outside [of 0]] unfolding clean_env_def example_gate by simp

lemma example_rolls_back:
  "\<exists>x s'. execute (scored_env 1) example_executor clean_request initial_state = (Inr x, s') \<and> \<not> xr_accepted x"
  using execute_returns [OF example_outside [of 1]] unfolding example_gate by simp

section \<open>Witnesses\<close>

theorem attempts_accounted_once_witness:
  "\<exists>new. js_finishes (snd (execute clean_env example_executor clean_request initial_state)) = new \<and>
    js_claims (snd (execute clean_env example_executor clean_request initial_state)) = map claim_entry new \<and>
    length new \<le> 2"
  using attempts_accounted_once [OF example_reporting(1) prod.collapse [symmetric],
      of example_executor clean_request initial_state]
  by (auto simp: initial_state_def)

theorem index_complete_witness:
  "registered_ids (js_index (snd (execute clean_env example_executor clean_request initial_state))) =
    map fst (js_claims (snd (execute clean_env example_executor clean_request initial_state)))"
proof -
  have "registered_ids (js_index initial_state) = map fst (js_claims initial_state)"
    "terminal_entries (js_index initial_state) = map (\<lambda>x. (fst x, status_of x)) (js_finishes initial_state)"
    by (simp_all add: initial_state_def)
  from index_complete [OF example_reporting prod.collapse [symmetric] this]
  show ?thesis by (rule conjunct1)
qed

theorem commits_only_on_complete_evidence_witness:
  "\<exists>x s'. execute clean_env example_executor clean_request initial_state = (Inr x, s') \<and> xr_accepted x \<and>
    vr_fresh_evidence_valid (xr_verification x) \<and> tn_status (xr_transaction x) = TxCommitted"
  using example_commits commits_only_on_complete_evidence by blast

theorem rollback_keeps_current_witness:
  "\<exists>x s'. execute (scored_env 1) example_executor clean_request initial_state = (Inr x, s') \<and> \<not> xr_accepted x \<and>
    copy_of (xr_committed_snapshot x) example_snapshot"
proof -
  have current: "xq_current_snapshot clean_request = example_snapshot" by (simp add: clean_request_def)
  show ?thesis using example_rolls_back rollback_keeps_current unfolding current [symmetric] by blast
qed

theorem evidence_is_prefix_witness:
  "\<exists>x s' k. execute clean_env example_executor clean_request initial_state = (Inr x, s') \<and> k \<le> (5 :: nat) \<and>
    (vr_fresh_evidence_valid (xr_verification x) \<longleftrightarrow> k = 5)"
  using example_commits evidence_is_prefix by blast

theorem final_record_matches_result_witness:
  "\<exists>x s' i st r fs. execute clean_env example_executor clean_request initial_state = (Inr x, s') \<and>
    xr_attempt_id x = Some i \<and> vr_terminal_status (xr_verification x) = Some st \<and> js_finishes s' = fs @ [(i, r, st)]"
  using example_commits final_record_matches_result by blast

theorem good_patch_commits_witness:
  "\<exists>x s'. execute clean_env example_executor clean_request initial_state = (Inr x, s') \<and> xr_accepted x"
proof -
  have "0 < osc_removed_violations (example_score 0)" "osc_new_violations (example_score 0) = 0"
    "osc_final_violations (example_score 0) < osc_original_violations (example_score 0)"
    by (simp_all add: example_score_def)
  then show ?thesis
    using good_patch_commits [OF example_outside [of 0], of initial_state] by (simp add: clean_env_def)
qed

end
