(* ===== verification/Repair_Schemas.thy ===== *)
theory Repair_Schemas
  imports Json_Values Action_Schemas
begin

text \<open>
  The records of the repair kernel: flattened geometry (\<open>schemas/rules.py\<close>), repair operations and
  programs (\<open>schemas/repair_program.py\<close>), scenes, degrees of freedom and solutions
  (\<open>repair_kernel/models.py\<close>), edit authority (\<open>repair_kernel_closure/edit_authority/models.py\<close>), with
  the validators of programs. A field that has a single literal value is left out.
\<close>

section \<open>schemas/rules.py\<close>

datatype ownership_quality = ExactTopLevel | ExactSharedCell | OwnershipInferred | OwnershipUnavailable

type_synonym transform = "int \<times> bool \<times> int \<times> int"

record occurrence_provenance =
  op_source_sha256 :: "string"
  op_statement_ast_hash :: "string"
  op_parent_cell :: "string"
  op_source_cell :: "string"
  op_transform :: "transform"
  op_line :: "int"
  op_column :: "int"

record physical_geometry =
  fg_geometry_id :: "string"
  fg_occurrence_provenance :: "occurrence_provenance option"
  fg_source_object_id :: "string option"
  fg_source_anchor_id :: "string option"
  fg_source_cell :: "string option"
  fg_instance_anchor_id :: "string option"
  fg_hierarchy_path :: "string list"
  fg_layer :: "string"
  fg_polygon_dbu :: "point list"
  fg_bbox_dbu :: "box"
  fg_physical_edges :: "edge list"
  fg_ownership_quality :: "ownership_quality"
  fg_editable :: "bool"
  fg_source_instance_count :: "int"
  fg_geometry_hash :: "string"

section \<open>schemas/repair_program.py\<close>

datatype edge_selector = SideLeft | SideRight | SideBottom | SideTop

datatype program_postcondition =
    TargetRulePredicateSatisfied
  | PreserveConnectivity
  | NoNewDrc
  | PreserveRouteEndpoints

record move_object_op =
  mo_target_object_id :: "string"
  mo_dx_dbu :: "int"
  mo_dy_dbu :: "int"

record resize_edge_op =
  re_target_object_id :: "string"
  re_edge :: "edge_selector"
  re_target_coordinate_dbu :: "int"

record bounded_polygon_op =
  bp_source_owner_object_id :: "string"
  bp_layer :: "string"
  bp_polygon_dbu :: "point list"

record bounded_jog_op =
  bj_target_fragment_id :: "string"
  bj_source_owner_object_id :: "string"
  bj_layer :: "string"
  bj_polygon_dbu :: "point list"

record route_replacement_op =
  lr_target_segment_id :: "string"
  lr_layer :: "string"
  lr_replacement_polygon_dbu :: "point list"

record move_via_stack_op =
  mv_target_via_id :: "string"
  mv_dx_dbu :: "int"
  mv_dy_dbu :: "int"

record layer_replacement =
  il_instance_anchor_id :: "string"
  il_parent_cell :: "string"
  il_source_cell :: "string"
  il_layer :: "string"
  il_rotation :: "int"
  il_mirror :: "bool"
  il_dx_dbu :: "int"
  il_dy_dbu :: "int"
  il_original_polygons_local_dbu :: "point list list"
  il_replacement_polygons_local_dbu :: "point list list"
  il_occurrence_local_fragment :: "bool"

record specialize_layer_op =
  sl_source_owner_object_id :: "string"
  sl_instance_layer_replacements :: "layer_replacement list"

record specialize_boundary_op =
  sb_source_owner_object_id :: "string"
  sb_edge :: "edge_selector"
  sb_target_coordinate_dbu :: "int"
  sb_instance_layer_replacements :: "layer_replacement list"

datatype repair_operation =
    OpMoveObject move_object_op
  | OpResizeEdge resize_edge_op
  | OpAddPolygon bounded_polygon_op
  | OpAddJog bounded_jog_op
  | OpReplaceRoute route_replacement_op
  | OpMoveViaStack move_via_stack_op
  | OpSpecializeBoundary specialize_boundary_op
  | OpSpecializeLayer specialize_layer_op

datatype agent_step_kind =
    QueryWitness
  | QueryGeometry
  | QueryConnectivity
  | QueryLocalObstacles
  | ProposeProgram
  | StepStop

record repair_program =
  rp_program_id :: "string"
  rp_region_id :: "string"
  rp_target_violation_ids :: "string list"
  rp_witness_ids :: "string list"
  rp_operations :: "repair_operation list"
  rp_semantic_postconditions :: "program_postcondition list"
  rp_strategy_code :: "string"
  rp_revision :: "int"
  rp_prior_program_fingerprint :: "string option"

record agent_step =
  ag_step :: "agent_step_kind"
  ag_violation_ids :: "string list"
  ag_object_ids :: "string list"
  ag_program :: "repair_program option"
  ag_stop_reason :: "string option"

subsection \<open>Validators\<close>

definition length_between :: "nat \<Rightarrow> nat \<Rightarrow> 'a list \<Rightarrow> bool" where
  "length_between low high xs \<longleftrightarrow> low \<le> length xs \<and> length xs \<le> high"

definition validate_layer_replacement :: "layer_replacement \<Rightarrow> layer_replacement result" where
  "validate_layer_replacement r =
     (if 0 \<le> il_rotation r \<and> il_rotation r \<le> 3 \<and> il_original_polygons_local_dbu r \<noteq> [] \<and>
         il_replacement_polygons_local_dbu r \<noteq> []
      then Inr r else Inl (ValueError ''InstanceLayerReplacement''))"

text \<open>The bounds of the lists of an operation.\<close>

fun operation_bounded :: "repair_operation \<Rightarrow> bool" where
  "operation_bounded (OpAddPolygon p) = length_between 4 12 (bp_polygon_dbu p)"
| "operation_bounded (OpAddJog j) = length_between 4 12 (bj_polygon_dbu j)"
| "operation_bounded (OpReplaceRoute r) = length_between 4 16 (lr_replacement_polygon_dbu r)"
| "operation_bounded (OpSpecializeBoundary b) = length_between 1 4 (sb_instance_layer_replacements b)"
| "operation_bounded (OpSpecializeLayer l) = length_between 1 4 (sl_instance_layer_replacements l)"
| "operation_bounded _ = True"

definition validate_operation :: "repair_operation \<Rightarrow> repair_operation result" where
  "validate_operation x = (if operation_bounded x then Inr x else Inl (ValueError ''too short or too long''))"

text \<open>The names that \<open>atomic_and_bounded\<close> looks up in an operation.\<close>

fun operation_targets :: "repair_operation \<Rightarrow> string list" where
  "operation_targets (OpMoveObject m) = [mo_target_object_id m]"
| "operation_targets (OpResizeEdge r) = [re_target_object_id r]"
| "operation_targets (OpAddPolygon p) = [bp_source_owner_object_id p]"
| "operation_targets (OpAddJog j) = [bj_source_owner_object_id j, bj_target_fragment_id j]"
| "operation_targets (OpReplaceRoute r) = [lr_target_segment_id r]"
| "operation_targets (OpMoveViaStack v) = [mv_target_via_id v]"
| "operation_targets (OpSpecializeBoundary b) = [sb_source_owner_object_id b]"
| "operation_targets (OpSpecializeLayer l) = [sl_source_owner_object_id l]"

definition program_targets :: "repair_program \<Rightarrow> string list" where
  "program_targets p = filter (\<lambda>v. v \<noteq> []) (concat (map operation_targets (rp_operations p)))"

definition validate_repair_program :: "repair_program \<Rightarrow> repair_program result" where
  "validate_repair_program p =
     (if \<not> (length_between 1 4 (rp_target_violation_ids p) \<and> length_between 1 4 (rp_witness_ids p) \<and>
            length_between 1 4 (rp_operations p) \<and> length_between 3 4 (rp_semantic_postconditions p) \<and>
            length (rp_strategy_code p) \<le> 80 \<and> 0 \<le> rp_revision p \<and> rp_revision p \<le> 2)
      then Inl (ValueError ''RepairProgram'')
      else if card (set (program_targets p)) > 8
      then Inl (ValueError ''repair program exceeds bounded local target set'')
      else Inr p)"

definition validate_agent_step :: "agent_step \<Rightarrow> agent_step result" where
  "validate_agent_step s =
     (if \<not> (length (ag_violation_ids s) \<le> 4 \<and> length (ag_object_ids s) \<le> 8 \<and>
            (case ag_stop_reason s of None \<Rightarrow> True | Some t \<Rightarrow> length t \<le> 120))
      then Inl (ValueError ''RepairAgentStep'')
      else if ag_step s = ProposeProgram \<and> ag_program s = None
      then Inl (ValueError ''PROPOSE_PROGRAM requires program'')
      else if ag_step s \<noteq> ProposeProgram \<and> ag_program s \<noteq> None
      then Inl (ValueError ''query/stop steps cannot carry a program'')
      else if ag_step s = QueryWitness \<and> ag_violation_ids s = []
      then Inl (ValueError ''QUERY_WITNESS requires violation_ids'')
      else if ag_step s = QueryGeometry \<and> ag_object_ids s = []
      then Inl (ValueError ''QUERY_GEOMETRY requires object_ids'')
      else Inr s)"

section \<open>repair\_kernel\_closure/edit\_authority/models.py\<close>

datatype edit_authority_class =
    AuthorityDirectLocalSourceEdit
  | AuthorityInstanceLocalEdit
  | AuthorityLocalAdditiveOverride
  | AuthoritySharedSourceRequiresSpecialization
  | AuthoritySharedSourceGlobalUnsafe
  | AuthorityFrozenTechOrPin
  | AuthorityUnmapped

record authority_report =
  ai_report_id :: "string"
  ai_participant_id :: "string"
  ai_source_anchor_id :: "string"
  ai_definition_id :: "string option"
  ai_instance_ids :: "string list"
  ai_occurrence_count :: "int"
  ai_target_occurrence_ids :: "string list"
  ai_off_focus_occurrence_ids :: "string list"
  ai_global_edit_would_touch_count :: "int"
  ai_authority_class :: "edit_authority_class"
  ai_reason_codes :: "string list"
  ai_insertion_owner_object_id :: "string option"
  ai_local_override_capability :: "bool"
  ai_specialization_expressible :: "bool"

record authority_resolution =
  au_resolution_id :: "string"
  au_scene_id :: "string"
  au_reports :: "authority_report list"
  au_insertion_owner_by_layer :: "(string \<times> string) list"
  au_available_modes :: "edit_authority_class list"
  au_failure_codes :: "string list"

section \<open>repair\_kernel/models.py\<close>

text \<open>The \<open>Literal\<close> types of the fields.\<close>

datatype spacing_measurement =
    MeasureProjected
  | MeasureTipToTip
  | MeasureCornerToCorner
  | MeasureConditionalPrl
  | MeasureMinimumParallelRun

datatype spacing_orientation = HorizontalEdges | VerticalEdges

datatype spacing_constraint = MinimumGap | MaximumParallelRun | MinimumParallelRun

datatype box_corner = BottomLeft | BottomRight | TopLeft | TopRight

datatype landing_side = LowerLanding | UpperLanding

datatype via_predicate = InsideCoincidentEdgeCount | NoNoncoincidentConvexCorner

datatype via_shape = RectangleVia | OtherVia

datatype alignment_kind = EdgeGrid | TrackCenterline

datatype repair_family =
    FamilySpacing
  | FamilyEnclosure
  | FamilyViaMetalContextual
  | FamilyAlignment
  | FamilyUnsupported

datatype observability =
    ObservExact
  | ObservApproximate
  | ObservProxy
  | ObservUnavailable

datatype participant_role =
    RolePrimaryOffender
  | RoleSecondaryOffender
  | RoleEncloser
  | RoleEnclosedVia
  | RoleVia
  | RoleLandingMetal
  | RoleMergedMetalComponent
  | RoleObstacle
  | RoleContext

record repair_focus =
  rf_focus_id :: "string"
  rf_primary_violation_id :: "string"
  rf_primary_rule_id :: "string"
  rf_repair_family :: "repair_family"
  rf_coupled_violation_ids :: "string list"
  rf_region_id :: "string"
  rf_local_bbox :: "box"
  rf_target_predicate_id :: "string"
  rf_target_witness_id :: "string"
  rf_focus_reason :: "string"

record boundary_contributor =
  bc_edge :: "edge_selector"
  bc_physical_geometry_ids :: "string list"
  bc_source_object_ids :: "string list"
  bc_source_anchor_ids :: "string list"
  bc_edit_authority :: "bool"

record hierarchy_projection =
  hp_projection_id :: "string"
  hp_physical_geometry_ids :: "string list"
  hp_source_object_ids :: "string list"
  hp_source_anchor_ids :: "string list"
  hp_instance_anchor_ids :: "string list"
  hp_merged_component_id :: "string option"
  hp_boundary_contributors :: "boundary_contributor list"
  hp_quality :: "observability"
  hp_unavailable_reason :: "string option"

record scene_participant =
  sp_participant_id :: "string"
  sp_role :: "participant_role"
  sp_layer :: "string"
  sp_geometry_kind :: "string"
  sp_source_object_ids :: "string list"
  sp_source_anchor_ids :: "string list"
  sp_instance_anchor_ids :: "string list"
  sp_physical_geometry_ids :: "string list"
  sp_merged_component_id :: "string option"
  sp_bbox :: "box"
  sp_boundary_edges :: "edge list"
  sp_editable :: "bool"
  sp_edit_authority :: "string"
  sp_connectivity_component_ids :: "string list"
  sp_connectivity_quality :: "observability"
  sp_frozen_reason :: "string option"

record spacing_relation =
  sr_measurement_kind :: "spacing_measurement"
  sr_participant_a_id :: "string"
  sr_participant_b_id :: "string"
  sr_orientation :: "spacing_orientation"
  sr_separation_axis :: "endpoint_axis"
  sr_current_gap_dbu :: "int"
  sr_required_gap_dbu :: "int"
  sr_deficit_dbu :: "int"
  sr_projection_overlap_dbu :: "int"
  sr_orthogonal_gap_dbu :: "int"
  sr_distance_squared_dbu2 :: "int"
  sr_constraint_kind :: "spacing_constraint"
  sr_participant_a_marker_edge :: "edge option"
  sr_participant_b_marker_edge :: "edge option"
  sr_fidelity :: "observability"

record enclosure_relation =
  er_inner_participant_id :: "string"
  er_outer_participant_id :: "string"
  er_left_enclosure_dbu :: "int"
  er_right_enclosure_dbu :: "int"
  er_bottom_enclosure_dbu :: "int"
  er_top_enclosure_dbu :: "int"
  er_minimum_side_enclosure_dbu :: "int"
  er_strengthened_side_enclosure_dbu :: "int"
  er_left_deficit_dbu :: "int"
  er_right_deficit_dbu :: "int"
  er_bottom_deficit_dbu :: "int"
  er_top_deficit_dbu :: "int"
  er_fidelity :: "observability"

record corner_option =
  co_corner :: "box_corner"
  co_metal_edge :: "edge_selector"
  co_target_coordinate_dbu :: "int"
  co_current_coordinate_dbu :: "int option"
  co_physical_geometry_ids :: "string list"
  co_source_object_ids :: "string list"
  co_source_anchor_ids :: "string list"
  co_edit_authority :: "bool"

record landing_constraint =
  vl_side :: "landing_side"
  vl_participant_id :: "string"
  vl_via_layer :: "string"
  vl_metal_layer :: "string"
  vl_via_inside_landing :: "bool"
  vl_enclosure_dbu :: "(string \<times> int) list"
  vl_accepted_opposite_side_minima_dbu :: "(int \<times> int) list"
  vl_containment_rule_ids :: "string list"
  vl_enclosure_rule_ids :: "string list"

record via_metal_relation =
  vm_predicate_kind :: "via_predicate"
  vm_via_participant_id :: "string"
  vm_metal_participant_id :: "string"
  vm_via_inside_merged_metal :: "bool"
  vm_coincident_edge_map :: "(string \<times> bool) list"
  vm_current_coincident_edge_count :: "int"
  vm_required_coincident_edge_count :: "int"
  vm_missing_coincident_via_edges :: "string list"
  vm_merged_boundary_contributors :: "boundary_contributor list"
  vm_coincident_edge_carrier_contributors :: "boundary_contributor list"
  vm_bad_noncoincident_convex_corners :: "string list"
  vm_corner_edge_map :: "(string \<times> string list) list"
  vm_corner_repair_options :: "corner_option list"
  vm_adjacent_landing_constraints :: "landing_constraint list"
  vm_via_shape_kind :: "via_shape"
  vm_via_shape_on_manufacturing_grid :: "bool"
  vm_fidelity :: "observability"

record alignment_relation =
  al_alignment_kind :: "alignment_kind"
  al_participant_id :: "string"
  al_axis :: "endpoint_axis"
  al_current_edge_coordinates_dbu :: "int list"
  al_illegal_coordinates_dbu :: "int list"
  al_grid_pitch_dbu :: "int"
  al_grid_offset_dbu :: "int"
  al_base_grid_dbu :: "int option"
  al_current_centerline_dbu :: "int option"
  al_legal_target_centerlines_dbu :: "int list"
  al_preserve_width :: "bool"
  al_preserve_grid_span_residue_modulus :: "int"
  al_fidelity :: "observability"

datatype scene_relation =
    RelSpacing spacing_relation
  | RelEnclosure enclosure_relation
  | RelViaMetal via_metal_relation
  | RelAlignment alignment_relation

record repair_scene =
  sn_scene_id :: "string"
  sn_focus :: "repair_focus"
  sn_repair_family :: "repair_family"
  sn_participants :: "scene_participant list"
  sn_hierarchy_projections :: "hierarchy_projection list"
  sn_relation :: "scene_relation option"
  sn_local_obstacle_ids :: "string list"
  sn_edit_halo :: "box"
  sn_manufacturing_grid_dbu :: "int"
  sn_predicate_fidelity :: "observability"
  sn_witness_fidelity :: "observability"
  sn_hierarchy_quality :: "observability"
  sn_connectivity_quality :: "observability"
  sn_build_status :: "string"
  sn_failure_reason :: "string option"

datatype dof_type =
    DofShiftBoundaryEdge
  | DofTranslateEditableParticipant
  | DofExtendEncloserLeft
  | DofExtendEncloserRight
  | DofExtendEncloserBottom
  | DofExtendEncloserTop
  | DofAddConnectedEnclosurePatch
  | DofAlignMetalEdgeToViaEdge
  | DofAlignViaEdgeToMetalEdge
  | DofExtendMetalEdgeToViaEdge
  | DofAddBoundedConnectedMetalPatch

record repair_dof =
  df_dof_id :: "string"
  df_scene_id :: "string"
  df_participant_id :: "string"
  df_source_object_ids :: "string list"
  df_dof_type :: "dof_type"
  df_parameter_name :: "string"
  df_axis :: "endpoint_axis option"
  df_edge :: "edge_selector option"
  df_domain_min_dbu :: "int"
  df_domain_max_dbu :: "int"
  df_allowed_intervals :: "(int \<times> int) list"
  df_manufacturing_grid_dbu :: "int"
  df_predicate_effect :: "string"
  df_expected_direction :: "string"
  df_locality_bbox :: "box"
  df_requires_connectivity_preview :: "bool"
  df_connectivity_quality :: "observability"
  df_risk_flags :: "string list"
  df_coupling_group_id :: "string option"
  df_conflicts_with_dof_ids :: "string list"
  df_edit_operation_family :: "string"
  df_satisfies_relation_keys :: "string list"

datatype solver_status =
    SolverGeometryFeasible
  | SolverGeometryUnsat
  | SolverUnsupportedRepairFamily
  | SolverNoEditableDof
  | SolverInsufficientFidelity
  | SolverCompilerUnexpressible

record geometry_solution =
  gs_solution_id :: "string"
  gs_scene_id :: "string"
  gs_repair_family :: "repair_family"
  gs_selected_dof_ids :: "string list"
  gs_solver_status :: "solver_status"
  gs_objective_tuple :: "int \<times> int \<times> int \<times> int \<times> int \<times> int"
  gs_exact_geometry_parameters :: "(string \<times> json) list"
  gs_predicted_before_measurements :: "(string \<times> json) list"
  gs_predicted_after_measurements :: "(string \<times> json) list"
  gs_predicate_constraints_satisfied :: "bool"
  gs_operation_count :: "int"
  gs_operations :: "repair_operation list"
  gs_source_object_ids :: "string list"
  gs_physical_effect_fingerprint :: "string"
  gs_risk_flags :: "string list"
  gs_requires_connectivity_preview :: "bool"
  gs_solver_proof :: "string list"

end
