(* ===== verification/Occurrence_Transforms.thy ===== *)
theory Occurrence_Transforms
  imports Repair_Schemas Geometry
begin

text \<open>
  The rigid transforms of cell occurrences, the rectilinear changes of boxes and the move of a
  boundary edge (\<open>repair_kernel_closure/edit_authority/proposals.py\<close>): how a polygon of a shared cell
  definition becomes a polygon of the layout and back.
\<close>

section \<open>Transforms\<close>

text \<open>\<open>_transform\<close> and \<open>_inverse\<close>; a rotation is a number of quarter turns.\<close>

definition quarter_turn :: "int \<Rightarrow> int \<times> int \<Rightarrow> int \<times> int" where
  "quarter_turn rotation z =
     (let (x, y) = z in
      if rotation = 1 then (- y, x)
      else if rotation = 2 then (- x, - y)
      else if rotation = 3 then (y, - x) else (x, y))"

definition quarter_back :: "int \<Rightarrow> int \<times> int \<Rightarrow> int \<times> int" where
  "quarter_back rotation z =
     (let (x, y) = z in
      if rotation = 1 then (y, - x)
      else if rotation = 2 then (- x, - y)
      else if rotation = 3 then (- y, x) else (x, y))"

fun transform_point :: "transform \<Rightarrow> point \<Rightarrow> point" where
  "transform_point (rotation, mirror, dx, dy) p =
     (let (x, y) = quarter_turn rotation (pt_x p, if mirror then - pt_y p else pt_y p)
      in \<lparr>pt_x = x + dx, pt_y = y + dy\<rparr>)"

fun inverse_point :: "transform \<Rightarrow> point \<Rightarrow> point" where
  "inverse_point (rotation, mirror, dx, dy) p =
     (let (x, y) = quarter_back rotation (pt_x p - dx, pt_y p - dy)
      in \<lparr>pt_x = x, pt_y = (if mirror then - y else y)\<rparr>)"

text \<open>\<open>_infer_transform\<close>: the orders of the target polygon, and for each the eight rigid motions.\<close>

definition target_orders :: "point list \<Rightarrow> point list list" where
  "target_orders flattened = rotations flattened @ rotations (rev flattened)"

definition motions :: "(bool \<times> int) list" where
  "motions = List.product [False, True] [0, 1, 2, 3]"

text \<open>The motion that takes the first point of \<open>local\<close> to the first point of \<open>target\<close>.\<close>

definition aligned :: "point list \<Rightarrow> point list \<Rightarrow> bool \<times> int \<Rightarrow> transform" where
  "aligned points target motion =
     (let (mirror, rotation) = motion;
          origin = transform_point (rotation, mirror, 0, 0) (hd points)
      in (rotation, mirror, pt_x (hd target) - pt_x origin, pt_y (hd target) - pt_y origin))"

definition infer_transform :: "point list \<Rightarrow> point list \<Rightarrow> transform option" where
  "infer_transform points flattened =
     (if length points \<noteq> length flattened \<or> points = [] then None
      else map_option snd (List.find (\<lambda>(target, t). map (transform_point t) points = target)
        [(target, aligned points target m). target \<leftarrow> target_orders flattened, m \<leftarrow> motions]))"

text \<open>
  \<open>_occurrence_transform\<close>; the compiled \<open>verified_occurrence_transform\<close> is the parameter \<open>verified\<close>.
\<close>

definition occurrence_transform ::
    "(point list \<Rightarrow> physical_geometry \<Rightarrow> transform option result) \<Rightarrow> point list \<Rightarrow> physical_geometry \<Rightarrow>
     transform option result" where
  "occurrence_transform verified points g =
     (if fg_occurrence_provenance g \<noteq> None then verified points g
      else Inr (infer_transform points (fg_polygon_dbu g)))"

section \<open>Boxes\<close>

fun side_value :: "edge_selector \<Rightarrow> box \<Rightarrow> int" where
  "side_value SideLeft b = bx_x1 b"
| "side_value SideRight b = bx_x2 b"
| "side_value SideBottom b = bx_y1 b"
| "side_value SideTop b = bx_y2 b"

fun side_values :: "edge_selector \<Rightarrow> int \<Rightarrow> box \<Rightarrow> int list" where
  "side_values SideLeft v b = [v, bx_y1 b, bx_x2 b, bx_y2 b]"
| "side_values SideRight v b = [bx_x1 b, bx_y1 b, v, bx_y2 b]"
| "side_values SideBottom v b = [bx_x1 b, v, bx_x2 b, bx_y2 b]"
| "side_values SideTop v b = [bx_x1 b, bx_y1 b, bx_x2 b, v]"

text \<open>\<open>_resize_box\<close>; a \<open>ValueError\<close> of the box is caught there.\<close>

definition resize_box :: "box \<Rightarrow> edge_selector \<Rightarrow> int \<Rightarrow> box option" where
  "resize_box b side v =
     (case box_from_sequence (side_values side v b) of
        Inl _ \<Rightarrow> None
      | Inr c \<Rightarrow> if 0 < box_width c \<and> 0 < box_height c then Some c else None)"

text \<open>\<open>_blocks\<close> and \<open>_coordinate\<close>.\<close>

fun blocks :: "box \<Rightarrow> box \<Rightarrow> edge_selector \<Rightarrow> bool" where
  "blocks b via SideLeft \<longleftrightarrow> bx_x1 b < bx_x1 via"
| "blocks b via SideRight \<longleftrightarrow> bx_x2 via < bx_x2 b"
| "blocks b via SideBottom \<longleftrightarrow> bx_y1 b < bx_y1 via"
| "blocks b via SideTop \<longleftrightarrow> bx_y2 via < bx_y2 b"

definition shift_box :: "box \<Rightarrow> int \<Rightarrow> int \<Rightarrow> box result" where
  "shift_box b dx dy = mk_box (bx_x1 b + dx) (bx_y1 b + dy) (bx_x2 b + dx) (bx_y2 b + dy)"

text \<open>\<open>_apply_rectilinear_operation\<close>; the callers pass only moves and resizes.\<close>

definition apply_rectilinear :: "box \<Rightarrow> repair_operation \<Rightarrow> box option result" where
  "apply_rectilinear b operation =
     (case operation of
        OpMoveObject m \<Rightarrow> bind_result (shift_box b (mo_dx_dbu m) (mo_dy_dbu m)) (\<lambda>c. Inr (Some c))
      | OpResizeEdge r \<Rightarrow> Inr (resize_box b (re_edge r) (re_target_coordinate_dbu r))
      | _ \<Rightarrow> Inl (AttributeError ''edge''))"

text \<open>\<open>_positive_area_overlap\<close> and \<open>_contains_box\<close>.\<close>

definition positive_overlap :: "box \<Rightarrow> box \<Rightarrow> bool" where
  "positive_overlap a b \<longleftrightarrow>
     max (bx_x1 a) (bx_x1 b) < min (bx_x2 a) (bx_x2 b) \<and> max (bx_y1 a) (bx_y1 b) < min (bx_y2 a) (bx_y2 b)"

definition contains_box :: "box \<Rightarrow> box \<Rightarrow> bool" where
  "contains_box outer inner \<longleftrightarrow>
     bx_x1 outer \<le> bx_x1 inner \<and> bx_x1 inner \<le> bx_x2 inner \<and> bx_x2 inner \<le> bx_x2 outer \<and>
     bx_y1 outer \<le> bx_y1 inner \<and> bx_y1 inner \<le> bx_y2 inner \<and> bx_y2 inner \<le> bx_y2 outer"

text \<open>The bounding box of some points, of some boxes: \<open>min\<close> of an empty sequence raises.\<close>

definition points_box :: "point list \<Rightarrow> box result" where
  "points_box ps =
     (if ps = [] then Inl (ValueError ''min() arg is an empty sequence'')
      else mk_box (Min (pt_x ` set ps)) (Min (pt_y ` set ps)) (Max (pt_x ` set ps)) (Max (pt_y ` set ps)))"

definition boxes_hull :: "box list \<Rightarrow> box result" where
  "boxes_hull bs =
     (if bs = [] then Inl (ValueError ''min() arg is an empty sequence'')
      else mk_box (Min (bx_x1 ` set bs)) (Min (bx_y1 ` set bs)) (Max (bx_x2 ` set bs)) (Max (bx_y2 ` set bs)))"

text \<open>\<open>_closed_containing_box\<close>: \<open>None\<close> when the landing did not contain the cut.\<close>

definition grown_low :: "int \<Rightarrow> int \<Rightarrow> int \<Rightarrow> int" where
  "grown_low landing via margin = min landing (if via < landing then via - margin else via)"

definition grown_high :: "int \<Rightarrow> int \<Rightarrow> int \<Rightarrow> int" where
  "grown_high landing via margin = max landing (if landing < via then via + margin else via)"

definition closed_containing_box :: "box \<Rightarrow> box \<Rightarrow> box \<Rightarrow> box list \<Rightarrow> box list \<Rightarrow> box option result" where
  "closed_containing_box landing via changed current via_component =
     (if \<not> contains_box landing via then Inr None
      else if \<exists>c \<in> set current. contains_box c changed then Inr (Some landing)
      else bind_result (boxes_hull (via # via_component)) (\<lambda>extent.
        let left = max 0 (bx_x1 extent - bx_x1 landing); right = max 0 (bx_x2 landing - bx_x2 extent);
            bottom = max 0 (bx_y1 extent - bx_y1 landing); top = max 0 (bx_y2 landing - bx_y2 extent) in
        bind_result (mk_box (grown_low (bx_x1 landing) (bx_x1 changed) left)
            (grown_low (bx_y1 landing) (bx_y1 changed) bottom)
            (grown_high (bx_x2 landing) (bx_x2 changed) right)
            (grown_high (bx_y2 landing) (bx_y2 changed) top)) (\<lambda>b. Inr (Some b))))"

section \<open>A boundary edge\<close>

text \<open>\<open>_translate_containing_boundary_edge\<close>.\<close>

definition edge_horizontal :: "edge \<Rightarrow> bool" where
  "edge_horizontal e \<longleftrightarrow> pt_y (edge_start e) = pt_y (edge_end e)"

definition edge_vertical :: "edge \<Rightarrow> bool" where
  "edge_vertical e \<longleftrightarrow> pt_x (edge_start e) = pt_x (edge_end e)"

definition segment_contains :: "edge \<Rightarrow> point \<Rightarrow> point \<Rightarrow> bool" where
  "segment_contains e p q \<longleftrightarrow>
     (let s = edge_start e; t = edge_end e in
      if edge_horizontal e
      then pt_y p = pt_y q \<and> pt_y q = pt_y s \<and> min (pt_x p) (pt_x q) \<le> min (pt_x s) (pt_x t) \<and>
           max (pt_x s) (pt_x t) \<le> max (pt_x p) (pt_x q)
      else pt_x p = pt_x q \<and> pt_x q = pt_x s \<and> min (pt_y p) (pt_y q) \<le> min (pt_y s) (pt_y t) \<and>
           max (pt_y s) (pt_y t) \<le> max (pt_y p) (pt_y q))"

definition next_index :: "'a list \<Rightarrow> nat \<Rightarrow> nat" where
  "next_index xs i = (i + 1) mod length xs"

definition shift_point :: "int \<Rightarrow> int \<Rightarrow> point \<Rightarrow> point" where
  "shift_point dx dy p = \<lparr>pt_x = pt_x p + dx, pt_y = pt_y p + dy\<rparr>"

definition rectilinear :: "point list \<Rightarrow> bool" where
  "rectilinear ps \<longleftrightarrow>
     (\<forall>(p, q) \<in> set (zip ps (tl ps @ take 1 ps)). \<not> (pt_x p \<noteq> pt_x q \<and> pt_y p \<noteq> pt_y q))"

definition move_index :: "int \<Rightarrow> int \<Rightarrow> point list \<Rightarrow> nat \<Rightarrow> point list" where
  "move_index dx dy ps i = ps[i := shift_point dx dy (ps ! i)]"

definition translate_boundary_edge :: "point list \<Rightarrow> edge \<Rightarrow> int \<Rightarrow> int \<Rightarrow> point list option" where
  "translate_boundary_edge polygon e dx dy =
     (if edge_horizontal e = edge_vertical e then None
      else if edge_horizontal e \<and> dx \<noteq> 0 \<or> edge_vertical e \<and> dy \<noteq> 0 then None
      else case filter (\<lambda>i. segment_contains e (polygon ! i) (polygon ! next_index polygon i)) [0..<length polygon] of
        [i] \<Rightarrow>
          let moved = move_index dx dy (move_index dx dy polygon i) (next_index polygon i)
          in if rectilinear moved then Some (canonical_polygon moved) else None
      | _ \<Rightarrow> None)"

section \<open>Transforms are rigid motions\<close>

lemma quarter_inverse [simp]: "quarter_back r (quarter_turn r z) = z" "quarter_turn r (quarter_back r z) = z"
  by (auto simp: quarter_turn_def quarter_back_def split: prod.splits)

lemma inverse_transform [simp]: "inverse_point t (transform_point t p) = p"
  by (cases t) (auto simp: Let_def quarter_turn_def quarter_back_def split: prod.splits)

lemma transform_inverse [simp]: "transform_point t (inverse_point t p) = p"
  by (cases t) (auto simp: Let_def quarter_turn_def quarter_back_def split: prod.splits)

lemma inj_transform: "inj (transform_point t)"
  by (metis inverse_transform injI)

section \<open>Which motion carries a polygon onto another\<close>

text \<open>Two polygons are the same ring: another starting vertex, or the other direction of travel.\<close>

definition same_ring :: "'a list \<Rightarrow> 'a list \<Rightarrow> bool" where
  "same_ring ps qs \<longleftrightarrow> (\<exists>k. ps = rotate k qs \<or> ps = rotate k (rev qs))"

lemma same_ring_map: "same_ring ps qs \<Longrightarrow> same_ring (map f ps) (map f qs)"
  by (auto simp: same_ring_def rotate_map rev_map)

lemma same_ring_refl: "same_ring ps ps"
  unfolding same_ring_def by (metis id_apply rotate0)

lemma same_ring_length: "same_ring ps qs \<Longrightarrow> length ps = length qs"
  by (auto simp: same_ring_def)

lemma same_ring_orders: "qs \<noteq> [] \<Longrightarrow> ps \<in> set (target_orders qs) \<longleftrightarrow> same_ring ps qs"
  by (auto simp: target_orders_def set_rotations same_ring_def)

lemma map_point_pair: "map (\<lambda>(x, y). \<lparr>pt_x = x, pt_y = y\<rparr>) (ring_of ps) = ps"
  unfolding ring_of_def map_map by (rule map_idI) simp

lemma same_ring_canonical: "distinct ps \<Longrightarrow> same_ring (canonical_polygon ps) ps"
proof -
  assume d: "distinct ps"
  then have r: "distinct (ring_of ps)" by (simp add: distinct_ring_of)
  have "same_ring (canonical_ring (ring_of ps)) (ring_of ps)"
  proof (cases "3 \<le> length (ring_of ps)")
    case True
    obtain i where "canonical_ring (ring_of ps) =
        rotate i (if shoelace2 (ring_of ps) < 0 then rev (ring_of ps) else ring_of ps)"
      using r True by (rule canonical_ring_rotation)
    then show ?thesis by (auto simp: same_ring_def)
  next
    case False
    then have "canonical_ring (ring_of ps) = ring_of ps"
      by (simp add: canonical_ring_def open_ring_distinct [OF r])
    then show ?thesis by (simp add: same_ring_refl)
  qed
  then have "same_ring (map (\<lambda>(x, y). \<lparr>pt_x = x, pt_y = y\<rparr>) (canonical_ring (ring_of ps)))
      (map (\<lambda>(x, y). \<lparr>pt_x = x, pt_y = y\<rparr>) (ring_of ps))"
    by (rule same_ring_map)
  then show ?thesis unfolding map_point_pair by (simp add: canonical_polygon_def ring_of_def)
qed

text \<open>A rigid motion is determined by its turn, its mirror and one point.\<close>

definition places :: "transform \<Rightarrow> point list \<Rightarrow> point list \<Rightarrow> bool" where
  "places t points flattened \<longleftrightarrow>
     fst t \<in> {0..3} \<and> same_ring (map (transform_point t) points) flattened"

lemma aligned_unique:
  assumes "points \<noteq> []" "map (transform_point (r, m, dx, dy)) points = target"
  shows "aligned points target (m, r) = (r, m, dx, dy)"
  using assms by (cases points) (auto simp: aligned_def Let_def split: prod.splits)

lemma motions_rotation: "(m, r) \<in> set motions \<longleftrightarrow> r \<in> {0..3}"
proof -
  have "{0..3} = {0, 1, 2, 3 :: int}" by auto
  then show ?thesis by (simp add: motions_def) (cases m, auto)
qed

lemma find_Some_in: "List.find P xs = Some x \<Longrightarrow> x \<in> set xs \<and> P x"
  by (auto simp: find_Some_iff)

lemma infer_transform_sound:
  assumes "infer_transform points flattened = Some t"
  shows "points \<noteq> []" "places t points flattened"
proof -
  from assms have len: "length points = length flattened" and ne: "points \<noteq> []"
    by (simp_all add: infer_transform_def split: if_splits)
  then have ne': "flattened \<noteq> []" by auto
  from assms obtain target where
    "(target, t) \<in> set [(target, aligned points target m). target \<leftarrow> target_orders flattened, m \<leftarrow> motions]"
    and eq: "map (transform_point t) points = target"
    by (auto simp: infer_transform_def split: if_splits dest!: find_Some_in)
  then obtain m r where target: "target \<in> set (target_orders flattened)" and "(m, r) \<in> set motions"
      and t: "t = aligned points target (m, r)"
    by auto
  then have "fst t \<in> {0..3}" by (simp add: motions_rotation aligned_def Let_def)
  with target eq show "places t points flattened"
    by (simp add: places_def same_ring_orders [OF ne'])
  show "points \<noteq> []" by (fact ne)
qed

lemma infer_transform_complete:
  assumes ne: "points \<noteq> []" and t: "places t points flattened"
  shows "infer_transform points flattened \<noteq> None"
proof -
  from t have len: "length points = length flattened"
    by (auto simp: places_def dest: same_ring_length)
  then have ne': "flattened \<noteq> []" using ne by auto
  obtain r m dx dy where tt: "t = (r, m, dx, dy)" by (cases t)
  let ?target = "map (transform_point t) points"
  have target: "?target \<in> set (target_orders flattened)"
    using t by (simp add: places_def same_ring_orders [OF ne'])
  have "(m, r) \<in> set motions" using t by (simp add: places_def tt motions_rotation)
  moreover have "t = aligned points ?target (m, r)"
    unfolding tt by (rule aligned_unique [OF ne refl, symmetric])
  ultimately have "(?target, t) \<in>
      set [(target, aligned points target m). target \<leftarrow> target_orders flattened, m \<leftarrow> motions]"
    using target by force
  moreover have "infer_transform points flattened = None \<Longrightarrow> List.find (\<lambda>(target, t). map (transform_point t) points = target)
      [(target, aligned points target m). target \<leftarrow> target_orders flattened, m \<leftarrow> motions] = None"
    using len ne unfolding infer_transform_def by (simp split: if_splits)
  ultimately show ?thesis by (auto simp only: find_None_iff prod.case)
qed

text \<open>
  C18. The transform of an occurrence is read off its polygon: \<open>_infer_transform\<close> returns a quarter turn,
  a mirror and a shift that carry the local polygon onto the flattened one, up to the starting vertex
  and the direction of travel, and gives up only when no such motion exists.
\<close>

theorem infer_transform_exact:
  "case infer_transform points flattened of
     None \<Rightarrow> \<not> (points \<noteq> [] \<and> (\<exists>t. places t points flattened))
   | Some t \<Rightarrow> points \<noteq> [] \<and> places t points flattened"
proof (cases "infer_transform points flattened")
  case None
  then show ?thesis using infer_transform_complete [of points _ flattened] by auto
next
  case (Some t)
  then show ?thesis using infer_transform_sound [OF Some] by simp
qed

lemma distinct_transform: "distinct (map (transform_point t) ps) \<longleftrightarrow> distinct ps"
  by (simp add: distinct_map inj_on_subset [OF inj_transform subset_UNIV])


section \<open>Boxes that hold boxes\<close>

lemma contains_box_iff: "contains_box outer inner \<longleftrightarrow> box_ordered inner \<and> box_contains outer inner"
  by (auto simp: contains_box_def box_contains_def box_ordered_def)

lemma boxes_hull_ordered:
  assumes "bs \<noteq> []" "\<forall>b \<in> set bs. box_ordered b"
  obtains h where "boxes_hull bs = Inr h" "\<forall>b \<in> set bs. box_contains h b" "box_ordered h"
proof -
  let ?x1 = "Min (bx_x1 ` set bs)" let ?y1 = "Min (bx_y1 ` set bs)"
  let ?x2 = "Max (bx_x2 ` set bs)" let ?y2 = "Max (bx_y2 ` set bs)"
  have in_hull: "?x1 \<le> bx_x1 b \<and> ?y1 \<le> bx_y1 b \<and> bx_x2 b \<le> ?x2 \<and> bx_y2 b \<le> ?y2" if "b \<in> set bs" for b
    using that by simp
  obtain b where b: "b \<in> set bs" "box_ordered b" using assms by (cases bs) auto
  have "box_ordered \<lparr>bx_x1 = ?x1, bx_y1 = ?y1, bx_x2 = ?x2, bx_y2 = ?y2\<rparr>"
    using in_hull [OF b(1)] b(2) unfolding box_ordered_def by simp
  then show ?thesis using assms(1) in_hull that
    by (simp add: boxes_hull_def mk_box_def box_contains_def)
qed

text \<open>
  C19. The closure of a landing over an enlarged cut (\<open>_closed_containing_box\<close>) never fails: it gives up
  exactly when the landing did not hold the cut before, keeps the landing when other metal holds the
  new cut or the landing does, and otherwise grows it to hold the old landing and the new cut.
\<close>

theorem closed_containing_box_exact:
  assumes "box_ordered landing" "box_ordered via" "box_ordered changed" "\<forall>b \<in> set cuts. box_ordered b"
  shows "case closed_containing_box landing via changed current cuts of
      Inl e \<Rightarrow> False
    | Inr None \<Rightarrow> \<not> box_contains landing via
    | Inr (Some b) \<Rightarrow> box_contains landing via \<and> box_ordered b \<and> box_contains b landing \<and>
        (if \<exists>c \<in> set current. box_contains c changed then b = landing else box_contains b changed) \<and>
        (box_contains landing changed \<longrightarrow> b = landing)"
proof (cases "box_contains landing via")
  case False
  then show ?thesis using assms(2) by (simp add: closed_containing_box_def contains_box_iff)
next
  case land: True
  have cover: "(\<exists>c \<in> set current. contains_box c changed) \<longleftrightarrow> (\<exists>c \<in> set current. box_contains c changed)"
    using assms(3) by (simp add: contains_box_iff)
  show ?thesis
  proof (cases "\<exists>c \<in> set current. box_contains c changed")
    case True
    then show ?thesis using land assms by (simp add: closed_containing_box_def contains_box_iff)
  next
    case False
    obtain extent where extent: "boxes_hull (via # cuts) = Inr extent"
      by (rule boxes_hull_ordered [of "via # cuts"]) (use assms in auto)
    define l where "l = max 0 (bx_x1 extent - bx_x1 landing)"
    define r where "r = max 0 (bx_x2 landing - bx_x2 extent)"
    define d where "d = max 0 (bx_y1 extent - bx_y1 landing)"
    define u where "u = max 0 (bx_y2 landing - bx_y2 extent)"
    have nonneg: "0 \<le> l" "0 \<le> r" "0 \<le> d" "0 \<le> u" by (simp_all add: l_def r_def d_def u_def)
    let ?b = "\<lparr>bx_x1 = grown_low (bx_x1 landing) (bx_x1 changed) l, bx_y1 = grown_low (bx_y1 landing) (bx_y1 changed) d,
      bx_x2 = grown_high (bx_x2 landing) (bx_x2 changed) r, bx_y2 = grown_high (bx_y2 landing) (bx_y2 changed) u\<rparr>"
    have low: "grown_low a c m \<le> a" "0 \<le> m \<Longrightarrow> grown_low a c m \<le> c" "a \<le> c \<Longrightarrow> grown_low a c m = a" for a c m
      by (auto simp: grown_low_def)
    have high: "a \<le> grown_high a c m" "0 \<le> m \<Longrightarrow> c \<le> grown_high a c m" "c \<le> a \<Longrightarrow> grown_high a c m = a" for a c m
      by (auto simp: grown_high_def)
    have b: "box_contains ?b landing" "box_contains ?b changed" "box_contains landing changed \<Longrightarrow> ?b = landing"
      using nonneg by (auto simp: box_contains_def low high)
    have "box_ordered ?b" using b(1) assms(1) unfolding box_ordered_def box_contains_def by simp
    then have "closed_containing_box landing via changed current cuts = Inr (Some ?b)"
      using land False assms(2,3) extent
      by (simp add: closed_containing_box_def contains_box_iff Let_def mk_box_def l_def r_def d_def u_def)
    then show ?thesis using b land False \<open>box_ordered ?b\<close> by simp
  qed
qed



end
