(* ===== verification/Edit_Authority.thy ===== *)
theory Edit_Authority
  imports Occurrence_Transforms Layout_Schemas Failures
begin

text \<open>
  How a geometric solution becomes an edit of the sources
  (\<open>repair_kernel_closure/edit_authority/proposals.py\<close>). A cell definition is shared by its
  occurrences: a change of one occurrence is lowered to a replacement of its layers in a specialised
  copy, and only objects that the region may edit are moved or resized themselves.

  What is compiled or hashed is the environment \<open>edit_env\<close>; the objects and geometries of the context
  are given as the records that the code validates them to.
\<close>

record edit_env =
  ee_rectangle_points :: "box \<Rightarrow> point list"
  ee_verified_transform :: "point list \<Rightarrow> physical_geometry \<Rightarrow> transform option result"
  ee_scene_dofs :: "repair_scene \<Rightarrow> repair_dof list"
  ee_enclosure_programs :: "repair_scene \<Rightarrow> authority_resolution \<Rightarrow> repair_program list result"
  ee_hash :: "json \<Rightarrow> string"
  ee_operation_dump :: "repair_operation \<Rightarrow> json"
  ee_program_dump :: "repair_program \<Rightarrow> json"
  ee_polygon_dump :: "point list \<Rightarrow> json"

record edit_context =
  ek_objects :: "layout_object list"
  ek_physical :: "physical_geometry list"
  ek_editable_ids :: "string list"
  ek_case_id :: "string"

section \<open>Connected metal\<close>

text \<open>\<open>if current is None or item.geometry_id < current.geometry_id: d[anchor] = item\<close>.\<close>

definition note_least ::
    "(string \<times> physical_geometry) list \<Rightarrow> string \<times> physical_geometry \<Rightarrow> (string \<times> physical_geometry) list" where
  "note_least d entry =
     (let (anchor, g) = entry in
      case map_of d anchor of
        None \<Rightarrow> dict_set anchor g d
      | Some current \<Rightarrow> if fg_geometry_id g < fg_geometry_id current then dict_set anchor g d else d)"

definition whole_occurrence :: "physical_geometry \<Rightarrow> bool" where
  "whole_occurrence g \<longleftrightarrow>
     fg_instance_anchor_id g \<noteq> None \<and> fg_source_object_id g \<noteq> None \<and> fg_source_cell g \<noteq> None"

definition occurrences_by_anchor :: "physical_geometry list \<Rightarrow> (string \<times> physical_geometry) list" where
  "occurrences_by_anchor gs =
     foldl note_least [] (map (\<lambda>g. (the (fg_instance_anchor_id g), g)) (filter whole_occurrence gs))"

text \<open>\<open>_closed_direct_metal_occurrences\<close>.\<close>

definition closed_direct_occurrences ::
    "layout_object \<Rightarrow> physical_geometry list \<Rightarrow> nat \<Rightarrow> physical_geometry list option" where
  "closed_direct_occurrences direct physical max_occurrences =
     (let by_instance = occurrences_by_anchor (filter (\<lambda>g. fg_layer g = lo_layer direct \<and>
            positive_overlap (fg_bbox_dbu g) (lo_bbox_dbu direct)) physical) in
      if length by_instance > max_occurrences then None
      else Some (map snd (sort_key fst by_instance)))"

text \<open>
  \<open>_closed_same_layer_component\<close>: one pass over the candidates, which ends when the component becomes
  too big, and the loop of passes until nothing was added.
\<close>

fun component_pass ::
    "nat \<Rightarrow> (string \<times> physical_geometry) list \<Rightarrow> (string \<times> physical_geometry) list \<Rightarrow> bool \<Rightarrow>
     ((string \<times> physical_geometry) list \<times> bool) option" where
  "component_pass limit [] selected changed = Some (selected, changed)"
| "component_pass limit ((i, g) # rest) selected changed =
     (if i \<in> fst ` set selected then component_pass limit rest selected changed
      else if \<exists>m \<in> snd ` set selected. positive_overlap (fg_bbox_dbu g) (fg_bbox_dbu m)
      then let selected' = dict_set i g selected in
           if length selected' > limit then None else component_pass limit rest selected' True
      else component_pass limit rest selected changed)"

lemma component_pass_grows:
  "component_pass limit cs selected changed = Some (selected', changed') \<Longrightarrow>
     fst ` set selected \<subseteq> fst ` set selected' \<and> fst ` set selected' \<subseteq> fst ` set selected \<union> fst ` set cs \<and>
     (changed' \<longrightarrow> changed \<or> (\<exists>i \<in> fst ` set selected'. i \<notin> fst ` set selected))"
proof (induction limit cs selected changed rule: component_pass.induct)
  case (2 limit i g rest selected changed)
  show ?case
  proof (cases "i \<in> fst ` set selected")
    case True
    then show ?thesis using 2 by auto
  next
    case new: False
    show ?thesis
    proof (cases "\<exists>m \<in> snd ` set selected. positive_overlap (fg_bbox_dbu g) (fg_bbox_dbu m)")
      case True
      then have small: "\<not> length (dict_set i g selected) > limit"
        and rest: "component_pass limit rest (dict_set i g selected) True = Some (selected', changed')"
        using new "2.prems" by (auto simp: Let_def split: if_splits)
      have "fst ` set (dict_set i g selected) \<subseteq> fst ` set selected' \<and>
          fst ` set selected' \<subseteq> fst ` set (dict_set i g selected) \<union> fst ` set rest"
        using "2.IH"(2) [OF new True refl small rest] by simp
      then show ?thesis using new by (auto simp: keys_dict_set)
    next
      case False
      then have rest: "component_pass limit rest selected changed = Some (selected', changed')"
        using new "2.prems" by simp
      show ?thesis using "2.IH"(3) [OF new False rest] by auto
    qed
  qed
qed simp

lemma card_remaining:
  assumes "finite C" "A \<subseteq> B \<and> B \<subseteq> A \<union> C \<and> (\<exists>i \<in> B. i \<notin> A)"
  shows "card (C - B) < card (C - A)"
  using assms by (intro psubset_card_mono) auto

lemma component_pass_decreases:
  assumes "Some (selected', True) = component_pass limit candidates selected False"
  shows "card (fst ` set candidates - fst ` set selected') < card (fst ` set candidates - fst ` set selected)"
  by (rule card_remaining, simp, rule component_pass_grows [OF assms [symmetric], simplified HOL.simp_thms])

function component_loop ::
    "nat \<Rightarrow> (string \<times> physical_geometry) list \<Rightarrow> (string \<times> physical_geometry) list \<Rightarrow>
     (string \<times> physical_geometry) list option" where
  "component_loop limit candidates selected =
     (case component_pass limit candidates selected False of
        None \<Rightarrow> None
      | Some (selected', changed) \<Rightarrow>
          if changed then component_loop limit candidates selected' else Some selected')"
  by pat_completeness auto

termination
  by (relation "measure (\<lambda>(limit, candidates, selected). card (fst ` set candidates - fst ` set selected))")
    (simp_all only: wf_measure in_measure prod.case, metis component_pass_decreases)

definition geometry_dict :: "physical_geometry list \<Rightarrow> (string \<times> physical_geometry) list" where
  "geometry_dict gs = dict_of (map (\<lambda>g. (fg_geometry_id g, g)) gs)"

definition closed_same_layer_component ::
    "physical_geometry list \<Rightarrow> physical_geometry list \<Rightarrow> nat \<Rightarrow> physical_geometry list option" where
  "closed_same_layer_component seeds physical limit =
     (case remdups (map fg_layer seeds) of
        [layer] \<Rightarrow>
          map_option (\<lambda>selected. map snd (sort_key fst selected))
            (component_loop limit
              (sort_key fst (geometry_dict (filter (\<lambda>g. fg_layer g = layer) physical))) (geometry_dict seeds))
      | _ \<Rightarrow> None)"

text \<open>\<open>_occurrence_translation_keeps_contact_candidates\<close>.\<close>

definition in_anchors :: "string set \<Rightarrow> physical_geometry \<Rightarrow> bool" where
  "in_anchors anchors g \<longleftrightarrow> (case fg_instance_anchor_id g of None \<Rightarrow> False | Some a \<Rightarrow> a \<in> anchors)"

definition known_contacts ::
    "string set \<Rightarrow> physical_geometry list \<Rightarrow> (physical_geometry \<times> physical_geometry) list" where
  "known_contacts anchors physical =
     [(g, h). g \<leftarrow> filter (\<lambda>g. in_anchors anchors g \<and> starts_with (fg_layer g) ''M'') physical,
       h \<leftarrow> filter (\<lambda>h. fg_layer h = fg_layer g \<and> \<not> in_anchors anchors h \<and>
              positive_overlap (fg_bbox_dbu g) (fg_bbox_dbu h)) physical]"

fun contacts_kept :: "int \<Rightarrow> int \<Rightarrow> (physical_geometry \<times> physical_geometry) list \<Rightarrow> bool result" where
  "contacts_kept dx dy [] = Inr True"
| "contacts_kept dx dy ((g, h) # rest) =
     bind_result (shift_box (fg_bbox_dbu g) dx dy) (\<lambda>shifted.
       if positive_overlap shifted (fg_bbox_dbu h) then contacts_kept dx dy rest else Inr False)"

definition translation_keeps_contacts ::
    "physical_geometry list \<Rightarrow> physical_geometry list \<Rightarrow> int \<Rightarrow> int \<Rightarrow> bool result" where
  "translation_keeps_contacts seeds physical dx dy =
     (let anchors = the ` (set (map fg_instance_anchor_id seeds) - {None}) in
      if anchors = {} \<or> None \<in> set (map fg_instance_anchor_id seeds) then Inr False
      else let contacts = known_contacts anchors physical in
        bind_result (contacts_kept dx dy contacts) (\<lambda>kept. Inr (kept \<and> contacts \<noteq> [])))"

text \<open>\<open>_may_preserve_external_metal_contributors\<close>, \<open>_closed_occurrence_layer_scope\<close>.\<close>

definition may_preserve_contributors ::
    "repair_scene \<Rightarrow> physical_geometry list \<Rightarrow> physical_geometry list \<Rightarrow> int \<Rightarrow> int \<Rightarrow> bool result" where
  "may_preserve_contributors scene seeds physical dx dy =
     (case sn_relation scene of
        Some (RelSpacing r) \<Rightarrow>
          if sr_measurement_kind r = MeasureConditionalPrl then Inr False
          else translation_keeps_contacts seeds physical dx dy
      | _ \<Rightarrow> translation_keeps_contacts seeds physical dx dy)"

definition occurrence_layer_scope :: "repair_family \<Rightarrow> string \<Rightarrow> string set option" where
  "occurrence_layer_scope family layer = (if family = FamilySpacing then None else Some {layer})"

section \<open>Replacements of one occurrence\<close>

text \<open>\<open>obj.geometry_dbu\<close> as a condition and as a list.\<close>

definition points_of :: "layout_object \<Rightarrow> point list" where
  "points_of x = (case lo_geometry_dbu x of None \<Rightarrow> [] | Some ps \<Rightarrow> ps)"

definition object_dict :: "layout_object list \<Rightarrow> string \<Rightarrow> layout_object option" where
  "object_dict objects = map_of (dict_of (map (\<lambda>x. (lo_object_id x, x)) objects))"

text \<open>The objects of a cell on a layer, in the order of the replacements.\<close>

definition cell_objects :: "layout_object list \<Rightarrow> string option \<Rightarrow> string \<Rightarrow> layout_object list" where
  "cell_objects objects cell layer =
     sort_key lo_object_id
       (filter (\<lambda>x. lo_source_cell x = cell \<and> lo_layer x = layer \<and> points_of x \<noteq> []) objects)"

definition canonical_points :: "layout_object \<Rightarrow> point list" where
  "canonical_points x = canonical_polygon (points_of x)"

text \<open>\<open>str(value)\<close> of an optional string, and \<open>f"cell_{case_id}"\<close>.\<close>

definition str_of :: "string option \<Rightarrow> string" where
  "str_of v = (case v of None \<Rightarrow> ''None'' | Some t \<Rightarrow> t)"

definition make_replacement ::
    "edit_context \<Rightarrow> physical_geometry \<Rightarrow> string \<Rightarrow> transform \<Rightarrow> point list list \<Rightarrow> point list list \<Rightarrow> bool \<Rightarrow>
     layer_replacement result" where
  "make_replacement ctx g layer t original replacement fragment =
     (let (rotation, mirror, dx, dy) = t in
      validate_layer_replacement
        \<lparr>il_instance_anchor_id = str_of (fg_instance_anchor_id g), il_parent_cell = ''cell_'' @ ek_case_id ctx,
         il_source_cell = str_of (fg_source_cell g), il_layer = layer, il_rotation = rotation,
         il_mirror = mirror, il_dx_dbu = dx, il_dy_dbu = dy, il_original_polygons_local_dbu = original,
         il_replacement_polygons_local_dbu = replacement, il_occurrence_local_fragment = fragment\<rparr>)"

text \<open>A local polygon after a move of the occurrence by \<open>(dx, dy)\<close> in the layout.\<close>

definition moved_polygon :: "transform \<Rightarrow> int \<Rightarrow> int \<Rightarrow> point list \<Rightarrow> point list" where
  "moved_polygon t dx dy polygon =
     canonical_polygon (map (\<lambda>p. inverse_point t (shift_point dx dy (transform_point t p))) polygon)"

definition moved_layer ::
    "edit_context \<Rightarrow> physical_geometry \<Rightarrow> transform \<Rightarrow> int \<Rightarrow> int \<Rightarrow> string \<Rightarrow> layer_replacement result" where
  "moved_layer ctx g t dx dy layer =
     (let original = map canonical_points (cell_objects (ek_objects ctx) (fg_source_cell g) layer) in
      make_replacement ctx g layer t original (map (moved_polygon t dx dy) original) False)"

definition cell_layers :: "layout_object list \<Rightarrow> string option \<Rightarrow> string set option \<Rightarrow> string list" where
  "cell_layers objects cell selected =
     py_sorted (lo_layer ` {x \<in> set objects. lo_source_cell x = cell \<and> points_of x \<noteq> [] \<and>
       (case selected of None \<Rightarrow> True | Some ls \<Rightarrow> lo_layer x \<in> ls)})"

text \<open>\<open>_translated_occurrence_replacements\<close>.\<close>

definition translated_replacements ::
    "edit_env \<Rightarrow> edit_context \<Rightarrow> physical_geometry \<Rightarrow> int \<Rightarrow> int \<Rightarrow> string set option \<Rightarrow>
     layer_replacement list option result" where
  "translated_replacements env ctx g dx dy selected =
     (case object_dict (ek_objects ctx) (str_of (fg_source_object_id g)) of
        None \<Rightarrow> Inr None
      | Some source \<Rightarrow>
          if points_of source = [] then Inr None
          else bind_result (occurrence_transform (ee_verified_transform env) (points_of source) g) (\<lambda>t.
            case t of
              None \<Rightarrow> Inr None
            | Some t \<Rightarrow>
                let layers = cell_layers (ek_objects ctx) (fg_source_cell g) selected in
                if layers = [] \<or> length layers > 4 then Inr None
                else bind_result (map_result (moved_layer ctx g t dx dy) layers) (\<lambda>rs. Inr (Some rs))))"

text \<open>\<open>_local_fragment_translation_replacement\<close>: one polygon of the layer, one of its edges.\<close>

definition fragment_polygon ::
    "string \<Rightarrow> transform \<Rightarrow> edge \<Rightarrow> int \<Rightarrow> int \<Rightarrow> layout_object \<Rightarrow> point list option" where
  "fragment_polygon source_id t e dx dy x =
     (if lo_object_id x \<noteq> source_id then Some (canonical_points x)
      else map_option (\<lambda>changed. canonical_polygon (map (inverse_point t) changed))
        (translate_boundary_edge (map (transform_point t) (canonical_points x)) e dx dy))"

fun all_some :: "'a option list \<Rightarrow> 'a list option" where
  "all_some [] = Some []"
| "all_some (x # xs) = (case x of None \<Rightarrow> None | Some y \<Rightarrow> map_option ((#) y) (all_some xs))"

definition fragment_replacement ::
    "edit_env \<Rightarrow> edit_context \<Rightarrow> physical_geometry \<Rightarrow> string \<Rightarrow> layout_object \<Rightarrow> int \<Rightarrow> int \<Rightarrow> edge \<Rightarrow>
     layer_replacement option result" where
  "fragment_replacement env ctx g source_id source dx dy e =
     (if fg_instance_anchor_id g = None \<or> fg_source_cell g = None \<or> points_of source = [] \<or>
         lo_layer source \<noteq> fg_layer g
      then Inr None
      else bind_result (occurrence_transform (ee_verified_transform env) (points_of source) g) (\<lambda>t.
        case t of
          None \<Rightarrow> Inr None
        | Some t \<Rightarrow>
            let members = cell_objects (ek_objects ctx) (fg_source_cell g) (fg_layer g) in
            if length (filter (\<lambda>x. lo_object_id x = source_id) members) \<noteq> 1 then Inr None
            else case all_some (map (fragment_polygon source_id t e dx dy) members) of
                None \<Rightarrow> Inr None
              | Some polygons \<Rightarrow>
                  bind_result (make_replacement ctx g (fg_layer g) t (map canonical_points members) polygons True)
                    (\<lambda>r. Inr (Some r))))"

section \<open>The landings of a via\<close>

text \<open>
  \<open>_via_stack_containment_replacements\<close>. The adjacent metals of a via layer; a layer that is not a
  via layer gives no restriction.
\<close>

definition adjacent_metals :: "string \<Rightarrow> string set option" where
  "adjacent_metals layer =
     (if starts_with layer ''V'' \<and> tl layer \<noteq> [] \<and> (\<forall>c \<in> set (tl layer). Json.is_digit c)
      then let n = read_nat (tl layer) in Some {''M'' @ show_nat n, ''M'' @ show_nat (n + 1)} else None)"

definition landing_layer :: "string \<Rightarrow> string \<Rightarrow> string \<Rightarrow> bool" where
  "landing_layer via_layer relation_layer layer \<longleftrightarrow>
     starts_with layer ''M'' \<and> (case adjacent_metals via_layer of None \<Rightarrow> True | Some ls \<Rightarrow> layer \<in> ls) \<and>
     layer \<noteq> relation_layer"

text \<open>The landings that are known, and those that are projected from the cell definition.\<close>

definition known_landings :: "physical_geometry \<Rightarrow> string \<Rightarrow> physical_geometry list \<Rightarrow> physical_geometry list" where
  "known_landings g relation_layer physical =
     filter (\<lambda>h. fg_instance_anchor_id h = fg_instance_anchor_id g \<and> fg_source_cell h = fg_source_cell g \<and>
       landing_layer (fg_layer g) relation_layer (fg_layer h) \<and> fg_source_object_id h \<noteq> None \<and>
       contains_box (fg_bbox_dbu h) (fg_bbox_dbu g)) physical"

definition projected_landing ::
    "edit_env \<Rightarrow> physical_geometry \<Rightarrow> transform \<Rightarrow> layout_object \<Rightarrow> physical_geometry option result" where
  "projected_landing env g t source =
     (let polygon = canonical_polygon (map (transform_point t) (points_of source)) in
      bind_result (points_box polygon) (\<lambda>bbox.
      Inr (if \<not> contains_box bbox (fg_bbox_dbu g) then None
        else Some \<lparr>
          fg_geometry_id = short_id (ee_hash env) ''source_projection_'' 20
            (JList [json_opt JStr (fg_instance_anchor_id g), JStr (lo_object_id source), ee_polygon_dump env polygon]),
          fg_occurrence_provenance = fg_occurrence_provenance g,
          fg_source_object_id = Some (lo_object_id source),
          fg_source_anchor_id = lo_source_anchor_id source, fg_source_cell = fg_source_cell g,
          fg_instance_anchor_id = fg_instance_anchor_id g, fg_hierarchy_path = fg_hierarchy_path g,
          fg_layer = lo_layer source, fg_polygon_dbu = polygon, fg_bbox_dbu = bbox, fg_physical_edges = [],
          fg_ownership_quality = ExactSharedCell, fg_editable = False,
          fg_source_instance_count = fg_source_instance_count g,
          fg_geometry_hash = ee_hash env
            (JList [JStr (lo_object_id source), ee_polygon_dump env polygon, json_opt JStr (fg_instance_anchor_id g)])\<rparr>)))"

definition landing_candidates ::
    "edit_env \<Rightarrow> edit_context \<Rightarrow> physical_geometry \<Rightarrow> string \<Rightarrow> transform \<Rightarrow>
     (string \<times> physical_geometry list) list result" where
  "landing_candidates env ctx g relation_layer t =
     (let known = known_landings g relation_layer (ek_physical ctx);
          covered = (\<lambda>h. (fg_layer h, str_of (fg_source_object_id h))) ` set known;
          sources = filter (\<lambda>x. lo_source_cell x = fg_source_cell g \<and>
            landing_layer (fg_layer g) relation_layer (lo_layer x) \<and> points_of x \<noteq> [] \<and>
            (lo_layer x, lo_object_id x) \<notin> covered) (ek_objects ctx) in
      bind_result (map_result (projected_landing env g t) sources) (\<lambda>projected.
      Inr (group_by fg_layer (known @ map the (filter (\<lambda>p. p \<noteq> None) projected)))))"

definition exact_rectangle :: "edit_env \<Rightarrow> physical_geometry \<Rightarrow> bool" where
  "exact_rectangle env g \<longleftrightarrow>
     canonical_polygon (fg_polygon_dbu g) = canonical_polygon (ee_rectangle_points env (fg_bbox_dbu g))"

text \<open>
  One layer: \<open>Inr None\<close> when the closure cannot be expressed, \<open>Inr (Some [])\<close> when nothing has to
  change.
\<close>

definition landing_covers :: "edit_env \<Rightarrow> edit_context \<Rightarrow> string \<Rightarrow> physical_geometry \<Rightarrow> box \<Rightarrow> box list" where
  "landing_covers env ctx layer landing changed =
     map fg_bbox_dbu (filter (\<lambda>h. fg_layer h = layer \<and> exact_rectangle env h \<and>
       0 < box_intersection_area (fg_bbox_dbu h) (fg_bbox_dbu landing) \<and> contains_box (fg_bbox_dbu h) changed)
       (ek_physical ctx))"

definition via_cuts :: "edit_context \<Rightarrow> physical_geometry \<Rightarrow> box list" where
  "via_cuts ctx g =
     map fg_bbox_dbu (filter (\<lambda>h. fg_layer h = fg_layer g \<and> fg_instance_anchor_id h = fg_instance_anchor_id g \<and>
       fg_source_cell h = fg_source_cell g) (ek_physical ctx))"

fun index_where :: "('a \<Rightarrow> bool) \<Rightarrow> 'a list \<Rightarrow> nat option" where
  "index_where P [] = None"
| "index_where P (x # xs) = (if P x then Some 0 else map_option Suc (index_where P xs))"

definition grown_landing ::
    "edit_env \<Rightarrow> edit_context \<Rightarrow> physical_geometry \<Rightarrow> transform \<Rightarrow> string \<Rightarrow> physical_geometry \<Rightarrow> box \<Rightarrow>
     layer_replacement list option result" where
  "grown_landing env ctx g t layer landing b =
     (let members = cell_objects (ek_objects ctx) (fg_source_cell g) layer;
          original = map canonical_points members in
      case index_where (\<lambda>x. Some (lo_object_id x) = fg_source_object_id landing) members of
        None \<Rightarrow> Inr None
      | Some i \<Rightarrow>
          bind_result (make_replacement ctx g layer t original
            (original[i := canonical_polygon (map (inverse_point t) (ee_rectangle_points env b))]) False)
            (\<lambda>r. Inr (Some [r])))"

definition close_landing ::
    "edit_env \<Rightarrow> edit_context \<Rightarrow> physical_geometry \<Rightarrow> box \<Rightarrow> transform \<Rightarrow> string \<times> physical_geometry list \<Rightarrow>
     layer_replacement list option result" where
  "close_landing env ctx g changed t entry =
     (let (layer, candidates) = entry;
          landing = min_by (\<lambda>h. (box_width (fg_bbox_dbu h) * box_height (fg_bbox_dbu h), fg_geometry_id h))
            (hd candidates) (tl candidates) in
      if \<not> exact_rectangle env landing \<or> \<not> exact_rectangle env g then Inr None
      else if contains_box (fg_bbox_dbu landing) changed then Inr (Some [])
      else bind_result (closed_containing_box (fg_bbox_dbu landing) (fg_bbox_dbu g) changed
          (landing_covers env ctx layer landing changed) (via_cuts ctx g)) (\<lambda>closed.
        case closed of
          None \<Rightarrow> Inr None
        | Some b \<Rightarrow>
            if \<not> contains_box b (fg_bbox_dbu landing) then Inr None
            else if b = fg_bbox_dbu landing then Inr (Some [])
            else grown_landing env ctx g t layer landing b))"

fun close_landings ::
    "(string \<times> physical_geometry list \<Rightarrow> layer_replacement list option result) \<Rightarrow>
     (string \<times> physical_geometry list) list \<Rightarrow> layer_replacement list option result" where
  "close_landings close [] = Inr (Some [])"
| "close_landings close (entry # rest) =
     bind_result (close entry) (\<lambda>r. case r of
         None \<Rightarrow> Inr None
       | Some rs \<Rightarrow> bind_result (close_landings close rest) (\<lambda>q. Inr (map_option ((@) rs) q)))"

definition via_stack_replacements ::
    "edit_env \<Rightarrow> edit_context \<Rightarrow> physical_geometry \<Rightarrow> box \<Rightarrow> string \<Rightarrow> transform \<Rightarrow>
     layer_replacement list option result" where
  "via_stack_replacements env ctx g changed relation_layer t =
     (if fg_instance_anchor_id g = None \<or> fg_source_cell g = None then Inr None
      else bind_result (landing_candidates env ctx g relation_layer t) (\<lambda>by_layer.
        close_landings (close_landing env ctx g changed t) (sort_key fst by_layer)))"

section \<open>Grouping\<close>

text \<open>\<open>_group_specialization_operations\<close>: one replacement for each occurrence and layer.\<close>

type_synonym identity_dict = "((string \<times> string) \<times> string \<times> layer_replacement) list"

definition register_replacement :: "string \<Rightarrow> layer_replacement \<Rightarrow> identity_dict \<Rightarrow> identity_dict option" where
  "register_replacement owner r d =
     (let k = (il_instance_anchor_id r, il_layer r) in
      case map_of d k of
        Some (owner', r') \<Rightarrow> if owner' \<noteq> owner \<or> r' \<noteq> r then None else Some d
      | None \<Rightarrow> Some (dict_set k (owner, r) d))"

fun register_all :: "(string \<times> layer_replacement) list \<Rightarrow> identity_dict \<Rightarrow> identity_dict option" where
  "register_all [] d = Some d"
| "register_all ((owner, r) # rest) d =
     (case register_replacement owner r d of None \<Rightarrow> None | Some d' \<Rightarrow> register_all rest d')"

fun chunks :: "nat \<Rightarrow> 'a list \<Rightarrow> 'a list list" where
  "chunks n [] = []"
| "chunks n (x # xs) = take (Suc n) (x # xs) # chunks n (drop n xs)"

definition operation_specs :: "identity_dict \<Rightarrow> (string \<times> layer_replacement list) list" where
  "operation_specs unique =
     concat (map (\<lambda>(owner, items). map (Pair owner) (chunks 3 items))
       (sort_key fst (map (\<lambda>(owner, ps). (owner, map snd ps)) (group_by fst (map snd (sort_key fst unique))))))"

definition group_specializations ::
    "(string \<times> layer_replacement list) list \<Rightarrow> specialize_layer_op list option" where
  "group_specializations by_owner =
     (case register_all (concat (map (\<lambda>(owner, rs). map (Pair owner) rs) (sort_key fst by_owner))) [] of
        None \<Rightarrow> None
      | Some unique \<Rightarrow>
          if card (fst ` fst ` set unique) > 4 \<or> length unique > 16 then None
          else if length (operation_specs unique) > 4 then None
          else Some (map (\<lambda>(owner, items). \<lparr>sl_source_owner_object_id = owner,
            sl_instance_layer_replacements = items\<rparr>) (operation_specs unique)))"

end
