(* ===== verification/Edit_Closures.thy ===== *)
theory Edit_Closures
  imports Edit_Authority
begin

text \<open>
  What the closures of \<open>Edit_Authority\<close> compute: the move of an occurrence, the merged metal of some
  geometries and the packing of replacements into operations.
\<close>

section \<open>Moved polygons\<close>

lemma inj_shift: "inj (shift_point dx dy)"
  by (rule injI) (simp add: shift_point_def)

lemma inj_inverse: "inj (inverse_point t)"
  by (metis transform_inverse injI)

lemma moved_polygon_ring:
  assumes "distinct ps"
  shows "same_ring (map (transform_point t) (moved_polygon t dx dy ps))
    (map (shift_point dx dy) (map (transform_point t) ps))"
proof -
  let ?f = "\<lambda>p. inverse_point t (shift_point dx dy (transform_point t p))"
  have "inj (inverse_point t \<circ> (shift_point dx dy \<circ> transform_point t))"
    by (intro inj_compose inj_inverse inj_shift inj_transform)
  then have "inj ?f" by (simp only: comp_def)
  then have "distinct (map ?f ps)" using assms by (simp add: distinct_map inj_on_subset [OF _ subset_UNIV])
  then have "same_ring (moved_polygon t dx dy ps) (map ?f ps)"
    unfolding moved_polygon_def by (rule same_ring_canonical)
  then have "same_ring (map (transform_point t) (moved_polygon t dx dy ps)) (map (transform_point t) (map ?f ps))"
    by (rule same_ring_map)
  also have "map (transform_point t) (map ?f ps) = map (shift_point dx dy) (map (transform_point t) ps)"
    by simp
  finally show ?thesis .
qed

text \<open>The transform that a replacement carries, and a replacement that moves its polygons.\<close>

definition replacement_transform :: "layer_replacement \<Rightarrow> transform" where
  "replacement_transform r = (il_rotation r, il_mirror r, il_dx_dbu r, il_dy_dbu r)"

definition moved_by :: "int \<Rightarrow> int \<Rightarrow> layer_replacement \<Rightarrow> bool" where
  "moved_by dx dy r \<longleftrightarrow>
     list_all2 (\<lambda>old new. same_ring (map (transform_point (replacement_transform r)) new)
         (map (shift_point dx dy) (map (transform_point (replacement_transform r)) old)))
       (il_original_polygons_local_dbu r) (il_replacement_polygons_local_dbu r)"

lemma moved_layer_moves:
  assumes r: "moved_layer ctx g t dx dy layer = Inr r"
    and simple: "\<forall>x \<in> set (ek_objects ctx). distinct (canonical_points x)"
  shows "moved_by dx dy r" "il_layer r = layer" "replacement_transform r = t"
    "il_original_polygons_local_dbu r = map canonical_points (cell_objects (ek_objects ctx) (fg_source_cell g) layer)"
proof -
  obtain rotation mirror x y where t: "t = (rotation, mirror, x, y)" by (cases t)
  let ?original = "map canonical_points (cell_objects (ek_objects ctx) (fg_source_cell g) layer)"
  have r': "il_layer r = layer \<and> replacement_transform r = t \<and> il_original_polygons_local_dbu r = ?original \<and>
      il_replacement_polygons_local_dbu r = map (moved_polygon t dx dy) ?original"
    using r by (auto simp: moved_layer_def make_replacement_def t validate_layer_replacement_def Let_def
        replacement_transform_def split: if_splits)
  have "distinct ps" if "ps \<in> set ?original" for ps
    using that simple by (auto simp: cell_objects_def)
  then have "list_all2 (\<lambda>old new. same_ring (map (transform_point t) new)
      (map (shift_point dx dy) (map (transform_point t) old))) ?original (map (moved_polygon t dx dy) ?original)"
    unfolding list.rel_map(2) [of _ ?original "moved_polygon t dx dy"]
    by (intro list.rel_refl_strong moved_polygon_ring)
  then show "moved_by dx dy r" using r' by (simp only: moved_by_def)
  show "il_layer r = layer" "replacement_transform r = t" "il_original_polygons_local_dbu r = ?original"
    using r' by simp_all
qed

lemma translated_replacements_Some:
  assumes "translated_replacements env ctx g dx dy scope = Inr (Some rs)"
  obtains source t where "object_dict (ek_objects ctx) (str_of (fg_source_object_id g)) = Some source"
    "occurrence_transform (ee_verified_transform env) (points_of source) g = Inr (Some t)"
    "cell_layers (ek_objects ctx) (fg_source_cell g) scope \<noteq> []"
    "length (cell_layers (ek_objects ctx) (fg_source_cell g) scope) \<le> 4"
    "map_result (moved_layer ctx g t dx dy) (cell_layers (ek_objects ctx) (fg_source_cell g) scope) = Inr rs"
proof (cases "object_dict (ek_objects ctx) (str_of (fg_source_object_id g))")
  case (Some source)
  obtain r where r: "occurrence_transform (ee_verified_transform env) (points_of source) g = Inr r"
    using assms by (cases "occurrence_transform (ee_verified_transform env) (points_of source) g")
      (simp_all add: translated_replacements_def Some split: if_splits)
  obtain t where "r = Some t"
    using assms r by (cases r) (simp_all add: translated_replacements_def Some split: if_splits)
  then show thesis
    using that [OF Some, of t] assms r
    by (simp add: translated_replacements_def Some Let_def bind_result_Inr_iff not_less split: if_splits)
qed (use assms in \<open>simp add: translated_replacements_def\<close>)

text \<open>
  C15. \<open>_translated_occurrence_replacements\<close> moves an occurrence by exactly the given displacement: in the
  layout frame every replaced polygon is the original one shifted by it, for every layer in scope,
  once, in at most four replacements. All replacements carry one transform: for a geometry with
  provenance the one that \<open>verified_occurrence_transform\<close> (compiled, a parameter) returns for the source
  polygon; for an archived geometry, which has none, one that places the source polygon where it lies in
  the layout. The source polygons are simple in that no vertex of their canonical ring is repeated.
\<close>

theorem translation_moves_occurrence:
  assumes result: "translated_replacements env ctx g dx dy scope = Inr (Some rs)"
    and simple: "\<forall>x \<in> set (ek_objects ctx). distinct (canonical_points x)"
  shows "map il_layer rs = cell_layers (ek_objects ctx) (fg_source_cell g) scope \<and> length_between 1 4 rs \<and>
    list_all (\<lambda>r. moved_by dx dy r \<and>
      il_original_polygons_local_dbu r =
        map canonical_points (cell_objects (ek_objects ctx) (fg_source_cell g) (il_layer r))) rs \<and>
    (\<exists>source t. object_dict (ek_objects ctx) (str_of (fg_source_object_id g)) = Some source \<and>
      list_all (\<lambda>r. replacement_transform r = t) rs \<and>
      (case fg_occurrence_provenance g of
         None \<Rightarrow> places t (points_of source) (fg_polygon_dbu g)
       | Some provenance \<Rightarrow> ee_verified_transform env (points_of source) g = Inr (Some t)))"
proof -
  let ?layers = "cell_layers (ek_objects ctx) (fg_source_cell g) scope"
  from result obtain source t where source: "object_dict (ek_objects ctx) (str_of (fg_source_object_id g)) = Some source"
    and t: "occurrence_transform (ee_verified_transform env) (points_of source) g = Inr (Some t)"
    and bounds: "?layers \<noteq> []" "length ?layers \<le> 4"
    and rs: "map_result (moved_layer ctx g t dx dy) ?layers = Inr rs"
    by (rule translated_replacements_Some)
  have pairs: "list_all2 (\<lambda>layer r. moved_layer ctx g t dx dy layer = Inr r) ?layers rs"
    using rs by (rule map_result_list_all2)
  have "map il_layer rs = map id ?layers"
    by (rule map_result_map [OF rs]) (simp add: moved_layer_moves(2) [OF _ simple])
  moreover have "length rs = length ?layers" using list_all2_lengthD [OF pairs] by simp
  moreover have each: "moved_by dx dy r \<and> replacement_transform r = t \<and>
      il_original_polygons_local_dbu r =
        map canonical_points (cell_objects (ek_objects ctx) (fg_source_cell g) (il_layer r))" if "r \<in> set rs" for r
  proof -
    from that obtain i where "i < length rs" "r = rs ! i" by (metis in_set_conv_nth)
    then have "moved_layer ctx g t dx dy (?layers ! i) = Inr r" using list_all2_nthD2 [OF pairs] by simp
    from moved_layer_moves [OF this simple] show ?thesis by simp
  qed
  moreover have "case fg_occurrence_provenance g of
      None \<Rightarrow> places t (points_of source) (fg_polygon_dbu g)
    | Some provenance \<Rightarrow> ee_verified_transform env (points_of source) g = Inr (Some t)"
    using t infer_transform_sound(2) [of "points_of source" "fg_polygon_dbu g" t]
    by (auto simp: occurrence_transform_def split: option.split)
  ultimately show ?thesis
    using bounds source
    by (intro conjI exI [of _ source] exI [of _ t]) (simp_all add: list_all_iff length_between_def Suc_le_eq)
qed

section \<open>Merged metal\<close>

text \<open>The merged metal of some seeds: what is reached from them over overlapping boxes.\<close>

definition overlap_step :: "physical_geometry set \<Rightarrow> (physical_geometry \<times> physical_geometry) set" where
  "overlap_step G = {(m, g). g \<in> G \<and> positive_overlap (fg_bbox_dbu g) (fg_bbox_dbu m)}"

definition merged_metal :: "physical_geometry set \<Rightarrow> physical_geometry set \<Rightarrow> physical_geometry set" where
  "merged_metal G seeds = (overlap_step G)\<^sup>* `` seeds"

lemma merged_metal_seeds: "seeds \<subseteq> merged_metal G seeds"
  by (auto simp: merged_metal_def)

lemma merged_metal_step:
  assumes "m \<in> merged_metal G seeds" "g \<in> G" "positive_overlap (fg_bbox_dbu g) (fg_bbox_dbu m)"
  shows "g \<in> merged_metal G seeds"
  using assms unfolding merged_metal_def overlap_step_def by (auto intro: rtrancl_into_rtrancl)

lemma merged_metal_least:
  assumes "seeds \<subseteq> S" "\<And>m g. m \<in> S \<Longrightarrow> g \<in> G \<Longrightarrow> positive_overlap (fg_bbox_dbu g) (fg_bbox_dbu m) \<Longrightarrow> g \<in> S"
  shows "merged_metal G seeds \<subseteq> S"
proof
  fix g assume "g \<in> merged_metal G seeds"
  then obtain s where s: "s \<in> seeds" "(s, g) \<in> (overlap_step G)\<^sup>*" by (auto simp: merged_metal_def)
  from s(2) show "g \<in> S"
    by (induction rule: rtrancl_induct) (use s(1) assms in \<open>auto simp: overlap_step_def\<close>)
qed

lemma finite_merged_metal: "finite G \<Longrightarrow> finite seeds \<Longrightarrow> finite (merged_metal G seeds)"
  by (rule finite_subset [OF merged_metal_least [of seeds "seeds \<union> G"]]) auto

text \<open>The dictionary of the loop: each geometry below its own name.\<close>

definition named :: "(string \<times> physical_geometry) list \<Rightarrow> bool" where
  "named d \<longleftrightarrow> distinct (map fst d) \<and> (\<forall>(i, g) \<in> set d. i = fg_geometry_id g)"

definition members :: "(string \<times> physical_geometry) list \<Rightarrow> physical_geometry set" where
  "members d = snd ` set d"

lemma named_entry: "named d \<Longrightarrow> p \<in> set d \<Longrightarrow> fst p = fg_geometry_id (snd p)"
  unfolding named_def by (cases p) auto

lemma named_card: "named d \<Longrightarrow> card (members d) = length d"
proof -
  assume n: "named d"
  then have "distinct d" by (simp add: named_def distinct_map)
  moreover have "inj_on snd (set d)"
    by (intro inj_onI prod_eqI) (simp_all add: named_entry [OF n])
  ultimately show ?thesis by (simp add: members_def card_image distinct_card)
qed

lemma named_keys: "named d \<Longrightarrow> fst ` set d = fg_geometry_id ` members d"
  unfolding members_def image_image by (rule image_cong [OF refl]) (rule named_entry)

lemma named_extend:
  assumes "named d" "fg_geometry_id g \<notin> fst ` set d"
  shows "named (dict_set (fg_geometry_id g) g d)" "members (dict_set (fg_geometry_id g) g d) = insert g (members d)"
  using assms by (auto simp: dict_set_fresh named_def members_def)

lemma component_pass_result:
  assumes "named d" "\<forall>(i, g) \<in> set cs. i = fg_geometry_id g \<and> g \<in> G" "members d \<subseteq> M"
    and grow: "\<forall>m \<in> M. \<forall>g \<in> G. positive_overlap (fg_bbox_dbu g) (fg_bbox_dbu m) \<longrightarrow> g \<in> M"
    and "changed \<longrightarrow> length d \<le> limit"
  shows "case component_pass limit cs d changed of
      None \<Rightarrow> \<exists>T. members d \<subset> T \<and> T \<subseteq> M \<and> finite T \<and> limit < card T
    | Some (d', changed') \<Rightarrow> named d' \<and> members d \<subseteq> members d' \<and> members d' \<subseteq> M \<and>
        (changed' \<longrightarrow> length d' \<le> limit) \<and>
        (\<not> changed' \<longrightarrow> d' = d \<and> \<not> changed \<and> (\<forall>(i, g) \<in> set cs. i \<in> fst ` set d \<or>
          \<not> (\<exists>m \<in> members d. positive_overlap (fg_bbox_dbu g) (fg_bbox_dbu m))))"
  using assms(1,2,3,5)
proof (induction limit cs d changed rule: component_pass.induct)
  case (1 limit d changed)
  then show ?case by simp
next
  case (2 limit i g cs d changed)
  have g: "i = fg_geometry_id g" "g \<in> G" and cs: "\<forall>(i, g) \<in> set cs. i = fg_geometry_id g \<and> g \<in> G"
    using "2.prems"(2) by auto
  show ?case
  proof (cases "i \<in> fst ` set d")
    case True
    note IH = "2.IH"(1) [OF True "2.prems"(1) cs "2.prems"(3,4)]
    have "component_pass limit ((i, g) # cs) d changed = component_pass limit cs d changed"
      using True by simp
    with IH True show ?thesis by (auto split: option.splits prod.splits)
  next
    case fresh: False
    show ?thesis
    proof (cases "\<exists>m \<in> snd ` set d. positive_overlap (fg_bbox_dbu g) (fg_bbox_dbu m)")
      case True
      let ?d = "dict_set i g d"
      have named: "named ?d" and members: "members ?d = insert g (members d)"
        using named_extend [OF "2.prems"(1)] fresh g(1) by auto
      have new: "g \<notin> members d" using fresh named_keys [OF "2.prems"(1)] g(1) by auto
      have M: "members ?d \<subseteq> M"
        using "2.prems"(3) True grow g(2) unfolding members by (auto simp: members_def)
      show ?thesis
      proof (cases "length ?d > limit")
        case big: True
        have "members d \<subset> members ?d" using new members by auto
        moreover have "limit < card (members ?d)" using big named_card [OF named] by simp
        moreover have "finite (members ?d)" by (simp add: members_def)
        moreover have "component_pass limit ((i, g) # cs) d changed = None"
          using fresh True big by simp
        ultimately show ?thesis using M by auto
      next
        case False
        have small: "True \<longrightarrow> length ?d \<le> limit" using False by simp
        note IH = "2.IH"(2) [OF fresh True refl False named cs M small]
        have eq: "component_pass limit ((i, g) # cs) d changed = component_pass limit cs ?d True"
          using fresh True False by simp
        have more: "members d \<subset> members ?d" using new members by auto
        show ?thesis
        proof (cases "component_pass limit cs ?d True")
          case None
          obtain T where T: "members ?d \<subset> T \<and> T \<subseteq> M \<and> finite T \<and> limit < card T"
            using IH unfolding None option.case by (elim exE)
          have "members d \<subset> T" using more T by (blast intro: psubset_trans)
          then show ?thesis unfolding eq None option.case using T by (intro exI [of _ T]) simp
        next
          case (Some r)
          obtain d' changed' where r: "r = (d', changed')" by (cases r)
          show ?thesis using IH more unfolding eq Some r option.case prod.case by (elim conjE) (intro conjI; simp)
        qed
      qed
    next
      case False
      note IH = "2.IH"(3) [OF fresh False "2.prems"(1) cs "2.prems"(3,4)]
      have "component_pass limit ((i, g) # cs) d changed = component_pass limit cs d changed"
        using fresh False by simp
      note eq = this
      show ?thesis
      proof (cases "component_pass limit cs d changed")
        case None
        show ?thesis using IH unfolding eq None by simp
      next
        case (Some r)
        obtain d' changed' where r: "r = (d', changed')" by (cases r)
        then show ?thesis using IH False unfolding eq Some r by (auto simp: members_def)
      qed
    qed
  qed
qed


lemma component_loop_result:
  fixes G S :: "physical_geometry set"
  defines "M \<equiv> merged_metal G S"
  assumes "named d" and cs: "set cs = (\<lambda>g. (fg_geometry_id g, g)) ` G"
    and inj: "inj_on fg_geometry_id (G \<union> S)" and fin: "finite G" "finite S"
    and "S \<subseteq> members d" "members d \<subseteq> M" "length d \<le> limit \<or> members d = S"
  shows "case component_loop limit cs d of
      None \<Rightarrow> limit < card M \<and> M \<noteq> S
    | Some d' \<Rightarrow> named d' \<and> members d' = M \<and> (length d' \<le> limit \<or> members d' = S)"
  using assms(2,7,8,9) cs
proof (induction limit cs d rule: component_loop.induct)
  case (1 limit cs d)
  have M: "M \<subseteq> G \<union> S" unfolding M_def by (rule merged_metal_least) auto
  have cs: "\<forall>(i, g) \<in> set cs. i = fg_geometry_id g \<and> g \<in> G" using "1.prems"(5) by auto
  have grow: "\<forall>m \<in> M. \<forall>g \<in> G. positive_overlap (fg_bbox_dbu g) (fg_bbox_dbu m) \<longrightarrow> g \<in> M"
    unfolding M_def by (blast intro: merged_metal_step)
  note pass = component_pass_result [OF "1.prems"(1) cs "1.prems"(3) grow, of False limit, simplified HOL.simp_thms]
  show ?case
  proof (cases "component_pass limit cs d False")
    case None
    have "\<exists>T. members d \<subset> T \<and> T \<subseteq> M \<and> finite T \<and> limit < card T"
      using pass unfolding None by simp
    then obtain T where T: "members d \<subset> T" "T \<subseteq> M" "limit < card T" by blast
    have "card T \<le> card M" using T(2) finite_merged_metal [OF fin] unfolding M_def by (rule card_mono [rotated])
    moreover have "M \<noteq> S" using T "1.prems"(2) by auto
    moreover have "component_loop limit cs d = None" by (subst component_loop.simps) (simp add: None)
    ultimately show ?thesis using T(3) by simp
  next
    case (Some r)
    obtain d' changed where r: "r = (d', changed)" by (cases r)
    note pass = pass [unfolded Some r option.case prod.case]
    show ?thesis
    proof (cases changed)
      case True
      have eq: "component_loop limit cs d = component_loop limit cs d'"
        by (subst component_loop.simps) (simp add: Some r True)
      have "S \<subseteq> members d'" using pass "1.prems"(2) by auto
      with pass True show ?thesis
        unfolding eq by (intro "1.IH" [OF Some r [symmetric]] "1.prems"(5)) auto
    next
      case False
      have eq: "component_loop limit cs d = Some d"
        by (subst component_loop.simps) (use pass False in \<open>simp add: Some r\<close>)
      have "M \<subseteq> members d" unfolding M_def
      proof (rule merged_metal_least [OF "1.prems"(2)])
        fix m g assume m: "m \<in> members d" and g: "g \<in> G" and o: "positive_overlap (fg_bbox_dbu g) (fg_bbox_dbu m)"
        have "(fg_geometry_id g, g) \<in> set cs" using g "1.prems"(5) by auto
        then have "fg_geometry_id g \<in> fst ` set d" using pass False m o by auto
        then obtain h where "h \<in> members d" "fg_geometry_id g = fg_geometry_id h"
          using named_keys [OF "1.prems"(1)] by auto
        then show "g \<in> members d" using inj_onD [OF inj] g M "1.prems"(3) by (metis UnI1 subsetD)
      qed
      then show ?thesis unfolding eq using "1.prems" by simp
    qed
  qed
qed

lemma geometry_dict_named:
  assumes "inj_on fg_geometry_id (set gs)"
  shows "named (geometry_dict gs)" "members (geometry_dict gs) = set gs"
    "set (geometry_dict gs) = (\<lambda>g. (fg_geometry_id g, g)) ` set gs"
proof -
  let ?d = "geometry_dict gs"
  have entry: "map_of ?d i = Some g \<longleftrightarrow> g \<in> set gs \<and> i = fg_geometry_id g" for i g
  proof -
    have "map_of ?d i = Some g \<Longrightarrow> g \<in> set gs \<and> i = fg_geometry_id g"
      unfolding geometry_dict_def map_of_dict_of by (auto dest!: map_of_SomeD)
    moreover have "map_of ?d (fg_geometry_id g) = Some g" if g: "g \<in> set gs"
    proof -
      have "fg_geometry_id g \<in> fst ` set ?d" using g by (auto simp: geometry_dict_def image_image)
      then obtain h where h: "map_of ?d (fg_geometry_id g) = Some h"
        by (metis domD dom_map_of_conv_image_fst)
      then have "h \<in> set gs \<and> fg_geometry_id g = fg_geometry_id h"
        unfolding geometry_dict_def map_of_dict_of by (auto dest!: map_of_SomeD)
      then show ?thesis using h inj_onD [OF assms] g by metis
    qed
    ultimately show ?thesis by blast
  qed
  have d: "distinct (map fst ?d)" by (simp add: geometry_dict_def)
  then have "(i, g) \<in> set ?d \<longleftrightarrow> g \<in> set gs \<and> i = fg_geometry_id g" for i g
    using entry [of i g] by simp
  then show set: "set ?d = (\<lambda>g. (fg_geometry_id g, g)) ` set gs" by auto
  then show "members ?d = set gs" by (simp add: members_def image_image)
  show "named ?d" using d by (auto simp: named_def set)
qed

text \<open>
  C16. \<open>_closed_same_layer_component\<close> computes the merged metal of the seeds: everything on their layer
  that chains of overlapping boxes connect to them, each geometry once, in the order of the names. It
  gives up exactly when something had to be added and the metal is larger than the limit.
\<close>

theorem merged_component_exact:
  assumes seeds: "seeds \<noteq> []" "\<forall>g \<in> set seeds. fg_layer g = layer"
    and ids: "inj_on fg_geometry_id (set physical \<union> set seeds)"
  defines "M \<equiv> merged_metal {g \<in> set physical. fg_layer g = layer} (set seeds)"
  shows "case closed_same_layer_component seeds physical limit of
      None \<Rightarrow> limit < card M \<and> M \<noteq> set seeds
    | Some gs \<Rightarrow> set gs = M \<and> distinct gs \<and> sorted (map fg_geometry_id gs) \<and> (card M \<le> limit \<or> M = set seeds)"
proof -
  let ?G = "{g \<in> set physical. fg_layer g = layer}"
  let ?cs = "geometry_dict (filter (\<lambda>g. fg_layer g = layer) physical)"
  have layers: "remdups (map fg_layer seeds) = [layer]"
  proof -
    have "set (remdups (map fg_layer seeds)) = {layer}" using seeds by (cases seeds) auto
    moreover have "distinct (remdups (map fg_layer seeds))" by simp
    ultimately show ?thesis
      by (cases "remdups (map fg_layer seeds)") (auto simp: subset_singleton_iff)
  qed
  have injG: "inj_on fg_geometry_id ?G" and injS: "inj_on fg_geometry_id (set seeds)"
    and injGS: "inj_on fg_geometry_id (?G \<union> set seeds)"
    by (rule inj_on_subset [OF ids], auto)+
  have cs: "set (sort_key fst ?cs) = (\<lambda>g. (fg_geometry_id g, g)) ` ?G"
    using geometry_dict_named(3) [of "filter (\<lambda>g. fg_layer g = layer) physical"] injG by simp
  note d = geometry_dict_named [OF injS]
  note loop = component_loop_result [OF d(1) cs injGS, of limit, folded M_def]
  have loop: "case component_loop limit (sort_key fst ?cs) (geometry_dict seeds) of
      None \<Rightarrow> limit < card M \<and> M \<noteq> set seeds
    | Some d' \<Rightarrow> named d' \<and> members d' = M \<and> (length d' \<le> limit \<or> members d' = set seeds)"
    by (rule loop) (simp_all add: d(2) M_def merged_metal_seeds)
  show ?thesis
  proof (cases "component_loop limit (sort_key fst ?cs) (geometry_dict seeds)")
    case None
    then show ?thesis using loop by (simp add: closed_same_layer_component_def layers)
  next
    case (Some d')
    then have d': "named d'" "members d' = M" "length d' \<le> limit \<or> M = set seeds" using loop by auto
    let ?gs = "map snd (sort_key fst d')"
    have keys: "map fg_geometry_id ?gs = map fst (sort_key fst d')"
      using named_entry [OF d'(1)] by simp
    have "distinct (map fst (sort_key fst d'))"
      using d'(1) by (simp add: named_def distinct_map)
    then have "sorted (map fg_geometry_id ?gs)" "distinct ?gs"
      unfolding keys [symmetric] distinct_map [of fg_geometry_id] by (simp only: keys sorted_sort_key, simp only:)
    moreover have "set ?gs = M" using d'(2) by (simp add: members_def)
    moreover have "card M \<le> limit \<or> M = set seeds" using d' named_card by auto
    moreover have "closed_same_layer_component seeds physical limit = Some ?gs"
      using Some by (simp add: closed_same_layer_component_def layers)
    ultimately show ?thesis by simp
  qed
qed

section \<open>Grouping\<close>

lemma concat_chunks [simp]: "concat (chunks n xs) = xs"
  by (induction n xs rule: chunks.induct) auto

lemma chunks_bounds: "ys \<in> set (chunks n xs) \<Longrightarrow> ys \<noteq> [] \<and> length ys \<le> Suc n"
  by (induction n xs rule: chunks.induct) auto

text \<open>All pairs of owner and replacement.\<close>

definition owned :: "(string \<times> layer_replacement list) list \<Rightarrow> (string \<times> layer_replacement) list" where
  "owned by_owner = concat (map (\<lambda>(owner, rs). map (Pair owner) rs) by_owner)"

definition place_of :: "layer_replacement \<Rightarrow> string \<times> string" where
  "place_of r = (il_instance_anchor_id r, il_layer r)"

text \<open>The dictionary of the grouping: the place of each entry, each place once.\<close>

definition placed :: "identity_dict \<Rightarrow> bool" where
  "placed d \<longleftrightarrow> distinct (map fst d) \<and> (\<forall>(k, owner, r) \<in> set d. k = place_of r)"

lemma placed_entry: "placed d \<Longrightarrow> p \<in> set d \<Longrightarrow> fst p = place_of (snd (snd p))"
  unfolding placed_def by (cases p) auto

lemma register_all_result:
  assumes "placed d"
  shows "case register_all ps d of
      None \<Rightarrow> \<exists>p \<in> snd ` set d \<union> set ps. \<exists>q \<in> set ps. place_of (snd p) = place_of (snd q) \<and> p \<noteq> q
    | Some d' \<Rightarrow> placed d' \<and> snd ` set d' = snd ` set d \<union> set ps"
  using assms
proof (induction ps d rule: register_all.induct)
  case (1 d)
  then show ?case by simp
next
  case (2 owner r rest d)
  let ?k = "place_of r"
  show ?case
  proof (cases "map_of d ?k")
    case None
    then have fresh: "?k \<notin> fst ` set d" by (simp add: map_of_eq_None_iff)
    then have reg: "register_replacement owner r d = Some (d @ [(?k, owner, r)])"
      using None by (simp add: register_replacement_def place_of_def dict_set_fresh)
    have placed: "placed (d @ [(?k, owner, r)])" using "2.prems" fresh by (auto simp: placed_def)
    show ?thesis using "2.IH" [OF reg placed] by (auto simp: reg split: option.splits)
  next
    case (Some v)
    obtain owner' r' where v: "v = (owner', r')" by (cases v)
    have old: "(?k, owner', r') \<in> set d" using Some v by (simp add: map_of_SomeD)
    then have k: "?k = place_of r'" using placed_entry [OF "2.prems" old] by simp
    show ?thesis
    proof (cases "owner' \<noteq> owner \<or> r' \<noteq> r")
      case True
      then have "register_replacement owner r d = None"
        using Some v by (auto simp: register_replacement_def place_of_def)
      moreover have "(owner', r') \<in> snd ` set d" using old by force
      moreover have "(owner', r') \<noteq> (owner, r)" using True by simp
      ultimately show ?thesis using k
        by (simp only: register_all.simps option.case) (intro bexI [of _ "(owner', r')"] bexI [of _ "(owner, r)"]; simp)
    next
      case False
      then have reg: "register_replacement owner r d = Some d"
        using Some v by (auto simp: register_replacement_def place_of_def)
      have "(owner, r) \<in> snd ` set d" using old False by force
      then show ?thesis using "2.IH" [OF reg "2.prems"] by (auto simp: reg split: option.splits)
    qed
  qed
qed


lemma length_chunks: "length (chunks 3 xs) = (length xs + 3) div 4"
  by (induction "3 :: nat" xs rule: chunks.induct) (auto simp: Let_def)

text \<open>The groups of the operations, in the order of their owners.\<close>

definition owner_groups :: "identity_dict \<Rightarrow> (string \<times> layer_replacement list) list" where
  "owner_groups unique =
     sort_key fst (map (\<lambda>(owner, ps). (owner, map snd ps)) (group_by fst (map snd (sort_key fst unique))))"

lemma operation_specs_groups:
  "operation_specs unique = concat (map (\<lambda>(owner, items). map (Pair owner) (chunks 3 items)) (owner_groups unique))"
  by (simp add: operation_specs_def owner_groups_def)

lemma owned_chunks: "owned (concat (map (\<lambda>(owner, items). map (Pair owner) (chunks n items)) gs)) = owned gs"
proof (induction gs)
  case (Cons a gs)
  have "concat (map (map (Pair o')) (chunks n items)) = map (Pair o') items" for o' :: string and items
    by (metis concat_chunks map_concat)
  with Cons show ?case by (cases a) (simp add: owned_def comp_def)
qed (simp add: owned_def)

lemma owner_group_entry:
  "(owner, items) \<in> set (owner_groups unique) \<longleftrightarrow>
     owner \<in> fst ` snd ` set unique \<and> items = map snd (filter (\<lambda>p. fst p = owner) (map snd (sort_key fst unique)))"
proof -
  let ?L = "map snd (sort_key fst unique)"
  have "(owner, items) \<in> set (owner_groups unique) \<longleftrightarrow> (\<exists>ps. (owner, ps) \<in> set (group_by fst ?L) \<and> items = map snd ps)"
    unfolding owner_groups_def set_sort set_map by force
  then show ?thesis unfolding group_by_entry by simp
qed

lemma distinct_owner_groups: "distinct (map fst (owner_groups unique))"
proof -
  let ?d = "map (\<lambda>(owner, ps). (owner, map snd ps)) (group_by fst (map snd (sort_key fst unique)))"
  have "map fst ?d = map fst (group_by fst (map snd (sort_key fst unique)))"
    by (simp add: case_prod_unfold comp_def)
  then have "distinct (map fst ?d)" by (simp only: distinct_group_by)
  then show ?thesis unfolding owner_groups_def by (simp only: distinct_map distinct_sort set_sort)
qed

lemma set_owned: "set (owned gs) = {(owner, r). \<exists>rs. (owner, rs) \<in> set gs \<and> r \<in> set rs}"
  by (auto simp: owned_def)

lemma set_owner_groups: "set (owned (owner_groups unique)) = snd ` set unique"
proof -
  have "(owner, r) \<in> set (owned (owner_groups unique)) \<longleftrightarrow> (owner, r) \<in> snd ` set unique" for owner r
    unfolding set_owned by (force simp: owner_group_entry image_iff)
  then show ?thesis by auto
qed

lemma placed_distinct:
  assumes "placed d"
  shows "distinct (map place_of (map snd (map snd (sort_key fst d))))"
proof -
  have "map place_of (map snd (map snd (sort_key fst d))) = map fst (sort_key fst d)"
    using placed_entry [OF assms] by simp
  then show ?thesis using assms by (simp only: placed_def distinct_map distinct_sort set_sort)
qed


lemma mset_owned: "mset (owned gs) = (\<Sum>(owner, rs) \<in># mset gs. mset (map (Pair owner) rs))"
  by (induction gs) (auto simp: owned_def)

lemma mset_owner_groups: "mset (owned (owner_groups d)) = mset (map snd (sort_key fst d))"
proof -
  let ?L = "map snd (sort_key fst d)"
  let ?gs = "group_by fst ?L"
  have "map (Pair owner) (map snd ps) = ps" if "(owner, ps) \<in> set ?gs" for owner ps
    using that by (auto simp: group_by_entry intro!: map_idI)
  then have "owned (map (\<lambda>(owner, ps). (owner, map snd ps)) ?gs) = concat (map snd ?gs)"
    unfolding owned_def map_map by (intro arg_cong [of _ _ concat] map_cong refl) force
  then have "mset (owned (map (\<lambda>(owner, ps). (owner, map snd ps)) ?gs)) = mset ?L"
    by (simp only: mset_group_by)
  then show ?thesis unfolding owner_groups_def mset_owned mset_sort .
qed

definition op_pairs :: "specialize_layer_op list \<Rightarrow> (string \<times> layer_replacement) list" where
  "op_pairs ops = owned (map (\<lambda>x. (sl_source_owner_object_id x, sl_instance_layer_replacements x)) ops)"

definition operations_needed :: "(string \<times> layer_replacement) set \<Rightarrow> nat" where
  "operations_needed P = (\<Sum>owner \<in> fst ` P. (card {r. (owner, r) \<in> P} + 3) div 4)"

lemma operation_count:
  assumes "placed d"
  shows "length (operation_specs d) = operations_needed (snd ` set d)"
proof -
  let ?L = "map snd (sort_key fst d)"
  have distinct_items: "distinct (map snd ?L)" and "distinct ?L"
    using placed_distinct [OF assms] by (simp_all only: distinct_map)
  have size: "length items = card {r. (owner, r) \<in> snd ` set d}" if "(owner, items) \<in> set (owner_groups d)" for owner items
  proof -
    have items: "items = map snd (filter (\<lambda>p. fst p = owner) ?L)" using that by (simp add: owner_group_entry)
    have "distinct items" using distinct_items unfolding items by (rule distinct_map_filter)
    moreover have "set items = {r. (owner, r) \<in> snd ` set d}" unfolding items by force
    ultimately show ?thesis using distinct_card by metis
  qed
  have "length (operation_specs d) = (\<Sum>(owner, items) \<leftarrow> owner_groups d. (length items + 3) div 4)"
    unfolding operation_specs_groups length_concat by (simp add: comp_def case_prod_unfold length_chunks)
  also have "\<dots> = (\<Sum>(owner, items) \<in> set (owner_groups d). (length items + 3) div 4)"
    using distinct_owner_groups [of d] by (simp add: sum_list_distinct_conv_sum_set distinct_map)
  also have "\<dots> = (\<Sum>(owner, items) \<in> set (owner_groups d). (card {r. (owner, r) \<in> snd ` set d} + 3) div 4)"
    by (rule sum.cong [OF refl]) (auto simp: size)
  also have "\<dots> = (\<Sum>owner \<in> fst ` set (owner_groups d). (card {r. (owner, r) \<in> snd ` set d} + 3) div 4)"
    using distinct_owner_groups [of d] by (simp add: sum.reindex distinct_map comp_def case_prod_unfold)
  also have "fst ` set (owner_groups d) = {owner. \<exists>items. (owner, items) \<in> set (owner_groups d)}" by force
  also have "\<dots> = fst ` snd ` set d" by (simp add: owner_group_entry)
  finally show ?thesis by (simp add: operations_needed_def)
qed

lemma grouping_result:
  "case group_specializations by_owner of
     None \<Rightarrow>
       (\<exists>p \<in> set (owned by_owner). \<exists>q \<in> set (owned by_owner). place_of (snd p) = place_of (snd q) \<and> p \<noteq> q) \<or>
       4 < card (il_instance_anchor_id ` snd ` set (owned by_owner)) \<or>
       16 < card (place_of ` snd ` set (owned by_owner)) \<or> 4 < operations_needed (set (owned by_owner))
   | Some ops \<Rightarrow>
       length ops \<le> 4 \<and> list_all (\<lambda>x. length_between 1 4 (sl_instance_layer_replacements x)) ops \<and>
       set (op_pairs ops) = set (owned by_owner) \<and> distinct (map (place_of \<circ> snd) (op_pairs ops)) \<and>
       card (il_instance_anchor_id ` snd ` set (owned by_owner)) \<le> 4"
proof -
  let ?ps = "concat (map (\<lambda>(owner, rs). map (Pair owner) rs) (sort_key fst by_owner))"
  have P: "set ?ps = set (owned by_owner)" by (auto simp: owned_def)
  have empty: "placed []" by (simp add: placed_def)
  note reg = register_all_result [OF empty, of ?ps, unfolded P]
  show ?thesis
  proof (cases "register_all ?ps []")
    case None
    then show ?thesis using reg by (auto simp: group_specializations_def)
  next
    case (Some d)
    then have d: "placed d" "snd ` set d = set (owned by_owner)" using reg by auto
    have keys: "fst ` set d = place_of ` snd ` set (owned by_owner)"
      unfolding d(2) [symmetric] image_image by (rule image_cong [OF refl]) (rule placed_entry [OF d(1)])
    then have anchors: "fst ` fst ` set d = il_instance_anchor_id ` snd ` set (owned by_owner)"
      by (simp add: image_image place_of_def)
    have len: "length d = card (place_of ` snd ` set (owned by_owner))"
      unfolding keys [symmetric] using d(1) by (metis distinct_card length_map placed_def set_map)
    note ops = operation_count [OF d(1), unfolded d(2)]
    let ?ops = "map (\<lambda>(owner, items). \<lparr>sl_source_owner_object_id = owner, sl_instance_layer_replacements = items\<rparr>)
      (operation_specs d)"
    have group: "group_specializations by_owner = (if 4 < card (il_instance_anchor_id ` snd ` set (owned by_owner)) \<or>
        16 < card (place_of ` snd ` set (owned by_owner)) \<or> 4 < operations_needed (set (owned by_owner)) then None else Some ?ops)"
      by (simp add: group_specializations_def Some anchors len ops)
    have "op_pairs ?ops = owned (operation_specs d)"
      by (simp add: op_pairs_def comp_def case_prod_unfold)
    then have pairs: "op_pairs ?ops = owned (owner_groups d)"
      by (simp only: operation_specs_groups owned_chunks)
    have "mset (owned (owner_groups d)) = mset (map snd (sort_key fst d))"
      by (rule mset_owner_groups)
    then have "mset (map (place_of \<circ> snd) (owned (owner_groups d))) = mset (map (place_of \<circ> snd) (map snd (sort_key fst d)))"
      by (simp only: mset_map)
    then have "distinct (map (place_of \<circ> snd) (op_pairs ?ops))"
      using placed_distinct [OF d(1)] unfolding pairs map_map comp_assoc by (metis mset_eq_imp_distinct_iff)
    moreover have "set (op_pairs ?ops) = set (owned by_owner)"
      unfolding pairs set_owner_groups d(2) ..
    moreover have "list_all (\<lambda>x. length_between 1 4 (sl_instance_layer_replacements x)) ?ops"
      unfolding operation_specs_groups list_all_iff
      by (auto simp: length_between_def Suc_le_eq dest!: chunks_bounds)
    moreover have "length ?ops = operations_needed (set (owned by_owner))" by (simp add: ops)
    ultimately show ?thesis unfolding group by (simp add: not_less)
  qed
qed

text \<open>
  C17. \<open>_group_specialization_operations\<close> packs the replacements of all owners into at most four operations
  of one to four replacements for at most four occurrences: nothing is lost, no owner changes and no
  layer of an occurrence is replaced twice. It gives up exactly when two replacements of one place
  differ or a bound would be exceeded.
\<close>

theorem grouping_exact:
  "case group_specializations by_owner of
     None \<Rightarrow>
       (\<exists>p \<in> set (owned by_owner). \<exists>q \<in> set (owned by_owner). place_of (snd p) = place_of (snd q) \<and> p \<noteq> q) \<or>
       4 < card (il_instance_anchor_id ` snd ` set (owned by_owner)) \<or>
       16 < card (place_of ` snd ` set (owned by_owner)) \<or> 4 < operations_needed (set (owned by_owner))
   | Some ops \<Rightarrow>
       length ops \<le> 4 \<and> list_all (\<lambda>x. length_between 1 4 (sl_instance_layer_replacements x)) ops \<and>
       set (op_pairs ops) = set (owned by_owner) \<and> distinct (map (place_of \<circ> snd) (op_pairs ops)) \<and>
       card (il_instance_anchor_id ` snd ` set (owned by_owner)) \<le> 4"
  by (rule grouping_result)

end
