(* ===== verification/Edit_Programs.thy ===== *)
theory Edit_Programs
  imports Edit_Authority
begin

text \<open>
  The programs that \<open>repair_kernel_closure/edit_authority/proposals.py\<close> builds for an enclosure (an
  additive patch) and for a via and its metal (a resize of the metal together with its occurrences).
\<close>

section \<open>Programs\<close>

definition default_postconditions :: "program_postcondition list" where
  "default_postconditions = [TargetRulePredicateSatisfied, PreserveConnectivity, NoNewDrc]"

definition make_program ::
    "edit_env \<Rightarrow> repair_scene \<Rightarrow> json \<Rightarrow> repair_operation list \<Rightarrow> string \<Rightarrow> repair_program result" where
  "make_program env scene identity operations strategy =
     bind_result (map_result validate_operation operations) (\<lambda>operations.
     validate_repair_program
       \<lparr>rp_program_id = short_id (ee_hash env) ''phase3r_program_'' 20 (JList [JStr (sn_scene_id scene), identity]),
        rp_region_id = rf_region_id (sn_focus scene),
        rp_target_violation_ids = [rf_primary_violation_id (sn_focus scene)],
        rp_witness_ids = [rf_target_witness_id (sn_focus scene)], rp_operations = operations,
        rp_semantic_postconditions = default_postconditions, rp_strategy_code = strategy, rp_revision = 0,
        rp_prior_program_fingerprint = None\<rparr>)"

text \<open>\<open>_program\<close>.\<close>

definition single_program ::
    "edit_env \<Rightarrow> repair_scene \<Rightarrow> repair_operation \<Rightarrow> string \<Rightarrow> repair_program result" where
  "single_program env scene operation strategy =
     make_program env scene (ee_operation_dump env operation) [operation] strategy"

text \<open>\<open>participants[key]\<close>.\<close>

definition participant_dict :: "repair_scene \<Rightarrow> string \<Rightarrow> scene_participant option" where
  "participant_dict scene =
     map_of (dict_of (map (\<lambda>p. (sp_participant_id p, p)) (sn_participants scene)))"

definition participant_item :: "repair_scene \<Rightarrow> string \<Rightarrow> scene_participant result" where
  "participant_item scene k =
     (case participant_dict scene k of None \<Rightarrow> Inl (KeyError k) | Some p \<Rightarrow> Inr p)"

text \<open>\<open>_enclosure_programs\<close>.\<close>

definition enclosure_patch :: "enclosure_relation \<Rightarrow> box \<Rightarrow> box result" where
  "enclosure_patch r via =
     mk_box (bx_x1 via - er_strengthened_side_enclosure_dbu r) (bx_y1 via - er_minimum_side_enclosure_dbu r)
       (bx_x2 via + er_strengthened_side_enclosure_dbu r) (bx_y2 via + er_minimum_side_enclosure_dbu r)"

definition enclosure_programs :: "edit_env \<Rightarrow> repair_scene \<Rightarrow> authority_resolution \<Rightarrow> repair_program list result" where
  "enclosure_programs env scene authority =
     (case sn_relation scene of
        Some (RelEnclosure r) \<Rightarrow>
          bind_result (participant_item scene (er_inner_participant_id r)) (\<lambda>via.
          bind_result (participant_item scene (er_outer_participant_id r)) (\<lambda>landing.
          case map_of (au_insertion_owner_by_layer authority) (sp_layer landing) of
            None \<Rightarrow> Inr []
          | Some owner \<Rightarrow>
              bind_result (enclosure_patch r (sp_bbox via)) (\<lambda>patch.
              let halo = sn_edit_halo scene in
              if \<not> (box_intersects patch (sp_bbox landing) \<and> bx_x1 halo \<le> bx_x1 patch \<and>
                     bx_y1 halo \<le> bx_y1 patch \<and> bx_x2 patch \<le> bx_x2 halo \<and> bx_y2 patch \<le> bx_y2 halo)
              then Inr []
              else bind_result (single_program env scene
                (OpAddPolygon \<lparr>bp_source_owner_object_id = owner, bp_layer = sp_layer landing,
                   bp_polygon_dbu = ee_rectangle_points env patch\<rparr>) ''PHASE3R_A_LOCAL_ADDITIVE_OVERRIDE'')
                (\<lambda>p. Inr [p]))))
      | _ \<Rightarrow> Inl (AssertionError ''''))"

section \<open>A via and its metal\<close>

text \<open>The names of the sides that a relation lists.\<close>

definition side_of_name :: "string \<Rightarrow> edge_selector result" where
  "side_of_name name =
     (if name = ''LEFT'' then Inr SideLeft else if name = ''RIGHT'' then Inr SideRight
      else if name = ''BOTTOM'' then Inr SideBottom else if name = ''TOP'' then Inr SideTop
      else Inl (KeyError name))"

text \<open>One polygon of the cell: its new local form and how far its side moved.\<close>

definition resized_polygon ::
    "edit_env \<Rightarrow> transform \<Rightarrow> edge_selector \<Rightarrow> box \<Rightarrow> point list \<Rightarrow> (int \<times> point list) option result" where
  "resized_polygon env t side via polygon =
     bind_result (points_box (map (transform_point t) polygon)) (\<lambda>b.
     Inr (case (if blocks b via side then resize_box b side (side_value side via) else Some b) of
        None \<Rightarrow> None
      | Some c \<Rightarrow> Some (\<bar>side_value side b - side_value side c\<bar>,
          canonical_polygon (map (inverse_point t) (ee_rectangle_points env c)))))"

fun sum_steps :: "('a \<Rightarrow> (int \<times> 'b) option result) \<Rightarrow> 'a list \<Rightarrow> (int \<times> 'b list) option result" where
  "sum_steps step [] = Inr (Some (0, []))"
| "sum_steps step (x # xs) =
     bind_result (step x) (\<lambda>r. case r of
         None \<Rightarrow> Inr None
       | Some (d, y) \<Rightarrow> bind_result (sum_steps step xs) (\<lambda>rs.
           Inr (map_option (\<lambda>(d', ys). (d + d', y # ys)) rs)))"

text \<open>The occurrences of one instance: the first of its cell objects that is a source gives the transform.\<close>

definition via_instance ::
    "edit_env \<Rightarrow> edit_context \<Rightarrow> edge_selector \<Rightarrow> box \<Rightarrow> string \<times> physical_geometry list \<Rightarrow>
     (int \<times> layer_replacement) option result" where
  "via_instance env ctx side via entry =
     (let group = snd entry; g = hd group;
          members = cell_objects (ek_objects ctx) (fg_source_cell g) (fg_layer g);
          by_source = map_of (dict_of (map (\<lambda>h. (fg_source_object_id h, h)) group)) in
      case List.find (\<lambda>x. by_source (Some (lo_object_id x)) \<noteq> None) members of
        None \<Rightarrow> Inr None
      | Some seed \<Rightarrow>
          bind_result (occurrence_transform (ee_verified_transform env) (points_of seed)
            (the (by_source (Some (lo_object_id seed))))) (\<lambda>t.
          case t of
            None \<Rightarrow> Inr None
          | Some t \<Rightarrow>
              let original = map canonical_points members in
              bind_result (sum_steps (resized_polygon env t side via) original) (\<lambda>r.
              case r of
                None \<Rightarrow> Inr None
              | Some (d, replacement) \<Rightarrow>
                  bind_result (make_replacement ctx g (fg_layer g) t original replacement False)
                    (\<lambda>q. Inr (Some (d, q))))))"

text \<open>The proposal for one side, with its displacement.\<close>

definition via_side ::
    "edit_env \<Rightarrow> edit_context \<Rightarrow> repair_scene \<Rightarrow> scene_participant \<Rightarrow> physical_geometry list \<Rightarrow> string \<Rightarrow>
     (int \<times> string \<times> repair_program) option result" where
  "via_side env ctx scene via physical name =
     bind_result (side_of_name name) (\<lambda>side.
     let v = side_value side (sp_bbox via);
         blockers = filter (\<lambda>g. blocks (fg_bbox_dbu g) (sp_bbox via) side) physical;
         direct = filter (\<lambda>g. fg_instance_anchor_id g = None \<and>
           (case fg_source_object_id g of None \<Rightarrow> False | Some i \<Rightarrow> i \<in> set (ek_editable_ids ctx))) blockers;
         shared = filter (\<lambda>g. fg_instance_anchor_id g \<noteq> None) blockers in
     case (if shared = [] then [] else remdups (map fg_source_object_id direct)) of
       [owner_id] \<Rightarrow>
         (case List.find (\<lambda>x. Some (lo_object_id x) = owner_id) (ek_objects ctx) of
            None \<Rightarrow> Inr None
          | Some owner \<Rightarrow>
              if resize_box (lo_bbox_dbu owner) side v = None then Inr None
              else bind_result (sum_steps (via_instance env ctx side (sp_bbox via))
                  (sort_key fst (group_by (\<lambda>g. the (fg_instance_anchor_id g)) shared))) (\<lambda>r.
                case r of
                  None \<Rightarrow> Inr None
                | Some (d, replacements) \<Rightarrow>
                    if replacements = [] then Inr None
                    else bind_result (single_program env scene (OpSpecializeBoundary
                        \<lparr>sb_source_owner_object_id = str_of owner_id, sb_edge = side,
                         sb_target_coordinate_dbu = v, sb_instance_layer_replacements = replacements\<rparr>)
                        ''PHASE3R_A_TARGET_INSTANCE_SPECIALIZATION'') (\<lambda>p.
                      Inr (Some (\<bar>side_value side (lo_bbox_dbu owner) - v\<bar> + d, name, p)))))
     | _ \<Rightarrow> Inr None)"

text \<open>\<open>_via_programs\<close>: in the order of displacement, then of the side's name.\<close>

definition via_programs :: "edit_env \<Rightarrow> edit_context \<Rightarrow> repair_scene \<Rightarrow> repair_program list result" where
  "via_programs env ctx scene =
     (case sn_relation scene of
        Some (RelViaMetal r) \<Rightarrow>
          bind_result (participant_item scene (vm_via_participant_id r)) (\<lambda>via.
          bind_result (participant_item scene (vm_metal_participant_id r)) (\<lambda>metal.
          let physical = filter (\<lambda>g. fg_geometry_id g \<in> set (sp_physical_geometry_ids metal)) (ek_physical ctx) in
          bind_result (map_result (via_side env ctx scene via physical) (vm_missing_coincident_via_edges r)) (\<lambda>ps.
          Inr (map (\<lambda>p. snd (snd p)) (sort_key (\<lambda>p. (fst p, fst (snd p))) (map the (filter (\<lambda>p. p \<noteq> None) ps)))))))
      | _ \<Rightarrow> Inl (AssertionError ''''))"

end
