(* ===== verification/Edit_Lowering.thy ===== *)
theory Edit_Lowering
  imports Edit_Programs
begin

text \<open>
  \<open>build_solution_specialization_programs\<close>: each solution of the solver becomes one program or one
  rejection. A solution is lowered in three steps: its own operations, source by source; the metal that
  a moved occurrence drags along; the occurrences that a moved object drags along.
\<close>

section \<open>The state of one lowering\<close>

text \<open>
  \<open>Rejected\<close> is a failure that \<open>reject\<close> was called for; \<open>Unresolved\<close> is \<open>failed = True\<close> without it.
\<close>

datatype lowering_stop = Rejected string "string option" | Unresolved

type_synonym 'a lowering = "(lowering_stop + 'a) result"

definition continue_with :: "'a \<Rightarrow> 'a lowering" where
  "continue_with x = Inr (Inr x)"

definition stop_with :: "string \<Rightarrow> string option \<Rightarrow> 'a lowering" where
  "stop_with code source = Inr (Inl (Rejected code source))"

definition unresolved :: "'a lowering" where
  "unresolved = Inr (Inl Unresolved)"

definition lowering_then :: "'a lowering \<Rightarrow> ('a \<Rightarrow> 'b lowering) \<Rightarrow> 'b lowering" where
  "lowering_then m f = bind_result m (\<lambda>r. case r of Inl e \<Rightarrow> Inr (Inl e) | Inr x \<Rightarrow> f x)"

fun lower_each :: "('a \<Rightarrow> 's \<Rightarrow> 's lowering) \<Rightarrow> 'a list \<Rightarrow> 's \<Rightarrow> 's lowering" where
  "lower_each f [] s = continue_with s"
| "lower_each f (x # xs) s = lowering_then (f x s) (lower_each f xs)"

record lowering_state =
  lw_direct_operations :: "repair_operation list"
  lw_replacements :: "layer_replacement list"
  lw_by_owner :: "(string \<times> layer_replacement list) list"
  lw_direct_moves :: "(string \<times> int \<times> int) list"
  lw_occurrence_moves :: "(physical_geometry list \<times> int \<times> int) list"

definition empty_lowering :: lowering_state where
  "empty_lowering = \<lparr>lw_direct_operations = [], lw_replacements = [], lw_by_owner = [], lw_direct_moves = [],
     lw_occurrence_moves = []\<rparr>"

text \<open>\<open>replacements.extend(rs); replacements_by_owner[owner].extend(rs)\<close>.\<close>

definition add_replacements :: "string \<Rightarrow> layer_replacement list \<Rightarrow> lowering_state \<Rightarrow> lowering_state" where
  "add_replacements owner rs s =
     s\<lparr>lw_replacements := lw_replacements s @ rs,
       lw_by_owner := dict_set owner (dict_get_list (lw_by_owner s) owner @ rs) (lw_by_owner s)\<rparr>"

section \<open>What all solutions share\<close>

text \<open>\<open>participant_by_source\<close>, \<open>projection_geometry_ids_by_source\<close>.\<close>

definition participants_of_source :: "repair_scene \<Rightarrow> string \<Rightarrow> scene_participant list" where
  "participants_of_source scene source_id =
     concat (map (\<lambda>p. if sp_instance_anchor_ids p = [] then []
       else map (\<lambda>_. p) (filter (\<lambda>i. i = source_id) (sp_source_object_ids p))) (sn_participants scene))"

definition projected_geometry_ids :: "repair_scene \<Rightarrow> string \<Rightarrow> string set" where
  "projected_geometry_ids scene source_id =
     set (concat (map bc_physical_geometry_ids (filter (\<lambda>b. source_id \<in> set (bc_source_object_ids b))
       (concat (map hp_boundary_contributors (sn_hierarchy_projections scene))))))"

fun target_object :: "repair_operation \<Rightarrow> string option" where
  "target_object (OpMoveObject m) = Some (mo_target_object_id m)"
| "target_object (OpResizeEdge r) = Some (re_target_object_id r)"
| "target_object _ = None"

definition stable_anchor :: "layout_object \<Rightarrow> bool" where
  "stable_anchor x \<longleftrightarrow> opt_truthy (lo_source_anchor_id x) \<and> lo_insertion_source_span x \<noteq> None"

definition solution_sources :: "geometry_solution list \<Rightarrow> string set" where
  "solution_sources solutions =
     the ` (target_object ` set (concat (map gs_operations solutions)) - {None, Some []})"

definition specialization_anchor :: "edit_context \<Rightarrow> geometry_solution list \<Rightarrow> string option" where
  "specialization_anchor ctx solutions =
     map_option lo_object_id (List.find (\<lambda>x. lo_object_id x \<in> solution_sources solutions \<and> stable_anchor x)
       (sort_key lo_object_id (ek_objects ctx)))"

text \<open>The via of a contextual via scene and the layer of its metal.\<close>

definition via_participant :: "repair_scene \<Rightarrow> scene_participant option" where
  "via_participant scene =
     (case sn_relation scene of
        Some (RelViaMetal r) \<Rightarrow>
          if sn_repair_family scene = FamilyViaMetalContextual
          then participant_dict scene (vm_via_participant_id r) else None
      | _ \<Rightarrow> None)"

definition relation_metal_layer :: "repair_scene \<Rightarrow> string option" where
  "relation_metal_layer scene =
     (case sn_relation scene of
        Some (RelViaMetal r) \<Rightarrow>
          if sn_repair_family scene = FamilyViaMetalContextual
          then map_option sp_layer (participant_dict scene (vm_metal_participant_id r)) else None
      | _ \<Rightarrow> None)"

text \<open>The participants that the selected degrees of freedom name for a source.\<close>

definition selected_participants :: "edit_env \<Rightarrow> repair_scene \<Rightarrow> geometry_solution \<Rightarrow> string \<Rightarrow> string set" where
  "selected_participants env scene solution source_id =
     (let dofs = map_of (dict_of (map (\<lambda>d. (df_dof_id d, d)) (ee_scene_dofs env scene))) in
      df_participant_id ` {d \<in> the ` (dofs ` set (gs_selected_dof_ids solution) - {None}).
        source_id \<in> set (df_source_object_ids d)})"

section \<open>Moves\<close>

fun move_of :: "repair_operation \<Rightarrow> (int \<times> int) option" where
  "move_of (OpMoveObject m) = Some (mo_dx_dbu m, mo_dy_dbu m)"
| "move_of _ = None"

text \<open>The sum of the moves, when there is nothing but moves.\<close>

definition total_move :: "repair_operation list \<Rightarrow> (int \<times> int) option" where
  "total_move operations =
     map_option (\<lambda>ms. (sum_list (map fst ms), sum_list (map snd ms))) (all_some (map move_of operations))"

definition moves_carriers :: "repair_scene \<Rightarrow> bool" where
  "moves_carriers scene \<longleftrightarrow> sn_repair_family scene \<in> {FamilySpacing, FamilyAlignment}"

text \<open>A source that the region may edit: its operations are the direct ones.\<close>

definition lower_direct ::
    "repair_scene \<Rightarrow> string \<Rightarrow> repair_operation list \<Rightarrow> lowering_state \<Rightarrow> lowering_state" where
  "lower_direct scene source_id operations s =
     s\<lparr>lw_direct_operations := lw_direct_operations s @ operations,
       lw_direct_moves := lw_direct_moves s @
         (if moves_carriers scene
          then (case total_move operations of None \<Rightarrow> [] | Some (dx, dy) \<Rightarrow> [(source_id, dx, dy)]) else [])\<rparr>"

text \<open>The object that declares the specialisation.\<close>

definition first_owner :: "authority_resolution \<Rightarrow> string option" where
  "first_owner authority =
     (case sort (map snd (au_insertion_owner_by_layer authority)) of [] \<Rightarrow> None | v # _ \<Rightarrow> Some v)"

definition or_else :: "'a option \<Rightarrow> 'a option \<Rightarrow> 'a option" where
  "or_else a b = (case a of None \<Rightarrow> b | Some _ \<Rightarrow> a)"

definition source_owner ::
    "edit_context \<Rightarrow> authority_resolution \<Rightarrow> string option \<Rightarrow> string \<Rightarrow> string \<Rightarrow> string option" where
  "source_owner ctx authority anchor source_id layer =
     (case object_dict (ek_objects ctx) source_id of
        Some x \<Rightarrow>
          if stable_anchor x then Some source_id
          else or_else (map_of (au_insertion_owner_by_layer authority) layer) (or_else (first_owner authority) anchor)
      | None \<Rightarrow> or_else (map_of (au_insertion_owner_by_layer authority) layer) (or_else (first_owner authority) anchor))"

text \<open>The edge of the signoff marker that a source carries in a spacing relation.\<close>

definition marker_edge_of :: "repair_scene \<Rightarrow> string \<Rightarrow> edge option" where
  "marker_edge_of scene source_id =
     (case sn_relation scene of
        Some (RelSpacing r) \<Rightarrow>
          (let holds = (\<lambda>i. case participant_dict scene i of
                 None \<Rightarrow> False | Some p \<Rightarrow> source_id \<in> set (sp_source_object_ids p)) in
           if holds (sr_participant_a_id r) then sr_participant_a_marker_edge r
           else if holds (sr_participant_b_id r) then sr_participant_b_marker_edge r else None)
      | _ \<Rightarrow> None)"

text \<open>An occurrence that is moved only.\<close>

definition lower_moved_occurrence ::
    "edit_env \<Rightarrow> edit_context \<Rightarrow> repair_scene \<Rightarrow> string \<Rightarrow> layout_object \<Rightarrow> string \<Rightarrow> physical_geometry list \<Rightarrow>
     bool \<Rightarrow> physical_geometry \<Rightarrow> transform \<Rightarrow> int \<times> int \<Rightarrow> lowering_state \<Rightarrow> lowering_state lowering" where
  "lower_moved_occurrence env ctx scene source_id source owner occurrences is_first g t move s =
     (let (dx, dy) = move; layers = cell_layers (ek_objects ctx) (fg_source_cell g) None in
      if sn_repair_family scene = FamilySpacing \<and> length layers > 4
      then (case marker_edge_of scene source_id of
          None \<Rightarrow> stop_with ''LOWERING_FRAGMENT_EDGE_MISSING'' (Some source_id)
        | Some e \<Rightarrow>
            bind_result (fragment_replacement env ctx g source_id source dx dy e) (\<lambda>r. case r of
                None \<Rightarrow> stop_with ''LOWERING_FRAGMENT_NOT_REPRESENTABLE'' (Some source_id)
              | Some r \<Rightarrow> continue_with (add_replacements owner [r] s)))
      else
        let s1 = (if is_first \<and> moves_carriers scene
            then s\<lparr>lw_occurrence_moves := lw_occurrence_moves s @ [(occurrences, dx, dy)]\<rparr> else s) in
        bind_result (map_result (moved_layer ctx g t dx dy) layers) (\<lambda>rs.
          continue_with (foldl (\<lambda>s r. add_replacements owner [r] s) s1 rs)))"

section \<open>Resizes of an occurrence\<close>

text \<open>The box of the target after the operations.\<close>

fun apply_operations :: "string \<Rightarrow> repair_operation list \<Rightarrow> box \<Rightarrow> box lowering" where
  "apply_operations source_id [] b = continue_with b"
| "apply_operations source_id (x # xs) b =
     bind_result (apply_rectilinear b x) (\<lambda>r. case r of
         None \<Rightarrow> stop_with ''LOWERING_INVALID_RECTANGLE_OPERATION'' (Some source_id)
       | Some c \<Rightarrow> apply_operations source_id xs c)"

definition change_target ::
    "edit_env \<Rightarrow> string \<Rightarrow> repair_operation list \<Rightarrow> transform \<Rightarrow> layout_object \<Rightarrow>
     point list list \<times> box option \<Rightarrow> (point list list \<times> box option) lowering" where
  "change_target env source_id operations t x acc =
     (let (polygons, changed) = acc; polygon = canonical_points x in
      if lo_object_id x \<noteq> source_id then continue_with (polygons @ [polygon], changed)
      else if length polygon \<noteq> 4 then stop_with ''LOWERING_NON_RECTANGULAR_TARGET'' (Some source_id)
      else bind_result (points_box (map (transform_point t) polygon)) (\<lambda>b.
        lowering_then (apply_operations source_id operations b) (\<lambda>c.
        continue_with (polygons @ [canonical_polygon (map (inverse_point t) (ee_rectangle_points env c))], Some c))))"

definition lower_resized_occurrence ::
    "edit_env \<Rightarrow> edit_context \<Rightarrow> repair_scene \<Rightarrow> string \<Rightarrow> string \<Rightarrow> repair_operation list \<Rightarrow>
     physical_geometry \<Rightarrow> transform \<Rightarrow> lowering_state \<Rightarrow> lowering_state lowering" where
  "lower_resized_occurrence env ctx scene source_id owner operations g t s =
     (let members = cell_objects (ek_objects ctx) (fg_source_cell g) (fg_layer g) in
      if members = [] then stop_with ''LOWERING_CELL_GEOMETRY_MISSING'' (Some source_id)
      else lowering_then (lower_each (change_target env source_id operations t) members ([], None))
        (\<lambda>(polygons, changed).
        bind_result (make_replacement ctx g (fg_layer g) t (map canonical_points members) polygons False) (\<lambda>r.
        let s1 = add_replacements owner [r] s in
        case (changed, via_participant scene, relation_metal_layer scene) of
          (Some c, Some via, Some metal) \<Rightarrow>
            if source_id \<in> set (sp_source_object_ids via)
            then bind_result (via_stack_replacements env ctx g c metal t) (\<lambda>closure. case closure of
                None \<Rightarrow> stop_with ''LOWERING_VIA_STACK_CLOSURE_UNAVAILABLE'' (Some source_id)
              | Some rs \<Rightarrow> continue_with (add_replacements owner rs s1))
            else continue_with s1
        | _ \<Rightarrow> continue_with s1)))"

section \<open>One source of a solution\<close>

definition lower_occurrence ::
    "edit_env \<Rightarrow> edit_context \<Rightarrow> repair_scene \<Rightarrow> string \<Rightarrow> string \<Rightarrow> repair_operation list \<Rightarrow>
     physical_geometry list \<Rightarrow> bool \<times> physical_geometry \<Rightarrow> lowering_state \<Rightarrow> lowering_state lowering" where
  "lower_occurrence env ctx scene source_id owner operations occurrences entry s =
     (let (is_first, g) = entry in
      case object_dict (ek_objects ctx) source_id of
        None \<Rightarrow> stop_with ''LOWERING_TRANSFORM_UNRESOLVED'' (Some source_id)
      | Some source \<Rightarrow>
          bind_result (occurrence_transform (ee_verified_transform env) (points_of source) g) (\<lambda>t.
          case t of
            None \<Rightarrow> stop_with ''LOWERING_TRANSFORM_UNRESOLVED'' (Some source_id)
          | Some t \<Rightarrow>
              (case total_move operations of
                 Some move \<Rightarrow> lower_moved_occurrence env ctx scene source_id source owner occurrences is_first g t move s
               | None \<Rightarrow> lower_resized_occurrence env ctx scene source_id owner operations g t s)))"

text \<open>The occurrences of a source among the geometries of its participant.\<close>

definition source_occurrences ::
    "edit_context \<Rightarrow> string set \<Rightarrow> string \<Rightarrow> physical_geometry list" where
  "source_occurrences ctx targets source_id =
     sort_key (\<lambda>g. (str_of (fg_instance_anchor_id g), fg_geometry_id g))
       (filter (\<lambda>g. fg_geometry_id g \<in> targets \<and> fg_source_object_id g = Some source_id \<and>
         fg_instance_anchor_id g \<noteq> None) (ek_physical ctx))"

definition chosen_participants :: "edit_env \<Rightarrow> repair_scene \<Rightarrow> geometry_solution \<Rightarrow> string \<Rightarrow> scene_participant list" where
  "chosen_participants env scene solution source_id =
     (let selected = selected_participants env scene solution source_id;
          candidates = participants_of_source scene source_id in
      if selected = {} then candidates else filter (\<lambda>p. sp_participant_id p \<in> selected) candidates)"

definition lower_source ::
    "edit_env \<Rightarrow> edit_context \<Rightarrow> repair_scene \<Rightarrow> authority_resolution \<Rightarrow> string option \<Rightarrow> geometry_solution \<Rightarrow>
     string \<times> repair_operation list \<Rightarrow> lowering_state \<Rightarrow> lowering_state lowering" where
  "lower_source env ctx scene authority anchor solution entry s =
     (let (source_id, operations) = entry; participants = chosen_participants env scene solution source_id in
      if source_id \<in> set (ek_editable_ids ctx) then continue_with (lower_direct scene source_id operations s)
      else if length participants > 1 then stop_with ''LOWERING_MULTIPLE_PARTICIPANTS'' (Some source_id)
      else
        let targets = (case participants of
              [] \<Rightarrow> projected_geometry_ids scene source_id | p # _ \<Rightarrow> set (sp_physical_geometry_ids p));
            occurrences = source_occurrences ctx targets source_id in
        if occurrences = [] then stop_with ''LOWERING_OCCURRENCE_NOT_RESOLVED'' (Some source_id)
        else
          let layer = (case participants of [] \<Rightarrow> fg_layer (hd occurrences) | p # _ \<Rightarrow> sp_layer p) in
          case source_owner ctx authority anchor source_id layer of
            None \<Rightarrow> stop_with ''LOWERING_DECLARATION_OWNER_MISSING'' (Some source_id)
          | Some owner \<Rightarrow>
              lower_each (lower_occurrence env ctx scene source_id owner operations occurrences)
                (zip (True # replicate (length occurrences) False) occurrences) s)"

section \<open>What a move drags along\<close>

text \<open>A whole occurrence that follows a move; its layer decides who declares the specialisation.\<close>

definition carried_owner ::
    "authority_resolution \<Rightarrow> string option \<Rightarrow> physical_geometry \<Rightarrow> layout_object \<Rightarrow> string option" where
  "carried_owner authority anchor g source =
     (if stable_anchor source then Some (lo_object_id source)
      else or_else (map_of (au_insertion_owner_by_layer authority) (fg_layer g)) anchor)"

definition carry_occurrence ::
    "edit_env \<Rightarrow> edit_context \<Rightarrow> repair_scene \<Rightarrow> authority_resolution \<Rightarrow> string option \<Rightarrow> string \<Rightarrow> int \<times> int \<Rightarrow>
     physical_geometry \<Rightarrow> lowering_state \<Rightarrow> lowering_state lowering" where
  "carry_occurrence env ctx scene authority anchor layer move g s =
     bind_result (translated_replacements env ctx g (fst move) (snd move)
       (occurrence_layer_scope (sn_repair_family scene) layer)) (\<lambda>r.
     case (r, object_dict (ek_objects ctx) (str_of (fg_source_object_id g))) of
       (Some rs, Some source) \<Rightarrow>
         (case carried_owner authority anchor g source of
            None \<Rightarrow> unresolved
          | Some owner \<Rightarrow> continue_with (add_replacements owner rs s))
     | _ \<Rightarrow> unresolved)"

text \<open>A member of the component that is an object of its own: it must be editable.\<close>

definition moves_of :: "string \<Rightarrow> repair_operation list \<Rightarrow> (int \<times> int) list" where
  "moves_of source_id operations =
     map (the \<circ> move_of) (filter (\<lambda>x. move_of x \<noteq> None \<and> target_object x = Some source_id) operations)"

definition carry_object ::
    "edit_context \<Rightarrow> int \<times> int \<Rightarrow> string \<Rightarrow> lowering_state \<Rightarrow> lowering_state lowering" where
  "carry_object ctx move source_id s =
     (let existing = moves_of source_id (lw_direct_operations s) in
      if source_id \<notin> set (ek_editable_ids ctx)
      then stop_with ''LOWERING_CLOSURE_AUTHORITY_DENIED'' (Some source_id)
      else if \<exists>m \<in> set existing. m \<noteq> move
      then stop_with ''LOWERING_INCONSISTENT_COUPLED_MOVE'' (Some source_id)
      else if existing \<noteq> [] then continue_with s
      else continue_with (s\<lparr>lw_direct_operations := lw_direct_operations s @
        [OpMoveObject \<lparr>mo_target_object_id = source_id, mo_dx_dbu = fst move, mo_dy_dbu = snd move\<rparr>]\<rparr>))"

definition component_objects :: "physical_geometry list \<Rightarrow> string set" where
  "component_objects component =
     str_of ` fg_source_object_id ` {g \<in> set component. fg_instance_anchor_id g = None \<and> fg_source_object_id g \<noteq> None}"

definition seed_anchors :: "physical_geometry list \<Rightarrow> string set" where
  "seed_anchors seeds = str_of ` (fg_instance_anchor_id ` set seeds - {None})"

text \<open>The metal that a moved occurrence is part of.\<close>

definition close_occurrence_move ::
    "edit_env \<Rightarrow> edit_context \<Rightarrow> repair_scene \<Rightarrow> authority_resolution \<Rightarrow> string option \<Rightarrow>
     physical_geometry list \<times> int \<times> int \<Rightarrow> lowering_state \<Rightarrow> lowering_state lowering" where
  "close_occurrence_move env ctx scene authority anchor entry s =
     (let (seeds, move) = entry in
      bind_result (may_preserve_contributors scene seeds (ek_physical ctx) (fst move) (snd move)) (\<lambda>keep.
      if keep then continue_with s
      else case closed_same_layer_component seeds (ek_physical ctx) 8 of
        None \<Rightarrow> stop_with ''LOWERING_COMPONENT_UNBOUNDED'' None
      | Some component \<Rightarrow>
          lowering_then (lower_each (carry_object ctx move) (py_sorted (component_objects component)) s) (\<lambda>s.
          let by_anchor = occurrences_by_anchor component in
          if length by_anchor > 4 then stop_with ''LOWERING_OCCURRENCE_BOUND_EXCEEDED'' None
          else lower_each (\<lambda>(_, g). carry_occurrence env ctx scene authority anchor (fg_layer g) move g)
            (filter (\<lambda>(a, _). a \<notin> seed_anchors seeds) (sort_key fst by_anchor)) s)))"

text \<open>The occurrences that a moved object is merged with: only its layer moves.\<close>

definition without_anchors :: "string set \<Rightarrow> layer_replacement list \<Rightarrow> layer_replacement list" where
  "without_anchors anchors = filter (\<lambda>r. il_instance_anchor_id r \<notin> anchors)"

definition drop_anchors :: "string set \<Rightarrow> lowering_state \<Rightarrow> lowering_state" where
  "drop_anchors anchors s =
     s\<lparr>lw_replacements := without_anchors anchors (lw_replacements s),
       lw_by_owner := filter (\<lambda>(_, rs). rs \<noteq> [])
         (map (\<lambda>(owner, rs). (owner, without_anchors anchors rs)) (lw_by_owner s))\<rparr>"

definition close_direct_move ::
    "edit_env \<Rightarrow> edit_context \<Rightarrow> repair_scene \<Rightarrow> authority_resolution \<Rightarrow> string option \<Rightarrow>
     string \<times> int \<times> int \<Rightarrow> lowering_state \<Rightarrow> lowering_state lowering" where
  "close_direct_move env ctx scene authority anchor entry s =
     (let (source_id, move) = entry in
      case object_dict (ek_objects ctx) source_id of
        None \<Rightarrow> stop_with ''LOWERING_DIRECT_SOURCE_MISSING'' (Some source_id)
      | Some direct \<Rightarrow>
          (case closed_direct_occurrences direct (ek_physical ctx) 4 of
             None \<Rightarrow> stop_with ''LOWERING_DIRECT_OCCURRENCE_BOUND_EXCEEDED'' (Some source_id)
           | Some occurrences \<Rightarrow>
               lower_each (carry_occurrence env ctx scene authority anchor (lo_layer direct) move) occurrences
                 (drop_anchors (seed_anchors occurrences) s)))"

section \<open>One solution\<close>

fun editing_operation :: "repair_operation \<Rightarrow> bool" where
  "editing_operation (OpMoveObject m) = True"
| "editing_operation (OpResizeEdge r) = True"
| "editing_operation _ = False"

definition operations_by_source :: "repair_operation list \<Rightarrow> (string \<times> repair_operation list) list" where
  "operations_by_source operations = sort_key fst (group_by (\<lambda>x. the (target_object x)) operations)"

text \<open>The three steps.\<close>

definition lower_steps ::
    "edit_env \<Rightarrow> edit_context \<Rightarrow> repair_scene \<Rightarrow> authority_resolution \<Rightarrow> string option \<Rightarrow> geometry_solution \<Rightarrow>
     lowering_state lowering" where
  "lower_steps env ctx scene authority anchor solution =
     lowering_then (lower_each (lower_source env ctx scene authority anchor solution)
       (operations_by_source (gs_operations solution)) empty_lowering) (\<lambda>s.
     lowering_then (if lw_direct_moves s = []
       then lower_each (close_occurrence_move env ctx scene authority anchor) (lw_occurrence_moves s) s
       else continue_with s) (\<lambda>s.
     lower_each (close_direct_move env ctx scene authority anchor) (lw_direct_moves s) s))"

text \<open>The operations of the program: what is edited itself and what is specialised.\<close>

definition program_operations :: "lowering_state \<Rightarrow> repair_operation list lowering" where
  "program_operations s =
     (if lw_replacements s = [] then stop_with ''LOWERING_EMPTY_REPLACEMENTS'' None
      else if card (set (map il_instance_anchor_id (lw_replacements s))) > 4
      then stop_with ''LOWERING_OCCURRENCE_BOUND_EXCEEDED'' None
      else case group_specializations (lw_by_owner s) of
        None \<Rightarrow> stop_with ''LOWERING_REPLACEMENT_GROUP_REJECTED'' None
      | Some specializations \<Rightarrow>
          let operations = lw_direct_operations s @ map OpSpecializeLayer specializations in
          if length operations > 4 then stop_with ''LOWERING_OPERATION_BOUND_EXCEEDED'' None
          else continue_with operations)"

fun family_value :: "repair_family \<Rightarrow> string" where
  "family_value FamilySpacing = ''SPACING''"
| "family_value FamilyEnclosure = ''ENCLOSURE''"
| "family_value FamilyViaMetalContextual = ''VIA_METAL_CONTEXTUAL''"
| "family_value FamilyAlignment = ''ALIGNMENT''"
| "family_value FamilyUnsupported = ''UNSUPPORTED_REPAIR_FAMILY''"

definition lower_solution ::
    "edit_env \<Rightarrow> edit_context \<Rightarrow> repair_scene \<Rightarrow> authority_resolution \<Rightarrow> string option \<Rightarrow> geometry_solution \<Rightarrow>
     repair_program lowering" where
  "lower_solution env ctx scene authority anchor solution =
     (if \<not> list_all editing_operation (gs_operations solution)
      then stop_with ''LOWERING_UNSUPPORTED_OPERATION'' None
      else if gs_operations solution = [] then stop_with ''LOWERING_EMPTY_OPERATIONS'' None
      else lowering_then (lower_steps env ctx scene authority anchor solution) (\<lambda>s.
        lowering_then (program_operations s) (\<lambda>operations.
        bind_result (make_program env scene (JList (map (ee_operation_dump env) operations)) operations
          (''PHASE3_'' @ family_value (sn_repair_family scene) @ ''_INSTANCE_SPECIALIZATION''))
          continue_with)))"

section \<open>All solutions\<close>

record lowering_rejection =
  rj_code :: "string"
  rj_solution_id :: "string"
  rj_selected_dof_ids :: "string list"
  rj_source_object_id :: "string option"

definition rejection :: "geometry_solution \<Rightarrow> string \<Rightarrow> string option \<Rightarrow> lowering_rejection" where
  "rejection solution code source =
     \<lparr>rj_code = code, rj_solution_id = gs_solution_id solution,
       rj_selected_dof_ids = gs_selected_dof_ids solution, rj_source_object_id = source\<rparr>"

text \<open>A failure without a code gets one when the solution has no rejection yet.\<close>

fun note_rejection :: "geometry_solution \<Rightarrow> lowering_stop \<Rightarrow> lowering_rejection list \<Rightarrow> lowering_rejection list" where
  "note_rejection solution (Rejected code source) rs = rs @ [rejection solution code source]"
| "note_rejection solution Unresolved rs =
     (if \<exists>r \<in> set rs. rj_solution_id r = gs_solution_id solution then rs
      else rs @ [rejection solution ''LOWERING_CLOSED_CARRIER_UNRESOLVED'' None])"

fun lower_all ::
    "(geometry_solution \<Rightarrow> repair_program lowering) \<Rightarrow> geometry_solution list \<Rightarrow> repair_program list \<Rightarrow>
     lowering_rejection list \<Rightarrow> (repair_program list \<times> lowering_rejection list) result" where
  "lower_all answer [] programs rejections = Inr (programs, rejections)"
| "lower_all answer (x # xs) programs rejections =
     bind_result (answer x) (\<lambda>r. case r of
         Inl stop \<Rightarrow> lower_all answer xs programs (note_rejection x stop rejections)
       | Inr p \<Rightarrow> lower_all answer xs (programs @ [p]) rejections)"

fun first_of_each :: "('a \<Rightarrow> 'k) \<Rightarrow> 'a list \<Rightarrow> 'a list" where
  "first_of_each key [] = []"
| "first_of_each key (x # xs) = x # filter (\<lambda>y. key y \<noteq> key x) (first_of_each key xs)"

definition build_solution_specialization_programs ::
    "edit_env \<Rightarrow> edit_context \<Rightarrow> repair_scene \<Rightarrow> geometry_solution list \<Rightarrow> authority_resolution \<Rightarrow>
     lowering_rejection list \<Rightarrow> (repair_program list \<times> lowering_rejection list) result" where
  "build_solution_specialization_programs env ctx scene solutions authority rejections =
     bind_result (lower_all (lower_solution env ctx scene authority (specialization_anchor ctx solutions))
       solutions [] rejections) (\<lambda>(programs, rejections).
     Inr (first_of_each (\<lambda>p. ee_hash env (ee_program_dump env p)) programs, rejections))"

text \<open>\<open>build_authority_programs\<close>.\<close>

definition build_authority_programs ::
    "edit_env \<Rightarrow> edit_context \<Rightarrow> repair_scene \<Rightarrow> authority_resolution \<Rightarrow> repair_program list result" where
  "build_authority_programs env ctx scene authority =
     (if sn_repair_family scene = FamilyEnclosure
      then bind_result (enclosure_programs env scene authority) (\<lambda>ps.
        bind_result (ee_enclosure_programs env scene authority) (\<lambda>qs. Inr (ps @ qs)))
      else if sn_repair_family scene = FamilyViaMetalContextual then via_programs env ctx scene
      else Inr [])"

end
