(* ===== verification/Edit_Safety.thy ===== *)
theory Edit_Safety
  imports Edit_Closures Edit_Lowering
begin

text \<open>
  What holds of every program that the lowering of \<open>Edit_Lowering\<close> emits: an invariant of the lowering
  state, kept by each step, and what follows for the operations of a program.
\<close>

section \<open>What a lowering that goes on guarantees\<close>

definition goes_on :: "('a \<Rightarrow> bool) \<Rightarrow> 'a lowering \<Rightarrow> bool" where
  "goes_on Q m \<longleftrightarrow> (case m of Inr (Inr x) \<Rightarrow> Q x | _ \<Rightarrow> True)"

lemma goes_on_simps [simp]:
  "goes_on Q (continue_with x) \<longleftrightarrow> Q x" "goes_on Q (stop_with code source)" "goes_on Q unresolved" "goes_on Q (Inl e)"
  by (simp_all add: goes_on_def continue_with_def stop_with_def unresolved_def)

lemma goes_on_True: "goes_on (\<lambda>_. True) m"
  by (simp add: goes_on_def split: sum.split)

lemma goes_on_if: "(c \<Longrightarrow> goes_on P m) \<Longrightarrow> (\<not> c \<Longrightarrow> goes_on P n) \<Longrightarrow> goes_on P (if c then m else n)"
  by simp

lemma goes_on_option:
  "(x = None \<Longrightarrow> goes_on P m) \<Longrightarrow> (\<And>y. x = Some y \<Longrightarrow> goes_on P (f y)) \<Longrightarrow>
   goes_on P (case x of None \<Rightarrow> m | Some y \<Rightarrow> f y)"
  by (cases x) simp_all

lemma goes_on_bind: "(\<And>x. m = Inr x \<Longrightarrow> goes_on Q (f x)) \<Longrightarrow> goes_on Q (bind_result m f)"
  by (cases m) simp_all

lemmas goes_on_rules = goes_on_bind goes_on_if goes_on_option

lemma goes_on_then:
  assumes "goes_on P m" "\<And>x. P x \<Longrightarrow> goes_on Q (f x)"
  shows "goes_on Q (lowering_then m f)"
proof (cases m)
  case (Inr r)
  then show ?thesis using assms by (cases r) (auto simp: lowering_then_def goes_on_def)
qed (simp add: lowering_then_def)

lemma goes_on_each:
  assumes "I s" "\<And>x s. x \<in> set xs \<Longrightarrow> I s \<Longrightarrow> goes_on I (f x s)"
  shows "goes_on I (lower_each f xs s)"
  using assms
proof (induction xs arbitrary: s)
  case (Cons x xs)
  have "goes_on I (f x s)" using Cons.prems by simp
  then show ?case unfolding lower_each.simps
    by (rule goes_on_then) (rule Cons.IH, use Cons.prems(2) in auto)
qed simp

section \<open>Edits of occurrences\<close>

text \<open>
  A replacement that describes an occurrence of the layout: its original polygons are those of the cell
  in the sources, and it has one polygon for each of them.
\<close>

definition occurrence_edit :: "edit_context \<Rightarrow> layer_replacement \<Rightarrow> bool" where
  "occurrence_edit ctx r \<longleftrightarrow>
     (\<exists>g \<in> set (ek_physical ctx). fg_instance_anchor_id g = Some (il_instance_anchor_id r) \<and>
        il_source_cell r = str_of (fg_source_cell g) \<and>
        il_original_polygons_local_dbu r =
          map canonical_points (cell_objects (ek_objects ctx) (fg_source_cell g) (il_layer r))) \<and>
     il_original_polygons_local_dbu r \<noteq> [] \<and>
     length (il_replacement_polygons_local_dbu r) = length (il_original_polygons_local_dbu r) \<and>
     il_rotation r \<in> {0..3}"

lemma make_replacement_edit:
  assumes r: "make_replacement ctx g layer t original replacement fragment = Inr r"
    and g: "g \<in> set (ek_physical ctx)" "fg_instance_anchor_id g \<noteq> None"
    and original: "original = map canonical_points (cell_objects (ek_objects ctx) (fg_source_cell g) layer)"
    and len: "length replacement = length original"
  shows "occurrence_edit ctx r"
proof -
  obtain rotation mirror dx dy where t: "t = (rotation, mirror, dx, dy)" by (cases t)
  obtain a where a: "fg_instance_anchor_id g = Some a" using g(2) by blast
  from r have "il_instance_anchor_id r = a \<and> il_source_cell r = str_of (fg_source_cell g) \<and> il_layer r = layer \<and>
      il_original_polygons_local_dbu r = original \<and> il_replacement_polygons_local_dbu r = replacement \<and>
      il_rotation r \<in> {0..3} \<and> original \<noteq> []"
    by (auto simp: make_replacement_def t a str_of_def validate_layer_replacement_def split: if_splits)
  then show ?thesis unfolding occurrence_edit_def using g(1) a original len by auto
qed

lemma moved_layer_edit:
  assumes "moved_layer ctx g t dx dy layer = Inr r" "g \<in> set (ek_physical ctx)" "fg_instance_anchor_id g \<noteq> None"
  shows "occurrence_edit ctx r"
  using assms(1) unfolding moved_layer_def Let_def
  by (rule make_replacement_edit) (use assms in simp_all)

lemma map_result_all:
  assumes "map_result f xs = Inr ys" "\<And>x y. f x = Inr y \<Longrightarrow> P y"
  shows "list_all P ys"
  using assms(1) by (induction xs arbitrary: ys) (auto simp: bind_result_Inr_iff assms(2))

text \<open>The result of a construction that may fail.\<close>

definition produces :: "('a \<Rightarrow> bool) \<Rightarrow> 'a option result \<Rightarrow> bool" where
  "produces P m \<longleftrightarrow> (case m of Inr (Some x) \<Rightarrow> P x | _ \<Rightarrow> True)"

lemma produces_simps [simp]:
  "produces P (Inl e)" "produces P (Inr None)" "produces P (Inr (Some x)) \<longleftrightarrow> P x"
  by (simp_all add: produces_def)

lemma produces_bind: "(\<And>x. m = Inr x \<Longrightarrow> produces P (f x)) \<Longrightarrow> produces P (bind_result m f)"
  by (cases m) simp_all

lemma producesD: "produces P m \<Longrightarrow> m = Inr (Some x) \<Longrightarrow> P x"
  by simp

lemma produces_if: "(c \<Longrightarrow> produces P m) \<Longrightarrow> (\<not> c \<Longrightarrow> produces P n) \<Longrightarrow> produces P (if c then m else n)"
  by simp

lemma produces_option:
  "(x = None \<Longrightarrow> produces P m) \<Longrightarrow> (\<And>y. x = Some y \<Longrightarrow> produces P (f y)) \<Longrightarrow>
   produces P (case x of None \<Rightarrow> m | Some y \<Rightarrow> f y)"
  by (cases x) simp_all

lemmas produces_rules = produces_bind produces_if produces_option

lemma translated_edit:
  assumes "g \<in> set (ek_physical ctx)" "fg_instance_anchor_id g \<noteq> None"
  shows "produces (list_all (occurrence_edit ctx)) (translated_replacements env ctx g dx dy scope)"
  unfolding translated_replacements_def Let_def
  by (intro produces_rules)
    (auto elim!: map_result_all moved_layer_edit [OF _ assms])

lemma length_all_some: "all_some xs = Some ys \<Longrightarrow> length ys = length xs"
  by (induction xs arbitrary: ys) (auto split: option.splits)

lemma fragment_edit:
  assumes "g \<in> set (ek_physical ctx)"
  shows "produces (occurrence_edit ctx) (fragment_replacement env ctx g source_id source dx dy e)"
  unfolding fragment_replacement_def Let_def
  by (intro produces_rules)
    (auto elim!: make_replacement_edit [OF _ assms] dest: length_all_some)

lemma grown_landing_edit:
  assumes "g \<in> set (ek_physical ctx)" "fg_instance_anchor_id g \<noteq> None"
  shows "produces (list_all (occurrence_edit ctx)) (grown_landing env ctx g t layer landing b)"
  unfolding grown_landing_def Let_def
  by (intro produces_rules) (auto intro: make_replacement_edit [OF _ assms])

lemma close_landing_edit:
  assumes "g \<in> set (ek_physical ctx)" "fg_instance_anchor_id g \<noteq> None"
  shows "produces (list_all (occurrence_edit ctx)) (close_landing env ctx g changed t entry)"
  unfolding close_landing_def Let_def case_prod_unfold
  by (intro produces_rules) (simp_all add: grown_landing_edit [OF assms])

lemma close_landings_all:
  assumes "\<And>e. produces (list_all P) (close e)"
  shows "produces (list_all P) (close_landings close entries)"
proof (induction entries)
  case (Cons e entries)
  show ?case unfolding close_landings.simps
  proof (intro produces_rules)
    fix r rs q assume r: "close e = Inr r" "r = Some rs" and q: "close_landings close entries = Inr q"
    have "list_all P rs" using assms [of e] r by simp
    then show "produces (list_all P) (Inr (map_option ((@) rs) q))" using Cons q by (cases q) simp_all
  qed simp
qed simp

lemma via_stack_edit:
  assumes "g \<in> set (ek_physical ctx)"
  shows "produces (list_all (occurrence_edit ctx)) (via_stack_replacements env ctx g changed metal t)"
  unfolding via_stack_replacements_def
  by (intro produces_rules close_landings_all close_landing_edit assms) simp_all


section \<open>The state of a lowering\<close>

definition editable_operation :: "edit_context \<Rightarrow> repair_operation \<Rightarrow> bool" where
  "editable_operation ctx x \<longleftrightarrow>
     editing_operation x \<and> (\<exists>i \<in> set (ek_editable_ids ctx). target_object x = Some i)"

definition safe_moves :: "edit_context \<Rightarrow> lowering_state \<Rightarrow> bool" where
  "safe_moves ctx s \<longleftrightarrow> list_all (\<lambda>(seeds, _). set seeds \<subseteq> set (ek_physical ctx)) (lw_occurrence_moves s)"

definition replacements_of :: "(string \<times> layer_replacement list) list \<Rightarrow> layer_replacement set" where
  "replacements_of by_owner = \<Union> (set ` snd ` set by_owner)"

definition safe_state :: "edit_context \<Rightarrow> lowering_state \<Rightarrow> bool" where
  "safe_state ctx s \<longleftrightarrow>
     list_all (editable_operation ctx) (lw_direct_operations s) \<and>
     list_all (occurrence_edit ctx) (lw_replacements s) \<and>
     replacements_of (lw_by_owner s) = set (lw_replacements s) \<and> distinct (map fst (lw_by_owner s)) \<and>
     safe_moves ctx s"

lemma safe_empty: "safe_state ctx empty_lowering"
  by (simp add: safe_state_def empty_lowering_def safe_moves_def replacements_of_def)

lemma replacements_of_set:
  "distinct (map fst d) \<Longrightarrow>
   replacements_of (dict_set owner (dict_get_list d owner @ rs) d) = replacements_of d \<union> set rs"
proof (induction d)
  case (Cons p d)
  then show ?case
    by (cases p) (auto simp: replacements_of_def dict_get_list_def split: if_splits)
qed (simp add: replacements_of_def dict_get_list_def)

lemma safe_add:
  assumes "safe_state ctx s" "list_all (occurrence_edit ctx) rs"
  shows "safe_state ctx (add_replacements owner rs s)"
  using assms by (simp add: safe_state_def add_replacements_def replacements_of_set distinct_dict_set safe_moves_def)

lemma safe_add_each:
  "safe_state ctx s \<Longrightarrow> list_all (occurrence_edit ctx) rs \<Longrightarrow>
   safe_state ctx (foldl (\<lambda>s r. add_replacements owner [r] s) s rs)"
proof (induction rs arbitrary: s)
  case (Cons r rs)
  have "safe_state ctx (add_replacements owner [r] s)" using Cons.prems by (intro safe_add) simp_all
  then show ?case unfolding foldl_Cons by (rule Cons.IH) (use Cons.prems in simp)
qed simp

lemma replacements_of_without:
  "replacements_of (filter (\<lambda>(_, rs). rs \<noteq> []) (map (\<lambda>(owner, rs). (owner, without_anchors anchors rs)) d)) =
     {r \<in> replacements_of d. il_instance_anchor_id r \<notin> anchors}"
proof (induction d)
  case (Cons p d)
  have "replacements_of (p # d) = set (snd p) \<union> replacements_of d" for p d by (simp add: replacements_of_def)
  moreover have "set (without_anchors anchors rs) = {r \<in> set rs. il_instance_anchor_id r \<notin> anchors}" for rs
    by (simp add: without_anchors_def)
  moreover have "without_anchors anchors rs = [] \<longleftrightarrow> {r \<in> set rs. il_instance_anchor_id r \<notin> anchors} = {}" for rs
    by (auto simp: without_anchors_def filter_empty_conv)
  ultimately show ?case using Cons by (cases p) (cases "without_anchors anchors (snd p) = []"; auto)
qed (simp add: replacements_of_def)

lemma safe_drop: "safe_state ctx s \<Longrightarrow> safe_state ctx (drop_anchors anchors s)"
proof -
  assume s: "safe_state ctx s"
  let ?d = "map (\<lambda>(owner, rs). (owner, without_anchors anchors rs)) (lw_by_owner s)"
  have "map fst ?d = map fst (lw_by_owner s)" by (simp add: comp_def case_prod_unfold)
  then have "distinct (map fst ?d)" using s by (simp only: safe_state_def)
  then have "distinct (map fst (filter (\<lambda>(_, rs). rs \<noteq> []) ?d))" by (rule distinct_map_filter)
  moreover have "replacements_of (filter (\<lambda>(_, rs). rs \<noteq> []) ?d) =
      {r \<in> replacements_of (lw_by_owner s). il_instance_anchor_id r \<notin> anchors}"
    by (rule replacements_of_without)
  moreover have "{r \<in> replacements_of (lw_by_owner s). il_instance_anchor_id r \<notin> anchors} =
      set (without_anchors anchors (lw_replacements s))"
    using s by (simp add: safe_state_def without_anchors_def)
  moreover have "list_all (occurrence_edit ctx) (without_anchors anchors (lw_replacements s))"
    using s by (simp add: safe_state_def without_anchors_def list_all_iff)
  moreover have "lw_direct_operations (drop_anchors anchors s) = lw_direct_operations s"
    "lw_replacements (drop_anchors anchors s) = without_anchors anchors (lw_replacements s)"
    "lw_by_owner (drop_anchors anchors s) = filter (\<lambda>(_, rs). rs \<noteq> []) ?d"
    "lw_occurrence_moves (drop_anchors anchors s) = lw_occurrence_moves s"
    by (simp_all add: drop_anchors_def)
  ultimately show ?thesis using s unfolding safe_state_def safe_moves_def by (simp only: simp_thms)
qed

lemma safe_moved_occurrence:
  assumes "safe_state ctx s" "g \<in> set (ek_physical ctx)" "fg_instance_anchor_id g \<noteq> None"
    "set occurrences \<subseteq> set (ek_physical ctx)"
  shows "goes_on (safe_state ctx)
    (lower_moved_occurrence env ctx scene source_id source owner occurrences is_first g t move s)"
  unfolding lower_moved_occurrence_def Let_def case_prod_unfold
proof (intro goes_on_rules)
  fix e r r' assume "fragment_replacement env ctx g source_id source (fst move) (snd move) e = Inr r" "r = Some r'"
  then have "occurrence_edit ctx r'" using producesD [OF fragment_edit [OF assms(2)]] by simp
  then show "goes_on (safe_state ctx) (continue_with (add_replacements owner [r'] s))"
    by (simp add: safe_add [OF assms(1)])
next
  let ?s = "if is_first \<and> moves_carriers scene
    then s\<lparr>lw_occurrence_moves := lw_occurrence_moves s @ [(occurrences, fst move, snd move)]\<rparr> else s"
  fix rs assume "map_result (moved_layer ctx g t (fst move) (snd move))
      (cell_layers (ek_objects ctx) (fg_source_cell g) None) = Inr rs"
  then have "list_all (occurrence_edit ctx) rs"
    by (rule map_result_all) (rule moved_layer_edit [OF _ assms(2,3)])
  moreover have "safe_state ctx ?s" using assms(1,4) by (simp add: safe_state_def safe_moves_def)
  ultimately show "goes_on (safe_state ctx) (continue_with (foldl (\<lambda>s r. add_replacements owner [r] s) ?s rs))"
    by (simp only: goes_on_simps) (rule safe_add_each)
qed simp_all


lemma change_target_length:
  "goes_on (\<lambda>acc'. length (fst acc') = Suc (length (fst acc))) (change_target env source_id operations t x acc)"
  unfolding change_target_def Let_def case_prod_unfold
  by (intro goes_on_rules goes_on_then [where P = "\<lambda>_. True"]) (simp_all add: goes_on_True)

lemma change_targets_length:
  "goes_on (\<lambda>acc'. length (fst acc') = length (fst acc) + length xs)
    (lower_each (change_target env source_id operations t) xs acc)"
proof (induction xs arbitrary: acc)
  case (Cons x xs)
  show ?case unfolding lower_each.simps
  proof (rule goes_on_then [OF change_target_length])
    fix acc' :: "point list list \<times> box option"
    assume "length (fst acc') = Suc (length (fst acc))"
    then show "goes_on (\<lambda>acc'. length (fst acc') = length (fst acc) + length (x # xs))
        (lower_each (change_target env source_id operations t) xs acc')"
      using Cons.IH [of acc'] by simp
  qed
qed simp

lemma safe_resized_occurrence:
  assumes "safe_state ctx s" "g \<in> set (ek_physical ctx)" "fg_instance_anchor_id g \<noteq> None"
  shows "goes_on (safe_state ctx) (lower_resized_occurrence env ctx scene source_id owner operations g t s)"
proof -
  let ?members = "cell_objects (ek_objects ctx) (fg_source_cell g) (fg_layer g)"
  have closure: "goes_on (safe_state ctx) (bind_result (via_stack_replacements env ctx g c metal t) (\<lambda>closure.
      case closure of None \<Rightarrow> stop_with code source | Some rs \<Rightarrow> continue_with (add_replacements owner rs s')))"
    if "safe_state ctx s'" for c metal code source s'
  proof (intro goes_on_rules)
    fix r rs assume "via_stack_replacements env ctx g c metal t = Inr r" "r = Some rs"
    then have "list_all (occurrence_edit ctx) rs" using producesD [OF via_stack_edit [OF assms(2)]] by simp
    then show "goes_on (safe_state ctx) (continue_with (add_replacements owner rs s'))"
      by (simp add: safe_add [OF that])
  qed simp
  have first: "safe_state ctx (add_replacements owner [r] s)"
    if "make_replacement ctx g (fg_layer g) t (map canonical_points ?members) polygons False = Inr r"
      "length polygons = length ?members" for r polygons
  proof -
    have "occurrence_edit ctx r" by (rule make_replacement_edit [OF that(1) assms(2,3) refl]) (use that(2) in simp)
    then show ?thesis by (simp add: safe_add [OF assms(1)])
  qed
  show ?thesis unfolding lower_resized_occurrence_def Let_def case_prod_unfold
    by (rule goes_on_if, simp, rule goes_on_then [OF change_targets_length], rule goes_on_bind)
      (auto split: option.split intro: closure first)
qed

lemma source_occurrences_in:
  "g \<in> set (source_occurrences ctx targets source_id) \<Longrightarrow> g \<in> set (ek_physical ctx) \<and> fg_instance_anchor_id g \<noteq> None"
  by (auto simp: source_occurrences_def)

lemma safe_occurrence:
  assumes "safe_state ctx s" "snd entry \<in> set (ek_physical ctx)" "fg_instance_anchor_id (snd entry) \<noteq> None"
    "set occurrences \<subseteq> set (ek_physical ctx)"
  shows "goes_on (safe_state ctx) (lower_occurrence env ctx scene source_id owner operations occurrences entry s)"
proof (cases entry)
  case (Pair is_first g)
  with assms(2,3) have g: "g \<in> set (ek_physical ctx)" "fg_instance_anchor_id g \<noteq> None" by simp_all
  show ?thesis unfolding lower_occurrence_def Let_def Pair prod.case
    by (intro goes_on_rules safe_moved_occurrence safe_resized_occurrence assms g) simp_all
qed


section \<open>The steps of a lowering\<close>

definition source_entry :: "string \<times> repair_operation list \<Rightarrow> bool" where
  "source_entry entry \<longleftrightarrow> list_all (\<lambda>x. editing_operation x \<and> target_object x = Some (fst entry)) (snd entry)"

lemma operations_by_source_entry:
  assumes "list_all editing_operation operations" "entry \<in> set (operations_by_source operations)"
  shows "source_entry entry"
proof -
  obtain i xs where entry: "entry = (i, xs)" by (cases entry)
  have xs: "xs = filter (\<lambda>x. the (target_object x) = i) operations"
    using assms(2) by (auto simp: operations_by_source_def entry group_by_entry)
  have "target_object x = Some i" if "x \<in> set xs" for x
  proof -
    have "editing_operation x \<and> the (target_object x) = i" using that assms(1) by (simp add: xs list_all_iff)
    then show ?thesis by (cases x) simp_all
  qed
  then show ?thesis using assms(1) unfolding source_entry_def entry by (auto simp: xs list_all_iff)
qed

lemma safe_direct:
  assumes "safe_state ctx s" "source_entry (source_id, operations)" "source_id \<in> set (ek_editable_ids ctx)"
  shows "safe_state ctx (lower_direct scene source_id operations s)"
  using assms by (auto simp: safe_state_def lower_direct_def source_entry_def editable_operation_def list_all_iff safe_moves_def)

lemma safe_source:
  assumes "safe_state ctx s" "source_entry entry"
  shows "goes_on (safe_state ctx) (lower_source env ctx scene authority anchor solution entry s)"
proof (cases entry)
  case (Pair source_id operations)
  show ?thesis unfolding lower_source_def Let_def Pair prod.case
  proof (intro goes_on_rules goes_on_each)
    assume "source_id \<in> set (ek_editable_ids ctx)"
    then show "goes_on (safe_state ctx) (continue_with (lower_direct scene source_id operations s))"
      using assms by (simp add: safe_direct Pair)
  next
    fix entry' s' and targets and owner :: string
    assume "safe_state ctx s'"
    and "entry' \<in> set (zip (True # replicate (length (source_occurrences ctx targets source_id)) False)
      (source_occurrences ctx targets source_id))"
    then have "snd entry' \<in> set (source_occurrences ctx targets source_id)" by (cases entry') (auto dest: set_zip_rightD)
    then show "goes_on (safe_state ctx) (lower_occurrence env ctx scene source_id owner operations
        (source_occurrences ctx targets source_id) entry' s')"
      using \<open>safe_state ctx s'\<close> by (intro safe_occurrence) (auto dest: source_occurrences_in)
  qed (simp_all add: assms)
qed

lemma safe_carry_occurrence:
  assumes "safe_state ctx s" "g \<in> set (ek_physical ctx)" "fg_instance_anchor_id g \<noteq> None"
  shows "goes_on (safe_state ctx) (carry_occurrence env ctx scene authority anchor layer move g s)"
  unfolding carry_occurrence_def
proof (rule goes_on_bind)
  fix r assume r: "translated_replacements env ctx g (fst move) (snd move)
      (occurrence_layer_scope (sn_repair_family scene) layer) = Inr r"
  have "list_all (occurrence_edit ctx) rs" if "r = Some rs" for rs
    using producesD [OF translated_edit [OF assms(2,3)]] r that by simp
  then show "goes_on (safe_state ctx) (case (r, object_dict (ek_objects ctx) (str_of (fg_source_object_id g))) of
       (Some rs, Some source) \<Rightarrow>
         (case carried_owner authority anchor g source of
            None \<Rightarrow> unresolved
          | Some owner \<Rightarrow> continue_with (add_replacements owner rs s))
     | _ \<Rightarrow> unresolved)"
    by (auto split: option.split intro: safe_add [OF assms(1)])
qed

lemma safe_carry_object:
  "safe_state ctx s \<Longrightarrow> goes_on (safe_state ctx) (carry_object ctx move source_id s)"
  unfolding carry_object_def Let_def
  by (intro goes_on_if) (simp_all add: safe_state_def safe_moves_def editable_operation_def)

lemma component_pass_subset:
  "component_pass limit cs d changed = Some (d', changed') \<Longrightarrow> set d' \<subseteq> set d \<union> set cs"
  by (induction limit cs d changed rule: component_pass.induct)
    (auto simp: Let_def dict_set_fresh split: if_splits)

lemma component_loop_subset:
  "component_loop limit cs d = Some d' \<Longrightarrow> set d' \<subseteq> set d \<union> set cs"
proof (induction limit cs d rule: component_loop.induct)
  case (1 limit cs d)
  then obtain d1 changed where pass: "component_pass limit cs d False = Some (d1, changed)"
    by (subst (asm) (2) component_loop.simps) (auto split: option.splits)
  note sub = component_pass_subset [OF pass]
  show ?case
  proof (cases changed)
    case True
    have "component_loop limit cs d1 = Some d'"
      using "1.prems" by (subst (asm) component_loop.simps) (simp add: pass True)
    from "1.IH" [OF pass refl True this] sub show ?thesis by auto
  next
    case False
    have "d' = d1" using "1.prems" by (subst (asm) component_loop.simps) (simp add: pass False)
    then show ?thesis using sub by simp
  qed
qed

lemma component_members:
  assumes "closed_same_layer_component seeds physical limit = Some component"
  shows "set component \<subseteq> set seeds \<union> set physical"
proof -
  have sub: "snd ` set (geometry_dict gs) \<subseteq> set gs" for gs
    using set_dict_of [of "map (\<lambda>g. (fg_geometry_id g, g)) gs"] by (auto simp: geometry_dict_def)
  from assms obtain layer d where d: "component_loop limit
      (sort_key fst (geometry_dict (filter (\<lambda>g. fg_layer g = layer) physical))) (geometry_dict seeds) = Some d"
    and component: "component = map snd (sort_key fst d)"
    by (auto simp: closed_same_layer_component_def split: list.splits)
  have "set component = snd ` set d" by (simp add: component)
  also have "\<dots> \<subseteq> snd ` (set (geometry_dict seeds) \<union> set (geometry_dict (filter (\<lambda>g. fg_layer g = layer) physical)))"
    using component_loop_subset [OF d] by (intro image_mono) simp
  also have "\<dots> \<subseteq> set seeds \<union> set (filter (\<lambda>g. fg_layer g = layer) physical)"
    unfolding image_Un by (intro Un_mono sub)
  also have "\<dots> \<subseteq> set seeds \<union> set physical" by (intro Un_mono) simp_all
  finally show ?thesis .
qed

lemma note_least_members:
  "set (note_least d entry) \<subseteq> set d \<union> {entry}"
proof -
  have "set (dict_set k v d) \<subseteq> insert (k, v) (set d)" for k :: string and v :: physical_geometry
    by (induction d) (auto split: if_splits)
  then show ?thesis by (auto simp: note_least_def split: prod.split option.split)
qed

lemma occurrences_by_anchor_entry:
  assumes "(a, g) \<in> set (occurrences_by_anchor gs)"
  shows "g \<in> set gs \<and> fg_instance_anchor_id g = Some a"
proof -
  let ?ok = "\<lambda>p. snd p \<in> set gs \<and> fg_instance_anchor_id (snd p) = Some (fst p)"
  have "\<forall>p \<in> set (occurrences_by_anchor gs). ?ok p" unfolding occurrences_by_anchor_def
  proof (rule foldl_invariant)
    fix d p assume "\<forall>p \<in> set d. ?ok p"
      "p \<in> set (map (\<lambda>g. (the (fg_instance_anchor_id g), g)) (filter whole_occurrence gs))"
    then show "\<forall>p \<in> set (note_least d p). ?ok p"
      using note_least_members [of d p] by (auto simp: whole_occurrence_def)
  qed simp
  then show ?thesis using assms by auto
qed

lemma safe_close_occurrence:
  assumes "safe_state ctx s" "set (fst entry) \<subseteq> set (ek_physical ctx)"
  shows "goes_on (safe_state ctx) (close_occurrence_move env ctx scene authority anchor entry s)"
proof -
  obtain seeds move where Pair: "entry = (seeds, move)" by (rule prod.exhaust)
  show ?thesis unfolding close_occurrence_move_def Let_def Pair prod.case
  proof (intro goes_on_rules)
    fix component assume component: "closed_same_layer_component seeds (ek_physical ctx) 8 = Some component"
    then have sub: "set component \<subseteq> set (ek_physical ctx)"
      using component_members [OF component] assms(2) Pair by auto
    show "goes_on (safe_state ctx) (lowering_then (lower_each (carry_object ctx move) (py_sorted (component_objects component)) s)
      (\<lambda>s. if 4 < length (occurrences_by_anchor component) then stop_with ''LOWERING_OCCURRENCE_BOUND_EXCEEDED'' None
        else lower_each (\<lambda>(_, g). carry_occurrence env ctx scene authority anchor (fg_layer g) move g)
          (filter (\<lambda>(a, _). a \<notin> seed_anchors seeds) (sort_key fst (occurrences_by_anchor component))) s))"
    proof (rule goes_on_then [where P = "safe_state ctx"])
      show "goes_on (safe_state ctx) (lower_each (carry_object ctx move) (py_sorted (component_objects component)) s)"
        by (rule goes_on_each) (rule assms(1), erule safe_carry_object)
    next
      fix s' assume s': "safe_state ctx s'"
      show "goes_on (safe_state ctx) (if 4 < length (occurrences_by_anchor component)
        then stop_with ''LOWERING_OCCURRENCE_BOUND_EXCEEDED'' None
        else lower_each (\<lambda>(_, g). carry_occurrence env ctx scene authority anchor (fg_layer g) move g)
          (filter (\<lambda>(a, _). a \<notin> seed_anchors seeds) (sort_key fst (occurrences_by_anchor component))) s')"
      proof (rule goes_on_if, simp, rule goes_on_each [where I = "safe_state ctx", OF s'])
        fix p s'' assume p: "p \<in> set (filter (\<lambda>(a, _). a \<notin> seed_anchors seeds) (sort_key fst (occurrences_by_anchor component)))"
          and s'': "safe_state ctx s''"
        obtain a g where ag: "p = (a, g)" by (cases p)
        then have "(a, g) \<in> set (occurrences_by_anchor component)" using p by simp
        then have "g \<in> set component \<and> fg_instance_anchor_id g = Some a" by (rule occurrences_by_anchor_entry)
        then show "goes_on (safe_state ctx) ((case p of (_, g) \<Rightarrow> carry_occurrence env ctx scene authority anchor (fg_layer g) move g) s'')"
          using sub unfolding ag prod.case by (intro safe_carry_occurrence [OF s'']) auto
      qed
    qed
  qed (simp_all add: assms)
qed


lemma safe_close_direct:
  assumes "safe_state ctx s"
  shows "goes_on (safe_state ctx) (close_direct_move env ctx scene authority anchor entry s)"
proof -
  obtain source_id move where entry: "entry = (source_id, move)" by (rule prod.exhaust)
  show ?thesis unfolding close_direct_move_def Let_def entry prod.case
  proof (intro goes_on_rules)
    fix direct occurrences
    assume "closed_direct_occurrences direct (ek_physical ctx) 4 = Some occurrences"
    then have occurrences: "g \<in> set (ek_physical ctx) \<and> fg_instance_anchor_id g \<noteq> None" if "g \<in> set occurrences" for g
      using that by (auto simp: closed_direct_occurrences_def Let_def split: if_splits dest!: occurrences_by_anchor_entry)
    show "goes_on (safe_state ctx) (lower_each (carry_occurrence env ctx scene authority anchor (lo_layer direct) move) occurrences
        (drop_anchors (seed_anchors occurrences) s))"
      by (rule goes_on_each) (simp_all add: safe_drop assms safe_carry_occurrence occurrences)
  qed simp_all
qed

lemma goes_on_mono: "goes_on P m \<Longrightarrow> (\<And>x. P x \<Longrightarrow> Q x) \<Longrightarrow> goes_on Q m"
  by (auto simp: goes_on_def split: sum.splits)

lemma same_moves_each:
  assumes "\<And>x s. x \<in> set xs \<Longrightarrow> goes_on (\<lambda>s'. lw_occurrence_moves s' = lw_occurrence_moves s) (f x s)"
  shows "goes_on (\<lambda>s'. lw_occurrence_moves s' = lw_occurrence_moves s) (lower_each f xs s)"
  by (rule goes_on_each) (simp_all, rule goes_on_mono [OF assms], simp_all)

lemma safe_moves_entry:
  "safe_state ctx s \<Longrightarrow> entry \<in> set (lw_occurrence_moves s) \<Longrightarrow> set (fst entry) \<subseteq> set (ek_physical ctx)"
  unfolding safe_state_def safe_moves_def list_all_iff by (cases entry) auto

lemma safe_steps:
  assumes "list_all editing_operation (gs_operations solution)"
  shows "goes_on (safe_state ctx) (lower_steps env ctx scene authority anchor solution)"
  unfolding lower_steps_def
proof (rule goes_on_then [where P = "safe_state ctx"])
  show "goes_on (safe_state ctx) (lower_each (lower_source env ctx scene authority anchor solution)
      (operations_by_source (gs_operations solution)) empty_lowering)"
    by (rule goes_on_each [where I = "safe_state ctx", OF safe_empty], rule safe_source) (auto intro: operations_by_source_entry [OF assms])
next
  fix s assume s: "safe_state ctx s"
  show "goes_on (safe_state ctx) (lowering_then (if lw_direct_moves s = []
       then lower_each (close_occurrence_move env ctx scene authority anchor) (lw_occurrence_moves s) s
       else continue_with s) (\<lambda>s.
     lower_each (close_direct_move env ctx scene authority anchor) (lw_direct_moves s) s))"
  proof (rule goes_on_then [where P = "safe_state ctx"])
    show "goes_on (safe_state ctx) (if lw_direct_moves s = []
       then lower_each (close_occurrence_move env ctx scene authority anchor) (lw_occurrence_moves s) s
       else continue_with s)"
    proof (intro goes_on_if goes_on_each)
      fix entry s' assume "entry \<in> set (lw_occurrence_moves s)" "safe_state ctx s'"
      then show "goes_on (safe_state ctx) (close_occurrence_move env ctx scene authority anchor entry s')"
        using safe_moves_entry [OF s] by (intro safe_close_occurrence)
    qed (simp_all add: s)
  qed (rule goes_on_each, assumption, rule safe_close_direct)
qed

section \<open>Programs\<close>

definition safe_operation :: "edit_context \<Rightarrow> repair_operation \<Rightarrow> bool" where
  "safe_operation ctx x \<longleftrightarrow>
     (case x of
        OpSpecializeLayer l \<Rightarrow>
          length_between 1 4 (sl_instance_layer_replacements l) \<and>
          list_all (occurrence_edit ctx) (sl_instance_layer_replacements l)
      | _ \<Rightarrow> editable_operation ctx x)"

lemma map_result_validate: "map_result validate_operation xs = Inr ys \<Longrightarrow> ys = xs"
  by (induction xs arbitrary: ys) (auto simp: bind_result_Inr_iff validate_operation_def split: if_splits)

lemma make_program_operations:
  assumes "make_program env scene identity operations strategy = Inr p"
  shows "rp_operations p = operations" "length_between 1 4 operations"
    "rp_region_id p = rf_region_id (sn_focus scene)" "rp_target_violation_ids p = [rf_primary_violation_id (sn_focus scene)]"
    "card (set (program_targets p)) \<le> 8"
  using assms
  by (auto simp: make_program_def bind_result_Inr_iff validate_repair_program_def split: if_splits dest!: map_result_validate)

text \<open>The replacements of a program, over all its operations.\<close>

definition program_replacements :: "repair_operation list \<Rightarrow> layer_replacement list" where
  "program_replacements operations = concat (map (\<lambda>x. case x of
     OpSpecializeLayer l \<Rightarrow> sl_instance_layer_replacements l | _ \<Rightarrow> []) operations)"

definition safe_operations :: "edit_context \<Rightarrow> repair_operation list \<Rightarrow> bool" where
  "safe_operations ctx operations \<longleftrightarrow>
     list_all (safe_operation ctx) operations \<and> length_between 1 4 operations \<and>
     program_replacements operations \<noteq> [] \<and> distinct (map place_of (program_replacements operations)) \<and>
     card (il_instance_anchor_id ` set (program_replacements operations)) \<le> 4"

lemma snd_owned: "snd ` set (owned gs) = replacements_of gs"
  by (force simp: set_owned replacements_of_def)

lemma program_replacements_pairs:
  "list_all (editable_operation ctx) xs \<Longrightarrow>
   program_replacements (xs @ map OpSpecializeLayer ls) = map snd (op_pairs ls)"
proof -
  assume "list_all (editable_operation ctx) xs"
  then have "program_replacements xs = []"
    by (auto simp: program_replacements_def list_all_iff editable_operation_def split: repair_operation.split)
  moreover have "program_replacements (map OpSpecializeLayer ls) = map snd (op_pairs ls)"
    by (simp add: program_replacements_def op_pairs_def owned_def comp_def map_concat)
  ultimately show ?thesis by (simp add: program_replacements_def)
qed

lemma program_operations_safe:
  assumes s: "safe_state ctx s"
  shows "goes_on (safe_operations ctx) (program_operations s)"
  unfolding program_operations_def Let_def
proof (intro goes_on_if goes_on_option)
  fix ls
  let ?xs = "lw_direct_operations s @ map OpSpecializeLayer ls"
  assume some: "lw_replacements s \<noteq> []" and ls: "group_specializations (lw_by_owner s) = Some ls"
    and small: "\<not> 4 < length ?xs"
  from s have direct: "list_all (editable_operation ctx) (lw_direct_operations s)"
    and edits: "list_all (occurrence_edit ctx) (lw_replacements s)"
    and owners: "replacements_of (lw_by_owner s) = set (lw_replacements s)"
    by (simp_all add: safe_state_def)
  have group: "list_all (\<lambda>x. length_between 1 4 (sl_instance_layer_replacements x)) ls"
    "set (op_pairs ls) = set (owned (lw_by_owner s))" "distinct (map (place_of \<circ> snd) (op_pairs ls))"
    "card (il_instance_anchor_id ` snd ` set (owned (lw_by_owner s))) \<le> 4"
    using grouping_result [of "lw_by_owner s"] unfolding ls option.case by blast+
  have all: "program_replacements ?xs = map snd (op_pairs ls)" by (rule program_replacements_pairs [OF direct])
  have set_all: "set (program_replacements ?xs) = set (lw_replacements s)"
    unfolding all set_map group(2) snd_owned owners ..
  have "list_all (safe_operation ctx) ?xs"
  proof -
    have "list_all (safe_operation ctx) (lw_direct_operations s)"
      using direct by (auto simp: list_all_iff safe_operation_def editable_operation_def split: repair_operation.split)
    moreover have "safe_operation ctx (OpSpecializeLayer l)" if l: "l \<in> set ls" for l
    proof -
      have "set (sl_instance_layer_replacements l) \<subseteq> set (program_replacements ?xs)"
        using l by (auto simp: program_replacements_def)
      then show ?thesis using l group(1) edits unfolding set_all by (auto simp: safe_operation_def list_all_iff)
    qed
    ultimately show ?thesis by (auto simp: list_all_iff)
  qed
  moreover have "program_replacements ?xs \<noteq> []" using some set_all by (metis set_empty)
  moreover have "distinct (map place_of (program_replacements ?xs))" unfolding all using group(3) by simp
  moreover have "card (il_instance_anchor_id ` set (program_replacements ?xs)) \<le> 4"
    unfolding all set_map group(2) by (rule group(4))
  moreover have "1 \<le> length ?xs"
    using \<open>program_replacements ?xs \<noteq> []\<close> by (cases ?xs) (simp_all add: program_replacements_def)
  ultimately show "goes_on (safe_operations ctx) (continue_with ?xs)"
    using small by (simp add: safe_operations_def length_between_def)
qed simp_all

definition safe_program :: "edit_context \<Rightarrow> repair_scene \<Rightarrow> repair_program \<Rightarrow> bool" where
  "safe_program ctx scene p \<longleftrightarrow>
     safe_operations ctx (rp_operations p) \<and> card (set (program_targets p)) \<le> 8 \<and>
     rp_region_id p = rf_region_id (sn_focus scene) \<and>
     rp_target_violation_ids p = [rf_primary_violation_id (sn_focus scene)]"

lemma lower_solution_safe:
  "goes_on (safe_program ctx scene) (lower_solution env ctx scene authority anchor solution)"
  unfolding lower_solution_def
proof (intro goes_on_if)
  assume "\<not> \<not> list_all editing_operation (gs_operations solution)"
  then have "list_all editing_operation (gs_operations solution)" by simp
  note steps = safe_steps [OF this]
  show "goes_on (safe_program ctx scene) (lowering_then (lower_steps env ctx scene authority anchor solution) (\<lambda>s.
        lowering_then (program_operations s) (\<lambda>operations.
        bind_result (make_program env scene (JList (map (ee_operation_dump env) operations)) operations
          (''PHASE3_'' @ family_value (sn_repair_family scene) @ ''_INSTANCE_SPECIALIZATION''))
          continue_with)))"
  proof (rule goes_on_then [OF steps], rule goes_on_then [OF program_operations_safe], assumption, rule goes_on_bind)
    fix operations :: "repair_operation list" and p
    assume "safe_operations ctx operations"
      and "make_program env scene (JList (map (ee_operation_dump env) operations)) operations
          (''PHASE3_'' @ family_value (sn_repair_family scene) @ ''_INSTANCE_SPECIALIZATION'') = Inr p"
    then show "goes_on (safe_program ctx scene) (continue_with p)"
      by (simp add: safe_program_def make_program_operations)
  qed
qed simp_all

section \<open>All solutions\<close>

fun stop_rejection :: "geometry_solution \<Rightarrow> lowering_stop \<Rightarrow> lowering_rejection" where
  "stop_rejection solution (Rejected code source) = rejection solution code source"
| "stop_rejection solution Unresolved = rejection solution ''LOWERING_CLOSED_CARRIER_UNRESOLVED'' None"

definition lowered :: "repair_program lowering \<Rightarrow> repair_program list" where
  "lowered m = (case m of Inr (Inr p) \<Rightarrow> [p] | _ \<Rightarrow> [])"

definition refused :: "geometry_solution \<Rightarrow> repair_program lowering \<Rightarrow> lowering_rejection list" where
  "refused solution m = (case m of Inr (Inl stop) \<Rightarrow> [stop_rejection solution stop] | _ \<Rightarrow> [])"

lemma stop_rejection_id [simp]: "rj_solution_id (stop_rejection solution stop) = gs_solution_id solution"
  by (cases stop) (simp_all add: rejection_def)

lemma note_rejection_fresh:
  "gs_solution_id solution \<notin> rj_solution_id ` set rs \<Longrightarrow> note_rejection solution stop rs = rs @ [stop_rejection solution stop]"
proof (cases stop)
  case Unresolved
  assume "gs_solution_id solution \<notin> rj_solution_id ` set rs"
  then have "\<not> (\<exists>r \<in> set rs. rj_solution_id r = gs_solution_id solution)" by (metis imageI)
  then show ?thesis by (simp add: Unresolved)
qed simp

lemma lower_all_result:
  assumes "lower_all answer xs programs rejections = Inr (programs', rejections')"
    "distinct (map gs_solution_id xs)" "gs_solution_id ` set xs \<inter> rj_solution_id ` set rejections = {}"
  shows "programs' = programs @ concat (map (\<lambda>x. lowered (answer x)) xs) \<and>
    rejections' = rejections @ concat (map (\<lambda>x. refused x (answer x)) xs) \<and> list_all (\<lambda>x. isl (answer x) = False) xs"
  using assms
proof (induction xs arbitrary: programs rejections)
  case (Cons x xs)
  from Cons.prems(1) obtain r where r: "answer x = Inr r" by (cases "answer x") simp_all
  show ?case
  proof (cases r)
    case (Inl stop)
    have fresh: "note_rejection x stop rejections = rejections @ [stop_rejection x stop]"
      using Cons.prems(3) by (intro note_rejection_fresh) auto
    have "lower_all answer xs programs (rejections @ [stop_rejection x stop]) = Inr (programs', rejections')"
      using Cons.prems(1) by (simp add: r Inl fresh)
    from Cons.IH [OF this] show ?thesis
      using Cons.prems(2,3) by (auto simp: r Inl lowered_def refused_def)
  next
    case (Inr p)
    have "lower_all answer xs (programs @ [p]) rejections = Inr (programs', rejections')"
      using Cons.prems(1) by (simp add: r Inr)
    from Cons.IH [OF this] show ?thesis
      using Cons.prems(2,3) by (auto simp: r Inr lowered_def refused_def)
  qed
qed simp

lemma first_of_each_keys: "key ` set (first_of_each key xs) = key ` set xs"
proof (induction xs)
  case (Cons x xs)
  have "key ` set (first_of_each key (x # xs)) = insert (key x) (key ` set (first_of_each key xs))" by auto
  then show ?case using Cons by simp
qed simp

lemma first_of_each_distinct: "distinct (map key (first_of_each key xs))"
  by (induction xs) (auto intro: distinct_map_filter)

lemma set_first_of_each: "set (first_of_each key xs) \<subseteq> set xs"
  by (induction xs) auto

lemma lower_all_safe:
  assumes "lower_all answer xs programs rejections = Inr (programs', rejections')"
    "list_all P programs" "\<And>x. goes_on P (answer x)"
  shows "list_all P programs'"
  using assms(1,2)
proof (induction xs arbitrary: programs rejections)
  case (Cons x xs)
  from Cons.prems(1) obtain r where r: "answer x = Inr r" by (cases "answer x") simp_all
  show ?case
  proof (cases r)
    case (Inl stop)
    then show ?thesis using Cons.prems by (auto simp: r intro: Cons.IH)
  next
    case (Inr p)
    have "P p" using assms(3) [of x] by (simp add: r Inr goes_on_def)
    then have "list_all P (programs @ [p])" using Cons.prems(2) by simp
    then show ?thesis using Cons.prems(1) by (auto simp: r Inr intro: Cons.IH)
  qed
qed simp

text \<open>
  C13. Every program that \<open>build_solution_specialization_programs\<close> emits stays within the authority of the
  region: it has one to four operations; moved or resized objects are editable ones; every
  specialisation replaces, polygon by polygon, the geometry that the sources give for a layer of an
  occurrence of the layout, no place twice, at most four occurrences in all; and the program names the
  region and the violation that the scene is about.
\<close>

theorem lowered_programs_safe:
  assumes "build_solution_specialization_programs env ctx scene solutions authority rejections = Inr (programs, rejections')"
  shows "list_all (safe_program ctx scene) programs"
proof -
  from assms obtain all where all: "lower_all (lower_solution env ctx scene authority (specialization_anchor ctx solutions))
      solutions [] rejections = Inr (all, rejections')"
    and programs: "programs = first_of_each (\<lambda>p. ee_hash env (ee_program_dump env p)) all"
    by (auto simp: build_solution_specialization_programs_def bind_result_Inr_iff)
  have "list_all (safe_program ctx scene) all"
    by (rule lower_all_safe [OF all]) (simp_all add: lower_solution_safe)
  then show ?thesis unfolding programs using set_first_of_each by (fastforce simp: list_all_iff)
qed

text \<open>
  C14. No solution of the solver is lost: each one either is emitted as a program (possibly equal to an
  earlier one, of which only the first is kept) and has no rejection, or has exactly one rejection,
  with the code of the step that stopped it.
\<close>

theorem every_solution_answered:
  assumes built: "build_solution_specialization_programs env ctx scene solutions authority rejections = Inr (programs, rejections')"
    and ids: "distinct (map gs_solution_id solutions)" "gs_solution_id ` set solutions \<inter> rj_solution_id ` set rejections = {}"
    and x: "x \<in> set solutions"
  defines "key \<equiv> \<lambda>p. ee_hash env (ee_program_dump env p)"
  shows "distinct (map key programs) \<and>
    (case lower_solution env ctx scene authority (specialization_anchor ctx solutions) x of
       Inl e \<Rightarrow> False
     | Inr (Inr p) \<Rightarrow> key p \<in> key ` set programs \<and> gs_solution_id x \<notin> rj_solution_id ` set rejections'
     | Inr (Inl stop) \<Rightarrow> filter (\<lambda>r. rj_solution_id r = gs_solution_id x) rejections' = [stop_rejection x stop])"
proof -
  let ?answer = "lower_solution env ctx scene authority (specialization_anchor ctx solutions)"
  from built obtain all where all: "lower_all ?answer solutions [] rejections = Inr (all, rejections')"
    and programs: "programs = first_of_each key all"
    by (auto simp: build_solution_specialization_programs_def bind_result_Inr_iff key_def)
  note result = lower_all_result [OF all ids]
  have keys: "key ` set programs = key ` set all" "distinct (map key programs)"
    unfolding programs by (rule first_of_each_keys, rule first_of_each_distinct)
  have others: "filter (\<lambda>r. rj_solution_id r = gs_solution_id x) (refused y (?answer y)) = (if y = x then refused x (?answer x) else [])"
    if "y \<in> set solutions" for y
  proof -
    have "gs_solution_id y = gs_solution_id x \<longleftrightarrow> y = x" using ids(1) that x by (auto simp: distinct_map inj_on_def)
    then show ?thesis by (auto simp: refused_def split: sum.split)
  qed
  have "filter (\<lambda>r. rj_solution_id r = gs_solution_id x) rejections = []"
    using ids(2) x by (auto simp: filter_empty_conv)
  moreover have "filter (\<lambda>r. rj_solution_id r = gs_solution_id x) (concat (map (\<lambda>y. refused y (?answer y)) ys)) = refused x (?answer x)"
    if "x \<in> set ys" "distinct ys" "set ys \<subseteq> set solutions" for ys
    using that
  proof (induction ys)
    case (Cons y ys)
    have none: "filter (\<lambda>r. rj_solution_id r = gs_solution_id x) (concat (map (\<lambda>y. refused y (?answer y)) zs)) = []"
      if "x \<notin> set zs" "set zs \<subseteq> set solutions" for zs
      using that by (induction zs) (auto simp: others)
    show ?case
    proof (cases "y = x")
      case True
      then have "x \<notin> set ys" "set ys \<subseteq> set solutions" using Cons.prems by auto
      from none [OF this] show ?thesis using Cons.prems(3) True by (simp add: others x)
    next
      case False
      then have "x \<in> set ys" "distinct ys" "set ys \<subseteq> set solutions" using Cons.prems by auto
      from Cons.IH [OF this] show ?thesis using Cons.prems(3) False by (simp add: others)
    qed
  qed simp
  ultimately have mine: "filter (\<lambda>r. rj_solution_id r = gs_solution_id x) rejections' = refused x (?answer x)"
    using result ids(1) x by (simp add: distinct_map)
  have "isl (?answer x) = False" using result x by (simp add: list_all_iff)
  then obtain r where r: "?answer x = Inr r" by (cases "?answer x") simp_all
  show ?thesis
  proof (cases r)
    case (Inl stop)
    then show ?thesis using keys(2) mine by (simp add: r refused_def)
  next
    case (Inr p)
    have "p \<in> set (lowered (?answer x))" by (simp add: lowered_def r Inr)
    then have "p \<in> set all" using result x by auto
    moreover have "gs_solution_id x \<notin> rj_solution_id ` set rejections'"
      using mine by (auto simp: r Inr refused_def filter_empty_conv)
    ultimately show ?thesis using keys by (simp add: r Inr)
  qed
qed

end
