(* ===== verification/Edit_Examples.thy ===== *)
theory Edit_Examples
  imports Edit_Safety
begin

text \<open>
  A shared cell with one rectangle, an occurrence of it in the layout and two solutions: one moves the
  rectangle, the other has an operation that the lowering does not support.
\<close>

definition corners :: "box \<Rightarrow> point list" where
  "corners b = [\<lparr>pt_x = bx_x1 b, pt_y = bx_y1 b\<rparr>, \<lparr>pt_x = bx_x2 b, pt_y = bx_y1 b\<rparr>,
     \<lparr>pt_x = bx_x2 b, pt_y = bx_y2 b\<rparr>, \<lparr>pt_x = bx_x1 b, pt_y = bx_y2 b\<rparr>]"

definition cell_box :: box where
  "cell_box = \<lparr>bx_x1 = 0, bx_y1 = 0, bx_x2 = 4, bx_y2 = 2\<rparr>"

definition layout_box :: box where
  "layout_box = \<lparr>bx_x1 = 10, bx_y1 = 10, bx_x2 = 14, bx_y2 = 12\<rparr>"

definition cell_object :: layout_object where
  "cell_object = \<lparr>lo_object_id = ''o1'', lo_source_anchor_id = Some ''a1'', lo_kind = KindPolygon, lo_layer = ''M1'',
     lo_bbox_dbu = cell_box, lo_geometry_dbu = Some (corners cell_box), lo_net_id = None,
     lo_net_mapping_quality = NetUnavailable, lo_connectivity_component_id = None, lo_routing_type = None,
     lo_editability = EditabilityB, lo_touches_region_boundary = False, lo_source_span = None,
     lo_insertion_source_span = Some \<lparr>ss_path = ''p'', ss_start_line = 1, ss_start_column = 0, ss_end_line = 1,
       ss_end_column = 9, ss_source_hash = ''h''\<rparr>,
     lo_source_variable = None, lo_source_cell = Some ''c1'', lo_layer_number = None, lo_geometry_hash = ''h''\<rparr>"

definition placed_object :: physical_geometry where
  "placed_object = \<lparr>fg_geometry_id = ''g1'', fg_occurrence_provenance = None, fg_source_object_id = Some ''o1'',
     fg_source_anchor_id = Some ''a1'', fg_source_cell = Some ''c1'', fg_instance_anchor_id = Some ''i1'',
     fg_hierarchy_path = [], fg_layer = ''M1'', fg_polygon_dbu = corners layout_box, fg_bbox_dbu = layout_box,
     fg_physical_edges = [], fg_ownership_quality = ExactSharedCell, fg_editable = False,
     fg_source_instance_count = 1, fg_geometry_hash = ''h''\<rparr>"

definition edit_context_of :: "string list \<Rightarrow> edit_context" where
  "edit_context_of editable = \<lparr>ek_objects = [cell_object], ek_physical = [placed_object],
     ek_editable_ids = editable, ek_case_id = ''case''\<rparr>"

definition plain_env :: edit_env where
  "plain_env = \<lparr>ee_rectangle_points = corners, ee_verified_transform = (\<lambda>_ _. Inr None), ee_scene_dofs = (\<lambda>_. []),
     ee_enclosure_programs = (\<lambda>_ _. Inr []), ee_hash = (\<lambda>j. case j of JStr t \<Rightarrow> t | _ \<Rightarrow> ''digest''),
     ee_operation_dump = (\<lambda>_. JNull), ee_program_dump = (\<lambda>p. JStr (rp_program_id p)), ee_polygon_dump = (\<lambda>_. JNull)\<rparr>"

definition cell_participant :: scene_participant where
  "cell_participant = \<lparr>sp_participant_id = ''p1'', sp_role = RolePrimaryOffender, sp_layer = ''M1'',
     sp_geometry_kind = ''polygon'', sp_source_object_ids = [''o1''], sp_source_anchor_ids = [''a1''],
     sp_instance_anchor_ids = [''i1''], sp_physical_geometry_ids = [''g1''], sp_merged_component_id = None,
     sp_bbox = layout_box, sp_boundary_edges = [], sp_editable = False, sp_edit_authority = ''NONE'',
     sp_connectivity_component_ids = [], sp_connectivity_quality = ObservUnavailable, sp_frozen_reason = None\<rparr>"

definition spacing_scene :: repair_scene where
  "spacing_scene = \<lparr>sn_scene_id = ''s'', sn_focus = \<lparr>rf_focus_id = ''f'', rf_primary_violation_id = ''v1'',
       rf_primary_rule_id = ''R'', rf_repair_family = FamilySpacing, rf_coupled_violation_ids = [],
       rf_region_id = ''r1'', rf_local_bbox = layout_box, rf_target_predicate_id = ''q'',
       rf_target_witness_id = ''w1'', rf_focus_reason = ''''\<rparr>,
     sn_repair_family = FamilySpacing, sn_participants = [cell_participant], sn_hierarchy_projections = [],
     sn_relation = None, sn_local_obstacle_ids = [], sn_edit_halo = layout_box, sn_manufacturing_grid_dbu = 1,
     sn_predicate_fidelity = ObservExact, sn_witness_fidelity = ObservExact, sn_hierarchy_quality = ObservExact,
     sn_connectivity_quality = ObservUnavailable, sn_build_status = ''BUILT'', sn_failure_reason = None\<rparr>"

definition no_authority :: authority_resolution where
  "no_authority = \<lparr>au_resolution_id = ''u'', au_scene_id = ''s'', au_reports = [], au_insertion_owner_by_layer = [],
     au_available_modes = [], au_failure_codes = []\<rparr>"

definition solution_of :: "string \<Rightarrow> repair_operation list \<Rightarrow> geometry_solution" where
  "solution_of i operations = \<lparr>gs_solution_id = i, gs_scene_id = ''s'', gs_repair_family = FamilySpacing,
     gs_selected_dof_ids = [], gs_solver_status = SolverGeometryFeasible, gs_objective_tuple = (0, 0, 0, 0, 0, 0),
     gs_exact_geometry_parameters = [], gs_predicted_before_measurements = [], gs_predicted_after_measurements = [],
     gs_predicate_constraints_satisfied = True, gs_operation_count = 1, gs_operations = operations,
     gs_source_object_ids = [''o1''], gs_physical_effect_fingerprint = ''e'', gs_risk_flags = [],
     gs_requires_connectivity_preview = False, gs_solver_proof = []\<rparr>"

definition move_solution :: geometry_solution where
  "move_solution = solution_of ''m1'' [OpMoveObject \<lparr>mo_target_object_id = ''o1'', mo_dx_dbu = 5, mo_dy_dbu = 0\<rparr>]"

definition via_solution :: geometry_solution where
  "via_solution = solution_of ''m2'' [OpMoveViaStack \<lparr>mv_target_via_id = ''t'', mv_dx_dbu = 5, mv_dy_dbu = 0\<rparr>]"

text \<open>The replacement of the cell's only layer: the rectangle five units to the right.\<close>

definition shifted_layer :: layer_replacement where
  "shifted_layer = \<lparr>il_instance_anchor_id = ''i1'', il_parent_cell = ''cell_case'', il_source_cell = ''c1'',
     il_layer = ''M1'', il_rotation = 0, il_mirror = False, il_dx_dbu = 10, il_dy_dbu = 10,
     il_original_polygons_local_dbu = [corners cell_box],
     il_replacement_polygons_local_dbu = [corners \<lparr>bx_x1 = 5, bx_y1 = 0, bx_x2 = 9, bx_y2 = 2\<rparr>],
     il_occurrence_local_fragment = False\<rparr>"

lemma translated_example:
  "translated_replacements plain_env (edit_context_of []) placed_object 5 0 None = Inr (Some [shifted_layer])"
  by code_simp


lemma lowering_example:
  "\<exists>p. build_solution_specialization_programs plain_env (edit_context_of []) spacing_scene
      [move_solution, via_solution] no_authority [] =
    Inr ([p], [\<lparr>rj_code = ''LOWERING_UNSUPPORTED_OPERATION'', rj_solution_id = ''m2'', rj_selected_dof_ids = [],
      rj_source_object_id = None\<rparr>]) \<and> rp_operations p = [OpSpecializeLayer
        \<lparr>sl_source_owner_object_id = ''o1'', sl_instance_layer_replacements = [shifted_layer]\<rparr>]"
proof -
  let ?r = "build_solution_specialization_programs plain_env (edit_context_of []) spacing_scene
      [move_solution, via_solution] no_authority []"
  have "map_sum id (\<lambda>(ps, rs). (map rp_operations ps, rs)) ?r = Inr ([[OpSpecializeLayer
        \<lparr>sl_source_owner_object_id = ''o1'', sl_instance_layer_replacements = [shifted_layer]\<rparr>]],
      [\<lparr>rj_code = ''LOWERING_UNSUPPORTED_OPERATION'', rj_solution_id = ''m2'', rj_selected_dof_ids = [],
        rj_source_object_id = None\<rparr>])"
    by code_simp
  then show ?thesis by (cases ?r) auto
qed

section \<open>The properties at these inputs\<close>

lemma closed_containing_box_exact_witness:
  "\<exists>b. closed_containing_box \<lparr>bx_x1 = 0, bx_y1 = 0, bx_x2 = 10, bx_y2 = 10\<rparr> \<lparr>bx_x1 = 2, bx_y1 = 2, bx_x2 = 4, bx_y2 = 4\<rparr>
      \<lparr>bx_x1 = 2, bx_y1 = 2, bx_x2 = 14, bx_y2 = 4\<rparr> [] [] = Inr (Some b) \<and> bx_x2 b = 20 \<and>
    box_contains b \<lparr>bx_x1 = 2, bx_y1 = 2, bx_x2 = 14, bx_y2 = 4\<rparr>"
proof -
  let ?l = "\<lparr>bx_x1 = 0, bx_y1 = 0, bx_x2 = 10, bx_y2 = 10\<rparr>" and ?v = "\<lparr>bx_x1 = 2, bx_y1 = 2, bx_x2 = 4, bx_y2 = 4\<rparr>"
    and ?c = "\<lparr>bx_x1 = 2, bx_y1 = 2, bx_x2 = 14, bx_y2 = 4\<rparr>"
  have run: "closed_containing_box ?l ?v ?c [] [] = Inr (Some \<lparr>bx_x1 = 0, bx_y1 = 0, bx_x2 = 20, bx_y2 = 10\<rparr>)"
    by code_simp
  have "case closed_containing_box ?l ?v ?c [] [] of
      Inl e \<Rightarrow> False
    | Inr None \<Rightarrow> \<not> box_contains ?l ?v
    | Inr (Some b) \<Rightarrow> box_contains ?l ?v \<and> box_ordered b \<and> box_contains b ?l \<and>
        (if \<exists>c \<in> set []. box_contains c ?c then b = ?l else box_contains b ?c) \<and>
        (box_contains ?l ?c \<longrightarrow> b = ?l)"
    by (rule closed_containing_box_exact) simp_all
  then show ?thesis unfolding run by simp
qed

text \<open>A geometry that overlaps the placed one.\<close>

definition joined_object :: physical_geometry where
  "joined_object = placed_object\<lparr>fg_geometry_id := ''g2'',
     fg_bbox_dbu := \<lparr>bx_x1 = 12, bx_y1 = 10, bx_x2 = 20, bx_y2 = 12\<rparr>\<rparr>"

lemma merged_component_exact_witness:
  "closed_same_layer_component [placed_object] [placed_object, joined_object] 8 = Some [placed_object, joined_object] \<and>
   merged_metal {g \<in> set [placed_object, joined_object]. fg_layer g = ''M1''} (set [placed_object]) =
     {placed_object, joined_object}"
proof -
  have run: "closed_same_layer_component [placed_object] [placed_object, joined_object] 8 = Some [placed_object, joined_object]"
    by code_simp
  have "case closed_same_layer_component [placed_object] [placed_object, joined_object] 8 of
      None \<Rightarrow> 8 < card (merged_metal {g \<in> set [placed_object, joined_object]. fg_layer g = ''M1''} (set [placed_object])) \<and>
        merged_metal {g \<in> set [placed_object, joined_object]. fg_layer g = ''M1''} (set [placed_object]) \<noteq> set [placed_object]
    | Some gs \<Rightarrow> set gs = merged_metal {g \<in> set [placed_object, joined_object]. fg_layer g = ''M1''} (set [placed_object]) \<and>
        distinct gs \<and> sorted (map fg_geometry_id gs) \<and>
        (card (merged_metal {g \<in> set [placed_object, joined_object]. fg_layer g = ''M1''} (set [placed_object])) \<le> 8 \<or>
         merged_metal {g \<in> set [placed_object, joined_object]. fg_layer g = ''M1''} (set [placed_object]) = set [placed_object])"
    by (rule merged_component_exact) (simp_all add: placed_object_def joined_object_def)
  then have "set [placed_object, joined_object] =
      merged_metal {g \<in> set [placed_object, joined_object]. fg_layer g = ''M1''} (set [placed_object])"
    unfolding run option.case by (elim conjE)
  then show ?thesis using run by (simp only: list.set simp_thms)
qed

text \<open>The same occurrence with provenance, under a verifier that knows its transform.\<close>

definition verified_object :: physical_geometry where
  "verified_object = placed_object\<lparr>fg_occurrence_provenance := Some \<lparr>op_source_sha256 = ''s'',
     op_statement_ast_hash = ''a'', op_parent_cell = ''cell_case'', op_source_cell = ''c1'',
     op_transform = (0, False, 10, 10), op_line = 1, op_column = 0\<rparr>\<rparr>"

definition verified_env :: edit_env where
  "verified_env = plain_env\<lparr>ee_verified_transform :=
     \<lambda>points g. Inr (map_option op_transform (fg_occurrence_provenance g))\<rparr>"

lemma verified_example:
  "translated_replacements verified_env (edit_context_of []) verified_object 5 0 None = Inr (Some [shifted_layer])"
  by code_simp

lemma translation_moves_occurrence_witness:
  "translated_replacements plain_env (edit_context_of []) placed_object 5 0 None = Inr (Some [shifted_layer]) \<and>
   translated_replacements verified_env (edit_context_of []) verified_object 5 0 None = Inr (Some [shifted_layer]) \<and>
   moved_by 5 0 shifted_layer \<and>
   (\<exists>source. ee_verified_transform verified_env (points_of source) verified_object =
      Inr (Some (replacement_transform shifted_layer)))"
proof -
  have simple: "\<forall>x \<in> set (ek_objects (edit_context_of [])). distinct (canonical_points x)"
    by code_simp
  have "moved_by 5 0 shifted_layer"
    using translation_moves_occurrence [OF translated_example simple] by simp
  moreover have "\<exists>source. ee_verified_transform verified_env (points_of source) verified_object =
      Inr (Some (replacement_transform shifted_layer))"
    using translation_moves_occurrence [OF verified_example simple] by (auto simp: verified_object_def)
  ultimately show ?thesis using translated_example verified_example by simp
qed

lemma lowered_programs_safe_witness:
  "\<exists>p rs. build_solution_specialization_programs plain_env (edit_context_of []) spacing_scene
      [move_solution, via_solution] no_authority [] = Inr ([p], rs) \<and> safe_program (edit_context_of []) spacing_scene p"
proof -
  obtain p rs where "build_solution_specialization_programs plain_env (edit_context_of []) spacing_scene
      [move_solution, via_solution] no_authority [] = Inr ([p], rs)"
    using lowering_example by blast
  from this lowered_programs_safe [OF this] show ?thesis by auto
qed

lemma every_solution_answered_witness:
  "\<exists>ps rs. build_solution_specialization_programs plain_env (edit_context_of []) spacing_scene
      [move_solution, via_solution] no_authority [] = Inr (ps, rs) \<and>
    length (filter (\<lambda>r. rj_solution_id r = ''m2'') rs) = 1"
proof -
  let ?r = "lower_solution plain_env (edit_context_of []) spacing_scene no_authority
    (specialization_anchor (edit_context_of []) [move_solution, via_solution]) via_solution"
  obtain ps rs where built: "build_solution_specialization_programs plain_env (edit_context_of []) spacing_scene
      [move_solution, via_solution] no_authority [] = Inr (ps, rs)"
    using lowering_example by blast
  have stop: "?r = Inr (Inl (Rejected ''LOWERING_UNSUPPORTED_OPERATION'' None))"
    by (simp add: lower_solution_def via_solution_def solution_of_def stop_with_def)
  have "distinct (map gs_solution_id [move_solution, via_solution])" "gs_solution_id via_solution = ''m2''"
    by (simp_all add: move_solution_def via_solution_def solution_of_def)
  then show ?thesis using every_solution_answered [OF built _ _, of via_solution] built unfolding stop by auto
qed

end
