(* ===== verification/Spec2Isabelle.thy ===== *)
theory Spec2Isabelle
  imports Prelude Geometry Json Layout_Schemas Action_Schemas Config Methods Workflow_Schemas Policy
    Batching Union_Find Connectivity_Map Regions Region_Builder Graph_Search Agent_Graph
    Local_Topology Active_Window Window_Coordination Resource_Arbiter Candidate_Checks Effects
    Json_Values Failures Tool_Schemas Metrics Attempts Transactions Transaction_Accounting Transaction_Results
    Transaction_Liveness Transaction_Examples
    Repair_Schemas Occurrence_Transforms Edit_Authority Edit_Closures Edit_Programs Edit_Lowering Edit_Safety Edit_Examples
begin

text \<open>
  DRCAgent repairs design-rule violations of chip layouts. A layout program is a Python source that an
  external tool turns into geometry; the agent groups the violations of a report into regions, plans
  edits for each region, tries the edits in sandboxes, and commits those whose evidence is complete.
  This development models the parts of \<open>src/src/drc_agent/\<close> whose Python source is in the repository
  (many of its modules exist only in compiled form) and proves what makes each part correct. Paths below
  are relative to that directory.

  \<^bold>\<open>How the parts interact.\<close> The violations and objects of a layout (\<open>schemas/state.py\<close>) are divided into
  regions (\<open>regions/builder.py\<close>, with connectivity components from \<open>regions/connectivity.py\<close> and routing
  fragments from \<open>regions/topology.py\<close>). The agent graph (\<open>graphs/agent.py\<close>) connects regions that must
  be repaired together and passes messages along its edges. A window of this graph is selected for one
  round (\<open>workflow/active_window.py\<close>) and coordinated: candidates are checked (\<open>actions/candidates.py\<close>),
  run in sandboxes under leases of the resource arbiter (\<open>infrastructure/resource_arbiter.py\<close>), packed into
  batches (\<open>coordinator/batching.py\<close>) and executed as transactions (\<open>backends/transaction.py\<close>), whose
  evidence the policy judges (\<open>evaluation/policy.py\<close>). The repair kernel turns a solution of its
  geometry solver into a program of bounded edits (\<open>repair_kernel_closure/edit_authority/proposals.py\<close>).

  \<^bold>\<open>Conventions.\<close> Python's \<open>str\<close> is \<open>string\<close> with the order of character codes, \<open>int\<close> is \<open>int\<close> (Python's
  integers do not overflow), \<open>float\<close> is \<open>real\<close> (IEEE rounding is not modelled), a class is a record with
  a prefix of its own, an enumeration a datatype, a dictionary that is iterated an association list in
  insertion order, a set a set that the code only reads through \<open>sorted\<close>. An exception is the left side
  of \<open>'a result\<close>; code that changes the outside world is a program of \<open>Effects\<close>, which returns the state
  together with a value or an exception. A validator of a pydantic class is a function that returns the
  record or the error. Compiled modules, hashes, clocks, files and tools are fields of an environment or
  parameters; no law is assumed of them except where a property names it as a hypothesis (a digest that
  is injective, tools that answer), and each such property has a witness with concrete functions.

  \<^bold>\<open>Simplifications.\<close> Characters have codes up to 255, so the escapes of canonical JSON for other
  characters do not occur. In the arbiter, the current lease is one value, set and restored; that the code
  keeps one for each process and task (\<open>ContextVar\<close>), whose reset can fail, is not modelled. Nor are a
  failure to open the file of a slot, and one to read it for the status report (where the code would
  keep the lock); reading it for an acquisition and writing records and events can fail in the model.

  \<^bold>\<open>Shared theories.\<close> \<open>Prelude\<close> (errors, Python idioms on lists, sets and dictionaries), \<open>Json\<close> and
  \<open>Json_Values\<close> (JSON values, canonical text, conversions), \<open>Effects\<close> (programs with state and
  exceptions, \<open>try\<close>, \<open>finally\<close>), \<open>Graph_Search\<close> (breadth-first search, a locale interpreted by the
  closures of the window selection), \<open>Union_Find\<close> (path halving, interpreted for regions, connectivity
  and the agent graph).

  \<^bold>\<open>Records.\<close> \<open>Layout_Schemas\<close> (\<open>schemas/state.py\<close>), \<open>Action_Schemas\<close> (\<open>schemas/action.py\<close>),
  \<open>Workflow_Schemas\<close> (\<open>schemas/workflow.py\<close>), \<open>Tool_Schemas\<close> (\<open>schemas/tools.py\<close>), \<open>Failures\<close>
  (\<open>reliability/\<close>), \<open>Repair_Schemas\<close> (\<open>schemas/rules.py\<close>, \<open>schemas/repair_program.py\<close>, the models of the
  repair kernel), \<open>Config\<close> (\<open>config/loader.py\<close>: defaults, field constraints, validators, layers of
  overlays), \<open>Methods\<close> (\<open>config/methods.py\<close>).

  \<^bold>\<open>Components and what is proved of them.\<close>

  \<^item> \<open>Geometry\<close> (\<open>schemas/common.py\<close>): boxes, gaps, intersections and canonical polygons; the canonical
    polygon represents the ring, the integer gap is the rounded Euclidean one.
  \<^item> \<open>Regions\<close>, \<open>Region_Builder\<close> (\<open>regions/builder.py\<close>): construction never fails on valid input, covers
    every violation once and respects the caps; violations whose seeds share an editable object and lie
    within the affinity gap stay together (the code makes no edge between seeds that are further apart,
    which can share only an object longer than the seed window); the assertion of the code is shown
    never to fire.
  \<^item> \<open>Connectivity_Map\<close> (\<open>regions/connectivity.py\<close>): components are exactly the connected ones.
  \<^item> \<open>Local_Topology\<close> (\<open>regions/topology.py\<close>): the fragments of routes around violations, their endpoints,
    via landings and adjacencies.
  \<^item> \<open>Agent_Graph\<close> (\<open>graphs/agent.py\<close>): hard edges connect exactly the regions with a physical dependency;
    the three rounds of messages.
  \<^item> \<open>Active_Window\<close>, \<open>Window_Coordination\<close> (\<open>workflow/active_window.py\<close>): the selected window, its bounds
    and roles; the coordination loop is bounded and calls a bundle safe only with complete clean
    evidence for it.
  \<^item> \<open>Candidate_Checks\<close> (\<open>actions/candidates.py\<close>): the six levels of the checker, what exactly is
    accepted and what a rejection reports.
  \<^item> \<open>Batching\<close> (\<open>coordinator/batching.py\<close>): batches of whole bundles, bounded in what they
    really touch; the causes named by the attribution, which are certain only when one candidate is left.
  \<^item> \<open>Resource_Arbiter\<close> (\<open>infrastructure/resource_arbiter.py\<close>): a step relation over all interleavings of
    processes that acquire, renew, close and die; mutual exclusion and absence of leaks by rule
    induction.
  \<^item> \<open>Policy\<close> (\<open>evaluation/policy.py\<close> and two functions of \<open>workflow/runtime.py\<close>).
  \<^item> \<open>Attempts\<close>, \<open>Transactions\<close> (\<open>backends/transaction.py\<close>): the journal of attempts and the stages of a
    transaction as effects over an environment. \<open>Transaction_Accounting\<close>: each claim is finished exactly
    once and the index is complete, whatever is raised. \<open>Transaction_Results\<close>: commits only on complete
    evidence, a rejected run keeps the current snapshot. \<open>Transaction_Liveness\<close>: when the outside answers,
    a good patch commits. \<open>Transaction_Examples\<close>: concrete runs.
  \<^item> \<open>Metrics\<close> (\<open>observability/metrics.py\<close>): statistics of reports, coverage, usage.
  \<^item> \<open>Occurrence_Transforms\<close>, \<open>Edit_Authority\<close>, \<open>Edit_Programs\<close>, \<open>Edit_Lowering\<close>
    (\<open>edit_authority/proposals.py\<close>): the rigid transforms of cell occurrences, the closures of a move over
    merged metal and via landings, and the lowering of solver solutions to programs. \<open>Edit_Closures\<close>: the
    closures compute what they are meant to; a moved occurrence is shifted by exactly the displacement,
    under the verified transform of its provenance (compiled, a parameter) or the inferred one. \<open>Edit_Safety\<close>: a program stays within the edit authority of
    its region, and no solution is lost. \<open>Edit_Examples\<close>: concrete lowerings.

  \<^bold>\<open>Bounds, fuel, termination.\<close> Loops whose number of rounds is fixed in the code recurse on that number;
  the others are functions with a measure (the unseen nodes of a search, the geometries not yet in a
  component, the unread characters, the rounds left). The polling loops of the arbiter and of the
  transactions take the list of answers that the outside gives, one for each round, so that not
  returning is visible as the answers running out; termination is proved under hypotheses on the
  answers only.

  \<^bold>\<open>Not modelled.\<close> Modules that exist only as compiled files (the geometry solver, the scene and region
  compilers, the proof engine of the checker, the experience store, file locks) have no source to
  translate. The language-model agents (\<open>agents/\<close>, \<open>llm/\<close>, \<open>repair_kernel_integration/llm_planner.py\<close>)
  assemble prompts and read answers of a service. \<open>workflow/runtime.py\<close>, \<open>workflow/planning.py\<close> and
  \<open>repair_kernel_integration/production_engine.py\<close> orchestrate checkpoints, files, asynchronous tasks and
  calls of the parts above and of compiled modules; of them only the stopping policy is modelled. Of the
  configuration, YAML parsing and pydantic's conversions are left out; of the arbiter, the reading of
  environment variables and the asynchronous bridge; of the metrics, the writing of files; of the repair
  kernel's records, the numeric field constraints, since these records are built by compiled code. The
  command line, benchmarks and reports are not modelled.
\<close>

end
